(* ===== verification/Prelude.thy ===== *)
theory Prelude
  imports Main
begin

text \<open>
  Shared vocabulary of the development: outcomes of a request handler, transactions, the
  queries on a table that the services of \<^verbatim>\<open>src/src\<close> write with the Prisma client
  (find, conditional update, count, latest by a key), JavaScript truthiness, and the units of
  time.  Every component theory imports this one.
\<close>

named_theorems table_simps \<open>rewriting of queries on tables\<close>
named_theorems outcome_simps \<open>rewriting of handler outcomes\<close>

section \<open>Outcomes\<close>

text \<open>
  An exception is represented by its class (the HTTP status the client sees); message texts
  carry no state and are left out.  \<open>StellarFailure\<close> is a rejected promise of the Stellar client,
  \<open>UniqueViolation\<close> and \<open>RecordNotFound\<close> are Prisma's P2002 and P2025, \<open>TypeErrorExn\<close> is what
  JavaScript raises when a property of \<open>undefined\<close> is read.
\<close>

datatype exn =
    NotFoundException
  | ConflictException
  | ForbiddenException
  | BadRequestException
  | UnprocessableEntityException
  | UnauthorizedException
  | TooManyRequestsException
  | PlainError
  | TypeErrorExn
  | StellarFailure string
  | UniqueViolation
  | RecordNotFound

text \<open>
  An asynchronous handler changes the database step by step; an exception does not undo the
  writes made before it.  Its outcome is therefore a result and the state it leaves.
\<close>

type_synonym ('s, 'a) outcome = "(exn + 'a) \<times> 's"

definition throw :: "exn \<Rightarrow> 's \<Rightarrow> ('s, 'a) outcome" where
  "throw e s = (Inl e, s)"

definition return :: "'a \<Rightarrow> 's \<Rightarrow> ('s, 'a) outcome" where
  "return x s = (Inr x, s)"

definition and_then :: "('s, 'a) outcome \<Rightarrow> ('a \<Rightarrow> 's \<Rightarrow> ('s, 'b) outcome) \<Rightarrow> ('s, 'b) outcome" where
  "and_then r k = (case r of (Inl e, s) \<Rightarrow> (Inl e, s) | (Inr x, s) \<Rightarrow> k x s)"

text \<open>\<open>prisma.$transaction\<close>: an exception inside the body rolls its writes back.\<close>

definition transaction :: "('s \<Rightarrow> ('s, 'a) outcome) \<Rightarrow> 's \<Rightarrow> ('s, 'a) outcome" where
  "transaction body s = (case body s of (Inl e, _) \<Rightarrow> (Inl e, s) | (Inr x, s') \<Rightarrow> (Inr x, s'))"

lemma and_then_throw [simp]: "and_then (throw e s) k = throw e s"
  by (simp add: and_then_def throw_def)

lemma and_then_return [simp]: "and_then (return x s) k = k x s"
  by (simp add: and_then_def return_def)

lemma and_then_Inl [simp]: "and_then (Inl e, s) k = (Inl e, s)"
  by (simp add: and_then_def)

lemma and_then_Inr [simp]: "and_then (Inr x, s) k = k x s"
  by (simp add: and_then_def)

lemma throw_eq_iff [simp]: "throw e s = (r, t) \<longleftrightarrow> r = Inl e \<and> t = s"
  by (auto simp: throw_def)

lemma return_eq_iff [simp]: "return x s = (r, t) \<longleftrightarrow> r = Inr x \<and> t = s"
  by (auto simp: return_def)

lemma snd_throw [simp]: "snd (throw e s) = s" and fst_throw [simp]: "fst (throw e s) = Inl e"
  by (simp_all add: throw_def)

lemma snd_return [simp]: "snd (return x s) = s" and fst_return [simp]: "fst (return x s) = Inr x"
  by (simp_all add: return_def)

lemma and_then_Inr_iff:
  "and_then r k = (Inr y, t) \<longleftrightarrow> (\<exists>x s. r = (Inr x, s) \<and> k x s = (Inr y, t))"
  by (auto simp: and_then_def split: prod.splits sum.splits)

lemma transaction_Inl: "fst (transaction body s) = Inl e \<Longrightarrow> snd (transaction body s) = s"
  by (auto simp: transaction_def split: prod.splits sum.splits)

lemma transaction_Inr_iff: "transaction body s = (Inr x, t) \<longleftrightarrow> body s = (Inr x, t)"
  by (auto simp: transaction_def split: prod.splits sum.splits)

lemma transaction_return [simp]: "body s = (Inr x, t) \<Longrightarrow> transaction body s = (Inr x, t)"
  by (simp add: transaction_def)

lemma transaction_throw [simp]: "body s = (Inl e, t) \<Longrightarrow> transaction body s = (Inl e, s)"
  by (simp add: transaction_def)

section \<open>Values\<close>

type_synonym ident = string
type_synonym time = int
type_synonym stroops = int

definition second_ms :: int where "second_ms = 1000"
definition hour_ms :: int where "hour_ms = 60 * 60 * 1000"
definition day_ms :: int where "day_ms = 24 * 60 * 60 * 1000"

lemma ms_pos [simp]: "0 < second_ms" "0 < hour_ms" "0 < day_ms"
  by (simp_all add: second_ms_def hour_ms_def day_ms_def)

text \<open>JavaScript truthiness of an optional string: null, undefined and the empty string are falsy.\<close>

definition truthy :: "string option \<Rightarrow> bool" where
  "truthy v = (case v of None \<Rightarrow> False | Some s \<Rightarrow> s \<noteq> [])"

lemma truthy_simps [simp]: "truthy None = False" "truthy (Some s) = (s \<noteq> [])"
  by (simp_all add: truthy_def)

lemma truthy_iff: "truthy v \<longleftrightarrow> (\<exists>s. v = Some s \<and> s \<noteq> [])"
  by (cases v) auto

text \<open>\<open>a && b\<close> of optional dates in a comparison: an SQL comparison with NULL is never true.\<close>

definition lt_opt :: "int option \<Rightarrow> int \<Rightarrow> bool" where
  "lt_opt d t = (case d of None \<Rightarrow> False | Some x \<Rightarrow> x < t)"

definition le_opt :: "int option \<Rightarrow> int \<Rightarrow> bool" where
  "le_opt d t = (case d of None \<Rightarrow> False | Some x \<Rightarrow> x \<le> t)"

definition ge_opt :: "int option \<Rightarrow> int \<Rightarrow> bool" where
  "ge_opt d t = (case d of None \<Rightarrow> False | Some x \<Rightarrow> t \<le> x)"

lemma cmp_opt_simps [simp]:
  "lt_opt None t = False" "lt_opt (Some x) t = (x < t)"
  "le_opt None t = False" "le_opt (Some x) t = (x \<le> t)"
  "ge_opt None t = False" "ge_opt (Some x) t = (t \<le> x)"
  by (simp_all add: lt_opt_def le_opt_def ge_opt_def)

text \<open>BigInt division truncates towards zero, unlike \<open>div\<close>.\<close>

definition big_div :: "int \<Rightarrow> int \<Rightarrow> int" where
  "big_div a b = sgn a * sgn b * (\<bar>a\<bar> div \<bar>b\<bar>)"

definition big_mod :: "int \<Rightarrow> int \<Rightarrow> int" where
  "big_mod a b = a - b * big_div a b"

lemma big_div_nonneg: "0 \<le> a \<Longrightarrow> 0 < b \<Longrightarrow> big_div a b = a div b"
  by (cases "a = 0") (simp_all add: big_div_def)

lemma big_mod_nonneg: "0 \<le> a \<Longrightarrow> 0 < b \<Longrightarrow> big_mod a b = a mod b"
  by (simp add: big_mod_def big_div_nonneg minus_mult_div_eq_mod)

section \<open>Tables\<close>

text \<open>
  A table is the list of its rows.  The order of the list stands for whatever order the database
  returns when a query has no \<open>orderBy\<close>; no lemma assumes anything about it.
\<close>

definition update_where :: "('r \<Rightarrow> bool) \<Rightarrow> ('r \<Rightarrow> 'r) \<Rightarrow> 'r list \<Rightarrow> 'r list" where
  "update_where p f rs = map (\<lambda>r. if p r then f r else r) rs"

definition delete_where :: "('r \<Rightarrow> bool) \<Rightarrow> 'r list \<Rightarrow> 'r list" where
  "delete_where p rs = filter (\<lambda>r. \<not> p r) rs"

definition count_where :: "('r \<Rightarrow> bool) \<Rightarrow> 'r list \<Rightarrow> nat" where
  "count_where p rs = length (filter p rs)"

text \<open>\<open>findFirst\<close> with \<open>orderBy: { key: 'desc' }\<close>: a row with the greatest key.\<close>

definition latest_by :: "('r \<Rightarrow> 'k::linorder) \<Rightarrow> 'r list \<Rightarrow> 'r option" where
  "latest_by key rs = (case rs of [] \<Rightarrow> None
     | r # rest \<Rightarrow> Some (fold (\<lambda>y best. if key best < key y then y else best) rest r))"

lemma length_update_where [table_simps, simp]: "length (update_where p f rs) = length rs"
  by (simp add: update_where_def)

lemma update_where_Nil [table_simps, simp]: "update_where p f [] = []"
  by (simp add: update_where_def)

lemma update_where_Cons [table_simps, simp]:
  "update_where p f (r # rs) = (if p r then f r else r) # update_where p f rs"
  by (simp add: update_where_def)

lemma update_where_none [table_simps]: "\<forall>r \<in> set rs. \<not> p r \<Longrightarrow> update_where p f rs = rs"
  by (induction rs) auto

lemma set_update_where: "set (update_where p f rs) = (\<lambda>r. if p r then f r else r) ` set rs"
  by (simp add: update_where_def)

lemma map_update_where_key:
  "(\<And>r. key (f r) = key r) \<Longrightarrow> map key (update_where p f rs) = map key rs"
  by (induction rs) auto

lemma find_update_where:
  assumes "\<And>r. q (f r) = q r"
  shows "List.find q (update_where p f rs) =
    map_option (\<lambda>r. if p r then f r else r) (List.find q rs)"
  using assms by (induction rs) auto

lemma find_update_where_other:
  assumes "\<And>r. p r \<Longrightarrow> \<not> q r" and "\<And>r. p r \<Longrightarrow> \<not> q (f r)"
  shows "List.find q (update_where p f rs) = List.find q rs"
  using assms by (induction rs) auto

lemma find_SomeD: "List.find p rs = Some r \<Longrightarrow> p r \<and> r \<in> set rs"
  by (induction rs) (auto split: if_splits)

lemma find_append: "List.find p (xs @ ys) = (case List.find p xs of None \<Rightarrow> List.find p ys | Some r \<Rightarrow> Some r)"
  by (induction xs) auto

lemma find_None: "List.find p rs = None \<longleftrightarrow> (\<forall>r \<in> set rs. \<not> p r)"
  by (induction rs) auto

lemma find_cong_pred: "(\<And>r. r \<in> set rs \<Longrightarrow> p r = q r) \<Longrightarrow> List.find p rs = List.find q rs"
  by (induction rs) auto

lemma count_where_Nil [simp]: "count_where p [] = 0"
  by (simp add: count_where_def)

lemma count_where_Cons [simp]: "count_where p (r # rs) = (if p r then Suc (count_where p rs) else count_where p rs)"
  by (simp add: count_where_def)

lemma count_where_append [simp]: "count_where p (xs @ ys) = count_where p xs + count_where p ys"
  by (simp add: count_where_def)

lemma count_where_0: "count_where p rs = 0 \<longleftrightarrow> (\<forall>r \<in> set rs. \<not> p r)"
  by (induction rs) auto

lemma count_where_pos: "0 < count_where p rs \<longleftrightarrow> (\<exists>r \<in> set rs. p r)"
  by (induction rs) auto

lemma count_where_find: "0 < count_where p rs \<longleftrightarrow> List.find p rs \<noteq> None"
  by (induction rs) auto

lemma count_where_le_1:
  "distinct (map key rs) \<Longrightarrow> count_where (\<lambda>r. key r = k \<and> p r) rs \<le> 1"
proof (induction rs)
  case (Cons r rs)
  show ?case
  proof (cases "key r = k")
    case True
    with Cons.prems have "\<forall>r' \<in> set rs. key r' \<noteq> k" by (auto simp: image_iff)
    then have "count_where (\<lambda>r. key r = k \<and> p r) rs = 0" by (simp add: count_where_0)
    then show ?thesis by simp
  next
    case False
    with Cons show ?thesis by simp
  qed
qed simp

lemma find_key_unique:
  assumes "distinct (map key rs)" and "r \<in> set rs" and "key r = k"
  shows "List.find (\<lambda>r. key r = k) rs = Some r"
  using assms by (induction rs) auto

section \<open>Latest row\<close>

lemma fold_best:
  fixes key :: "'r \<Rightarrow> 'k::linorder"
  defines "m \<equiv> \<lambda>r rest. fold (\<lambda>y best. if key best < key y then y else best) rest r"
  shows "m r rest \<in> insert r (set rest) \<and> (\<forall>y \<in> insert r (set rest). key y \<le> key (m r rest))"
  unfolding m_def
proof (induction rest arbitrary: r)
  case (Cons y rest)
  show ?case
  proof (cases "key r < key y")
    case True
    then show ?thesis using Cons.IH [of y] by (auto intro: order_trans less_imp_le)
  next
    case False
    then show ?thesis using Cons.IH [of r] by (auto simp: not_less intro: order_trans)
  qed
qed simp

lemma latest_by_Some:
  assumes "latest_by key rs = Some m"
  shows "m \<in> set rs \<and> (\<forall>y \<in> set rs. key y \<le> key m)"
proof (cases rs)
  case Nil
  with assms show ?thesis by (simp add: latest_by_def)
next
  case (Cons r rest)
  with assms fold_best [where key = key and r = r and rest = rest] show ?thesis
    by (auto simp: latest_by_def)
qed

lemma latest_by_None [simp]: "latest_by key rs = None \<longleftrightarrow> rs = []"
  by (simp add: latest_by_def split: list.splits)

lemma latest_by_Nil [simp]: "latest_by key [] = None"
  by (simp add: latest_by_def)

lemma latest_by_unique:
  assumes "m \<in> set rs" and "\<And>y. y \<in> set rs \<Longrightarrow> y \<noteq> m \<Longrightarrow> key y < key m"
  shows "latest_by key rs = Some m"
proof -
  from assms(1) have "rs \<noteq> []" by auto
  then obtain m' where m': "latest_by key rs = Some m'" by (cases "latest_by key rs") auto
  from latest_by_Some [OF m'] assms(1) have "m' \<in> set rs" "key m \<le> key m'" by auto
  with assms(2) [of m'] have "m' = m" by fastforce
  with m' show ?thesis by simp
qed

end
