(* ===== verification/Store.thy ===== *)
theory Store
  imports Prelude
begin

text \<open>
  The escrow database of \<^verbatim>\<open>prisma/schema.prisma\<close>: the enums and the rows the escrow services
  read and write, the tables as lists of rows, the outbox of notifications, the log of on-chain
  calls, and the world a handler runs in (its clock, id generator and Stellar client).

  Field names carry a prefix per table (\<open>e_\<close>, \<open>m_\<close>, \<open>d_\<close>, \<dots>); enum values carry one where
  two enums of the schema share a name.  Free-text columns no handler branches on
  (\<open>jobDescription\<close>, \<open>salaryRange\<close>, \<open>location\<close>, candidate details) are left out, and so are
  foreign keys, except for \<open>Notification.userId\<close>, which some handlers fill with a fallback.
\<close>

section \<open>Enums\<close>

datatype engagement_status =
  PENDING_ACCEPTANCE | ACTIVE | COMPLETED | CANCELLED | REPLACEMENT_REQUESTED | ACCOUNT_MERGED

datatype milestone_status = LOCKED | PENDING | PROOF_SUBMITTED | CONFIRMED | DISPUTED | RESOLVED

datatype milestone_kind = PLACEMENT | RETENTION

datatype user_role = COMPANY | RECRUITER | ARBITER | ADMIN

datatype dispute_status = D_OPEN | D_UNDER_REVIEW | D_RESOLVED | D_CLOSED

datatype dispute_stage = ASSIGNMENT | ARBITER_REVIEW | APPEAL_REVIEW

datatype sla_status = ON_TRACK | OVERDUE | MET

datatype dispute_outcome = RELEASE | REFUND

datatype appeal_status = A_OPEN | A_DECIDED

datatype refund_status = REFUND_PENDING | REFUND_COMPLETED | REFUND_FAILED

datatype proof_status = V_SUBMITTED | V_APPROVED | V_REJECTED

datatype partial_status = P_PROPOSED | P_EXECUTED | P_REJECTED | P_FAILED

datatype remainder_action = RA_REFUND | RA_RETAIN

datatype proof_sla_action = ESCALATE_TO_ADMIN | AUTO_APPROVE

datatype notification_type =
    ENGAGEMENT_CREATED | MILESTONE_UNLOCKED | N_PROOF_SUBMITTED | MILESTONE_CONFIRMED
  | DISPUTE_RAISED | DISPUTE_RESOLVED | N_REPLACEMENT_REQUESTED | ENGAGEMENT_CANCELLED
  | PAYMENT_RELEASED | RETENTION_WINDOW_APPROACHING | ARBITER_ASSIGNED | ARBITER_RECUSAL_REQUESTED
  | FUNDING_SHORTFALL_DETECTED | DISPUTE_SLA_OVERDUE | DISPUTE_APPEALED | DISPUTE_APPEAL_DECIDED
  | DISPUTE_EVIDENCE_WINDOW_CLOSING | DISPUTE_MESSAGE_CREATED
  | PARTIAL_RELEASE_PROPOSED | PARTIAL_RELEASE_EXECUTED | PROOF_REJECTED
  | PROOF_REVIEW_REMINDER | PROOF_SLA_ESCALATED | MILESTONE_COMMENT_ADDED
  | PLACEMENT_MILESTONE_DUE_SOON | ACCOUNT_MERGE_DETECTED | STELLAR_BALANCE_LOW | ARBITER_REASSIGNED

section \<open>Rows\<close>

record user =
  u_id :: ident
  u_role :: user_role
  u_stellarAddress :: "string option"
  u_deactivatedAt :: "time option"
  u_deletedAt :: "time option"
  u_createdAt :: time
  u_proofSlaDays :: int
  u_proofSlaAction :: proof_sla_action
  u_planId :: "ident option"

record engagement =
  e_id :: ident
  e_companyAddress :: string
  e_recruiterAddress :: string
  e_arbiterAddress :: string
  e_companyId :: "ident option"
  e_recruiterId :: "ident option"
  e_arbiterId :: "ident option"
  e_clientId :: "ident option"
  e_freelancerId :: "ident option"
  e_tokenAddress :: string
  e_totalAmount :: stroops
  e_releasedAmount :: stroops
  e_fundingShortfall :: bool
  e_escrowBalance :: "stroops option"
  e_jobTitle :: string
  e_status :: engagement_status
  e_txHash :: "string option"
  e_createdLedger :: "int option"
  e_templateVersionId :: "ident option"
  e_tags :: "string list"
  e_archivedAt :: "time option"
  e_requiredApprovals :: int
  e_placedAt :: "time option"
  e_targetStartDate :: "time option"
  e_fundingRateUsd :: "string option"
  e_createdAt :: time

record milestone =
  m_id :: ident
  m_engagementId :: ident
  m_index :: nat
  m_kind :: milestone_kind
  m_paymentPercent :: int
  m_amount :: "stroops option"
  m_retentionDays :: "int option"
  m_validAfterLedger :: "int option"
  m_unlockEstimatedAt :: "time option"
  m_proofHash :: "string option"
  m_disputeReason :: "string option"
  m_approachingSent :: bool
  m_placementDueAt :: "time option"
  m_reminderSent :: bool
  m_status :: milestone_status
  m_paymentReleased :: "stroops option"
  m_confirmedAt :: "time option"

record schedule =
  s_id :: ident
  s_engagementId :: ident
  s_index :: nat
  s_validAfterLedger :: int
  s_unlockAt :: time
  s_notifyAt :: time
  s_unlocked :: bool
  s_notified :: bool

record dispute =
  d_id :: ident
  d_engagementId :: ident
  d_milestoneId :: ident
  d_raisedById :: "ident option"
  d_reason :: "string option"
  d_status :: dispute_status
  d_stage :: dispute_stage
  d_arbiterId :: "ident option"
  d_arbiterAssignedAt :: "time option"
  d_manuallyAssigned :: bool
  d_responseDeadline :: "time option"
  d_slaStatus :: sla_status
  d_slaEscalatedAt :: "time option"
  d_outcome :: "dispute_outcome option"
  d_resolvedAt :: "time option"
  d_appealDeadline :: "time option"
  d_fundsLocked :: bool
  d_fundsReleasedAt :: "time option"
  d_isFinal :: bool
  d_evidenceDeadline :: "time option"
  d_evidenceWarnedAt :: "time option"
  d_createdAt :: time

record appeal =
  a_id :: ident
  a_disputeId :: ident
  a_appellantId :: ident
  a_originalArbiterId :: "ident option"
  a_arbiterId :: "ident option"
  a_originalOutcome :: dispute_outcome
  a_status :: appeal_status
  a_outcome :: "dispute_outcome option"
  a_isFinal :: bool
  a_decidedAt :: "time option"

record refund =
  r_milestoneId :: ident
  r_amount :: stroops
  r_status :: refund_status

record payout =
  p_disputeId :: ident
  p_arbiterId :: ident
  p_percent :: bool
  p_amount :: stroops

record proof_version =
  v_id :: ident
  v_milestoneId :: ident
  v_number :: nat
  v_proofUrl :: "string option"
  v_content :: "string option"
  v_proofHash :: "string option"
  v_submittedById :: "ident option"
  v_status :: proof_status
  v_reviewedById :: "ident option"
  v_reviewedAt :: "time option"
  v_submittedAt :: time
  v_reminder50SentAt :: "time option"
  v_reminder90SentAt :: "time option"
  v_slaExpiredAt :: "time option"

record partial_release =
  pr_id :: ident
  pr_milestoneId :: ident
  pr_engagementId :: ident
  pr_proposedById :: "ident option"
  pr_releaseAmount :: stroops
  pr_remainderAmount :: stroops
  pr_remainderAction :: remainder_action
  pr_status :: partial_status
  pr_companyApproverId :: "ident option"
  pr_companyApprovedAt :: "time option"
  pr_recruiterApproverId :: "ident option"
  pr_recruiterApprovedAt :: "time option"
  pr_txHash :: "string option"
  pr_executedAt :: "time option"
  pr_failed :: bool

record milestone_audit =
  ma_milestoneId :: ident
  ma_from :: milestone_status
  ma_to :: milestone_status
  ma_changedBy :: ident
  ma_action :: string

record engagement_audit =
  ea_engagementId :: ident
  ea_from :: engagement_status
  ea_to :: engagement_status
  ea_changedBy :: ident

text \<open>
  Templates: \<open>milestoneConfig\<close> is JSON, of which the engagement service reads the milestones (kind and
  percentage) and the retention days.
\<close>

record template_item =
  ti_kind :: milestone_kind
  ti_paymentPercent :: "int option"

record engagement_template =
  tp_id :: ident
  tp_companyId :: ident
  tp_currentVersion :: nat
  tp_usageCount :: nat
  tp_lastUsedAt :: "time option"

record template_version =
  tv_id :: ident
  tv_templateId :: ident
  tv_version :: nat
  tv_jobTitle :: string
  tv_milestones :: "template_item list option"
  tv_retentionDays :: "int list option"

record engagement_note =
  en_id :: ident
  en_engagementId :: ident
  en_authorId :: ident
  en_body :: string
  en_createdAt :: time

record plan =
  pl_id :: ident
  pl_maxActive :: nat
  pl_feeBps :: int

datatype scan_status = SCAN_PENDING | SCAN_CLEAN | SCAN_INFECTED

record evidence =
  ev_id :: ident
  ev_milestoneId :: ident
  ev_uploadedBy :: ident
  ev_s3Path :: string
  ev_scanStatus :: scan_status

record dispute_message =
  dm_id :: ident
  dm_disputeId :: ident
  dm_authorId :: ident
  dm_body :: string
  dm_attachment :: "(string \<times> scan_status) option"
  dm_createdAt :: time

record milestone_comment =
  mc_id :: ident
  mc_milestoneId :: ident
  mc_engagementId :: ident
  mc_authorId :: "ident option"
  mc_body :: string
  mc_createdAt :: time

text \<open>Entries of the generic \<open>AuditLog\<close> table, with the old and new value as text.\<close>

record audit_entry =
  al_entityType :: string
  al_entityId :: ident
  al_action :: string
  al_old :: "string option"
  al_new :: string
  al_changedBy :: ident

text \<open>
  Notifications: \<open>notifyUser\<close> addresses a wallet, \<open>notifyUserById\<close> an account; both swallow
  their own errors.  \<open>InApp\<close> is a row written directly with \<open>prisma.notification.create\<close>.
\<close>

datatype recipient = ByAddress string | ById ident | InApp ident

text \<open>The contract calls the services submit through the Stellar client.\<close>

datatype chain_call =
    CreateEngagement ident
  | CancelEngagement ident
  | UnlockMilestone ident nat
  | ReleaseMilestone ident nat
  | ReleasePartial ident nat stroops bool
  | ResolveDispute ident nat bool

record db =
  t_users :: "user list"
  t_engagements :: "engagement list"
  t_milestones :: "milestone list"
  t_schedules :: "schedule list"
  t_disputes :: "dispute list"
  t_appeals :: "appeal list"
  t_recusals :: "(ident \<times> ident) list"
  t_refunds :: "refund list"
  t_payouts :: "payout list"
  t_approvals :: "(ident \<times> ident) list"
  t_proofs :: "proof_version list"
  t_partials :: "partial_release list"
  t_milestoneAudits :: "milestone_audit list"
  t_engagementAudits :: "engagement_audit list"
  t_auditLogs :: "audit_entry list"
  t_evidence :: "evidence list"
  t_messages :: "dispute_message list"
  t_comments :: "milestone_comment list"
  t_templates :: "engagement_template list"
  t_templateVersions :: "template_version list"
  t_notes :: "engagement_note list"
  t_plans :: "plan list"
  scanQueue :: "(string \<times> ident) list"
  outbox :: "(recipient \<times> notification_type) list"
  chainCalls :: "(chain_call \<times> bool) list"
  idSeq :: nat

definition empty_db :: db where
  "empty_db = \<lparr>t_users = [], t_engagements = [], t_milestones = [], t_schedules = [],
     t_disputes = [], t_appeals = [], t_recusals = [], t_refunds = [], t_payouts = [],
     t_approvals = [], t_proofs = [], t_partials = [], t_milestoneAudits = [],
     t_engagementAudits = [], t_auditLogs = [],
     t_evidence = [], t_messages = [], t_comments = [], t_templates = [],
     t_templateVersions = [], t_notes = [], t_plans = [], scanQueue = [], outbox = [], chainCalls = [],
     idSeq = 0\<rparr>"

section \<open>The world of a handler\<close>

text \<open>
  \<open>now\<close> is the clock, read once per handler; \<open>genId\<close> generates the n-th row id; \<open>chain\<close> answers the
  n-th on-chain call with an error message or a transaction hash; \<open>createLedger\<close> is the ledger a
  creation is included in; \<open>latestLedger\<close> answers \<open>getLatestLedger\<close>; \<open>unlockable\<close> answers
  \<open>isMilestoneUnlockable\<close> and \<open>untilUnlock\<close> answers \<open>ledgersUntilUnlock\<close>; \<open>s3Up\<close> tells whether an upload
  to the object store succeeds.  \<open>allowedTokens\<close> is the token allow-list, \<open>balanceOf\<close> answers
  \<open>getBalance\<close> for an account and a token, \<open>onChain\<close> the simulated \<open>get_engagement\<close> call (its status
  and released amount), \<open>sorobanFee\<close> the fee estimate.
\<close>

record env =
  now :: time
  genId :: "nat \<Rightarrow> ident"
  chain :: "nat \<Rightarrow> chain_call \<Rightarrow> string + string"
  createLedger :: "nat \<Rightarrow> int"
  latestLedger :: "string + int"
  unlockable :: "ident \<Rightarrow> nat \<Rightarrow> bool"
  untilUnlock :: "ident \<Rightarrow> nat \<Rightarrow> int"
  s3Up :: bool
  allowedTokens :: "string list"
  balanceOf :: "string \<Rightarrow> string \<Rightarrow> exn + stroops"
  contractId :: string
  onChain :: "ident \<Rightarrow> exn + (string \<times> stroops option) option"
  sorobanFee :: "exn + stroops"

definition call_chain :: "env \<Rightarrow> chain_call \<Rightarrow> db \<Rightarrow> (db, string) outcome" where
  "call_chain w c s = (case chain w (length (chainCalls s)) c of
     Inl m \<Rightarrow> (Inl (StellarFailure m), s\<lparr>chainCalls := chainCalls s @ [(c, False)]\<rparr>)
   | Inr h \<Rightarrow> (Inr h, s\<lparr>chainCalls := chainCalls s @ [(c, True)]\<rparr>))"

definition fresh_id :: "env \<Rightarrow> db \<Rightarrow> ident \<times> db" where
  "fresh_id w s = (genId w (idSeq s), s\<lparr>idSeq := Suc (idSeq s)\<rparr>)"

definition notify :: "recipient \<Rightarrow> notification_type \<Rightarrow> db \<Rightarrow> db" where
  "notify r t s = s\<lparr>outbox := outbox s @ [(r, t)]\<rparr>"

definition notify_all :: "recipient list \<Rightarrow> notification_type \<Rightarrow> db \<Rightarrow> db" where
  "notify_all rs t s = s\<lparr>outbox := outbox s @ map (\<lambda>r. (r, t)) rs\<rparr>"

text \<open>\<open>prisma.notification.create\<close>: the user must exist (foreign key of the table).\<close>

definition create_notification :: "ident \<Rightarrow> notification_type \<Rightarrow> db \<Rightarrow> (db, unit) outcome" where
  "create_notification uid t s =
     (if \<exists>u \<in> set (t_users s). u_id u = uid then return () (notify (InApp uid) t s)
      else throw PlainError s)"

fun create_notifications :: "ident list \<Rightarrow> notification_type \<Rightarrow> db \<Rightarrow> (db, unit) outcome" where
  "create_notifications [] t s = return () s"
| "create_notifications (u # us) t s =
     and_then (create_notification u t s) (\<lambda>_ s. create_notifications us t s)"

section \<open>Queries\<close>

definition find_engagement :: "ident \<Rightarrow> db \<Rightarrow> engagement option" where
  "find_engagement eid s = List.find (\<lambda>e. e_id e = eid) (t_engagements s)"

definition find_milestone :: "ident \<Rightarrow> nat \<Rightarrow> db \<Rightarrow> milestone option" where
  "find_milestone eid i s = List.find (\<lambda>m. m_engagementId m = eid \<and> m_index m = i) (t_milestones s)"

definition find_milestone_by_id :: "ident \<Rightarrow> db \<Rightarrow> milestone option" where
  "find_milestone_by_id mid s = List.find (\<lambda>m. m_id m = mid) (t_milestones s)"

definition find_dispute :: "ident \<Rightarrow> db \<Rightarrow> dispute option" where
  "find_dispute did s = List.find (\<lambda>d. d_id d = did) (t_disputes s)"

definition find_appeal :: "ident \<Rightarrow> db \<Rightarrow> appeal option" where
  "find_appeal did s = List.find (\<lambda>a. a_disputeId a = did) (t_appeals s)"

text \<open>\<open>orderBy: { milestoneIndex: 'asc' }\<close>.\<close>

definition milestones_of :: "ident \<Rightarrow> db \<Rightarrow> milestone list" where
  "milestones_of eid s = sort_key m_index (filter (\<lambda>m. m_engagementId m = eid) (t_milestones s))"

definition update_engagement :: "ident \<Rightarrow> (engagement \<Rightarrow> engagement) \<Rightarrow> db \<Rightarrow> db" where
  "update_engagement eid f s =
     s\<lparr>t_engagements := update_where (\<lambda>e. e_id e = eid) f (t_engagements s)\<rparr>"

definition update_milestone :: "ident \<Rightarrow> (milestone \<Rightarrow> milestone) \<Rightarrow> db \<Rightarrow> db" where
  "update_milestone mid f s =
     s\<lparr>t_milestones := update_where (\<lambda>m. m_id m = mid) f (t_milestones s)\<rparr>"

definition update_dispute :: "ident \<Rightarrow> (dispute \<Rightarrow> dispute) \<Rightarrow> db \<Rightarrow> db" where
  "update_dispute did f s =
     s\<lparr>t_disputes := update_where (\<lambda>d. d_id d = did) f (t_disputes s)\<rparr>"

text \<open>\<open>dispute.updateMany\<close>: the guarded update, with the number of rows it changed.\<close>

definition update_disputes :: "(dispute \<Rightarrow> bool) \<Rightarrow> (dispute \<Rightarrow> dispute) \<Rightarrow> db \<Rightarrow> nat \<times> db" where
  "update_disputes p f s =
     (count_where p (t_disputes s), s\<lparr>t_disputes := update_where p f (t_disputes s)\<rparr>)"

text \<open>\<open>refund.upsert\<close> on the unique \<open>milestoneId\<close>.\<close>

definition upsert_refund :: "refund \<Rightarrow> db \<Rightarrow> db" where
  "upsert_refund r s =
     (if \<exists>x \<in> set (t_refunds s). r_milestoneId x = r_milestoneId r
      then s\<lparr>t_refunds := update_where (\<lambda>x. r_milestoneId x = r_milestoneId r) (\<lambda>_. r) (t_refunds s)\<rparr>
      else s\<lparr>t_refunds := t_refunds s @ [r]\<rparr>)"

section \<open>Lemmas\<close>

lemma call_chain_log: "chainCalls (snd (call_chain w c s)) =
    chainCalls s @ [(c, \<not> isl (fst (call_chain w c s)))]"
  by (simp add: call_chain_def split: sum.splits)

lemma call_chain_Inr:
  "call_chain w c s = (Inr h, s') \<Longrightarrow> s' = s\<lparr>chainCalls := chainCalls s @ [(c, True)]\<rparr>"
  by (auto simp: call_chain_def split: sum.splits)

lemma call_chain_Inl:
  "call_chain w c s = (Inl e, s') \<Longrightarrow>
     s' = s\<lparr>chainCalls := chainCalls s @ [(c, False)]\<rparr> \<and> (\<exists>m. e = StellarFailure m)"
  by (auto simp: call_chain_def split: sum.splits)

lemma find_engagement_id: "find_engagement eid s = Some e \<Longrightarrow> e_id e = eid \<and> e \<in> set (t_engagements s)"
  by (auto simp: find_engagement_def dest: find_SomeD)

lemma find_milestone_id:
  "find_milestone eid i s = Some m \<Longrightarrow> m_engagementId m = eid \<and> m_index m = i \<and> m \<in> set (t_milestones s)"
  by (auto simp: find_milestone_def dest: find_SomeD)

lemma find_milestone_by_id_id: "find_milestone_by_id mid s = Some m \<Longrightarrow> m_id m = mid \<and> m \<in> set (t_milestones s)"
  by (auto simp: find_milestone_by_id_def dest: find_SomeD)

lemma find_dispute_id: "find_dispute did s = Some d \<Longrightarrow> d_id d = did \<and> d \<in> set (t_disputes s)"
  by (auto simp: find_dispute_def dest: find_SomeD)

lemma find_appeal_id: "find_appeal did s = Some a \<Longrightarrow> a_disputeId a = did \<and> a \<in> set (t_appeals s)"
  by (auto simp: find_appeal_def dest: find_SomeD)

text \<open>Reading back what an update wrote.\<close>

lemma find_update_engagement [simp]:
  assumes "\<And>e. e_id (f e) = e_id e"
  shows "find_engagement eid' (update_engagement eid f s) =
    (if eid' = eid then map_option f (find_engagement eid s) else find_engagement eid' s)"
proof -
  have "find_engagement eid' (update_engagement eid f s) =
    map_option (\<lambda>e. if e_id e = eid then f e else e) (find_engagement eid' s)"
    unfolding find_engagement_def update_engagement_def
    by (simp add: find_update_where assms)
  also have "\<dots> = (if eid' = eid then map_option f (find_engagement eid s) else find_engagement eid' s)"
    by (cases "find_engagement eid' s") (auto dest: find_engagement_id)
  finally show ?thesis .
qed

lemma find_update_dispute [simp]:
  assumes "\<And>d. d_id (f d) = d_id d"
  shows "find_dispute did' (update_dispute did f s) =
    (if did' = did then map_option f (find_dispute did s) else find_dispute did' s)"
proof -
  have "find_dispute did' (update_dispute did f s) =
    map_option (\<lambda>d. if d_id d = did then f d else d) (find_dispute did' s)"
    unfolding find_dispute_def update_dispute_def
    by (simp add: find_update_where assms)
  also have "\<dots> = (if did' = did then map_option f (find_dispute did s) else find_dispute did' s)"
    by (cases "find_dispute did' s") (auto dest: find_dispute_id)
  finally show ?thesis .
qed

lemma find_update_milestone_by_id [simp]:
  assumes "\<And>m. m_id (f m) = m_id m"
  shows "find_milestone_by_id mid' (update_milestone mid f s) =
    (if mid' = mid then map_option f (find_milestone_by_id mid s) else find_milestone_by_id mid' s)"
proof -
  have "find_milestone_by_id mid' (update_milestone mid f s) =
    map_option (\<lambda>m. if m_id m = mid then f m else m) (find_milestone_by_id mid' s)"
    unfolding find_milestone_by_id_def update_milestone_def
    by (simp add: find_update_where assms)
  also have "\<dots> = (if mid' = mid then map_option f (find_milestone_by_id mid s)
      else find_milestone_by_id mid' s)"
    by (cases "find_milestone_by_id mid' s") (auto dest: find_milestone_by_id_id)
  finally show ?thesis .
qed

lemma find_update_milestone:
  assumes "\<And>m. m_engagementId (f m) = m_engagementId m" and "\<And>m. m_index (f m) = m_index m"
  shows "find_milestone eid i (update_milestone mid f s) =
    map_option (\<lambda>m. if m_id m = mid then f m else m) (find_milestone eid i s)"
  unfolding find_milestone_def update_milestone_def
  by (simp add: find_update_where assms)

lemma find_update_disputes:
  assumes "\<And>d. d_id (f d) = d_id d"
  shows "find_dispute did (snd (update_disputes p f s)) =
    map_option (\<lambda>d. if p d then f d else d) (find_dispute did s)"
  unfolding find_dispute_def update_disputes_def by (simp add: find_update_where assms)

text \<open>What an update leaves alone.\<close>

lemma update_engagement_frame [simp]:
  "t_users (update_engagement eid f s) = t_users s"
  "t_milestones (update_engagement eid f s) = t_milestones s"
  "t_schedules (update_engagement eid f s) = t_schedules s"
  "t_disputes (update_engagement eid f s) = t_disputes s"
  "t_appeals (update_engagement eid f s) = t_appeals s"
  "t_refunds (update_engagement eid f s) = t_refunds s"
  "t_payouts (update_engagement eid f s) = t_payouts s"
  "t_approvals (update_engagement eid f s) = t_approvals s"
  "t_proofs (update_engagement eid f s) = t_proofs s"
  "t_partials (update_engagement eid f s) = t_partials s"
  "outbox (update_engagement eid f s) = outbox s"
  "chainCalls (update_engagement eid f s) = chainCalls s"
  "idSeq (update_engagement eid f s) = idSeq s"
  by (simp_all add: update_engagement_def)

lemma update_milestone_frame [simp]:
  "t_users (update_milestone mid g s) = t_users s"
  "t_engagements (update_milestone mid g s) = t_engagements s"
  "t_schedules (update_milestone mid g s) = t_schedules s"
  "t_disputes (update_milestone mid g s) = t_disputes s"
  "t_appeals (update_milestone mid g s) = t_appeals s"
  "t_refunds (update_milestone mid g s) = t_refunds s"
  "t_payouts (update_milestone mid g s) = t_payouts s"
  "t_approvals (update_milestone mid g s) = t_approvals s"
  "t_proofs (update_milestone mid g s) = t_proofs s"
  "t_partials (update_milestone mid g s) = t_partials s"
  "outbox (update_milestone mid g s) = outbox s"
  "chainCalls (update_milestone mid g s) = chainCalls s"
  "idSeq (update_milestone mid g s) = idSeq s"
  by (simp_all add: update_milestone_def)

lemma update_dispute_frame [simp]:
  "t_users (update_dispute did h s) = t_users s"
  "t_engagements (update_dispute did h s) = t_engagements s"
  "t_milestones (update_dispute did h s) = t_milestones s"
  "t_appeals (update_dispute did h s) = t_appeals s"
  "t_refunds (update_dispute did h s) = t_refunds s"
  "t_payouts (update_dispute did h s) = t_payouts s"
  "t_approvals (update_dispute did h s) = t_approvals s"
  "outbox (update_dispute did h s) = outbox s"
  "chainCalls (update_dispute did h s) = chainCalls s"
  "idSeq (update_dispute did h s) = idSeq s"
  by (simp_all add: update_dispute_def)

lemma upsert_refund_frame [simp]:
  "t_users (upsert_refund r s) = t_users s"
  "t_engagements (upsert_refund r s) = t_engagements s"
  "t_milestones (upsert_refund r s) = t_milestones s"
  "t_disputes (upsert_refund r s) = t_disputes s"
  "t_appeals (upsert_refund r s) = t_appeals s"
  "t_payouts (upsert_refund r s) = t_payouts s"
  "t_partials (upsert_refund r s) = t_partials s"
  "outbox (upsert_refund r s) = outbox s"
  "chainCalls (upsert_refund r s) = chainCalls s"
  by (simp_all add: upsert_refund_def)

lemma notify_frame [simp]:
  "t_users (notify r t s) = t_users s"
  "t_engagements (notify r t s) = t_engagements s"
  "t_milestones (notify r t s) = t_milestones s"
  "t_schedules (notify r t s) = t_schedules s"
  "t_disputes (notify r t s) = t_disputes s"
  "t_appeals (notify r t s) = t_appeals s"
  "t_refunds (notify r t s) = t_refunds s"
  "t_payouts (notify r t s) = t_payouts s"
  "t_approvals (notify r t s) = t_approvals s"
  "t_proofs (notify r t s) = t_proofs s"
  "t_partials (notify r t s) = t_partials s"
  "chainCalls (notify r t s) = chainCalls s"
  "outbox (notify r t s) = outbox s @ [(r, t)]"
  by (simp_all add: notify_def)

lemma notify_all_frame [simp]:
  "t_users (notify_all rs t s) = t_users s"
  "t_engagements (notify_all rs t s) = t_engagements s"
  "t_milestones (notify_all rs t s) = t_milestones s"
  "t_schedules (notify_all rs t s) = t_schedules s"
  "t_disputes (notify_all rs t s) = t_disputes s"
  "t_appeals (notify_all rs t s) = t_appeals s"
  "t_refunds (notify_all rs t s) = t_refunds s"
  "t_payouts (notify_all rs t s) = t_payouts s"
  "t_approvals (notify_all rs t s) = t_approvals s"
  "t_proofs (notify_all rs t s) = t_proofs s"
  "t_partials (notify_all rs t s) = t_partials s"
  "chainCalls (notify_all rs t s) = chainCalls s"
  "outbox (notify_all rs t s) = outbox s @ map (\<lambda>r. (r, t)) rs"
  by (simp_all add: notify_all_def)

lemma find_frame [simp]:
  "find_engagement eid (update_milestone mid g s) = find_engagement eid s"
  "find_engagement eid (update_dispute did h s) = find_engagement eid s"
  "find_engagement eid (notify r t s) = find_engagement eid s"
  "find_engagement eid (notify_all rs t s) = find_engagement eid s"
  "find_milestone eid i (update_engagement eid' f s) = find_milestone eid i s"
  "find_milestone eid i (update_dispute did h s) = find_milestone eid i s"
  "find_milestone eid i (notify r t s) = find_milestone eid i s"
  "find_milestone eid i (notify_all rs t s) = find_milestone eid i s"
  "find_milestone_by_id mid (update_dispute did h s) = find_milestone_by_id mid s"
  "find_milestone_by_id mid (notify r t s) = find_milestone_by_id mid s"
  "find_dispute did (update_milestone mid g s) = find_dispute did s"
  "find_dispute did (update_engagement eid' f s) = find_dispute did s"
  "find_dispute did (notify r t s) = find_dispute did s"
  "find_dispute did (notify_all rs t s) = find_dispute did s"
  "find_dispute did (upsert_refund rf s) = find_dispute did s"
  by (simp_all add: find_engagement_def find_milestone_def find_milestone_by_id_def find_dispute_def)

end
