(* ===== verification/Claim.thy ===== *)
theory Claim
  imports Prelude
begin

text \<open>
  The claim protocol several services use to make an external effect happen at most once without
  holding a database transaction across it: a guarded update claims the row (the worker that
  changed a row wins), the effect is attempted, and the worker either rolls the claim back or
  records completion.  Between two of these steps any other worker, job or request may run.

  The machine below interleaves the database steps of any number of workers with interference;
  the locale states the laws a service has to provide, and proves once that the effect happens at
  most once.  \<open>DisputeRaces\<close>, \<open>PartialRelease\<close> and \<open>Sessions\<close> interpret it on the model of the code.
\<close>

datatype phase = Idle | Claimed | Paid | Done

record 's csys =
  shared :: 's
  phase_of :: "nat \<Rightarrow> phase"
  paid :: nat

definition critical :: "phase \<Rightarrow> bool" where
  "critical p \<longleftrightarrow> p = Claimed \<or> p = Paid"

lemma critical_simps [simp]:
  "critical Claimed" "critical Paid" "\<not> critical Idle" "\<not> critical Done"
  by (simp_all add: critical_def)

inductive claim_step ::
  "('s \<Rightarrow> bool) \<Rightarrow> ('s \<Rightarrow> 's) \<Rightarrow> ('s \<Rightarrow> 's) \<Rightarrow> ('s \<Rightarrow> 's \<Rightarrow> bool) \<Rightarrow> ('s \<Rightarrow> 's \<Rightarrow> bool) \<Rightarrow>
     's csys \<Rightarrow> 's csys \<Rightarrow> bool"
  for free claim rollback finish interfere where
  lose: "phase_of c i = Idle \<Longrightarrow> \<not> free (shared c) \<Longrightarrow>
     claim_step free claim rollback finish interfere c (c\<lparr>phase_of := (phase_of c)(i := Done)\<rparr>)"
| win: "phase_of c i = Idle \<Longrightarrow> free (shared c) \<Longrightarrow>
     claim_step free claim rollback finish interfere c
       (c\<lparr>shared := claim (shared c), phase_of := (phase_of c)(i := Claimed)\<rparr>)"
| pay: "phase_of c i = Claimed \<Longrightarrow>
     claim_step free claim rollback finish interfere c
       (c\<lparr>phase_of := (phase_of c)(i := Paid), paid := Suc (paid c)\<rparr>)"
| fail: "phase_of c i = Claimed \<Longrightarrow>
     claim_step free claim rollback finish interfere c
       (c\<lparr>shared := rollback (shared c), phase_of := (phase_of c)(i := Done)\<rparr>)"
| finish: "phase_of c i = Paid \<Longrightarrow> finish (shared c) s' \<Longrightarrow>
     claim_step free claim rollback finish interfere c
       (c\<lparr>shared := s', phase_of := (phase_of c)(i := Done)\<rparr>)"
| retry: "phase_of c i = Done \<Longrightarrow>
     claim_step free claim rollback finish interfere c (c\<lparr>phase_of := (phase_of c)(i := Idle)\<rparr>)"
| interfere: "interfere (shared c) s' \<Longrightarrow>
     claim_step free claim rollback finish interfere c (c\<lparr>shared := s'\<rparr>)"

inductive_cases claim_stepE: "claim_step free claim rollback finish interfere c c'"

inductive claim_run ::
  "('s \<Rightarrow> bool) \<Rightarrow> ('s \<Rightarrow> 's) \<Rightarrow> ('s \<Rightarrow> 's) \<Rightarrow> ('s \<Rightarrow> 's \<Rightarrow> bool) \<Rightarrow> ('s \<Rightarrow> 's \<Rightarrow> bool) \<Rightarrow>
     's csys \<Rightarrow> 's csys \<Rightarrow> bool"
  for free claim rollback finish interfere where
  refl: "claim_run free claim rollback finish interfere c c"
| step: "claim_run free claim rollback finish interfere c c' \<Longrightarrow>
     claim_step free claim rollback finish interfere c' c'' \<Longrightarrow>
     claim_run free claim rollback finish interfere c c''"

text \<open>Every worker idle, nothing paid.\<close>

definition claim_init :: "'s \<Rightarrow> 's csys" where
  "claim_init s = \<lparr>shared = s, phase_of = (\<lambda>_. Idle), paid = 0\<rparr>"

text \<open>At most one worker is between its claim and its completion.\<close>

definition solo :: "(nat \<Rightarrow> phase) \<Rightarrow> bool" where
  "solo f \<longleftrightarrow> (\<forall>i j. critical (f i) \<longrightarrow> critical (f j) \<longrightarrow> i = j)"

lemma solo_other: "solo f \<Longrightarrow> critical (f i) \<Longrightarrow> j \<noteq> i \<Longrightarrow> \<not> critical (f j)"
  unfolding solo_def by blast

lemma solo_upd: "(\<And>j. j \<noteq> i \<Longrightarrow> \<not> critical (f j)) \<Longrightarrow> solo (f(i := p))"
  unfolding solo_def by (metis fun_upd_apply)

lemma solo_drop: "solo f \<Longrightarrow> \<not> critical p \<Longrightarrow> solo (f(i := p))"
  unfolding solo_def by (metis fun_upd_apply)

locale claim_protocol =
  fixes inv :: "'s \<Rightarrow> bool"
    and free :: "'s \<Rightarrow> bool"
    and held :: "'s \<Rightarrow> bool"
    and claim :: "'s \<Rightarrow> 's"
    and rollback :: "'s \<Rightarrow> 's"
    and finish :: "'s \<Rightarrow> 's \<Rightarrow> bool"
    and interfere :: "'s \<Rightarrow> 's \<Rightarrow> bool"
  assumes held_not_free: "held s \<Longrightarrow> \<not> free s"
    and claim_held: "inv s \<Longrightarrow> free s \<Longrightarrow> inv (claim s) \<and> held (claim s)"
    and rollback_inv: "inv s \<Longrightarrow> held s \<Longrightarrow> inv (rollback s)"
    and finish_held: "inv s \<Longrightarrow> held s \<Longrightarrow> finish s s' \<Longrightarrow> inv s' \<and> held s'"
    and interfere_inv: "inv s \<Longrightarrow> interfere s s' \<Longrightarrow> inv s'"
    and interfere_held: "inv s \<Longrightarrow> held s \<Longrightarrow> interfere s s' \<Longrightarrow> held s'"
begin

definition good :: "'s csys \<Rightarrow> bool" where
  "good c \<longleftrightarrow> inv (shared c) \<and> solo (phase_of c) \<and>
     (\<forall>i. critical (phase_of c i) \<longrightarrow> held (shared c)) \<and>
     (paid c \<noteq> 0 \<longrightarrow> paid c = 1 \<and> held (shared c)) \<and>
     (\<forall>i. phase_of c i = Claimed \<longrightarrow> paid c = 0) \<and>
     (\<forall>i. phase_of c i = Paid \<longrightarrow> paid c = 1)"

lemma goodD:
  assumes "good c"
  shows "inv (shared c)" and "solo (phase_of c)"
    and "critical (phase_of c i) \<Longrightarrow> held (shared c)"
    and "paid c \<noteq> 0 \<Longrightarrow> paid c = 1" and "paid c \<noteq> 0 \<Longrightarrow> held (shared c)"
    and "phase_of c i = Claimed \<Longrightarrow> paid c = 0"
    and "phase_of c i = Paid \<Longrightarrow> paid c = 1"
  using assms unfolding good_def by blast+

lemma goodI:
  assumes "inv (shared c)" and "solo (phase_of c)"
    and "\<And>i. critical (phase_of c i) \<Longrightarrow> held (shared c)"
    and "paid c \<noteq> 0 \<Longrightarrow> paid c = 1 \<and> held (shared c)"
    and "\<And>i. phase_of c i = Claimed \<Longrightarrow> paid c = 0"
    and "\<And>i. phase_of c i = Paid \<Longrightarrow> paid c = 1"
  shows "good c"
  using assms unfolding good_def by blast

lemma good_init: "inv s \<Longrightarrow> good (claim_init s)"
  by (simp add: good_def claim_init_def solo_def)

lemma not_critical: "\<not> critical p \<Longrightarrow> p \<noteq> Claimed \<and> p \<noteq> Paid"
  by auto

lemma good_lose:
  assumes g: "good c" and p: "\<not> critical p"
  shows "good (c\<lparr>phase_of := (phase_of c)(i := p)\<rparr>)"
proof (rule goodI)
  let ?c = "c\<lparr>phase_of := (phase_of c)(i := p)\<rparr>"
  have old: "critical (phase_of ?c j) \<Longrightarrow> phase_of c j = phase_of ?c j" for j
    using p by (simp split: if_splits)
  show "solo (phase_of ?c)" using solo_drop [OF goodD(2) [OF g] p] by simp
  show "inv (shared ?c)" using goodD(1) [OF g] by simp
  show "paid ?c \<noteq> 0 \<Longrightarrow> paid ?c = 1 \<and> held (shared ?c)" using goodD(4,5) [OF g] by simp
  show "held (shared ?c)" if "critical (phase_of ?c j)" for j
    using goodD(3) [OF g, of j] old [OF that] that by simp
  show "paid ?c = 0" if "phase_of ?c j = Claimed" for j
    using goodD(6) [OF g, of j] old [of j] that by simp
  show "paid ?c = 1" if "phase_of ?c j = Paid" for j
    using goodD(7) [OF g, of j] old [of j] that by simp
qed

lemma good_win:
  assumes g: "good c" and f: "free (shared c)"
  shows "good (c\<lparr>shared := claim (shared c), phase_of := (phase_of c)(i := Claimed)\<rparr>)"
proof -
  have nh: "\<not> held (shared c)" using f held_not_free by blast
  then have none: "\<not> critical (phase_of c j)" "paid c = 0" for j using goodD [OF g] by blast+
  have np: "phase_of c j \<noteq> Paid" for j using none(1) [of j] by auto
  show ?thesis
    by (rule goodI) (use none np claim_held [OF goodD(1) [OF g] f] in
        \<open>auto intro: solo_upd split: if_splits\<close>)
qed

lemma good_pay:
  assumes g: "good c" and i: "phase_of c i = Claimed"
  shows "good (c\<lparr>phase_of := (phase_of c)(i := Paid), paid := Suc (paid c)\<rparr>)"
proof -
  have h: "held (shared c)" "paid c = 0" using goodD(3,6) [OF g, of i] i by auto
  have o: "\<not> critical (phase_of c j)" if "j \<noteq> i" for j
    using solo_other [OF goodD(2) [OF g] _ that] i by simp
  have o': "phase_of c j \<noteq> Claimed" if "j \<noteq> i" for j using o [OF that] by auto
  show ?thesis
    by (rule goodI) (use h o o' goodD(1) [OF g] in \<open>auto intro: solo_upd split: if_splits\<close>)
qed

lemma good_release:
  assumes g: "good c" and i: "critical (phase_of c i)" and s': "inv s'" "paid c \<noteq> 0 \<Longrightarrow> held s'"
  shows "good (c\<lparr>shared := s', phase_of := (phase_of c)(i := Done)\<rparr>)"
proof -
  have o: "\<not> critical (phase_of c j)" if "j \<noteq> i" for j
    using solo_other [OF goodD(2) [OF g] i that] .
  have o': "phase_of c j \<noteq> Claimed \<and> phase_of c j \<noteq> Paid" if "j \<noteq> i" for j using o [OF that] by auto
  show ?thesis
    by (rule goodI) (use s' o o' goodD(4) [OF g] in \<open>auto intro: solo_upd split: if_splits\<close>)
qed

lemma good_step:
  assumes "claim_step free claim rollback finish interfere c c'" and "good c"
  shows "good c'"
  using assms(1)
proof (cases rule: claim_step.cases)
  case (fail i)
  then have "held (shared c)" "paid c = 0" using goodD(3,6) [OF assms(2), of i] by auto
  with fail assms(2) rollback_inv [OF goodD(1) [OF assms(2)]] show ?thesis
    by (auto intro!: good_release)
next
  case (finish i s')
  then have "held (shared c)" using goodD(3) [OF assms(2), of i] by auto
  from finish_held [OF goodD(1) [OF assms(2)] this finish(3)] finish assms(2) show ?thesis
    by (auto intro!: good_release)
next
  case (interfere s')
  show ?thesis
    by (rule goodI) (use interfere goodD [OF assms(2)] interfere_inv interfere_held in auto)
qed (use assms(2) in \<open>auto intro: good_lose good_win good_pay\<close>)

lemma good_run:
  assumes "claim_run free claim rollback finish interfere c c'" and "good c"
  shows "good c'"
  using assms by (induction rule: claim_run.induct) (auto intro: good_step)

text \<open>The effect happens at most once, and once it has, the row can never be claimed again.\<close>

lemma at_most_once:
  assumes "claim_run free claim rollback finish interfere (claim_init s) c" and "inv s"
  shows "paid c \<le> 1"
  using goodD(4) [OF good_run [OF assms(1) good_init [OF assms(2)]]] by linarith

lemma paid_not_free:
  assumes "claim_run free claim rollback finish interfere (claim_init s) c" and "inv s" and "paid c = 1"
  shows "\<not> free (shared c)"
  using goodD(5) [OF good_run [OF assms(1) good_init [OF assms(2)]]] assms(3) held_not_free by simp

lemma one_worker:
  assumes "claim_run free claim rollback finish interfere (claim_init s) c" and "inv s"
    and "critical (phase_of c i)" and "critical (phase_of c j)"
  shows "i = j"
  using solo_other [OF goodD(2) [OF good_run [OF assms(1) good_init [OF assms(2)]]] assms(3)] assms(4)
  by metis

end

text \<open>A claim whose rollback makes the row claimable again: a failed attempt can be retried.\<close>

locale retryable_claim = claim_protocol +
  assumes rollback_free: "inv s \<Longrightarrow> free s \<Longrightarrow> free (rollback (claim s))"
begin

lemma fail_then_free:
  assumes "phase_of c i = Idle" and "free (shared c)" and "inv (shared c)"
  shows "\<exists>c'. claim_run free claim rollback finish interfere c c' \<and> free (shared c') \<and>
    phase_of c' i = Idle \<and> paid c' = paid c"
proof -
  let ?c1 = "c\<lparr>shared := claim (shared c), phase_of := (phase_of c)(i := Claimed)\<rparr>"
  let ?c2 = "?c1\<lparr>shared := rollback (shared ?c1), phase_of := (phase_of ?c1)(i := Done)\<rparr>"
  let ?c3 = "?c2\<lparr>phase_of := (phase_of ?c2)(i := Idle)\<rparr>"
  have "claim_step free claim rollback finish interfere c ?c1" using assms by (intro claim_step.win)
  moreover have "claim_step free claim rollback finish interfere ?c1 ?c2" by (intro claim_step.fail) simp
  moreover have "claim_step free claim rollback finish interfere ?c2 ?c3" by (intro claim_step.retry) simp
  ultimately have "claim_run free claim rollback finish interfere c ?c3"
    by (meson claim_run.refl claim_run.step)
  with rollback_free [OF assms(3,2)] show ?thesis by (intro exI [of _ ?c3]) simp
qed

end

end
