(* ===== verification/DisputeSla.thy ===== *)
theory DisputeSla
  imports Store Complex_Main
begin

text \<open>
  \<^verbatim>\<open>modules/disputes/dispute-sla.service.ts\<close> and \<^verbatim>\<open>dispute.constants.ts\<close>: the response
  deadline every stage of a dispute carries, the status recorded when a stage is completed, and
  the two jobs that run every ten minutes, one flags overdue disputes, one warns of a closing
  evidence window.  The distributed lock the jobs take is an argument here (\<open>locked\<close>: whether
  the token was obtained); the lock itself is the theory \<open>LockStore\<close>.
\<close>

text \<open>
  Configuration of the dispute services: admin overrides when the system configuration service
  is injected, the environment's hours otherwise; the appeal and evidence windows; the fee.
\<close>

record dispute_config =
  sysHours :: "(dispute_stage \<Rightarrow> int) option"
  stageHours :: "dispute_stage \<Rightarrow> int"
  evidenceWarningHours :: int
  appealWindowHours :: int
  evidenceWindowHours :: int
  arbiterFeeFlat :: bool
  arbiterFeeValue :: rat

definition default_config :: dispute_config where
  "default_config = \<lparr>sysHours = None,
     stageHours = (\<lambda>st. case st of ASSIGNMENT \<Rightarrow> 24 | ARBITER_REVIEW \<Rightarrow> 72 | APPEAL_REVIEW \<Rightarrow> 72),
     evidenceWarningHours = 12, appealWindowHours = 72, evidenceWindowHours = 72,
     arbiterFeeFlat = False, arbiterFeeValue = 5\<rparr>"

definition active_statuses :: "dispute_status list" where
  "active_statuses = [D_OPEN, D_UNDER_REVIEW]"

abbreviation active :: "dispute_status \<Rightarrow> bool" where
  "active st \<equiv> st \<in> set active_statuses"

lemma active_iff [simp]: "active st \<longleftrightarrow> st = D_OPEN \<or> st = D_UNDER_REVIEW"
  by (auto simp: active_statuses_def)

section \<open>Deadlines\<close>

definition hours_for :: "dispute_config \<Rightarrow> dispute_stage \<Rightarrow> int" where
  "hours_for cfg st = (case sysHours cfg of Some f \<Rightarrow> f st | None \<Rightarrow> stageHours cfg st)"

definition deadline_for :: "dispute_config \<Rightarrow> dispute_stage \<Rightarrow> time \<Rightarrow> time" where
  "deadline_for cfg st from_t = from_t + hours_for cfg st * hour_ms"

text \<open>The fields written when a dispute enters a stage, as an update of the row.\<close>

definition stage_fields :: "dispute_config \<Rightarrow> dispute_stage \<Rightarrow> time \<Rightarrow> dispute \<Rightarrow> dispute" where
  "stage_fields cfg st from_t d = d\<lparr>d_stage := st,
     d_responseDeadline := Some (deadline_for cfg st from_t),
     d_slaStatus := ON_TRACK, d_slaEscalatedAt := None\<rparr>"

definition completion_status :: "dispute \<Rightarrow> time \<Rightarrow> sla_status" where
  "completion_status d t =
     (if d_slaStatus d = OVERDUE then OVERDUE
      else if (case d_responseDeadline d of None \<Rightarrow> False | Some x \<Rightarrow> x < t) then OVERDUE
      else MET)"

section \<open>The overdue job\<close>

definition active_admins :: "db \<Rightarrow> ident list" where
  "active_admins s = map u_id (filter (\<lambda>u. u_role u = ADMIN \<and> u_deactivatedAt u = None) (t_users s))"

definition overdue_at :: "time \<Rightarrow> dispute \<Rightarrow> bool" where
  "overdue_at t d \<longleftrightarrow> active (d_status d) \<and> d_slaStatus d = ON_TRACK \<and> le_opt (d_responseDeadline d) t"

fun flag_loop :: "time \<Rightarrow> ident list \<Rightarrow> dispute list \<Rightarrow> nat \<Rightarrow> db \<Rightarrow> nat \<times> db" where
  "flag_loop t admins [] flagged s = (flagged, s)"
| "flag_loop t admins (d # ds) flagged s =
     (let (n, s1) = update_disputes
            (\<lambda>x. d_id x = d_id d \<and> d_slaStatus x = ON_TRACK \<and> active (d_status x))
            (\<lambda>x. x\<lparr>d_slaStatus := OVERDUE, d_slaEscalatedAt := Some t\<rparr>) s
      in if n = 0 then flag_loop t admins ds flagged s1
         else flag_loop t admins ds (Suc flagged)
                (notify_all (map ById admins) DISPUTE_SLA_OVERDUE s1))"

definition flagOverdueDisputes :: "env \<Rightarrow> bool \<Rightarrow> db \<Rightarrow> nat \<times> db" where
  "flagOverdueDisputes w locked s =
     (if \<not> locked then (0, s)
      else let overdue = filter (overdue_at (now w)) (t_disputes s)
           in if overdue = [] then (0, s)
              else flag_loop (now w) (active_admins s) overdue 0 s)"

section \<open>The evidence window job\<close>

definition parties_ids :: "engagement \<Rightarrow> ident list" where
  "parties_ids e = [u. Some u \<leftarrow> [e_companyId e, e_recruiterId e], u \<noteq> []]"

definition closing_soon :: "dispute_config \<Rightarrow> time \<Rightarrow> dispute \<Rightarrow> bool" where
  "closing_soon cfg t d \<longleftrightarrow> active (d_status d) \<and> d_evidenceWarnedAt d = None \<and>
     (case d_evidenceDeadline d of None \<Rightarrow> False
      | Some e \<Rightarrow> e \<le> t + evidenceWarningHours cfg * hour_ms \<and> t < e)"

fun warn_loop :: "time \<Rightarrow> dispute list \<Rightarrow> nat \<Rightarrow> db \<Rightarrow> nat \<times> db" where
  "warn_loop t [] warned s = (warned, s)"
| "warn_loop t (d # ds) warned s =
     (let (n, s1) = update_disputes (\<lambda>x. d_id x = d_id d \<and> d_evidenceWarnedAt x = None)
            (\<lambda>x. x\<lparr>d_evidenceWarnedAt := Some t\<rparr>) s
      in if n = 0 then warn_loop t ds warned s1
         else (case find_engagement (d_engagementId d) s1 of
                 None \<Rightarrow> warn_loop t ds (Suc warned) s1
               | Some e \<Rightarrow> warn_loop t ds (Suc warned)
                   (notify_all (map ById (parties_ids e)) DISPUTE_EVIDENCE_WINDOW_CLOSING s1)))"

definition notifyEvidenceDeadlinesClosing :: "dispute_config \<Rightarrow> env \<Rightarrow> bool \<Rightarrow> db \<Rightarrow> nat \<times> db" where
  "notifyEvidenceDeadlinesClosing cfg w locked s =
     (if \<not> locked then (0, s)
      else let closing = filter (closing_soon cfg (now w)) (t_disputes s)
           in if closing = [] then (0, s) else warn_loop (now w) closing 0 s)"

section \<open>Lemmas\<close>

lemma completion_status_MET:
  "completion_status d t = MET \<longleftrightarrow>
     d_slaStatus d \<noteq> OVERDUE \<and> (\<forall>x. d_responseDeadline d = Some x \<longrightarrow> t \<le> x)"
  by (auto simp: completion_status_def split: option.splits)

lemma stage_fields_simps [simp]:
  "d_id (stage_fields cfg st t d) = d_id d"
  "d_status (stage_fields cfg st t d) = d_status d"
  "d_stage (stage_fields cfg st t d) = st"
  "d_slaStatus (stage_fields cfg st t d) = ON_TRACK"
  "d_arbiterId (stage_fields cfg st t d) = d_arbiterId d"
  "d_fundsReleasedAt (stage_fields cfg st t d) = d_fundsReleasedAt d"
  "d_fundsLocked (stage_fields cfg st t d) = d_fundsLocked d"
  "d_isFinal (stage_fields cfg st t d) = d_isFinal d"
  "d_outcome (stage_fields cfg st t d) = d_outcome d"
  "d_milestoneId (stage_fields cfg st t d) = d_milestoneId d"
  "d_engagementId (stage_fields cfg st t d) = d_engagementId d"
  "d_manuallyAssigned (stage_fields cfg st t d) = d_manuallyAssigned d"
  "d_responseDeadline (stage_fields cfg st t d) = Some (deadline_for cfg st t)"
  by (simp_all add: stage_fields_def)

text \<open>What the flagging loop does to the table, for rows with distinct ids.\<close>

definition flag_row :: "time \<Rightarrow> dispute \<Rightarrow> dispute" where
  "flag_row t x = x\<lparr>d_slaStatus := OVERDUE, d_slaEscalatedAt := Some t\<rparr>"

lemma flag_row_simps [simp]:
  "d_id (flag_row t x) = d_id x" "d_status (flag_row t x) = d_status x"
  "d_slaStatus (flag_row t x) = OVERDUE" "d_responseDeadline (flag_row t x) = d_responseDeadline x"
  by (simp_all add: flag_row_def)

lemma flag_row_eq: "flag_row t = (\<lambda>x. x\<lparr>d_slaStatus := OVERDUE, d_slaEscalatedAt := Some t\<rparr>)"
  by (rule ext) (simp add: flag_row_def)

lemma flag_loop_result:
  assumes "distinct (map d_id ds)"
    and "\<And>d. d \<in> set ds \<Longrightarrow> d \<in> set (t_disputes s) \<and> d_slaStatus d = ON_TRACK \<and> active (d_status d)"
    and "distinct (map d_id (t_disputes s))"
  shows "fst (flag_loop t admins ds k s) = k + length ds \<and>
    t_disputes (snd (flag_loop t admins ds k s)) =
      update_where (\<lambda>x. d_id x \<in> d_id ` set ds) (flag_row t) (t_disputes s) \<and>
    outbox (snd (flag_loop t admins ds k s)) =
      outbox s @ concat (replicate (length ds) (map (\<lambda>a. (ById a, DISPUTE_SLA_OVERDUE)) admins))"
  using assms
proof (induction ds arbitrary: s k)
  case Nil
  then show ?case by (simp add: update_where_def map_idI)
next
  case (Cons d ds)
  let ?p = "\<lambda>x. d_id x = d_id d \<and> d_slaStatus x = ON_TRACK \<and> active (d_status x)"
  let ?T = "update_where ?p (flag_row t) (t_disputes s)"
  let ?s = "notify_all (map ById admins) DISPUTE_SLA_OVERDUE (s\<lparr>t_disputes := ?T\<rparr>)"
  have d: "d \<in> set (t_disputes s)" "?p d" using Cons.prems(2) [of d] by auto
  have pos: "count_where ?p (t_disputes s) \<noteq> 0"
    using d by (auto simp: count_where_0)
  have step: "flag_loop t admins (d # ds) k s = flag_loop t admins ds (Suc k) ?s"
    using pos by (simp add: update_disputes_def flag_row_eq)
  have T: "?T = update_where (\<lambda>x. d_id x = d_id d) (flag_row t) (t_disputes s)"
  proof -
    have "\<And>x. x \<in> set (t_disputes s) \<Longrightarrow> d_id x = d_id d \<Longrightarrow> x = d"
      using Cons.prems(3) d(1) by (auto simp: distinct_map inj_on_def)
    then show ?thesis using d(2) by (auto simp: update_where_def)
  qed
  have "distinct (map d_id (t_disputes ?s))"
    using Cons.prems(3) by (simp add: map_update_where_key)
  moreover have "x \<in> set (t_disputes ?s) \<and> d_slaStatus x = ON_TRACK \<and> active (d_status x)"
    if x: "x \<in> set ds" for x
  proof -
    have "d_id x \<noteq> d_id d" using Cons.prems(1) x by (force simp: image_iff)
    then show ?thesis using Cons.prems(2) [of x] x by (auto simp: set_update_where image_iff)
  qed
  moreover have "distinct (map d_id ds)" using Cons.prems(1) by simp
  ultimately have IH: "fst (flag_loop t admins ds (Suc k) ?s) = Suc k + length ds \<and>
      t_disputes (snd (flag_loop t admins ds (Suc k) ?s)) =
        update_where (\<lambda>x. d_id x \<in> d_id ` set ds) (flag_row t) (t_disputes ?s) \<and>
      outbox (snd (flag_loop t admins ds (Suc k) ?s)) =
        outbox ?s @ concat (replicate (length ds) (map (\<lambda>a. (ById a, DISPUTE_SLA_OVERDUE)) admins))"
    using Cons.IH by blast
  have "update_where (\<lambda>x. d_id x \<in> d_id ` set ds) (flag_row t) ?T =
      update_where (\<lambda>x. d_id x \<in> d_id ` set (d # ds)) (flag_row t) (t_disputes s)"
    unfolding T using Cons.prems(1) by (auto simp: update_where_def)
  with IH show ?case unfolding step by (simp add: comp_def)
qed

lemma overdue_atD: "overdue_at t d \<Longrightarrow> d_slaStatus d = ON_TRACK \<and> active (d_status d)"
  by (simp add: overdue_at_def)

lemma flagOverdue_result:
  assumes "distinct (map d_id (t_disputes s))"
  shows "fst (flagOverdueDisputes w True s) = count_where (overdue_at (now w)) (t_disputes s) \<and>
    t_disputes (snd (flagOverdueDisputes w True s)) =
      update_where (overdue_at (now w)) (flag_row (now w)) (t_disputes s) \<and>
    outbox (snd (flagOverdueDisputes w True s)) = outbox s @
      concat (replicate (count_where (overdue_at (now w)) (t_disputes s))
        (map (\<lambda>a. (ById a, DISPUTE_SLA_OVERDUE)) (active_admins s)))"
proof -
  let ?o = "filter (overdue_at (now w)) (t_disputes s)"
  have dist: "distinct (map d_id ?o)"
    using assms by (simp add: distinct_map_filter)
  have same: "update_where (\<lambda>x. d_id x \<in> d_id ` set ?o) f (t_disputes s) =
      update_where (overdue_at (now w)) f (t_disputes s)" for f
    using assms by (auto simp: update_where_def distinct_map inj_on_def)
  show ?thesis
  proof (cases "?o = []")
    case True
    then have "update_where (overdue_at (now w)) (flag_row (now w)) (t_disputes s) = t_disputes s"
      by (intro update_where_none) (auto simp: filter_empty_conv)
    with True show ?thesis by (simp add: flagOverdueDisputes_def count_where_def)
  next
    case False
    have "flagOverdueDisputes w True s = flag_loop (now w) (active_admins s) ?o 0 s"
      using False by (simp add: flagOverdueDisputes_def Let_def)
    moreover have "\<And>d. d \<in> set ?o \<Longrightarrow>
        d \<in> set (t_disputes s) \<and> d_slaStatus d = ON_TRACK \<and> active (d_status d)"
      by (auto simp: overdue_at_def)
    note flag_loop_result [OF dist this assms, of "now w" "active_admins s" 0]
    ultimately show ?thesis unfolding same by (simp add: count_where_def)
  qed
qed

end
