(* ===== verification/ArbiterAssignment.thy ===== *)
theory ArbiterAssignment
  imports DisputeSla "HOL-Library.Product_Lexorder" "HOL-Library.List_Lexorder" "HOL-Library.Char_ord"
begin

text \<open>
  \<^verbatim>\<open>modules/disputes/arbiter-assignment.service.ts\<close>: which arbiters are in conflict with an
  engagement, the selection of the least-loaded eligible arbiter, the automatic assignment of a
  fresh dispute and the admin override.
\<close>

section \<open>Selection\<close>

definition conflictedArbiterIds :: "engagement \<Rightarrow> db \<Rightarrow> ident set" where
  "conflictedArbiterIds e s =
     {a. (e_id e, a) \<in> set (t_recusals s)}
     \<union> (if truthy (e_companyId e) then {the (e_companyId e)} else {})
     \<union> (if truthy (e_recruiterId e) then {the (e_recruiterId e)} else {})"

lemma conflicted_member:
  "a \<in> conflictedArbiterIds e s \<longleftrightarrow> (e_id e, a) \<in> set (t_recusals s) \<or>
     (a \<noteq> [] \<and> (e_companyId e = Some a \<or> e_recruiterId e = Some a))"
  by (cases "e_companyId e"; cases "e_recruiterId e") (auto simp: conflictedArbiterIds_def)

definition conflicted :: "engagement \<Rightarrow> db \<Rightarrow> ident \<Rightarrow> bool" where
  "conflicted e s a \<longleftrightarrow> List.member (t_recusals s) (e_id e, a) \<or>
     (a \<noteq> [] \<and> (e_companyId e = Some a \<or> e_recruiterId e = Some a))"

text \<open>The query for candidates, in the order of the query, then the filter on wallet addresses.\<close>

definition candidates :: "engagement \<Rightarrow> ident list \<Rightarrow> db \<Rightarrow> user list" where
  "candidates e exclude s = sort_key (\<lambda>u. (u_createdAt u, u_id u))
     (filter (\<lambda>u. u_role u = ARBITER \<and> u_deactivatedAt u = None \<and> u_deletedAt u = None \<and>
                \<not> (conflicted e s (u_id u) \<or> u_id u \<in> set exclude)) (t_users s))"

definition not_party_wallet :: "engagement \<Rightarrow> user \<Rightarrow> bool" where
  "not_party_wallet e u \<longleftrightarrow> \<not> truthy (u_stellarAddress u) \<or>
     (u_stellarAddress u \<noteq> Some (e_companyAddress e) \<and> u_stellarAddress u \<noteq> Some (e_recruiterAddress e))"

definition eligible_arbiters :: "engagement \<Rightarrow> ident list \<Rightarrow> db \<Rightarrow> user list" where
  "eligible_arbiters e exclude s = filter (not_party_wallet e) (candidates e exclude s)"

definition load_of :: "db \<Rightarrow> ident \<Rightarrow> nat" where
  "load_of s a = count_where (\<lambda>d. d_arbiterId d = Some a \<and> active (d_status d)) (t_disputes s)"

fun pick_least :: "(ident \<Rightarrow> nat) \<Rightarrow> user list \<Rightarrow> (user \<times> nat) option \<Rightarrow> (user \<times> nat) option" where
  "pick_least load [] best = best"
| "pick_least load (a # as) best = (case best of
     None \<Rightarrow> pick_least load as (Some (a, load (u_id a)))
   | Some (b, n) \<Rightarrow> if load (u_id a) < n then pick_least load as (Some (a, load (u_id a)))
                   else pick_least load as best)"

definition selectArbiter :: "engagement \<Rightarrow> ident list \<Rightarrow> db \<Rightarrow> (user \<times> nat) option" where
  "selectArbiter e exclude s = pick_least (load_of s) (eligible_arbiters e exclude s) None"

section \<open>Assignment\<close>

definition autoAssign :: "dispute_config \<Rightarrow> env \<Rightarrow> ident \<Rightarrow> db \<Rightarrow> (db, dispute option) outcome" where
  "autoAssign cfg w did s = (case find_dispute did s of
     None \<Rightarrow> return None s
   | Some d \<Rightarrow>
       if truthy (d_arbiterId d) \<or> d_manuallyAssigned d \<or> d_status d \<noteq> D_OPEN then return (Some d) s
       else (case find_engagement (d_engagementId d) s of
         None \<Rightarrow> throw TypeErrorExn s
       | Some e \<Rightarrow> (case selectArbiter e [] s of
           None \<Rightarrow> return (Some d) s
         | Some (a, _) \<Rightarrow>
             (let (n, s1) = update_disputes
                    (\<lambda>x. d_id x = did \<and> d_arbiterId x = None \<and> \<not> d_manuallyAssigned x)
                    (\<lambda>x. stage_fields cfg ARBITER_REVIEW (now w)
                           (x\<lparr>d_arbiterId := Some (u_id a), d_arbiterAssignedAt := Some (now w),
                              d_status := D_UNDER_REVIEW\<rparr>)) s;
                  s2 = (if n \<noteq> 0 then notify (ById (u_id a)) ARBITER_ASSIGNED s1 else s1)
              in return (find_dispute did s2) s2))))"

definition override_row :: "dispute_config \<Rightarrow> env \<Rightarrow> ident \<Rightarrow> dispute \<Rightarrow> dispute \<Rightarrow> dispute" where
  "override_row cfg w a snap x =
     (let y = x\<lparr>d_arbiterId := Some a, d_arbiterAssignedAt := Some (now w),
                d_manuallyAssigned := True, d_status := D_UNDER_REVIEW\<rparr>
      in if d_stage snap = ASSIGNMENT then stage_fields cfg ARBITER_REVIEW (now w) y else y)"

fun override_loop :: "dispute_config \<Rightarrow> env \<Rightarrow> ident \<Rightarrow> dispute list \<Rightarrow> nat \<Rightarrow> db \<Rightarrow> nat \<times> db" where
  "override_loop cfg w a [] n s = (n, s)"
| "override_loop cfg w a (d # ds) n s =
     (let ap = find_appeal (d_id d) s; isAppeal = (d_stage d = APPEAL_REVIEW)
      in if isAppeal \<and> map_option a_originalArbiterId ap = Some (Some a)
         then override_loop cfg w a ds n s
         else let s1 = update_dispute (d_id d) (override_row cfg w a d) s;
                  s2 = (if isAppeal \<and> ap \<noteq> None
                        then s1\<lparr>t_appeals := update_where (\<lambda>x. a_id x = a_id (the ap))
                                 (\<lambda>x. x\<lparr>a_arbiterId := Some a\<rparr>) (t_appeals s1)\<rparr>
                        else s1)
              in override_loop cfg w a ds (Suc n) s2)"

definition applyManualOverride :: "dispute_config \<Rightarrow> env \<Rightarrow> ident \<Rightarrow> ident \<Rightarrow> db \<Rightarrow> nat \<times> db" where
  "applyManualOverride cfg w eid a s =
     override_loop cfg w a (filter (\<lambda>d. d_engagementId d = eid \<and> active (d_status d)) (t_disputes s)) 0 s"

section \<open>Lemmas\<close>

lemma conflicted_iff: "conflicted e s a \<longleftrightarrow> a \<in> conflictedArbiterIds e s"
  by (simp add: conflicted_def conflicted_member)

lemma set_eligible:
  "u \<in> set (eligible_arbiters e exclude s) \<longleftrightarrow> u \<in> set (t_users s) \<and> u_role u = ARBITER \<and>
     u_deactivatedAt u = None \<and> u_deletedAt u = None \<and> u_id u \<notin> conflictedArbiterIds e s \<and>
     u_id u \<notin> set exclude \<and> not_party_wallet e u"
  by (auto simp: eligible_arbiters_def candidates_def conflicted_iff)

lemma sorted_eligible:
  "sorted (map (\<lambda>u. (u_createdAt u, u_id u)) (eligible_arbiters e exclude s))"
  by (simp add: eligible_arbiters_def candidates_def sorted_filter)

text \<open>
  The loop keeps the first candidate of the least load: the result has a load no greater than any
  other, and every candidate before it has a greater one.
\<close>

lemma pick_least_Some:
  "pick_least load as (Some (b, load (u_id b))) = Some (r, n) \<Longrightarrow>
     r \<in> insert b (set as) \<and> n = load (u_id r) \<and>
     (\<forall>x \<in> insert b (set as). n \<le> load (u_id x))"
proof (induction as arbitrary: b)
  case (Cons a as)
  show ?case
  proof (cases "load (u_id a) < load (u_id b)")
    case True
    with Cons.IH [of a] Cons.prems show ?thesis by fastforce
  next
    case False
    with Cons.IH [of b] Cons.prems show ?thesis by fastforce
  qed
qed simp

lemma pick_least_first:
  assumes "pick_least load as (Some (b, load (u_id b))) = Some (r, n)"
    and "sorted (map key (b # as))" and "x \<in> insert b (set as)" and "load (u_id x) = n"
  shows "key r \<le> key x"
  using assms
proof (induction as arbitrary: b x)
  case (Cons a as)
  have ba: "key b \<le> key a" "\<forall>y \<in> set as. key b \<le> key y" "\<forall>y \<in> set as. key a \<le> key y"
    using Cons.prems(2) by auto
  show ?case
  proof (cases "load (u_id a) < load (u_id b)")
    case True
    have run: "pick_least load as (Some (a, load (u_id a))) = Some (r, n)"
      using Cons.prems(1) True by simp
    from pick_least_Some [OF run] have "n \<le> load (u_id a)" by auto
    with True Cons.prems(4) have "x \<noteq> b" by auto
    with Cons.prems(3) have "x \<in> insert a (set as)" by auto
    moreover have "sorted (map key (a # as))" using Cons.prems(2) by simp
    ultimately show ?thesis using Cons.IH [OF run] Cons.prems(4) by blast
  next
    case False
    have run: "pick_least load as (Some (b, load (u_id b))) = Some (r, n)"
      using Cons.prems(1) False by simp
    have sb: "sorted (map key (b # as))" using Cons.prems(2) by simp
    show ?thesis
    proof (cases "x = a")
      case True
      have "n \<le> load (u_id b)" using pick_least_Some [OF run] by auto
      with False True Cons.prems(4) have "load (u_id b) = n" by auto
      from Cons.IH [OF run sb _ this] have "key r \<le> key b" by simp
      with ba True show ?thesis by auto
    next
      case False
      with Cons.prems(3) have "x \<in> insert b (set as)" by auto
      with Cons.IH [OF run sb _ Cons.prems(4)] show ?thesis by blast
    qed
  qed
qed simp

lemma pick_least_None_start:
  "pick_least load as None = (case as of [] \<Rightarrow> None
     | a # rest \<Rightarrow> pick_least load rest (Some (a, load (u_id a))))"
  by (cases as) auto

lemma pick_least_neq_None: "best \<noteq> None \<Longrightarrow> pick_least load as best \<noteq> None"
  by (induction as arbitrary: best) (auto split: option.splits)

lemma selectArbiter_None: "selectArbiter e exclude s = None \<longleftrightarrow> eligible_arbiters e exclude s = []"
  by (simp add: selectArbiter_def pick_least_None_start pick_least_neq_None split: list.splits)

lemma selectArbiter_Some:
  assumes "selectArbiter e exclude s = Some (a, n)"
  shows "a \<in> set (eligible_arbiters e exclude s)" and "n = load_of s (u_id a)"
    and "\<And>b. b \<in> set (eligible_arbiters e exclude s) \<Longrightarrow> n \<le> load_of s (u_id b)"
    and "\<And>b. b \<in> set (eligible_arbiters e exclude s) \<Longrightarrow> load_of s (u_id b) = n \<Longrightarrow>
           (u_createdAt a, u_id a) \<le> (u_createdAt b, u_id b)"
proof -
  obtain c cs where el: "eligible_arbiters e exclude s = c # cs"
    using assms by (cases "eligible_arbiters e exclude s") (auto simp: selectArbiter_def)
  have run: "pick_least (load_of s) cs (Some (c, load_of s (u_id c))) = Some (a, n)"
    using assms by (simp add: selectArbiter_def el)
  show "a \<in> set (eligible_arbiters e exclude s)" and "n = load_of s (u_id a)"
    using pick_least_Some [OF run] by (auto simp: el)
  show "n \<le> load_of s (u_id b)" if "b \<in> set (eligible_arbiters e exclude s)" for b
    using pick_least_Some [OF run] that by (auto simp: el)
  show "(u_createdAt a, u_id a) \<le> (u_createdAt b, u_id b)"
    if "b \<in> set (eligible_arbiters e exclude s)" and "load_of s (u_id b) = n" for b
    using pick_least_first [OF run, where key = "\<lambda>u. (u_createdAt u, u_id u)" and x = b]
      sorted_eligible [of e exclude s] that by (simp add: el)
qed

lemma autoAssign_Inr: "(\<exists>d. find_dispute did s = Some d \<and> find_engagement (d_engagementId d) s = None)
    \<or> (\<exists>x. fst (autoAssign cfg w did s) = Inr x)"
  by (auto simp: autoAssign_def Let_def split: option.splits prod.splits)

lemma autoAssign_frame:
  "chainCalls (snd (autoAssign cfg w did s)) = chainCalls s \<and>
   t_milestones (snd (autoAssign cfg w did s)) = t_milestones s \<and>
   t_engagements (snd (autoAssign cfg w did s)) = t_engagements s \<and>
   t_refunds (snd (autoAssign cfg w did s)) = t_refunds s"
  by (auto simp: autoAssign_def Let_def update_disputes_def split: option.splits prod.splits)

lemma autoAssign_assigned:
  assumes "find_dispute did s = Some d" and "d_status d = D_OPEN" and "d_arbiterId d = None"
    and "\<not> d_manuallyAssigned d" and "find_engagement (d_engagementId d) s = Some e"
    and "selectArbiter e [] s = Some (a, n)"
  shows "find_dispute did (snd (autoAssign cfg w did s)) =
    Some (stage_fields cfg ARBITER_REVIEW (now w)
            (d\<lparr>d_arbiterId := Some (u_id a), d_arbiterAssignedAt := Some (now w),
               d_status := D_UNDER_REVIEW\<rparr>))"
proof -
  let ?p = "\<lambda>x. d_id x = did \<and> d_arbiterId x = None \<and> \<not> d_manuallyAssigned x"
  let ?f = "\<lambda>x. stage_fields cfg ARBITER_REVIEW (now w)
              (x\<lparr>d_arbiterId := Some (u_id a), d_arbiterAssignedAt := Some (now w),
                 d_status := D_UNDER_REVIEW\<rparr>)"
  have "find_dispute did (snd (update_disputes ?p ?f s)) = Some (?f d)"
    using assms(1,3,4) find_dispute_id [OF assms(1)] by (simp add: find_update_disputes)
  then show ?thesis
    using assms by (simp add: autoAssign_def Let_def update_disputes_def split: prod.splits)
qed

end
