(* ===== verification/Disputes.thy ===== *)
theory Disputes
  imports ArbiterAssignment
begin

text \<open>
  \<^verbatim>\<open>modules/disputes/disputes.service.ts\<close>: the dispute that shadows a DISPUTED milestone, from
  its opening to the settlement of the escrow.  \<open>settle\<close> is composed of the database and chain
  steps the code awaits one after the other (claim, pay, roll back or finish); the theory
  \<open>DisputeRaces\<close> interleaves those same steps.  Messages (attachments on S3) are not modelled.
\<close>

record actor =
  ac_id :: ident
  ac_role :: user_role
  ac_stellar :: "string option"

section \<open>The arbiter's fee\<close>

text \<open>
  The configured value is an exact rational; \<open>round_half_up\<close> is \<open>Math.round\<close>.
\<close>

definition round_half_up :: "rat \<Rightarrow> int" where
  "round_half_up x = \<lfloor>x + 1 / 2\<rfloor>"

definition computeArbiterFee :: "dispute_config \<Rightarrow> stroops \<Rightarrow> stroops" where
  "computeArbiterFee cfg amount =
     (if arbiterFeeValue cfg \<le> 0 then 0
      else if arbiterFeeFlat cfg then round_half_up (arbiterFeeValue cfg)
      else big_div (amount * round_half_up (arbiterFeeValue cfg * 100)) 10000)"

definition recordArbiterPayout :: "dispute_config \<Rightarrow> dispute \<Rightarrow> stroops \<Rightarrow> db \<Rightarrow> payout option \<times> db" where
  "recordArbiterPayout cfg d milestoneAmount s =
     (if \<not> truthy (d_arbiterId d) then (None, s)
      else let amount = computeArbiterFee cfg milestoneAmount
           in if amount \<le> 0 then (None, s)
              else (case List.find (\<lambda>p. p_disputeId p = d_id d) (t_payouts s) of
                Some p \<Rightarrow> (Some p, s)
              | None \<Rightarrow>
                  let p = \<lparr>p_disputeId = d_id d, p_arbiterId = the (d_arbiterId d),
                           p_percent = (\<not> arbiterFeeFlat cfg), p_amount = amount\<rparr>
                  in (Some p, s\<lparr>t_payouts := t_payouts s @ [p]\<rparr>)))"

section \<open>Opening\<close>

definition open_row ::
  "dispute_config \<Rightarrow> env \<Rightarrow> ident \<Rightarrow> milestone \<Rightarrow> ident \<Rightarrow> string option \<Rightarrow> ident option \<Rightarrow> dispute" where
  "open_row cfg w did m mid reason raisedBy = stage_fields cfg ASSIGNMENT (now w)
     \<lparr>d_id = did, d_engagementId = m_engagementId m, d_milestoneId = mid,
      d_raisedById = raisedBy,
      d_reason = (case reason of Some r \<Rightarrow> Some r | None \<Rightarrow> m_disputeReason m),
      d_status = D_OPEN, d_stage = ASSIGNMENT, d_arbiterId = None,
      d_arbiterAssignedAt = None, d_manuallyAssigned = False,
      d_responseDeadline = None, d_slaStatus = ON_TRACK, d_slaEscalatedAt = None,
      d_outcome = None, d_resolvedAt = None, d_appealDeadline = None,
      d_fundsLocked = True, d_fundsReleasedAt = None, d_isFinal = False,
      d_evidenceDeadline = Some (now w + evidenceWindowHours cfg * hour_ms),
      d_evidenceWarnedAt = None, d_createdAt = now w\<rparr>"

definition openForMilestone ::
  "dispute_config \<Rightarrow> env \<Rightarrow> ident \<Rightarrow> string option \<Rightarrow> ident option \<Rightarrow> db \<Rightarrow> (db, dispute) outcome" where
  "openForMilestone cfg w mid reason raisedBy s =
     (case List.find (\<lambda>d. d_milestoneId d = mid \<and> d_status d \<noteq> D_CLOSED) (t_disputes s) of
        Some d \<Rightarrow> return d s
      | None \<Rightarrow> (case find_milestone_by_id mid s of
          None \<Rightarrow> throw NotFoundException s
        | Some m \<Rightarrow>
            (let (did, s1) = fresh_id w s;
                 d = open_row cfg w did m mid reason raisedBy;
                 s2 = s1\<lparr>t_disputes := t_disputes s1 @ [d]\<rparr>
             in and_then (autoAssign cfg w did s2)
                  (\<lambda>r s3. return (case r of Some d' \<Rightarrow> d' | None \<Rightarrow> d) s3))))"

section \<open>Reading\<close>

definition isEvidenceWindowOpen :: "dispute \<Rightarrow> time \<Rightarrow> bool" where
  "isEvidenceWindowOpen d t =
     (if \<not> active (d_status d) then False
      else case d_evidenceDeadline d of None \<Rightarrow> True | Some e \<Rightarrow> t \<le> e)"

definition findActiveForMilestone :: "ident \<Rightarrow> db \<Rightarrow> dispute option" where
  "findActiveForMilestone mid s =
     latest_by d_createdAt (filter (\<lambda>d. d_milestoneId d = mid \<and> d_status d \<noteq> D_CLOSED) (t_disputes s))"

definition isAppealWindowOpen :: "dispute \<Rightarrow> bool \<Rightarrow> time \<Rightarrow> bool" where
  "isAppealWindowOpen d appealed t \<longleftrightarrow>
     d_status d = D_RESOLVED \<and> \<not> d_isFinal d \<and> \<not> appealed \<and> ge_opt (d_appealDeadline d) t"

definition isParty :: "engagement \<Rightarrow> actor \<Rightarrow> bool" where
  "isParty e u \<longleftrightarrow>
     (ac_id u \<noteq> [] \<and> (e_companyId e = Some (ac_id u) \<or> e_recruiterId e = Some (ac_id u))) \<or>
     (truthy (ac_stellar u) \<and>
       (ac_stellar u = Some (e_companyAddress e) \<or> ac_stellar u = Some (e_recruiterAddress e)))"

definition canView :: "dispute \<Rightarrow> engagement \<Rightarrow> appeal option \<Rightarrow> actor \<Rightarrow> bool" where
  "canView d e ap u \<longleftrightarrow> ac_role u = ADMIN \<or> isParty e u \<or> d_arbiterId d = Some (ac_id u) \<or>
     (case ap of None \<Rightarrow> False | Some a \<Rightarrow> a_arbiterId a = Some (ac_id u)) \<or>
     (truthy (ac_stellar u) \<and> ac_stellar u = Some (e_arbiterAddress e))"

record dispute_view =
  vw_dispute :: dispute
  vw_engagementId :: ident
  vw_milestone :: milestone
  vw_isOverdue :: bool
  vw_appealOpen :: bool
  vw_evidenceOpen :: bool

definition findOneForUser :: "env \<Rightarrow> ident \<Rightarrow> actor \<Rightarrow> db \<Rightarrow> exn + dispute_view" where
  "findOneForUser w did u s = (case find_dispute did s of
     None \<Rightarrow> Inl NotFoundException
   | Some d \<Rightarrow> (case (find_engagement (d_engagementId d) s, find_milestone_by_id (d_milestoneId d) s) of
       (Some e, Some m) \<Rightarrow>
         (let ap = find_appeal did s
          in if \<not> canView d e ap u then Inl ForbiddenException
             else Inr \<lparr>vw_dispute = d, vw_engagementId = e_id e, vw_milestone = m,
               vw_isOverdue = (active (d_status d) \<and> lt_opt (d_responseDeadline d) (now w)),
               vw_appealOpen = isAppealWindowOpen d (ap \<noteq> None) (now w),
               vw_evidenceOpen = isEvidenceWindowOpen d (now w)\<rparr>)
     | _ \<Rightarrow> Inl TypeErrorExn))"

section \<open>Settling\<close>

definition notifyParties :: "ident \<Rightarrow> notification_type \<Rightarrow> ident option \<Rightarrow> db \<Rightarrow> db" where
  "notifyParties eid t exclude s = (case find_engagement eid s of
     None \<Rightarrow> s
   | Some e \<Rightarrow> notify_all (map ById (filter (\<lambda>u. Some u \<noteq> exclude) (parties_ids e))) t s)"

definition claimable :: "dispute \<Rightarrow> bool" where
  "claimable d \<longleftrightarrow> d_status d = D_RESOLVED \<and> d_isFinal d \<and> d_fundsReleasedAt d = None"

definition settle_claim :: "ident \<Rightarrow> db \<Rightarrow> nat \<times> db" where
  "settle_claim did s =
     update_disputes (\<lambda>d. d_id d = did \<and> claimable d) (\<lambda>d. d\<lparr>d_status := D_CLOSED\<rparr>) s"

definition outcome_approved :: "dispute \<Rightarrow> bool" where
  "outcome_approved d \<longleftrightarrow> d_outcome d = Some RELEASE"

definition settle_pay :: "env \<Rightarrow> dispute \<Rightarrow> milestone \<Rightarrow> db \<Rightarrow> (db, string) outcome" where
  "settle_pay w d m s =
     (let s1 = (if outcome_approved d then s
                else upsert_refund \<lparr>r_milestoneId = m_id m,
                       r_amount = (case m_amount m of None \<Rightarrow> 0 | Some a \<Rightarrow> a),
                       r_status = REFUND_PENDING\<rparr> s)
      in call_chain w (ResolveDispute (d_engagementId d) (m_index m) (outcome_approved d)) s1)"

definition settle_rollback :: "ident \<Rightarrow> db \<Rightarrow> db" where
  "settle_rollback did s = update_dispute did (\<lambda>d. d\<lparr>d_status := D_RESOLVED\<rparr>) s"

definition settle_milestone :: "env \<Rightarrow> dispute \<Rightarrow> milestone \<Rightarrow> db \<Rightarrow> db" where
  "settle_milestone w d m s =
     (let amount = (case m_amount m of None \<Rightarrow> 0 | Some a \<Rightarrow> a)
      in update_milestone (m_id m)
           (\<lambda>x. let y = x\<lparr>m_status := (if outcome_approved d then RESOLVED else PENDING)\<rparr>
                in if outcome_approved d \<and> amount \<noteq> 0
                   then y\<lparr>m_paymentReleased := Some amount, m_confirmedAt := Some (now w)\<rparr> else y) s)"

definition settle_release :: "env \<Rightarrow> ident \<Rightarrow> db \<Rightarrow> db" where
  "settle_release w did s =
     update_dispute did (\<lambda>d. d\<lparr>d_fundsLocked := False, d_fundsReleasedAt := Some (now w)\<rparr>) s"

definition settle_finish :: "dispute_config \<Rightarrow> env \<Rightarrow> dispute \<Rightarrow> milestone \<Rightarrow> db \<Rightarrow> db" where
  "settle_finish cfg w d m s =
     (let s1 = settle_release w (d_id d) (settle_milestone w d m s);
          s2 = snd (recordArbiterPayout cfg d (case m_amount m of None \<Rightarrow> 0 | Some a \<Rightarrow> a) s1)
      in notifyParties (d_engagementId d) DISPUTE_RESOLVED None s2)"

definition settle :: "dispute_config \<Rightarrow> env \<Rightarrow> ident \<Rightarrow> db \<Rightarrow> (db, dispute) outcome" where
  "settle cfg w did s =
     (let (n, s1) = settle_claim did s
      in case find_dispute did s1 of
           None \<Rightarrow> throw RecordNotFound s1
         | Some d \<Rightarrow>
             if n = 0 then return d s1
             else (case find_milestone_by_id (d_milestoneId d) s1 of
               None \<Rightarrow> throw TypeErrorExn s1
             | Some m \<Rightarrow> (case settle_pay w d m s1 of
                 (Inl e, s2) \<Rightarrow> throw e (settle_rollback did s2)
               | (Inr _, s2) \<Rightarrow>
                   (let s3 = settle_finish cfg w d m s2
                    in case find_dispute did s3 of None \<Rightarrow> throw RecordNotFound s3
                       | Some d' \<Rightarrow> return d' s3))))"

definition markSettledOnChain :: "env \<Rightarrow> ident \<Rightarrow> db \<Rightarrow> nat \<times> db" where
  "markSettledOnChain w mid s =
     update_disputes (\<lambda>d. d_milestoneId d = mid \<and> d_fundsReleasedAt d = None)
       (\<lambda>d. d\<lparr>d_status := D_CLOSED, d_isFinal := True, d_fundsLocked := False,
              d_fundsReleasedAt := Some (now w)\<rparr>) s"

section \<open>Deciding\<close>

definition decide_row :: "dispute_config \<Rightarrow> env \<Rightarrow> dispute \<Rightarrow> dispute_outcome \<Rightarrow> dispute \<Rightarrow> dispute" where
  "decide_row cfg w snap oc d =
     (let deferred = 0 < appealWindowHours cfg
      in d\<lparr>d_status := D_RESOLVED, d_outcome := Some oc, d_resolvedAt := Some (now w),
           d_appealDeadline := Some (now w + (if deferred then appealWindowHours cfg * hour_ms else 0)),
           d_slaStatus := completion_status snap (now w),
           d_fundsLocked := True, d_isFinal := (\<not> deferred)\<rparr>)"

definition decide ::
  "dispute_config \<Rightarrow> env \<Rightarrow> dispute \<Rightarrow> dispute_outcome \<Rightarrow> actor option \<Rightarrow> db \<Rightarrow> (db, dispute) outcome" where
  "decide cfg w d oc actor s =
     (if d_status d = D_RESOLVED then throw ConflictException s
      else if d_stage d = APPEAL_REVIEW then throw ConflictException s
      else if (case actor of None \<Rightarrow> False
               | Some u \<Rightarrow> ac_role u \<noteq> ADMIN \<and> truthy (d_arbiterId d) \<and> d_arbiterId d \<noteq> Some (ac_id u))
      then throw ForbiddenException s
      else let (n, s1) = update_disputes (\<lambda>x. d_id x = d_id d \<and> active (d_status x))
                 (decide_row cfg w d oc) s
           in if n = 0 then throw ConflictException s1
              else if \<not> 0 < appealWindowHours cfg then settle cfg w (d_id d) s1
              else (case find_dispute (d_id d) s1 of
                None \<Rightarrow> throw RecordNotFound s1
              | Some d' \<Rightarrow> return d' (notifyParties (d_engagementId d') DISPUTE_RESOLVED None s1)))"

definition recordDecision ::
  "dispute_config \<Rightarrow> env \<Rightarrow> ident \<Rightarrow> dispute_outcome \<Rightarrow> actor option \<Rightarrow> db \<Rightarrow> (db, dispute option) outcome" where
  "recordDecision cfg w mid oc actor s = (case findActiveForMilestone mid s of
     None \<Rightarrow> return None s
   | Some d \<Rightarrow> and_then (decide cfg w d oc actor s) (\<lambda>d' s'. return (Some d') s'))"

section \<open>Lemmas: fee and payout\<close>

lemma round_half_up_mono: "x \<le> y \<Longrightarrow> round_half_up x \<le> round_half_up y"
  by (simp add: round_half_up_def floor_mono)

lemma round_half_up_of_int [simp]: "round_half_up (of_int n) = n"
  unfolding round_half_up_def by (rule floor_unique) auto

lemma round_half_up_nonneg: "0 \<le> x \<Longrightarrow> 0 \<le> round_half_up x"
  by (simp add: round_half_up_def)

text \<open>A percentage of at most 100 never takes more than the milestone, and rounds down.\<close>

lemma percent_fee_bounds:
  assumes "\<not> arbiterFeeFlat cfg" and "0 < arbiterFeeValue cfg" and "arbiterFeeValue cfg \<le> 100"
    and "0 \<le> amount"
  shows "0 \<le> computeArbiterFee cfg amount" and "computeArbiterFee cfg amount \<le> amount"
    and "computeArbiterFee cfg amount * 10000 \<le> amount * round_half_up (arbiterFeeValue cfg * 100)"
    and "amount * round_half_up (arbiterFeeValue cfg * 100) < (computeArbiterFee cfg amount + 1) * 10000"
proof -
  let ?b = "round_half_up (arbiterFeeValue cfg * 100)"
  have b0: "0 \<le> ?b" using assms(2) by (intro round_half_up_nonneg) simp
  have "?b \<le> round_half_up (of_int 10000)"
    using assms(3) by (intro round_half_up_mono) simp
  then have b1: "?b \<le> 10000" by (simp only: round_half_up_of_int)
  have fee: "computeArbiterFee cfg amount = amount * ?b div 10000"
    using assms b0 by (simp add: computeArbiterFee_def big_div_nonneg)
  show "0 \<le> computeArbiterFee cfg amount" using assms(4) b0 by (simp add: fee pos_imp_zdiv_nonneg_iff)
  have "amount * ?b \<le> amount * 10000" using assms(4) b1 by (intro mult_left_mono) auto
  then have "amount * ?b div 10000 \<le> amount * 10000 div 10000" by (intro zdiv_mono1) auto
  then show "computeArbiterFee cfg amount \<le> amount" by (simp add: fee)
  show "computeArbiterFee cfg amount * 10000 \<le> amount * ?b" unfolding fee by presburger
  show "amount * ?b < (computeArbiterFee cfg amount + 1) * 10000" unfolding fee by presburger
qed

lemma recordArbiterPayout_frame [simp]:
  "t_disputes (snd (recordArbiterPayout cfg d a s)) = t_disputes s"
  "t_milestones (snd (recordArbiterPayout cfg d a s)) = t_milestones s"
  "t_engagements (snd (recordArbiterPayout cfg d a s)) = t_engagements s"
  "t_refunds (snd (recordArbiterPayout cfg d a s)) = t_refunds s"
  "t_appeals (snd (recordArbiterPayout cfg d a s)) = t_appeals s"
  "t_users (snd (recordArbiterPayout cfg d a s)) = t_users s"
  "chainCalls (snd (recordArbiterPayout cfg d a s)) = chainCalls s"
  "outbox (snd (recordArbiterPayout cfg d a s)) = outbox s"
  by (auto simp: recordArbiterPayout_def Let_def split: option.splits)

text \<open>A dispute has at most one payout row, whatever is recorded and however often.\<close>

lemma recordArbiterPayout_distinct:
  "distinct (map p_disputeId (t_payouts s)) \<Longrightarrow>
     distinct (map p_disputeId (t_payouts (snd (recordArbiterPayout cfg d a s))))"
  by (auto simp: recordArbiterPayout_def Let_def find_None split: option.splits)

lemma recordArbiterPayout_again:
  "recordArbiterPayout cfg d b (snd (recordArbiterPayout cfg d a s)) =
     (if fst (recordArbiterPayout cfg d a s) \<noteq> None \<and> 0 < computeArbiterFee cfg b
      then (fst (recordArbiterPayout cfg d a s), snd (recordArbiterPayout cfg d a s))
      else recordArbiterPayout cfg d b (snd (recordArbiterPayout cfg d a s)))"
  by (auto simp: recordArbiterPayout_def Let_def find_append split: option.splits)

section \<open>Lemmas: settlement\<close>

lemma notifyParties_frame [simp]:
  "t_users (notifyParties eid t x s) = t_users s"
  "t_engagements (notifyParties eid t x s) = t_engagements s"
  "t_milestones (notifyParties eid t x s) = t_milestones s"
  "t_disputes (notifyParties eid t x s) = t_disputes s"
  "t_appeals (notifyParties eid t x s) = t_appeals s"
  "t_refunds (notifyParties eid t x s) = t_refunds s"
  "t_payouts (notifyParties eid t x s) = t_payouts s"
  "chainCalls (notifyParties eid t x s) = chainCalls s"
  by (simp_all add: notifyParties_def split: option.splits)

lemma find_dispute_cong: "t_disputes s = t_disputes s' \<Longrightarrow> find_dispute did s = find_dispute did s'"
  by (simp add: find_dispute_def)

lemma find_milestone_by_id_cong:
  "t_milestones s = t_milestones s' \<Longrightarrow> find_milestone_by_id did s = find_milestone_by_id did s'"
  by (simp add: find_milestone_by_id_def)

lemma settle_claim_frame [simp]:
  "t_users (snd (settle_claim did s)) = t_users s"
  "t_engagements (snd (settle_claim did s)) = t_engagements s"
  "t_milestones (snd (settle_claim did s)) = t_milestones s"
  "t_appeals (snd (settle_claim did s)) = t_appeals s"
  "t_refunds (snd (settle_claim did s)) = t_refunds s"
  "t_payouts (snd (settle_claim did s)) = t_payouts s"
  "chainCalls (snd (settle_claim did s)) = chainCalls s"
  "outbox (snd (settle_claim did s)) = outbox s"
  by (simp_all add: settle_claim_def update_disputes_def)

lemma find_settle_claim:
  "find_dispute did (snd (settle_claim did s)) =
     map_option (\<lambda>d. if claimable d then d\<lparr>d_status := D_CLOSED\<rparr> else d) (find_dispute did s)"
  unfolding settle_claim_def
  by (subst find_update_disputes) (auto simp: option.map_comp dest: find_dispute_id
      intro!: option.map_cong)

lemma settle_claim_count:
  assumes "distinct (map d_id (t_disputes s))" and "find_dispute did s = Some d"
  shows "fst (settle_claim did s) = (if claimable d then 1 else 0)"
proof -
  have d: "d_id d = did" "d \<in> set (t_disputes s)" using find_dispute_id [OF assms(2)] by auto
  have le: "count_where (\<lambda>x. d_id x = did \<and> claimable x) (t_disputes s) \<le> 1"
    using assms(1) by (rule count_where_le_1)
  show ?thesis
  proof (cases "claimable d")
    case True
    then have "count_where (\<lambda>x. d_id x = did \<and> claimable x) (t_disputes s) \<noteq> 0"
      using d by (auto simp: count_where_0)
    with le True show ?thesis by (simp add: settle_claim_def update_disputes_def)
  next
    case False
    have "x = d" if "x \<in> set (t_disputes s)" "d_id x = did" for x
      using assms(1) d that by (auto simp: distinct_map inj_on_def)
    with False have "count_where (\<lambda>x. d_id x = did \<and> claimable x) (t_disputes s) = 0"
      by (auto simp: count_where_0)
    with False show ?thesis by (simp add: settle_claim_def update_disputes_def)
  qed
qed

lemma settle_pay_frame [simp]:
  "t_disputes (snd (settle_pay w d m s)) = t_disputes s"
  "t_milestones (snd (settle_pay w d m s)) = t_milestones s"
  "t_payouts (snd (settle_pay w d m s)) = t_payouts s"
  "t_appeals (snd (settle_pay w d m s)) = t_appeals s"
  "t_engagements (snd (settle_pay w d m s)) = t_engagements s"
  "outbox (snd (settle_pay w d m s)) = outbox s"
  by (simp_all add: settle_pay_def call_chain_def Let_def split: sum.splits)

lemma settle_pay_calls:
  "chainCalls (snd (settle_pay w d m s)) = chainCalls s @
     [(ResolveDispute (d_engagementId d) (m_index m) (outcome_approved d), \<not> isl (fst (settle_pay w d m s)))]"
  by (simp add: settle_pay_def call_chain_def Let_def split: sum.splits)

lemma settle_finish_frame [simp]:
  "chainCalls (settle_finish cfg w d m s) = chainCalls s"
  "t_refunds (settle_finish cfg w d m s) = t_refunds s"
  "t_appeals (settle_finish cfg w d m s) = t_appeals s"
  "t_engagements (settle_finish cfg w d m s) = t_engagements s"
  by (simp_all add: settle_finish_def settle_release_def settle_milestone_def Let_def)

lemma find_settle_finish:
  "find_dispute did (settle_finish cfg w d m s) =
     map_option (\<lambda>x. if did = d_id d
       then x\<lparr>d_fundsLocked := False, d_fundsReleasedAt := Some (now w)\<rparr> else x) (find_dispute did s)"
proof -
  have "find_dispute did (settle_finish cfg w d m s) =
      find_dispute did (settle_release w (d_id d) (settle_milestone w d m s))"
    by (rule find_dispute_cong) (simp add: settle_finish_def Let_def)
  also have "\<dots> = map_option (\<lambda>x. if did = d_id d
       then x\<lparr>d_fundsLocked := False, d_fundsReleasedAt := Some (now w)\<rparr> else x) (find_dispute did s)"
    by (cases "find_dispute did s") (auto simp: settle_release_def settle_milestone_def Let_def)
  finally show ?thesis .
qed

lemma find_milestone_settle_finish:
  assumes "find_milestone_by_id (m_id m) s = Some m"
  shows "find_milestone_by_id (m_id m) (settle_finish cfg w d m s) =
    Some (if outcome_approved d
          then (case m_amount m of
                  None \<Rightarrow> m\<lparr>m_status := RESOLVED\<rparr>
                | Some a \<Rightarrow> if a = 0 then m\<lparr>m_status := RESOLVED\<rparr>
                    else m\<lparr>m_status := RESOLVED, m_paymentReleased := Some a, m_confirmedAt := Some (now w)\<rparr>)
          else m\<lparr>m_status := PENDING\<rparr>)"
proof -
  have "find_milestone_by_id (m_id m) (settle_finish cfg w d m s) =
      find_milestone_by_id (m_id m) (settle_milestone w d m s)"
    by (rule find_milestone_by_id_cong) (simp add: settle_finish_def settle_release_def Let_def)
  then show ?thesis
    using assms by (auto simp: settle_milestone_def Let_def split: option.splits)
qed

lemma payouts_settle_finish:
  "t_payouts (settle_finish cfg w d m s) =
     t_payouts (snd (recordArbiterPayout cfg d (case m_amount m of None \<Rightarrow> 0 | Some a \<Rightarrow> a) s))"
  by (auto simp: settle_finish_def recordArbiterPayout_def settle_release_def settle_milestone_def Let_def
      split: option.splits)

lemma settle_cases [consumes 1, case_names missing lost no_milestone failed paid]:
  assumes run: "settle cfg w did s = (r, t)"
  obtains
    (missing) "find_dispute did s = None" "r = Inl RecordNotFound" "t = snd (settle_claim did s)"
  | (lost) d where "find_dispute did s = Some d" "fst (settle_claim did s) = 0"
      "r = Inr d" "t = snd (settle_claim did s)"
  | (no_milestone) d where "find_dispute did s = Some d" "fst (settle_claim did s) \<noteq> 0"
      "find_milestone_by_id (d_milestoneId d) s = None" "r = Inl TypeErrorExn"
      "t = snd (settle_claim did s)"
  | (failed) d d' m e where "find_dispute did s = Some d" "fst (settle_claim did s) \<noteq> 0"
      "find_milestone_by_id (d_milestoneId d) s = Some m"
      "d' = (if claimable d then d\<lparr>d_status := D_CLOSED\<rparr> else d)"
      "fst (settle_pay w d' m (snd (settle_claim did s))) = Inl e" "r = Inl e"
      "t = settle_rollback did (snd (settle_pay w d' m (snd (settle_claim did s))))"
  | (paid) d d' m h where "find_dispute did s = Some d" "fst (settle_claim did s) \<noteq> 0"
      "find_milestone_by_id (d_milestoneId d) s = Some m"
      "d' = (if claimable d then d\<lparr>d_status := D_CLOSED\<rparr> else d)"
      "fst (settle_pay w d' m (snd (settle_claim did s))) = Inr h"
      "r = Inr (d'\<lparr>d_fundsLocked := False, d_fundsReleasedAt := Some (now w)\<rparr>)"
      "t = settle_finish cfg w d' m (snd (settle_pay w d' m (snd (settle_claim did s))))"
proof (cases "find_dispute did s")
  case None
  then have "find_dispute did (snd (settle_claim did s)) = None" by (simp add: find_settle_claim)
  with run None show ?thesis by (intro missing) (auto simp: settle_def split: prod.splits)
next
  case (Some d)
  define d' where "d' = (if claimable d then d\<lparr>d_status := D_CLOSED\<rparr> else d)"
  obtain n s1 where c: "settle_claim did s = (n, s1)" by fastforce
  have fd: "find_dispute did s1 = Some d'"
    using find_settle_claim [of did s] by (simp add: c Some d'_def)
  have ids: "d_id d' = did" "d_milestoneId d' = d_milestoneId d"
    using find_dispute_id [OF Some] by (auto simp: d'_def)
  have fm: "find_milestone_by_id x s1 = find_milestone_by_id x s" for x
    using settle_claim_frame(3) [of did s] by (intro find_milestone_by_id_cong) (simp add: c)
  show ?thesis
  proof (cases "n = 0")
    case True
    have "\<not> claimable d"
      using True find_dispute_id [OF Some] c
      by (auto simp: settle_claim_def update_disputes_def count_where_0)
    with True run fd c Some show ?thesis by (intro lost) (auto simp: settle_def d'_def)
  next
    case n: False
    show ?thesis
    proof (cases "find_milestone_by_id (d_milestoneId d) s")
      case None
      with n run fd c Some show ?thesis by (intro no_milestone) (auto simp: settle_def fm ids)
    next
      case m: (Some m)
      obtain pr s2 where p: "settle_pay w d' m s1 = (pr, s2)" by fastforce
      show ?thesis
      proof (cases pr)
        case (Inl e)
        with n run fd c Some m p show ?thesis
          by (intro failed [OF Some _ m d'_def]) (auto simp: settle_def fm ids)
      next
        case (Inr h)
        have "find_dispute did s2 = Some d'"
          using settle_pay_frame(1) [of w d' m s1] fd find_dispute_cong [of s2 s1] by (simp add: p)
        then have "find_dispute did (settle_finish cfg w d' m s2) =
            Some (d'\<lparr>d_fundsLocked := False, d_fundsReleasedAt := Some (now w)\<rparr>)"
          by (simp add: find_settle_finish ids)
        with n run fd c Some m p Inr show ?thesis
          by (intro paid [OF Some _ m d'_def]) (auto simp: settle_def fm ids)
      qed
    qed
  qed
qed

lemma settle_claim_wins:
  assumes "find_dispute did s = Some d"
  shows "0 < fst (settle_claim did s) \<longleftrightarrow> (\<exists>x \<in> set (t_disputes s). d_id x = did \<and> claimable x)"
  by (simp add: settle_claim_def update_disputes_def count_where_pos)

lemma settle_claim_found:
  assumes "find_dispute did s = Some d" and "claimable d"
  shows "0 < fst (settle_claim did s)"
  using assms find_dispute_id [OF assms(1)] by (auto simp: settle_claim_wins)

lemma outcome_approved_close [simp]: "outcome_approved (d\<lparr>d_status := st\<rparr>) = outcome_approved d"
  by (simp add: outcome_approved_def)

lemma settle_pay_chain:
  "fst (settle_pay w d m s) = (case chain w (length (chainCalls s))
       (ResolveDispute (d_engagementId d) (m_index m) (outcome_approved d)) of
     Inl e \<Rightarrow> Inl (StellarFailure e) | Inr h \<Rightarrow> Inr h)"
  by (simp add: settle_pay_def call_chain_def Let_def split: sum.splits)

lemma refunds_settle_pay:
  "t_refunds (snd (settle_pay w d m s)) = (if outcome_approved d then t_refunds s
     else t_refunds (upsert_refund \<lparr>r_milestoneId = m_id m,
            r_amount = (case m_amount m of None \<Rightarrow> 0 | Some a \<Rightarrow> a), r_status = REFUND_PENDING\<rparr> s))"
  by (simp add: settle_pay_def call_chain_def upsert_refund_def Let_def split: sum.splits)

definition escrow_call :: "dispute \<Rightarrow> milestone \<Rightarrow> chain_call" where
  "escrow_call d m = ResolveDispute (d_engagementId d) (m_index m) (outcome_approved d)"

text \<open>The dispute after a successful settlement.\<close>

definition settled_row :: "env \<Rightarrow> dispute \<Rightarrow> dispute" where
  "settled_row w d = d\<lparr>d_status := D_CLOSED, d_fundsLocked := False, d_fundsReleasedAt := Some (now w)\<rparr>"

lemma not_claimable_settled [simp]: "\<not> claimable (settled_row w d)"
  by (simp add: claimable_def settled_row_def)

lemma settle_paid:
  assumes "find_dispute did s = Some d" and "claimable d"
    and "find_milestone_by_id (d_milestoneId d) s = Some m"
    and "chain w (length (chainCalls s)) (escrow_call d m) = Inr h"
  shows "fst (settle cfg w did s) = Inr (settled_row w d)"
    and "find_dispute did (snd (settle cfg w did s)) = Some (settled_row w d)"
    and "chainCalls (snd (settle cfg w did s)) = chainCalls s @ [(escrow_call d m, True)]"
    and "map_option m_status (find_milestone_by_id (m_id m) (snd (settle cfg w did s))) =
           Some (if outcome_approved d then RESOLVED else PENDING)"
proof -
  let ?d = "d\<lparr>d_status := D_CLOSED\<rparr>"
  let ?s = "snd (settle_pay w ?d m (snd (settle_claim did s)))"
  have pay: "fst (settle_pay w ?d m (snd (settle_claim did s))) = Inr h"
    using assms(4) by (simp add: settle_pay_chain escrow_call_def)
  have "fst (settle cfg w did s) = Inr (settled_row w d) \<and> snd (settle cfg w did s) = settle_finish cfg w ?d m ?s"
    using surjective_pairing [of "settle cfg w did s"]
  proof (cases rule: settle_cases)
    case (failed d1 d2 m1 e)
    with assms pay show ?thesis by simp
  next
    case (paid d1 d2 m1 h1)
    with assms show ?thesis by (simp add: settled_row_def)
  qed (use assms settle_claim_found [OF assms(1,2)] in auto)
  then have t: "fst (settle cfg w did s) = Inr (settled_row w d)"
    "snd (settle cfg w did s) = settle_finish cfg w ?d m ?s" by auto
  show "fst (settle cfg w did s) = Inr (settled_row w d)" by (rule t)
  have "find_dispute did ?s = Some ?d"
    using assms(1,2) find_settle_claim [of did s] find_dispute_cong [of ?s "snd (settle_claim did s)" did]
    by simp
  then show "find_dispute did (snd (settle cfg w did s)) = Some (settled_row w d)"
    using find_dispute_id [OF assms(1)] by (simp add: t find_settle_finish settled_row_def)
  show "chainCalls (snd (settle cfg w did s)) = chainCalls s @ [(escrow_call d m, True)]"
    using pay by (simp add: t settle_pay_calls escrow_call_def)
  have m: "m_id m = d_milestoneId d" using find_milestone_by_id_id [OF assms(3)] by simp
  then have "find_milestone_by_id (m_id m) ?s = Some m"
    using assms(3) find_milestone_by_id_cong [of ?s s] by simp
  then show "map_option m_status (find_milestone_by_id (m_id m) (snd (settle cfg w did s))) =
      Some (if outcome_approved d then RESOLVED else PENDING)"
    by (auto simp: t find_milestone_settle_finish split: option.splits)
qed

lemma settle_failed:
  assumes "find_dispute did s = Some d" and "claimable d"
    and "find_milestone_by_id (d_milestoneId d) s = Some m"
    and "chain w (length (chainCalls s)) (escrow_call d m) = Inl e"
  shows "fst (settle cfg w did s) = Inl (StellarFailure e)"
    and "find_dispute did (snd (settle cfg w did s)) = Some d"
    and "chainCalls (snd (settle cfg w did s)) = chainCalls s @ [(escrow_call d m, False)]"
    and "t_milestones (snd (settle cfg w did s)) = t_milestones s"
    and "t_payouts (snd (settle cfg w did s)) = t_payouts s"
proof -
  let ?d = "d\<lparr>d_status := D_CLOSED\<rparr>"
  let ?s = "snd (settle_pay w ?d m (snd (settle_claim did s)))"
  have pay: "fst (settle_pay w ?d m (snd (settle_claim did s))) = Inl (StellarFailure e)"
    using assms(4) by (simp add: settle_pay_chain escrow_call_def)
  have "fst (settle cfg w did s) = Inl (StellarFailure e) \<and> snd (settle cfg w did s) = settle_rollback did ?s"
    using surjective_pairing [of "settle cfg w did s"]
  proof (cases rule: settle_cases)
    case (failed d1 d2 m1 e)
    with assms pay show ?thesis by simp
  next
    case (paid d1 d2 m1 h1)
    with assms pay show ?thesis by simp
  qed (use assms settle_claim_found [OF assms(1,2)] in auto)
  then have t: "fst (settle cfg w did s) = Inl (StellarFailure e)"
    "snd (settle cfg w did s) = settle_rollback did ?s" by auto
  show "fst (settle cfg w did s) = Inl (StellarFailure e)" by (rule t)
  have "find_dispute did ?s = Some ?d"
    using assms(1,2) find_settle_claim [of did s] find_dispute_cong [of ?s "snd (settle_claim did s)" did]
    by simp
  moreover have "d\<lparr>d_status := D_RESOLVED\<rparr> = d" using assms(2) by (simp add: claimable_def)
  ultimately show "find_dispute did (snd (settle cfg w did s)) = Some d"
    by (simp add: t settle_rollback_def)
  show "chainCalls (snd (settle cfg w did s)) = chainCalls s @ [(escrow_call d m, False)]"
    using pay by (simp add: t settle_rollback_def settle_pay_calls escrow_call_def)
  show "t_milestones (snd (settle cfg w did s)) = t_milestones s"
    and "t_payouts (snd (settle cfg w did s)) = t_payouts s"
    by (simp_all add: t settle_rollback_def)
qed

lemma settle_claim_lost:
  assumes "\<forall>x \<in> set (t_disputes s). d_id x = did \<longrightarrow> \<not> claimable x"
  shows "settle_claim did s = (0, s)"
proof -
  have "update_where (\<lambda>x. d_id x = did \<and> claimable x) f (t_disputes s) = t_disputes s" for f
    using assms by (intro update_where_none) auto
  with assms show ?thesis by (auto simp: settle_claim_def update_disputes_def count_where_0)
qed

lemma settle_lost:
  assumes "\<forall>x \<in> set (t_disputes s). d_id x = did \<longrightarrow> \<not> claimable x"
  shows "settle cfg w did s =
    (case find_dispute did s of None \<Rightarrow> Inl RecordNotFound | Some d \<Rightarrow> Inr d, s)"
  using settle_claim_lost [OF assms] by (simp add: settle_def throw_def return_def split: option.splits)

section \<open>Lemmas: decision\<close>

text \<open>Who may record a first-tier decision, as the guard of \<open>decide\<close> has it.\<close>

definition may_decide :: "dispute \<Rightarrow> actor option \<Rightarrow> bool" where
  "may_decide d actor \<longleftrightarrow> (\<forall>u. actor = Some u \<longrightarrow>
     ac_role u = ADMIN \<or> \<not> truthy (d_arbiterId d) \<or> d_arbiterId d = Some (ac_id u))"

lemma decide_row_simps [simp]:
  "d_id (decide_row cfg w snap oc d) = d_id d"
  "d_status (decide_row cfg w snap oc d) = D_RESOLVED"
  "d_outcome (decide_row cfg w snap oc d) = Some oc"
  "d_fundsLocked (decide_row cfg w snap oc d)"
  "d_isFinal (decide_row cfg w snap oc d) \<longleftrightarrow> \<not> 0 < appealWindowHours cfg"
  "d_fundsReleasedAt (decide_row cfg w snap oc d) = d_fundsReleasedAt d"
  "d_milestoneId (decide_row cfg w snap oc d) = d_milestoneId d"
  "d_engagementId (decide_row cfg w snap oc d) = d_engagementId d"
  "d_arbiterId (decide_row cfg w snap oc d) = d_arbiterId d"
  "d_stage (decide_row cfg w snap oc d) = d_stage d"
  by (simp_all add: decide_row_def Let_def)

lemma decide_rejected:
  assumes "d_status d = D_RESOLVED \<or> d_stage d = APPEAL_REVIEW \<or> \<not> may_decide d actor \<or>
    (\<forall>x \<in> set (t_disputes s). d_id x = d_id d \<longrightarrow> \<not> active (d_status x))"
  shows "decide cfg w d oc actor s =
    (Inl (if d_status d = D_RESOLVED \<or> d_stage d = APPEAL_REVIEW then ConflictException
          else if \<not> may_decide d actor then ForbiddenException else ConflictException), s)"
proof -
  have g: "(case actor of None \<Rightarrow> False
      | Some u \<Rightarrow> ac_role u \<noteq> ADMIN \<and> truthy (d_arbiterId d) \<and> d_arbiterId d \<noteq> Some (ac_id u)) \<longleftrightarrow>
      \<not> may_decide d actor"
    by (auto simp: may_decide_def split: option.splits)
  show ?thesis
  proof (cases "d_status d = D_RESOLVED \<or> d_stage d = APPEAL_REVIEW \<or> \<not> may_decide d actor")
    case True
    then show ?thesis by (auto simp: decide_def g throw_def)
  next
    case False
    with assms have no: "\<forall>x \<in> set (t_disputes s). \<not> (d_id x = d_id d \<and> active (d_status x))" by auto
    then have "update_disputes (\<lambda>x. d_id x = d_id d \<and> active (d_status x)) f s = (0, s)" for f
      by (simp add: update_disputes_def count_where_0 update_where_none)
    with False show ?thesis by (simp add: decide_def g throw_def)
  qed
qed

lemma decide_deferred:
  assumes "find_dispute (d_id d) s = Some d" and "active (d_status d)" and "d_stage d \<noteq> APPEAL_REVIEW"
    and "may_decide d actor" and "0 < appealWindowHours cfg"
  shows "fst (decide cfg w d oc actor s) = Inr (decide_row cfg w d oc d)"
    and "find_dispute (d_id d) (snd (decide cfg w d oc actor s)) = Some (decide_row cfg w d oc d)"
    and "chainCalls (snd (decide cfg w d oc actor s)) = chainCalls s"
    and "t_milestones (snd (decide cfg w d oc actor s)) = t_milestones s"
    and "t_refunds (snd (decide cfg w d oc actor s)) = t_refunds s"
proof -
  let ?p = "\<lambda>x. d_id x = d_id d \<and> active (d_status x)"
  obtain n s1 where u: "update_disputes ?p (decide_row cfg w d oc) s = (n, s1)" by fastforce
  have n: "n \<noteq> 0"
    using u assms(1,2) find_dispute_id [OF assms(1)] count_where_pos [of ?p "t_disputes s"]
    by (auto simp: update_disputes_def)
  have f: "find_dispute (d_id d) s1 = Some (decide_row cfg w d oc d)"
    using find_update_disputes [of "decide_row cfg w d oc" "d_id d" ?p s] assms(1,2)
    unfolding u by simp
  have g: "\<not> (case actor of None \<Rightarrow> False
      | Some u \<Rightarrow> ac_role u \<noteq> ADMIN \<and> truthy (d_arbiterId d) \<and> d_arbiterId d \<noteq> Some (ac_id u))"
    using assms(4) by (auto simp: may_decide_def split: option.splits)
  have eq: "decide cfg w d oc actor s = return (decide_row cfg w d oc d)
      (notifyParties (d_engagementId (decide_row cfg w d oc d)) DISPUTE_RESOLVED None s1)"
    using assms n f g u by (auto simp: decide_def)
  have s1: "s1 = s\<lparr>t_disputes := t_disputes s1\<rparr>" using u by (auto simp: update_disputes_def)
  show "fst (decide cfg w d oc actor s) = Inr (decide_row cfg w d oc d)" by (simp add: eq)
  show "find_dispute (d_id d) (snd (decide cfg w d oc actor s)) = Some (decide_row cfg w d oc d)"
    using f by (simp add: eq find_dispute_def)
  show "chainCalls (snd (decide cfg w d oc actor s)) = chainCalls s"
    and "t_milestones (snd (decide cfg w d oc actor s)) = t_milestones s"
    and "t_refunds (snd (decide cfg w d oc actor s)) = t_refunds s"
    by (simp_all add: eq, (subst s1, simp)+)
qed

section \<open>Lemmas: opening\<close>

lemma autoAssign_disputes:
  "\<exists>p f. t_disputes (snd (autoAssign cfg w did s)) = update_where p f (t_disputes s) \<and>
     (\<forall>x. p x \<longrightarrow> d_id x = did) \<and>
     (\<forall>x. d_id (f x) = d_id x \<and> d_milestoneId (f x) = d_milestoneId x \<and> d_status (f x) = D_UNDER_REVIEW)"
proof -
  have none: "\<exists>p f. t_disputes s = update_where p f (t_disputes s) \<and> (\<forall>x. p x \<longrightarrow> d_id x = did) \<and>
     (\<forall>x. d_id (f x) = d_id x \<and> d_milestoneId (f x) = d_milestoneId x \<and> d_status (f x) = D_UNDER_REVIEW)"
    by (rule exI [of _ "\<lambda>_. False"], rule exI [of _ "\<lambda>x. x\<lparr>d_status := D_UNDER_REVIEW\<rparr>"])
      (simp add: update_where_none)
  show ?thesis
  proof (cases "\<exists>d e a n. find_dispute did s = Some d \<and> find_engagement (d_engagementId d) s = Some e \<and>
      selectArbiter e [] s = Some (a, n) \<and>
      \<not> (truthy (d_arbiterId d) \<or> d_manuallyAssigned d \<or> d_status d \<noteq> D_OPEN)")
    case False
    then have "t_disputes (snd (autoAssign cfg w did s)) = t_disputes s"
      by (auto simp: autoAssign_def split: option.splits)
    with none show ?thesis by simp
  next
    case True
    then obtain d e a n where "find_dispute did s = Some d" "find_engagement (d_engagementId d) s = Some e"
      "selectArbiter e [] s = Some (a, n)"
      "\<not> (truthy (d_arbiterId d) \<or> d_manuallyAssigned d \<or> d_status d \<noteq> D_OPEN)" by blast
    then have "t_disputes (snd (autoAssign cfg w did s)) = update_where
        (\<lambda>x. d_id x = did \<and> d_arbiterId x = None \<and> \<not> d_manuallyAssigned x)
        (\<lambda>x. stage_fields cfg ARBITER_REVIEW (now w)
               (x\<lparr>d_arbiterId := Some (u_id a), d_arbiterAssignedAt := Some (now w),
                  d_status := D_UNDER_REVIEW\<rparr>)) (t_disputes s)"
      by (simp add: autoAssign_def Let_def update_disputes_def)
    then show ?thesis by (intro exI conjI) auto
  qed
qed

lemma autoAssign_id: "fst (autoAssign cfg w did s) = Inr (Some d) \<Longrightarrow> d_id d = did"
  by (auto simp: autoAssign_def Let_def split: option.splits if_splits prod.splits
      dest!: find_dispute_id sym [of "Some _" "find_dispute _ _"])

definition unsettled :: "ident \<Rightarrow> dispute \<Rightarrow> bool" where
  "unsettled mid d \<longleftrightarrow> d_milestoneId d = mid \<and> d_status d \<noteq> D_CLOSED"

lemma find_update_where_stable:
  assumes "List.find q rs = Some r" and "\<And>x. p x \<Longrightarrow> q x \<Longrightarrow> q (f x)" and "\<And>x. x \<in> set rs \<Longrightarrow> p x \<Longrightarrow> q x"
  shows "List.find q (update_where p f rs) = Some (if p r then f r else r)"
  using assms by (induction rs) (auto split: if_splits)

text \<open>
  Opening is idempotent: a second call, whatever its arguments, returns a row of the same id and
  leaves the database as it is.
\<close>

lemma openForMilestone_again:
  assumes run: "openForMilestone cfg w mid reason raised s = (Inr d, s')"
    and fresh: "genId w (idSeq s) \<notin> d_id ` set (t_disputes s)"
  shows "\<exists>d'. openForMilestone cfg' w' mid reason' raised' s' = (Inr d', s') \<and> d_id d' = d_id d"
proof (cases "List.find (unsettled mid) (t_disputes s)")
  case (Some x)
  with run show ?thesis
    by (auto simp: openForMilestone_def return_def unsettled_def [abs_def])
next
  case None
  then obtain m where m: "find_milestone_by_id mid s = Some m"
    using run by (auto simp: openForMilestone_def throw_def unsettled_def [abs_def] split: option.splits)
  define did where "did = genId w (idSeq s)"
  define d0 where "d0 = open_row cfg w did m mid reason raised"
  define s2 where "s2 = s\<lparr>idSeq := Suc (idSeq s), t_disputes := t_disputes s @ [d0]\<rparr>"
  have "and_then (autoAssign cfg w did s2)
      (\<lambda>r s3. return (case r of Some d' \<Rightarrow> d' | None \<Rightarrow> d0) s3) = (Inr d, s')"
    using run None m
    unfolding d0_def s2_def did_def
    by (simp add: openForMilestone_def fresh_id_def Let_def unsettled_def [abs_def])
  moreover have "d_id d0 = did" "unsettled mid d0" "t_disputes s2 = t_disputes s @ [d0]"
    by (simp_all add: d0_def open_row_def unsettled_def s2_def)
  ultimately have d0: "d_id d0 = did" "unsettled mid d0" "t_disputes s2 = t_disputes s @ [d0]"
    "and_then (autoAssign cfg w did s2) (\<lambda>r s3. return (case r of Some d' \<Rightarrow> d' | None \<Rightarrow> d0) s3) = (Inr d, s')"
    by blast+
  from d0(4) obtain r where r: "autoAssign cfg w did s2 = (Inr r, s')" "d = (case r of Some d' \<Rightarrow> d' | None \<Rightarrow> d0)"
    by (auto simp: and_then_Inr_iff)
  have id: "d_id d = did"
    using r d0(1) autoAssign_id [of cfg w did s2] by (auto split: option.splits)
  obtain p f where pf: "t_disputes s' = update_where p f (t_disputes s2)" "\<forall>x. p x \<longrightarrow> d_id x = did"
    "\<forall>x. d_id (f x) = d_id x \<and> d_milestoneId (f x) = d_milestoneId x \<and> d_status (f x) = D_UNDER_REVIEW"
    using autoAssign_disputes [of cfg w did s2] r by auto
  have "List.find (unsettled mid) (t_disputes s2) = Some d0"
    using None d0 by (simp add: find_append)
  moreover have "x \<in> set (t_disputes s2) \<Longrightarrow> p x \<Longrightarrow> unsettled mid x" for x
    using pf(2) fresh d0(2,3) by (auto simp: did_def image_iff)
  ultimately have "List.find (unsettled mid) (t_disputes s') = Some (if p d0 then f d0 else d0)"
    unfolding pf(1) using pf(3) by (intro find_update_where_stable) (auto simp: unsettled_def)
  then show ?thesis
    using id d0(1) pf(3) by (auto simp: openForMilestone_def return_def unsettled_def [abs_def])
qed

end
