(* ===== verification/Appeals.thy ===== *)
theory Appeals
  imports Disputes Claim
begin

text \<open>
  \<^verbatim>\<open>modules/disputes/appeal.service.ts\<close>: opening an appeal within the window, the final decision on
  it, and the job that finalises decisions whose window has lapsed and retries settlements that
  failed.
\<close>

section \<open>Opening an appeal\<close>

definition appealable :: "time \<Rightarrow> dispute \<Rightarrow> bool" where
  "appealable t d \<longleftrightarrow> d_status d = D_RESOLVED \<and> \<not> d_isFinal d \<and> ge_opt (d_appealDeadline d) t"

definition appeal_row :: "dispute_config \<Rightarrow> env \<Rightarrow> user option \<Rightarrow> dispute \<Rightarrow> dispute" where
  "appeal_row cfg w arb d = stage_fields cfg APPEAL_REVIEW (now w)
     (d\<lparr>d_status := (if arb = None then D_OPEN else D_UNDER_REVIEW),
        d_arbiterId := map_option u_id arb,
        d_arbiterAssignedAt := (if arb = None then None else Some (now w)),
        d_manuallyAssigned := False, d_fundsLocked := True\<rparr>)"

definition appeal_tx ::
  "dispute_config \<Rightarrow> env \<Rightarrow> dispute \<Rightarrow> actor \<Rightarrow> user option \<Rightarrow> db \<Rightarrow> (db, appeal) outcome" where
  "appeal_tx cfg w d user arb s =
     (let did = d_id d;
          (n, s1) = update_disputes (\<lambda>x. d_id x = did \<and> appealable (now w) x) (appeal_row cfg w arb) s
      in if n = 0 then throw ConflictException s1
         else if \<exists>a \<in> set (t_appeals s1). a_disputeId a = did then throw UniqueViolation s1
         else let (aid, s2) = fresh_id w s1;
                  a = \<lparr>a_id = aid, a_disputeId = did, a_appellantId = ac_id user,
                       a_originalArbiterId = d_arbiterId d, a_arbiterId = map_option u_id arb,
                       a_originalOutcome = the (d_outcome d), a_status = A_OPEN, a_outcome = None,
                       a_isFinal = False, a_decidedAt = None\<rparr>
              in return a (s2\<lparr>t_appeals := t_appeals s2 @ [a]\<rparr>))"

definition openAppeal :: "dispute_config \<Rightarrow> env \<Rightarrow> ident \<Rightarrow> actor \<Rightarrow> db \<Rightarrow> (db, appeal) outcome" where
  "openAppeal cfg w did user s = (case find_dispute did s of
     None \<Rightarrow> throw NotFoundException s
   | Some d \<Rightarrow> (case find_engagement (d_engagementId d) s of
       None \<Rightarrow> throw TypeErrorExn s
     | Some e \<Rightarrow>
         if \<not> isParty e user then throw ForbiddenException s
         else if find_appeal did s \<noteq> None then throw ConflictException s
         else if d_isFinal d then throw ConflictException s
         else if d_status d \<noteq> D_RESOLVED \<or> d_outcome d = None \<or> d_appealDeadline d = None
         then throw UnprocessableEntityException s
         else if the (d_appealDeadline d) < now w then throw UnprocessableEntityException s
         else
           (let arb = map_option fst
                  (selectArbiter e (if truthy (d_arbiterId d) then [the (d_arbiterId d)] else []) s)
            in case transaction (appeal_tx cfg w d user arb) s of
                 (Inl UniqueViolation, s1) \<Rightarrow> throw ConflictException s1
               | (Inl x, s1) \<Rightarrow> throw x s1
               | (Inr a, s1) \<Rightarrow>
                   (let s2 = notifyParties (d_engagementId d) DISPUTE_APPEALED (Some (ac_id user)) s1
                    in return a (case arb of
                         Some b \<Rightarrow> notify (ById (u_id b)) ARBITER_ASSIGNED s2
                       | None \<Rightarrow> notify_all (map ById (active_admins s2)) DISPUTE_APPEALED s2)))))"

section \<open>Deciding an appeal\<close>

definition appeal_decision_row :: "env \<Rightarrow> dispute \<Rightarrow> dispute_outcome \<Rightarrow> dispute \<Rightarrow> dispute" where
  "appeal_decision_row w snap oc x = x\<lparr>d_status := D_RESOLVED, d_outcome := Some oc,
     d_resolvedAt := Some (now w), d_appealDeadline := Some (now w), d_isFinal := True,
     d_slaStatus := completion_status snap (now w)\<rparr>"

lemma appeal_decision_row_simps [simp]:
  "d_id (appeal_decision_row w snap oc x) = d_id x"
  "d_status (appeal_decision_row w snap oc x) = D_RESOLVED"
  "d_isFinal (appeal_decision_row w snap oc x)"
  "d_outcome (appeal_decision_row w snap oc x) = Some oc"
  "d_milestoneId (appeal_decision_row w snap oc x) = d_milestoneId x"
  "d_engagementId (appeal_decision_row w snap oc x) = d_engagementId x"
  "d_fundsReleasedAt (appeal_decision_row w snap oc x) = d_fundsReleasedAt x"
  by (simp_all add: appeal_decision_row_def)

definition decideAppeal_tx :: "env \<Rightarrow> dispute \<Rightarrow> appeal \<Rightarrow> dispute_outcome \<Rightarrow> db \<Rightarrow> (db, unit) outcome" where
  "decideAppeal_tx w d ap oc s =
     (let p = (\<lambda>a. a_id a = a_id ap \<and> a_status a = A_OPEN);
          n = count_where p (t_appeals s);
          s1 = s\<lparr>t_appeals := update_where p (\<lambda>a. a\<lparr>a_status := A_DECIDED, a_outcome := Some oc,
                   a_isFinal := True, a_decidedAt := Some (now w)\<rparr>) (t_appeals s)\<rparr>
      in if n = 0 then throw ConflictException s1
         else if find_dispute (d_id d) s1 = None then throw RecordNotFound s1
         else return () (update_dispute (d_id d) (appeal_decision_row w d oc) s1))"

definition decideAppeal ::
  "dispute_config \<Rightarrow> env \<Rightarrow> ident \<Rightarrow> actor \<Rightarrow> dispute_outcome \<Rightarrow> db \<Rightarrow> (db, dispute) outcome" where
  "decideAppeal cfg w did user oc s = (case find_dispute did s of
     None \<Rightarrow> throw NotFoundException s
   | Some d \<Rightarrow> (case find_appeal did s of
       None \<Rightarrow> throw UnprocessableEntityException s
     | Some ap \<Rightarrow>
         if d_stage d \<noteq> APPEAL_REVIEW \<or> a_status ap \<noteq> A_OPEN then throw UnprocessableEntityException s
         else if ac_role user \<noteq> ADMIN \<and> d_arbiterId d \<noteq> Some (ac_id user) then throw ForbiddenException s
         else and_then (transaction (decideAppeal_tx w d ap oc) s)
                (\<lambda>_ s1. settle cfg w did
                   (notifyParties (d_engagementId d) DISPUTE_APPEAL_DECIDED None s1))))"

section \<open>The job\<close>

definition lapsed :: "time \<Rightarrow> dispute \<Rightarrow> bool" where
  "lapsed t d \<longleftrightarrow> d_status d = D_RESOLVED \<and> lt_opt (d_appealDeadline d) t"

definition finalize_flag :: "time \<Rightarrow> ident \<Rightarrow> db \<Rightarrow> nat \<times> db" where
  "finalize_flag t did s =
     update_disputes (\<lambda>x. d_id x = did \<and> \<not> d_isFinal x \<and> lapsed t x) (\<lambda>x. x\<lparr>d_isFinal := True\<rparr>) s"

fun finalize_loop :: "dispute_config \<Rightarrow> env \<Rightarrow> dispute list \<Rightarrow> nat \<Rightarrow> db \<Rightarrow> nat \<times> db" where
  "finalize_loop cfg w [] settled s = (settled, s)"
| "finalize_loop cfg w (d # ds) settled s =
     (let (go, s1) = (if d_isFinal d then (True, s)
                      else let (n, s1) = finalize_flag (now w) (d_id d) s in (n \<noteq> 0, s1))
      in if \<not> go then finalize_loop cfg w ds settled s1
         else (case settle cfg w (d_id d) s1 of
                 (Inl e, s2) \<Rightarrow> finalize_loop cfg w ds settled s2
               | (Inr _, s2) \<Rightarrow> finalize_loop cfg w ds (Suc settled) s2))"

definition finalizeExpiredAppealWindows :: "dispute_config \<Rightarrow> env \<Rightarrow> bool \<Rightarrow> db \<Rightarrow> nat \<times> db" where
  "finalizeExpiredAppealWindows cfg w locked s =
     (if \<not> locked then (0, s)
      else finalize_loop cfg w (filter (lapsed (now w)) (t_disputes s)) 0 s)"

section \<open>Lemmas: opening\<close>

lemma appeal_row_simps [simp]:
  "d_id (appeal_row cfg w arb d) = d_id d"
  "d_status (appeal_row cfg w arb d) = (if arb = None then D_OPEN else D_UNDER_REVIEW)"
  "d_stage (appeal_row cfg w arb d) = APPEAL_REVIEW"
  "d_arbiterId (appeal_row cfg w arb d) = map_option u_id arb"
  "d_fundsLocked (appeal_row cfg w arb d)"
  "d_fundsReleasedAt (appeal_row cfg w arb d) = d_fundsReleasedAt d"
  "d_isFinal (appeal_row cfg w arb d) = d_isFinal d"
  "d_milestoneId (appeal_row cfg w arb d) = d_milestoneId d"
  by (simp_all add: appeal_row_def)

text \<open>The conditions under which an appeal is accepted.\<close>

definition can_appeal :: "time \<Rightarrow> dispute \<Rightarrow> engagement \<Rightarrow> actor \<Rightarrow> db \<Rightarrow> bool" where
  "can_appeal t d e user s \<longleftrightarrow> isParty e user \<and> find_appeal (d_id d) s = None \<and> \<not> d_isFinal d \<and>
     d_status d = D_RESOLVED \<and> d_outcome d \<noteq> None \<and> (\<exists>x. d_appealDeadline d = Some x \<and> t \<le> x)"

lemma find_appeal_None: "find_appeal did s = None \<longleftrightarrow> (\<forall>a \<in> set (t_appeals s). a_disputeId a \<noteq> did)"
  by (simp add: find_appeal_def find_None)

lemma openAppeal_rejected:
  assumes "find_dispute did s = Some d" and "find_engagement (d_engagementId d) s = Some e"
    and "\<not> can_appeal (now w) d e user s"
  shows "\<exists>x. openAppeal cfg w did user s = (Inl x, s) \<and>
    x \<in> {ForbiddenException, ConflictException, UnprocessableEntityException} \<and>
    (x = ForbiddenException \<longleftrightarrow> \<not> isParty e user)"
proof -
  have id: "d_id d = did" using find_dispute_id [OF assms(1)] by simp
  show ?thesis
    using assms id by (auto simp: openAppeal_def can_appeal_def throw_def not_le split: option.splits)
qed

definition appeal_arbiter :: "engagement \<Rightarrow> dispute \<Rightarrow> db \<Rightarrow> user option" where
  "appeal_arbiter e d s =
     map_option fst (selectArbiter e (if truthy (d_arbiterId d) then [the (d_arbiterId d)] else []) s)"

text \<open>The appeal never goes back to the arbiter who decided first, nor to one in conflict.\<close>

lemma appeal_arbiter_fresh:
  assumes "appeal_arbiter e d s = Some b" and "truthy (d_arbiterId d)"
  shows "d_arbiterId d \<noteq> Some (u_id b)" and "u_id b \<notin> conflictedArbiterIds e s"
proof -
  obtain n where sel: "selectArbiter e [the (d_arbiterId d)] s = Some (b, n)"
    using assms by (auto simp: appeal_arbiter_def split: if_splits)
  from selectArbiter_Some(1) [OF this] assms(2)
  show "d_arbiterId d \<noteq> Some (u_id b)" and "u_id b \<notin> conflictedArbiterIds e s"
    by (auto simp: set_eligible truthy_iff)
qed

lemma appeal_tx_ok:
  assumes "find_dispute (d_id d) s = Some d" and "appealable (now w) d"
    and "find_appeal (d_id d) s = None"
  shows "\<exists>a t. appeal_tx cfg w d user arb s = (Inr a, t) \<and> find_appeal (d_id d) t = Some a \<and>
    a_status a = A_OPEN \<and> a_arbiterId a = map_option u_id arb \<and>
    a_originalArbiterId a = d_arbiterId d \<and>
    find_dispute (d_id d) t = Some (appeal_row cfg w arb d) \<and> chainCalls t = chainCalls s \<and>
    t_milestones t = t_milestones s"
proof -
  let ?p = "\<lambda>x. d_id x = d_id d \<and> appealable (now w) x"
  obtain n s1 where u: "update_disputes ?p (appeal_row cfg w arb) s = (n, s1)" by fastforce
  have s1: "s1 = s\<lparr>t_disputes := update_where ?p (appeal_row cfg w arb) (t_disputes s)\<rparr>"
    and n: "n = count_where ?p (t_disputes s)" using u by (simp_all add: update_disputes_def)
  have "n \<noteq> 0" using n assms(1,2) find_dispute_id [OF assms(1)] count_where_pos [of ?p] by auto
  have f: "find_dispute (d_id d) s1 = Some (appeal_row cfg w arb d)"
    using find_update_disputes [of "appeal_row cfg w arb" "d_id d" ?p s] assms(1,2) unfolding u by simp
  have na: "\<forall>a \<in> set (t_appeals s1). a_disputeId a \<noteq> d_id d"
    using assms(3) by (simp add: s1 find_appeal_None)
  define a where "a = \<lparr>a_id = genId w (idSeq s), a_disputeId = d_id d, a_appellantId = ac_id user,
     a_originalArbiterId = d_arbiterId d, a_arbiterId = map_option u_id arb,
     a_originalOutcome = the (d_outcome d), a_status = A_OPEN, a_outcome = None,
     a_isFinal = False, a_decidedAt = None\<rparr>"
  define t where "t = s1\<lparr>idSeq := Suc (idSeq s), t_appeals := t_appeals s @ [a]\<rparr>"
  have "appeal_tx cfg w d user arb s = (Inr a, t)"
    using \<open>n \<noteq> 0\<close> na u by (simp add: appeal_tx_def fresh_id_def a_def t_def s1 Let_def)
  moreover have "find_appeal (d_id d) t = Some a"
    using na find_None [of "\<lambda>a. a_disputeId a = d_id d" "t_appeals s"]
    by (simp add: t_def find_appeal_def find_append a_def s1)
  moreover have "find_dispute (d_id d) t = Some (appeal_row cfg w arb d)"
    using f by (simp add: t_def find_dispute_def)
  ultimately show ?thesis by (simp add: a_def t_def s1)
qed

lemma openAppeal_accepted:
  assumes "find_dispute did s = Some d" and "find_engagement (d_engagementId d) s = Some e"
    and "can_appeal (now w) d e user s"
  shows "\<exists>a t. openAppeal cfg w did user s = (Inr a, t) \<and> find_appeal did t = Some a \<and>
    a_status a = A_OPEN \<and> a_arbiterId a = map_option u_id (appeal_arbiter e d s) \<and>
    a_originalArbiterId a = d_arbiterId d \<and>
    find_dispute did t = Some (appeal_row cfg w (appeal_arbiter e d s) d) \<and>
    chainCalls t = chainCalls s \<and> t_milestones t = t_milestones s"
proof -
  have id: "d_id d = did" using find_dispute_id [OF assms(1)] by simp
  have ap: "appealable (now w) d" using assms(3) by (auto simp: can_appeal_def appealable_def)
  have na: "find_appeal did s = None" using assms(3) id by (simp add: can_appeal_def)
  let ?arb = "appeal_arbiter e d s"
  obtain a t where tx: "appeal_tx cfg w d user ?arb s = (Inr a, t)" "find_appeal did t = Some a"
    "a_status a = A_OPEN" "a_arbiterId a = map_option u_id ?arb" "a_originalArbiterId a = d_arbiterId d"
    "find_dispute did t = Some (appeal_row cfg w ?arb d)" "chainCalls t = chainCalls s"
    "t_milestones t = t_milestones s"
    using appeal_tx_ok [of d s w cfg user ?arb] assms(1) ap na id by auto
  define t' where "t' = (case ?arb of
      Some b \<Rightarrow> notify (ById (u_id b)) ARBITER_ASSIGNED
        (notifyParties (d_engagementId d) DISPUTE_APPEALED (Some (ac_id user)) t)
    | None \<Rightarrow> notify_all (map ById (active_admins
        (notifyParties (d_engagementId d) DISPUTE_APPEALED (Some (ac_id user)) t))) DISPUTE_APPEALED
        (notifyParties (d_engagementId d) DISPUTE_APPEALED (Some (ac_id user)) t))"
  have t': "t_disputes t' = t_disputes t" "t_appeals t' = t_appeals t" "chainCalls t' = chainCalls t"
    "t_milestones t' = t_milestones t"
    by (simp_all add: t'_def split: option.splits)
  have guards: "isParty e user" "\<not> d_isFinal d" "d_status d = D_RESOLVED" "d_outcome d \<noteq> None"
    "d_appealDeadline d \<noteq> None" "\<not> the (d_appealDeadline d) < now w"
    using assms(3) by (auto simp: can_appeal_def)
  have tr: "transaction (appeal_tx cfg w d user
      (map_option fst (selectArbiter e (if truthy (d_arbiterId d) then [the (d_arbiterId d)] else []) s))) s
      = (Inr a, t)"
    using tx(1) by (simp add: appeal_arbiter_def)
  have "openAppeal cfg w did user s = (Inr a, t')"
    unfolding openAppeal_def assms(1,2) option.case Let_def tr
    using guards na by (simp add: t'_def appeal_arbiter_def return_def)
  with tx t' show ?thesis by (auto simp: find_appeal_def find_dispute_def)
qed

section \<open>Lemmas: the final decision\<close>

lemma decideAppeal_tx_ok:
  assumes "find_dispute (d_id d) s = Some d" and "ap \<in> set (t_appeals s)" and "a_status ap = A_OPEN"
  shows "\<exists>t. decideAppeal_tx w d ap oc s = (Inr (), t) \<and>
    find_dispute (d_id d) t = Some (appeal_decision_row w d oc d) \<and>
    t_milestones t = t_milestones s \<and> chainCalls t = chainCalls s \<and> t_engagements t = t_engagements s \<and>
    t_appeals t = update_where (\<lambda>a. a_id a = a_id ap \<and> a_status a = A_OPEN)
      (\<lambda>a. a\<lparr>a_status := A_DECIDED, a_outcome := Some oc, a_isFinal := True, a_decidedAt := Some (now w)\<rparr>)
      (t_appeals s)"
proof -
  have "0 < count_where (\<lambda>a. a_id a = a_id ap \<and> a_status a = A_OPEN) (t_appeals s)"
    using assms(2,3) by (auto simp: count_where_pos)
  moreover have "find_dispute (d_id d) (s\<lparr>t_appeals := x\<rparr>) = Some d" for x
    using assms(1) by (simp add: find_dispute_def)
  ultimately show ?thesis
    by (simp add: decideAppeal_tx_def Let_def appeal_decision_row_def)
qed

definition may_decide_appeal :: "dispute \<Rightarrow> appeal \<Rightarrow> actor \<Rightarrow> bool" where
  "may_decide_appeal d ap user \<longleftrightarrow> d_stage d = APPEAL_REVIEW \<and> a_status ap = A_OPEN \<and>
     (ac_role user = ADMIN \<or> d_arbiterId d = Some (ac_id user))"

lemma decideAppeal_ok:
  assumes "find_dispute did s = Some d" and "find_appeal did s = Some ap" and "may_decide_appeal d ap user"
  shows "\<exists>s1. decideAppeal cfg w did user oc s = settle cfg w did s1 \<and>
    find_dispute did s1 = Some (appeal_decision_row w d oc d) \<and>
    chainCalls s1 = chainCalls s \<and> t_milestones s1 = t_milestones s \<and>
    map_option (\<lambda>a. (a_status a, a_outcome a, a_isFinal a)) (find_appeal did s1) =
      Some (A_DECIDED, Some oc, True)"
proof -
  have id: "d_id d = did" using find_dispute_id [OF assms(1)] by simp
  obtain t where t: "decideAppeal_tx w d ap oc s = (Inr (), t)"
    "find_dispute did t = Some (appeal_decision_row w d oc d)" "t_milestones t = t_milestones s"
    "chainCalls t = chainCalls s"
    "t_appeals t = update_where (\<lambda>a. a_id a = a_id ap \<and> a_status a = A_OPEN)
      (\<lambda>a. a\<lparr>a_status := A_DECIDED, a_outcome := Some oc, a_isFinal := True, a_decidedAt := Some (now w)\<rparr>)
      (t_appeals s)"
    using decideAppeal_tx_ok [of d s ap w oc] assms find_appeal_id [OF assms(2)] id
    by (auto simp: may_decide_appeal_def)
  have "List.find (\<lambda>a. a_disputeId a = did) (t_appeals t) =
      Some (ap\<lparr>a_status := A_DECIDED, a_outcome := Some oc, a_isFinal := True, a_decidedAt := Some (now w)\<rparr>)"
    unfolding t(5) using assms(2,3)
    by (subst find_update_where) (auto simp: find_appeal_def may_decide_appeal_def)
  moreover have "transaction (decideAppeal_tx w d ap oc) s = (Inr (), t)" using t(1) by simp
  ultimately show ?thesis
    using assms t id
    by (intro exI [of _ "notifyParties (d_engagementId d) DISPUTE_APPEAL_DECIDED None t"])
       (auto simp: decideAppeal_def may_decide_appeal_def find_dispute_def find_appeal_def)
qed

lemma appeal_decision_claimable:
  "d_fundsReleasedAt d = None \<Longrightarrow> claimable (appeal_decision_row w d oc d)"
  by (simp add: claimable_def appeal_decision_row_def)

section \<open>Lemmas: what a settlement leaves alone\<close>

lemma find_dispute_update_other:
  "find_dispute did' (snd (update_disputes (\<lambda>x. d_id x = did \<and> p x) f s)) = find_dispute did' s"
  if "did' \<noteq> did" and "\<And>x. d_id (f x) = d_id x"
  using that by (auto simp: find_dispute_def update_disputes_def intro!: find_update_where_other)

lemma settle_other:
  assumes "did' \<noteq> did"
  shows "find_dispute did' (snd (settle cfg w did s)) = find_dispute did' s"
proof -
  have c: "find_dispute did' (snd (settle_claim did s)) = find_dispute did' s"
    using assms by (simp add: settle_claim_def find_dispute_update_other)
  have p: "find_dispute did' (snd (settle_pay w d m (snd (settle_claim did s)))) = find_dispute did' s" for d m
    using c find_dispute_cong [of "snd (settle_pay w d m (snd (settle_claim did s)))"] by simp
  show ?thesis
    using surjective_pairing [of "settle cfg w did s"]
  proof (cases rule: settle_cases)
    case (failed d d' m e)
    then show ?thesis using assms by (simp add: settle_rollback_def p)
  next
    case (paid d d' m h)
    have "d_id d' = did" using paid(1,4) find_dispute_id by (auto split: if_splits)
    with paid assms show ?thesis by (simp add: find_settle_finish p option.map_id0 map_option_idI)
  qed (use c in auto)
qed

lemma settle_calls_prefix: "\<exists>cs. chainCalls (snd (settle cfg w did s)) = chainCalls s @ cs \<and>
    (\<forall>c \<in> set cs. \<exists>d m. find_dispute did s = Some d \<and> c = (escrow_call d m, snd c))"
  using surjective_pairing [of "settle cfg w did s"]
proof (cases rule: settle_cases)
  case (failed d d' m e)
  then show ?thesis
    by (auto simp: settle_rollback_def settle_pay_calls escrow_call_def split: if_splits)
next
  case (paid d d' m h)
  then show ?thesis by (auto simp: settle_pay_calls escrow_call_def split: if_splits)
qed auto

section \<open>Lemmas: the job respects the window\<close>

lemma finalize_flag_other:
  "did' \<noteq> did \<Longrightarrow> find_dispute did' (snd (finalize_flag t did s)) = find_dispute did' s"
  unfolding finalize_flag_def by (rule find_dispute_update_other) auto

lemma finalize_loop_other:
  "did \<notin> d_id ` set ds \<Longrightarrow>
     find_dispute did (snd (finalize_loop cfg w ds k s)) = find_dispute did s"
proof (induction ds arbitrary: k s)
  case (Cons d ds)
  then have ne: "did \<noteq> d_id d" "did \<notin> d_id ` set ds" by auto
  then show ?case
    using Cons.IH [OF ne(2)] settle_other [OF ne(1)] finalize_flag_other [OF ne(1)]
    by (auto split: prod.splits sum.splits) (metis snd_conv)+
qed simp

lemma finalize_keeps_window:
  assumes "distinct (map d_id (t_disputes s))" and "find_dispute did s = Some d" and "\<not> lapsed (now w) d"
  shows "find_dispute did (snd (finalizeExpiredAppealWindows cfg w locked s)) = Some d"
proof -
  have d: "d_id d = did" "d \<in> set (t_disputes s)" using find_dispute_id [OF assms(2)] by auto
  have "did \<notin> d_id ` set (filter (lapsed (now w)) (t_disputes s))"
  proof
    assume "did \<in> d_id ` set (filter (lapsed (now w)) (t_disputes s))"
    then obtain x where "x \<in> set (t_disputes s)" "d_id x = did" "lapsed (now w) x" by auto
    with assms(1,3) d show False by (auto simp: distinct_map inj_on_def)
  qed
  then show ?thesis
    using assms(2) by (simp add: finalizeExpiredAppealWindows_def finalize_loop_other)
qed

text \<open>With a chain that answers, the job settles every lapsed dispute it finds.\<close>

lemma settle_keeps_milestones:
  "map m_id (t_milestones (snd (settle cfg w did s))) = map m_id (t_milestones s)"
  using surjective_pairing [of "settle cfg w did s"]
proof (cases rule: settle_cases)
  case (paid d d' m h)
  then show ?thesis
    by (simp add: settle_finish_def settle_release_def settle_milestone_def Let_def
        update_milestone_def map_update_where_key)
qed (simp_all add: settle_rollback_def)

lemma find_milestone_exists:
  "find_milestone_by_id mid s \<noteq> None \<longleftrightarrow> mid \<in> set (map m_id (t_milestones s))"
  by (auto simp: find_milestone_by_id_def find_None image_iff)

lemma finalize_flag_frame [simp]:
  "t_milestones (snd (finalize_flag t did s)) = t_milestones s"
  "chainCalls (snd (finalize_flag t did s)) = chainCalls s"
  by (simp_all add: finalize_flag_def update_disputes_def)

definition ready :: "time \<Rightarrow> db \<Rightarrow> dispute \<Rightarrow> bool" where
  "ready t s d \<longleftrightarrow> find_dispute (d_id d) s = Some d \<and> lapsed t d \<and> d_fundsReleasedAt d = None \<and>
     d_milestoneId d \<in> set (map m_id (t_milestones s))"

lemma settle_ready:
  assumes "find_dispute did s = Some d" and "claimable d" and "d_milestoneId d \<in> set (map m_id (t_milestones s))"
    and "\<And>n c. \<not> isl (chain w n c)"
  shows "find_dispute did (snd (settle cfg w did s)) = Some (settled_row w d)"
    and "isl (fst (settle cfg w did s)) = False"
proof -
  obtain m where m: "find_milestone_by_id (d_milestoneId d) s = Some m"
    using assms(3) find_milestone_exists by fastforce
  obtain h where "chain w (length (chainCalls s)) (escrow_call d m) = Inr h"
    using assms(4) by (cases "chain w (length (chainCalls s)) (escrow_call d m)") (auto, metis sum.disc(1))
  from settle_paid [OF assms(1,2) m this] show "find_dispute did (snd (settle cfg w did s)) = Some (settled_row w d)"
    and "isl (fst (settle cfg w did s)) = False" by simp_all
qed

lemma finalize_step_ready:
  assumes "ready (now w) s d" and "\<And>n c. \<not> isl (chain w n c)"
  shows "\<exists>s1. finalize_loop cfg w (d # ds) k s = finalize_loop cfg w ds (Suc k) s1 \<and>
    find_dispute (d_id d) s1 = Some (settled_row w (d\<lparr>d_isFinal := True\<rparr>)) \<and>
    map m_id (t_milestones s1) = map m_id (t_milestones s) \<and>
    (\<forall>x. x \<noteq> d_id d \<longrightarrow> find_dispute x s1 = find_dispute x s)"
proof -
  let ?d = "d\<lparr>d_isFinal := True\<rparr>"
  have r: "find_dispute (d_id d) s = Some d" "lapsed (now w) d" "d_fundsReleasedAt d = None"
    "d_milestoneId d \<in> set (map m_id (t_milestones s))" using assms(1) by (auto simp: ready_def)
  have cl: "claimable ?d" using r by (simp add: claimable_def lapsed_def)
  define s0 where "s0 = (if d_isFinal d then s else snd (finalize_flag (now w) (d_id d) s))"
  have f0: "find_dispute (d_id d) s0 = Some ?d"
  proof (cases "d_isFinal d")
    case True
    then have "?d = d" by simp
    with True r show ?thesis by (simp add: s0_def)
  next
    case False
    with r show ?thesis
      by (simp add: s0_def finalize_flag_def find_update_disputes)
  qed
  have ms: "t_milestones s0 = t_milestones s" by (simp add: s0_def)
  have other: "find_dispute x s0 = find_dispute x s" if "x \<noteq> d_id d" for x
    using that by (simp add: s0_def finalize_flag_other)
  have n: "\<not> d_isFinal d \<Longrightarrow> 0 < fst (finalize_flag (now w) (d_id d) s)"
    using r find_dispute_id [OF r(1)]
    by (auto simp: finalize_flag_def update_disputes_def count_where_pos)
  obtain x s1 where st: "settle cfg w (d_id d) s0 = (Inr x, s1)"
    using settle_ready(2) [OF f0 cl _ assms(2), of cfg] r(4) ms
    by (cases "settle cfg w (d_id d) s0"; cases "fst (settle cfg w (d_id d) s0)") auto
  have "finalize_loop cfg w (d # ds) k s = finalize_loop cfg w ds (Suc k) s1"
    using st n by (cases "finalize_flag (now w) (d_id d) s") (auto simp: s0_def)
  moreover have "find_dispute (d_id d) s1 = Some (settled_row w ?d)"
    using settle_ready(1) [OF f0 cl _ assms(2), of cfg] r(4) ms st by simp
  moreover have "map m_id (t_milestones s1) = map m_id (t_milestones s)"
    using settle_keeps_milestones [of cfg w "d_id d" s0] st ms by simp
  moreover have "\<forall>x. x \<noteq> d_id d \<longrightarrow> find_dispute x s1 = find_dispute x s"
    using settle_other [of _ "d_id d" cfg w s0] st other by auto
  ultimately show ?thesis by blast
qed

lemma finalize_loop_settles:
  assumes "distinct (map d_id ds)" and "\<And>d. d \<in> set ds \<Longrightarrow> ready (now w) s d"
    and "\<And>n c. \<not> isl (chain w n c)"
  shows "fst (finalize_loop cfg w ds k s) = k + length ds \<and>
    (\<forall>d \<in> set ds. find_dispute (d_id d) (snd (finalize_loop cfg w ds k s)) =
       Some (settled_row w (d\<lparr>d_isFinal := True\<rparr>)))"
  using assms(1,2)
proof (induction ds arbitrary: k s)
  case (Cons d ds)
  obtain s1 where s1: "finalize_loop cfg w (d # ds) k s = finalize_loop cfg w ds (Suc k) s1"
    "find_dispute (d_id d) s1 = Some (settled_row w (d\<lparr>d_isFinal := True\<rparr>))"
    "map m_id (t_milestones s1) = map m_id (t_milestones s)"
    "\<forall>x. x \<noteq> d_id d \<longrightarrow> find_dispute x s1 = find_dispute x s"
    using finalize_step_ready [OF Cons.prems(2) [of d] assms(3), of cfg ds k] by auto
  have "ready (now w) s1 x" if "x \<in> set ds" for x
  proof -
    have "d_id x \<noteq> d_id d" using Cons.prems(1) that by (force simp: image_iff)
    with Cons.prems(2) [of x] that s1(3,4) show ?thesis by (simp add: ready_def)
  qed
  then have IH: "fst (finalize_loop cfg w ds (Suc k) s1) = Suc k + length ds \<and>
    (\<forall>d \<in> set ds. find_dispute (d_id d) (snd (finalize_loop cfg w ds (Suc k) s1)) =
       Some (settled_row w (d\<lparr>d_isFinal := True\<rparr>)))"
    using Cons.IH Cons.prems(1) by simp
  moreover have "find_dispute (d_id d) (snd (finalize_loop cfg w ds (Suc k) s1)) =
      Some (settled_row w (d\<lparr>d_isFinal := True\<rparr>))"
    using finalize_loop_other [of "d_id d" ds cfg w "Suc k" s1] s1(2) Cons.prems(1) by simp
  ultimately show ?case unfolding s1(1) by simp
qed simp

lemma finalize_settles:
  assumes "distinct (map d_id (t_disputes s))"
    and "\<And>d. d \<in> set (t_disputes s) \<Longrightarrow> lapsed (now w) d \<Longrightarrow>
      d_fundsReleasedAt d = None \<and> d_milestoneId d \<in> set (map m_id (t_milestones s))"
    and "\<And>n c. \<not> isl (chain w n c)" and "d \<in> set (t_disputes s)" and "lapsed (now w) d"
  shows "find_dispute (d_id d) (snd (finalizeExpiredAppealWindows cfg w True s)) =
    Some (settled_row w (d\<lparr>d_isFinal := True\<rparr>))"
proof -
  let ?ds = "filter (lapsed (now w)) (t_disputes s)"
  have "distinct (map d_id ?ds)" using assms(1) by (simp add: distinct_map_filter)
  moreover have "ready (now w) s x" if "x \<in> set ?ds" for x
    using that assms(1,2) find_key_unique [where key = d_id and r = x and k = "d_id x" and rs = "t_disputes s"]
    by (simp add: ready_def find_dispute_def)
  ultimately show ?thesis
    using finalize_loop_settles [of ?ds w s cfg 0] assms(3-5)
    by (simp add: finalizeExpiredAppealWindows_def)
qed

end
