(* ===== verification/DisputeRaces.thy ===== *)
theory DisputeRaces
  imports Appeals
begin

text \<open>
  Interleavings of the dispute services.  The steps of \<open>settle\<close> (claim, pay, roll back, finish) run in
  any number of workers, and between any two of them the other handlers and jobs may run: a
  first-tier decision, an appeal, an appeal decision, the finalisation of a lapsed window, the
  SLA job, an admin override, and the on-chain event that marks the dispute settled.  The claim
  protocol of the theory \<open>Claim\<close> is interpreted on these definitions: the escrow of a dispute is
  resolved at most once.

  Every interfering handler is one atomic step here: its reads and its guarded update see the
  same state.
\<close>

section \<open>What may run in between\<close>

definition open_appeal_of :: "ident \<Rightarrow> db \<Rightarrow> bool" where
  "open_appeal_of did s \<longleftrightarrow> (\<exists>a \<in> set (t_appeals s). a_disputeId a = did \<and> a_status a = A_OPEN)"

inductive dispute_interference :: "db \<Rightarrow> db \<Rightarrow> bool" where
  decision: "find_dispute (d_id d) s = Some d \<Longrightarrow> d_stage d \<noteq> APPEAL_REVIEW \<Longrightarrow>
     dispute_interference s (snd (update_disputes (\<lambda>x. d_id x = d_id d \<and> active (d_status x))
        (decide_row cfg w d oc) s))"
| appeal: "genId w (idSeq s) \<notin> a_id ` set (t_appeals s) \<Longrightarrow>
     dispute_interference s (snd (openAppeal cfg w did user s))"
| appeal_decision: "find_dispute (d_id d) s = Some d \<Longrightarrow> find_appeal (d_id d) s = Some ap \<Longrightarrow>
     dispute_interference s (snd (transaction (decideAppeal_tx w d ap oc) s))"
| finality: "dispute_interference s (snd (finalize_flag t did s))"
| on_chain: "dispute_interference s (snd (markSettledOnChain w mid s))"
| overdue: "dispute_interference s (snd (flagOverdueDisputes w locked s))"
| override: "dispute_interference s (snd (applyManualOverride cfg w eid a s))"
| other: "t_disputes s' = t_disputes s \<Longrightarrow> t_appeals s' = t_appeals s \<Longrightarrow> dispute_interference s s'"

inductive_cases dispute_interferenceE: "dispute_interference s s'"

text \<open>
  The state invariant: ids are unique, a dispute has at most one appeal, and while its appeal is
  open the dispute is awaiting that appeal and not final (or was settled on-chain meanwhile).
\<close>

definition awaiting_appeal :: "dispute \<Rightarrow> bool" where
  "awaiting_appeal d \<longleftrightarrow> d_fundsReleasedAt d \<noteq> None \<or>
     (d_stage d = APPEAL_REVIEW \<and> \<not> d_isFinal d \<and> active (d_status d))"

definition dispute_inv :: "db \<Rightarrow> bool" where
  "dispute_inv s \<longleftrightarrow> distinct (map d_id (t_disputes s)) \<and> distinct (map a_disputeId (t_appeals s)) \<and>
     distinct (map a_id (t_appeals s)) \<and>
     (\<forall>d \<in> set (t_disputes s). open_appeal_of (d_id d) s \<longrightarrow> awaiting_appeal d)"

definition settle_free :: "ident \<Rightarrow> db \<Rightarrow> bool" where
  "settle_free did s \<longleftrightarrow> (\<exists>d \<in> set (t_disputes s). d_id d = did \<and> claimable d)"

definition settle_held :: "ident \<Rightarrow> db \<Rightarrow> bool" where
  "settle_held did s \<longleftrightarrow> (\<forall>d \<in> set (t_disputes s). d_id d = did \<longrightarrow>
     d_fundsReleasedAt d \<noteq> None \<or> (d_status d = D_CLOSED \<and> \<not> open_appeal_of did s))"

text \<open>The last step of a worker, for whichever snapshot of the dispute and milestone it read.\<close>

definition settle_finished :: "ident \<Rightarrow> db \<Rightarrow> db \<Rightarrow> bool" where
  "settle_finished did s s' \<longleftrightarrow> (\<exists>cfg w d m. d_id d = did \<and> s' = settle_finish cfg w d m s)"

section \<open>Rewriting a table row by row\<close>

lemma dispute_inv_map:
  assumes "dispute_inv s" and "t_disputes s' = update_where p f (t_disputes s)"
    and "t_appeals s' = t_appeals s" and "\<And>x. d_id (f x) = d_id x"
    and "\<And>x. x \<in> set (t_disputes s) \<Longrightarrow> p x \<Longrightarrow> awaiting_appeal x \<Longrightarrow> awaiting_appeal (f x)"
  shows "dispute_inv s'"
  using assms by (auto simp: dispute_inv_def map_update_where_key set_update_where open_appeal_of_def)

lemma settle_held_map:
  assumes "settle_held did s" and "t_disputes s' = update_where p f (t_disputes s)"
    and "t_appeals s' = t_appeals s" and "\<And>x. d_id (f x) = d_id x"
    and "\<And>x. p x \<Longrightarrow> d_fundsReleasedAt x \<noteq> None \<Longrightarrow> d_fundsReleasedAt (f x) \<noteq> None"
    and "\<And>x. p x \<Longrightarrow> d_status x = D_CLOSED \<Longrightarrow> d_fundsReleasedAt (f x) \<noteq> None \<or> d_status (f x) = D_CLOSED"
  shows "settle_held did s'"
  using assms unfolding settle_held_def by (fastforce simp: set_update_where open_appeal_of_def)

lemmas map_laws = dispute_inv_map settle_held_map

lemma same_tables:
  assumes "t_disputes s' = t_disputes s" and "t_appeals s' = t_appeals s"
  shows "dispute_inv s' = dispute_inv s" and "settle_held did s' = settle_held did s"
  using assms by (simp_all add: dispute_inv_def settle_held_def open_appeal_of_def)

lemma inv_unique:
  "dispute_inv s \<Longrightarrow> x \<in> set (t_disputes s) \<Longrightarrow> find_dispute (d_id x) s = Some d \<Longrightarrow> x = d"
  using find_key_unique [where key = d_id and rs = "t_disputes s" and r = x and k = "d_id x"]
  by (simp add: dispute_inv_def find_dispute_def)

section \<open>Opening and deciding appeals\<close>

lemma openAppeal_cases:
  obtains (same) "t_disputes (snd (openAppeal cfg w did user s)) = t_disputes s"
      "t_appeals (snd (openAppeal cfg w did user s)) = t_appeals s"
  | (opened) d arb a where "find_dispute did s = Some d" "appealable (now w) d" "find_appeal did s = None"
      "t_disputes (snd (openAppeal cfg w did user s)) =
         update_where (\<lambda>x. d_id x = did \<and> appealable (now w) x) (appeal_row cfg w arb) (t_disputes s)"
      "t_appeals (snd (openAppeal cfg w did user s)) = t_appeals s @ [a]"
      "a_disputeId a = did" "a_id a = genId w (idSeq s)"
proof (cases "find_dispute did s")
  case None
  then show ?thesis by (intro same) (simp_all add: openAppeal_def)
next
  case d: (Some d)
  show ?thesis
  proof (cases "find_engagement (d_engagementId d) s")
    case None
    with d show ?thesis by (intro same) (simp_all add: openAppeal_def)
  next
    case e: (Some e)
    show ?thesis
    proof (cases "can_appeal (now w) d e user s")
      case False
      then obtain x where "openAppeal cfg w did user s = (Inl x, s)"
        using openAppeal_rejected [OF d e] by blast
      then show ?thesis by (intro same) simp_all
    next
      case True
      have id: "d_id d = did" using find_dispute_id [OF d] by simp
      let ?arb = "appeal_arbiter e d s"
      let ?p = "\<lambda>x. d_id x = did \<and> appealable (now w) x"
      have ap: "appealable (now w) d" using True by (auto simp: can_appeal_def appealable_def)
      have na: "find_appeal did s = None" using True id by (simp add: can_appeal_def)
      define a where "a = \<lparr>a_id = genId w (idSeq s), a_disputeId = did, a_appellantId = ac_id user,
         a_originalArbiterId = d_arbiterId d, a_arbiterId = map_option u_id ?arb,
         a_originalOutcome = the (d_outcome d), a_status = A_OPEN, a_outcome = None,
         a_isFinal = False, a_decidedAt = None\<rparr>"
      define t where "t = s\<lparr>t_disputes := update_where ?p (appeal_row cfg w ?arb) (t_disputes s),
        idSeq := Suc (idSeq s), t_appeals := t_appeals s @ [a]\<rparr>"
      have n: "0 < count_where ?p (t_disputes s)"
        using find_dispute_id [OF d] ap id by (auto simp: count_where_pos)
      have "appeal_tx cfg w d user ?arb s = (Inr a, t)"
        using n na id by (auto simp: appeal_tx_def fresh_id_def a_def t_def Let_def update_disputes_def
            find_appeal_None)
      then have tr: "transaction (appeal_tx cfg w d user (map_option fst
          (selectArbiter e (if truthy (d_arbiterId d) then [the (d_arbiterId d)] else []) s))) s = (Inr a, t)"
        by (simp add: appeal_arbiter_def)
      have guards: "isParty e user" "\<not> d_isFinal d" "d_status d = D_RESOLVED" "d_outcome d \<noteq> None"
        "d_appealDeadline d \<noteq> None" "\<not> the (d_appealDeadline d) < now w"
        using True by (auto simp: can_appeal_def)
      have r: "t_disputes (snd (openAppeal cfg w did user s)) = t_disputes t"
        "t_appeals (snd (openAppeal cfg w did user s)) = t_appeals t"
        unfolding openAppeal_def d e option.case Let_def tr
        using guards na by (auto split: option.splits)
      show ?thesis
        by (rule opened [OF d ap na, where arb = ?arb and a = a]) (simp_all add: r t_def a_def)
    qed
  qed
qed

lemma openAppeal_inv:
  assumes "dispute_inv s" and "genId w (idSeq s) \<notin> a_id ` set (t_appeals s)"
  shows "dispute_inv (snd (openAppeal cfg w did user s))"
proof (cases rule: openAppeal_cases [of cfg w did user s])
  case same
  with assms show ?thesis using same_tables [OF same] by simp
next
  case (opened d arb a)
  let ?t = "snd (openAppeal cfg w did user s)"
  have na: "did \<notin> set (map a_disputeId (t_appeals s))"
    using opened(3) by (auto simp: find_appeal_None)
  have u: "x = d" if "x \<in> set (t_disputes s)" "d_id x = did" for x
    using inv_unique [OF assms(1) that(1)] opened(1) that(2) by simp
  have old: "open_appeal_of e ?t \<Longrightarrow> e \<noteq> did \<Longrightarrow> open_appeal_of e s" for e
    using opened(5,6) by (auto simp: open_appeal_of_def)
  have "awaiting_appeal x" if x: "x \<in> set (t_disputes ?t)" "open_appeal_of (d_id x) ?t" for x
  proof -
    obtain y where y: "y \<in> set (t_disputes s)"
      "x = (if d_id y = did \<and> appealable (now w) y then appeal_row cfg w arb y else y)"
      using x(1) by (auto simp: opened(4) set_update_where)
    show ?thesis
    proof (cases "d_id y = did")
      case True
      with u [OF y(1)] opened(2) y(2) show ?thesis
        by (simp add: awaiting_appeal_def appealable_def)
    next
      case False
      with y x(2) old have "open_appeal_of (d_id y) s" by simp
      with assms(1) y False show ?thesis by (auto simp: dispute_inv_def)
    qed
  qed
  moreover have "distinct (map d_id (t_disputes ?t))"
    using assms(1) by (simp add: opened(4) dispute_inv_def map_update_where_key)
  moreover have "distinct (map a_disputeId (t_appeals ?t))" "distinct (map a_id (t_appeals ?t))"
    using assms na opened(5-7) by (auto simp: dispute_inv_def)
  ultimately show ?thesis by (simp add: dispute_inv_def)
qed

lemma openAppeal_held:
  assumes "dispute_inv s" and "settle_held did s"
  shows "settle_held did (snd (openAppeal cfg w did' user s))"
proof (cases rule: openAppeal_cases [of cfg w did' user s])
  case same
  with assms show ?thesis using same_tables [OF same] by simp
next
  case (opened d arb a)
  have u: "x = d" if "x \<in> set (t_disputes s)" "d_id x = did'" for x
    using inv_unique [OF assms(1) that(1)] opened(1) that(2) by simp
  have rel: "d_fundsReleasedAt d \<noteq> None" if "did' = did"
    using assms(2) find_dispute_id [OF opened(1)] opened(2) that
    by (auto simp: settle_held_def appealable_def)
  have oa: "open_appeal_of did (snd (openAppeal cfg w did' user s)) \<Longrightarrow> did' \<noteq> did \<Longrightarrow> open_appeal_of did s"
    using opened(5,6) by (auto simp: open_appeal_of_def)
  show ?thesis
    unfolding settle_held_def
  proof (intro ballI impI)
    fix x assume x: "x \<in> set (t_disputes (snd (openAppeal cfg w did' user s)))" "d_id x = did"
    then obtain y where y: "y \<in> set (t_disputes s)" "d_id y = did"
      "x = (if d_id y = did' \<and> appealable (now w) y then appeal_row cfg w arb y else y)"
      by (auto simp: opened(4) set_update_where split: if_splits)
    show "d_fundsReleasedAt x \<noteq> None \<or> (d_status x = D_CLOSED \<and>
        \<not> open_appeal_of did (snd (openAppeal cfg w did' user s)))"
    proof (cases "did' = did")
      case True
      with u [OF y(1)] y rel show ?thesis by simp
    next
      case False
      with y assms(2) oa show ?thesis by (auto simp: settle_held_def)
    qed
  qed
qed

lemma appeal_decision_effect:
  assumes "find_dispute (d_id d) s = Some d" and "ap \<in> set (t_appeals s)"
  shows "snd (transaction (decideAppeal_tx w d ap oc) s) = s \<or>
    (a_status ap = A_OPEN \<or> (\<exists>a \<in> set (t_appeals s). a_id a = a_id ap \<and> a_status a = A_OPEN)) \<and>
    t_disputes (snd (transaction (decideAppeal_tx w d ap oc) s)) =
      update_where (\<lambda>x. d_id x = d_id d) (appeal_decision_row w d oc) (t_disputes s) \<and>
    t_appeals (snd (transaction (decideAppeal_tx w d ap oc) s)) =
      update_where (\<lambda>a. a_id a = a_id ap \<and> a_status a = A_OPEN)
        (\<lambda>a. a\<lparr>a_status := A_DECIDED, a_outcome := Some oc, a_isFinal := True, a_decidedAt := Some (now w)\<rparr>)
        (t_appeals s)"
proof (cases "count_where (\<lambda>a. a_id a = a_id ap \<and> a_status a = A_OPEN) (t_appeals s) = 0")
  case True
  then show ?thesis by (simp add: decideAppeal_tx_def Let_def transaction_def throw_def)
next
  case False
  then have ex: "\<exists>a \<in> set (t_appeals s). a_id a = a_id ap \<and> a_status a = A_OPEN"
    by (auto simp: count_where_0)
  have "find_dispute (d_id d) (s\<lparr>t_appeals := x\<rparr>) = Some d" for x
    using assms(1) by (simp add: find_dispute_def)
  with False ex show ?thesis
    by (simp add: decideAppeal_tx_def Let_def transaction_def return_def update_dispute_def)
qed

text \<open>After the decision the appeal of the dispute is no longer open, and no other appeal changed.\<close>

lemma decided_not_open:
  assumes "dispute_inv s" and "find_appeal did s = Some ap"
    and "t_appeals s' = update_where (\<lambda>a. a_id a = a_id ap \<and> a_status a = A_OPEN)
      (\<lambda>a. a\<lparr>a_status := A_DECIDED, a_outcome := oc', a_isFinal := True, a_decidedAt := t\<rparr>) (t_appeals s)"
  shows "\<not> open_appeal_of did s'" and "open_appeal_of e s' \<Longrightarrow> open_appeal_of e s"
proof -
  have ap: "ap \<in> set (t_appeals s)" "a_disputeId ap = did" using find_appeal_id [OF assms(2)] by auto
  have "a = ap" if "a \<in> set (t_appeals s)" "a_disputeId a = did" for a
    using assms(1) ap that by (auto simp: dispute_inv_def distinct_map inj_on_def)
  then show "\<not> open_appeal_of did s'"
    by (auto simp: open_appeal_of_def assms(3) set_update_where)
  show "open_appeal_of e s' \<Longrightarrow> open_appeal_of e s"
    by (auto simp: open_appeal_of_def assms(3) set_update_where split: if_splits)
qed

lemma appeal_decision_inv:
  assumes "dispute_inv s" and "find_dispute (d_id d) s = Some d" and "find_appeal (d_id d) s = Some ap"
  shows "dispute_inv (snd (transaction (decideAppeal_tx w d ap oc) s))" (is "dispute_inv ?t")
proof (cases "?t = s")
  case True
  with assms show ?thesis by simp
next
  case False
  have ap: "ap \<in> set (t_appeals s)" using find_appeal_id [OF assms(3)] by simp
  note eff = appeal_decision_effect [OF assms(2) ap, of w oc]
  have t: "t_disputes ?t = update_where (\<lambda>x. d_id x = d_id d) (appeal_decision_row w d oc) (t_disputes s)"
    "t_appeals ?t = update_where (\<lambda>a. a_id a = a_id ap \<and> a_status a = A_OPEN)
        (\<lambda>a. a\<lparr>a_status := A_DECIDED, a_outcome := Some oc, a_isFinal := True, a_decidedAt := Some (now w)\<rparr>)
        (t_appeals s)" using eff False by auto
  note no = decided_not_open [OF assms(1,3) t(2)]
  have "awaiting_appeal x" if "x \<in> set (t_disputes ?t)" "open_appeal_of (d_id x) ?t" for x
    using that no assms(1)
    by (auto simp: t(1) set_update_where dispute_inv_def appeal_decision_row_def split: if_splits)
  with assms(1) show ?thesis
    by (simp add: dispute_inv_def t map_update_where_key appeal_decision_row_def)
qed

lemma appeal_decision_held:
  assumes "dispute_inv s" and "settle_held did s"
    and "find_dispute (d_id d) s = Some d" and "find_appeal (d_id d) s = Some ap"
  shows "settle_held did (snd (transaction (decideAppeal_tx w d ap oc) s))" (is "settle_held did ?t")
proof (cases "?t = s")
  case True
  with assms show ?thesis by simp
next
  case False
  have ap: "ap \<in> set (t_appeals s)" "a_disputeId ap = d_id d" using find_appeal_id [OF assms(4)] by auto
  note eff = appeal_decision_effect [OF assms(3) ap(1), of w oc]
  have t: "t_disputes ?t = update_where (\<lambda>x. d_id x = d_id d) (appeal_decision_row w d oc) (t_disputes s)"
    "t_appeals ?t = update_where (\<lambda>a. a_id a = a_id ap \<and> a_status a = A_OPEN)
        (\<lambda>a. a\<lparr>a_status := A_DECIDED, a_outcome := Some oc, a_isFinal := True, a_decidedAt := Some (now w)\<rparr>)
        (t_appeals s)" using eff False by auto
  have "\<exists>a \<in> set (t_appeals s). a_id a = a_id ap \<and> a_status a = A_OPEN"
    using eff False ap(1) by auto
  then obtain a where a: "a \<in> set (t_appeals s)" "a_id a = a_id ap" "a_status a = A_OPEN" by blast
  have "a = ap" using assms(1) a ap by (auto simp: dispute_inv_def distinct_map inj_on_def)
  with a ap have oa: "open_appeal_of (d_id d) s" by (auto simp: open_appeal_of_def)
  note no = decided_not_open [OF assms(1,4) t(2)]
  have keep: "d_fundsReleasedAt x \<noteq> None \<or> (d_status x = D_CLOSED \<and> \<not> open_appeal_of did ?t)"
    if x: "x \<in> set (t_disputes ?t)" "d_id x = did" for x
  proof -
    obtain y where y: "y \<in> set (t_disputes s)"
      "x = (if d_id y = d_id d then appeal_decision_row w d oc y else y)"
      using x(1) unfolding t(1) set_update_where by blast
    with x(2) have "d_id y = did" by (simp split: if_splits)
    with y assms(2) oa no show ?thesis by (auto simp: settle_held_def)
  qed
  then show ?thesis by (simp add: settle_held_def)
qed

section \<open>The other steps\<close>

lemma update_disputes_tables:
  "t_disputes (snd (update_disputes p f s)) = update_where p f (t_disputes s)"
  "t_appeals (snd (update_disputes p f s)) = t_appeals s"
  by (simp_all add: update_disputes_def)

lemmas guarded_inv = dispute_inv_map [OF _ update_disputes_tables]
lemmas guarded_held = settle_held_map [OF _ update_disputes_tables]

lemma decision_inv:
  assumes "dispute_inv s" and "find_dispute (d_id d) s = Some d" and "d_stage d \<noteq> APPEAL_REVIEW"
  shows "dispute_inv (snd (update_disputes (\<lambda>x. d_id x = d_id d \<and> active (d_status x)) (decide_row cfg w d oc) s))"
proof (rule guarded_inv [OF assms(1)])
  fix x assume x: "x \<in> set (t_disputes s)" "d_id x = d_id d \<and> active (d_status x)" "awaiting_appeal x"
  then have "x = d" using inv_unique [OF assms(1), of x d] assms(2) by simp
  with x assms(3) show "awaiting_appeal (decide_row cfg w d oc x)"
    by (simp add: awaiting_appeal_def)
qed simp

lemma decision_held:
  "settle_held did s \<Longrightarrow>
     settle_held did (snd (update_disputes (\<lambda>x. d_id x = d_id d \<and> active (d_status x)) (decide_row cfg w d oc) s))"
  by (erule guarded_held) auto

lemma finality_inv: "dispute_inv s \<Longrightarrow> dispute_inv (snd (finalize_flag t did s))"
  unfolding finalize_flag_def
  by (erule guarded_inv) (auto simp: awaiting_appeal_def lapsed_def)

lemma finality_held: "settle_held did s \<Longrightarrow> settle_held did (snd (finalize_flag t did' s))"
  unfolding finalize_flag_def by (erule guarded_held) auto

lemma on_chain_inv: "dispute_inv s \<Longrightarrow> dispute_inv (snd (markSettledOnChain w mid s))"
  unfolding markSettledOnChain_def by (erule guarded_inv) (auto simp: awaiting_appeal_def)

lemma on_chain_held: "settle_held did s \<Longrightarrow> settle_held did (snd (markSettledOnChain w mid s))"
  unfolding markSettledOnChain_def by (erule guarded_held) auto

lemma overdue_step:
  assumes "dispute_inv s"
  shows "dispute_inv (snd (flagOverdueDisputes w locked s))"
    and "settle_held did s \<Longrightarrow> settle_held did (snd (flagOverdueDisputes w locked s))"
proof -
  have t: "t_appeals (snd (flag_loop t as ds k s)) = t_appeals s" for t as ds k s
    by (induction ds arbitrary: k s) (auto simp: update_disputes_def)
  have t: "t_appeals (snd (flagOverdueDisputes w locked s)) = t_appeals s"
    by (auto simp: flagOverdueDisputes_def Let_def t)
  have d: "t_disputes (snd (flagOverdueDisputes w locked s)) =
      update_where (\<lambda>x. locked \<and> overdue_at (now w) x) (flag_row (now w)) (t_disputes s)"
  proof (cases locked)
    case True
    with flagOverdue_result [of s w] assms show ?thesis by (simp add: dispute_inv_def)
  next
    case False
    then show ?thesis by (simp add: flagOverdueDisputes_def update_where_none)
  qed
  show "dispute_inv (snd (flagOverdueDisputes w locked s))"
    by (rule dispute_inv_map [OF assms d t]) (auto simp: awaiting_appeal_def flag_row_def)
  show "settle_held did (snd (flagOverdueDisputes w locked s))" if "settle_held did s"
    by (rule settle_held_map [OF that d t]) (auto simp: flag_row_def)
qed

lemma override_row_simps [simp]:
  "d_id (override_row cfg w a snap x) = d_id x"
  "d_status (override_row cfg w a snap x) = D_UNDER_REVIEW"
  "d_fundsReleasedAt (override_row cfg w a snap x) = d_fundsReleasedAt x"
  "d_isFinal (override_row cfg w a snap x) = d_isFinal x"
  by (simp_all add: override_row_def Let_def)

lemma override_row_stage: "d_stage snap = d_stage x \<Longrightarrow> d_stage x = APPEAL_REVIEW \<Longrightarrow>
    d_stage (override_row cfg w a snap x) = APPEAL_REVIEW"
  by (simp add: override_row_def Let_def)

text \<open>One turn of the override loop, for a dispute read in the same transaction.\<close>

lemma override_turn:
  assumes "dispute_inv s" and "d \<in> set (t_disputes s)" and "active (d_status d)"
    and "t_disputes s' = t_disputes (update_dispute (d_id d) (override_row cfg w a d) s)"
    and "t_appeals s' = update_where p (\<lambda>x. x\<lparr>a_arbiterId := b\<rparr>) (t_appeals s)"
  shows "dispute_inv s'" and "settle_held did s \<Longrightarrow> settle_held did s'"
proof -
  have u: "x = d" if "x \<in> set (t_disputes s)" "d_id x = d_id d" for x
    using assms(1,2) that by (auto simp: dispute_inv_def distinct_map inj_on_def)
  have o: "open_appeal_of e s' = open_appeal_of e s" for e
    unfolding open_appeal_of_def assms(5) update_where_def set_map bex_simps
    by (intro bex_cong) auto
  have d: "t_disputes s' = update_where (\<lambda>x. d_id x = d_id d) (override_row cfg w a d) (t_disputes s)"
    by (simp add: assms(4) update_dispute_def)
  have m: "map a_disputeId (t_appeals s') = map a_disputeId (t_appeals s)" "map a_id (t_appeals s') = map a_id (t_appeals s)"
    by (simp_all add: assms(5) map_update_where_key)
  have "awaiting_appeal x" if x: "x \<in> set (t_disputes s')" "open_appeal_of (d_id x) s'" for x
  proof -
    obtain y where y: "y \<in> set (t_disputes s)" "x = (if d_id y = d_id d then override_row cfg w a d y else y)"
      using x(1) unfolding d set_update_where by blast
    then have "open_appeal_of (d_id y) s" using x(2) o by (simp split: if_splits)
    with assms(1) y(1) have "awaiting_appeal y" by (simp add: dispute_inv_def)
    show ?thesis
    proof (cases "d_id y = d_id d")
      case True
      with u [OF y(1)] have "y = d" by simp
      with \<open>awaiting_appeal y\<close> y(2) True override_row_stage [of d d] show ?thesis
        by (auto simp: awaiting_appeal_def)
    next
      case False
      with \<open>awaiting_appeal y\<close> y(2) show ?thesis by simp
    qed
  qed
  then show "dispute_inv s'"
    using assms(1) m by (simp add: dispute_inv_def d map_update_where_key)
  show "settle_held did s'" if h: "settle_held did s"
    unfolding settle_held_def
  proof (intro ballI impI)
    fix x assume x: "x \<in> set (t_disputes s')" "d_id x = did"
    obtain y where y: "y \<in> set (t_disputes s)" "x = (if d_id y = d_id d then override_row cfg w a d y else y)"
      using x(1) unfolding d set_update_where by blast
    have "d_id y = did" using x(2) y(2) by (simp split: if_splits)
    with h y(1) have "d_fundsReleasedAt y \<noteq> None \<or> (d_status y = D_CLOSED \<and> \<not> open_appeal_of did s)"
      by (simp add: settle_held_def)
    moreover have "y = d" if "d_id y = d_id d" using u [OF y(1) that] .
    ultimately show "d_fundsReleasedAt x \<noteq> None \<or> (d_status x = D_CLOSED \<and> \<not> open_appeal_of did s')"
      using y assms(3) o by auto
  qed
qed

lemma override_loop_steps:
  assumes "dispute_inv s" and "distinct (map d_id ds)"
    and "\<And>d. d \<in> set ds \<Longrightarrow> d \<in> set (t_disputes s) \<and> active (d_status d)"
  shows "dispute_inv (snd (override_loop cfg w a ds n s)) \<and>
    (settle_held did s \<longrightarrow> settle_held did (snd (override_loop cfg w a ds n s)))"
  using assms
proof (induction ds arbitrary: n s)
  case (Cons d ds)
  let ?ap = "find_appeal (d_id d) s"
  let ?skip = "d_stage d = APPEAL_REVIEW \<and> map_option a_originalArbiterId ?ap = Some (Some a)"
  show ?case
  proof (cases ?skip)
    case True
    then have "override_loop cfg w a (d # ds) n s = override_loop cfg w a ds n s" by simp
    with Cons.IH [of s n] Cons.prems show ?thesis by simp
  next
    case False
    define p where "p = (\<lambda>x::appeal. (d_stage d = APPEAL_REVIEW \<and> ?ap \<noteq> None) \<and> a_id x = a_id (the ?ap))"
    define s' where "s' = (update_dispute (d_id d) (override_row cfg w a d) s)
      \<lparr>t_appeals := update_where p (\<lambda>x. x\<lparr>a_arbiterId := Some a\<rparr>) (t_appeals s)\<rparr>"
    have no: "\<not> (d_stage d = APPEAL_REVIEW \<and> ?ap \<noteq> None) \<Longrightarrow>
        s' = update_dispute (d_id d) (override_row cfg w a d) s"
      by (simp add: s'_def p_def update_where_none update_dispute_def)
    have step: "override_loop cfg w a (d # ds) n s = override_loop cfg w a ds (Suc n) s'"
      using False no
      by (cases "d_stage d = APPEAL_REVIEW \<and> ?ap \<noteq> None") (auto simp: s'_def p_def Let_def)
    have d: "d \<in> set (t_disputes s)" "active (d_status d)" using Cons.prems(3) [of d] by auto
    have "t_disputes s' = t_disputes (update_dispute (d_id d) (override_row cfg w a d) s)"
      "t_appeals s' = update_where p (\<lambda>x. x\<lparr>a_arbiterId := Some a\<rparr>) (t_appeals s)"
      by (simp_all add: s'_def)
    note turn = override_turn [OF Cons.prems(1) d this]
    have "x \<in> set (t_disputes s') \<and> active (d_status x)" if "x \<in> set ds" for x
    proof -
      have "d_id x \<noteq> d_id d" using Cons.prems(2) that by (force simp: image_iff)
      with Cons.prems(3) [of x] that show ?thesis
        by (auto simp: s'_def update_dispute_def set_update_where image_iff)
    qed
    with Cons.IH [OF turn(1)] Cons.prems(2) turn(2) show ?thesis unfolding step by simp
  qed
qed simp

lemma override_step:
  assumes "dispute_inv s"
  shows "dispute_inv (snd (applyManualOverride cfg w eid a s))"
    and "settle_held did s \<Longrightarrow> settle_held did (snd (applyManualOverride cfg w eid a s))"
proof -
  let ?ds = "filter (\<lambda>d. d_engagementId d = eid \<and> active (d_status d)) (t_disputes s)"
  have "distinct (map d_id ?ds)" using assms by (simp add: dispute_inv_def distinct_map_filter)
  from override_loop_steps [OF assms this, of cfg w a 0 did]
  show "dispute_inv (snd (applyManualOverride cfg w eid a s))"
    and "settle_held did s \<Longrightarrow> settle_held did (snd (applyManualOverride cfg w eid a s))"
    by (auto simp: applyManualOverride_def)
qed

section \<open>The claim protocol on the dispute's escrow\<close>

lemma interference_inv:
  assumes "dispute_interference s s'" and "dispute_inv s"
  shows "dispute_inv s'"
  using assms(1)
proof (cases rule: dispute_interference.cases)
  case decision
  show ?thesis unfolding decision(1) by (rule decision_inv [OF assms(2) decision(2,3)])
next
  case other
  with assms(2) same_tables(1) [of s' s] show ?thesis by simp
qed (use assms(2) in \<open>auto intro: openAppeal_inv appeal_decision_inv finality_inv
      on_chain_inv overdue_step override_step\<close>)

lemma interference_held:
  assumes "dispute_interference s s'" and "dispute_inv s" and "settle_held did s"
  shows "settle_held did s'"
  using assms(1)
proof (cases rule: dispute_interference.cases)
  case decision
  show ?thesis unfolding decision(1) by (rule decision_held [OF assms(3)])
next
  case other
  with assms(3) same_tables(2) [of s' s] show ?thesis by simp
qed (use assms(2,3) in \<open>auto intro: openAppeal_held appeal_decision_held finality_held
      on_chain_held overdue_step override_step\<close>)

lemma claim_inv_held:
  assumes "dispute_inv s" and "settle_free did s"
  shows "dispute_inv (snd (settle_claim did s))" and "settle_held did (snd (settle_claim did s))"
proof -
  obtain d where d: "d \<in> set (t_disputes s)" "d_id d = did" "claimable d"
    using assms(2) by (auto simp: settle_free_def)
  have u: "x = d" if "x \<in> set (t_disputes s)" "d_id x = did" for x
    using assms(1) d that by (auto simp: dispute_inv_def distinct_map inj_on_def)
  have no: "\<not> open_appeal_of did s"
    using assms(1) d by (auto simp: dispute_inv_def awaiting_appeal_def claimable_def)
  show "dispute_inv (snd (settle_claim did s))"
    unfolding settle_claim_def using assms(1)
    by (rule guarded_inv) (auto simp: claimable_def awaiting_appeal_def)
  have t: "t_disputes (snd (settle_claim did s)) =
      update_where (\<lambda>x. d_id x = did \<and> claimable x) (\<lambda>d. d\<lparr>d_status := D_CLOSED\<rparr>) (t_disputes s)"
    by (simp add: settle_claim_def update_disputes_def)
  show "settle_held did (snd (settle_claim did s))"
    unfolding settle_held_def
  proof (intro ballI impI)
    fix x assume x: "x \<in> set (t_disputes (snd (settle_claim did s)))" "d_id x = did"
    obtain y where y: "y \<in> set (t_disputes s)"
      "x = (if d_id y = did \<and> claimable y then y\<lparr>d_status := D_CLOSED\<rparr> else y)"
      using x(1) unfolding t set_update_where by blast
    have "d_id y = did" using x(2) y(2) by (simp split: if_splits)
    with u [OF y(1)] d y(2) no show "d_fundsReleasedAt x \<noteq> None \<or>
        (d_status x = D_CLOSED \<and> \<not> open_appeal_of did (snd (settle_claim did s)))"
      by (simp add: open_appeal_of_def)
  qed
qed

lemma rollback_free_again:
  assumes "settle_free did s"
  shows "settle_free did (settle_rollback did (snd (settle_claim did s)))"
proof -
  obtain d where d: "d \<in> set (t_disputes s)" "d_id d = did" "claimable d"
    using assms by (auto simp: settle_free_def)
  have "d \<in> set (update_where (\<lambda>x. d_id x = did) (\<lambda>x. x\<lparr>d_status := D_RESOLVED\<rparr>)
      (update_where (\<lambda>x. d_id x = did \<and> claimable x) (\<lambda>x. x\<lparr>d_status := D_CLOSED\<rparr>) (t_disputes s)))"
    using d by (auto simp: update_where_def claimable_def intro!: rev_image_eqI [of d])
  with d show ?thesis
    by (auto simp: settle_free_def settle_rollback_def update_dispute_def settle_claim_def update_disputes_def)
qed

lemma rollback_inv:
  assumes "dispute_inv s" and "settle_held did s"
  shows "dispute_inv (settle_rollback did s)"
proof (rule dispute_inv_map [OF assms(1), where p = "\<lambda>x. d_id x = did" and f = "\<lambda>x. x\<lparr>d_status := D_RESOLVED\<rparr>"])
  fix x assume x: "x \<in> set (t_disputes s)" "d_id x = did" "awaiting_appeal x"
  with assms(2) show "awaiting_appeal (x\<lparr>d_status := D_RESOLVED\<rparr>)"
    by (auto simp: settle_held_def awaiting_appeal_def)
qed (simp_all add: settle_rollback_def update_dispute_def)

lemma finish_tables:
  "t_disputes (settle_finish cfg w d m s) = update_where (\<lambda>x. d_id x = d_id d)
     (\<lambda>x. x\<lparr>d_fundsLocked := False, d_fundsReleasedAt := Some (now w)\<rparr>) (t_disputes s)"
  "t_appeals (settle_finish cfg w d m s) = t_appeals s"
  by (simp_all add: settle_finish_def settle_release_def settle_milestone_def Let_def
      update_dispute_def update_milestone_def)

lemma finish_inv_held:
  assumes "dispute_inv s" and "settle_held did s" and "settle_finished did s s'"
  shows "dispute_inv s'" and "settle_held did s'"
proof -
  obtain cfg w d m where s': "s' = settle_finish cfg w d m s"
    using assms(3) by (auto simp: settle_finished_def)
  show "dispute_inv s'" unfolding s'
    by (rule dispute_inv_map [OF assms(1) finish_tables]) (auto simp: awaiting_appeal_def)
  show "settle_held did s'" unfolding s'
    by (rule settle_held_map [OF assms(2) finish_tables]) auto
qed

interpretation escrow: retryable_claim dispute_inv "settle_free did" "settle_held did"
  "\<lambda>s. snd (settle_claim did s)" "settle_rollback did" "settle_finished did" dispute_interference
  for did
proof
  show "settle_held did s \<Longrightarrow> \<not> settle_free did s" for s
    by (auto simp: settle_held_def settle_free_def claimable_def)
  show "dispute_inv s \<Longrightarrow> settle_free did s \<Longrightarrow>
      dispute_inv (snd (settle_claim did s)) \<and> settle_held did (snd (settle_claim did s))" for s
    using claim_inv_held by blast
  show "dispute_inv s \<Longrightarrow> settle_held did s \<Longrightarrow> settle_finished did s s' \<Longrightarrow>
      dispute_inv s' \<and> settle_held did s'" for s s'
    using finish_inv_held by blast
  show "dispute_inv s \<Longrightarrow> settle_free did s \<Longrightarrow> settle_free did (settle_rollback did (snd (settle_claim did s)))" for s
    by (rule rollback_free_again)
qed (auto intro: rollback_inv interference_inv interference_held)

end
