(* ===== verification/Fixtures.thy ===== *)
theory Fixtures
  imports Store
begin

text \<open>
  A small concrete world in which the properties of the escrow components are instantiated: two
  parties, two arbiters, an administrator, an active engagement with three milestones, a clock, and
  a Stellar client that answers every call (or none).
\<close>

named_theorems fixture_simps \<open>definitions of the concrete world\<close>

definition mk_user :: "ident \<Rightarrow> user_role \<Rightarrow> string \<Rightarrow> time \<Rightarrow> user" where
  "mk_user uid role wallet t = \<lparr>u_id = uid, u_role = role, u_stellarAddress = Some wallet,
     u_deactivatedAt = None, u_deletedAt = None, u_createdAt = t,
     u_proofSlaDays = 7, u_proofSlaAction = AUTO_APPROVE, u_planId = None\<rparr>"

definition eng1 :: engagement where
  "eng1 = \<lparr>e_id = ''e1'', e_companyAddress = ''GC'', e_recruiterAddress = ''GR'',
     e_arbiterAddress = ''GA'', e_companyId = Some ''uc'', e_recruiterId = Some ''ur'',
     e_arbiterId = None, e_clientId = None, e_freelancerId = None, e_tokenAddress = ''USDC'',
     e_totalAmount = 1000, e_releasedAmount = 0, e_fundingShortfall = False,
     e_escrowBalance = Some 1000, e_jobTitle = ''job'', e_status = ACTIVE, e_txHash = Some ''h0'',
     e_createdLedger = Some 10, e_templateVersionId = None, e_tags = [], e_archivedAt = None,
     e_requiredApprovals = 1, e_placedAt = None, e_targetStartDate = None, e_fundingRateUsd = None,
     e_createdAt = 1\<rparr>"

definition mk_milestone :: "ident \<Rightarrow> nat \<Rightarrow> milestone_kind \<Rightarrow> int \<Rightarrow> int \<Rightarrow> milestone_status \<Rightarrow> milestone" where
  "mk_milestone mid i k pct amt st = \<lparr>m_id = mid, m_engagementId = ''e1'', m_index = i, m_kind = k,
     m_paymentPercent = pct, m_amount = Some amt, m_retentionDays = (if k = RETENTION then Some 30 else None),
     m_validAfterLedger = None, m_unlockEstimatedAt = None, m_proofHash = None, m_disputeReason = None,
     m_approachingSent = False, m_placementDueAt = None, m_reminderSent = False, m_status = st,
     m_paymentReleased = None, m_confirmedAt = None\<rparr>"

definition world_db :: db where
  "world_db = empty_db\<lparr>
     t_users := [mk_user ''uc'' COMPANY ''GC'' 1, mk_user ''ur'' RECRUITER ''GR'' 2,
                 mk_user ''a1'' ARBITER ''GA1'' 3, mk_user ''a2'' ARBITER ''GA2'' 4,
                 mk_user ''ad'' ADMIN ''GAD'' 5],
     t_engagements := [eng1],
     t_milestones := [mk_milestone ''m0'' 0 PLACEMENT 50 500 DISPUTED,
                      mk_milestone ''m1'' 1 RETENTION 30 300 LOCKED,
                      mk_milestone ''m2'' 2 RETENTION 20 200 LOCKED]\<rparr>"

definition env1 :: env where
  "env1 = \<lparr>now = 500000000, genId = (\<lambda>n. ''id'' @ replicate n (CHR ''x'')),
     chain = (\<lambda>_ _. Inr ''hash''), createLedger = (\<lambda>_. 20), latestLedger = Inr 30,
     unlockable = (\<lambda>_ _. True), untilUnlock = (\<lambda>_ _. 0), s3Up = True,
     allowedTokens = [''USDC''], balanceOf = (\<lambda>_ _. Inr 1000), contractId = ''CC'',
     onChain = (\<lambda>_. Inr (Some (''Active'', Some 0))), sorobanFee = Inr 100\<rparr>"

definition env_down :: env where
  "env_down = env1\<lparr>chain := (\<lambda>_ _. Inl ''timeout'')\<rparr>"

lemmas world_defs [fixture_simps] = mk_user_def eng1_def mk_milestone_def world_db_def empty_db_def
  env1_def env_down_def

end
