(* ===== verification/DisputeProperties.thy ===== *)
theory DisputeProperties
  imports DisputeRaces Fixtures
begin

text \<open>
  The properties of the dispute workflow, each with a concrete instance: where the escrow goes and
  how often, what a failed settlement leaves, what the appeal window and the appeal guarantee, and
  how arbiters are chosen.
\<close>

section \<open>A concrete dispute\<close>

definition disp1 :: dispute where
  "disp1 = \<lparr>d_id = ''d1'', d_engagementId = ''e1'', d_milestoneId = ''m0'', d_raisedById = Some ''uc'',
     d_reason = None, d_status = D_RESOLVED, d_stage = ARBITER_REVIEW, d_arbiterId = Some ''a1'',
     d_arbiterAssignedAt = Some 10, d_manuallyAssigned = False, d_responseDeadline = Some 1000,
     d_slaStatus = MET, d_slaEscalatedAt = None, d_outcome = Some RELEASE, d_resolvedAt = Some 500,
     d_appealDeadline = Some 1000, d_fundsLocked = True, d_fundsReleasedAt = None, d_isFinal = True,
     d_evidenceDeadline = None, d_evidenceWarnedAt = None, d_createdAt = 1\<rparr>"

definition disp_open :: dispute where
  "disp_open = disp1\<lparr>d_status := D_UNDER_REVIEW, d_outcome := None, d_resolvedAt := None,
     d_appealDeadline := None, d_isFinal := False, d_slaStatus := ON_TRACK\<rparr>"

definition disp_window :: dispute where
  "disp_window = disp1\<lparr>d_isFinal := False, d_appealDeadline := Some 600000000\<rparr>"

definition with_dispute :: "dispute \<Rightarrow> db" where
  "with_dispute d = world_db\<lparr>t_disputes := [d]\<rparr>"

definition company :: actor where
  "company = \<lparr>ac_id = ''uc'', ac_role = COMPANY, ac_stellar = None\<rparr>"

definition arbiter_two :: actor where
  "arbiter_two = \<lparr>ac_id = ''a2'', ac_role = ARBITER, ac_stellar = None\<rparr>"

definition appeal1 :: appeal where
  "appeal1 = \<lparr>a_id = ''ap1'', a_disputeId = ''d1'', a_appellantId = ''uc'', a_originalArbiterId = Some ''a1'',
     a_arbiterId = Some ''a2'', a_originalOutcome = RELEASE, a_status = A_OPEN, a_outcome = None,
     a_isFinal = False, a_decidedAt = None\<rparr>"

definition disp_appealed :: dispute where
  "disp_appealed = disp_window\<lparr>d_status := D_UNDER_REVIEW, d_stage := APPEAL_REVIEW,
     d_arbiterId := Some ''a2''\<rparr>"

lemmas dispute_world [fixture_simps] = disp1_def disp_open_def disp_window_def with_dispute_def
  company_def arbiter_two_def appeal1_def disp_appealed_def

lemma with_dispute_finds [simp]:
  "find_dispute did (with_dispute d) = (if d_id d = did then Some d else None)"
  "t_disputes (with_dispute d) = [d]"
  "find_milestone_by_id ''m0'' (with_dispute d) = Some (mk_milestone ''m0'' 0 PLACEMENT 50 500 DISPUTED)"
  "find_engagement ''e1'' (with_dispute d) = Some eng1"
  "find_appeal did (with_dispute d) = None"
  "t_appeals (with_dispute d) = []" "chainCalls (with_dispute d) = []"
  "t_milestones (with_dispute d) = t_milestones world_db" "t_users (with_dispute d) = t_users world_db"
  by (simp_all add: fixture_simps find_dispute_def find_milestone_by_id_def find_engagement_def find_appeal_def)

section \<open>The escrow of a dispute is resolved at most once\<close>


lemma disp1_claimable: "claimable disp1"
  by (simp add: claimable_def disp1_def)


section \<open>One settlement\<close>

text \<open>
  C2.  A final, unpaid decision whose on-chain call succeeds is closed with its funds unlocked and
  the release time recorded; exactly one contract call is made, for the milestone and in the sense
  of the outcome, and the milestone becomes RESOLVED (released) or PENDING (refunded).
\<close>
theorem settle_success:
  assumes "find_dispute did s = Some d" and "claimable d"
    and "find_milestone_by_id (d_milestoneId d) s = Some m"
    and "chain w (length (chainCalls s)) (escrow_call d m) = Inr h"
  shows "fst (settle cfg w did s) = Inr (settled_row w d) \<and>
    find_dispute did (snd (settle cfg w did s)) = Some (settled_row w d) \<and>
    chainCalls (snd (settle cfg w did s)) = chainCalls s @ [(escrow_call d m, True)] \<and>
    map_option m_status (find_milestone_by_id (m_id m) (snd (settle cfg w did s))) =
      Some (if outcome_approved d then RESOLVED else PENDING)"
  using settle_paid [OF assms] by blast

theorem settle_success_witness:
  "chainCalls (snd (settle default_config env1 ''d1'' (with_dispute disp1))) =
     [(ResolveDispute ''e1'' 0 True, True)] \<and>
   find_dispute ''d1'' (snd (settle default_config env1 ''d1'' (with_dispute disp1))) =
     Some (settled_row env1 disp1)"
  using settle_success [of "''d1''" "with_dispute disp1" disp1
      "mk_milestone ''m0'' 0 PLACEMENT 50 500 DISPUTED" env1 "''hash''" default_config] disp1_claimable
  by (simp add: disp1_def env1_def escrow_call_def outcome_approved_def mk_milestone_def)

text \<open>
  C3.  When the on-chain call fails, the claim is rolled back: the caller sees the error, the
  dispute is exactly as it was (so a retry can claim it), and neither the milestone nor the
  arbiter's payouts have changed.
\<close>
theorem settle_failure_rolls_back:
  assumes "find_dispute did s = Some d" and "claimable d"
    and "find_milestone_by_id (d_milestoneId d) s = Some m"
    and "chain w (length (chainCalls s)) (escrow_call d m) = Inl e"
  shows "fst (settle cfg w did s) = Inl (StellarFailure e) \<and>
    find_dispute did (snd (settle cfg w did s)) = Some d \<and>
    chainCalls (snd (settle cfg w did s)) = chainCalls s @ [(escrow_call d m, False)] \<and>
    t_milestones (snd (settle cfg w did s)) = t_milestones s \<and>
    t_payouts (snd (settle cfg w did s)) = t_payouts s"
  using settle_failed [OF assms] by blast

theorem settle_failure_rolls_back_witness:
  "find_dispute ''d1'' (snd (settle default_config env_down ''d1'' (with_dispute disp1))) = Some disp1"
  using settle_failure_rolls_back [of "''d1''" "with_dispute disp1" disp1
      "mk_milestone ''m0'' 0 PLACEMENT 50 500 DISPUTED" env_down "''timeout''" default_config] disp1_claimable
  by (simp add: disp1_def env_down_def)

section \<open>The appeal window\<close>

text \<open>
  A first-tier decision taken while an appeal window is configured moves no money: the dispute
  is RESOLVED with the arbiter's outcome, not final, its funds still locked and its appeal deadline
  the window's length away, and no contract call is made.
\<close>
lemma decision_keeps_funds_locked:
  assumes "find_dispute (d_id d) s = Some d" and "active (d_status d)" and "d_stage d \<noteq> APPEAL_REVIEW"
    and "may_decide d actor" and "0 < appealWindowHours cfg"
  shows "\<exists>d'. find_dispute (d_id d) (snd (decide cfg w d oc actor s)) = Some d' \<and>
    fst (decide cfg w d oc actor s) = Inr d' \<and> d_status d' = D_RESOLVED \<and> d_outcome d' = Some oc \<and>
    \<not> d_isFinal d' \<and> d_fundsLocked d' \<and> \<not> claimable d' \<and>
    d_appealDeadline d' = Some (now w + appealWindowHours cfg * hour_ms) \<and>
    chainCalls (snd (decide cfg w d oc actor s)) = chainCalls s"
  using decide_deferred [OF assms] assms(5)
  by (intro exI [of _ "decide_row cfg w d oc d"]) (simp add: claimable_def, simp add: decide_row_def)

lemma decision_keeps_funds_locked_witness:
  "chainCalls (snd (decide default_config env1 disp_open REFUND None (with_dispute disp_open))) = []"
  using decision_keeps_funds_locked [of disp_open "with_dispute disp_open" None default_config env1 REFUND]
  by (auto simp: disp_open_def disp1_def may_decide_def default_config_def)



text \<open>
  The appeal decision is final: it overrides the outcome of the first tier, the appeal is
  DECIDED, and when the chain answers the escrow is resolved in the sense of the appeal's outcome
  in the same request.
\<close>
lemma appeal_decision_settles:
  assumes "find_dispute did s = Some d" and "find_appeal did s = Some ap" and "may_decide_appeal d ap user"
    and "d_fundsReleasedAt d = None" and "find_milestone_by_id (d_milestoneId d) s = Some m"
    and "chain w (length (chainCalls s)) (ResolveDispute (d_engagementId d) (m_index m) (oc = RELEASE)) = Inr h"
  shows "\<exists>d'. fst (decideAppeal cfg w did user oc s) = Inr d' \<and>
    find_dispute did (snd (decideAppeal cfg w did user oc s)) = Some d' \<and> d_status d' = D_CLOSED \<and>
    d_outcome d' = Some oc \<and> d_isFinal d' \<and> \<not> d_fundsLocked d' \<and>
    chainCalls (snd (decideAppeal cfg w did user oc s)) =
      chainCalls s @ [(ResolveDispute (d_engagementId d) (m_index m) (oc = RELEASE), True)]"
proof -
  let ?d = "appeal_decision_row w d oc d"
  obtain s1 where s1: "decideAppeal cfg w did user oc s = settle cfg w did s1"
    "find_dispute did s1 = Some ?d" "chainCalls s1 = chainCalls s" "t_milestones s1 = t_milestones s"
    using decideAppeal_ok [OF assms(1-3)] by blast
  have cl: "claimable ?d" using assms(4) by (rule appeal_decision_claimable)
  have m: "find_milestone_by_id (d_milestoneId ?d) s1 = Some m"
    using assms(5) find_milestone_by_id_cong [OF s1(4)] by simp
  have call: "escrow_call ?d m = ResolveDispute (d_engagementId d) (m_index m) (oc = RELEASE)"
    by (simp add: escrow_call_def outcome_approved_def)
  have ok: "chain w (length (chainCalls s1)) (escrow_call ?d m) = Inr h"
    using assms(6) by (simp add: call s1(3))
  show ?thesis
    using settle_paid [OF s1(2) cl m ok, of cfg]
    by (simp add: s1(1,3) call settled_row_def)
qed

lemma appeal_decision_settles_witness:
  "chainCalls (snd (decideAppeal default_config env1 ''d1'' arbiter_two REFUND
       (with_dispute disp_appealed\<lparr>t_appeals := [appeal1]\<rparr>))) = [(ResolveDispute ''e1'' 0 False, True)]"
  using appeal_decision_settles [of "''d1''" "with_dispute disp_appealed\<lparr>t_appeals := [appeal1]\<rparr>"
      disp_appealed appeal1 arbiter_two "mk_milestone ''m0'' 0 PLACEMENT 50 500 DISPUTED" env1 REFUND
      "''hash''" default_config]
  by (auto simp: fixture_simps find_dispute_def find_appeal_def find_milestone_by_id_def may_decide_appeal_def)

text \<open>
  C5.  The finalisation job settles every dispute whose window has lapsed (and retries the final
  ones whose settlement failed) as soon as the chain answers, and leaves every dispute whose window
  is still open exactly as it is.
\<close>
theorem job_settles_lapsed_and_only_lapsed:
  assumes "distinct (map d_id (t_disputes s))"
    and "\<And>d. d \<in> set (t_disputes s) \<Longrightarrow> lapsed (now w) d \<Longrightarrow>
      d_fundsReleasedAt d = None \<and> d_milestoneId d \<in> set (map m_id (t_milestones s))"
    and "\<And>n c. \<not> isl (chain w n c)" and "d \<in> set (t_disputes s)"
  shows "find_dispute (d_id d) (snd (finalizeExpiredAppealWindows cfg w True s)) =
    Some (if lapsed (now w) d then settled_row w (d\<lparr>d_isFinal := True\<rparr>) else d)"
proof (cases "lapsed (now w) d")
  case True
  with finalize_settles [OF assms] show ?thesis by simp
next
  case False
  have "find_dispute (d_id d) s = Some d"
    using assms(1,4) by (simp add: find_dispute_def find_key_unique)
  with finalize_keeps_window [OF assms(1) this False] False show ?thesis by simp
qed

theorem job_settles_lapsed_and_only_lapsed_witness:
  "find_dispute ''d1'' (snd (finalizeExpiredAppealWindows default_config env1 True (with_dispute disp1))) =
     Some (settled_row env1 disp1)"
  using job_settles_lapsed_and_only_lapsed [of "with_dispute disp1" env1 disp1 default_config]
  by (simp add: disp1_def env1_def lapsed_def world_db_def mk_milestone_def)

section \<open>Arbiters and deadlines\<close>

text \<open>
  The selected arbiter is an active, undeleted arbiter without conflict or exclusion and with
  a wallet of neither party; nobody eligible has a smaller load, and among the least loaded the
  longest-standing one (ties by id) is taken.  Nobody is selected only if nobody is eligible.
\<close>
lemma selected_arbiter_is_least_loaded:
  "case selectArbiter e exclude s of
     None \<Rightarrow> eligible_arbiters e exclude s = []
   | Some (a, n) \<Rightarrow> u_role a = ARBITER \<and> u_deactivatedAt a = None \<and> u_deletedAt a = None \<and>
       u_id a \<notin> conflictedArbiterIds e s \<and> u_id a \<notin> set exclude \<and> not_party_wallet e a \<and>
       n = load_of s (u_id a) \<and>
       list_all (\<lambda>b. n < load_of s (u_id b) \<or>
         (n = load_of s (u_id b) \<and> (u_createdAt a, u_id a) \<le> (u_createdAt b, u_id b)))
         (eligible_arbiters e exclude s)"
proof (cases "selectArbiter e exclude s")
  case None
  then show ?thesis using selectArbiter_None [of e exclude s] by simp
next
  case (Some x)
  obtain a n where x: "x = (a, n)" by fastforce
  note sel = selectArbiter_Some [OF Some [unfolded x]]
  have el: "u_role a = ARBITER \<and> u_deactivatedAt a = None \<and> u_deletedAt a = None \<and>
      u_id a \<notin> conflictedArbiterIds e s \<and> u_id a \<notin> set exclude \<and> not_party_wallet e a"
    using sel(1) by (simp add: set_eligible)
  have "n < load_of s (u_id b) \<or>
      (n = load_of s (u_id b) \<and> (u_createdAt a, u_id a) \<le> (u_createdAt b, u_id b))"
    if "b \<in> set (eligible_arbiters e exclude s)" for b
    using sel(3) [OF that] sel(4) [OF that] by (cases "load_of s (u_id b) = n") auto
  then show ?thesis unfolding Some x using el sel(2) by (simp add: list_all_iff)
qed

text \<open>
  One run of the SLA job marks exactly the disputes that are active, on track and past their
  deadline as OVERDUE, stamps them with the time of the run, leaves every other row alone, counts
  them, and notifies each active administrator once per dispute.
\<close>
lemma overdue_job_flags_exactly:
  assumes "distinct (map d_id (t_disputes s))"
  shows "fst (flagOverdueDisputes w True s) = count_where (overdue_at (now w)) (t_disputes s) \<and>
    t_disputes (snd (flagOverdueDisputes w True s)) =
      update_where (overdue_at (now w))
        (\<lambda>x. x\<lparr>d_slaStatus := OVERDUE, d_slaEscalatedAt := Some (now w)\<rparr>) (t_disputes s) \<and>
    outbox (snd (flagOverdueDisputes w True s)) = outbox s @
      concat (replicate (count_where (overdue_at (now w)) (t_disputes s))
        (map (\<lambda>a. (ById a, DISPUTE_SLA_OVERDUE)) (active_admins s)))"
  using flagOverdue_result [OF assms, of w] by (simp add: flag_row_eq)

lemma overdue_job_flags_exactly_witness:
  "fst (flagOverdueDisputes env1 True (with_dispute disp_open)) = 1"
  using overdue_job_flags_exactly [of "with_dispute disp_open" env1]
  by (simp add: disp_open_def disp1_def env1_def overdue_at_def)

text \<open>
  Opening a dispute is idempotent: replaying the event with whatever arguments returns the
  dispute of the first call and changes nothing, so a milestone never has two unsettled disputes
  through replays.
\<close>
lemma opening_is_idempotent:
  assumes "openForMilestone cfg w mid reason raised s = (Inr d, s')"
    and "genId w (idSeq s) \<notin> d_id ` set (t_disputes s)"
  shows "\<exists>d'. openForMilestone cfg' w' mid reason' raised' s' = (Inr d', s') \<and> d_id d' = d_id d"
  using openForMilestone_again [OF assms] .

theorem opening_is_idempotent_witness:
  "\<exists>d s'. openForMilestone default_config env1 ''m0'' None None world_db = (Inr d, s') \<and>
     (\<exists>d'. openForMilestone default_config env_down ''m0'' (Some ''again'') None s' = (Inr d', s') \<and> d_id d' = d_id d)"
proof -
  have "\<exists>d s'. openForMilestone default_config env1 ''m0'' None None world_db = (Inr d, s')"
    by (simp add: openForMilestone_def world_db_def empty_db_def find_milestone_by_id_def mk_milestone_def
        fresh_id_def Let_def autoAssign_def find_dispute_def open_row_def find_engagement_def eng1_def
        and_then_def return_def split: option.splits prod.splits)
  then obtain d s' where r: "openForMilestone default_config env1 ''m0'' None None world_db = (Inr d, s')" by blast
  have "genId env1 (idSeq world_db) \<notin> d_id ` set (t_disputes world_db)"
    by (simp add: world_db_def empty_db_def)
  from opening_is_idempotent [OF r this] r show ?thesis by blast
qed

end
