(* ===== verification/Party.thy ===== *)
theory Party
  imports Fixtures
begin

text \<open>
  \<^verbatim>\<open>modules/milestones/engagement-party.ts\<close>: which side of an engagement a user is on, matched by
  account id or by wallet, and the guard built on it; and the lookup of a milestone with its
  engagement that the milestone services share.
\<close>

datatype party_role = PR_COMPANY | PR_RECRUITER | PR_ARBITER

record party_user =
  pu_id :: "ident option"
  pu_stellar :: "string option"
  pu_role :: "user_role option"

definition matches :: "party_user \<Rightarrow> ident option \<Rightarrow> string \<Rightarrow> bool" where
  "matches u i addr \<longleftrightarrow> (truthy (pu_id u) \<and> truthy i \<and> pu_id u = i) \<or>
     (truthy (pu_stellar u) \<and> pu_stellar u = Some addr)"

definition engagementPartyRole :: "engagement \<Rightarrow> party_user \<Rightarrow> party_role option" where
  "engagementPartyRole e u =
     (if matches u (e_companyId e) (e_companyAddress e) then Some PR_COMPANY
      else if matches u (e_recruiterId e) (e_recruiterAddress e) then Some PR_RECRUITER
      else if matches u (e_arbiterId e) (e_arbiterAddress e) then Some PR_ARBITER
      else None)"

definition requirePartyRole :: "engagement \<Rightarrow> party_user \<Rightarrow> party_role list \<Rightarrow> exn + party_role" where
  "requirePartyRole e u allowed = (case engagementPartyRole e u of
     None \<Rightarrow> Inl ForbiddenException
   | Some r \<Rightarrow> if r \<in> set allowed then Inr r else Inl ForbiddenException)"

lemma requirePartyRole_Inr:
  "requirePartyRole e u allowed = Inr r \<longleftrightarrow> engagementPartyRole e u = Some r \<and> r \<in> set allowed"
  by (auto simp: requirePartyRole_def split: option.splits)

lemma requirePartyRole_Inl:
  "requirePartyRole e u allowed = Inl x \<longleftrightarrow> x = ForbiddenException \<and>
     (\<forall>r. engagementPartyRole e u = Some r \<longrightarrow> r \<notin> set allowed)"
  by (auto simp: requirePartyRole_def split: option.splits)

text \<open>A user with neither an id nor a wallet is nobody, whatever the role.\<close>

lemma anonymous_is_nobody:
  "\<not> truthy (pu_id u) \<Longrightarrow> \<not> truthy (pu_stellar u) \<Longrightarrow> engagementPartyRole e u = None"
  by (simp add: engagementPartyRole_def matches_def)

section \<open>Loading a milestone\<close>

text \<open>\<open>findUnique\<close> on (engagementId, milestoneIndex) with the engagement included.\<close>

definition load_milestone :: "ident \<Rightarrow> nat \<Rightarrow> db \<Rightarrow> exn + (milestone \<times> engagement)" where
  "load_milestone eid i s = (case find_milestone eid i s of
     None \<Rightarrow> Inl NotFoundException
   | Some m \<Rightarrow> (case find_engagement eid s of None \<Rightarrow> Inl TypeErrorExn | Some e \<Rightarrow> Inr (m, e)))"

lemma load_milestone_Inr:
  "load_milestone eid i s = Inr (m, e) \<longleftrightarrow> find_milestone eid i s = Some m \<and> find_engagement eid s = Some e"
  by (auto simp: load_milestone_def split: option.splits)

definition audit_milestone ::
  "ident \<Rightarrow> milestone_status \<Rightarrow> milestone_status \<Rightarrow> ident \<Rightarrow> string \<Rightarrow> db \<Rightarrow> db" where
  "audit_milestone mid fr to by_id action s =
     s\<lparr>t_milestoneAudits := t_milestoneAudits s @
        [\<lparr>ma_milestoneId = mid, ma_from = fr, ma_to = to, ma_changedBy = by_id, ma_action = action\<rparr>]\<rparr>"

lemma audit_milestone_frame [simp]:
  "t_users (audit_milestone mid fr to b act s) = t_users s"
  "t_engagements (audit_milestone mid fr to b act s) = t_engagements s"
  "t_milestones (audit_milestone mid fr to b act s) = t_milestones s"
  "t_partials (audit_milestone mid fr to b act s) = t_partials s"
  "t_refunds (audit_milestone mid fr to b act s) = t_refunds s"
  "t_proofs (audit_milestone mid fr to b act s) = t_proofs s"
  "t_approvals (audit_milestone mid fr to b act s) = t_approvals s"
  "chainCalls (audit_milestone mid fr to b act s) = chainCalls s"
  "outbox (audit_milestone mid fr to b act s) = outbox s"
  by (simp_all add: audit_milestone_def)

end
