(* ===== verification/PartialRelease.thy ===== *)
theory PartialRelease
  imports Party Claim
begin

text \<open>
  \<^verbatim>\<open>modules/milestones/partial-release.service.ts\<close>: one party proposes to pay out part of a
  milestone's escrow, the other approves, and the release executes on-chain under the claim
  protocol of the theory \<open>Claim\<close>.  \<open>releaseAmount\<close> is the decimal string the request validator
  admits, read as an integer; the partial unique index admits one PROPOSED row per milestone.
\<close>

record release_terms =
  tm_releaseAmount :: "int option"
  tm_releasePercent :: "int option"
  tm_remainderAction :: remainder_action

definition PARTIAL_RELEASE_STATUSES :: "milestone_status list" where
  "PARTIAL_RELEASE_STATUSES = [PROOF_SUBMITTED, DISPUTED]"

definition computeSplit :: "stroops \<Rightarrow> stroops \<Rightarrow> release_terms \<Rightarrow> exn + (stroops \<times> stroops)" where
  "computeSplit totalAmount alreadyReleased terms =
     (let remaining = totalAmount - alreadyReleased
      in if remaining \<le> 0 then Inl UnprocessableEntityException
         else if (tm_releaseAmount terms \<noteq> None) = (tm_releasePercent terms \<noteq> None)
         then Inl BadRequestException
         else let amount = (case tm_releaseAmount terms of
                  Some a \<Rightarrow> a
                | None \<Rightarrow> big_div (remaining * the (tm_releasePercent terms)) 100)
              in if amount \<le> 0 \<or> remaining \<le> amount then Inl BadRequestException
                 else Inr (amount, remaining - amount))"

definition hasDualApproval :: "partial_release \<Rightarrow> bool" where
  "hasDualApproval r \<longleftrightarrow> pr_companyApprovedAt r \<noteq> None \<and> pr_recruiterApprovedAt r \<noteq> None"

definition find_release :: "ident \<Rightarrow> db \<Rightarrow> partial_release option" where
  "find_release rid s = List.find (\<lambda>r. pr_id r = rid) (t_partials s)"

definition update_releases ::
  "(partial_release \<Rightarrow> bool) \<Rightarrow> (partial_release \<Rightarrow> partial_release) \<Rightarrow> db \<Rightarrow> nat \<times> db" where
  "update_releases p f s =
     (count_where p (t_partials s), s\<lparr>t_partials := update_where p f (t_partials s)\<rparr>)"

definition list_releases :: "ident \<Rightarrow> nat \<Rightarrow> party_user \<Rightarrow> db \<Rightarrow> exn + partial_release list" where
  "list_releases eid i u s = (case load_milestone eid i s of
     Inl x \<Rightarrow> Inl x
   | Inr (m, e) \<Rightarrow>
       if pu_role u \<noteq> Some ADMIN \<and> engagementPartyRole e u = None then Inl ForbiddenException
       else Inr (filter (\<lambda>r. pr_milestoneId r = m_id m) (t_partials s)))"

section \<open>Proposing\<close>

definition propose ::
  "env \<Rightarrow> ident \<Rightarrow> nat \<Rightarrow> party_user \<Rightarrow> release_terms \<Rightarrow> db \<Rightarrow> (db, partial_release) outcome" where
  "propose w eid i u terms s = (case load_milestone eid i s of
     Inl x \<Rightarrow> throw x s
   | Inr (m, e) \<Rightarrow> (case requirePartyRole e u [PR_COMPANY, PR_RECRUITER] of
       Inl x \<Rightarrow> throw x s
     | Inr role \<Rightarrow>
         if m_status m \<notin> set PARTIAL_RELEASE_STATUSES then throw UnprocessableEntityException s
         else (case m_amount m of
           None \<Rightarrow> throw UnprocessableEntityException s
         | Some totalAmount \<Rightarrow>
             if \<exists>r \<in> set (t_partials s). pr_milestoneId r = m_id m \<and> pr_status r = P_PROPOSED
             then throw ConflictException s
             else (case computeSplit totalAmount (case m_paymentReleased m of None \<Rightarrow> 0 | Some p \<Rightarrow> p) terms of
               Inl x \<Rightarrow> throw x s
             | Inr (amount, remainder) \<Rightarrow>
                 (let (rid, s1) = fresh_id w s;
                      company = (role = PR_COMPANY);
                      r = \<lparr>pr_id = rid, pr_milestoneId = m_id m, pr_engagementId = eid,
                           pr_proposedById = pu_id u, pr_releaseAmount = amount,
                           pr_remainderAmount = remainder,
                           pr_remainderAction = tm_remainderAction terms, pr_status = P_PROPOSED,
                           pr_companyApproverId = (if company then pu_id u else None),
                           pr_companyApprovedAt = (if company then Some (now w) else None),
                           pr_recruiterApproverId = (if company then None else pu_id u),
                           pr_recruiterApprovedAt = (if company then None else Some (now w)),
                           pr_txHash = None, pr_executedAt = None, pr_failed = False\<rparr>;
                      s2 = s1\<lparr>t_partials := t_partials s1 @ [r]\<rparr>;
                      s3 = audit_milestone (m_id m) (m_status m) (m_status m)
                             (case pu_id u of None \<Rightarrow> [] | Some x \<Rightarrow> x) ''PARTIAL_RELEASE_PROPOSED'' s2;
                      counterparty = (if company then e_recruiterAddress e else e_companyAddress e)
                  in return r (notify (ByAddress counterparty) PARTIAL_RELEASE_PROPOSED s3))))))"

section \<open>Executing\<close>

definition executable_release :: "partial_release \<Rightarrow> bool" where
  "executable_release r \<longleftrightarrow> pr_status r = P_PROPOSED \<and> pr_executedAt r = None"

definition execute_claim :: "env \<Rightarrow> ident \<Rightarrow> db \<Rightarrow> nat \<times> db" where
  "execute_claim w rid s = update_releases (\<lambda>r. pr_id r = rid \<and> executable_release r)
     (\<lambda>r. r\<lparr>pr_executedAt := Some (now w)\<rparr>) s"

definition execute_rollback :: "ident \<Rightarrow> db \<Rightarrow> db" where
  "execute_rollback rid s = snd (update_releases (\<lambda>r. pr_id r = rid)
     (\<lambda>r. r\<lparr>pr_status := P_FAILED, pr_failed := True, pr_executedAt := None\<rparr>) s)"

definition execute_record :: "ident \<Rightarrow> string \<Rightarrow> db \<Rightarrow> db" where
  "execute_record rid h s = snd (update_releases (\<lambda>r. pr_id r = rid)
     (\<lambda>r. r\<lparr>pr_status := P_EXECUTED, pr_txHash := Some h\<rparr>) s)"

definition execute_finish ::
  "env \<Rightarrow> partial_release \<Rightarrow> milestone \<Rightarrow> engagement \<Rightarrow> ident \<Rightarrow> string \<Rightarrow> db \<Rightarrow> db" where
  "execute_finish w r m e actorId h s =
     (let refund = (pr_remainderAction r = RA_REFUND);
          previously = (case m_paymentReleased m of None \<Rightarrow> 0 | Some p \<Rightarrow> p);
          s1 = update_milestone (m_id m)
                 (\<lambda>x. let y = x\<lparr>m_paymentReleased := Some (previously + pr_releaseAmount r)\<rparr>
                      in if refund then y\<lparr>m_status := CONFIRMED, m_confirmedAt := Some (now w)\<rparr> else y) s;
          s2 = update_engagement (e_id e)
                 (\<lambda>x. x\<lparr>e_releasedAmount := e_releasedAmount x + pr_releaseAmount r\<rparr>) s1;
          s3 = (if refund then upsert_refund \<lparr>r_milestoneId = m_id m, r_amount = pr_remainderAmount r,
                                 r_status = REFUND_COMPLETED\<rparr> s2 else s2);
          s4 = execute_record (pr_id r) h s3;
          s5 = audit_milestone (m_id m) (m_status m) (if refund then CONFIRMED else m_status m) actorId
                 ''PARTIAL_RELEASE_EXECUTED'' s4
      in notify_all (map ByAddress [e_companyAddress e, e_recruiterAddress e]) PARTIAL_RELEASE_EXECUTED s5)"

definition execute_call :: "partial_release \<Rightarrow> milestone \<Rightarrow> engagement \<Rightarrow> chain_call" where
  "execute_call r m e = ReleasePartial (e_id e) (m_index m) (pr_releaseAmount r) (pr_remainderAction r = RA_REFUND)"

definition execute ::
  "env \<Rightarrow> partial_release \<Rightarrow> milestone \<Rightarrow> engagement \<Rightarrow> ident \<Rightarrow> db \<Rightarrow> (db, partial_release) outcome" where
  "execute w r m e actorId s =
     (if \<not> hasDualApproval r then throw ConflictException s
      else let (n, s1) = execute_claim w (pr_id r) s
           in if n = 0 then (case find_release (pr_id r) s1 of
                  None \<Rightarrow> throw RecordNotFound s1 | Some r' \<Rightarrow> return r' s1)
              else (case call_chain w (execute_call r m e) s1 of
                (Inl x, s2) \<Rightarrow>
                  throw x (audit_milestone (m_id m) (m_status m) (m_status m) actorId
                             ''PARTIAL_RELEASE_FAILED'' (execute_rollback (pr_id r) s2))
              | (Inr h, s2) \<Rightarrow>
                  (let s3 = execute_finish w r m e actorId h s2
                   in case find_release (pr_id r) s3 of
                        None \<Rightarrow> throw RecordNotFound s3 | Some r' \<Rightarrow> return r' s3)))"

section \<open>Approving and rejecting\<close>

definition findOpen :: "ident \<Rightarrow> ident \<Rightarrow> db \<Rightarrow> exn + partial_release" where
  "findOpen mid rid s = (case find_release rid s of
     None \<Rightarrow> Inl NotFoundException
   | Some r \<Rightarrow> if pr_milestoneId r \<noteq> mid then Inl NotFoundException
               else if pr_status r \<noteq> P_PROPOSED then Inl ConflictException else Inr r)"

definition approval_open :: "party_role \<Rightarrow> partial_release \<Rightarrow> bool" where
  "approval_open role r \<longleftrightarrow>
     (if role = PR_COMPANY then pr_companyApprovedAt r = None else pr_recruiterApprovedAt r = None)"

definition approval_row :: "env \<Rightarrow> party_role \<Rightarrow> party_user \<Rightarrow> partial_release \<Rightarrow> partial_release" where
  "approval_row w role u r =
     (if role = PR_COMPANY then r\<lparr>pr_companyApproverId := pu_id u, pr_companyApprovedAt := Some (now w)\<rparr>
      else r\<lparr>pr_recruiterApproverId := pu_id u, pr_recruiterApprovedAt := Some (now w)\<rparr>)"

definition approve :: "env \<Rightarrow> ident \<Rightarrow> nat \<Rightarrow> ident \<Rightarrow> party_user \<Rightarrow> db \<Rightarrow> (db, partial_release) outcome" where
  "approve w eid i rid u s = (case load_milestone eid i s of
     Inl x \<Rightarrow> throw x s
   | Inr (m, e) \<Rightarrow> (case requirePartyRole e u [PR_COMPANY, PR_RECRUITER] of
       Inl x \<Rightarrow> throw x s
     | Inr role \<Rightarrow> (case findOpen (m_id m) rid s of
         Inl x \<Rightarrow> throw x s
       | Inr r \<Rightarrow>
           (let (n, s1) = update_releases
                  (\<lambda>x. pr_id x = rid \<and> pr_status x = P_PROPOSED \<and> approval_open role x)
                  (approval_row w role u) s
            in if n = 0 then throw ConflictException s1
               else (case find_release rid s1 of
                 None \<Rightarrow> throw RecordNotFound s1
               | Some r' \<Rightarrow>
                   if \<not> hasDualApproval r' then return r' s1
                   else execute w r' m e (case pu_id u of None \<Rightarrow> [] | Some x \<Rightarrow> x) s1)))))"

definition reject :: "ident \<Rightarrow> nat \<Rightarrow> ident \<Rightarrow> party_user \<Rightarrow> db \<Rightarrow> (db, partial_release) outcome" where
  "reject eid i rid u s = (case load_milestone eid i s of
     Inl x \<Rightarrow> throw x s
   | Inr (m, e) \<Rightarrow> (case requirePartyRole e u [PR_COMPANY, PR_RECRUITER] of
       Inl x \<Rightarrow> throw x s
     | Inr role \<Rightarrow> (case findOpen (m_id m) rid s of
         Inl x \<Rightarrow> throw x s
       | Inr r \<Rightarrow>
           (let (n, s1) = update_releases (\<lambda>x. pr_id x = rid \<and> executable_release x)
                  (\<lambda>x. x\<lparr>pr_status := P_REJECTED\<rparr>) s
            in if n = 0 then throw ConflictException s1
               else return (r\<lparr>pr_status := P_REJECTED\<rparr>)
                 (audit_milestone (m_id m) (m_status m) (m_status m)
                   (case pu_id u of None \<Rightarrow> [] | Some x \<Rightarrow> x) ''PARTIAL_RELEASE_REJECTED'' s1)))))"

section \<open>Lemmas\<close>

text \<open>A split is a proper one: both parts are positive and they make up what is left in escrow.\<close>

lemma computeSplit_Inr:
  assumes "computeSplit held released terms = Inr (a, r)"
  shows "0 < a" and "0 < r" and "a + r = held - released"
    and "tm_releasePercent terms = Some p \<Longrightarrow> a = (held - released) * p div 100"
proof -
  show "0 < a" "0 < r" "a + r = held - released"
    using assms by (auto simp: computeSplit_def Let_def split: if_splits)
  show "a = (held - released) * p div 100" if "tm_releasePercent terms = Some p"
  proof -
    have a: "a = big_div ((held - released) * p) 100" "0 < held - released"
      using assms that by (auto simp: computeSplit_def Let_def split: if_splits option.splits)
    have "0 \<le> p"
    proof (rule ccontr)
      assume "\<not> 0 \<le> p"
      then have "(held - released) * p < 0" using a(2) by (simp add: mult_pos_neg)
      then have "a \<le> 0" unfolding a(1) by (simp add: big_div_def pos_imp_zdiv_nonneg_iff)
      with \<open>0 < a\<close> show False by simp
    qed
    then show ?thesis using a by (simp add: big_div_nonneg)
  qed
qed

lemma find_update_releases:
  assumes "\<And>r. pr_id (f r) = pr_id r"
  shows "find_release rid (snd (update_releases p f s)) = map_option (\<lambda>r. if p r then f r else r) (find_release rid s)"
  using assms by (simp add: find_release_def update_releases_def find_update_where)

lemma find_release_id: "find_release rid s = Some r \<Longrightarrow> pr_id r = rid \<and> r \<in> set (t_partials s)"
  by (auto simp: find_release_def dest: find_SomeD)

lemma find_release_cong: "t_partials s = t_partials s' \<Longrightarrow> find_release rid s = find_release rid s'"
  by (simp add: find_release_def)

lemma update_releases_frame [simp]:
  "t_milestones (snd (update_releases p f s)) = t_milestones s"
  "t_engagements (snd (update_releases p f s)) = t_engagements s"
  "t_refunds (snd (update_releases p f s)) = t_refunds s"
  "chainCalls (snd (update_releases p f s)) = chainCalls s"
  "t_partials (snd (update_releases p f s)) = update_where p f (t_partials s)"
  "fst (update_releases p f s) = count_where p (t_partials s)"
  by (simp_all add: update_releases_def)

lemma execute_finish_frame [simp]:
  "chainCalls (execute_finish w r m e a h s) = chainCalls s"
  "t_partials (execute_finish w r m e a h s) = t_partials (execute_record (pr_id r) h s)"
  by (simp_all add: execute_finish_def execute_record_def Let_def)

lemma execute_paid:
  assumes "find_release (pr_id r) s = Some r" and "executable_release r" and "hasDualApproval r"
    and "chain w (length (chainCalls s)) (execute_call r m e) = Inr h"
  shows "\<exists>t. execute w r m e a s = (Inr (r\<lparr>pr_executedAt := Some (now w), pr_status := P_EXECUTED, pr_txHash := Some h\<rparr>), t) \<and>
    find_release (pr_id r) t = Some (r\<lparr>pr_executedAt := Some (now w), pr_status := P_EXECUTED, pr_txHash := Some h\<rparr>) \<and>
    chainCalls t = chainCalls s @ [(execute_call r m e, True)]"
proof -
  obtain n s1 where c: "execute_claim w (pr_id r) s = (n, s1)" by fastforce
  have n: "n \<noteq> 0"
    using c find_release_id [OF assms(1)] assms(2) count_where_pos [of "\<lambda>x. pr_id x = pr_id r \<and> executable_release x"]
    by (auto simp: execute_claim_def update_releases_def)
  have s1: "find_release (pr_id r) s1 = Some (r\<lparr>pr_executedAt := Some (now w)\<rparr>)" "chainCalls s1 = chainCalls s"
    using c find_update_releases [of "\<lambda>r. r\<lparr>pr_executedAt := Some (now w)\<rparr>" "pr_id r"
        "\<lambda>x. pr_id x = pr_id r \<and> executable_release x" s] assms(1,2)
    by (auto simp: execute_claim_def update_releases_def)
  define s2 where "s2 = s1\<lparr>chainCalls := chainCalls s @ [(execute_call r m e, True)]\<rparr>"
  have call: "call_chain w (execute_call r m e) s1 = (Inr h, s2)"
    using assms(4) s1(2) by (simp add: call_chain_def s2_def)
  have "find_release (pr_id r) (execute_finish w r m e a h s2) =
      find_release (pr_id r) (execute_record (pr_id r) h s2)"
    by (rule find_release_cong) simp
  also have "\<dots> = Some (r\<lparr>pr_executedAt := Some (now w), pr_status := P_EXECUTED, pr_txHash := Some h\<rparr>)"
    unfolding execute_record_def using s1(1)
    by (subst find_update_releases) (auto simp: s2_def find_release_def)
  finally show ?thesis
    using assms(3) n c call by (simp add: execute_def s2_def)
qed

lemma execute_failed:
  assumes "find_release (pr_id r) s = Some r" and "executable_release r" and "hasDualApproval r"
    and "chain w (length (chainCalls s)) (execute_call r m e) = Inl x"
  shows "\<exists>t. execute w r m e a s = (Inl (StellarFailure x), t) \<and>
    find_release (pr_id r) t = Some (r\<lparr>pr_status := P_FAILED, pr_failed := True, pr_executedAt := None\<rparr>) \<and>
    t_milestones t = t_milestones s \<and> t_engagements t = t_engagements s \<and> t_refunds t = t_refunds s"
proof -
  obtain n s1 where c: "execute_claim w (pr_id r) s = (n, s1)" by fastforce
  have n: "n \<noteq> 0"
    using c find_release_id [OF assms(1)] assms(2) count_where_pos [of "\<lambda>x. pr_id x = pr_id r \<and> executable_release x"]
    by (auto simp: execute_claim_def update_releases_def)
  have s1: "find_release (pr_id r) s1 = Some (r\<lparr>pr_executedAt := Some (now w)\<rparr>)" "chainCalls s1 = chainCalls s"
    "t_milestones s1 = t_milestones s" "t_engagements s1 = t_engagements s" "t_refunds s1 = t_refunds s"
    using c find_update_releases [of "\<lambda>r. r\<lparr>pr_executedAt := Some (now w)\<rparr>" "pr_id r"
        "\<lambda>x. pr_id x = pr_id r \<and> executable_release x" s] assms(1,2)
    by (auto simp: execute_claim_def update_releases_def)
  define s2 where "s2 = s1\<lparr>chainCalls := chainCalls s @ [(execute_call r m e, False)]\<rparr>"
  have call: "call_chain w (execute_call r m e) s1 = (Inl (StellarFailure x), s2)"
    using assms(4) s1(2) by (simp add: call_chain_def s2_def)
  have "find_release (pr_id r) (execute_rollback (pr_id r) s2) =
      Some (r\<lparr>pr_status := P_FAILED, pr_failed := True, pr_executedAt := None\<rparr>)"
    unfolding execute_rollback_def using s1(1)
    by (subst find_update_releases) (auto simp: s2_def find_release_def)
  moreover have "find_release (pr_id r) (audit_milestone mi f t b ac z) = find_release (pr_id r) z" for mi f t b ac z
    by (rule find_release_cong) simp
  ultimately show ?thesis
    using assms(3) n c call s1 by (simp add: execute_def s2_def execute_rollback_def)
qed

text \<open>Without both approvals nothing is claimed and nothing is called.\<close>

lemma execute_needs_both: "\<not> hasDualApproval r \<Longrightarrow> execute w r m e a s = (Inl ConflictException, s)"
  by (simp add: execute_def throw_def)

section \<open>The claim protocol on a partial release\<close>

definition release_free :: "ident \<Rightarrow> db \<Rightarrow> bool" where
  "release_free rid s \<longleftrightarrow> (\<exists>r \<in> set (t_partials s). pr_id r = rid \<and> executable_release r)"

definition release_held :: "ident \<Rightarrow> db \<Rightarrow> bool" where
  "release_held rid s \<longleftrightarrow> (\<forall>r \<in> set (t_partials s). pr_id r = rid \<longrightarrow> \<not> executable_release r)"

definition release_finished :: "db \<Rightarrow> db \<Rightarrow> bool" where
  "release_finished s s' \<longleftrightarrow> (\<exists>w r m e a h. s' = execute_finish w r m e a h s)"

text \<open>Approvals, rejections and new proposals of other rows may run between the steps.\<close>

inductive release_interference :: "db \<Rightarrow> db \<Rightarrow> bool" where
  approval: "release_interference s (snd (update_releases
     (\<lambda>x. pr_id x = rid' \<and> pr_status x = P_PROPOSED \<and> approval_open role x) (approval_row w role u) s))"
| rejection: "release_interference s (snd (update_releases (\<lambda>x. pr_id x = rid' \<and> executable_release x)
     (\<lambda>x. x\<lparr>pr_status := P_REJECTED\<rparr>) s))"
| other: "t_partials s' = t_partials s \<Longrightarrow> release_interference s s'"

lemma release_held_map:
  assumes "release_held rid s" and "t_partials s' = update_where p f (t_partials s)"
    and "\<And>x. pr_id (f x) = pr_id x" and "\<And>x. p x \<Longrightarrow> executable_release (f x) \<Longrightarrow> executable_release x"
  shows "release_held rid s'"
  unfolding release_held_def
proof (intro ballI impI)
  fix x assume x: "x \<in> set (t_partials s')" "pr_id x = rid"
  obtain y where y: "y \<in> set (t_partials s)" "x = (if p y then f y else y)"
    using x(1) unfolding assms(2) set_update_where by blast
  have "pr_id y = rid" using x(2) y(2) assms(3) by (simp split: if_splits)
  with assms(1) y(1) have "\<not> executable_release y" by (simp add: release_held_def)
  with y(2) assms(4) show "\<not> executable_release x" by (auto split: if_splits)
qed

lemma release_claim_held: "release_held rid (snd (execute_claim w rid s))"
  unfolding release_held_def
proof (intro ballI impI)
  fix x assume x: "x \<in> set (t_partials (snd (execute_claim w rid s)))" "pr_id x = rid"
  obtain y where "y \<in> set (t_partials s)"
    "x = (if pr_id y = rid \<and> executable_release y then y\<lparr>pr_executedAt := Some (now w)\<rparr> else y)"
    using x(1) unfolding execute_claim_def update_releases_frame set_update_where by blast
  with x(2) show "\<not> executable_release x" by (auto simp: executable_release_def split: if_splits)
qed

lemma execute_finish_partials: "t_partials (execute_finish w r m e a h s) =
    update_where (\<lambda>x. pr_id x = pr_id r) (\<lambda>x. x\<lparr>pr_status := P_EXECUTED, pr_txHash := Some h\<rparr>) (t_partials s)"
  by (simp add: execute_record_def)

lemma release_finish_held: "release_held rid s \<Longrightarrow> release_finished s s' \<Longrightarrow> release_held rid s'"
  unfolding release_finished_def
  by (auto simp: executable_release_def intro!: release_held_map [OF _ execute_finish_partials])

lemma release_interference_held:
  assumes "release_interference s s'" and "release_held rid s"
  shows "release_held rid s'"
  using assms(1)
proof (cases rule: release_interference.cases)
  case (approval rid' role u w)
  show ?thesis unfolding approval(1)
    by (rule release_held_map [OF assms(2) update_releases_frame(5)])
       (auto simp: approval_row_def executable_release_def split: if_splits)
next
  case (rejection rid')
  show ?thesis unfolding rejection(1)
    by (rule release_held_map [OF assms(2) update_releases_frame(5)])
       (auto simp: executable_release_def)
next
  case other
  with assms(2) show ?thesis by (simp add: release_held_def)
qed

interpretation partial: claim_protocol "\<lambda>_. True" "release_free rid" "release_held rid"
  "\<lambda>s. snd (execute_claim w rid s)" "execute_rollback rid" release_finished release_interference
  for rid w
proof
  show "release_held rid s \<Longrightarrow> \<not> release_free rid s" for s
    by (auto simp: release_held_def release_free_def)
qed (auto intro: release_claim_held release_finish_held release_interference_held)

section \<open>Properties\<close>

text \<open>
  C6.  A split never pays out nothing or everything: both parts are positive and together exactly
  the escrow left on the milestone; a percentage is applied to what is left and rounded down.
\<close>
theorem split_is_proper:
  assumes "computeSplit held released terms = Inr (a, r)"
  shows "0 < a \<and> 0 < r \<and> a + r = held - released \<and>
    (case tm_releasePercent terms of None \<Rightarrow> True | Some p \<Rightarrow> a = (held - released) * p div 100)"
  using computeSplit_Inr [OF assms] by (simp split: option.splits)

theorem split_is_proper_witness:
  "computeSplit 1000 100 \<lparr>tm_releaseAmount = None, tm_releasePercent = Some 33,
     tm_remainderAction = RA_REFUND\<rparr> = Inr (297, 603) \<and> (297::int) + 603 = 1000 - 100"
  using split_is_proper [of 1000 100 "\<lparr>tm_releaseAmount = None, tm_releasePercent = Some 33,
     tm_remainderAction = RA_REFUND\<rparr>" 297 603]
  by (simp add: computeSplit_def big_div_def)

text \<open>
  C7.  Two near-simultaneous approvals, retries, rejections and further approvals cannot pay a
  partial release out twice: in every interleaving the contract call succeeds at most once.
\<close>
theorem partial_release_pays_once:
  assumes "claim_run (release_free rid) (\<lambda>s. snd (execute_claim w rid s)) (execute_rollback rid)
      release_finished release_interference (claim_init s) c"
  shows "paid c \<le> 1"
  using partial.at_most_once [OF assms] by simp

definition rel1 :: partial_release where
  "rel1 = \<lparr>pr_id = ''r1'', pr_milestoneId = ''m0'', pr_engagementId = ''e1'', pr_proposedById = Some ''uc'',
     pr_releaseAmount = 200, pr_remainderAmount = 300, pr_remainderAction = RA_REFUND, pr_status = P_PROPOSED,
     pr_companyApproverId = Some ''uc'', pr_companyApprovedAt = Some 1, pr_recruiterApproverId = Some ''ur'',
     pr_recruiterApprovedAt = Some 2, pr_txHash = None, pr_executedAt = None, pr_failed = False\<rparr>"

definition release_db :: db where
  "release_db = world_db\<lparr>t_partials := [rel1]\<rparr>"

lemma release_db_finds [simp]:
  "find_release ''r1'' release_db = Some rel1" "chainCalls release_db = []"
  "executable_release rel1" "hasDualApproval rel1" "pr_id rel1 = ''r1''"
  by (simp_all add: release_db_def rel1_def find_release_def executable_release_def hasDualApproval_def
      fixture_simps)

theorem partial_release_pays_once_witness:
  "\<exists>c. claim_run (release_free ''r1'') (\<lambda>s. snd (execute_claim env1 ''r1'' s)) (execute_rollback ''r1'')
      release_finished release_interference (claim_init release_db) c \<and> 0 < paid c \<and> paid c \<le> 1"
proof -
  let ?step = "claim_step (release_free ''r1'') (\<lambda>s. snd (execute_claim env1 ''r1'' s)) (execute_rollback ''r1'')
    release_finished release_interference"
  let ?run = "claim_run (release_free ''r1'') (\<lambda>s. snd (execute_claim env1 ''r1'' s)) (execute_rollback ''r1'')
    release_finished release_interference"
  let ?c0 = "claim_init release_db"
  let ?c1 = "?c0\<lparr>shared := snd (execute_claim env1 ''r1'' (shared ?c0)), phase_of := (phase_of ?c0)(0 := Claimed)\<rparr>"
  let ?c2 = "?c1\<lparr>phase_of := (phase_of ?c1)(0 := Paid), paid := Suc (paid ?c1)\<rparr>"
  have "release_free ''r1'' (shared ?c0)"
    by (simp add: claim_init_def release_free_def release_db_def rel1_def executable_release_def)
  then have "?step ?c0 ?c1" by (intro claim_step.win) (simp add: claim_init_def)
  moreover have "?step ?c1 ?c2" by (intro claim_step.pay) simp
  ultimately have run: "?run ?c0 ?c2" by (meson claim_run.refl claim_run.step)
  have "0 < paid ?c2" by (simp add: claim_init_def)
  with partial_release_pays_once [OF run] run show ?thesis by blast
qed

text \<open>
  Executing a release both sides approved: when the chain answers, the release is EXECUTED
  with the transaction hash and exactly one call is made for its amount and remainder action; when
  it does not, the release is FAILED, no longer executable, and milestone, engagement and refunds
  are untouched.
\<close>
lemma execute_outcome:
  assumes "find_release (pr_id r) s = Some r" and "executable_release r" and "hasDualApproval r"
  shows "case chain w (length (chainCalls s)) (execute_call r m e) of
     Inr h \<Rightarrow> \<exists>t r'. execute w r m e a s = (Inr r', t) \<and> find_release (pr_id r) t = Some r' \<and>
        pr_status r' = P_EXECUTED \<and> pr_txHash r' = Some h \<and>
        chainCalls t = chainCalls s @ [(execute_call r m e, True)]
   | Inl x \<Rightarrow> \<exists>t r'. execute w r m e a s = (Inl (StellarFailure x), t) \<and> find_release (pr_id r) t = Some r' \<and>
        pr_status r' = P_FAILED \<and> \<not> executable_release r' \<and> t_milestones t = t_milestones s \<and>
        t_engagements t = t_engagements s \<and> t_refunds t = t_refunds s"
proof (cases "chain w (length (chainCalls s)) (execute_call r m e)")
  case (Inl x)
  with execute_failed [OF assms Inl, of a] show ?thesis by (auto simp: executable_release_def)
next
  case (Inr h)
  with execute_paid [OF assms Inr, of a] show ?thesis by auto
qed

lemma execute_outcome_witness:
  "\<exists>t r'. execute env1 rel1 (mk_milestone ''m0'' 0 PLACEMENT 50 500 DISPUTED) eng1 ''ur'' release_db = (Inr r', t) \<and>
     pr_status r' = P_EXECUTED"
  using execute_outcome [of rel1 release_db env1 "mk_milestone ''m0'' 0 PLACEMENT 50 500 DISPUTED" eng1 "''ur''"]
  by (auto simp: env1_def)

end
