(* ===== verification/ProofVersions.thy ===== *)
theory ProofVersions
  imports Party
begin

text \<open>
  \<^verbatim>\<open>modules/milestones/proof-versions.service.ts\<close>: every proof submission is an immutable numbered
  version; only the latest one, while it awaits review, can be approved or rejected.  The unique
  index on (milestoneId, versionNumber) is the guard of \<open>create_version\<close>; \<open>race\<close> is what other
  requests write between reading the latest version and creating the next one.
\<close>

record proof_input =
  pi_proofUrl :: "string option"
  pi_content :: "string option"
  pi_proofHash :: "string option"
  pi_submittedById :: "ident option"

definition versions_of :: "ident \<Rightarrow> db \<Rightarrow> proof_version list" where
  "versions_of mid s = filter (\<lambda>v. v_milestoneId v = mid) (t_proofs s)"

definition latest :: "ident \<Rightarrow> db \<Rightarrow> proof_version option" where
  "latest mid s = latest_by v_number (versions_of mid s)"

definition history :: "ident \<Rightarrow> db \<Rightarrow> proof_version list" where
  "history mid s = rev (sort_key v_number (versions_of mid s))"

definition update_versions ::
  "(proof_version \<Rightarrow> bool) \<Rightarrow> (proof_version \<Rightarrow> proof_version) \<Rightarrow> db \<Rightarrow> nat \<times> db" where
  "update_versions p f s = (count_where p (t_proofs s), s\<lparr>t_proofs := update_where p f (t_proofs s)\<rparr>)"

definition or_null :: "string option \<Rightarrow> string option" where
  "or_null x = (if truthy x then x else None)"

definition create_version ::
  "env \<Rightarrow> ident \<Rightarrow> nat \<Rightarrow> proof_input \<Rightarrow> db \<Rightarrow> (db, proof_version) outcome" where
  "create_version w mid n inp s =
     (if \<exists>v \<in> set (t_proofs s). v_milestoneId v = mid \<and> v_number v = n then throw UniqueViolation s
      else let (vid, s1) = fresh_id w s;
               v = \<lparr>v_id = vid, v_milestoneId = mid, v_number = n, v_proofUrl = pi_proofUrl inp,
                    v_content = pi_content inp, v_proofHash = or_null (pi_proofHash inp),
                    v_submittedById = pi_submittedById inp, v_status = V_SUBMITTED,
                    v_reviewedById = None, v_reviewedAt = None, v_submittedAt = now w,
                    v_reminder50SentAt = None, v_reminder90SentAt = None, v_slaExpiredAt = None\<rparr>
           in return v (s1\<lparr>t_proofs := t_proofs s1 @ [v]\<rparr>))"

definition next_number :: "proof_version option \<Rightarrow> nat" where
  "next_number v = (case v of None \<Rightarrow> 0 | Some x \<Rightarrow> v_number x) + 1"

definition attempt_version ::
  "env \<Rightarrow> (db \<Rightarrow> db) \<Rightarrow> ident \<Rightarrow> proof_input \<Rightarrow> db \<Rightarrow> (db, proof_version) outcome" where
  "attempt_version w race mid inp s =
     (let l = latest mid s
      in case l of
           Some v \<Rightarrow>
             if v_status v = V_SUBMITTED
             then (if truthy (pi_proofHash inp) \<and> \<not> truthy (v_proofHash v)
                   then return (v\<lparr>v_proofHash := pi_proofHash inp\<rparr>)
                     (snd (update_versions (\<lambda>x. v_id x = v_id v) (\<lambda>x. x\<lparr>v_proofHash := pi_proofHash inp\<rparr>) s))
                   else return v s)
             else create_version w mid (next_number l) inp (race s)
         | None \<Rightarrow> create_version w mid (next_number l) inp (race s))"

definition recordVersion ::
  "env \<Rightarrow> (db \<Rightarrow> db) \<Rightarrow> (db \<Rightarrow> db) \<Rightarrow> ident \<Rightarrow> proof_input \<Rightarrow> db \<Rightarrow> (db, proof_version) outcome" where
  "recordVersion w race race2 mid inp s = (case attempt_version w race mid inp s of
     (Inl UniqueViolation, s1) \<Rightarrow> attempt_version w race2 mid inp s1
   | r \<Rightarrow> r)"

text \<open>\<open>assertReviewable\<close> returns nothing for a milestone without versions.\<close>

definition assertReviewable :: "ident \<Rightarrow> nat option \<Rightarrow> db \<Rightarrow> exn + proof_version option" where
  "assertReviewable mid n s = (case latest mid s of
     None \<Rightarrow> if n \<noteq> None then Inl ConflictException else Inr None
   | Some v \<Rightarrow>
       if n \<noteq> None \<and> n \<noteq> Some (v_number v) then Inl ConflictException
       else if v_status v \<noteq> V_SUBMITTED then Inl ConflictException
       else Inr (Some v))"

definition markApproved :: "env \<Rightarrow> ident \<Rightarrow> ident option \<Rightarrow> db \<Rightarrow> proof_version option \<times> db" where
  "markApproved w mid by_id s = (case latest mid s of
     None \<Rightarrow> (None, s)
   | Some v \<Rightarrow>
       if v_status v \<noteq> V_SUBMITTED then (None, s)
       else let f = (\<lambda>x. x\<lparr>v_status := V_APPROVED, v_reviewedById := by_id, v_reviewedAt := Some (now w)\<rparr>)
            in (Some (f v), snd (update_versions (\<lambda>x. v_id x = v_id v) f s)))"

section \<open>Submitting and rejecting\<close>

definition supersede :: "env \<Rightarrow> ident \<Rightarrow> db \<Rightarrow> db" where
  "supersede w mid s = snd (update_versions (\<lambda>v. v_milestoneId v = mid \<and> v_status v = V_SUBMITTED)
     (\<lambda>v. v\<lparr>v_status := V_REJECTED, v_reviewedAt := Some (now w)\<rparr>) s)"

definition submitProof ::
  "env \<Rightarrow> (db \<Rightarrow> db) \<Rightarrow> (db \<Rightarrow> db) \<Rightarrow> ident \<Rightarrow> nat \<Rightarrow> party_user \<Rightarrow> proof_input \<Rightarrow> db \<Rightarrow> (db, proof_version) outcome" where
  "submitProof w race race2 eid i u inp s = (case load_milestone eid i s of
     Inl x \<Rightarrow> throw x s
   | Inr (m, e) \<Rightarrow> (case requirePartyRole e u [PR_RECRUITER] of
       Inl x \<Rightarrow> throw x s
     | Inr _ \<Rightarrow>
         if \<not> truthy (pi_proofUrl inp) \<and> \<not> truthy (pi_content inp) \<and> \<not> truthy (pi_proofHash inp)
         then throw BadRequestException s
         else if m_status m \<noteq> PENDING then throw UnprocessableEntityException s
         else and_then (recordVersion w race race2 (m_id m) (inp\<lparr>pi_submittedById := pu_id u\<rparr>)
                          (supersede w (m_id m) s))
           (\<lambda>v s1.
              let s2 = update_milestone (m_id m)
                    (\<lambda>x. let y = x\<lparr>m_status := PROOF_SUBMITTED\<rparr>
                         in if truthy (pi_proofHash inp) then y\<lparr>m_proofHash := pi_proofHash inp\<rparr> else y) s1
              in return v (notify (ByAddress (e_companyAddress e)) N_PROOF_SUBMITTED s2))))"

definition rejectProof ::
  "env \<Rightarrow> ident \<Rightarrow> nat \<Rightarrow> party_user \<Rightarrow> nat option \<Rightarrow> db \<Rightarrow> (db, proof_version) outcome" where
  "rejectProof w eid i u n s = (case load_milestone eid i s of
     Inl x \<Rightarrow> throw x s
   | Inr (m, e) \<Rightarrow> (case requirePartyRole e u [PR_COMPANY] of
       Inl x \<Rightarrow> throw x s
     | Inr _ \<Rightarrow>
         if m_status m \<noteq> PROOF_SUBMITTED then throw UnprocessableEntityException s
         else (case assertReviewable (m_id m) n s of
           Inl x \<Rightarrow> throw x s
         | Inr None \<Rightarrow> throw UnprocessableEntityException s
         | Inr (Some v) \<Rightarrow>
             (let (k, s1) = update_versions (\<lambda>x. v_id x = v_id v \<and> v_status x = V_SUBMITTED)
                    (\<lambda>x. x\<lparr>v_status := V_REJECTED, v_reviewedById := pu_id u, v_reviewedAt := Some (now w)\<rparr>) s
              in if k = 0 then throw ConflictException s1
                 else let s2 = update_milestone (m_id m) (\<lambda>x. x\<lparr>m_status := PENDING\<rparr>) s1;
                          s3 = s2\<lparr>t_approvals := filter (\<lambda>(mid, _). mid \<noteq> m_id m) (t_approvals s2)\<rparr>
                      in return (v\<lparr>v_status := V_REJECTED\<rparr>)
                           (notify (ByAddress (e_recruiterAddress e)) PROOF_REJECTED s3)))))"

section \<open>The invariant of the version history\<close>

text \<open>
  The versions of a milestone are numbered 1 to n without gaps or repetitions, and only the last
  one can be awaiting review.
\<close>

definition numbered :: "proof_version list \<Rightarrow> bool" where
  "numbered vs \<longleftrightarrow> distinct (map v_number vs) \<and> set (map v_number vs) = {1..length vs} \<and>
     (\<forall>v \<in> set vs. v_status v = V_SUBMITTED \<longrightarrow> v_number v = length vs)"

definition versions_ok :: "ident \<Rightarrow> db \<Rightarrow> bool" where
  "versions_ok mid s \<longleftrightarrow> numbered (versions_of mid s)"

lemma numbered_Nil [simp]: "numbered []"
  by (simp add: numbered_def)

lemma numbered_map:
  assumes "numbered vs" and "\<And>v. v_number (f v) = v_number v"
    and "\<And>v. v_status (f v) = V_SUBMITTED \<Longrightarrow> v_status v = V_SUBMITTED"
  shows "numbered (map f vs)"
proof -
  have "map v_number (map f vs) = map v_number vs" using assms(2) by (induction vs) auto
  with assms show ?thesis by (auto simp: numbered_def simp del: map_map)
qed

lemma numbered_snoc:
  assumes "numbered vs" and "\<And>v. v \<in> set vs \<Longrightarrow> v_status v \<noteq> V_SUBMITTED" and "v_number v = length vs + 1"
  shows "numbered (vs @ [v])"
proof -
  have "{1..length vs + 1} = insert (length vs + 1) {1..length vs}" by auto
  with assms show ?thesis by (auto simp: numbered_def)
qed

lemma numbered_latest:
  assumes "numbered vs" and "latest_by v_number vs = Some v"
  shows "v \<in> set vs" and "v_number v = length vs"
proof -
  show v: "v \<in> set vs" using latest_by_Some [OF assms(2)] by simp
  have "length vs \<in> v_number ` set vs" using assms(1) v by (cases vs) (auto simp: numbered_def)
  then obtain y where "y \<in> set vs" "v_number y = length vs" by auto
  moreover have "v_number v \<le> length vs" using assms(1) v by (auto simp: numbered_def)
  ultimately show "v_number v = length vs" using latest_by_Some [OF assms(2)] by fastforce
qed

lemma numbered_le: "numbered vs \<Longrightarrow> v \<in> set vs \<Longrightarrow> v_number v \<le> length vs"
  by (auto simp: numbered_def)

lemma numbered_unique:
  "numbered vs \<Longrightarrow> x \<in> set vs \<Longrightarrow> y \<in> set vs \<Longrightarrow> v_number x = v_number y \<Longrightarrow> x = y"
  by (auto simp: numbered_def distinct_map inj_on_def)

lemma versions_of_update:
  assumes "\<And>v. v_milestoneId (f v) = v_milestoneId v"
  shows "versions_of mid (snd (update_versions p f s)) = map (\<lambda>v. if p v then f v else v) (versions_of mid s)"
  using assms by (simp add: versions_of_def update_versions_def update_where_def filter_map o_def if_distrib
      cong: if_cong)

lemma versions_of_cong: "t_proofs s = t_proofs s' \<Longrightarrow> versions_of mid s = versions_of mid s'"
  by (simp add: versions_of_def)

lemma versions_ok_cong: "t_proofs s = t_proofs s' \<Longrightarrow> versions_ok mid s = versions_ok mid s'"
  by (simp add: versions_ok_def versions_of_def)

lemma update_versions_ok:
  assumes "versions_ok mid s" and "\<And>v. v_milestoneId (f v) = v_milestoneId v"
    and "\<And>v. v_number (f v) = v_number v" and "\<And>v. v_status (f v) = V_SUBMITTED \<Longrightarrow> v_status v = V_SUBMITTED"
  shows "versions_ok mid (snd (update_versions p f s))"
  using assms by (auto simp: versions_ok_def versions_of_update intro!: numbered_map split: if_splits)

lemma create_version_fresh:
  assumes "versions_ok mid s" and "n = length (versions_of mid s) + 1"
  shows "\<exists>v s'. create_version w mid n inp s = (Inr v, s') \<and> v_number v = n \<and> v_status v = V_SUBMITTED \<and>
    v_milestoneId v = mid \<and> t_proofs s' = t_proofs s @ [v]"
proof -
  have "\<not> (\<exists>v \<in> set (t_proofs s). v_milestoneId v = mid \<and> v_number v = n)"
  proof
    assume "\<exists>v \<in> set (t_proofs s). v_milestoneId v = mid \<and> v_number v = n"
    then have "n \<in> set (map v_number (versions_of mid s))" by (auto simp: versions_of_def)
    with assms show False by (auto simp: versions_ok_def numbered_def)
  qed
  then show ?thesis by (simp add: create_version_def fresh_id_def return_def Let_def)
qed

lemma latest_None: "latest mid s = None \<longleftrightarrow> versions_of mid s = []"
  by (simp add: latest_def)

lemma next_number_length:
  assumes "versions_ok mid s"
  shows "next_number (latest mid s) = length (versions_of mid s) + 1"
proof (cases "latest mid s")
  case None
  with latest_None [of mid s] show ?thesis by (simp add: next_number_def)
next
  case (Some v)
  with assms numbered_latest(2) [of "versions_of mid s" v] show ?thesis
    by (simp add: next_number_def versions_ok_def latest_def)
qed

text \<open>Without a pending version the next one is appended; the unique index is never hit.\<close>

lemma attempt_appends:
  assumes "versions_ok mid s" and "\<And>v. latest mid s = Some v \<Longrightarrow> v_status v \<noteq> V_SUBMITTED"
  shows "\<exists>v s'. attempt_version w (\<lambda>s. s) mid inp s = (Inr v, s') \<and> v_number v = length (versions_of mid s) + 1 \<and>
    v_status v = V_SUBMITTED \<and> v_milestoneId v = mid \<and> t_proofs s' = t_proofs s @ [v] \<and> versions_ok mid s'"
proof -
  obtain v s' where c: "create_version w mid (next_number (latest mid s)) inp s = (Inr v, s')"
    "v_number v = length (versions_of mid s) + 1" "v_status v = V_SUBMITTED" "v_milestoneId v = mid"
    "t_proofs s' = t_proofs s @ [v]"
    using create_version_fresh [OF assms(1) next_number_length [OF assms(1)]] next_number_length [OF assms(1)]
    by metis
  have a: "attempt_version w (\<lambda>s. s) mid inp s = (Inr v, s')"
    using c(1) assms(2) by (auto simp: attempt_version_def Let_def split: option.splits)
  have "v_status x \<noteq> V_SUBMITTED" if x: "x \<in> set (versions_of mid s)" for x
  proof
    assume st: "v_status x = V_SUBMITTED"
    then have n: "v_number x = length (versions_of mid s)" using assms(1) x by (auto simp: versions_ok_def numbered_def)
    obtain l where l: "latest mid s = Some l" using x by (cases "latest mid s") (auto simp: latest_None)
    then have "l \<in> set (versions_of mid s)" "v_number l = length (versions_of mid s)"
      using assms(1) numbered_latest by (auto simp: versions_ok_def latest_def)
    then have "x = l" using numbered_unique assms(1) x n by (auto simp: versions_ok_def)
    with st assms(2) [OF l] show False by simp
  qed
  then have "versions_ok mid s'"
    using assms(1) c(2,4,5) by (auto simp: versions_ok_def versions_of_def intro!: numbered_snoc)
  with a c show ?thesis by blast
qed

lemma attempt_ok:
  assumes "versions_ok mid s"
  shows "\<exists>v s'. attempt_version w (\<lambda>s. s) mid inp s = (Inr v, s') \<and> v_status v = V_SUBMITTED \<and> versions_ok mid s'"
proof (cases "\<exists>v. latest mid s = Some v \<and> v_status v = V_SUBMITTED")
  case True
  then obtain v where v: "latest mid s = Some v" "v_status v = V_SUBMITTED" by blast
  have "versions_ok mid (snd (update_versions (\<lambda>x. v_id x = v_id v) (\<lambda>x. x\<lparr>v_proofHash := pi_proofHash inp\<rparr>) s))"
    using assms by (rule update_versions_ok) auto
  with v assms show ?thesis by (auto simp: attempt_version_def return_def Let_def)
next
  case False
  with attempt_appends [OF assms] show ?thesis by blast
qed

lemma recordVersion_ok:
  assumes "versions_ok mid s"
  shows "\<exists>v s'. recordVersion w (\<lambda>s. s) race2 mid inp s = (Inr v, s') \<and> v_status v = V_SUBMITTED \<and> versions_ok mid s'"
  using attempt_ok [OF assms, of w inp] by (auto simp: recordVersion_def)

text \<open>
  A racing submission that took the number makes the first attempt fail; the retry reads the
  rival's version, which awaits review, and returns it instead of creating a second one.
\<close>

lemma recordVersion_race:
  assumes "versions_ok mid s" and "\<And>v. latest mid s = Some v \<Longrightarrow> v_status v \<noteq> V_SUBMITTED"
    and "create_version w' mid (next_number (latest mid s)) inp' s = (Inr rival, s1)"
  shows "\<exists>v s'. recordVersion w (\<lambda>_. s1) race2 mid inp s = (Inr v, s') \<and> v_number v = v_number rival \<and>
    versions_ok mid s' \<and> length (versions_of mid s') = length (versions_of mid s) + 1"
proof -
  obtain r s1' where c: "create_version w' mid (next_number (latest mid s)) inp' s = (Inr r, s1')"
    "v_number r = length (versions_of mid s) + 1" "v_status r = V_SUBMITTED" "v_milestoneId r = mid"
    "t_proofs s1' = t_proofs s @ [r]"
    using create_version_fresh [OF assms(1) next_number_length [OF assms(1)]] next_number_length [OF assms(1)]
    by metis
  with assms(3) have r: "r = rival" "s1' = s1" by auto
  have same: "attempt_version w' (\<lambda>s. s) mid inp' s = (Inr rival, s1)"
    using assms(2,3) by (auto simp: attempt_version_def Let_def split: option.splits)
  have ok1: "versions_ok mid s1" using attempt_ok [OF assms(1), of w' inp'] same by auto
  have vs1: "versions_of mid s1 = versions_of mid s @ [rival]" using c r by (simp add: versions_of_def)
  have lat: "latest mid s1 = Some rival"
    unfolding latest_def
  proof (rule latest_by_unique)
    show "rival \<in> set (versions_of mid s1)" by (simp add: vs1)
    fix y assume y: "y \<in> set (versions_of mid s1)" "y \<noteq> rival"
    then have "y \<in> set (versions_of mid s)" by (simp add: vs1)
    with assms(1) c(2) r numbered_le [of "versions_of mid s" y] show "v_number y < v_number rival"
      by (simp add: versions_ok_def)
  qed
  have clash: "\<exists>v \<in> set (t_proofs s1). v_milestoneId v = mid \<and> v_number v = next_number (latest mid s)"
    using c r next_number_length [OF assms(1)] by auto
  have first: "attempt_version w (\<lambda>_. s1) mid inp s = (Inl UniqueViolation, s1)"
    using assms(2) clash
    by (auto simp: attempt_version_def create_version_def throw_def Let_def split: option.splits)
  let ?f = "\<lambda>x. x\<lparr>v_proofHash := pi_proofHash inp\<rparr>"
  have upd: "versions_ok mid (snd (update_versions (\<lambda>x. v_id x = v_id rival) ?f s1))"
    "length (versions_of mid (snd (update_versions (\<lambda>x. v_id x = v_id rival) ?f s1))) = length (versions_of mid s1)"
    using update_versions_ok [OF ok1, of ?f] by (auto simp: versions_of_update)
  show ?thesis
    using first lat c(3) r ok1 upd vs1 by (auto simp: recordVersion_def attempt_version_def return_def Let_def)
qed

section \<open>Every operation keeps the invariant\<close>

lemma supersede_ok: "versions_ok mid s \<Longrightarrow> versions_ok mid (supersede w mid' s)"
  unfolding supersede_def by (rule update_versions_ok) auto

lemma markApproved_ok: "versions_ok mid s \<Longrightarrow> versions_ok mid (snd (markApproved w mid' by_id s))"
  by (auto simp: markApproved_def Let_def split: option.splits intro!: update_versions_ok)

lemma rejectProof_ok: "versions_ok mid s \<Longrightarrow> versions_ok mid (snd (rejectProof w eid i u n s))"
proof -
  assume ok: "versions_ok mid s"
  have upd: "versions_ok mid (snd (update_versions p
      (\<lambda>x. x\<lparr>v_status := V_REJECTED, v_reviewedById := pu_id u, v_reviewedAt := Some (now w)\<rparr>) s))" for p
    using ok by (rule update_versions_ok) auto
  then have upd': "versions_ok mid s1" if "update_versions p
      (\<lambda>x. x\<lparr>v_status := V_REJECTED, v_reviewedById := pu_id u, v_reviewedAt := Some (now w)\<rparr>) s = (k, s1)" for p k s1
    using that by (metis snd_conv)
  show ?thesis
    using ok upd'
    by (auto simp: rejectProof_def versions_ok_def versions_of_def Let_def
        split: sum.splits option.splits prod.splits)
qed

lemma submitProof_versions:
  assumes "versions_ok (m_id m) s" and "load_milestone eid i s = Inr (m, e)"
    and "requirePartyRole e u [PR_RECRUITER] = Inr r" and "m_status m = PENDING"
    and "truthy (pi_proofUrl inp) \<or> truthy (pi_content inp) \<or> truthy (pi_proofHash inp)"
  shows "\<exists>v s'. submitProof w (\<lambda>s. s) race2 eid i u inp s = (Inr v, s') \<and> versions_ok (m_id m) s' \<and>
    v_number v = length (versions_of (m_id m) s) + 1 \<and> v_status v = V_SUBMITTED \<and>
    latest (m_id m) s' = Some v \<and> map_option m_status (find_milestone_by_id (m_id m) s') =
      map_option (\<lambda>_. PROOF_SUBMITTED) (find_milestone_by_id (m_id m) s)"
proof -
  let ?s0 = "supersede w (m_id m) s" and ?inp = "inp\<lparr>pi_submittedById := pu_id u\<rparr>"
  have len: "length (versions_of (m_id m) ?s0) = length (versions_of (m_id m) s)"
    by (simp add: supersede_def versions_of_update)
  have none: "v_status v \<noteq> V_SUBMITTED" if "latest (m_id m) ?s0 = Some v" for v
  proof -
    have "v \<in> set (versions_of (m_id m) ?s0)" using that latest_by_Some by (fastforce simp: latest_def)
    then obtain y where "y \<in> set (versions_of (m_id m) s)"
      "v = (if v_milestoneId y = m_id m \<and> v_status y = V_SUBMITTED
            then y\<lparr>v_status := V_REJECTED, v_reviewedAt := Some (now w)\<rparr> else y)"
      by (auto simp: supersede_def versions_of_update)
    then show ?thesis by (auto simp: versions_of_def)
  qed
  obtain v s1 where a: "attempt_version w (\<lambda>s. s) (m_id m) ?inp ?s0 = (Inr v, s1)"
    "v_number v = length (versions_of (m_id m) s) + 1" "v_status v = V_SUBMITTED" "v_milestoneId v = m_id m"
    "t_proofs s1 = t_proofs ?s0 @ [v]" "versions_ok (m_id m) s1"
    using attempt_appends [of "m_id m" ?s0 w ?inp] supersede_ok [OF assms(1)] none len by auto
  have ms: "t_milestones s1 = t_milestones s"
  proof -
    have "t_milestones s1 = t_milestones ?s0"
      using a(1) none by (auto simp: attempt_version_def create_version_def fresh_id_def Let_def throw_def return_def
          split: option.splits if_splits)
    then show ?thesis by (simp add: supersede_def update_versions_def)
  qed
  have rec: "recordVersion w (\<lambda>s. s) race2 (m_id m) ?inp ?s0 = (Inr v, s1)" using a(1) by (simp add: recordVersion_def)
  define s2 where "s2 = notify (ByAddress (e_companyAddress e)) N_PROOF_SUBMITTED (update_milestone (m_id m)
      (\<lambda>x. let y = x\<lparr>m_status := PROOF_SUBMITTED\<rparr>
           in if truthy (pi_proofHash inp) then y\<lparr>m_proofHash := pi_proofHash inp\<rparr> else y) s1)"
  have run: "submitProof w (\<lambda>s. s) race2 eid i u inp s = (Inr v, s2)"
    using assms(2-5) rec by (auto simp: submitProof_def s2_def return_def)
  have p2: "t_proofs s2 = t_proofs s1" by (simp add: s2_def)
  have ok: "versions_ok (m_id m) s2" using a(6) versions_ok_cong [OF p2] by simp
  have vs: "versions_of (m_id m) s1 = versions_of (m_id m) ?s0 @ [v]" using a(4,5) by (simp add: versions_of_def)
  have "latest (m_id m) s2 = Some v"
    unfolding latest_def versions_of_cong [OF p2]
  proof (rule latest_by_unique)
    show "v \<in> set (versions_of (m_id m) s1)" by (simp add: vs)
    fix y assume y: "y \<in> set (versions_of (m_id m) s1)" "y \<noteq> v"
    then have "y \<in> set (versions_of (m_id m) ?s0)" by (simp add: vs)
    then show "v_number y < v_number v"
      using supersede_ok [OF assms(1), of w "m_id m"] a(2) len numbered_le [of "versions_of (m_id m) ?s0" y]
      by (simp add: versions_ok_def)
  qed
  moreover have "map_option m_status (find_milestone_by_id (m_id m) s2) =
      map_option (\<lambda>_. PROOF_SUBMITTED) (find_milestone_by_id (m_id m) s)"
  proof -
    have "find_milestone_by_id (m_id m) s1 = find_milestone_by_id (m_id m) s"
      using ms by (simp add: find_milestone_by_id_def)
    then show ?thesis
      by (cases "find_milestone_by_id (m_id m) s") (auto simp: s2_def Let_def)
  qed
  ultimately show ?thesis using run ok a(2,3) by blast
qed

lemma submitProof_ok:
  assumes "versions_ok mid s" and "find_milestone eid i s = Some m" and "m_id m = mid"
  shows "versions_ok mid (snd (submitProof w (\<lambda>s. s) race2 eid i u inp s))"
proof (cases "\<exists>e r. load_milestone eid i s = Inr (m, e) \<and> requirePartyRole e u [PR_RECRUITER] = Inr r \<and>
    m_status m = PENDING \<and> (truthy (pi_proofUrl inp) \<or> truthy (pi_content inp) \<or> truthy (pi_proofHash inp))")
  case False
  then have "snd (submitProof w (\<lambda>s. s) race2 eid i u inp s) = s"
    using assms(2) by (auto simp: submitProof_def load_milestone_def split: sum.splits option.splits)
  with assms show ?thesis by simp
next
  case True
  then obtain e r where g: "load_milestone eid i s = Inr (m, e)" "requirePartyRole e u [PR_RECRUITER] = Inr r"
    "m_status m = PENDING" "truthy (pi_proofUrl inp) \<or> truthy (pi_content inp) \<or> truthy (pi_proofHash inp)" by blast
  show ?thesis
    using submitProof_versions [OF _ g, of w race2] assms by fastforce
qed

text \<open>The operations on the versions of one milestone, from the API and from the chain's events.\<close>

inductive proof_step :: "ident \<Rightarrow> db \<Rightarrow> db \<Rightarrow> bool" for mid where
  on_chain: "proof_step mid s (snd (recordVersion w (\<lambda>s. s) race2 mid inp s))"
| submission: "find_milestone eid i s = Some m \<Longrightarrow> m_id m = mid \<Longrightarrow>
     proof_step mid s (snd (submitProof w (\<lambda>s. s) race2 eid i u inp s))"
| rejection: "proof_step mid s (snd (rejectProof w eid i u n s))"
| approval: "proof_step mid s (snd (markApproved w mid' by_id s))"
| race: "(\<And>v. latest mid s = Some v \<Longrightarrow> v_status v \<noteq> V_SUBMITTED) \<Longrightarrow>
     create_version w' mid (next_number (latest mid s)) inp' s = (Inr rival, s1) \<Longrightarrow>
     proof_step mid s (snd (recordVersion w (\<lambda>_. s1) race2 mid inp s))"
| other: "t_proofs s' = t_proofs s \<Longrightarrow> proof_step mid s s'"

lemma proof_step_ok: "proof_step mid s s' \<Longrightarrow> versions_ok mid s \<Longrightarrow> versions_ok mid s'"
proof (induction rule: proof_step.induct)
  case (on_chain s w race2 inp)
  then show ?case using recordVersion_ok [of mid s w race2 inp] by fastforce
next
  case (race s w' inp' rival s1 w race2 inp)
  then show ?case using recordVersion_race [of mid s w' inp' rival s1 w race2 inp] by fastforce
next
  case (other s' s)
  then show ?case by (simp add: versions_ok_def versions_of_def)
qed (auto intro: submitProof_ok rejectProof_ok markApproved_ok)

section \<open>Properties\<close>

text \<open>
  C8.  After any sequence of submissions, resubmissions, rejections, approvals, on-chain events and
  races for a version number, the proof versions of a milestone are numbered 1 to n without gap or
  repetition, and only version n can be awaiting review.
\<close>
theorem version_history_is_numbered:
  assumes "(proof_step mid)\<^sup>*\<^sup>* s s'" and "versions_ok mid s"
  shows "distinct (map v_number (versions_of mid s')) \<and>
    set (map v_number (versions_of mid s')) = {1..length (versions_of mid s')} \<and>
    filter (\<lambda>v. v_status v = V_SUBMITTED \<and> v_number v \<noteq> length (versions_of mid s')) (versions_of mid s') = []"
proof -
  have "versions_ok mid s'"
    using assms by (induction rule: rtranclp_induct) (auto intro: proof_step_ok)
  then show ?thesis by (auto simp: versions_ok_def numbered_def filter_empty_conv)
qed

definition proof1 :: proof_input where
  "proof1 = \<lparr>pi_proofUrl = Some ''u'', pi_content = None, pi_proofHash = None, pi_submittedById = None\<rparr>"

theorem version_history_is_numbered_witness:
  "set (map v_number (versions_of ''m0'' (snd (recordVersion env1 (\<lambda>s. s) (\<lambda>s. s) ''m0'' proof1 world_db)))) = {1::nat}"
proof -
  let ?t = "snd (recordVersion env1 (\<lambda>s. s) (\<lambda>s. s) ''m0'' proof1 world_db)"
  have ok: "versions_ok ''m0'' world_db" by (simp add: versions_ok_def versions_of_def fixture_simps)
  have no: "latest ''m0'' world_db = None" by (simp add: latest_None versions_of_def fixture_simps)
  have "(proof_step ''m0'')\<^sup>*\<^sup>* world_db ?t" by (intro r_into_rtranclp proof_step.on_chain)
  from version_history_is_numbered [OF this ok]
  have "set (map v_number (versions_of ''m0'' ?t)) = {1..length (versions_of ''m0'' ?t)}" by simp
  moreover have "length (versions_of ''m0'' ?t) = 1"
    using attempt_appends [OF ok, of env1 proof1] no
    by (auto simp: recordVersion_def versions_of_def world_db_def empty_db_def)
  ultimately show ?thesis by simp
qed

text \<open>
  A recruiter's submission on a PENDING milestone always succeeds as version n+1, supersedes
  whatever was still pending, becomes the latest version and puts the milestone into
  PROOF\_SUBMITTED.
\<close>
lemma resubmission_is_next_version:
  assumes "versions_ok (m_id m) s" and "load_milestone eid i s = Inr (m, e)"
    and "requirePartyRole e u [PR_RECRUITER] = Inr r" and "m_status m = PENDING"
    and "truthy (pi_proofUrl inp) \<or> truthy (pi_content inp) \<or> truthy (pi_proofHash inp)"
  shows "\<exists>v s'. submitProof w (\<lambda>s. s) race2 eid i u inp s = (Inr v, s') \<and>
    v_number v = length (versions_of (m_id m) s) + 1 \<and> v_status v = V_SUBMITTED \<and> latest (m_id m) s' = Some v \<and>
    map_option m_status (find_milestone_by_id (m_id m) s') =
      map_option (\<lambda>_. PROOF_SUBMITTED) (find_milestone_by_id (m_id m) s)"
  using submitProof_versions [OF assms, of w race2] by blast

definition recruiter_user :: party_user where
  "recruiter_user = \<lparr>pu_id = Some ''ur'', pu_stellar = None, pu_role = Some RECRUITER\<rparr>"

lemma resubmission_is_next_version_witness:
  "\<exists>v s'. submitProof env1 (\<lambda>s. s) (\<lambda>s. s) ''e1'' 0 recruiter_user proof1
      (world_db\<lparr>t_milestones := [mk_milestone ''m0'' 0 PLACEMENT 50 500 PENDING]\<rparr>) = (Inr v, s') \<and> v_number v = 1"
  using resubmission_is_next_version [of "mk_milestone ''m0'' 0 PLACEMENT 50 500 PENDING"
      "world_db\<lparr>t_milestones := [mk_milestone ''m0'' 0 PLACEMENT 50 500 PENDING]\<rparr>" "''e1''" 0 eng1
      recruiter_user PR_RECRUITER proof1 env1 "\<lambda>s. s"]
  by (auto simp: versions_ok_def versions_of_def load_milestone_def find_milestone_def find_engagement_def
      requirePartyRole_def engagementPartyRole_def matches_def recruiter_user_def proof1_def fixture_simps)

end
