(* ===== verification/Ledger.thy ===== *)
theory Ledger
  imports Store
begin

text \<open>
  The retention timer of \<^verbatim>\<open>common/stellar/stellar.service.ts\<close>: ledgers close every five seconds, so a
  ledger distance is a wall-clock distance.
\<close>

definition LEDGERS_PER_DAY :: int where "LEDGERS_PER_DAY = 17280"

definition SECONDS_PER_LEDGER :: int where "SECONDS_PER_LEDGER = 5"

definition ledgerToDateTime :: "env \<Rightarrow> int \<Rightarrow> int \<Rightarrow> time" where
  "ledgerToDateTime w target current = now w + (target - current) * SECONDS_PER_LEDGER * 1000"

text \<open>\<open>Math.ceil\<close> of the quotient.\<close>

definition ledgersToDays :: "int \<Rightarrow> int" where
  "ledgersToDays n = - ((- n) div LEDGERS_PER_DAY)"

lemma ledgersToDays_bounds:
  "n \<le> ledgersToDays n * LEDGERS_PER_DAY" and "(ledgersToDays n - 1) * LEDGERS_PER_DAY < n"
proof -
  define q r where "q = - n div 17280" and "r = - n mod 17280"
  have "- n = q * 17280 + r" by (simp add: q_def r_def)
  moreover have "0 \<le> r" "r < 17280" by (simp_all add: r_def)
  ultimately have "n \<le> - q * 17280" "(- q - 1) * 17280 < n" by (simp_all add: algebra_simps)
  then show "n \<le> ledgersToDays n * LEDGERS_PER_DAY" and "(ledgersToDays n - 1) * LEDGERS_PER_DAY < n"
    by (simp_all add: ledgersToDays_def LEDGERS_PER_DAY_def q_def)
qed

text \<open>\<open>retentionDays\<close> days from the current ledger are that many calendar days from now.\<close>

lemma retention_days_exact:
  "ledgerToDateTime w (l + d * LEDGERS_PER_DAY) l = now w + d * day_ms"
  by (simp add: ledgerToDateTime_def LEDGERS_PER_DAY_def SECONDS_PER_LEDGER_def day_ms_def)

definition notify_before :: "time \<Rightarrow> time" where
  "notify_before t = t - 3 * day_ms"

end
