(* ===== verification/Decimal.thy ===== *)
theory Decimal
  imports Prelude
begin

text \<open>
  Decimal strings as JavaScript writes and reads them: \<open>String(n)\<close> of a number or BigInt, \<open>BigInt(s)\<close>
  of a string, \<open>padStart\<close>, \<open>padEnd\<close>, \<open>slice\<close> and \<open>split\<close>.  Reading inverts writing, and both agree
  with the positional value, which is what the amount conversions rest on.
\<close>

section \<open>Digits\<close>

definition digit :: "nat \<Rightarrow> char" where
  "digit n = char_of (48 + n)"

definition is_digit :: "char \<Rightarrow> bool" where
  "is_digit c \<longleftrightarrow> 48 \<le> (of_char c :: nat) \<and> (of_char c :: nat) \<le> 57"

definition digit_val :: "char \<Rightarrow> nat" where
  "digit_val c = of_char c - 48"

lemma of_char_digit: "n < 10 \<Longrightarrow> (of_char (digit n) :: nat) = 48 + n"
  by (simp add: digit_def)

lemma digit_val_digit [simp]: "n < 10 \<Longrightarrow> digit_val (digit n) = n"
  by (simp add: digit_val_def of_char_digit)

lemma is_digit_digit [simp]: "n < 10 \<Longrightarrow> is_digit (digit n)"
  by (simp add: is_digit_def of_char_digit)

lemma digit_val_less: "is_digit c \<Longrightarrow> digit_val c < 10"
  by (auto simp: is_digit_def digit_val_def)

lemma digit_of_val: "is_digit c \<Longrightarrow> digit (digit_val c) = c"
  by (simp add: is_digit_def digit_val_def digit_def)

lemma digit_0 [simp]: "digit 0 = CHR ''0''"
  unfolding digit_def by code_simp

lemma digit_val_0 [simp]: "digit_val (CHR ''0'') = 0" and is_digit_0 [simp]: "is_digit (CHR ''0'')"
  by (simp_all add: digit_val_def is_digit_def)

section \<open>Value of a digit string\<close>

definition dec_val :: "string \<Rightarrow> nat" where
  "dec_val s = foldl (\<lambda>a c. 10 * a + digit_val c) 0 s"

lemma foldl_dec: "foldl (\<lambda>a c. 10 * a + digit_val c) a s = a * 10 ^ length s + foldl (\<lambda>a c. 10 * a + digit_val c) 0 s"
proof (induction s arbitrary: a)
  case (Cons c s)
  show ?case using Cons.IH [of "10 * a + digit_val c"] Cons.IH [of "digit_val c"] by (simp add: algebra_simps)
qed simp

lemma dec_val_Nil [simp]: "dec_val [] = 0"
  by (simp add: dec_val_def)

lemma dec_val_Cons [simp]: "dec_val (c # s) = digit_val c * 10 ^ length s + dec_val s"
  using foldl_dec [of "digit_val c" s] by (simp add: dec_val_def)

lemma dec_val_append [simp]: "dec_val (s @ t) = dec_val s * 10 ^ length t + dec_val t"
  using foldl_dec [of "dec_val s" t] by (simp add: dec_val_def)

lemma dec_val_zeros [simp]: "dec_val (replicate n (CHR ''0'')) = 0"
  by (induction n) simp_all

lemma dec_val_bound: "list_all is_digit s \<Longrightarrow> dec_val s < 10 ^ length s"
proof (induction s)
  case (Cons c s)
  then have v: "digit_val c \<le> 9" "dec_val s < 10 ^ length s" using digit_val_less [of c] by auto
  have "digit_val c * 10 ^ length s \<le> 9 * 10 ^ length s" using v(1) by (intro mult_le_mono1)
  with v(2) have "digit_val c * 10 ^ length s + dec_val s < 9 * 10 ^ length s + 10 ^ length s" by linarith
  then show ?case by simp
qed simp

section \<open>Writing and reading\<close>

fun show_nat :: "nat \<Rightarrow> string" where
  "show_nat n = (if n < 10 then [digit n] else show_nat (n div 10) @ [digit (n mod 10)])"

declare show_nat.simps [simp del]

lemma show_nat_digits [simp]: "list_all is_digit (show_nat n)"
  by (induction n rule: show_nat.induct) (subst show_nat.simps, auto)

lemma show_nat_nonempty [simp]: "show_nat n \<noteq> []"
  by (subst show_nat.simps) simp

lemma dec_val_show [simp]: "dec_val (show_nat n) = n"
proof (induction n rule: show_nat.induct)
  case (1 n)
  then show ?case by (subst show_nat.simps) auto
qed

lemma length_show_nat: "n < 10 ^ k \<Longrightarrow> 0 < k \<Longrightarrow> length (show_nat n) \<le> k"
proof (induction n arbitrary: k rule: show_nat.induct)
  case (1 n)
  show ?case
  proof (cases "n < 10")
    case True
    with 1(3) show ?thesis by (subst show_nat.simps) simp
  next
    case False
    then obtain j where k: "k = Suc j" "0 < j" using 1(2,3) by (cases k; cases "k = 1") auto
    have "n div 10 < 10 ^ j" using 1(2) k by (simp add: less_mult_imp_div_less mult.commute)
    from 1(1) [OF False this k(2)] False k show ?thesis by (subst show_nat.simps) simp
  qed
qed

text \<open>\<open>String(n)\<close> of a BigInt or an integer-valued number.\<close>

definition show_int :: "int \<Rightarrow> string" where
  "show_int n = (if n < 0 then CHR ''-'' # show_nat (nat (- n)) else show_nat (nat n))"

text \<open>
  \<open>BigInt(s)\<close>: the empty string is 0, an optional sign and digits are read, everything else is a
  SyntaxError (\<open>None\<close>).  Surrounding white space and the radix prefixes (0x, 0o, 0b) are not modelled.
\<close>

definition big_int :: "string \<Rightarrow> int option" where
  "big_int s = (case s of
     [] \<Rightarrow> Some 0
   | c # cs \<Rightarrow>
       if c = CHR ''-'' \<or> c = CHR ''+''
       then (if cs \<noteq> [] \<and> list_all is_digit cs
             then Some (if c = CHR ''-'' then - int (dec_val cs) else int (dec_val cs)) else None)
       else if list_all is_digit s then Some (int (dec_val s)) else None)"

lemma is_digit_not_sign: "is_digit c \<Longrightarrow> c \<noteq> CHR ''-'' \<and> c \<noteq> CHR ''+'' \<and> c \<noteq> CHR ''.''"
  by (auto simp: is_digit_def)

lemma big_int_digits: "list_all is_digit s \<Longrightarrow> big_int s = Some (int (dec_val s))"
  by (cases s) (auto simp: big_int_def dest: is_digit_not_sign)

lemma big_int_show [simp]: "big_int (show_int n) = Some n"
proof (cases "n < 0")
  case True
  then show ?thesis by (simp add: show_int_def big_int_def)
next
  case False
  then show ?thesis by (simp add: show_int_def big_int_digits)
qed

section \<open>Padding, slicing, splitting\<close>

definition padEnd :: "nat \<Rightarrow> char \<Rightarrow> string \<Rightarrow> string" where
  "padEnd n c s = s @ replicate (n - length s) c"

definition padStart :: "nat \<Rightarrow> char \<Rightarrow> string \<Rightarrow> string" where
  "padStart n c s = replicate (n - length s) c @ s"

lemma length_pad [simp]: "length (padEnd n c s) = max n (length s)" "length (padStart n c s) = max n (length s)"
  by (simp_all add: padEnd_def padStart_def)

lemma pad_digits [simp]:
  "list_all is_digit (padEnd n (CHR ''0'') s) = list_all is_digit s"
  "list_all is_digit (padStart n (CHR ''0'') s) = list_all is_digit s"
  by (auto simp: padEnd_def padStart_def list_all_iff)

lemma dec_val_padStart [simp]: "dec_val (padStart n (CHR ''0'') s) = dec_val s"
  by (simp add: padStart_def)

lemma dec_val_padEnd: "dec_val (padEnd n (CHR ''0'') s) = dec_val s * 10 ^ (n - length s)"
  by (simp add: padEnd_def)

text \<open>\<open>s.split(c)\<close>, never empty.\<close>

fun split_on :: "char \<Rightarrow> string \<Rightarrow> string list" where
  "split_on c [] = [[]]"
| "split_on c (x # xs) =
     (if x = c then [] # split_on c xs
      else (case split_on c xs of [] \<Rightarrow> [[x]] | y # ys \<Rightarrow> (x # y) # ys))"

lemma split_on_nonempty [simp]: "split_on c s \<noteq> []"
  by (induction s) (auto split: list.splits)

lemma split_on_none [simp]: "c \<notin> set s \<Longrightarrow> split_on c s = [s]"
  by (induction s) auto

lemma split_on_append [simp]: "c \<notin> set s \<Longrightarrow> split_on c (s @ c # t) = s # split_on c t"
  by (induction s) auto

end
