(* ===== verification/Milestones.thy ===== *)
theory Milestones
  imports Disputes ProofVersions Ledger Decimal
begin

text \<open>
  \<^verbatim>\<open>modules/milestones/milestones.service.ts\<close>: access checks, creation in bulk, approvals and payment,
  the proof / confirm / dispute / resolve flows, the bulk operations of administrators, the resets
  after a replacement, due dates, evidence, and the updates made for on-chain events.

  The constructor of the service does not inject the \<open>ProofVersionsService\<close> its methods call as
  \<open>this.proofVersions\<close>.  Whether it is there is the argument \<open>wired\<close>: with \<open>False\<close>, the wiring of the
  source, such a call is a TypeError.
\<close>

definition with_versions :: "bool \<Rightarrow> (db \<Rightarrow> (db, 'a) outcome) \<Rightarrow> db \<Rightarrow> (db, 'a) outcome" where
  "with_versions wired f s = (if wired then f s else throw TypeErrorExn s)"

lemma with_versions_simps [simp]:
  "with_versions True f s = f s" "with_versions False f s = throw TypeErrorExn s"
  by (simp_all add: with_versions_def)

definition lift :: "exn + 'a \<Rightarrow> db \<Rightarrow> (db, 'a) outcome" where
  "lift r s = (r, s)"

lemma lift_simps [simp]: "and_then (lift (Inl x) s) k = (Inl x, s)" "and_then (lift (Inr y) s) k = k y s"
  by (simp_all add: lift_def)

section \<open>Reading\<close>

definition findByEngagement :: "ident \<Rightarrow> db \<Rightarrow> milestone list" where
  "findByEngagement eid s = milestones_of eid s"

definition checkPartyAccess :: "engagement \<Rightarrow> actor \<Rightarrow> exn + unit" where
  "checkPartyAccess e u =
     (if ac_role u = ADMIN then Inr ()
      else if \<not> truthy (ac_stellar u) then Inl ForbiddenException
      else if the (ac_stellar u) \<in> {e_companyAddress e, e_recruiterAddress e, e_arbiterAddress e} then Inr ()
      else Inl ForbiddenException)"

definition findByEngagementForUser :: "ident \<Rightarrow> actor \<Rightarrow> db \<Rightarrow> exn + milestone list" where
  "findByEngagementForUser eid u s = (case find_engagement eid s of
     None \<Rightarrow> Inl NotFoundException
   | Some e \<Rightarrow> (case checkPartyAccess e u of Inl x \<Rightarrow> Inl x | Inr _ \<Rightarrow> Inr (milestones_of eid s)))"

definition findOne :: "ident \<Rightarrow> nat \<Rightarrow> db \<Rightarrow> exn + milestone" where
  "findOne eid i s = (case find_milestone eid i s of None \<Rightarrow> Inl NotFoundException | Some m \<Rightarrow> Inr m)"

definition getApprovalCount :: "ident \<Rightarrow> db \<Rightarrow> nat" where
  "getApprovalCount mid s = count_where (\<lambda>(x, _). x = mid) (t_approvals s)"

record milestone_detail =
  md_milestone :: milestone
  md_approvals :: nat
  md_versions :: "proof_version list"

definition detail :: "bool \<Rightarrow> milestone \<Rightarrow> db \<Rightarrow> exn + milestone_detail" where
  "detail wired m s =
     (if wired then Inr \<lparr>md_milestone = m, md_approvals = getApprovalCount (m_id m) s,
                       md_versions = history (m_id m) s\<rparr>
      else Inl TypeErrorExn)"

definition findOneForUser' :: "bool \<Rightarrow> ident \<Rightarrow> nat \<Rightarrow> actor \<Rightarrow> db \<Rightarrow> exn + milestone_detail" where
  "findOneForUser' wired eid i u s = (case load_milestone eid i s of
     Inl x \<Rightarrow> Inl x
   | Inr (m, e) \<Rightarrow> (case checkPartyAccess e u of Inl x \<Rightarrow> Inl x | Inr _ \<Rightarrow> detail wired m s))"

definition findById :: "bool \<Rightarrow> ident \<Rightarrow> actor \<Rightarrow> db \<Rightarrow> exn + milestone_detail" where
  "findById wired mid u s = (case find_milestone_by_id mid s of
     None \<Rightarrow> Inl NotFoundException
   | Some m \<Rightarrow> (case find_engagement (m_engagementId m) s of
       None \<Rightarrow> Inl TypeErrorExn
     | Some e \<Rightarrow> (case checkPartyAccess e u of Inl x \<Rightarrow> Inl x | Inr _ \<Rightarrow> detail wired m s)))"

record retention_timer =
  rt_daysRemaining :: int
  rt_ledgersRemaining :: int
  rt_unlockable :: bool
  rt_estimatedUnlockAt :: "time option"

definition getRetentionTimer :: "env \<Rightarrow> ident \<Rightarrow> nat \<Rightarrow> db \<Rightarrow> exn + retention_timer" where
  "getRetentionTimer w eid i s = (case findOne eid i s of
     Inl x \<Rightarrow> Inl x
   | Inr m \<Rightarrow>
       if unlockable w eid i
       then Inr \<lparr>rt_daysRemaining = 0, rt_ledgersRemaining = 0, rt_unlockable = True, rt_estimatedUnlockAt = None\<rparr>
       else let n = untilUnlock w eid i
            in Inr \<lparr>rt_daysRemaining = ledgersToDays n, rt_ledgersRemaining = n, rt_unlockable = False,
                    rt_estimatedUnlockAt = m_unlockEstimatedAt m\<rparr>)"

section \<open>Creating in bulk\<close>

record bulk_item =
  bi_kind :: milestone_kind
  bi_paymentPercent :: int
  bi_retentionDays :: "int option"

definition nonzero :: "int option \<Rightarrow> bool" where
  "nonzero d = (case d of None \<Rightarrow> False | Some x \<Rightarrow> x \<noteq> 0)"

definition bulk_row :: "env \<Rightarrow> ident \<Rightarrow> int \<Rightarrow> bulk_item \<Rightarrow> nat \<Rightarrow> ident \<Rightarrow> milestone" where
  "bulk_row w eid cur it i mid =
     (let retention = (bi_kind it = RETENTION);
          valid = (if retention \<and> nonzero (bi_retentionDays it)
                   then Some (cur + the (bi_retentionDays it) * 17280) else None);
          est = (if nonzero valid then Some (ledgerToDateTime w (the valid) cur) else None)
      in \<lparr>m_id = mid, m_engagementId = eid, m_index = i, m_kind = bi_kind it,
          m_paymentPercent = bi_paymentPercent it, m_amount = None,
          m_retentionDays = (if retention then bi_retentionDays it else None),
          m_validAfterLedger = valid, m_unlockEstimatedAt = est, m_proofHash = None, m_disputeReason = None,
          m_approachingSent = False, m_placementDueAt = None, m_reminderSent = False,
          m_status = (if retention then LOCKED else PENDING),
          m_paymentReleased = None, m_confirmedAt = None\<rparr>)"

text \<open>The unique index on (engagementId, milestoneIndex).\<close>

definition create_milestone :: "milestone \<Rightarrow> db \<Rightarrow> (db, milestone) outcome" where
  "create_milestone m s =
     (if find_milestone (m_engagementId m) (m_index m) s \<noteq> None then throw UniqueViolation s
      else return m (s\<lparr>t_milestones := t_milestones s @ [m]\<rparr>))"

fun create_rows :: "env \<Rightarrow> ident \<Rightarrow> int \<Rightarrow> bulk_item list \<Rightarrow> nat \<Rightarrow> db \<Rightarrow> (db, milestone list) outcome" where
  "create_rows w eid cur [] i s = return [] s"
| "create_rows w eid cur (it # its) i s =
     (let (mid, s1) = fresh_id w s
      in and_then (create_milestone (bulk_row w eid cur it i mid) s1)
           (\<lambda>m s2. and_then (create_rows w eid cur its (Suc i) s2) (\<lambda>ms s3. return (m # ms) s3)))"

definition schedule_row :: "ident \<Rightarrow> ident \<Rightarrow> nat \<Rightarrow> int \<Rightarrow> time \<Rightarrow> schedule" where
  "schedule_row sid eid i ledger unlockAt =
     \<lparr>s_id = sid, s_engagementId = eid, s_index = i, s_validAfterLedger = ledger, s_unlockAt = unlockAt,
      s_notifyAt = notify_before unlockAt, s_unlocked = False, s_notified = False\<rparr>"

fun create_schedules :: "env \<Rightarrow> milestone list \<Rightarrow> db \<Rightarrow> (db, unit) outcome" where
  "create_schedules w [] s = return () s"
| "create_schedules w (m # ms) s =
     (if m_kind m = RETENTION \<and> m_unlockEstimatedAt m \<noteq> None \<and> nonzero (m_validAfterLedger m)
      then (if \<exists>x \<in> set (t_schedules s). s_engagementId x = m_engagementId m \<and> s_index x = m_index m
            then throw UniqueViolation s
            else let (sid, s1) = fresh_id w s
                 in create_schedules w ms (s1\<lparr>t_schedules := t_schedules s1 @
                      [schedule_row sid (m_engagementId m) (m_index m) (the (m_validAfterLedger m))
                         (the (m_unlockEstimatedAt m))]\<rparr>))
      else create_schedules w ms s)"

definition start_index :: "ident \<Rightarrow> db \<Rightarrow> nat" where
  "start_index eid s = (case latest_by m_index (milestones_of eid s) of None \<Rightarrow> 0 | Some m \<Rightarrow> m_index m + 1)"

definition bulkCreate :: "env \<Rightarrow> ident \<Rightarrow> bulk_item list \<Rightarrow> actor \<Rightarrow> db \<Rightarrow> (db, milestone list) outcome" where
  "bulkCreate w eid items u s = (case find_engagement eid s of
     None \<Rightarrow> throw NotFoundException s
   | Some e \<Rightarrow>
       if ac_role u \<noteq> ADMIN \<and> ac_stellar u \<noteq> Some (e_companyAddress e) then throw ForbiddenException s
       else (case latestLedger w of
         Inl x \<Rightarrow> throw (StellarFailure x) s
       | Inr cur \<Rightarrow>
           transaction (\<lambda>s. and_then (create_rows w eid cur items (start_index eid s) s)
             (\<lambda>ms s1. and_then (create_schedules w ms s1) (\<lambda>_ s2. return ms s2))) s))"

section \<open>State updates, also called for on-chain events\<close>

text \<open>\<open>milestone.update\<close> on (engagementId, milestoneIndex): RecordNotFound when there is none.\<close>

definition update_at :: "ident \<Rightarrow> nat \<Rightarrow> (milestone \<Rightarrow> milestone) \<Rightarrow> db \<Rightarrow> (db, milestone) outcome" where
  "update_at eid i f s = (case find_milestone eid i s of
     None \<Rightarrow> throw RecordNotFound s
   | Some m \<Rightarrow> return (f m) (update_milestone (m_id m) f s))"

definition markUnlocked :: "ident \<Rightarrow> nat \<Rightarrow> db \<Rightarrow> (db, milestone) outcome" where
  "markUnlocked eid i s = update_at eid i (\<lambda>m. m\<lparr>m_status := PENDING\<rparr>) s"

definition event_proof :: "string \<Rightarrow> proof_input" where
  "event_proof h = \<lparr>pi_proofUrl = None, pi_content = None, pi_proofHash = Some h, pi_submittedById = None\<rparr>"

definition markProofSubmitted :: "bool \<Rightarrow> env \<Rightarrow> ident \<Rightarrow> nat \<Rightarrow> string \<Rightarrow> db \<Rightarrow> (db, milestone) outcome" where
  "markProofSubmitted wired w eid i h s =
     and_then (update_at eid i (\<lambda>m. m\<lparr>m_proofHash := Some h, m_status := PROOF_SUBMITTED\<rparr>) s)
       (\<lambda>m s1. and_then (with_versions wired (recordVersion w (\<lambda>s. s) (\<lambda>s. s) (m_id m) (event_proof h)) s1)
          (\<lambda>_ s2. return m s2))"

definition markConfirmed :: "env \<Rightarrow> ident \<Rightarrow> nat \<Rightarrow> stroops \<Rightarrow> db \<Rightarrow> (db, milestone) outcome" where
  "markConfirmed w eid i paid s = update_at eid i
     (\<lambda>m. m\<lparr>m_status := CONFIRMED, m_paymentReleased := Some paid, m_confirmedAt := Some (now w)\<rparr>) s"

definition markDisputed :: "dispute_config \<Rightarrow> env \<Rightarrow> ident \<Rightarrow> nat \<Rightarrow> db \<Rightarrow> (db, milestone) outcome" where
  "markDisputed cfg w eid i s =
     and_then (update_at eid i (\<lambda>m. m\<lparr>m_status := DISPUTED\<rparr>) s)
       (\<lambda>m s1. and_then (openForMilestone cfg w (m_id m) None None s1) (\<lambda>_ s2. return m s2))"

definition markResolved ::
  "env \<Rightarrow> ident \<Rightarrow> nat \<Rightarrow> bool \<Rightarrow> stroops option \<Rightarrow> db \<Rightarrow> (db, milestone) outcome" where
  "markResolved w eid i approved paid s =
     and_then (update_at eid i (\<lambda>m.
         let y = m\<lparr>m_status := (if approved then RESOLVED else PENDING)\<rparr>
         in if approved \<and> nonzero paid then y\<lparr>m_paymentReleased := paid, m_confirmedAt := Some (now w)\<rparr> else y) s)
       (\<lambda>m s1. return m (snd (markSettledOnChain w (m_id m) s1)))"

definition resolveDispute :: "env \<Rightarrow> ident \<Rightarrow> nat \<Rightarrow> bool \<Rightarrow> db \<Rightarrow> (db, milestone) outcome" where
  "resolveDispute w eid i approved s = markResolved w eid i approved None s"

definition amount_or_0 :: "milestone \<Rightarrow> stroops" where
  "amount_or_0 m = (case m_amount m of None \<Rightarrow> 0 | Some a \<Rightarrow> a)"

definition confirmMilestone :: "env \<Rightarrow> ident \<Rightarrow> nat \<Rightarrow> db \<Rightarrow> (db, milestone) outcome" where
  "confirmMilestone w eid i s = and_then (lift (findOne eid i s) s)
     (\<lambda>m s1. markConfirmed w eid i (amount_or_0 m) s1)"

section \<open>Retention\<close>

definition findActiveRetentionMilestones :: "db \<Rightarrow> milestone list" where
  "findActiveRetentionMilestones s = filter (\<lambda>m. m_kind m = RETENTION \<and> m_status m = LOCKED) (t_milestones s)"

definition update_schedules :: "ident \<Rightarrow> nat \<Rightarrow> (schedule \<Rightarrow> schedule) \<Rightarrow> db \<Rightarrow> db" where
  "update_schedules eid i f s =
     s\<lparr>t_schedules := update_where (\<lambda>x. s_engagementId x = eid \<and> s_index x = i) f (t_schedules s)\<rparr>"

definition unlockRetentionOnChain :: "env \<Rightarrow> ident \<Rightarrow> db \<Rightarrow> (db, unit) outcome" where
  "unlockRetentionOnChain w mid s = (case find_milestone_by_id mid s of
     None \<Rightarrow> return () s
   | Some m \<Rightarrow> and_then (call_chain w (UnlockMilestone (m_engagementId m) (m_index m)) s)
       (\<lambda>_ s1. return () (update_schedules (m_engagementId m) (m_index m) (\<lambda>x. x\<lparr>s_unlocked := True\<rparr>)
          (update_milestone mid (\<lambda>x. x\<lparr>m_status := PENDING\<rparr>) s1))))"

definition sendRetentionWarningNotification :: "ident \<Rightarrow> db \<Rightarrow> db" where
  "sendRetentionWarningNotification mid s = (case find_milestone_by_id mid s of
     None \<Rightarrow> s
   | Some m \<Rightarrow> update_schedules (m_engagementId m) (m_index m) (\<lambda>x. x\<lparr>s_notified := True\<rparr>)
       (update_milestone mid (\<lambda>x. x\<lparr>m_approachingSent := True\<rparr>) s))"

text \<open>
  The hourly job of \<^verbatim>\<open>retention-scheduler.service.ts\<close>: an error stops the run; it is caught and logged.
\<close>

fun retention_loop :: "env \<Rightarrow> int \<Rightarrow> milestone list \<Rightarrow> db \<Rightarrow> (db, unit) outcome" where
  "retention_loop w cur [] s = return () s"
| "retention_loop w cur (m # ms) s = (case m_validAfterLedger m of
     None \<Rightarrow> retention_loop w cur ms s
   | Some l \<Rightarrow>
       if l \<le> cur
       then and_then (unlockRetentionOnChain w (m_id m) s) (\<lambda>_ s1. retention_loop w cur ms s1)
       else if l - cur \<le> 51840 \<and> \<not> m_approachingSent m
       then retention_loop w cur ms (sendRetentionWarningNotification (m_id m) s)
       else retention_loop w cur ms s)"

definition handleRetentionMilestones :: "env \<Rightarrow> bool \<Rightarrow> bool \<Rightarrow> db \<Rightarrow> db" where
  "handleRetentionMilestones w locked isRunning s =
     (if \<not> locked \<or> isRunning then s
      else case latestLedger w of
        Inl _ \<Rightarrow> s
      | Inr cur \<Rightarrow> snd (retention_loop w cur (findActiveRetentionMilestones s) s))"

end
