(* ===== verification/MilestoneFlows.thy ===== *)
theory MilestoneFlows
  imports Milestones
begin

text \<open>
  The second half of \<^verbatim>\<open>modules/milestones/milestones.service.ts\<close>: the flows that move money or open
  disputes, the operations of administrators, the reset after a replacement, due dates and evidence.
\<close>

section \<open>Approval and confirmation\<close>

datatype approval_result =
    Confirmed milestone nat int
  | AwaitingApprovals nat int

definition required_approvals :: "engagement \<Rightarrow> int" where
  "required_approvals e = (if e_requiredApprovals e = 0 then 1 else e_requiredApprovals e)"

definition markApproved_outcome :: "env \<Rightarrow> ident \<Rightarrow> ident option \<Rightarrow> db \<Rightarrow> (db, proof_version option) outcome" where
  "markApproved_outcome w mid by_id s = (let (v, s1) = markApproved w mid by_id s in return v s1)"

definition approveMilestone ::
  "bool \<Rightarrow> env \<Rightarrow> ident \<Rightarrow> nat \<Rightarrow> ident \<Rightarrow> nat option \<Rightarrow> db \<Rightarrow> (db, approval_result) outcome" where
  "approveMilestone wired w eid i uid version s =
     and_then (lift (findOne eid i s) s) (\<lambda>m s.
       if m_status m \<noteq> PROOF_SUBMITTED then throw UnprocessableEntityException s
       else and_then (with_versions wired (\<lambda>s. lift (assertReviewable (m_id m) version s) s) s) (\<lambda>_ s.
         case find_engagement eid s of
           None \<Rightarrow> throw NotFoundException s
         | Some e \<Rightarrow>
             (let required = required_approvals e
              in if List.member (t_approvals s) (m_id m, uid) then throw BadRequestException s
                 else let s1 = s\<lparr>t_approvals := t_approvals s @ [(m_id m, uid)]\<rparr>;
                          n = getApprovalCount (m_id m) s1
                      in if int n < required then return (AwaitingApprovals n required) s1
                         else and_then (call_chain w (ReleaseMilestone eid i) s1) (\<lambda>_ s2.
                           and_then (markConfirmed w eid i (amount_or_0 m) s2) (\<lambda>m' s3.
                           and_then (with_versions wired (markApproved_outcome w (m_id m) (Some uid)) s3) (\<lambda>_ s4.
                           and_then (if truthy (e_recruiterId e)
                                     then create_notification (the (e_recruiterId e)) PAYMENT_RELEASED s4
                                     else return () s4)
                             (\<lambda>_ s5. return (Confirmed m' n required) s5)))))))"

definition or_empty :: "ident option \<Rightarrow> ident" where
  "or_empty x = (case x of None \<Rightarrow> [] | Some y \<Rightarrow> y)"

definition submitProofFlow :: "bool \<Rightarrow> env \<Rightarrow> ident \<Rightarrow> nat \<Rightarrow> string \<Rightarrow> db \<Rightarrow> (db, milestone) outcome" where
  "submitProofFlow wired w eid i h s =
     and_then (lift (findOne eid i s) s) (\<lambda>m s.
       if m_status m \<noteq> PENDING then throw UnprocessableEntityException s
       else and_then (markProofSubmitted wired w eid i h s) (\<lambda>m' s1.
         case find_engagement eid s1 of
           None \<Rightarrow> return m' s1
         | Some e \<Rightarrow> and_then (create_notification (or_empty (e_companyId e)) N_PROOF_SUBMITTED s1)
                       (\<lambda>_ s2. return m' s2)))"

definition confirmFlow ::
  "bool \<Rightarrow> env \<Rightarrow> ident \<Rightarrow> nat \<Rightarrow> ident option \<Rightarrow> db \<Rightarrow> (db, approval_result) outcome" where
  "confirmFlow wired w eid i uid s =
     and_then (lift (findOne eid i s) s) (\<lambda>m s.
       if m_status m \<noteq> PROOF_SUBMITTED then throw UnprocessableEntityException s
       else and_then (with_versions wired (\<lambda>s. lift (assertReviewable (m_id m) None s) s) s) (\<lambda>_ s.
         case find_engagement eid s of
           None \<Rightarrow> throw NotFoundException s
         | Some e \<Rightarrow>
             (let required = required_approvals e;
                  s1 = (if truthy uid \<and> \<not> List.member (t_approvals s) (m_id m, the uid)
                        then s\<lparr>t_approvals := t_approvals s @ [(m_id m, the uid)]\<rparr> else s);
                  n = getApprovalCount (m_id m) s1
              in if int n < required then return (AwaitingApprovals n required) s1
                 else and_then (call_chain w (ReleaseMilestone eid i) s1) (\<lambda>_ s2.
                   and_then (markConfirmed w eid i (amount_or_0 m) s2) (\<lambda>m' s3.
                   and_then (with_versions wired (markApproved_outcome w (m_id m) uid) s3) (\<lambda>_ s4.
                   and_then (create_notification (or_empty (e_recruiterId e)) PAYMENT_RELEASED s4)
                     (\<lambda>_ s5. return (Confirmed m' n required) s5)))))))"

section \<open>Disputes\<close>

definition present :: "ident option list \<Rightarrow> ident list" where
  "present xs = [x. Some x \<leftarrow> xs, x \<noteq> []]"

definition disputeFlow ::
  "dispute_config \<Rightarrow> env \<Rightarrow> ident \<Rightarrow> nat \<Rightarrow> string \<Rightarrow> db \<Rightarrow> (db, milestone) outcome" where
  "disputeFlow cfg w eid i reason s =
     and_then (lift (findOne eid i s) s) (\<lambda>m s.
       if m_status m \<noteq> PROOF_SUBMITTED then throw UnprocessableEntityException s
       else and_then (update_at eid i (\<lambda>m. m\<lparr>m_status := DISPUTED, m_disputeReason := Some reason\<rparr>) s) (\<lambda>m' s1.
         and_then (openForMilestone cfg w (m_id m) (Some reason) None s1) (\<lambda>_ s2.
           case find_engagement eid s2 of
             None \<Rightarrow> return m' s2
           | Some e \<Rightarrow> and_then (create_notifications
                 (present [e_companyId e, e_recruiterId e, e_arbiterId e]) DISPUTE_RAISED s2)
               (\<lambda>_ s3. return m' s3))))"

definition resolveDisputeFlow ::
  "dispute_config \<Rightarrow> env \<Rightarrow> ident \<Rightarrow> nat \<Rightarrow> dispute_outcome \<Rightarrow> actor option \<Rightarrow> db \<Rightarrow>
     (db, milestone \<times> dispute option) outcome" where
  "resolveDisputeFlow cfg w eid i oc user s =
     and_then (lift (findOne eid i s) s) (\<lambda>m s.
       if m_status m \<noteq> DISPUTED then throw UnprocessableEntityException s
       else and_then (recordDecision cfg w (m_id m) oc user s) (\<lambda>d s1.
         case d of
           Some d' \<Rightarrow> and_then (lift (findOne eid i s1) s1) (\<lambda>m' s2. return (m', Some d') s2)
         | None \<Rightarrow>
             (let approved = (oc = RELEASE);
                  s2 = (if approved then s1
                        else upsert_refund \<lparr>r_milestoneId = m_id m, r_amount = amount_or_0 m,
                               r_status = REFUND_PENDING\<rparr> s1)
              in and_then (call_chain w (ResolveDispute eid i approved) s2) (\<lambda>_ s3.
                 and_then (markResolved w eid i approved (if approved then Some (amount_or_0 m) else None) s3)
                   (\<lambda>m' s4. case find_engagement eid s4 of
                      None \<Rightarrow> return (m', None) s4
                    | Some e \<Rightarrow>
                        and_then (create_notifications [or_empty (e_companyId e), or_empty (e_recruiterId e)]
                            DISPUTE_RESOLVED s4)
                          (\<lambda>_ s5. return (m', None) s5))))))"

text \<open>Each failure is caught and reported; the loop goes on with the state the failed call left.\<close>

fun bulkResolveDisputes ::
  "dispute_config \<Rightarrow> env \<Rightarrow> ident list \<Rightarrow> dispute_outcome \<Rightarrow> db \<Rightarrow> (ident \<times> bool) list \<times> db" where
  "bulkResolveDisputes cfg w [] oc s = ([], s)"
| "bulkResolveDisputes cfg w (x # xs) oc s =
     (let (ok, s1) = (case find_milestone_by_id x s of
            None \<Rightarrow> (False, s)
          | Some m \<Rightarrow> (case resolveDisputeFlow cfg w (m_engagementId m) (m_index m) oc None s of
              (Inl _, s1) \<Rightarrow> (False, s1) | (Inr _, s1) \<Rightarrow> (True, s1)));
          (rs, s2) = bulkResolveDisputes cfg w xs oc s1
      in ((x, ok) # rs, s2))"

section \<open>Administration\<close>

definition VALID_STATUS_TRANSITIONS :: "milestone_status \<Rightarrow> milestone_status list" where
  "VALID_STATUS_TRANSITIONS st = (case st of
     LOCKED \<Rightarrow> [PENDING]
   | PENDING \<Rightarrow> [PROOF_SUBMITTED]
   | PROOF_SUBMITTED \<Rightarrow> [CONFIRMED, DISPUTED]
   | DISPUTED \<Rightarrow> [RESOLVED]
   | CONFIRMED \<Rightarrow> []
   | RESOLVED \<Rightarrow> [])"

definition status_text :: "milestone_status \<Rightarrow> string" where
  "status_text st = (case st of LOCKED \<Rightarrow> ''LOCKED'' | PENDING \<Rightarrow> ''PENDING''
     | PROOF_SUBMITTED \<Rightarrow> ''PROOF_SUBMITTED'' | CONFIRMED \<Rightarrow> ''CONFIRMED''
     | DISPUTED \<Rightarrow> ''DISPUTED'' | RESOLVED \<Rightarrow> ''RESOLVED'')"

definition log_audit :: "audit_entry \<Rightarrow> db \<Rightarrow> db" where
  "log_audit a s = s\<lparr>t_auditLogs := t_auditLogs s @ [a]\<rparr>"

definition updateMilestoneStatusByAdmin ::
  "ident \<Rightarrow> nat \<Rightarrow> milestone_status \<Rightarrow> ident \<Rightarrow> db \<Rightarrow> (db, milestone) outcome" where
  "updateMilestoneStatusByAdmin eid i st admin s = (case load_milestone eid i s of
     Inl x \<Rightarrow> throw x s
   | Inr (m, e) \<Rightarrow>
       (let s1 = update_milestone (m_id m) (\<lambda>x. x\<lparr>m_status := st\<rparr>) s;
            s2 = log_audit \<lparr>al_entityType = ''Milestone'', al_entityId = m_id m, al_action = ''STATUS_OVERRIDE'',
                   al_old = Some (status_text (m_status m)), al_new = status_text st, al_changedBy = admin\<rparr> s1;
            s3 = notify_all (map ByAddress [e_companyAddress e, e_recruiterAddress e, e_arbiterAddress e])
                   MILESTONE_CONFIRMED s2
        in lift (findOne eid i s3) s3))"

fun bulkUpdateMilestoneStatus ::
  "ident list \<Rightarrow> milestone_status \<Rightarrow> ident \<Rightarrow> db \<Rightarrow> (ident \<times> bool) list \<times> db" where
  "bulkUpdateMilestoneStatus [] st admin s = ([], s)"
| "bulkUpdateMilestoneStatus (x # xs) st admin s =
     (let (ok, s1) = (case find_milestone_by_id x s of
            None \<Rightarrow> (False, s)
          | Some m \<Rightarrow>
              if st \<notin> set (VALID_STATUS_TRANSITIONS (m_status m)) then (False, s)
              else (case updateMilestoneStatusByAdmin (m_engagementId m) (m_index m) st admin s of
                (Inl _, s1) \<Rightarrow> (False, s1) | (Inr _, s1) \<Rightarrow> (True, s1)));
          (rs, s2) = bulkUpdateMilestoneStatus xs st admin s1
      in ((x, ok) # rs, s2))"

text \<open>\<open>adjustMilestonePercents\<close>: an adjustment is a milestone index and its new percentage.\<close>

definition adjustable :: "milestone list \<Rightarrow> nat \<Rightarrow> exn + unit" where
  "adjustable ms i = (case List.find (\<lambda>m. m_index m = i) ms of
     None \<Rightarrow> Inl NotFoundException
   | Some m \<Rightarrow> if m_status m = CONFIRMED \<or> m_status m = RESOLVED then Inl BadRequestException else Inr ())"

fun check_adjustments :: "milestone list \<Rightarrow> (nat \<times> int) list \<Rightarrow> exn + unit" where
  "check_adjustments ms [] = Inr ()"
| "check_adjustments ms ((i, p) # adj) = (case adjustable ms i of Inl x \<Rightarrow> Inl x | Inr _ \<Rightarrow> check_adjustments ms adj)"

definition new_percent :: "(nat \<times> int) list \<Rightarrow> milestone \<Rightarrow> int" where
  "new_percent adj m = (case map_of (rev adj) (m_index m) of None \<Rightarrow> m_paymentPercent m | Some p \<Rightarrow> p)"

fun apply_adjustments :: "milestone list \<Rightarrow> (nat \<times> int) list \<Rightarrow> ident \<Rightarrow> db \<Rightarrow> db" where
  "apply_adjustments ms [] uid s = s"
| "apply_adjustments ms ((i, p) # adj) uid s = (case List.find (\<lambda>m. m_index m = i) ms of
     None \<Rightarrow> apply_adjustments ms adj uid s
   | Some m \<Rightarrow> apply_adjustments ms adj uid
       (log_audit \<lparr>al_entityType = ''Milestone'', al_entityId = m_id m, al_action = ''PERCENT_ADJUSTMENT'',
          al_old = Some (show_int (m_paymentPercent m)), al_new = show_int p, al_changedBy = uid\<rparr>
         (update_milestone (m_id m) (\<lambda>x. x\<lparr>m_paymentPercent := p\<rparr>) s)))"

definition adjustMilestonePercents ::
  "ident \<Rightarrow> (nat \<times> int) list \<Rightarrow> ident \<Rightarrow> db \<Rightarrow> (db, milestone list) outcome" where
  "adjustMilestonePercents eid adj uid s =
     (let ms = filter (\<lambda>m. m_engagementId m = eid) (t_milestones s)
      in if ms = [] then throw NotFoundException s
         else (case check_adjustments ms adj of
           Inl x \<Rightarrow> throw x s
         | Inr _ \<Rightarrow>
             if sum_list (map (new_percent adj) ms) \<noteq> 100 then throw BadRequestException s
             else let s1 = apply_adjustments ms adj uid s in return (milestones_of eid s1) s1))"

section \<open>Reset after a replacement\<close>

definition clear_approvals :: "ident \<Rightarrow> db \<Rightarrow> db" where
  "clear_approvals mid s = s\<lparr>t_approvals := filter (\<lambda>(x, _). x \<noteq> mid) (t_approvals s)\<rparr>"

definition reset_ledger :: "int \<Rightarrow> milestone \<Rightarrow> int option" where
  "reset_ledger cur m = (if nonzero (m_retentionDays m) then Some (cur + the (m_retentionDays m) * 17280)
     else m_validAfterLedger m)"

definition reset_unlock :: "env \<Rightarrow> int \<Rightarrow> milestone \<Rightarrow> time option" where
  "reset_unlock w cur m = (if nonzero (reset_ledger cur m)
     then Some (ledgerToDateTime w (the (reset_ledger cur m)) cur) else m_unlockEstimatedAt m)"

definition upsert_schedule :: "env \<Rightarrow> ident \<Rightarrow> nat \<Rightarrow> int \<Rightarrow> time \<Rightarrow> db \<Rightarrow> db" where
  "upsert_schedule w eid i l t s =
     (if \<exists>x \<in> set (t_schedules s). s_engagementId x = eid \<and> s_index x = i
      then update_schedules eid i (\<lambda>x. x\<lparr>s_validAfterLedger := l, s_unlockAt := t, s_notifyAt := notify_before t,
             s_unlocked := False, s_notified := False\<rparr>) s
      else let (sid, s1) = fresh_id w s in s1\<lparr>t_schedules := t_schedules s1 @ [schedule_row sid eid i l t]\<rparr>)"

definition reset_one :: "env \<Rightarrow> ident \<Rightarrow> int \<Rightarrow> milestone \<Rightarrow> db \<Rightarrow> (db, unit) outcome" where
  "reset_one w eid cur m s =
     (if m_kind m = PLACEMENT
      then return () (clear_approvals (m_id m) (update_milestone (m_id m)
             (\<lambda>x. x\<lparr>m_status := PENDING, m_proofHash := None, m_confirmedAt := None, m_paymentReleased := None\<rparr>) s))
      else if m_status m \<noteq> CONFIRMED \<and> m_status m \<noteq> RESOLVED
      then let s1 = clear_approvals (m_id m) (update_milestone (m_id m)
             (\<lambda>x. x\<lparr>m_status := LOCKED, m_proofHash := None, m_validAfterLedger := reset_ledger cur m,
                    m_unlockEstimatedAt := reset_unlock w cur m\<rparr>) s)
           in (case (reset_ledger cur m, reset_unlock w cur m) of
                 (Some l, Some t) \<Rightarrow> return () (upsert_schedule w eid (m_index m) l t s1)
               | _ \<Rightarrow> throw TypeErrorExn s1)
      else return () s)"

fun reset_loop :: "env \<Rightarrow> ident \<Rightarrow> int \<Rightarrow> milestone list \<Rightarrow> db \<Rightarrow> (db, unit) outcome" where
  "reset_loop w eid cur [] s = return () s"
| "reset_loop w eid cur (m # ms) s = and_then (reset_one w eid cur m s) (\<lambda>_ s1. reset_loop w eid cur ms s1)"

definition resetForReplacement :: "env \<Rightarrow> ident \<Rightarrow> int \<Rightarrow> db \<Rightarrow> (db, unit) outcome" where
  "resetForReplacement w eid cur s = reset_loop w eid cur (findByEngagement eid s) s"

section \<open>Due dates and evidence\<close>

definition setPlacementDueDate :: "ident \<Rightarrow> nat \<Rightarrow> time option \<Rightarrow> actor \<Rightarrow> db \<Rightarrow> (db, unit) outcome" where
  "setPlacementDueDate eid i due u s = (case load_milestone eid i s of
     Inl x \<Rightarrow> throw x s
   | Inr (m, e) \<Rightarrow> (case checkPartyAccess e u of
       Inl x \<Rightarrow> throw x s
     | Inr _ \<Rightarrow> return () (update_milestone (m_id m) (\<lambda>x. x\<lparr>m_placementDueAt := due, m_reminderSent := False\<rparr>) s)))"

definition uploadEvidence :: "env \<Rightarrow> ident \<Rightarrow> nat \<Rightarrow> string \<Rightarrow> actor \<Rightarrow> db \<Rightarrow> (db, ident) outcome" where
  "uploadEvidence w eid i path u s = (case load_milestone eid i s of
     Inl x \<Rightarrow> throw x s
   | Inr (m, e) \<Rightarrow> (case checkPartyAccess e u of
       Inl x \<Rightarrow> throw x s
     | Inr _ \<Rightarrow>
         if (case findActiveForMilestone (m_id m) s of None \<Rightarrow> False
             | Some d \<Rightarrow> \<not> isEvidenceWindowOpen d (now w))
         then throw BadRequestException s
         else if \<not> s3Up w then throw PlainError s
         else let (vid, s1) = fresh_id w s
              in return vid (s1\<lparr>t_evidence := t_evidence s1 @
                    [\<lparr>ev_id = vid, ev_milestoneId = m_id m, ev_uploadedBy = ac_id u, ev_s3Path = path,
                      ev_scanStatus = SCAN_PENDING\<rparr>],
                   scanQueue := scanQueue s1 @ [(''evidence'', vid)]\<rparr>)))"

definition getEvidenceDownloadUrl :: "ident \<Rightarrow> nat \<Rightarrow> ident \<Rightarrow> actor \<Rightarrow> db \<Rightarrow> exn + string" where
  "getEvidenceDownloadUrl eid i vid u s = (case List.find (\<lambda>v. ev_id v = vid) (t_evidence s) of
     None \<Rightarrow> Inl NotFoundException
   | Some v \<Rightarrow> (case find_milestone_by_id (ev_milestoneId v) s of
       None \<Rightarrow> Inl TypeErrorExn
     | Some m \<Rightarrow>
         if m_engagementId m \<noteq> eid \<or> m_index m \<noteq> i then Inl NotFoundException
         else (case find_engagement (m_engagementId m) s of
           None \<Rightarrow> Inl TypeErrorExn
         | Some e \<Rightarrow> (case checkPartyAccess e u of
             Inl x \<Rightarrow> Inl x
           | Inr _ \<Rightarrow> if ev_scanStatus v \<noteq> SCAN_CLEAN then Inl ConflictException else Inr (ev_s3Path v)))))"

end
