(* ===== verification/MilestoneProperties.thy ===== *)
theory MilestoneProperties
  imports MilestoneFlows
begin

text \<open>
  What the milestone service guarantees: nothing is paid below the quorum of approvals, statuses
  only move along the permitted transitions, percentages keep summing to one hundred, a
  replacement resets exactly what it should, and evidence is downloadable only when clean; and what
  the missing injection of the proof versions service does to approvals.
\<close>

section \<open>Approvals\<close>

lemma findOne_Some: "find_milestone eid i s = Some m \<Longrightarrow> findOne eid i s = Inr m"
  by (simp add: findOne_def)





lemma create_notification_frame:
  "create_notification u t s = (r, s') \<Longrightarrow> t_milestones s' = t_milestones s \<and> chainCalls s' = chainCalls s"
  by (auto simp: create_notification_def throw_def return_def split: if_splits)


section \<open>The missing injection\<close>

lemma approve_unwired:
  assumes "find_milestone eid i s = Some m" and "m_status m = PROOF_SUBMITTED"
  shows "approveMilestone False w eid i uid version s = (Inl TypeErrorExn, s)"
    and "confirmFlow False w eid i u s = (Inl TypeErrorExn, s)"
  using assms by (simp_all add: approveMilestone_def confirmFlow_def findOne_Some throw_def)

lemma submit_unwired:
  assumes "find_milestone eid i s = Some m" and "m_status m = PENDING"
  shows "fst (submitProofFlow False w eid i h s) = Inl TypeErrorExn"
    and "map_option m_status (find_milestone eid i (snd (submitProofFlow False w eid i h s))) = Some PROOF_SUBMITTED"
  using assms
  by (simp_all add: submitProofFlow_def findOne_Some markProofSubmitted_def update_at_def find_update_milestone)

section \<open>Status transitions\<close>

definition moved :: "milestone_status \<Rightarrow> milestone \<Rightarrow> milestone \<Rightarrow> bool" where
  "moved st m m' \<longleftrightarrow> m_id m' = m_id m \<and> m_engagementId m' = m_engagementId m \<and> m_index m' = m_index m \<and>
     (m_status m' = m_status m \<or> (m_status m' = st \<and> st \<in> set (VALID_STATUS_TRANSITIONS (m_status m))))"

lemma moved_refl [simp]: "moved st m m"
  by (simp add: moved_def)

lemma no_self_transition: "st \<notin> set (VALID_STATUS_TRANSITIONS st)"
  by (cases st) (simp_all add: VALID_STATUS_TRANSITIONS_def)

lemma moved_trans: "moved st a b \<Longrightarrow> moved st b c \<Longrightarrow> moved st a c"
  using no_self_transition [of st] by (auto simp: moved_def)

lemma moved_all_refl: "list_all2 (moved st) ms ms"
  by (simp add: list_all2_refl)

lemma moved_all_trans: "list_all2 (moved st) a b \<Longrightarrow> list_all2 (moved st) b c \<Longrightarrow> list_all2 (moved st) a c"
  by (rule list_all2_trans [of "moved st" "moved st"]) (auto intro: moved_trans)

lemma moved_keys:
  assumes "list_all2 (moved st) ms ms'"
  shows "map m_id ms' = map m_id ms" and "map (\<lambda>m. (m_engagementId m, m_index m)) ms' = map (\<lambda>m. (m_engagementId m, m_index m)) ms"
  using assms by (induction rule: list_all2_induct) (auto simp: moved_def)

definition milestone_keys :: "db \<Rightarrow> bool" where
  "milestone_keys s \<longleftrightarrow> distinct (map m_id (t_milestones s)) \<and>
     distinct (map (\<lambda>m. (m_engagementId m, m_index m)) (t_milestones s))"

lemma keys_find:
  assumes "milestone_keys s" and "find_milestone_by_id mid s = Some m"
  shows "find_milestone (m_engagementId m) (m_index m) s = Some m"
proof -
  have "m \<in> set (t_milestones s)" using find_milestone_by_id_id [OF assms(2)] by simp
  then show ?thesis
    using assms(1) find_key_unique [where key = "\<lambda>m. (m_engagementId m, m_index m)" and rs = "t_milestones s" and r = m]
    by (simp add: milestone_keys_def find_milestone_def)
qed

lemma keys_unique: "milestone_keys s \<Longrightarrow> x \<in> set (t_milestones s) \<Longrightarrow> y \<in> set (t_milestones s) \<Longrightarrow> m_id x = m_id y \<Longrightarrow> x = y"
  by (auto simp: milestone_keys_def distinct_map inj_on_def)

lemma admin_update_milestones:
  "load_milestone eid i s = Inr (m, e) \<Longrightarrow>
     t_milestones (snd (updateMilestoneStatusByAdmin eid i st admin s)) =
       update_where (\<lambda>x. m_id x = m_id m) (\<lambda>x. x\<lparr>m_status := st\<rparr>) (t_milestones s)"
  by (simp add: updateMilestoneStatusByAdmin_def Let_def lift_def log_audit_def update_milestone_def)

lemma bulkUpdate_moves:
  assumes "milestone_keys s"
  shows "list_all2 (moved st) (t_milestones s) (t_milestones (snd (bulkUpdateMilestoneStatus xs st admin s)))"
  using assms
proof (induction xs arbitrary: s)
  case Nil
  then show ?case by (simp add: moved_all_refl)
next
  case (Cons x xs)
  define s1 where "s1 = snd (case find_milestone_by_id x s of
            None \<Rightarrow> (False, s)
          | Some m \<Rightarrow>
              if st \<notin> set (VALID_STATUS_TRANSITIONS (m_status m)) then (False, s)
              else (case updateMilestoneStatusByAdmin (m_engagementId m) (m_index m) st admin s of
                (Inl _, s1) \<Rightarrow> (False, s1) | (Inr _, s1) \<Rightarrow> (True, s1)))"
  have run: "snd (bulkUpdateMilestoneStatus (x # xs) st admin s) = snd (bulkUpdateMilestoneStatus xs st admin s1)"
    by (simp add: s1_def split: prod.splits)
  have step: "list_all2 (moved st) (t_milestones s) (t_milestones s1)"
  proof (cases "\<exists>m. find_milestone_by_id x s = Some m \<and> st \<in> set (VALID_STATUS_TRANSITIONS (m_status m))")
    case False
    then have "s1 = s" by (auto simp: s1_def split: option.splits)
    then show ?thesis by (simp add: moved_all_refl)
  next
    case True
    then obtain m where m: "find_milestone_by_id x s = Some m" "st \<in> set (VALID_STATUS_TRANSITIONS (m_status m))" by blast
    have s1: "s1 = snd (updateMilestoneStatusByAdmin (m_engagementId m) (m_index m) st admin s)"
      using m by (auto simp: s1_def split: prod.splits sum.splits)
    have fm: "find_milestone (m_engagementId m) (m_index m) s = Some m" using keys_find [OF Cons.prems m(1)] .
    show ?thesis
    proof (cases "find_engagement (m_engagementId m) s")
      case None
      then have "s1 = s" by (simp add: s1 updateMilestoneStatusByAdmin_def load_milestone_def fm)
      then show ?thesis by (simp add: moved_all_refl)
    next
      case (Some e)
      then have "load_milestone (m_engagementId m) (m_index m) s = Inr (m, e)"
        by (simp add: load_milestone_def fm)
      from admin_update_milestones [OF this] have t: "t_milestones s1 =
          map (\<lambda>y. if m_id y = m_id m then y\<lparr>m_status := st\<rparr> else y) (t_milestones s)"
        by (simp add: s1 update_where_def)
      have "moved st y (if m_id y = m_id m then y\<lparr>m_status := st\<rparr> else y)" if "y \<in> set (t_milestones s)" for y
        using keys_unique [OF Cons.prems that, of m] find_milestone_by_id_id [OF m(1)] m(2)
        by (auto simp: moved_def)
      then show ?thesis unfolding t by (simp add: list_all2_map2 list_all2_same)
    qed
  qed
  have "milestone_keys s1" using moved_keys [OF step] Cons.prems by (simp add: milestone_keys_def)
  from moved_all_trans [OF step Cons.IH [OF this]] show ?case unfolding run .
qed

section \<open>Reset after a replacement\<close>

definition reset_row :: "env \<Rightarrow> int \<Rightarrow> milestone \<Rightarrow> milestone" where
  "reset_row w cur m =
     (if m_kind m = PLACEMENT
      then m\<lparr>m_status := PENDING, m_proofHash := None, m_confirmedAt := None, m_paymentReleased := None\<rparr>
      else if m_status m \<noteq> CONFIRMED \<and> m_status m \<noteq> RESOLVED
      then m\<lparr>m_status := LOCKED, m_proofHash := None, m_validAfterLedger := reset_ledger cur m,
             m_unlockEstimatedAt := reset_unlock w cur m\<rparr>
      else m)"

lemma reset_row_id [simp]: "m_id (reset_row w cur m) = m_id m" "m_engagementId (reset_row w cur m) = m_engagementId m"
  by (simp_all add: reset_row_def)

lemma update_id_unique:
  assumes "distinct (map m_id ms)" and "m \<in> set ms"
  shows "update_where (\<lambda>x. m_id x = m_id m) f ms = map (\<lambda>x. if x = m then f m else x) ms"
  using assms by (auto simp: update_where_def distinct_map inj_on_def)

lemma reset_one_rows:
  assumes "distinct (map m_id (t_milestones s))" and "m \<in> set (t_milestones s)"
    and "reset_one w eid cur m s = (Inr (), s')"
  shows "t_milestones s' = map (\<lambda>x. if x = m then reset_row w cur m else x) (t_milestones s)"
proof -
  have id: "map (\<lambda>x. if x = m then reset_row w cur m else x) (t_milestones s) = t_milestones s"
    if "reset_row w cur m = m"
    using that by (intro map_idI) auto
  have same: "m_kind m \<noteq> PLACEMENT \<Longrightarrow> m_status m = CONFIRMED \<or> m_status m = RESOLVED \<Longrightarrow> reset_row w cur m = m"
    by (auto simp: reset_row_def)
  show ?thesis
  proof (cases "m_kind m \<noteq> PLACEMENT \<and> (m_status m = CONFIRMED \<or> m_status m = RESOLVED)")
    case True
    then have "s' = s" using assms(3) by (auto simp: reset_one_def return_def)
    with id same True show ?thesis by simp
  next
    case False
    then show ?thesis
    using assms(3) update_id_unique [OF assms(1,2)]
    by (auto simp: reset_one_def reset_row_def clear_approvals_def update_milestone_def upsert_schedule_def
        update_schedules_def fresh_id_def Let_def throw_def return_def split: if_splits option.splits)
  qed
qed

lemma reset_loop_rows:
  assumes "distinct (map m_id (t_milestones s))" and "distinct ms" and "set ms \<subseteq> set (t_milestones s)"
    and "reset_loop w eid cur ms s = (Inr (), s')"
  shows "t_milestones s' = map (\<lambda>x. if x \<in> set ms then reset_row w cur x else x) (t_milestones s)"
  using assms
proof (induction ms arbitrary: s)
  case Nil
  then show ?case by (simp add: return_def map_idI)
next
  case (Cons m ms)
  obtain s1 where s1: "reset_one w eid cur m s = (Inr (), s1)" "reset_loop w eid cur ms s1 = (Inr (), s')"
    using Cons.prems(4) by (auto simp: and_then_Inr_iff)
  have t: "t_milestones s1 = map (\<lambda>x. if x = m then reset_row w cur m else x) (t_milestones s)"
    using reset_one_rows [OF Cons.prems(1) _ s1(1)] Cons.prems(3) by simp
  have ids: "map m_id (t_milestones s1) = map m_id (t_milestones s)" unfolding t by auto
  have rest: "x \<noteq> m \<and> x \<in> set (t_milestones s1)" if "x \<in> set ms" for x
  proof -
    have "x \<noteq> m" "x \<in> set (t_milestones s)" using Cons.prems(2,3) that by auto
    then show ?thesis unfolding t by (auto intro!: image_eqI [of _ _ x])
  qed
  have nr: "reset_row w cur m \<notin> set ms \<or> reset_row w cur m = m"
  proof (rule ccontr)
    assume "\<not> ?thesis"
    then have a: "reset_row w cur m \<in> set ms" "reset_row w cur m \<noteq> m" by auto
    then have "reset_row w cur m \<in> set (t_milestones s)" "m \<in> set (t_milestones s)" using Cons.prems(3) by auto
    with a(2) Cons.prems(1) show False by (auto simp: distinct_map dest: inj_onD [of m_id _ "reset_row w cur m" m])
  qed
  have "t_milestones s' = map (\<lambda>x. if x \<in> set ms then reset_row w cur x else x) (t_milestones s1)"
    using Cons.IH [OF _ _ _ s1(2)] Cons.prems(1,2) ids rest by auto
  also have "\<dots> = map (\<lambda>x. if x \<in> set (m # ms) then reset_row w cur x else x) (t_milestones s)"
    unfolding t using Cons.prems(2) nr by auto
  finally show ?case .
qed

lemma resetForReplacement_rows:
  assumes "distinct (map m_id (t_milestones s))" and "resetForReplacement w eid cur s = (Inr (), s')"
  shows "t_milestones s' = map (\<lambda>m. if m_engagementId m = eid then reset_row w cur m else m) (t_milestones s)"
proof -
  let ?ms = "findByEngagement eid s"
  have d: "distinct (t_milestones s)" using assms(1) by (simp add: distinct_map)
  have "distinct ?ms" "set ?ms \<subseteq> set (t_milestones s)"
    using d by (auto simp: findByEngagement_def milestones_of_def)
  from reset_loop_rows [OF assms(1) this] assms(2)
  have "t_milestones s' = map (\<lambda>x. if x \<in> set ?ms then reset_row w cur x else x) (t_milestones s)"
    by (simp add: resetForReplacement_def)
  then show ?thesis by (auto simp: findByEngagement_def milestones_of_def)
qed

section \<open>Adjusting percentages\<close>

lemma check_adjustments_ok:
  "check_adjustments ms adj = Inr () \<longleftrightarrow> (\<forall>(i, p) \<in> set adj. adjustable ms i = Inr ())"
  by (induction adj) (auto split: sum.splits)

lemma adjustable_ok:
  "adjustable ms i = Inr () \<longleftrightarrow> (\<exists>m. List.find (\<lambda>m. m_index m = i) ms = Some m \<and>
     m_status m \<noteq> CONFIRMED \<and> m_status m \<noteq> RESOLVED)"
  by (auto simp: adjustable_def split: option.splits)

text \<open>The last adjustment of an index wins, in the check and in the table.\<close>

lemma apply_adjustments_rows:
  assumes "distinct (map m_id (t_milestones s))" and "distinct (map m_index ms)"
    and "set ms \<subseteq> set T" and "distinct (map m_id T)"
    and "t_milestones s = map (\<lambda>m. m\<lparr>m_paymentPercent := g m\<rparr>) T"
  shows "t_milestones (apply_adjustments ms adj uid s) =
    map (\<lambda>m. m\<lparr>m_paymentPercent := (if m \<in> set ms then case map_of (rev adj) (m_index m) of None \<Rightarrow> g m | Some p \<Rightarrow> p else g m)\<rparr>) T"
  using assms(1,5)
proof (induction adj arbitrary: s g)
  case Nil
  then show ?case by simp
next
  case (Cons a adj)
  obtain i p where a: "a = (i, p)" by fastforce
  show ?case
  proof (cases "List.find (\<lambda>m. m_index m = i) ms")
    case None
    then have "\<And>m. m \<in> set ms \<Longrightarrow> m_index m \<noteq> i" by (simp add: find_None)
    then have "(if m \<in> set ms then case map_of (rev (a # adj)) (m_index m) of None \<Rightarrow> g m | Some p \<Rightarrow> p else g m) =
        (if m \<in> set ms then case map_of (rev adj) (m_index m) of None \<Rightarrow> g m | Some p \<Rightarrow> p else g m)" for m
      by (auto simp: a map_add_def split: option.splits)
    with Cons.IH [OF Cons.prems] None show ?thesis by (simp add: a)
  next
    case (Some m)
    have m: "m_index m = i" "m \<in> set ms" using find_SomeD [OF Some] by auto
    let ?s = "log_audit \<lparr>al_entityType = ''Milestone'', al_entityId = m_id m, al_action = ''PERCENT_ADJUSTMENT'',
          al_old = Some (show_int (m_paymentPercent m)), al_new = show_int p, al_changedBy = uid\<rparr>
         (update_milestone (m_id m) (\<lambda>x. x\<lparr>m_paymentPercent := p\<rparr>) s)"
    let ?g = "\<lambda>x. if x = m then p else g x"
    have u: "x = m" if "x \<in> set T" "m_id x = m_id m" for x
      using assms(3,4) m(2) that by (auto simp: distinct_map inj_on_def)
    have t: "t_milestones ?s = map (\<lambda>x. x\<lparr>m_paymentPercent := ?g x\<rparr>) T"
      using u by (auto simp: log_audit_def update_milestone_def Cons.prems(2) update_where_def)
    have ids: "distinct (map m_id (t_milestones ?s))" using Cons.prems(1)
      by (simp add: log_audit_def update_milestone_def map_update_where_key)
    have w: "(if x \<in> set ms then case map_of (rev (a # adj)) (m_index x) of None \<Rightarrow> g x | Some p \<Rightarrow> p else g x) =
        (if x \<in> set ms then case map_of (rev adj) (m_index x) of None \<Rightarrow> ?g x | Some p \<Rightarrow> p else ?g x)" for x
    proof -
      have same: "x = m" if "x \<in> set ms" "m_index x = i"
      proof (rule inj_onD)
        show "inj_on m_index (set ms)" using assms(2) unfolding distinct_map by blast
      qed (use that m in auto)
      show ?thesis
      proof (cases "x = m")
        case True
        with m show ?thesis by (simp add: a map_add_def split: option.splits)
      next
        case False
        with same have "x \<in> set ms \<Longrightarrow> i \<noteq> m_index x" by blast
        with False show ?thesis by (auto simp: a map_add_def split: option.splits)
      qed
    qed
    have "apply_adjustments ms (a # adj) uid s = apply_adjustments ms adj uid ?s" using Some by (simp add: a)
    with Cons.IH [OF ids t] show ?thesis unfolding w by simp
  qed
qed

lemma adjust_sum:
  assumes "milestone_keys s" and "adjustMilestonePercents eid adj uid s = (Inr ms', s')"
  shows "sum_list (map m_paymentPercent (filter (\<lambda>m. m_engagementId m = eid) (t_milestones s'))) = 100"
    and "map (\<lambda>m. m\<lparr>m_paymentPercent := 0\<rparr>) (t_milestones s') = map (\<lambda>m. m\<lparr>m_paymentPercent := 0\<rparr>) (t_milestones s)"
    and "\<And>m. m \<in> set (t_milestones s) \<Longrightarrow> m_engagementId m \<noteq> eid \<or> m_status m = CONFIRMED \<or> m_status m = RESOLVED \<Longrightarrow>
      m \<in> set (t_milestones s')"
proof -
  let ?ms = "filter (\<lambda>m. m_engagementId m = eid) (t_milestones s)"
  have ok: "check_adjustments ?ms adj = Inr ()" "sum_list (map (new_percent adj) ?ms) = 100"
    "s' = apply_adjustments ?ms adj uid s"
    using assms(2) by (auto simp: adjustMilestonePercents_def Let_def throw_def return_def split: if_splits sum.splits)
  have d: "distinct (map m_id (t_milestones s))" using assms(1) by (simp add: milestone_keys_def)
  have di: "distinct (map m_index ?ms)"
    using assms(1) by (auto simp: milestone_keys_def distinct_map inj_on_def)
  have t: "t_milestones s' = map (\<lambda>m. m\<lparr>m_paymentPercent := (if m \<in> set ?ms then
      case map_of (rev adj) (m_index m) of None \<Rightarrow> m_paymentPercent m | Some p \<Rightarrow> p else m_paymentPercent m)\<rparr>)
      (t_milestones s)"
    unfolding ok(3) using d di by (intro apply_adjustments_rows) (auto simp: map_idI)
  have "map m_paymentPercent (filter (\<lambda>m. m_engagementId m = eid) (t_milestones s')) = map (new_percent adj) ?ms"
    unfolding t by (simp add: filter_map o_def new_percent_def)
  with ok(2) show "sum_list (map m_paymentPercent (filter (\<lambda>m. m_engagementId m = eid) (t_milestones s'))) = 100" by simp
  show "map (\<lambda>m. m\<lparr>m_paymentPercent := 0\<rparr>) (t_milestones s') = map (\<lambda>m. m\<lparr>m_paymentPercent := 0\<rparr>) (t_milestones s)"
    unfolding t by simp
  fix m assume m: "m \<in> set (t_milestones s)" "m_engagementId m \<noteq> eid \<or> m_status m = CONFIRMED \<or> m_status m = RESOLVED"
  have "map_of (rev adj) (m_index m) = None" if e: "m_engagementId m = eid"
  proof (rule ccontr)
    assume "map_of (rev adj) (m_index m) \<noteq> None"
    then obtain p where "(m_index m, p) \<in> set adj" by (auto dest: map_of_SomeD)
    then have "adjustable ?ms (m_index m) = Inr ()" using ok(1) by (auto simp: check_adjustments_ok)
    then obtain x where x: "List.find (\<lambda>x. m_index x = m_index m) ?ms = Some x" "m_status x \<noteq> CONFIRMED" "m_status x \<noteq> RESOLVED"
      by (auto simp: adjustable_ok)
    have "x \<in> set ?ms" "m_index x = m_index m" using find_SomeD [OF x(1)] by auto
    then have "x = m" using di m(1) e by (auto simp: distinct_map inj_on_def)
    with x m(2) e show False by simp
  qed
  then show "m \<in> set (t_milestones s')"
    unfolding t using m(1) by (auto intro!: image_eqI [of _ _ m])
qed

section \<open>Properties\<close>


definition submitted_db :: db where
  "submitted_db = world_db\<lparr>t_milestones := [mk_milestone ''m0'' 0 PLACEMENT 100 500 PROOF_SUBMITTED]\<rparr>"

lemma submitted_finds:
  "find_milestone ''e1'' 0 submitted_db = Some (mk_milestone ''m0'' 0 PLACEMENT 100 500 PROOF_SUBMITTED)"
  "find_engagement ''e1'' submitted_db = Some eng1" "assertReviewable ''m0'' None submitted_db = Inr None"
  "t_approvals submitted_db = []" "chainCalls submitted_db = []" "getApprovalCount ''m0'' submitted_db = 0"
  by (simp_all add: submitted_db_def find_milestone_def find_engagement_def assertReviewable_def latest_def
      versions_of_def getApprovalCount_def fixture_simps)


text \<open>
  With the wiring of the source, where the proof versions service is never injected, no
  milestone can be approved or confirmed (both handlers fail on a milestone awaiting approval,
  changing nothing), and submitting a proof fails after the status was already changed.
\<close>
lemma unwired_service_cannot_approve:
  assumes "find_milestone eid i s = Some m"
  shows "(if m_status m = PROOF_SUBMITTED
      then approveMilestone False w eid i uid version s = (Inl TypeErrorExn, s) \<and>
        confirmFlow False w eid i u s = (Inl TypeErrorExn, s)
      else if m_status m = PENDING
      then fst (submitProofFlow False w eid i hsh s) = Inl TypeErrorExn \<and>
        map_option m_status (find_milestone eid i (snd (submitProofFlow False w eid i hsh s))) = Some PROOF_SUBMITTED
      else True)"
  using approve_unwired [OF assms] submit_unwired [OF assms] by simp

lemma unwired_service_cannot_approve_witness:
  "approveMilestone False env1 ''e1'' 0 ''uc'' None submitted_db = (Inl TypeErrorExn, submitted_db)"
  using unwired_service_cannot_approve [OF submitted_finds(1), of env1 "''uc''" None]
  by (simp add: mk_milestone_def)

text \<open>
  A bulk status update, whatever ids it is given and however often, changes no milestone
  except along a permitted transition to the requested status; ids and indices stay.
\<close>
lemma bulk_update_respects_transitions:
  assumes "milestone_keys s"
  shows "list_all2 (\<lambda>m m'. m_id m' = m_id m \<and> m_index m' = m_index m \<and>
      (m_status m' = m_status m \<or>
       (m_status m' = st \<and> st \<in> set (VALID_STATUS_TRANSITIONS (m_status m)))))
    (t_milestones s) (t_milestones (snd (bulkUpdateMilestoneStatus xs st admin s)))"
  using bulkUpdate_moves [OF assms] by (rule list_all2_mono) (simp add: moved_def)

lemma bulk_update_respects_transitions_witness:
  "list_all2 (\<lambda>m m'. m_status m' = m_status m \<or> m_status m' = PENDING) (t_milestones world_db)
     (t_milestones (snd (bulkUpdateMilestoneStatus [''m1'', ''m0''] PENDING ''ad'' world_db)))"
  by (rule list_all2_mono [OF bulk_update_respects_transitions])
     (auto simp: milestone_keys_def fixture_simps)

text \<open>
  A replacement resets the placement milestone to PENDING without proof or payment and every
  unconfirmed retention milestone to LOCKED with its unlock ledger counted again from the current
  one; confirmed and resolved retention milestones and other engagements are untouched.
\<close>
lemma replacement_resets_exactly:
  assumes "distinct (map m_id (t_milestones s))" and "resetForReplacement w eid cur s = (Inr (), s')"
  shows "t_milestones s' = map (\<lambda>m.
     if m_engagementId m \<noteq> eid then m
     else if m_kind m = PLACEMENT
     then m\<lparr>m_status := PENDING, m_proofHash := None, m_confirmedAt := None, m_paymentReleased := None\<rparr>
     else if m_status m = CONFIRMED \<or> m_status m = RESOLVED then m
     else m\<lparr>m_status := LOCKED, m_proofHash := None, m_validAfterLedger := reset_ledger cur m,
            m_unlockEstimatedAt := reset_unlock w cur m\<rparr>) (t_milestones s)"
  using resetForReplacement_rows [OF assms] by (auto simp: reset_row_def)

lemma reset_world:
  "\<exists>s'. resetForReplacement env1 ''e1'' 100 world_db = (Inr (), s')"
  by (simp add: resetForReplacement_def findByEngagement_def milestones_of_def fixture_simps reset_one_def
      reset_ledger_def reset_unlock_def nonzero_def return_def)

lemma replacement_resets_exactly_witness:
  "\<exists>s'. resetForReplacement env1 ''e1'' 100 world_db = (Inr (), s') \<and>
     map m_status (t_milestones s') = [PENDING, LOCKED, LOCKED] \<and>
     map m_validAfterLedger (t_milestones s') = [None, Some 518500, Some 518500]"
proof -
  obtain s' where r: "resetForReplacement env1 ''e1'' 100 world_db = (Inr (), s')" using reset_world by blast
  have "distinct (map m_id (t_milestones world_db))" by (simp add: fixture_simps)
  from replacement_resets_exactly [OF this r] r show ?thesis
    by (simp add: fixture_simps reset_ledger_def nonzero_def)
qed

text \<open>
  When an adjustment of percentages succeeds, the percentages of the engagement sum to exactly
  100, nothing but percentages has changed, and confirmed or resolved milestones and other
  engagements keep theirs.
\<close>
lemma adjustment_keeps_hundred:
  assumes "milestone_keys s" and "adjustMilestonePercents eid adj uid s = (Inr ms', s')"
  shows "sum_list (map m_paymentPercent (filter (\<lambda>m. m_engagementId m = eid) (t_milestones s'))) = 100 \<and>
    map (\<lambda>m. m\<lparr>m_paymentPercent := 0\<rparr>) (t_milestones s') = map (\<lambda>m. m\<lparr>m_paymentPercent := 0\<rparr>) (t_milestones s) \<and>
    list_all (\<lambda>m. m \<in> set (t_milestones s')) (filter (\<lambda>m. m_engagementId m \<noteq> eid \<or> m_status m = CONFIRMED \<or>
      m_status m = RESOLVED) (t_milestones s))"
  using adjust_sum [OF assms] by (auto simp: list_all_iff)

lemma adjust_world:
  "\<exists>ms' s'. adjustMilestonePercents ''e1'' [(0, 60), (1, 20)] ''ad'' world_db = (Inr ms', s')"
  by (simp add: adjustMilestonePercents_def Let_def fixture_simps adjustable_def new_percent_def return_def)

lemma adjustment_keeps_hundred_witness:
  "\<exists>ms' s'. adjustMilestonePercents ''e1'' [(0, 60), (1, 20)] ''ad'' world_db = (Inr ms', s') \<and>
     sum_list (map m_paymentPercent (filter (\<lambda>m. m_engagementId m = ''e1'') (t_milestones s'))) = 100"
proof -
  obtain ms' s' where r: "adjustMilestonePercents ''e1'' [(0, 60), (1, 20)] ''ad'' world_db = (Inr ms', s')"
    using adjust_world by blast
  have "milestone_keys world_db" by (simp add: milestone_keys_def fixture_simps)
  from adjustment_keeps_hundred [OF this r] r show ?thesis by blast
qed

end
