(* ===== verification/ProofSla.thy ===== *)
theory ProofSla
  imports MilestoneFlows
begin

text \<open>
  \<^verbatim>\<open>modules/milestones/milestone-proof-sla.service.ts\<close>: the hourly job that reminds the company at 50 and
  90 per cent of its review window and, when the window has passed, approves the proof or escalates
  it.  Every step is claimed by a conditional update of the proof version.  The elapsed fraction is
  an exact rational here, a double in the code.
\<close>

record pending_version =
  pv_version :: proof_version
  pv_milestone :: milestone
  pv_engagement :: engagement
  pv_company :: "user option"

record sla_summary =
  sum_reminders50 :: nat
  sum_reminders90 :: nat
  sum_autoApproved :: nat
  sum_escalated :: nat

definition empty_summary :: sla_summary where
  "empty_summary = \<lparr>sum_reminders50 = 0, sum_reminders90 = 0, sum_autoApproved = 0, sum_escalated = 0\<rparr>"

definition DEFAULT_PROOF_SLA_DAYS :: int where "DEFAULT_PROOF_SLA_DAYS = 7"

definition elapsedFraction :: "time \<Rightarrow> int \<Rightarrow> time \<Rightarrow> rat" where
  "elapsedFraction submittedAt slaDays t = of_int (t - submittedAt) / of_int (slaDays * day_ms)"

definition sla_deadline :: "time \<Rightarrow> int \<Rightarrow> time" where
  "sla_deadline submittedAt slaDays = submittedAt + slaDays * day_ms"

text \<open>The versions to check, each with the milestone, engagement and company read with it.\<close>

definition pending_version_of :: "db \<Rightarrow> proof_version \<Rightarrow> pending_version option" where
  "pending_version_of s v =
     (if v_status v = V_SUBMITTED \<and> v_slaExpiredAt v = None
      then (case find_milestone_by_id (v_milestoneId v) s of
        None \<Rightarrow> None
      | Some m \<Rightarrow> if m_status m \<noteq> PROOF_SUBMITTED then None
          else map_option (\<lambda>e. \<lparr>pv_version = v, pv_milestone = m, pv_engagement = e,
                  pv_company = (case e_companyId e of None \<Rightarrow> None
                     | Some c \<Rightarrow> List.find (\<lambda>u. u_id u = c) (t_users s))\<rparr>)
                (find_engagement (m_engagementId m) s))
      else None)"

definition pending_versions :: "db \<Rightarrow> pending_version list" where
  "pending_versions s = List.map_filter (pending_version_of s) (t_proofs s)"

definition claim_version ::
  "ident \<Rightarrow> (proof_version \<Rightarrow> bool) \<Rightarrow> (proof_version \<Rightarrow> proof_version) \<Rightarrow> db \<Rightarrow> bool \<times> db" where
  "claim_version vid p f s =
     (let (n, s1) = update_versions (\<lambda>v. v_id v = vid \<and> v_status v = V_SUBMITTED \<and> p v) f s in (0 < n, s1))"

definition sla_days_of :: "pending_version \<Rightarrow> int" where
  "sla_days_of pv = (case pv_company pv of None \<Rightarrow> DEFAULT_PROOF_SLA_DAYS
     | Some c \<Rightarrow> if u_proofSlaDays c = 0 then DEFAULT_PROOF_SLA_DAYS else u_proofSlaDays c)"

definition sla_action_of :: "pending_version \<Rightarrow> proof_sla_action" where
  "sla_action_of pv = (case pv_company pv of None \<Rightarrow> ESCALATE_TO_ADMIN | Some c \<Rightarrow> u_proofSlaAction c)"

definition remind :: "pending_version \<Rightarrow> db \<Rightarrow> db" where
  "remind pv s = notify (ByAddress (e_companyAddress (pv_engagement pv))) PROOF_REVIEW_REMINDER s"

definition escalate :: "pending_version \<Rightarrow> db \<Rightarrow> db" where
  "escalate pv s = notify (ByAddress (e_companyAddress (pv_engagement pv))) PROOF_SLA_ESCALATED
     (notify_all (map ById (active_admins s)) PROOF_SLA_ESCALATED s)"

definition update_version :: "ident \<Rightarrow> (proof_version \<Rightarrow> proof_version) \<Rightarrow> db \<Rightarrow> db" where
  "update_version vid f s = snd (update_versions (\<lambda>v. v_id v = vid) f s)"

definition autoApprove :: "env \<Rightarrow> pending_version \<Rightarrow> db \<Rightarrow> (db, unit) outcome" where
  "autoApprove w pv s =
     (let m = pv_milestone pv; e = pv_engagement pv; vid = v_id (pv_version pv)
      in case call_chain w (ReleaseMilestone (m_engagementId m) (m_index m)) s of
           (Inl x, s1) \<Rightarrow> throw x (update_version vid (\<lambda>v. v\<lparr>v_slaExpiredAt := None\<rparr>) s1)
         | (Inr _, s1) \<Rightarrow>
             and_then (markConfirmed w (m_engagementId m) (m_index m) (amount_or_0 m) s1) (\<lambda>_ s2.
               let s3 = update_version vid (\<lambda>v. v\<lparr>v_status := V_APPROVED, v_reviewedAt := Some (now w),
                          v_reviewedById := None\<rparr>) s2
               in return () (notify (ByAddress (e_recruiterAddress e)) PAYMENT_RELEASED
                    (notify (ByAddress (e_companyAddress e)) PROOF_SLA_ESCALATED s3))))"

definition evaluate :: "env \<Rightarrow> pending_version \<Rightarrow> sla_summary \<Rightarrow> db \<Rightarrow> (db, sla_summary) outcome" where
  "evaluate w pv r s =
     (let v = pv_version pv; t = now w;
          fraction = elapsedFraction (v_submittedAt v) (sla_days_of pv) t
      in if 1 \<le> fraction
         then (let (won, s1) = claim_version (v_id v) (\<lambda>x. v_slaExpiredAt x = None)
                     (\<lambda>x. x\<lparr>v_slaExpiredAt := Some t\<rparr>) s
               in if \<not> won then return r s1
                  else if sla_action_of pv = AUTO_APPROVE
                  then and_then (autoApprove w pv s1)
                         (\<lambda>_ s2. return (r\<lparr>sum_autoApproved := sum_autoApproved r + 1\<rparr>) s2)
                  else return (r\<lparr>sum_escalated := sum_escalated r + 1\<rparr>) (escalate pv s1))
         else if 9 / 10 \<le> fraction \<and> v_reminder90SentAt v = None
         then (let (won, s1) = claim_version (v_id v) (\<lambda>x. v_reminder90SentAt x = None)
                     (\<lambda>x. x\<lparr>v_reminder90SentAt := Some t,
                            v_reminder50SentAt := (case v_reminder50SentAt v of None \<Rightarrow> Some t | Some y \<Rightarrow> Some y)\<rparr>) s
               in if won then return (r\<lparr>sum_reminders90 := sum_reminders90 r + 1\<rparr>) (remind pv s1) else return r s1)
         else if 1 / 2 \<le> fraction \<and> v_reminder50SentAt v = None
         then (let (won, s1) = claim_version (v_id v) (\<lambda>x. v_reminder50SentAt x = None)
                     (\<lambda>x. x\<lparr>v_reminder50SentAt := Some t\<rparr>) s
               in if won then return (r\<lparr>sum_reminders50 := sum_reminders50 r + 1\<rparr>) (remind pv s1) else return r s1)
         else return r s)"

text \<open>An error of one version is logged and the loop goes on; its summary is not counted.\<close>

fun sla_loop :: "env \<Rightarrow> pending_version list \<Rightarrow> sla_summary \<Rightarrow> db \<Rightarrow> sla_summary \<times> db" where
  "sla_loop w [] r s = (r, s)"
| "sla_loop w (pv # pvs) r s = (case evaluate w pv r s of
     (Inl _, s1) \<Rightarrow> sla_loop w pvs r s1 | (Inr r', s1) \<Rightarrow> sla_loop w pvs r' s1)"

definition runProofSlaChecks :: "env \<Rightarrow> bool \<Rightarrow> db \<Rightarrow> sla_summary \<times> db" where
  "runProofSlaChecks w locked s =
     (if \<not> locked then (empty_summary, s) else sla_loop w (pending_versions s) empty_summary s)"

section \<open>Lemmas\<close>

text \<open>The window has passed exactly when its deadline has.\<close>

lemma fraction_deadline:
  "0 < d \<Longrightarrow> 1 \<le> elapsedFraction sub d t \<longleftrightarrow> sla_deadline sub d \<le> t"
proof -
  assume d: "0 < d"
  then have p: "(0::rat) < of_int (d * day_ms)" by (simp add: day_ms_def)
  have "1 \<le> elapsedFraction sub d t \<longleftrightarrow> (of_int (d * day_ms) :: rat) \<le> of_int (t - sub)"
    unfolding elapsedFraction_def using p by (simp add: le_divide_eq)
  also have "\<dots> \<longleftrightarrow> d * day_ms \<le> t - sub" by (simp only: of_int_le_iff)
  also have "\<dots> \<longleftrightarrow> sla_deadline sub d \<le> t" by (auto simp: sla_deadline_def)
  finally show ?thesis .
qed

text \<open>A claim that was won cannot be won again for the same step.\<close>

lemma claim_version_again:
  assumes "\<And>x. v_id (f x) = v_id x" and "\<And>x. \<not> p (f x)"
  shows "fst (claim_version vid p f (snd (claim_version vid p f s))) = False"
proof -
  have "count_where (\<lambda>v. v_id v = vid \<and> v_status v = V_SUBMITTED \<and> p v)
      (update_where (\<lambda>v. v_id v = vid \<and> v_status v = V_SUBMITTED \<and> p v) f vs) = 0" for vs
    using assms by (induction vs) auto
  then show ?thesis by (simp add: claim_version_def update_versions_def)
qed

text \<open>When the payout of an automatic approval fails, the claim is released for the next run.\<close>

lemma autoApprove_failed:
  assumes "chain w (length (chainCalls s)) (ReleaseMilestone (m_engagementId (pv_milestone pv)) (m_index (pv_milestone pv))) = Inl x"
  shows "fst (autoApprove w pv s) = Inl (StellarFailure x)"
    and "t_milestones (snd (autoApprove w pv s)) = t_milestones s"
    and "t_proofs (snd (autoApprove w pv s)) =
      update_where (\<lambda>v. v_id v = v_id (pv_version pv)) (\<lambda>v. v\<lparr>v_slaExpiredAt := None\<rparr>) (t_proofs s)"
  using assms by (simp_all add: autoApprove_def call_chain_def update_version_def update_versions_def Let_def)

end
