(* ===== verification/Discussion.thy ===== *)
theory Discussion
  imports Disputes Party
begin

text \<open>
  The two discussion threads: the messages of a dispute (\<^verbatim>\<open>modules/disputes/disputes.service.ts\<close>) and the
  comments of a milestone (\<^verbatim>\<open>modules/milestones/milestone-comments.service.ts\<close>), with their access
  checks, their notifications, and the page a listing returns.
\<close>

section \<open>Cursor pages\<close>

text \<open>\<^verbatim>\<open>common/pagination/cursor-pagination.ts\<close>: one row more than the page was fetched.\<close>

definition cursorPage :: "('a \<Rightarrow> ident) \<Rightarrow> 'a list \<Rightarrow> nat \<Rightarrow> 'a list \<times> ident option" where
  "cursorPage key items limit =
     (let more = limit < length items; page = (if more then take limit items else items)
      in (page, if more then Some (key (last page)) else None))"

definition page_after :: "('a \<Rightarrow> ident) \<Rightarrow> ident option \<Rightarrow> 'a list \<Rightarrow> 'a list" where
  "page_after key cursor xs = (case cursor of None \<Rightarrow> xs
     | Some c \<Rightarrow> drop 1 (dropWhile (\<lambda>x. key x \<noteq> c) xs))"

definition fetch_page :: "('a \<Rightarrow> ident) \<Rightarrow> nat \<Rightarrow> ident option \<Rightarrow> 'a list \<Rightarrow> 'a list \<times> ident option" where
  "fetch_page key n cursor xs = cursorPage key (take (n + 1) (page_after key cursor xs)) n"

text \<open>Following the cursors from the start, with enough fuel, walks through the whole list.\<close>

fun all_pages :: "('a \<Rightarrow> ident) \<Rightarrow> nat \<Rightarrow> nat \<Rightarrow> ident option \<Rightarrow> 'a list \<Rightarrow> 'a list" where
  "all_pages key n 0 cursor xs = []"
| "all_pages key n (Suc k) cursor xs = (case fetch_page key n cursor xs of
     (page, None) \<Rightarrow> page
   | (page, Some c) \<Rightarrow> page @ all_pages key n k (Some c) xs)"

lemma page_after_split:
  assumes "distinct (map key (us @ x # vs))"
  shows "page_after key (Some (key x)) (us @ x # vs) = vs"
proof -
  have "\<forall>u \<in> set us. key u \<noteq> key x" using assms by (force simp: image_iff)
  then have "dropWhile (\<lambda>y. key y \<noteq> key x) (us @ x # vs) = x # vs" by (simp add: dropWhile_append2)
  then show ?thesis by (simp add: page_after_def)
qed

lemma all_pages_suffix:
  assumes "distinct (map key xs)" and "0 < n" and "page_after key cursor xs = vs" and "xs = us @ vs"
    and "length vs < k"
  shows "all_pages key n k cursor xs = vs"
  using assms(3-5)
proof (induction k arbitrary: cursor us vs)
  case (Suc k)
  show ?case
  proof (cases "length vs \<le> n")
    case True
    with Suc.prems show ?thesis by (simp add: fetch_page_def cursorPage_def)
  next
    case False
    let ?p = "take n vs" and ?r = "drop n vs"
    have p: "?p \<noteq> []" using False assms(2) by (cases vs) auto
    then obtain q x where q: "?p = q @ [x]" by (metis rev_exhaust)
    have xs: "xs = (us @ q) @ x # ?r" using Suc.prems(2) q append_take_drop_id [of n vs] by (metis append.assoc append_Cons append_Nil)
    have "fetch_page key n cursor xs = (?p, Some (key x))"
      using False Suc.prems(1) q assms(2) by (simp add: fetch_page_def cursorPage_def Let_def min_def)
    then have run: "all_pages key n (Suc k) cursor xs = ?p @ all_pages key n k (Some (key x)) xs" by simp
    have "page_after key (Some (key x)) xs = ?r"
      using page_after_split [of key "us @ q" x ?r] assms(1) xs by simp
    moreover have "xs = (us @ q @ [x]) @ ?r" using xs by simp
    moreover have "length ?r < k" using Suc.prems(3) assms(2) False by simp
    ultimately have "all_pages key n k (Some (key x)) xs = ?r" using Suc.IH by blast
    with run show ?thesis by simp
  qed
qed simp

section \<open>Dispute messages\<close>

text \<open>A row as the API shows it: the attachment's link only once the scan marked it clean.\<close>

record message_view =
  mv_id :: ident
  mv_body :: string
  mv_authorId :: ident
  mv_attachmentUrl :: "string option"

definition view_message :: "dispute_message \<Rightarrow> message_view" where
  "view_message m = \<lparr>mv_id = dm_id m, mv_body = dm_body m, mv_authorId = dm_authorId m,
     mv_attachmentUrl = (case dm_attachment m of None \<Rightarrow> None
        | Some (k, st) \<Rightarrow> if k \<noteq> [] \<and> st = SCAN_CLEAN then Some k else None)\<rparr>"

definition listMessages :: "ident \<Rightarrow> actor \<Rightarrow> db \<Rightarrow> exn + message_view list" where
  "listMessages did u s = (case find_dispute did s of
     None \<Rightarrow> Inl NotFoundException
   | Some d \<Rightarrow> (case find_engagement (d_engagementId d) s of
       None \<Rightarrow> Inl TypeErrorExn
     | Some e \<Rightarrow> if \<not> canView d e (find_appeal did s) u then Inl ForbiddenException
         else Inr (map view_message (sort_key dm_createdAt
                (filter (\<lambda>m. dm_disputeId m = did) (t_messages s))))))"

definition notifyMessageParticipants :: "dispute \<Rightarrow> engagement \<Rightarrow> actor \<Rightarrow> db \<Rightarrow> db" where
  "notifyMessageParticipants d e author s =
     notify_all (map ById (filter (\<lambda>u. u \<noteq> ac_id author) (remdups
        (parties_ids e @ (if truthy (d_arbiterId d) then [the (d_arbiterId d)] else [])))))
       DISPUTE_MESSAGE_CREATED s"

definition createMessage ::
  "env \<Rightarrow> ident \<Rightarrow> actor \<Rightarrow> string \<Rightarrow> string option \<Rightarrow> db \<Rightarrow> (db, message_view) outcome" where
  "createMessage w did u body attachment s = (case find_dispute did s of
     None \<Rightarrow> throw NotFoundException s
   | Some d \<Rightarrow> (case find_engagement (d_engagementId d) s of
       None \<Rightarrow> throw TypeErrorExn s
     | Some e \<Rightarrow>
         if \<not> canView d e (find_appeal did s) u then throw ForbiddenException s
         else if attachment \<noteq> None \<and> \<not> s3Up w then throw PlainError s
         else
           (let (mid, s1) = fresh_id w s;
                m = \<lparr>dm_id = mid, dm_disputeId = did, dm_authorId = ac_id u, dm_body = body,
                     dm_attachment = map_option (\<lambda>k. (k, SCAN_PENDING)) attachment, dm_createdAt = now w\<rparr>;
                s2 = s1\<lparr>t_messages := t_messages s1 @ [m],
                        scanQueue := scanQueue s1 @ (if attachment = None then [] else [(''dispute-message'', mid)])\<rparr>
            in return ((view_message m)\<lparr>mv_attachmentUrl := None\<rparr>) (notifyMessageParticipants d e u s2))))"

lemma listMessages_access:
  "listMessages did u s = Inr ms \<Longrightarrow> \<exists>d e. find_dispute did s = Some d \<and>
     find_engagement (d_engagementId d) s = Some e \<and> canView d e (find_appeal did s) u"
  by (auto simp: listMessages_def split: option.splits if_splits)

lemma view_message_clean: "mv_attachmentUrl (view_message m) = Some k \<Longrightarrow> dm_attachment m = Some (k, SCAN_CLEAN)"
  by (auto simp: view_message_def split: option.splits if_splits)

section \<open>Milestone comments\<close>

definition recipients :: "engagement \<Rightarrow> party_user \<Rightarrow> (ident option \<times> string) list" where
  "recipients e author =
     (let parties = [(e_companyId e, e_companyAddress e), (e_recruiterId e, e_recruiterAddress e),
                     (e_arbiterId e, e_arbiterAddress e)];
          isAuthor = (\<lambda>(i, a). (truthy i \<and> i = pu_id author) \<or>
                               (truthy (pu_stellar author) \<and> pu_stellar author = Some a));
          key = (\<lambda>(i, a). case i of Some x \<Rightarrow> x | None \<Rightarrow> a)
      in rev (snd (fold (\<lambda>p (seen, out).
            if isAuthor p \<or> key p \<in> set seen then (seen, out) else (key p # seen, p # out)) parties ([], []))))"

definition notify_party :: "ident option \<times> string \<Rightarrow> recipient" where
  "notify_party p = (if truthy (fst p) then ById (the (fst p)) else ByAddress (snd p))"

definition create_comment ::
  "env \<Rightarrow> ident \<Rightarrow> nat \<Rightarrow> party_user \<Rightarrow> string \<Rightarrow> db \<Rightarrow> (db, milestone_comment) outcome" where
  "create_comment w eid i u body s = (case load_milestone eid i s of
     Inl x \<Rightarrow> throw x s
   | Inr (m, e) \<Rightarrow> (case requirePartyRole e u [PR_COMPANY, PR_RECRUITER, PR_ARBITER] of
       Inl x \<Rightarrow> throw x s
     | Inr _ \<Rightarrow>
         (let (cid, s1) = fresh_id w s;
              c = \<lparr>mc_id = cid, mc_milestoneId = m_id m, mc_engagementId = eid, mc_authorId = pu_id u,
                   mc_body = body, mc_createdAt = now w\<rparr>
          in return c (notify_all (map notify_party (recipients e u)) MILESTONE_COMMENT_ADDED
               (s1\<lparr>t_comments := t_comments s1 @ [c]\<rparr>)))))"

definition list_comments ::
  "ident \<Rightarrow> nat \<Rightarrow> party_user \<Rightarrow> ident option \<Rightarrow> int \<Rightarrow> db \<Rightarrow> exn + (milestone_comment list \<times> ident option)" where
  "list_comments eid i u cursor limit s = (case load_milestone eid i s of
     Inl x \<Rightarrow> Inl x
   | Inr (m, e) \<Rightarrow> (case requirePartyRole e u [PR_COMPANY, PR_RECRUITER, PR_ARBITER] of
       Inl x \<Rightarrow> Inl x
     | Inr _ \<Rightarrow> Inr (fetch_page mc_id (nat (min (max limit 1) 100)) cursor
         (sort_key (\<lambda>c. (mc_createdAt c, mc_id c)) (filter (\<lambda>c. mc_milestoneId c = m_id m) (t_comments s))))))"

text \<open>The author of a comment is never notified of it.\<close>

lemma recipients_not_author:
  "(i, a) \<in> set (recipients e u) \<Longrightarrow> \<not> (truthy i \<and> i = pu_id u) \<and> \<not> (truthy (pu_stellar u) \<and> pu_stellar u = Some a)"
  by (auto simp: recipients_def Let_def split: if_splits)

section \<open>Property\<close>

text \<open>
  Paging is exact: starting without a cursor and following the cursor of each page, the
  comments of a milestone are returned in order, each once, none skipped.
\<close>
lemma pages_cover_the_list:
  assumes "distinct (map key xs)" and "0 < n" and "length xs < k"
  shows "all_pages key n k None xs = xs"
  using all_pages_suffix [OF assms(1,2), of None xs "[]" k] assms(3) by (simp add: page_after_def)

lemma pages_cover_the_list_witness:
  "all_pages id 2 6 None [''a'', ''b'', ''c'', ''d'', ''e''] = [''a'', ''b'', ''c'', ''d'', ''e'']"
  using pages_cover_the_list [of id "[''a'', ''b'', ''c'', ''d'', ''e'']" 2 6] by simp

end
