(* ===== verification/JsText.thy ===== *)
theory JsText
  imports Decimal
begin

text \<open>
  The string methods of JavaScript the services share: \<open>trim\<close>, \<open>toLowerCase\<close>, \<open>toUpperCase\<close>, \<open>startsWith\<close>,
  \<open>includes\<close>, \<open>join\<close>.  A character of the model is one of the first 256 code points; \<open>upper_char\<close> changes
  the ASCII letters only.
\<close>

definition char_in :: "nat \<Rightarrow> nat \<Rightarrow> char \<Rightarrow> bool" where
  "char_in a b c \<longleftrightarrow> a \<le> (of_char c :: nat) \<and> (of_char c :: nat) \<le> b"

definition lower_char :: "char \<Rightarrow> char" where
  "lower_char c = (if char_in 65 90 c \<or> char_in 192 214 c \<or> char_in 216 222 c then char_of (of_char c + 32 :: nat) else c)"

definition upper_char :: "char \<Rightarrow> char" where
  "upper_char c = (if char_in 97 122 c then char_of (of_char c - 32 :: nat) else c)"

definition toLowerCase :: "string \<Rightarrow> string" where
  "toLowerCase = map lower_char"

definition toUpperCase :: "string \<Rightarrow> string" where
  "toUpperCase = map upper_char"

definition is_space :: "char \<Rightarrow> bool" where
  "is_space c \<longleftrightarrow> char_in 9 13 c \<or> char_in 32 32 c \<or> char_in 160 160 c"

definition trim :: "string \<Rightarrow> string" where
  "trim s = rev (dropWhile is_space (rev (dropWhile is_space s)))"

lemma trim_Nil [simp]: "trim [] = []"
  by (simp add: trim_def)

lemma trim_no_space:
  assumes "s = [] \<or> \<not> is_space (hd s) \<and> \<not> is_space (last s)"
  shows "trim s = s"
proof (cases "s = []")
  case False
  with assms have e: "\<not> is_space (hd s)" "\<not> is_space (last s)" by auto
  from e(1) False have "dropWhile is_space s = s" by (cases s) simp_all
  moreover from e(2) False have "dropWhile is_space (rev s) = rev s" by (cases s rule: rev_cases) simp_all
  ultimately
  show ?thesis by (simp add: trim_def)
qed simp

definition starts_with :: "string \<Rightarrow> string \<Rightarrow> bool" where
  "starts_with p s \<longleftrightarrow> take (length p) s = p"

text \<open>\<open>s.includes(p)\<close>.\<close>

fun has_substring :: "string \<Rightarrow> string \<Rightarrow> bool" where
  "has_substring p [] \<longleftrightarrow> p = []"
| "has_substring p (c # s) \<longleftrightarrow> starts_with p (c # s) \<or> has_substring p s"

definition join_with :: "string \<Rightarrow> string list \<Rightarrow> string" where
  "join_with sep xs = (case xs of [] \<Rightarrow> [] | y # ys \<Rightarrow> y @ concat (map (\<lambda>z. sep @ z) ys))"

text \<open>The order \<open><\<close> of strings: by code unit, a prefix first.\<close>

fun js_less :: "string \<Rightarrow> string \<Rightarrow> bool" where
  "js_less [] [] = False"
| "js_less [] (_ # _) = True"
| "js_less (_ # _) [] = False"
| "js_less (x # xs) (y # ys) \<longleftrightarrow> (of_char x :: nat) < of_char y \<or> x = y \<and> js_less xs ys"

lemma js_less_irrefl: "\<not> js_less a a"
  by (induction a) auto

lemma js_less_total: "a \<noteq> b \<Longrightarrow> js_less a b \<or> js_less b a"
proof (induction a b rule: js_less.induct)
  case (4 x xs y ys)
  show ?case
  proof (cases "x = y")
    case False
    then have "of_char x \<noteq> (of_char y :: nat)" by simp
    then have "of_char x < (of_char y :: nat) \<or> of_char y < (of_char x :: nat)" by (rule linorder_neqE) blast+
    then show ?thesis by auto
  qed (use 4 in auto)
qed simp_all

lemma js_less_trans: "js_less a b \<Longrightarrow> js_less b c \<Longrightarrow> js_less a c"
proof (induction a b arbitrary: c rule: js_less.induct)
  case (2 y ys)
  then show ?case by (cases c) simp_all
next
  case (4 x xs y ys)
  then obtain z zs where c: "c = z # zs" by (cases c) simp_all
  with 4 show ?case by auto
qed simp_all

end
