(* ===== verification/Csv.thy ===== *)
theory Csv
  imports JsText
begin

text \<open>
  The CSV reader of the bulk import (\<^verbatim>\<open>modules/engagements/engagements.service.ts\<close>, and its copy in
  \<^verbatim>\<open>engagement-import.service.ts\<close>): lines, fields with double quotes, rows as maps from column to
  value, and the writer the quoting convention is meant for.
\<close>

section \<open>Characters\<close>

abbreviation dquote :: char where "dquote \<equiv> CHR 0x22"
abbreviation comma :: char where "comma \<equiv> CHR 0x2C"
abbreviation newline :: char where "newline \<equiv> CHR 0x0A"
abbreviation carriage :: char where "carriage \<equiv> CHR 0x0D"

section \<open>Lines and fields\<close>

text \<open>\<open>csv.split(/\<close>CR?LF\<open>/)\<close>.\<close>

fun split_lines :: "string \<Rightarrow> string list" where
  "split_lines [] = [[]]"
| "split_lines (c # cs) =
     (if c = newline then [] # split_lines cs
      else if c = carriage \<and> cs \<noteq> [] \<and> hd cs = newline then [] # split_lines (tl cs)
      else (case split_lines cs of [] \<Rightarrow> [[c]] | l # ls \<Rightarrow> (c # l) # ls))"

text \<open>\<open>current\<close> and \<open>inQuotes\<close> are the variables of the loop.\<close>

fun scan_fields :: "bool \<Rightarrow> string \<Rightarrow> string \<Rightarrow> string list" where
  "scan_fields q cur [] = [cur]"
| "scan_fields q cur (c # cs) =
     (if c = dquote
      then (if q \<and> cs \<noteq> [] \<and> hd cs = dquote then scan_fields q (cur @ [dquote]) (tl cs)
            else scan_fields (\<not> q) cur cs)
      else if c = comma \<and> \<not> q then cur # scan_fields q [] cs
      else scan_fields q (cur @ [c]) cs)"

definition parseCsvLine :: "string \<Rightarrow> string list" where
  "parseCsvLine line = scan_fields False [] line"

text \<open>The quoting convention: a field in double quotes, its own quotes doubled.\<close>

definition double_quotes :: "string \<Rightarrow> string" where
  "double_quotes s = concat (map (\<lambda>c. if c = dquote then [dquote, dquote] else [c]) s)"

definition quote_field :: "string \<Rightarrow> string" where
  "quote_field s = dquote # double_quotes s @ [dquote]"

fun join_fields :: "string list \<Rightarrow> string" where
  "join_fields [] = []"
| "join_fields [f] = f"
| "join_fields (f # fs) = f @ comma # join_fields fs"

lemma scan_quoted:
  assumes "t = [] \<or> hd t = comma"
  shows "scan_fields True cur (double_quotes s @ dquote # t) = scan_fields False (cur @ s) t"
proof (induction s arbitrary: cur)
  case Nil
  from assms show ?case by (auto simp: double_quotes_def)
next
  case (Cons c s)
  have "double_quotes (c # s) = (if c = dquote then [dquote, dquote] else [c]) @ double_quotes s"
    by (simp add: double_quotes_def)
  with Cons.IH [of "cur @ [c]"] show ?case by auto
qed

lemma scan_plain:
  assumes "dquote \<notin> set s" and "comma \<notin> set s"
  shows "scan_fields False cur (s @ t) = scan_fields False (cur @ s) t"
  using assms by (induction s arbitrary: cur) auto

text \<open>A field as a writer may emit it: quoted, or plain when it holds neither a quote nor a comma.\<close>

definition written_as :: "string \<Rightarrow> string \<Rightarrow> bool" where
  "written_as s t \<longleftrightarrow> t = quote_field s \<or> (t = s \<and> dquote \<notin> set s \<and> comma \<notin> set s)"

lemma scan_field:
  assumes "written_as s t" and "r = [] \<or> hd r = comma"
  shows "scan_fields False [] (t @ r) = scan_fields False s r"
  using assms scan_quoted [of r "[]" s] scan_plain [of s "[]" r]
  by (auto simp: written_as_def quote_field_def)

lemma parse_written:
  assumes "list_all2 written_as fs ts" and "fs \<noteq> []"
  shows "parseCsvLine (join_fields ts) = fs"
  using assms unfolding parseCsvLine_def
proof (induction fs ts rule: list_all2_induct)
  case (Cons f fs t ts)
  show ?case
  proof (cases ts)
    case Nil
    with Cons.hyps have "fs = []" by simp
    with Nil scan_field [OF Cons.hyps(1), of "[]"] show ?thesis by simp
  next
    case (Cons t' ts')
    with Cons.hyps have "fs \<noteq> []" by auto
    from Cons.IH [OF this] scan_field [OF Cons.hyps(1), of "comma # join_fields ts"] Cons
    show ?thesis by simp
  qed
qed simp

section \<open>Rows\<close>

definition column :: "string list \<Rightarrow> string list \<Rightarrow> nat \<Rightarrow> string" where
  "column headers values i = (if i < length values then trim (values ! i) else [])"

text \<open>\<open>row[h] = values[idx]?.trim() ?? ''\<close> for each header; a repeated header keeps the last value.\<close>

definition csv_row :: "string list \<Rightarrow> string list \<Rightarrow> string \<Rightarrow> string option" where
  "csv_row headers values = map_of (rev (zip headers (map (column headers values) [0..<length headers])))"

definition csv_get :: "string list \<Rightarrow> string list \<Rightarrow> string \<Rightarrow> string" where
  "csv_get headers values h = (case csv_row headers values h of None \<Rightarrow> [] | Some v \<Rightarrow> v)"

lemma csv_row_nth:
  assumes "distinct headers" and "i < length headers"
  shows "csv_row headers values (headers ! i) = Some (column headers values i)"
proof -
  let ?vs = "map (column headers values) [0..<length headers]"
  have "distinct (map fst (rev (zip headers ?vs)))" using assms(1) by (simp add: rev_map [symmetric])
  moreover have "(headers ! i, ?vs ! i) \<in> set (rev (zip headers ?vs))"
    using assms(2) by (auto simp: in_set_zip intro: exI [of _ i])
  ultimately show ?thesis using assms(2) by (simp add: csv_row_def)
qed

definition REQUIRED_COLUMNS :: "string list" where
  "REQUIRED_COLUMNS = [''engagementId'', ''companyAddress'', ''recruiterAddress'', ''arbiterAddress'',
     ''tokenAddress'', ''totalAmount'', ''jobTitle'']"

section \<open>The writer of the billing exports\<close>

text \<open>
  \<open>csvCell\<close> and \<open>buildCsvRow\<close> of \<^verbatim>\<open>modules/billing/billing.service.ts\<close>: a cell is quoted when it holds a
  comma, a quote or a newline.
\<close>

definition cell_text :: "string option \<Rightarrow> string" where
  "cell_text v = (case v of None \<Rightarrow> [] | Some s \<Rightarrow> s)"

definition csvCell :: "string option \<Rightarrow> string" where
  "csvCell v = (let s = cell_text v
     in if comma \<in> set s \<or> dquote \<in> set s \<or> newline \<in> set s then quote_field s else s)"

definition buildCsvRow :: "string option list \<Rightarrow> string" where
  "buildCsvRow cells = join_fields (map csvCell cells)"

lemma csvCell_written: "written_as (cell_text v) (csvCell v)"
  by (auto simp: written_as_def csvCell_def Let_def)

text \<open>
  The CSV reader of the bulk import inverts the CSV writer of the billing exports: whatever the
  cells hold (commas, quotes, newlines, nothing), a written row is read back cell by cell.
\<close>
lemma csv_row_round_trip:
  assumes "cells \<noteq> []"
  shows "parseCsvLine (buildCsvRow cells) = map cell_text cells"
proof -
  have "list_all2 written_as (map cell_text cells) (map csvCell cells)"
    by (simp add: list_all2_map1 list_all2_map2 list_all2_same csvCell_written)
  from parse_written [OF this] assms show ?thesis by (simp add: buildCsvRow_def)
qed

lemma csv_row_round_trip_witness:
  "parseCsvLine (buildCsvRow [Some ''e1'', None, Some (''a,'' @ [dquote] @ ''b'')]) = [''e1'', [], ''a,'' @ [dquote] @ ''b'']"
  using csv_row_round_trip [of "[Some ''e1'', None, Some (''a,'' @ [dquote] @ ''b'')]"] by (simp add: cell_text_def)

end
