(* ===== verification/Engagements.thy ===== *)
theory Engagements
  imports MilestoneFlows Discussion Csv
begin

text \<open>
  \<^verbatim>\<open>modules/engagements/engagements.service.ts\<close>: validation and creation of an engagement, the fee
  preview, the invite a recruiter accepts (which funds the escrow on chain) or declines, the queries,
  cancellation and replacement, the synchronisation from chain, archive and tags, the CSV import and
  the overrides of administrators; and \<^verbatim>\<open>audit-log.service.ts\<close>, which records status changes.
\<close>

section \<open>Overdue roles\<close>

definition OPEN_ROLE_STATUSES :: "engagement_status list" where
  "OPEN_ROLE_STATUSES = [PENDING_ACCEPTANCE, ACTIVE, REPLACEMENT_REQUESTED]"

definition isEngagementOverdue :: "engagement \<Rightarrow> time \<Rightarrow> bool" where
  "isEngagementOverdue e t =
     (if e_targetStartDate e = None \<or> e_placedAt e \<noteq> None then False
      else if e_status e \<notin> set OPEN_ROLE_STATUSES then False
      else lt_opt (e_targetStartDate e) t)"

section \<open>Preparing an engagement\<close>

record create_dto =
  cd_engagementId :: ident
  cd_companyAddress :: string
  cd_recruiterAddress :: string
  cd_arbiterAddress :: string
  cd_tokenAddress :: string
  cd_totalAmount :: string
  cd_templateId :: "string option"
  cd_jobTitle :: "string option"
  cd_targetStartDate :: "time option"
  cd_milestones :: "template_item list option"
  cd_retentionDays :: "int list option"

text \<open>The request merged with the template version; the request wins.\<close>

record merged_data =
  mg_dto :: create_dto
  mg_jobTitle :: "string option"
  mg_milestones :: "template_item list option"
  mg_retentionDays :: "int list option"

definition or_else :: "'a option \<Rightarrow> 'a option \<Rightarrow> 'a option" where
  "or_else a b = (case a of None \<Rightarrow> b | Some x \<Rightarrow> Some x)"

lemma or_else_simps [simp]: "or_else None b = b" "or_else (Some x) b = Some x"
  by (simp_all add: or_else_def)

definition merge_template :: "create_dto \<Rightarrow> template_version option \<Rightarrow> merged_data" where
  "merge_template dto tv =
     \<lparr>mg_dto = dto,
      mg_jobTitle = or_else (cd_jobTitle dto) (map_option tv_jobTitle tv),
      mg_milestones = or_else (cd_milestones dto) (Option.bind tv tv_milestones),
      mg_retentionDays = or_else (cd_retentionDays dto) (Option.bind tv tv_retentionDays)\<rparr>"

text \<open>\<open>acc + (m.paymentPercent || 0)\<close> over the milestones.\<close>

definition percent_sum :: "template_item list \<Rightarrow> int" where
  "percent_sum its = sum_list (map (\<lambda>i. case ti_paymentPercent i of None \<Rightarrow> 0 | Some p \<Rightarrow> p) its)"

text \<open>The entries of \<open>milestoneData\<close>; the retention days are taken in order, one per retention milestone.\<close>

record milestone_data =
  mi_index :: nat
  mi_kind :: milestone_kind
  mi_paymentPercent :: "int option"
  mi_retentionDays :: "int option"
  mi_status :: milestone_status

fun milestone_data_of :: "int list option \<Rightarrow> nat \<Rightarrow> nat \<Rightarrow> template_item list \<Rightarrow> milestone_data list" where
  "milestone_data_of days ri i [] = []"
| "milestone_data_of days ri i (it # its) =
     (let retention = (ti_kind it = RETENTION)
      in \<lparr>mi_index = i, mi_kind = ti_kind it, mi_paymentPercent = ti_paymentPercent it,
          mi_retentionDays = (if retention
             then (case days of None \<Rightarrow> None | Some ds \<Rightarrow> if ri < length ds then Some (ds ! ri) else None)
             else None),
          mi_status = (if retention then LOCKED else PENDING)\<rparr>
         # milestone_data_of days (if retention then Suc ri else ri) (Suc i) its)"

text \<open>The nested create of the milestones, each with a generated id.\<close>

definition milestone_row :: "ident \<Rightarrow> ident \<Rightarrow> milestone_data \<Rightarrow> milestone" where
  "milestone_row mid eid d =
     \<lparr>m_id = mid, m_engagementId = eid, m_index = mi_index d, m_kind = mi_kind d,
      m_paymentPercent = the (mi_paymentPercent d), m_amount = None, m_retentionDays = mi_retentionDays d,
      m_validAfterLedger = None, m_unlockEstimatedAt = None, m_proofHash = None, m_disputeReason = None,
      m_approachingSent = False, m_placementDueAt = None, m_reminderSent = False, m_status = mi_status d,
      m_paymentReleased = None, m_confirmedAt = None\<rparr>"

fun insert_milestones :: "env \<Rightarrow> ident \<Rightarrow> milestone_data list \<Rightarrow> db \<Rightarrow> db" where
  "insert_milestones w eid [] s = s"
| "insert_milestones w eid (d # ds) s =
     (let (mid, s1) = fresh_id w s
      in insert_milestones w eid ds (s1\<lparr>t_milestones := t_milestones s1 @ [milestone_row mid eid d]\<rparr>))"

definition engagement_row :: "env \<Rightarrow> merged_data \<Rightarrow> int \<Rightarrow> ident option \<Rightarrow> time option \<Rightarrow> engagement" where
  "engagement_row w mg amount tvid target =
     (let dto = mg_dto mg
      in \<lparr>e_id = cd_engagementId dto, e_companyAddress = cd_companyAddress dto,
          e_recruiterAddress = cd_recruiterAddress dto, e_arbiterAddress = cd_arbiterAddress dto,
          e_companyId = None, e_recruiterId = None, e_arbiterId = None, e_clientId = None,
          e_freelancerId = None, e_tokenAddress = cd_tokenAddress dto, e_totalAmount = amount,
          e_releasedAmount = 0, e_fundingShortfall = False, e_escrowBalance = None,
          e_jobTitle = or_empty (mg_jobTitle mg), e_status = PENDING_ACCEPTANCE, e_txHash = None,
          e_createdLedger = None, e_templateVersionId = tvid, e_tags = [], e_archivedAt = None,
          e_requiredApprovals = 1, e_placedAt = None, e_targetStartDate = target,
          e_fundingRateUsd = None, e_createdAt = now w\<rparr>)"

text \<open>
  \<open>engagement.create\<close> with its milestones: the arguments are built first (\<open>BigInt\<close> may reject the
  amount), Prisma refuses a missing percentage and a used id, and then all rows are written.
\<close>

definition create_engagement_row ::
  "env \<Rightarrow> merged_data \<Rightarrow> ident option \<Rightarrow> time option \<Rightarrow> milestone_data list \<Rightarrow> db \<Rightarrow> (db, engagement) outcome" where
  "create_engagement_row w mg tvid target ds s = (case big_int (cd_totalAmount (mg_dto mg)) of
     None \<Rightarrow> throw PlainError s
   | Some amount \<Rightarrow>
       if \<exists>d \<in> set ds. mi_paymentPercent d = None then throw PlainError s
       else (let e = engagement_row w mg amount tvid target
             in if find_engagement (e_id e) s \<noteq> None then throw UniqueViolation s
                else return e (insert_milestones w (e_id e) ds (s\<lparr>t_engagements := t_engagements s @ [e]\<rparr>))))"

text \<open>
  What \<open>prepareEngagement\<close> returns is the serialized engagement; its callers destructure
  \<open>mergedData\<close>, \<open>templateVersion\<close> and \<open>milestoneData\<close> from it.  \<open>serialized\<close> holds those
  properties as the callers see them: an engagement row has none of them.
\<close>

record prepared =
  pp_mergedData :: "merged_data option"
  pp_templateVersion :: "ident option"
  pp_milestoneData :: "milestone_data list option"

definition serialized :: "engagement \<Rightarrow> prepared" where
  "serialized e = \<lparr>pp_mergedData = None, pp_templateVersion = None, pp_milestoneData = None\<rparr>"

definition find_template_version :: "user \<Rightarrow> ident \<Rightarrow> db \<Rightarrow> exn + template_version option" where
  "find_template_version u tid s = (case List.find (\<lambda>t. tp_id t = tid) (t_templates s) of
     None \<Rightarrow> Inl NotFoundException
   | Some t \<Rightarrow>
       if tp_companyId t \<noteq> u_id u then Inl ForbiddenException
       else Inr (List.find (\<lambda>v. tv_templateId v = tid \<and> tv_version v = tp_currentVersion t) (t_templateVersions s)))"

definition prepareEngagement :: "env \<Rightarrow> user \<Rightarrow> create_dto \<Rightarrow> db \<Rightarrow> (db, prepared) outcome" where
  "prepareEngagement w u dto s =
     (if find_engagement (cd_engagementId dto) s \<noteq> None then throw ConflictException s
      else if cd_tokenAddress dto \<notin> set (allowedTokens w) then throw BadRequestException s
      else and_then (lift (if truthy (cd_templateId dto) then find_template_version u (the (cd_templateId dto)) s
                           else Inr None) s) (\<lambda>tv s.
        let mg = merge_template dto tv
        in if \<not> truthy (mg_jobTitle mg) then throw BadRequestException s
           else (case mg_milestones mg of
             None \<Rightarrow> throw BadRequestException s
           | Some its \<Rightarrow>
               if percent_sum its \<noteq> 100 then throw BadRequestException s
               else and_then (create_engagement_row w mg (map_option tv_id tv) None
                                (milestone_data_of (mg_retentionDays mg) 0 0 its) s) (\<lambda>e s1.
                 return (serialized e) (notify (ByAddress (cd_recruiterAddress dto)) ENGAGEMENT_CREATED s1)))))"

section \<open>Create and preview\<close>

definition bump_template :: "env \<Rightarrow> ident \<Rightarrow> db \<Rightarrow> (db, unit) outcome" where
  "bump_template w tid s =
     (if \<exists>t \<in> set (t_templates s). tp_id t = tid
      then return () (s\<lparr>t_templates := update_where (\<lambda>t. tp_id t = tid)
             (\<lambda>t. t\<lparr>tp_usageCount := tp_usageCount t + 1, tp_lastUsedAt := Some (now w)\<rparr>) (t_templates s)\<rparr>)
      else throw RecordNotFound s)"

text \<open>Reading a property of an undefined \<open>mergedData\<close> or \<open>milestoneData\<close> is a TypeError.\<close>

definition create :: "env \<Rightarrow> user \<Rightarrow> create_dto \<Rightarrow> db \<Rightarrow> (db, engagement) outcome" where
  "create w u dto s = and_then (prepareEngagement w u dto s) (\<lambda>p s1.
     and_then (if truthy (cd_templateId dto) then bump_template w (the (cd_templateId dto)) s1 else return () s1) (\<lambda>_ s2.
       case pp_mergedData p of
         None \<Rightarrow> throw TypeErrorExn s2
       | Some mg \<Rightarrow>
           and_then (create_engagement_row w mg (pp_templateVersion p) (cd_targetStartDate dto)
                       (case pp_milestoneData p of None \<Rightarrow> [] | Some ds \<Rightarrow> ds) s2) (\<lambda>e s3.
             return e (notify (ByAddress (cd_recruiterAddress dto)) ENGAGEMENT_CREATED s3))))"

text \<open>\<open>allocated\<close> is the sum of the shares given so far; the last share takes the rest.\<close>

fun split_from :: "int \<Rightarrow> int \<Rightarrow> int list \<Rightarrow> int list" where
  "split_from amount allocated [] = []"
| "split_from amount allocated [p] = [amount - allocated]"
| "split_from amount allocated (p # ps) =
     (let share = big_div (amount * p) 100 in share # split_from amount (allocated + share) ps)"

definition splitByPercent :: "int \<Rightarrow> int list \<Rightarrow> int list" where
  "splitByPercent amount percents = split_from amount 0 percents"

record fee_line =
  fl_amount :: int
  fl_platformFee :: int
  fl_total :: int
  fl_networkFee :: int

record fee_preview =
  fp_platformFeeBps :: int
  fp_totalAmount :: int
  fp_platformFee :: int
  fp_totalCost :: int
  fp_networkFeeTotal :: int
  fp_milestones :: "fee_line list"

text \<open>The breakdown, from the amount on.\<close>

definition breakdown :: "int \<Rightarrow> int \<Rightarrow> int \<Rightarrow> int list \<Rightarrow> fee_preview" where
  "breakdown bps networkFee amount percents =
     (let amounts = splitByPercent amount percents;
          fees = splitByPercent (big_div (amount * bps) 10000) percents;
          platformFee = sum_list fees
      in \<lparr>fp_platformFeeBps = bps, fp_totalAmount = amount, fp_platformFee = platformFee,
          fp_totalCost = amount + platformFee,
          fp_networkFeeTotal = networkFee * (int (length percents) + 1),
          fp_milestones = map2 (\<lambda>a f. \<lparr>fl_amount = a, fl_platformFee = f, fl_total = a + f, fl_networkFee = networkFee\<rparr>)
             amounts fees\<rparr>)"

definition platform_fee_bps :: "user \<Rightarrow> db \<Rightarrow> int" where
  "platform_fee_bps u s = (case List.find (\<lambda>x. u_id x = u_id u) (t_users s) of
     None \<Rightarrow> 0
   | Some x \<Rightarrow> (case u_planId x of
       None \<Rightarrow> 0
     | Some pid \<Rightarrow> (case List.find (\<lambda>p. pl_id p = pid) (t_plans s) of None \<Rightarrow> 0 | Some p \<Rightarrow> pl_feeBps p)))"

definition preview :: "env \<Rightarrow> user \<Rightarrow> create_dto \<Rightarrow> db \<Rightarrow> (db, fee_preview) outcome" where
  "preview w u dto s = and_then (prepareEngagement w u dto s) (\<lambda>p s1.
     let bps = platform_fee_bps u s1
     in and_then (lift (sorobanFee w) s1) (\<lambda>networkFee s1.
       case pp_mergedData p of
         None \<Rightarrow> throw TypeErrorExn s1
       | Some mg \<Rightarrow> (case big_int (cd_totalAmount (mg_dto mg)) of
           None \<Rightarrow> throw PlainError s1
         | Some amount \<Rightarrow> (case pp_milestoneData p of
             None \<Rightarrow> throw TypeErrorExn s1
           | Some ds \<Rightarrow> return (breakdown bps networkFee amount (map (\<lambda>d. the (mi_paymentPercent d)) ds)) s1))))"

section \<open>Invites\<close>

definition listPendingInvites :: "(string \<Rightarrow> bool \<Rightarrow> engagement list \<Rightarrow> engagement list) \<Rightarrow>
  string \<Rightarrow> nat \<Rightarrow> nat \<Rightarrow> ident option \<Rightarrow> db \<Rightarrow> engagement list \<times> ident option" where
  "listPendingInvites sorter recruiter page limit cursor s =
     (let rows = sorter ''createdAt'' False
            (filter (\<lambda>e. e_recruiterAddress e = recruiter \<and> e_status e = PENDING_ACCEPTANCE) (t_engagements s))
      in if truthy cursor then fetch_page e_id limit cursor rows
         else (take limit (drop ((page - 1) * limit) rows), None))"

text \<open>The guard \<open>acceptInvite\<close> and \<open>declineInvite\<close> share.\<close>

definition pending_invite :: "ident \<Rightarrow> user \<Rightarrow> db \<Rightarrow> exn + engagement" where
  "pending_invite eid u s = (case find_engagement eid s of
     None \<Rightarrow> Inl NotFoundException
   | Some e \<Rightarrow>
       if u_stellarAddress u \<noteq> Some (e_recruiterAddress e) then Inl ForbiddenException
       else if e_status e \<noteq> PENDING_ACCEPTANCE then Inl ConflictException
       else Inr e)"

definition checkTokenBalance :: "env \<Rightarrow> string \<Rightarrow> string \<Rightarrow> stroops \<Rightarrow> exn + bool" where
  "checkTokenBalance w account tok required = (case balanceOf w account tok of
     Inl x \<Rightarrow> Inl x
   | Inr b \<Rightarrow> Inr (required \<le> b))"

text \<open>The retention milestones the transaction schedules: those with a number of days.\<close>

definition scheduled :: "milestone \<Rightarrow> bool" where
  "scheduled m \<longleftrightarrow> m_kind m = RETENTION \<and> nonzero (m_retentionDays m)"

definition unlock_ledger :: "int \<Rightarrow> milestone \<Rightarrow> int" where
  "unlock_ledger created m = created + the (m_retentionDays m) * 17280"

definition schedule_update :: "env \<Rightarrow> int \<Rightarrow> int \<Rightarrow> milestone \<Rightarrow> milestone" where
  "schedule_update w created cur m = m\<lparr>m_validAfterLedger := Some (unlock_ledger created m),
     m_unlockEstimatedAt := Some (ledgerToDateTime w (unlock_ledger created m) cur)\<rparr>"

definition create_schedule :: "env \<Rightarrow> ident \<Rightarrow> nat \<Rightarrow> int \<Rightarrow> time \<Rightarrow> db \<Rightarrow> (db, unit) outcome" where
  "create_schedule w eid i ledger t s =
     (if \<exists>x \<in> set (t_schedules s). s_engagementId x = eid \<and> s_index x = i then throw UniqueViolation s
      else let (sid, s1) = fresh_id w s
           in return () (s1\<lparr>t_schedules := t_schedules s1 @ [schedule_row sid eid i ledger t]\<rparr>))"

fun schedule_loop :: "env \<Rightarrow> ident \<Rightarrow> int \<Rightarrow> int \<Rightarrow> milestone list \<Rightarrow> db \<Rightarrow> (db, unit) outcome" where
  "schedule_loop w eid created cur [] s = return () s"
| "schedule_loop w eid created cur (m # ms) s =
     (let l = unlock_ledger created m
      in and_then (create_schedule w eid (m_index m) l (ledgerToDateTime w l cur)
            (update_milestone (m_id m) (\<lambda>x. x\<lparr>m_validAfterLedger := Some l,
               m_unlockEstimatedAt := Some (ledgerToDateTime w l cur)\<rparr>) s))
          (\<lambda>_ s1. schedule_loop w eid created cur ms s1))"

definition accept_tx :: "env \<Rightarrow> ident \<Rightarrow> string \<Rightarrow> int \<Rightarrow> int \<Rightarrow> milestone list \<Rightarrow> db \<Rightarrow> (db, engagement) outcome" where
  "accept_tx w eid txHash created cur ms s =
     and_then (schedule_loop w eid created cur ms
         (update_engagement eid (\<lambda>e. e\<lparr>e_txHash := Some txHash, e_createdLedger := Some created,
            e_status := ACTIVE\<rparr>) s)) (\<lambda>_ s1.
       case find_engagement eid s1 of None \<Rightarrow> throw TypeErrorExn s1 | Some e \<Rightarrow> return e s1)"

definition acceptInvite :: "env \<Rightarrow> ident \<Rightarrow> user \<Rightarrow> db \<Rightarrow> (db, engagement) outcome" where
  "acceptInvite w eid u s =
     and_then (lift (pending_invite eid u s) s) (\<lambda>e s.
     and_then (lift (checkTokenBalance w (e_companyAddress e) (e_tokenAddress e) (e_totalAmount e)) s) (\<lambda>sufficient s.
       if \<not> sufficient then throw BadRequestException s
       else (let created = createLedger w (length (chainCalls s))
             in and_then (call_chain w (CreateEngagement eid) s) (\<lambda>txHash s1.
               case latestLedger w of
                 Inl x \<Rightarrow> throw (StellarFailure x) s1
               | Inr cur \<Rightarrow>
                   and_then (transaction (accept_tx w eid txHash created cur
                               (filter scheduled (milestones_of eid s))) s1) (\<lambda>e' s2.
                     return e' (notify (ByAddress (e_companyAddress e)) ENGAGEMENT_CREATED s2))))))"

definition declineInvite :: "ident \<Rightarrow> user \<Rightarrow> db \<Rightarrow> (db, engagement) outcome" where
  "declineInvite eid u s =
     and_then (lift (pending_invite eid u s) s) (\<lambda>e s.
       return (e\<lparr>e_status := CANCELLED\<rparr>)
         (notify (ByAddress (e_companyAddress e)) ENGAGEMENT_CANCELLED
            (update_engagement eid (\<lambda>x. x\<lparr>e_status := CANCELLED\<rparr>) s)))"

section \<open>Cancellation and replacement\<close>

definition party_addresses :: "engagement \<Rightarrow> recipient list" where
  "party_addresses e = [ByAddress (e_companyAddress e), ByAddress (e_recruiterAddress e), ByAddress (e_arbiterAddress e)]"

definition cancelEngagement :: "env \<Rightarrow> ident \<Rightarrow> user \<Rightarrow> db \<Rightarrow> (db, engagement) outcome" where
  "cancelEngagement w eid u s = (case find_engagement eid s of
     None \<Rightarrow> throw NotFoundException s
   | Some e \<Rightarrow>
       if u_stellarAddress u \<noteq> Some (e_companyAddress e) then throw ForbiddenException s
       else if e_status e = CANCELLED \<or> e_status e = COMPLETED then throw ConflictException s
       else and_then (call_chain w (CancelEngagement eid) s) (\<lambda>_ s1.
         return (e\<lparr>e_status := CANCELLED\<rparr>)
           (notify_all (party_addresses e) ENGAGEMENT_CANCELLED
              (update_engagement eid (\<lambda>x. x\<lparr>e_status := CANCELLED\<rparr>) s1))))"

definition requestReplacement :: "ident \<Rightarrow> user \<Rightarrow> db \<Rightarrow> (db, engagement) outcome" where
  "requestReplacement eid u s = (case find_engagement eid s of
     None \<Rightarrow> throw NotFoundException s
   | Some e \<Rightarrow>
       if u_stellarAddress u \<noteq> Some (e_companyAddress e) then throw ForbiddenException s
       else if e_status e \<in> {CANCELLED, COMPLETED, REPLACEMENT_REQUESTED} then throw ConflictException s
       else return (e\<lparr>e_status := REPLACEMENT_REQUESTED\<rparr>)
              (notify_all (party_addresses e) N_REPLACEMENT_REQUESTED
                 (update_engagement eid (\<lambda>x. x\<lparr>e_status := REPLACEMENT_REQUESTED\<rparr>) s)))"

section \<open>Synchronisation from chain\<close>

definition statusMap :: "string \<Rightarrow> engagement_status" where
  "statusMap st = (if st = ''Active'' then ACTIVE else if st = ''Completed'' then COMPLETED
     else if st = ''Cancelled'' then CANCELLED else if st = ''ReplacementRequested'' then REPLACEMENT_REQUESTED
     else ACTIVE)"

text \<open>
  Everything is inside a \<open>try\<close> that logs and swallows, so a failure leaves the state as it is.  The
  rate of an engagement that is on chain and has none is asked of \<open>this.fetchUsdRate\<close>, which the
  class does not define: that call is a TypeError, swallowed too.
\<close>

definition syncFromChain :: "env \<Rightarrow> ident \<Rightarrow> db \<Rightarrow> db" where
  "syncFromChain w eid s = (case onChain w eid of
     Inl _ \<Rightarrow> s
   | Inr None \<Rightarrow> s
   | Inr (Some (st, released)) \<Rightarrow> (case find_engagement eid s of
       None \<Rightarrow> s
     | Some e \<Rightarrow> (case balanceOf w (contractId w) (e_tokenAddress e) of
         Inl _ \<Rightarrow> s
       | Inr balance \<Rightarrow>
           if truthy (e_txHash e) \<and> e_fundingRateUsd e = None then s
           else (let rel = (case released of None \<Rightarrow> 0 | Some r \<Rightarrow> r);
                     shortfall = (balance \<noteq> e_totalAmount e - rel);
                     s1 = update_engagement eid (\<lambda>x. x\<lparr>e_status := statusMap st, e_releasedAmount := rel,
                            e_escrowBalance := Some balance, e_fundingShortfall := shortfall\<rparr>) s
                 in if shortfall \<and> \<not> e_fundingShortfall e
                    then notify_all [ByAddress (e_companyAddress e), ByAddress (e_recruiterAddress e)]
                           FUNDING_SHORTFALL_DETECTED s1
                    else s1))))"

section \<open>Status changes, recusal, archive, tags, notes\<close>

definition record_audit :: "ident \<Rightarrow> engagement_status \<Rightarrow> engagement_status \<Rightarrow> ident \<Rightarrow> db \<Rightarrow> db" where
  "record_audit eid old new by_id s = s\<lparr>t_engagementAudits := t_engagementAudits s @
     [\<lparr>ea_engagementId = eid, ea_from = old, ea_to = new, ea_changedBy = by_id\<rparr>]\<rparr>"

definition updateStatus :: "ident \<Rightarrow> engagement_status \<Rightarrow> ident \<Rightarrow> db \<Rightarrow> (db, engagement) outcome" where
  "updateStatus eid st uid s = transaction (\<lambda>s. case find_engagement eid s of
     None \<Rightarrow> throw RecordNotFound s
   | Some e \<Rightarrow> return (e\<lparr>e_status := st\<rparr>) (record_audit eid (e_status e) st uid
        (update_engagement eid (\<lambda>x. x\<lparr>e_status := st\<rparr>) s))) s"

definition recuseArbiter :: "ident \<Rightarrow> ident \<Rightarrow> user_role \<Rightarrow> db \<Rightarrow> (db, unit) outcome" where
  "recuseArbiter eid uid role s = (case find_engagement eid s of
     None \<Rightarrow> throw NotFoundException s
   | Some e \<Rightarrow> (case List.find (\<lambda>u. u_stellarAddress u = Some (e_arbiterAddress e)) (t_users s) of
       None \<Rightarrow> throw ForbiddenException s
     | Some a \<Rightarrow>
         if role \<noteq> ARBITER \<or> u_id a \<noteq> uid then throw ForbiddenException s
         else return () (notify_all (map ById (active_admins s)) ARBITER_RECUSAL_REQUESTED s)))"

definition archive :: "env \<Rightarrow> ident \<Rightarrow> db \<Rightarrow> (db, engagement) outcome" where
  "archive w eid s = (case find_engagement eid s of
     None \<Rightarrow> throw NotFoundException s
   | Some e \<Rightarrow>
       if e_archivedAt e \<noteq> None then throw ConflictException s
       else return (e\<lparr>e_archivedAt := Some (now w)\<rparr>)
              (update_engagement eid (\<lambda>x. x\<lparr>e_archivedAt := Some (now w)\<rparr>) s))"

definition restore :: "ident \<Rightarrow> db \<Rightarrow> (db, engagement) outcome" where
  "restore eid s = (case find_engagement eid s of
     None \<Rightarrow> throw NotFoundException s
   | Some e \<Rightarrow>
       if e_archivedAt e = None then throw ConflictException s
       else return (e\<lparr>e_archivedAt := None\<rparr>) (update_engagement eid (\<lambda>x. x\<lparr>e_archivedAt := None\<rparr>) s))"

definition updateTags :: "ident \<Rightarrow> string list \<Rightarrow> db \<Rightarrow> (db, engagement) outcome" where
  "updateTags eid tags s = (case find_engagement eid s of
     None \<Rightarrow> throw NotFoundException s
   | Some e \<Rightarrow> return (e\<lparr>e_tags := tags\<rparr>) (update_engagement eid (\<lambda>x. x\<lparr>e_tags := tags\<rparr>) s))"

definition checkParticipant :: "engagement \<Rightarrow> actor \<Rightarrow> exn + unit" where
  "checkParticipant e u =
     (if ac_role u = ADMIN then Inr ()
      else if \<not> truthy (ac_stellar u) \<or>
        the (ac_stellar u) \<notin> set [e_companyAddress e, e_recruiterAddress e, e_arbiterAddress e]
      then Inl ForbiddenException else Inr ())"

definition createNote :: "env \<Rightarrow> ident \<Rightarrow> actor \<Rightarrow> string \<Rightarrow> db \<Rightarrow> (db, engagement_note) outcome" where
  "createNote w eid u body s = (case find_engagement eid s of
     None \<Rightarrow> throw NotFoundException s
   | Some e \<Rightarrow> and_then (lift (checkParticipant e u) s) (\<lambda>_ s.
       let (nid, s1) = fresh_id w s;
           n = \<lparr>en_id = nid, en_engagementId = eid, en_authorId = ac_id u, en_body = body, en_createdAt = now w\<rparr>
       in return n (s1\<lparr>t_notes := t_notes s1 @ [n]\<rparr>)))"

definition findNotes :: "ident \<Rightarrow> actor \<Rightarrow> db \<Rightarrow> exn + engagement_note list" where
  "findNotes eid u s = (case find_engagement eid s of
     None \<Rightarrow> Inl NotFoundException
   | Some e \<Rightarrow> (case checkParticipant e u of
       Inl x \<Rightarrow> Inl x
     | Inr _ \<Rightarrow> Inr (sort_key en_createdAt (filter (\<lambda>n. en_engagementId n = eid) (t_notes s)))))"

definition updateEngagementStatusByAdmin ::
  "ident \<Rightarrow> engagement_status \<Rightarrow> ident \<Rightarrow> db \<Rightarrow> (db, engagement) outcome" where
  "updateEngagementStatusByAdmin eid st admin s = (case find_engagement eid s of
     None \<Rightarrow> throw NotFoundException s
   | Some e \<Rightarrow> return (e\<lparr>e_status := st\<rparr>)
       (notify_all (party_addresses e) ENGAGEMENT_CANCELLED
          (record_audit eid (e_status e) st admin (update_engagement eid (\<lambda>x. x\<lparr>e_status := st\<rparr>) s))))"

text \<open>\<^verbatim>\<open>audit-log.service.ts\<close>: the log of an engagement, newest first, for its parties and administrators.\<close>

definition find_audit_logs :: "ident \<Rightarrow> ident \<Rightarrow> user_role \<Rightarrow> db \<Rightarrow> exn + engagement_audit list" where
  "find_audit_logs eid uid role s = (case find_engagement eid s of
     None \<Rightarrow> Inl NotFoundException
   | Some e \<Rightarrow>
       (let party = (case List.find (\<lambda>u. u_id u = uid) (t_users s) of
              None \<Rightarrow> False
            | Some u \<Rightarrow> u_stellarAddress u = Some (e_companyAddress e) \<or>
                u_stellarAddress u = Some (e_recruiterAddress e) \<or> u_stellarAddress u = Some (e_arbiterAddress e))
        in if \<not> party \<and> role \<noteq> ADMIN then Inl ForbiddenException
           else Inr (rev (filter (\<lambda>a. ea_engagementId a = eid) (t_engagementAudits s)))))"

end
