(* ===== verification/EngagementQueries.thy ===== *)
theory EngagementQueries
  imports Engagements
begin

text \<open>
  The queries of \<^verbatim>\<open>modules/engagements/engagements.service.ts\<close> (the filtered list, one engagement, its
  summary) and the bulk import from CSV, which drives \<open>create\<close> row by row.
\<close>

section \<open>The filtered list\<close>

record engagement_filter =
  ef_companyAddress :: "string option"
  ef_recruiterAddress :: "string option"
  ef_status :: "string option"
  ef_search :: "string option"
  ef_createdFrom :: "time option"
  ef_createdTo :: "time option"
  ef_tags :: "string option"
  ef_page :: nat
  ef_limit :: nat
  ef_cursor :: "ident option"
  ef_sortBy :: "string option"
  ef_sortOrder :: "string option"
  ef_includeArchived :: bool
  ef_overdue :: bool

definition parse_status :: "string \<Rightarrow> engagement_status option" where
  "parse_status st = map_of
     [(''PENDING_ACCEPTANCE'', PENDING_ACCEPTANCE), (''ACTIVE'', ACTIVE), (''COMPLETED'', COMPLETED),
      (''CANCELLED'', CANCELLED), (''REPLACEMENT_REQUESTED'', REPLACEMENT_REQUESTED),
      (''ACCOUNT_MERGED'', ACCOUNT_MERGED)] st"

text \<open>\<open>contains\<close> with \<open>mode: 'insensitive'\<close>.\<close>

definition contains_insensitive :: "string \<Rightarrow> string \<Rightarrow> bool" where
  "contains_insensitive needle hay =
     (let n = map lower_char needle; h = map lower_char hay
      in list_ex (\<lambda>i. take (length n) (drop i h) = n) [0..<Suc (length h)])"

definition tag_list :: "string \<Rightarrow> string list" where
  "tag_list tags = filter (\<lambda>t. t \<noteq> []) (map trim (split_on comma tags))"

text \<open>One conjunct per filter that is set; \<open>lt\<close> of a NULL column is never true.\<close>

definition selected :: "time \<Rightarrow> engagement_filter \<Rightarrow> engagement_status list option \<Rightarrow> engagement \<Rightarrow> bool" where
  "selected t f statuses e \<longleftrightarrow>
     (truthy (ef_companyAddress f) \<longrightarrow> ef_companyAddress f = Some (e_companyAddress e)) \<and>
     (truthy (ef_recruiterAddress f) \<longrightarrow> ef_recruiterAddress f = Some (e_recruiterAddress e)) \<and>
     (\<not> ef_includeArchived f \<longrightarrow> e_archivedAt e = None) \<and>
     (case statuses of None \<Rightarrow> True | Some ss \<Rightarrow> List.member ss (e_status e)) \<and>
     (truthy (ef_search f) \<longrightarrow> contains_insensitive (the (ef_search f)) (e_jobTitle e)) \<and>
     (case ef_createdFrom f of None \<Rightarrow> True | Some d \<Rightarrow> d \<le> e_createdAt e) \<and>
     (case ef_createdTo f of None \<Rightarrow> True | Some d \<Rightarrow> e_createdAt e \<le> d) \<and>
     (truthy (ef_tags f) \<longrightarrow> list_all (\<lambda>x. x \<in> set (e_tags e)) (tag_list (the (ef_tags f)))) \<and>
     (ef_overdue f \<longrightarrow> lt_opt (e_targetStartDate e) t \<and> e_placedAt e = None \<and>
        List.member OPEN_ROLE_STATUSES (e_status e))"

definition ENGAGEMENT_SORTABLE_FIELDS :: "string list" where
  "ENGAGEMENT_SORTABLE_FIELDS = [''createdAt'', ''updatedAt'', ''status'', ''jobTitle'', ''totalAmount'']"

text \<open>\<open>orderBy\<close>: the field and whether it ascends.\<close>

definition order_by :: "engagement_filter \<Rightarrow> exn + (string \<times> bool)" where
  "order_by f = (case ef_sortBy f of
     None \<Rightarrow> Inr (''createdAt'', False)
   | Some b \<Rightarrow>
       if b \<notin> set ENGAGEMENT_SORTABLE_FIELDS then Inl BadRequestException
       else (case ef_sortOrder f of
         None \<Rightarrow> Inr (b, False)
       | Some ord \<Rightarrow>
           if ord \<noteq> ''asc'' \<and> ord \<noteq> ''desc'' then Inl BadRequestException
           else Inr (b, ord = ''asc'')))"

record 'a page_result =
  pg_data :: "'a list"
  pg_total :: "nat option"
  pg_totalPages :: "nat option"
  pg_nextCursor :: "ident option"

definition ceil_div :: "nat \<Rightarrow> nat \<Rightarrow> nat" where
  "ceil_div n k = (n + k - 1) div k"

text \<open>
  \<open>sorter field ascending\<close> is the database's order, which fixes neither the collation of text nor the
  order of equal keys.  An unknown status is refused by Prisma.
\<close>

definition findAll :: "(string \<Rightarrow> bool \<Rightarrow> engagement list \<Rightarrow> engagement list) \<Rightarrow> time \<Rightarrow> engagement_filter \<Rightarrow>
  db \<Rightarrow> exn + engagement page_result" where
  "findAll sorter t f s =
     (let statuses = (if truthy (ef_status f)
            then Some (map (\<lambda>x. parse_status (trim x)) (split_on comma (the (ef_status f)))) else None)
      in case order_by f of
           Inl x \<Rightarrow> Inl x
         | Inr (field, asc) \<Rightarrow>
             if (case statuses of None \<Rightarrow> False | Some ss \<Rightarrow> None \<in> set ss) then Inl PlainError
             else (let rows = sorter field asc (filter (selected t f (map_option (map the) statuses)) (t_engagements s))
                   in if truthy (ef_cursor f)
                      then (let (d, c) = fetch_page e_id (ef_limit f) (ef_cursor f) rows
                            in Inr \<lparr>pg_data = d, pg_total = None, pg_totalPages = None, pg_nextCursor = c\<rparr>)
                      else Inr \<lparr>pg_data = take (ef_limit f) (drop ((ef_page f - 1) * ef_limit f) rows),
                                pg_total = Some (length rows),
                                pg_totalPages = Some (ceil_div (length rows) (ef_limit f)), pg_nextCursor = None\<rparr>))"

section \<open>One engagement and its summary\<close>

definition findOneEngagement :: "env \<Rightarrow> ident \<Rightarrow> ident option \<Rightarrow> db \<Rightarrow> exn + (engagement \<times> bool)" where
  "findOneEngagement w eid uid s = (case find_engagement eid s of
     None \<Rightarrow> Inl NotFoundException
   | Some e \<Rightarrow>
       if truthy uid \<and> truthy (e_clientId e) \<and> truthy (e_freelancerId e) \<and>
          e_clientId e \<noteq> uid \<and> e_freelancerId e \<noteq> uid
       then Inl ForbiddenException
       else Inr (e, isEngagementOverdue e (now w)))"

record engagement_summary =
  es_totalAmount :: int
  es_releasedAmount :: int
  es_lockedAmount :: int
  es_milestonesTotal :: nat
  es_milestonesCompleted :: nat

text \<open>\<open>BigInt(null)\<close> of a milestone without amount is a TypeError.\<close>

fun summary_loop :: "milestone list \<Rightarrow> int \<Rightarrow> int \<Rightarrow> nat \<Rightarrow> exn + (int \<times> int \<times> nat)" where
  "summary_loop [] tot released completed = Inr (tot, released, completed)"
| "summary_loop (m # ms) tot released completed = (case m_amount m of
     None \<Rightarrow> Inl TypeErrorExn
   | Some a \<Rightarrow>
       if m_status m = CONFIRMED \<or> m_status m = RESOLVED
       then summary_loop ms (tot + a) (released + a) (Suc completed)
       else summary_loop ms (tot + a) released completed)"

definition getSummary :: "ident \<Rightarrow> ident \<Rightarrow> db \<Rightarrow> exn + engagement_summary" where
  "getSummary eid uid s = (case find_engagement eid s of
     None \<Rightarrow> Inl NotFoundException
   | Some e \<Rightarrow>
       if e_clientId e \<noteq> Some uid \<and> e_freelancerId e \<noteq> Some uid then Inl ForbiddenException
       else (let ms = filter (\<lambda>m. m_engagementId m = eid) (t_milestones s)
             in case summary_loop ms 0 0 0 of
                  Inl x \<Rightarrow> Inl x
                | Inr (tot, released, completed) \<Rightarrow>
                    Inr \<lparr>es_totalAmount = tot, es_releasedAmount = released, es_lockedAmount = tot - released,
                         es_milestonesTotal = length ms, es_milestonesCompleted = completed\<rparr>))"

section \<open>Bulk import\<close>

record import_report =
  ir_totalRows :: nat
  ir_successCount :: nat
  ir_failureCount :: nat
  ir_results :: "(nat \<times> bool) list"

definition csv_lines :: "string \<Rightarrow> string list" where
  "csv_lines csv = filter (\<lambda>l. trim l \<noteq> []) (split_lines csv)"

definition row_dto :: "string list \<Rightarrow> string list \<Rightarrow> create_dto" where
  "row_dto headers values =
     \<lparr>cd_engagementId = csv_get headers values ''engagementId'',
      cd_companyAddress = csv_get headers values ''companyAddress'',
      cd_recruiterAddress = csv_get headers values ''recruiterAddress'',
      cd_arbiterAddress = csv_get headers values ''arbiterAddress'',
      cd_tokenAddress = csv_get headers values ''tokenAddress'',
      cd_totalAmount = csv_get headers values ''totalAmount'',
      cd_templateId = None, cd_jobTitle = Some (csv_get headers values ''jobTitle''),
      cd_targetStartDate = None, cd_milestones = Some [], cd_retentionDays = None\<rparr>"

definition import_row :: "env \<Rightarrow> user \<Rightarrow> string list \<Rightarrow> string \<Rightarrow> db \<Rightarrow> (db, unit) outcome" where
  "import_row w u headers line s =
     (let values = parseCsvLine line
      in if \<exists>c \<in> set REQUIRED_COLUMNS. csv_get headers values c = [] then throw PlainError s
         else and_then (create w u (row_dto headers values) s) (\<lambda>_ s1. return () s1))"

text \<open>The body of the loop is a \<open>try\<close>: a failing row is reported and the next one is tried.\<close>

fun import_loop :: "env \<Rightarrow> user \<Rightarrow> string list \<Rightarrow> nat \<Rightarrow> string list \<Rightarrow> import_report \<Rightarrow> db \<Rightarrow> import_report \<times> db" where
  "import_loop w u headers n [] rep s = (rep, s)"
| "import_loop w u headers n (l # ls) rep s = (case import_row w u headers l s of
     (Inl _, s1) \<Rightarrow> import_loop w u headers (Suc n) ls
       (rep\<lparr>ir_failureCount := Suc (ir_failureCount rep), ir_results := ir_results rep @ [(n, False)]\<rparr>) s1
   | (Inr _, s1) \<Rightarrow> import_loop w u headers (Suc n) ls
       (rep\<lparr>ir_successCount := Suc (ir_successCount rep), ir_results := ir_results rep @ [(n, True)]\<rparr>) s1)"

definition importFromCsv :: "env \<Rightarrow> user \<Rightarrow> string option \<Rightarrow> db \<Rightarrow> (db, import_report) outcome" where
  "importFromCsv w u buffer s = (case buffer of
     None \<Rightarrow> throw BadRequestException s
   | Some csv \<Rightarrow> (case csv_lines csv of
       [] \<Rightarrow> throw BadRequestException s
     | [_] \<Rightarrow> throw BadRequestException s
     | h # ls \<Rightarrow>
         (let headers = map trim (split_on comma h)
          in if \<exists>c \<in> set REQUIRED_COLUMNS. c \<notin> set headers then throw BadRequestException s
             else (let (rep, s1) = import_loop w u headers 2 ls
                         \<lparr>ir_totalRows = length ls, ir_successCount = 0, ir_failureCount = 0, ir_results = []\<rparr> s
                   in return rep s1))))"

end
