(* ===== verification/EngagementProperties.thy ===== *)
theory EngagementProperties
  imports EngagementQueries MilestoneProperties
begin

text \<open>
  What the engagement service guarantees: exact shares of an amount, funding and scheduling on
  acceptance, one escrow per engagement however the parties act, and what the creation handlers do
  with the result of \<open>prepareEngagement\<close>.
\<close>

section \<open>Shares\<close>

lemma split_from_length [simp]: "length (split_from amount a ps) = length ps"
  by (induction amount a ps rule: split_from.induct) (simp_all add: Let_def)

lemma split_from_sum: "ps \<noteq> [] \<Longrightarrow> sum_list (split_from amount a ps) = amount - a"
  by (induction amount a ps rule: split_from.induct) (simp_all add: Let_def)

text \<open>
  \<open>t\<close> is the amount, \<open>q\<close> the percentages given so far and \<open>k\<close> their number: what was allocated stays
  within one unit per share of the exact part.
\<close>

lemma split_from_close:
  assumes "0 \<le> t" and "list_all (\<lambda>p. 0 \<le> p) ps" and "q + sum_list ps = 100"
    and "100 * a \<le> t * q" and "t * q \<le> 100 * a + 99 * int k" and "ps \<noteq> []"
  shows "list_all2 (\<lambda>p x. t * p div 100 \<le> x \<and> x < t * p div 100 + int (k + length ps)) ps (split_from t a ps)"
  using assms
proof (induction t a ps arbitrary: q k rule: split_from.induct)
  case (2 t a p)
  define d r where "d = t * p div 100" and "r = t * p mod 100"
  have dr: "t * p = 100 * d + r" "0 \<le> r" "r < 100" by (simp_all add: d_def r_def)
  have "t * q + t * p = 100 * t" using 2(3) by (simp add: ring_distribs [symmetric])
  with 2(4,5) dr show ?case unfolding d_def [symmetric] by simp
next
  case (3 t a p p' ps)
  define d r where "d = t * p div 100" and "r = t * p mod 100"
  have dr: "t * p = 100 * d + r" "0 \<le> r" "r < 100" by (simp_all add: d_def r_def)
  have share: "big_div (t * p) 100 = d" using 3(2,3) by (simp add: big_div_nonneg d_def)
  have "list_all2 (\<lambda>p x. t * p div 100 \<le> x \<and> x < t * p div 100 + int (Suc k + length (p' # ps))) (p' # ps)
      (split_from t (a + d) (p' # ps))"
  proof (rule 3(1) [unfolded share, OF refl 3(2), of "q + p" "Suc k"])
    show "t * (q + p) \<le> 100 * (a + d) + 99 * int (Suc k)" and "100 * (a + d) \<le> t * (q + p)"
      using 3(5,6) dr by (simp_all add: distrib_left)
  qed (use 3 in auto)
  then show ?case by (simp add: Let_def share d_def)
qed simp

section \<open>Acceptance\<close>

lemma update_where_id_map:
  assumes "distinct (map m_id ms)" and "m \<in> set ms"
  shows "update_where (\<lambda>x. m_id x = m_id m) f ms = map (\<lambda>x. if x = m then f m else x) ms"
  using update_id_unique [OF assms, of f] by (auto simp: fun_eq_iff cong: map_cong)

lemma schedule_update_id [simp]:
  "m_id (schedule_update w c l m) = m_id m" "m_engagementId (schedule_update w c l m) = m_engagementId m"
  "m_index (schedule_update w c l m) = m_index m"
  by (simp_all add: schedule_update_def)

definition schedule_entry :: "env \<Rightarrow> int \<Rightarrow> int \<Rightarrow> milestone \<Rightarrow> nat \<times> int \<times> time \<times> time" where
  "schedule_entry w created cur m = (let l = unlock_ledger created m; t = ledgerToDateTime w l cur
     in (m_index m, l, t, t - 3 * day_ms))"

definition entry_of :: "schedule \<Rightarrow> nat \<times> int \<times> time \<times> time" where
  "entry_of x = (s_index x, s_validAfterLedger x, s_unlockAt x, s_notifyAt x)"

definition no_schedule :: "ident \<Rightarrow> db \<Rightarrow> bool" where
  "no_schedule eid s \<longleftrightarrow> (\<forall>x \<in> set (t_schedules s). s_engagementId x \<noteq> eid)"

lemma schedule_loop_ok:
  assumes "distinct (map m_id (t_milestones s))" and "set ms \<subseteq> set (t_milestones s)"
    and "distinct (map m_index ms)"
    and "\<And>x. x \<in> set (t_schedules s) \<Longrightarrow> s_engagementId x = eid \<Longrightarrow> s_index x \<notin> m_index ` set ms"
  shows "\<exists>s' xs. schedule_loop w eid created cur ms s = (Inr (), s') \<and>
    t_milestones s' = map (\<lambda>x. if x \<in> set ms then schedule_update w created cur x else x) (t_milestones s) \<and>
    t_schedules s' = t_schedules s @ xs \<and> map entry_of xs = map (schedule_entry w created cur) ms \<and>
    list_all (\<lambda>x. s_engagementId x = eid) xs \<and>
    t_engagements s' = t_engagements s \<and> chainCalls s' = chainCalls s \<and> t_users s' = t_users s"
  using assms
proof (induction ms arbitrary: s)
  case Nil
  then show ?case by (simp add: return_def map_idI)
next
  case (Cons m ms)
  let ?l = "unlock_ledger created m"
  let ?row = "schedule_row (genId w (idSeq s)) eid (m_index m) ?l (ledgerToDateTime w ?l cur)"
  let ?s1 = "(update_milestone (m_id m) (\<lambda>x. x\<lparr>m_validAfterLedger := Some ?l,
      m_unlockEstimatedAt := Some (ledgerToDateTime w ?l cur)\<rparr>) s)
      \<lparr>idSeq := Suc (idSeq s), t_schedules := t_schedules s @ [?row]\<rparr>"
  have free: "(\<exists>x \<in> set (t_schedules s). s_engagementId x = eid \<and> s_index x = m_index m) = False"
    using Cons.prems(4) by auto
  have run: "schedule_loop w eid created cur (m # ms) s = schedule_loop w eid created cur ms ?s1"
    by (simp add: Let_def create_schedule_def fresh_id_def free del: bex_simps)
  have t: "t_milestones ?s1 = map (\<lambda>x. if x = m then schedule_update w created cur m else x) (t_milestones s)"
    using update_where_id_map [OF Cons.prems(1), of m] Cons.prems(2)
    by (simp add: update_milestone_def schedule_update_def)
  have fresh: "m \<notin> set ms" using Cons.prems(3) by auto
  have ids: "distinct (map m_id (t_milestones ?s1))"
  proof -
    have "map m_id (t_milestones ?s1) = map m_id (t_milestones s)" unfolding t by simp
    then show ?thesis using Cons.prems(1) by (simp only:)
  qed
  have sub: "set ms \<subseteq> set (t_milestones ?s1)" using Cons.prems(2) fresh by (auto simp: t)
  have "\<exists>s' xs. schedule_loop w eid created cur ms ?s1 = (Inr (), s') \<and>
    t_milestones s' = map (\<lambda>x. if x \<in> set ms then schedule_update w created cur x else x) (t_milestones ?s1) \<and>
    t_schedules s' = t_schedules ?s1 @ xs \<and> map entry_of xs = map (schedule_entry w created cur) ms \<and>
    list_all (\<lambda>x. s_engagementId x = eid) xs \<and>
    t_engagements s' = t_engagements ?s1 \<and> chainCalls s' = chainCalls ?s1 \<and> t_users s' = t_users ?s1"
  proof (rule Cons.IH [OF ids sub])
    show "distinct (map m_index ms)" using Cons.prems(3) by simp
    show "s_index x \<notin> m_index ` set ms" if "x \<in> set (t_schedules ?s1)" "s_engagementId x = eid" for x
    proof (cases "x \<in> set (t_schedules s)")
      case True
      with Cons.prems(4) [of x] that(2) show ?thesis by auto
    next
      case False
      with that(1) have "x = ?row" by simp
      then have "s_index x = m_index m" by (simp only: schedule_row_def schedule.simps)
      with Cons.prems(3) show ?thesis by simp
    qed
  qed
  then obtain s' xs where ih: "schedule_loop w eid created cur ms ?s1 = (Inr (), s')"
    "t_milestones s' = map (\<lambda>x. if x \<in> set ms then schedule_update w created cur x else x) (t_milestones ?s1)"
    "t_schedules s' = t_schedules ?s1 @ xs" "map entry_of xs = map (schedule_entry w created cur) ms"
    "list_all (\<lambda>x. s_engagementId x = eid) xs"
    "t_engagements s' = t_engagements ?s1 \<and> chainCalls s' = chainCalls ?s1 \<and> t_users s' = t_users ?s1" by blast
  have upd: "schedule_update w created cur m \<in> set ms \<Longrightarrow> schedule_update w created cur m = m"
    using Cons.prems(1,2) by (auto simp: distinct_map inj_on_def dest: subsetD)
  have "t_milestones s' = map (\<lambda>x. if x \<in> set (m # ms) then schedule_update w created cur x else x) (t_milestones s)"
    using fresh upd unfolding ih(2) t by (auto simp: schedule_update_def)
  moreover have "entry_of ?row = schedule_entry w created cur m" "s_engagementId ?row = eid"
    by (simp_all add: entry_of_def schedule_entry_def schedule_row_def notify_before_def Let_def)
  then have "map entry_of (?row # xs) = map (schedule_entry w created cur) (m # ms)"
    "list_all (\<lambda>x. s_engagementId x = eid) (?row # xs)"
    using ih(4,5) by (simp_all only: list.map list.pred_inject simp_thms)
  moreover have "t_schedules s' = t_schedules s @ (?row # xs)" using ih(3) by simp
  moreover have "t_engagements s' = t_engagements s" "chainCalls s' = chainCalls s" "t_users s' = t_users s"
    using ih(6) by simp_all
  ultimately show ?case unfolding run using ih(1) by blast
qed

lemma pending_invite_Inr:
  "pending_invite eid u s = Inr e \<longleftrightarrow> find_engagement eid s = Some e \<and>
     u_stellarAddress u = Some (e_recruiterAddress e) \<and> e_status e = PENDING_ACCEPTANCE"
  by (auto simp: pending_invite_def split: option.splits)

lemma to_schedule:
  assumes "distinct (map (\<lambda>m. (m_engagementId m, m_index m)) (t_milestones s))"
  shows "set (filter scheduled (milestones_of eid s)) =
      {m \<in> set (t_milestones s). m_engagementId m = eid \<and> scheduled m}"
    and "distinct (map m_index (filter scheduled (milestones_of eid s)))"
proof -
  show "set (filter scheduled (milestones_of eid s)) =
      {m \<in> set (t_milestones s). m_engagementId m = eid \<and> scheduled m}"
    by (auto simp: milestones_of_def)
  have "distinct (filter (\<lambda>m. m_engagementId m = eid) (t_milestones s))"
    using assms by (simp add: distinct_map)
  moreover have "inj_on m_index {m \<in> set (t_milestones s). m_engagementId m = eid}"
    using assms by (auto simp: distinct_map inj_on_def)
  ultimately show "distinct (map m_index (filter scheduled (milestones_of eid s)))"
    by (auto simp: distinct_map milestones_of_def inj_on_def)
qed

definition funded :: "env \<Rightarrow> string \<Rightarrow> int \<Rightarrow> engagement \<Rightarrow> engagement" where
  "funded w h created e = e\<lparr>e_txHash := Some h, e_createdLedger := Some created, e_status := ACTIVE\<rparr>"

lemma funded_simps [simp]:
  "e_id (funded w h c e) = e_id e" "e_status (funded w h c e) = ACTIVE" "e_txHash (funded w h c e) = Some h"
  "e_createdLedger (funded w h c e) = Some c"
  by (simp_all add: funded_def)

lemma accept_ok:
  assumes inv: "pending_invite eid u s = Inr e"
    and bal: "balanceOf w (e_companyAddress e) (e_tokenAddress e) = Inr b" "e_totalAmount e \<le> b"
    and chain: "chain w (length (chainCalls s)) (CreateEngagement eid) = Inr h"
    and ledger: "latestLedger w = Inr cur"
    and keys: "milestone_keys s" "no_schedule eid s"
  defines "c \<equiv> createLedger w (length (chainCalls s))"
  shows "\<exists>s' xs. acceptInvite w eid u s = (Inr (funded w h c e), s') \<and>
    find_engagement eid s' = Some (funded w h c e) \<and>
    chainCalls s' = chainCalls s @ [(CreateEngagement eid, True)] \<and>
    t_milestones s' = map (\<lambda>m. if m_engagementId m = eid \<and> scheduled m then schedule_update w c cur m else m)
      (t_milestones s) \<and>
    t_schedules s' = t_schedules s @ xs \<and>
    map entry_of xs = map (schedule_entry w c cur) (filter scheduled (milestones_of eid s)) \<and>
    list_all (\<lambda>x. s_engagementId x = eid) xs"
proof -
  let ?ms = "filter scheduled (milestones_of eid s)"
  let ?s1 = "s\<lparr>chainCalls := chainCalls s @ [(CreateEngagement eid, True)]\<rparr>"
  let ?s2 = "update_engagement eid (\<lambda>e. e\<lparr>e_txHash := Some h, e_createdLedger := Some c, e_status := ACTIVE\<rparr>) ?s1"
  have k: "distinct (map (\<lambda>m. (m_engagementId m, m_index m)) (t_milestones s))" "distinct (map m_id (t_milestones s))"
    using keys(1) by (simp_all add: milestone_keys_def)
  note ms = to_schedule [OF k(1), of eid]
  have "\<exists>s' xs. schedule_loop w eid c cur ?ms ?s2 = (Inr (), s') \<and>
    t_milestones s' = map (\<lambda>x. if x \<in> set ?ms then schedule_update w c cur x else x) (t_milestones ?s2) \<and>
    t_schedules s' = t_schedules ?s2 @ xs \<and> map entry_of xs = map (schedule_entry w c cur) ?ms \<and>
    list_all (\<lambda>x. s_engagementId x = eid) xs \<and>
    t_engagements s' = t_engagements ?s2 \<and> chainCalls s' = chainCalls ?s2 \<and> t_users s' = t_users ?s2"
    by (rule schedule_loop_ok) (use k ms keys(2) in \<open>auto simp: no_schedule_def\<close>)
  then obtain s' xs where r: "schedule_loop w eid c cur ?ms ?s2 = (Inr (), s')"
    "t_milestones s' = map (\<lambda>x. if x \<in> set ?ms then schedule_update w c cur x else x) (t_milestones s)"
    "t_schedules s' = t_schedules s @ xs" "map entry_of xs = map (schedule_entry w c cur) ?ms"
    "list_all (\<lambda>x. s_engagementId x = eid) xs"
    "t_engagements s' = t_engagements ?s2" "chainCalls s' = chainCalls s @ [(CreateEngagement eid, True)]" by auto
  have e: "find_engagement eid s = Some e" using inv by (simp add: pending_invite_Inr)
  have "find_engagement eid ?s2 = Some (funded w h c e)"
    using e by (simp add: funded_def) (simp add: find_engagement_def)
  then have f: "find_engagement eid s' = Some (funded w h c e)"
    using r(6) by (simp add: find_engagement_def)
  have "accept_tx w eid h c cur ?ms ?s1 = (Inr (funded w h c e), s')"
    using r(1) f by (simp add: accept_tx_def)
  then have run: "acceptInvite w eid u s =
      (Inr (funded w h c e), notify (ByAddress (e_companyAddress e)) ENGAGEMENT_CREATED s')"
    using inv bal chain ledger
    by (simp add: acceptInvite_def checkTokenBalance_def call_chain_def Let_def c_def [symmetric]
        del: filter_filter)
  have t: "t_milestones s' = map (\<lambda>m. if m_engagementId m = eid \<and> scheduled m then schedule_update w c cur m else m)
      (t_milestones s)" unfolding r(2) ms(1) by (intro map_cong) auto
  show ?thesis unfolding run
    by (intro exI [of _ "notify (ByAddress (e_companyAddress e)) ENGAGEMENT_CREATED s'"] exI [of _ xs] conjI)
      (simp_all only: notify_frame find_frame f t r(3-5,7))
qed

text \<open>
  When the ledger cannot be read after the escrow was funded, the handler fails with the invite still
  pending: a retry funds it again.
\<close>

lemma accept_without_ledger_stays_pending:
  assumes "pending_invite eid u s = Inr e"
    and "balanceOf w (e_companyAddress e) (e_tokenAddress e) = Inr b" and "e_totalAmount e \<le> b"
    and "chain w (length (chainCalls s)) (CreateEngagement eid) = Inr h" and "latestLedger w = Inl x"
  shows "acceptInvite w eid u s =
      (Inl (StellarFailure x), s\<lparr>chainCalls := chainCalls s @ [(CreateEngagement eid, True)]\<rparr>)"
  using assms by (simp add: acceptInvite_def checkTokenBalance_def call_chain_def Let_def throw_def)

section \<open>One escrow per engagement\<close>

definition funded_count :: "ident \<Rightarrow> db \<Rightarrow> nat" where
  "funded_count eid s = count_where (\<lambda>(c, answered). c = CreateEngagement eid \<and> answered) (chainCalls s)"


definition invite_inv :: "ident \<Rightarrow> db \<Rightarrow> bool" where
  "invite_inv eid s \<longleftrightarrow> milestone_keys s \<and> funded_count eid s \<le> 1 \<and>
     (\<forall>e. find_engagement eid s = Some e \<and> e_status e = PENDING_ACCEPTANCE \<longrightarrow>
        no_schedule eid s \<and> funded_count eid s = 0)"









lemma statusMap_not_pending [simp]: "statusMap st \<noteq> PENDING_ACCEPTANCE"
  by (simp add: statusMap_def)






lemma no_schedule_filter: "no_schedule eid s \<longleftrightarrow> filter (\<lambda>x. s_engagementId x = eid) (t_schedules s) = []"
  by (auto simp: no_schedule_def filter_empty_conv)








section \<open>Creation\<close>

lemma insert_milestones_frame [simp]:
  "t_engagements (insert_milestones w eid ds s) = t_engagements s"
  "t_templates (insert_milestones w eid ds s) = t_templates s"
  "t_users (insert_milestones w eid ds s) = t_users s"
  "chainCalls (insert_milestones w eid ds s) = chainCalls s"
  by (induction ds arbitrary: s) (simp_all add: fresh_id_def)

lemma create_row_Inl: "create_engagement_row w mg tv t ds s = (Inl x, s') \<Longrightarrow> s' = s"
  by (auto simp: create_engagement_row_def Let_def split: option.splits if_splits)

lemma create_row_Inr:
  assumes "create_engagement_row w mg tv t ds s = (Inr e, s')"
  shows "find_engagement (cd_engagementId (mg_dto mg)) s' = Some e \<and> e_status e = PENDING_ACCEPTANCE \<and>
    t_templates s' = t_templates s"
proof -
  have "e_id e = cd_engagementId (mg_dto mg)" "find_engagement (e_id e) s = None" "e_status e = PENDING_ACCEPTANCE"
    "t_engagements s' = t_engagements s @ [e]" "t_templates s' = t_templates s"
    using assms by (auto simp: create_engagement_row_def engagement_row_def Let_def split: option.splits if_splits)
  then show ?thesis by (simp add: find_engagement_def find_append)
qed

lemma prepare_Inl:
  assumes "prepareEngagement w u dto s = (Inl x, s')"
  shows "s' = s"
  using assms
  by (auto simp: prepareEngagement_def Let_def and_then_def lift_def split: if_splits sum.splits prod.splits option.splits
      dest: create_row_Inl)

lemma prepare_Inr:
  assumes "prepareEngagement w u dto s = (Inr p, s')"
  shows "pp_mergedData p = None \<and>
    (\<exists>e. find_engagement (cd_engagementId dto) s' = Some e \<and> e_status e = PENDING_ACCEPTANCE) \<and>
    (truthy (cd_templateId dto) \<longrightarrow> (\<exists>t \<in> set (t_templates s'). tp_id t = the (cd_templateId dto)))"
proof -
  define tv where "tv = (if truthy (cd_templateId dto) then find_template_version u (the (cd_templateId dto)) s else Inr None)"
  obtain v where v: "tv = Inr v"
    using assms by (cases tv) (auto simp: prepareEngagement_def tv_def [symmetric] split: if_splits)
  let ?mg = "merge_template dto v"
  obtain its e s1 where e: "create_engagement_row w ?mg (map_option tv_id v) None
      (milestone_data_of (mg_retentionDays ?mg) 0 0 its) s = (Inr e, s1)"
    "p = serialized e" "s' = notify (ByAddress (cd_recruiterAddress dto)) ENGAGEMENT_CREATED s1"
    using assms v by (auto simp: prepareEngagement_def tv_def [symmetric] Let_def and_then_Inr_iff
        split: if_splits option.splits)
  have "truthy (cd_templateId dto) \<Longrightarrow> \<exists>t \<in> set (t_templates s). tp_id t = the (cd_templateId dto)"
    using v by (auto simp: tv_def find_template_version_def split: if_splits option.splits dest: find_SomeD)
  moreover have "cd_engagementId (mg_dto ?mg) = cd_engagementId dto" by (simp add: merge_template_def)
  ultimately show ?thesis using create_row_Inr [OF e(1)] e(2,3)
    by (simp add: serialized_def) (simp add: notify_def)
qed

lemma create_after_prepare:
  assumes "prepareEngagement w u dto s = (Inr p, s1)"
  shows "fst (create w u dto s) = Inl TypeErrorExn \<and> t_engagements (snd (create w u dto s)) = t_engagements s1"
  using prepare_Inr [OF assms] assms
  by (auto simp: create_def bump_template_def return_def throw_def split: if_splits)

lemma preview_after_prepare:
  assumes "prepareEngagement w u dto s = (Inr p, s1)"
  shows "(\<exists>x. fst (preview w u dto s) = Inl x) \<and> snd (preview w u dto s) = s1"
  using prepare_Inr [OF assms] assms by (cases "sorobanFee w") (auto simp: preview_def Let_def)

text \<open>A row of the import has no milestones, so its percentages never sum to 100.\<close>

lemma prepare_without_milestones:
  assumes "cd_milestones dto = Some []"
  shows "\<exists>x. prepareEngagement w u dto s = (Inl x, s)"
proof (cases "prepareEngagement w u dto s")
  case (Pair r s')
  show ?thesis
  proof (cases r)
    case (Inl x)
    with Pair prepare_Inl show ?thesis by blast
  next
    case (Inr p)
    with Pair assms show ?thesis
      by (auto simp: prepareEngagement_def merge_template_def percent_sum_def Let_def and_then_Inr_iff
          split: if_splits option.splits)
  qed
qed

lemma import_row_fails: "\<exists>x. import_row w u headers l s = (Inl x, s)"
proof -
  obtain x where "prepareEngagement w u (row_dto headers (parseCsvLine l)) s = (Inl x, s)"
    using prepare_without_milestones [of "row_dto headers (parseCsvLine l)" w u s] by (auto simp: row_dto_def)
  then have "create w u (row_dto headers (parseCsvLine l)) s = (Inl x, s)" by (simp add: create_def)
  then show ?thesis by (simp add: import_row_def Let_def throw_def)
qed

lemma import_loop_fails:
  "snd (import_loop w u headers n ls rep s) = s \<and>
   ir_successCount (fst (import_loop w u headers n ls rep s)) = ir_successCount rep \<and>
   ir_failureCount (fst (import_loop w u headers n ls rep s)) = ir_failureCount rep + length ls \<and>
   ir_totalRows (fst (import_loop w u headers n ls rep s)) = ir_totalRows rep"
proof (induction ls arbitrary: n rep)
  case (Cons l ls)
  obtain x where "import_row w u headers l s = (Inl x, s)" using import_row_fails by blast
  with Cons.IH show ?case by simp
qed simp

lemma import_creates_nothing:
  "snd (importFromCsv w u buffer s) = s \<and>
   (case fst (importFromCsv w u buffer s) of
      Inl x \<Rightarrow> x = BadRequestException
    | Inr rep \<Rightarrow> ir_successCount rep = 0 \<and> ir_failureCount rep = ir_totalRows rep)"
proof (cases buffer)
  case (Some csv)
  note buf = Some
  show ?thesis
  proof (cases "length (csv_lines csv) < 2")
    case True
    with buf show ?thesis by (auto simp: importFromCsv_def split: list.split)
  next
    case False
    then obtain h l ls where ls: "csv_lines csv = h # l # ls" by (cases "csv_lines csv" rule: remdups_adj.cases) auto
    let ?rep = "\<lparr>ir_totalRows = length (l # ls), ir_successCount = 0, ir_failureCount = 0, ir_results = []\<rparr>"
    obtain rep' s' where r: "import_loop w u (map trim (split_on comma h)) 2 (l # ls) ?rep s = (rep', s')"
      by (cases "import_loop w u (map trim (split_on comma h)) 2 (l # ls) ?rep s")
    with import_loop_fails [of w u "map trim (split_on comma h)" 2 "l # ls" ?rep s]
    have "s' = s" "ir_successCount rep' = 0" "ir_failureCount rep' = ir_totalRows rep'" by auto
    with buf ls r show ?thesis by (simp add: importFromCsv_def Let_def del: import_loop.simps)
  qed
qed (simp add: importFromCsv_def)

section \<open>Properties\<close>

text \<open>
  C12.  Splitting an amount by percentages that sum to 100 loses and invents nothing: the shares sum
  to exactly the amount, and each is its exact part rounded down, plus at most what the rounding of
  the others left (less than one unit per share).
\<close>
theorem shares_are_exact:
  assumes "percents \<noteq> []" and "list_all (\<lambda>p. 0 \<le> p) percents" and "sum_list percents = 100" and "0 \<le> amount"
  shows "sum_list (splitByPercent amount percents) = amount \<and>
    list_all2 (\<lambda>p x. amount * p div 100 \<le> x \<and> x < amount * p div 100 + int (length percents))
      percents (splitByPercent amount percents)"
  using split_from_sum [OF assms(1), of amount 0] split_from_close [OF assms(4,2), of 0 0 0] assms(1,3)
  by (simp add: splitByPercent_def)

theorem shares_are_exact_witness:
  "sum_list (splitByPercent 100 [33, 33, 34]) = (100::int) \<and>
    list_all2 (\<lambda>p x. 100 * p div 100 \<le> x \<and> x < 100 * p div 100 + int (length [33, 33, 34::int]))
      [33, 33, 34] (splitByPercent 100 [33, 33, 34])"
  by (rule shares_are_exact) simp_all

text \<open>
  C10.  A recruiter who accepts a pending invite of a company that holds the amount: one contract call
  funds the escrow, the engagement becomes ACTIVE with the hash and ledger of that call, and exactly
  its retention milestones with a number of days get an unlock ledger that many days after the
  creation and one schedule each, warning three days before; nothing else changes.
\<close>
theorem accept_funds_and_schedules:
  assumes "pending_invite eid u s = Inr e"
    and "balanceOf w (e_companyAddress e) (e_tokenAddress e) = Inr b" and "e_totalAmount e \<le> b"
    and "chain w (length (chainCalls s)) (CreateEngagement eid) = Inr h" and "latestLedger w = Inr cur"
    and "milestone_keys s" and "no_schedule eid s" and "c = createLedger w (length (chainCalls s))"
  shows "\<exists>s' xs. acceptInvite w eid u s = (Inr (funded w h c e), s') \<and>
    find_engagement eid s' = Some (funded w h c e) \<and>
    chainCalls s' = chainCalls s @ [(CreateEngagement eid, True)] \<and>
    t_milestones s' = map (\<lambda>m. if m_engagementId m = eid \<and> scheduled m then schedule_update w c cur m else m)
      (t_milestones s) \<and>
    t_schedules s' = t_schedules s @ xs \<and>
    map entry_of xs = map (schedule_entry w c cur) (filter scheduled (milestones_of eid s)) \<and>
    list_all (\<lambda>x. s_engagementId x = eid) xs"
  using accept_ok [OF assms(1-7)] unfolding assms(8) .

definition invite_db :: db where
  "invite_db = world_db\<lparr>t_engagements := [eng1\<lparr>e_status := PENDING_ACCEPTANCE, e_txHash := None\<rparr>]\<rparr>"

definition recruiter1 :: user where
  "recruiter1 = mk_user ''ur'' RECRUITER ''GR'' 2"

lemma invite_world:
  "pending_invite ''e1'' recruiter1 invite_db = Inr (eng1\<lparr>e_status := PENDING_ACCEPTANCE, e_txHash := None\<rparr>)"
  "milestone_keys invite_db" "no_schedule ''e1'' invite_db" "invite_inv ''e1'' invite_db"
  by (simp_all add: invite_db_def recruiter1_def pending_invite_def find_engagement_def milestone_keys_def
      no_schedule_def invite_inv_def funded_count_def fixture_simps)

theorem accept_funds_and_schedules_witness:
  "\<exists>e' s'. acceptInvite env1 ''e1'' recruiter1 invite_db = (Inr e', s') \<and> e_status e' = ACTIVE \<and>
     chainCalls s' = [(CreateEngagement ''e1'', True)] \<and> length (t_schedules s') = 2"
proof -
  have "filter scheduled (milestones_of ''e1'' invite_db) = tl (t_milestones invite_db)"
    by (simp add: invite_db_def milestones_of_def scheduled_def nonzero_def fixture_simps)
  then have n: "length (filter scheduled (milestones_of ''e1'' invite_db)) = 2"
    by (simp add: invite_db_def fixture_simps)
  have c: "chainCalls invite_db = []" "t_schedules invite_db = []" by (simp_all add: invite_db_def fixture_simps)
  show ?thesis
    using accept_funds_and_schedules [OF invite_world(1), of env1 1000 "''hash''" 30, OF _ _ _ _ invite_world(2,3) refl]
      n c by (auto simp: fixture_simps dest: arg_cong [where f = length])
qed



text \<open>
  C13.  Creating and previewing an engagement never return a result: if the request is refused nothing
  has changed; if it is valid, both handlers fail (creation with a TypeError) after the engagement
  was written as an open invite.
\<close>
theorem creation_persists_then_fails:
  "case prepareEngagement w u dto s of
     (Inl x, s1) \<Rightarrow> create w u dto s = (Inl x, s) \<and> preview w u dto s = (Inl x, s)
   | (Inr p, s1) \<Rightarrow> fst (create w u dto s) = Inl TypeErrorExn \<and> isl (fst (preview w u dto s)) \<and>
       map_option e_status (find_engagement (cd_engagementId dto) (snd (create w u dto s))) = Some PENDING_ACCEPTANCE \<and>
       map_option e_status (find_engagement (cd_engagementId dto) (snd (preview w u dto s))) = Some PENDING_ACCEPTANCE"
proof (cases "prepareEngagement w u dto s")
  case (Pair r s1)
  show ?thesis
  proof (cases r)
    case (Inl x)
    with Pair prepare_Inl [of w u dto s x s1] show ?thesis by (simp add: create_def preview_def)
  next
    case (Inr p)
    note run = Pair [unfolded Inr]
    show ?thesis
      using prepare_Inr [OF run] create_after_prepare [OF run] preview_after_prepare [OF run] run
      by (auto simp: find_engagement_def)
  qed
qed

end
