(* ===== verification/CreditLedger.thy ===== *)
theory CreditLedger
  imports Decimal
begin

text \<open>
  \<^verbatim>\<open>modules/billing/credit-ledger.service.ts\<close>: the prepaid credit of a company is an append-only list
  of entries, each with the running balance.  An append reads the latest entry and inserts the next
  sequence number; the unique indices on (companyId, sequence) and (companyId, idempotencyKey) turn a
  race into an error the loop retries.  \<open>race n\<close> is what other writers append between the read and
  the insert of the attempt with \<open>n\<close> attempts left after it.
\<close>

datatype entry_type = PURCHASE | GRANT | FEE_DEDUCTION | REVERSAL | ADJUSTMENT

record entry_input =
  ei_type :: entry_type
  ei_amount :: int
  ei_reference :: "string option"
  ei_createdById :: "ident option"

record credit_entry =
  ce_companyId :: ident
  ce_sequence :: nat
  ce_type :: entry_type
  ce_amount :: int
  ce_balanceAfter :: int
  ce_reference :: "string option"
  ce_idempotencyKey :: "string option"
  ce_createdById :: "ident option"

type_synonym ledger = "credit_entry list"

definition MAX_APPEND_ATTEMPTS :: nat where "MAX_APPEND_ATTEMPTS = 5"

definition entries_of :: "ident \<Rightarrow> ledger \<Rightarrow> ledger" where
  "entries_of co l = filter (\<lambda>e. ce_companyId e = co) l"

definition latest_entry :: "ident \<Rightarrow> ledger \<Rightarrow> credit_entry option" where
  "latest_entry co l = latest_by ce_sequence (entries_of co l)"

definition balance_of :: "credit_entry option \<Rightarrow> int" where
  "balance_of e = (case e of None \<Rightarrow> 0 | Some x \<Rightarrow> ce_balanceAfter x)"

definition sequence_of :: "credit_entry option \<Rightarrow> nat" where
  "sequence_of e = (case e of None \<Rightarrow> 0 | Some x \<Rightarrow> ce_sequence x)"

definition getBalance :: "ident \<Rightarrow> ledger \<Rightarrow> int" where
  "getBalance co l = balance_of (latest_entry co l)"

definition listEntries :: "ident \<Rightarrow> nat \<Rightarrow> nat \<Rightarrow> entry_type option \<Rightarrow> ledger \<Rightarrow> ledger \<times> nat" where
  "listEntries co page limit ty l =
     (let rows = filter (\<lambda>e. case ty of None \<Rightarrow> True | Some t \<Rightarrow> ce_type e = t) (entries_of co l)
      in (take limit (drop ((page - 1) * limit) (rev (sort_key ce_sequence rows))), length rows))"

definition find_key :: "ident \<Rightarrow> string option \<Rightarrow> ledger \<Rightarrow> credit_entry option" where
  "find_key co key l =
     (if truthy key then List.find (\<lambda>e. ce_companyId e = co \<and> ce_idempotencyKey e = key) l else None)"

text \<open>The insert, with the two unique indices; NULL keys do not collide.\<close>

definition insert_entry :: "credit_entry \<Rightarrow> ledger \<Rightarrow> (ledger, credit_entry) outcome" where
  "insert_entry e l =
     (if \<exists>x \<in> set l. ce_companyId x = ce_companyId e \<and> (ce_sequence x = ce_sequence e \<or>
          ce_idempotencyKey e \<noteq> None \<and> ce_idempotencyKey x = ce_idempotencyKey e)
      then throw UniqueViolation l else return e (l @ [e]))"

definition next_entry :: "ident \<Rightarrow> string option \<Rightarrow> credit_entry option \<Rightarrow> entry_input \<Rightarrow> credit_entry" where
  "next_entry co key prev inp =
     \<lparr>ce_companyId = co, ce_sequence = sequence_of prev + 1, ce_type = ei_type inp, ce_amount = ei_amount inp,
      ce_balanceAfter = balance_of prev + ei_amount inp, ce_reference = ei_reference inp,
      ce_idempotencyKey = key, ce_createdById = ei_createdById inp\<rparr>"

text \<open>The loop, by the attempts left.\<close>

fun append_loop :: "nat \<Rightarrow> (nat \<Rightarrow> ledger \<Rightarrow> ledger) \<Rightarrow> ident \<Rightarrow> string option \<Rightarrow>
  (int \<Rightarrow> exn + entry_input option) \<Rightarrow> ledger \<Rightarrow> (ledger, credit_entry option) outcome" where
  "append_loop 0 race co key compute l = throw ConflictException l"
| "append_loop (Suc n) race co key compute l = (case find_key co key l of
     Some e \<Rightarrow> return (Some e) l
   | None \<Rightarrow>
       (let prev = latest_entry co l
        in case compute (balance_of prev) of
             Inl x \<Rightarrow> throw x l
           | Inr None \<Rightarrow> return None l
           | Inr (Some inp) \<Rightarrow> (case insert_entry (next_entry co key prev inp) (race n l) of
               (Inl UniqueViolation, l1) \<Rightarrow> append_loop n race co key compute l1
             | (Inl x, l1) \<Rightarrow> throw x l1
             | (Inr e, l1) \<Rightarrow> return (Some e) l1)))"

definition appendComputed where
  "appendComputed = append_loop MAX_APPEND_ATTEMPTS"

definition fixed_amount :: "entry_input \<Rightarrow> int \<Rightarrow> exn + entry_input option" where
  "fixed_amount inp balance =
     (if balance + ei_amount inp < 0 then Inl BadRequestException else Inr (Some inp))"

definition append_entry :: "(nat \<Rightarrow> ledger \<Rightarrow> ledger) \<Rightarrow> ident \<Rightarrow> string option \<Rightarrow> entry_input \<Rightarrow> ledger \<Rightarrow>
  (ledger, credit_entry option) outcome" where
  "append_entry race co key inp l =
     (if ei_amount inp = 0 then throw BadRequestException l
      else appendComputed race co key (fixed_amount inp) l)"

definition fee_amount :: "int \<Rightarrow> string \<Rightarrow> int \<Rightarrow> exn + entry_input option" where
  "fee_amount fee reference balance =
     (let applied = (if balance < fee then balance else fee)
      in if applied \<le> 0 then Inr None
         else Inr (Some \<lparr>ei_type = FEE_DEDUCTION, ei_amount = - applied, ei_reference = Some reference,
                         ei_createdById = None\<rparr>))"

definition fee_key :: "string \<Rightarrow> string option" where
  "fee_key reference = Some (''fee:'' @ reference)"

record fee_application =
  fa_feeAmount :: int
  fa_creditApplied :: int
  fa_amountDue :: int
  fa_balanceAfter :: int
  fa_entry :: "credit_entry option"

definition applyToFee :: "(nat \<Rightarrow> ledger \<Rightarrow> ledger) \<Rightarrow> ident \<Rightarrow> int \<Rightarrow> string \<Rightarrow> ledger \<Rightarrow>
  (ledger, fee_application) outcome" where
  "applyToFee race co fee reference l =
     (if fee \<le> 0 then throw BadRequestException l
      else and_then (appendComputed race co (fee_key reference) (fee_amount fee reference) l) (\<lambda>entry l1.
        let applied = (case entry of None \<Rightarrow> 0 | Some e \<Rightarrow> - ce_amount e)
        in return \<lparr>fa_feeAmount = fee, fa_creditApplied = applied, fa_amountDue = fee - applied,
             fa_balanceAfter = (case entry of None \<Rightarrow> getBalance co l1 | Some e \<Rightarrow> ce_balanceAfter e),
             fa_entry = entry\<rparr> l1))"

section \<open>The invariant\<close>

text \<open>
  \<open>b\<close> is the balance and \<open>n\<close> the sequence number before the entries: each carries the next number and
  the balance it leads to, which is never negative.
\<close>

fun chained :: "int \<Rightarrow> nat \<Rightarrow> ledger \<Rightarrow> bool" where
  "chained b n [] = True"
| "chained b n (e # es) \<longleftrightarrow> ce_sequence e = Suc n \<and> ce_balanceAfter e = b + ce_amount e \<and>
     0 \<le> ce_balanceAfter e \<and> chained (ce_balanceAfter e) (Suc n) es"

definition ledger_ok :: "ident \<Rightarrow> ledger \<Rightarrow> bool" where
  "ledger_ok co l \<longleftrightarrow> chained 0 0 (entries_of co l)"

lemma chained_append:
  "chained b n (es @ [e]) \<longleftrightarrow> chained b n es \<and> ce_sequence e = n + length es + 1 \<and>
     ce_balanceAfter e = b + sum_list (map ce_amount es) + ce_amount e \<and> 0 \<le> ce_balanceAfter e"
  by (induction es arbitrary: b n) auto

lemma chained_sequences: "chained b n es \<Longrightarrow> map ce_sequence es = [Suc n ..< Suc (n + length es)]"
  by (induction es arbitrary: b n) (auto simp: upt_conv_Cons simp del: upt_Suc)

lemma entries_of_append [simp]: "entries_of co (l @ l') = entries_of co l @ entries_of co l'"
  by (simp add: entries_of_def)

text \<open>The latest entry of a well-formed ledger is its last, and holds the sum of all amounts.\<close>

lemma latest_of_chain:
  assumes "chained 0 0 es"
  shows "latest_by ce_sequence es = (if es = [] then None else Some (last es))"
    and "balance_of (latest_by ce_sequence es) = sum_list (map ce_amount es)"
    and "sequence_of (latest_by ce_sequence es) = length es"
    and "0 \<le> sum_list (map ce_amount es)"
proof -
  have all: "latest_by ce_sequence es = (if es = [] then None else Some (last es)) \<and>
      balance_of (latest_by ce_sequence es) = sum_list (map ce_amount es) \<and>
      sequence_of (latest_by ce_sequence es) = length es \<and> 0 \<le> sum_list (map ce_amount es)"
  proof (cases es rule: rev_cases)
    case (snoc ys e)
    with assms have c: "chained 0 0 ys" "ce_sequence e = Suc (length ys)"
      "ce_balanceAfter e = sum_list (map ce_amount ys) + ce_amount e" "0 \<le> ce_balanceAfter e"
      by (simp_all add: chained_append)
    have "ce_sequence y \<le> length ys" if "y \<in> set ys" for y
      using chained_sequences [OF c(1)] that by (metis (no_types, lifting) add_0 atLeastLessThan_iff image_eqI
          less_Suc_eq_le list.set_map set_upt)
    then have "latest_by ce_sequence es = Some e"
      using snoc c(2) by (intro latest_by_unique) (auto simp: less_Suc_eq_le)
    with snoc c show ?thesis by (simp add: balance_of_def sequence_of_def)
  qed (simp add: balance_of_def sequence_of_def)
  then show "latest_by ce_sequence es = (if es = [] then None else Some (last es))"
    and "balance_of (latest_by ce_sequence es) = sum_list (map ce_amount es)"
    and "sequence_of (latest_by ce_sequence es) = length es"
    and "0 \<le> sum_list (map ce_amount es)" by blast+
qed

text \<open>A balance function of the code never lets the balance become negative.\<close>

definition safe_compute :: "(int \<Rightarrow> exn + entry_input option) \<Rightarrow> bool" where
  "safe_compute compute \<longleftrightarrow> (\<forall>b inp. 0 \<le> b \<longrightarrow> compute b = Inr (Some inp) \<longrightarrow> 0 \<le> b + ei_amount inp)"

lemma safe_computes: "safe_compute (fixed_amount inp)" "safe_compute (fee_amount fee r)"
  by (auto simp: safe_compute_def fixed_amount_def fee_amount_def Let_def split: if_splits)

text \<open>Writers only append.\<close>

definition extends :: "ledger \<Rightarrow> ledger \<Rightarrow> bool" where
  "extends l l' \<longleftrightarrow> (\<exists>xs. l' = l @ xs)"

lemma extends_refl [simp]: "extends l l"
  by (simp add: extends_def)

lemma extends_trans: "extends a b \<Longrightarrow> extends b c \<Longrightarrow> extends a c"
  by (auto simp: extends_def)

definition good_race :: "(nat \<Rightarrow> ledger \<Rightarrow> ledger) \<Rightarrow> bool" where
  "good_race race \<longleftrightarrow> (\<forall>n l. extends l (race n l) \<and> ((\<forall>c. ledger_ok c l) \<longrightarrow> (\<forall>c. ledger_ok c (race n l))))"

text \<open>
  The unique index makes the read-then-insert safe: if the insert succeeds, the entry read is still
  the latest one.
\<close>

lemma insert_is_next:
  assumes "ledger_ok co l" and "ledger_ok co l1" and "extends l l1"
    and "insert_entry (next_entry co key (latest_entry co l) inp) l1 = (Inr e, l2)"
  shows "entries_of co l1 = entries_of co l" and "l2 = l1 @ [e]" and "e = next_entry co key (latest_entry co l) inp"
proof -
  let ?n = "length (entries_of co l)"
  have e: "e = next_entry co key (latest_entry co l) inp" "l2 = l1 @ [e]"
    and free: "\<And>x. x \<in> set l1 \<Longrightarrow> ce_companyId x = co \<Longrightarrow> ce_sequence x \<noteq> sequence_of (latest_entry co l) + 1"
    using assms(4) by (auto simp: insert_entry_def next_entry_def split: if_splits)
  then show "e = next_entry co key (latest_entry co l) inp" "l2 = l1 @ [e]" by simp_all
  have s: "sequence_of (latest_entry co l) = ?n"
    using latest_of_chain(3) assms(1) by (simp add: ledger_ok_def latest_entry_def)
  obtain xs where l1: "l1 = l @ xs" using assms(3) by (auto simp: extends_def)
  show "entries_of co l1 = entries_of co l"
  proof (rule ccontr)
    assume "entries_of co l1 \<noteq> entries_of co l"
    then have "?n < length (entries_of co l1)" using l1 by (cases "entries_of co xs") auto
    moreover have "map ce_sequence (entries_of co l1) = [Suc 0 ..< Suc (length (entries_of co l1))]"
      using chained_sequences assms(2) by (fastforce simp: ledger_ok_def)
    ultimately have "Suc ?n \<in> ce_sequence ` set (entries_of co l1)"
      by (metis (no_types, lifting) Suc_le_mono atLeastLessThan_iff le0 list.set_map not_less_eq set_upt)
    then obtain x where "x \<in> set l1" "ce_companyId x = co" "ce_sequence x = Suc ?n"
      by (auto simp: entries_of_def)
    with free [of x] s show False by simp
  qed
qed

lemma append_loop_extends:
  assumes "\<And>n l. extends l (race n l)"
  shows "extends l (snd (append_loop n race co key compute l))"
proof (induction n arbitrary: l)
  case (Suc n)
  have ins: "extends (race n l) (snd (insert_entry e (race n l)))" for e
    by (simp add: insert_entry_def extends_def return_def throw_def)
  have "extends l l2" if "insert_entry e (race n l) = (r, l2)" for e r l2
    using that ins [of e] extends_trans [OF assms] by (metis snd_conv)
  then show ?case
    using extends_trans [OF _ Suc.IH] by (auto simp: Let_def split: option.split sum.split prod.split exn.split)
qed simp

lemma append_loop_ok:
  assumes "good_race race" and "safe_compute compute" and "\<And>c. ledger_ok c l"
  shows "extends l (snd (append_loop n race co key compute l)) \<and>
    ledger_ok c (snd (append_loop n race co key compute l))"
  using assms(3)
proof (induction n arbitrary: l)
  case (Suc n)
  show ?case
  proof (cases "find_key co key l \<noteq> None \<or> (\<exists>x. compute (balance_of (latest_entry co l)) = Inl x) \<or>
      compute (balance_of (latest_entry co l)) = Inr None")
    case True
    then show ?thesis using Suc.prems by (auto simp: Let_def split: option.split)
  next
    case False
    then obtain inp where inp: "compute (balance_of (latest_entry co l)) = Inr (Some inp)" and k: "find_key co key l = None"
      by (cases "compute (balance_of (latest_entry co l))") auto
    let ?l1 = "race n l" and ?e = "next_entry co key (latest_entry co l) inp"
    have r: "extends l ?l1" "\<And>c. ledger_ok c ?l1" using assms(1) Suc.prems by (auto simp: good_race_def)
    show ?thesis
    proof (cases "insert_entry ?e ?l1")
      case (Pair res l2)
      show ?thesis
      proof (cases res)
        case (Inl x)
        with Pair have "x = UniqueViolation" "l2 = ?l1" by (auto simp: insert_entry_def split: if_splits)
        with Pair Inl inp k Suc.IH [OF r(2)] extends_trans [OF r(1)] show ?thesis by (auto simp: Let_def)
      next
        case (Inr e)
        note ins = insert_is_next [OF Suc.prems r(2) r(1) Pair [unfolded Inr]]
        have ch: "chained 0 0 (entries_of co l)" using Suc.prems by (simp add: ledger_ok_def)
        note lat = latest_of_chain [OF ch]
        have b: "0 \<le> balance_of (latest_entry co l) + ei_amount inp"
          using assms(2) inp lat(2,4) by (auto simp: safe_compute_def latest_entry_def)
        have "ledger_ok c l2"
        proof (cases "c = co")
          case True
          have "entries_of co l2 = entries_of co l @ [e]"
            using ins by (simp add: entries_of_def next_entry_def)
          with ch b lat show ?thesis
            unfolding True by (simp add: ledger_ok_def chained_append ins(3) next_entry_def latest_entry_def)
        next
          case False
          then have "entries_of c l2 = entries_of c ?l1" using ins by (simp add: entries_of_def next_entry_def)
          with r(2) [of c] show ?thesis by (simp add: ledger_ok_def)
        qed
        moreover have "extends l l2" using r(1) ins(2) by (auto simp: extends_def)
        ultimately show ?thesis using Pair Inr inp k by (simp add: Let_def)
      qed
    qed
  qed
qed simp

section \<open>Concurrent writers\<close>

text \<open>
  Every ledger the writers can produce from another one: appends and fee deductions, each attempt of
  which may be interrupted by any such run of the others.
\<close>

inductive ledger_run :: "ledger \<Rightarrow> ledger \<Rightarrow> bool" where
  start: "ledger_run l l"
| append: "ledger_run l l1 \<Longrightarrow> (\<And>n t. ledger_run t (race n t)) \<Longrightarrow>
    ledger_run l (snd (append_entry race co key inp l1))"
| fee: "ledger_run l l1 \<Longrightarrow> (\<And>n t. ledger_run t (race n t)) \<Longrightarrow>
    ledger_run l (snd (applyToFee race co amount reference l1))"

lemma snd_applyToFee: "snd (applyToFee race co amount reference l) =
    (if amount \<le> 0 then l else snd (appendComputed race co (fee_key reference) (fee_amount amount reference) l))"
  by (auto simp: applyToFee_def and_then_def Let_def return_def split: prod.splits sum.splits)

lemma ledger_run_ok:
  assumes "ledger_run l l'"
  shows "extends l l' \<and> ((\<forall>c. ledger_ok c l) \<longrightarrow> (\<forall>c. ledger_ok c l'))"
  using assms
proof induction
  case (append l l1 race co key inp)
  have "good_race race" using append.IH(2) by (simp add: good_race_def)
  note ok = append_loop_ok [OF this safe_computes(1)]
  have "extends l1 (snd (append_loop n race co key (fixed_amount inp) l1))" for n
    by (rule append_loop_extends) (use append.IH(2) in blast)
  with append.IH(1) ok show ?case
    by (auto simp: append_entry_def appendComputed_def intro: extends_trans)
next
  case (fee l l1 race co amount reference)
  have "good_race race" using fee.IH(2) by (simp add: good_race_def)
  note ok = append_loop_ok [OF this safe_computes(2)]
  have "extends l1 (snd (append_loop n race co key (fee_amount amount reference) l1))" for n key
    by (rule append_loop_extends) (use fee.IH(2) in blast)
  with fee.IH(1) ok show ?case
    by (auto simp: snd_applyToFee appendComputed_def intro: extends_trans)
qed simp

section \<open>Fees\<close>

definition alone :: "nat \<Rightarrow> ledger \<Rightarrow> ledger" where
  "alone n l = l"

lemma latest_sequence_free:
  assumes "ledger_ok co l" and "x \<in> set l" and "ce_companyId x = co"
  shows "ce_sequence x < sequence_of (latest_entry co l) + 1"
proof -
  let ?es = "entries_of co l"
  have ch: "chained 0 0 ?es" using assms(1) by (simp add: ledger_ok_def)
  have "ce_sequence x \<in> set (map ce_sequence ?es)" using assms(2,3) by (simp add: entries_of_def)
  then have "ce_sequence x \<le> length ?es" using chained_sequences [OF ch] by (simp del: list.set_map upt_Suc)
  then show ?thesis using latest_of_chain(3) [OF ch] by (simp add: latest_entry_def)
qed

lemma append_alone:
  assumes "ledger_ok co l" and "find_key co key l = None" and "key = None \<or> truthy key"
    and "compute (getBalance co l) = Inr (Some inp)"
  defines "e \<equiv> next_entry co key (latest_entry co l) inp"
  shows "appendComputed alone co key compute l = (Inr (Some e), l @ [e])"
proof -
  have "ce_sequence x \<noteq> sequence_of (latest_entry co l) + 1" if "x \<in> set l" "ce_companyId x = co" for x
    using latest_sequence_free [OF assms(1) that] by simp
  moreover have "ce_idempotencyKey x \<noteq> key" if "x \<in> set l" "ce_companyId x = co" "key \<noteq> None" for x
    using assms(2,3) that by (auto simp: find_key_def find_None split: if_splits)
  ultimately have "insert_entry e l = (Inr e, l @ [e])"
    by (auto simp: insert_entry_def e_def next_entry_def return_def)
  with assms(2,4) show ?thesis
    by (simp add: appendComputed_def MAX_APPEND_ATTEMPTS_def numeral_eq_Suc alone_def getBalance_def Let_def
        e_def [symmetric] return_def)
qed

lemma find_key_append: "find_key co key (l @ [e]) = (if find_key co key l \<noteq> None then find_key co key l
    else if truthy key \<and> ce_companyId e = co \<and> ce_idempotencyKey e = key then Some e else None)"
  by (auto simp: find_key_def find_append split: option.split)

section \<open>Properties\<close>

text \<open>
  C14.  Starting from an empty ledger, whatever appends and fee deductions run, and however they
  interrupt each other between reading the balance and writing: the entries of a company are numbered
  1 to n, each carries the sum of all amounts so far, no balance was ever negative, and the balance
  the service reports is the sum of all amounts.
\<close>
theorem credit_never_overdrawn:
  assumes "ledger_run [] l"
  shows "chained 0 0 (entries_of co l) \<and> map ce_sequence (entries_of co l) = [1 ..< length (entries_of co l) + 1] \<and>
    getBalance co l = sum_list (map ce_amount (entries_of co l)) \<and> 0 \<le> getBalance co l"
proof -
  have "chained 0 0 (entries_of co l)"
    using ledger_run_ok [OF assms] by (simp add: ledger_ok_def entries_of_def)
  with latest_of_chain [OF this] chained_sequences [OF this] show ?thesis
    by (simp add: getBalance_def latest_entry_def del: upt_Suc)
qed

theorem credit_never_overdrawn_witness:
  "0 \<le> getBalance ''c'' (snd (applyToFee alone ''c'' 30 ''r''
     (snd (append_entry alone ''c'' None \<lparr>ei_type = PURCHASE, ei_amount = 100, ei_reference = None, ei_createdById = None\<rparr> []))))"
  by (rule credit_never_overdrawn [THEN conjunct2, THEN conjunct2, THEN conjunct2])
    (intro ledger_run.intros; simp add: alone_def ledger_run.start)

text \<open>
  A fee applied without interruption takes exactly the smaller of fee and balance from the
  credit, leaves the rest due, and lowers the balance by what it took; applying the same fee again,
  in whatever race, returns the same answer and writes nothing.
\<close>
lemma fee_is_charged_once:
  assumes "ledger_ok co l" and "find_key co (fee_key reference) l = None" and "0 < fee" and "0 < getBalance co l"
  shows "\<exists>r l'. applyToFee alone co fee reference l = (Inr r, l') \<and>
    fa_creditApplied r = min fee (getBalance co l) \<and> fa_creditApplied r + fa_amountDue r = fee \<and>
    getBalance co l' = getBalance co l - fa_creditApplied r \<and> fa_balanceAfter r = getBalance co l' \<and>
    applyToFee race co fee reference l' = (Inr r, l')"
proof -
  let ?key = "fee_key reference" and ?a = "min fee (getBalance co l)"
  let ?inp = "\<lparr>ei_type = FEE_DEDUCTION, ei_amount = - ?a, ei_reference = Some reference, ei_createdById = None\<rparr>"
  let ?e = "next_entry co ?key (latest_entry co l) ?inp"
  have key: "truthy ?key" by (simp add: fee_key_def)
  have "fee_amount fee reference (getBalance co l) = Inr (Some ?inp)"
    using assms(3,4) by (auto simp: fee_amount_def Let_def min_def)
  from append_alone [where key = ?key and compute = "fee_amount fee reference" and inp = ?inp, OF assms(1,2) _ this] key
  have run: "appendComputed alone co ?key (fee_amount fee reference) l = (Inr (Some ?e), l @ [?e])" by simp
  define e where "e = ?e"
  have ok: "chained 0 0 (entries_of co l)" using assms(1) by (simp add: ledger_ok_def)
  note lat = latest_of_chain [OF ok]
  have b: "getBalance co l = sum_list (map ce_amount (entries_of co l))"
    using lat(2) by (simp add: getBalance_def latest_entry_def)
  have e: "ce_companyId e = co" "ce_amount e = - ?a" "ce_sequence e = length (entries_of co l) + 1"
    "ce_balanceAfter e = getBalance co l - ?a" "ce_idempotencyKey e = ?key"
    using lat(3) by (simp_all add: e_def next_entry_def getBalance_def latest_entry_def)
  have e1: "entries_of co [e] = [e]" using e(1) by (simp add: entries_of_def)
  then have es: "entries_of co (l @ [e]) = entries_of co l @ [e]" by simp
  have "chained 0 0 (entries_of co (l @ [e]))" unfolding es chained_append using ok b e by simp
  from latest_of_chain(2) [OF this] have b': "getBalance co (l @ [e]) = getBalance co l - ?a"
    using b e(2) e1 by (simp add: getBalance_def latest_entry_def)
  have again: "appendComputed race co ?key (fee_amount fee reference) (l @ [e]) = (Inr (Some e), l @ [e])"
    using key assms(2) e by (simp add: appendComputed_def MAX_APPEND_ATTEMPTS_def numeral_eq_Suc find_key_append
        return_def)
  show ?thesis using assms(3) run [folded e_def] again b' e(2,4)
    by (simp add: applyToFee_def Let_def return_def)
qed

definition credit_ledger1 :: ledger where
  "credit_ledger1 = [\<lparr>ce_companyId = ''c'', ce_sequence = 1, ce_type = PURCHASE, ce_amount = 100, ce_balanceAfter = 100,
     ce_reference = None, ce_idempotencyKey = None, ce_createdById = None\<rparr>]"

lemma fee_is_charged_once_witness:
  "\<exists>r l'. applyToFee alone ''c'' 30 ''r'' credit_ledger1 = (Inr r, l') \<and> fa_creditApplied r = 30 \<and> fa_amountDue r = 0"
proof -
  have g: "getBalance ''c'' credit_ledger1 = 100"
    by (simp add: credit_ledger1_def getBalance_def latest_entry_def entries_of_def latest_by_def balance_of_def)
  have "ledger_ok ''c'' credit_ledger1" "find_key ''c'' (fee_key ''r'') credit_ledger1 = None"
    by (simp_all add: credit_ledger1_def ledger_ok_def entries_of_def find_key_def)
  from fee_is_charged_once [OF this, of 30 alone] g show ?thesis by auto
qed

end
