(* ===== verification/InvoiceTax.thy ===== *)
theory InvoiceTax
  imports Csv
begin

text \<open>
  \<^verbatim>\<open>modules/billing/tax/invoice-tax.calculator.ts\<close>: normalisation of countries and tax numbers, the VAT
  rate table, rounding, and the treatment of an invoice by place of supply.  Amounts and rates are
  integers.  The notices are represented by the treatment that prints them.
\<close>

datatype tax_treatment = NOT_REGISTERED | DOMESTIC | REVERSE_CHARGE | EU_DESTINATION | OUTSIDE_SCOPE

definition EU_COUNTRIES :: "string list" where
  "EU_COUNTRIES = [''AT'', ''BE'', ''BG'', ''HR'', ''CY'', ''CZ'', ''DK'', ''EE'', ''FI'', ''FR'', ''DE'', ''GR'',
     ''HU'', ''IE'', ''IT'', ''LV'', ''LT'', ''LU'', ''MT'', ''NL'', ''PL'', ''PT'', ''RO'', ''SK'', ''SI'', ''ES'', ''SE'']"

definition STANDARD_VAT_RATES_BPS :: "(string \<times> int) list" where
  "STANDARD_VAT_RATES_BPS =
     [(''AT'', 2000), (''BE'', 2100), (''BG'', 2000), (''HR'', 2500), (''CY'', 1900), (''CZ'', 2100), (''DK'', 2500),
      (''EE'', 2400), (''FI'', 2550), (''FR'', 2000), (''DE'', 1900), (''GR'', 2400), (''HU'', 2700), (''IE'', 2300),
      (''IT'', 2200), (''LV'', 2100), (''LT'', 2100), (''LU'', 1700), (''MT'', 1800), (''NL'', 2100), (''PL'', 2300),
      (''PT'', 2300), (''RO'', 2100), (''SK'', 2300), (''SI'', 2200), (''ES'', 2100), (''SE'', 2500),
      (''GB'', 2000), (''NO'', 2500), (''CH'', 810)]"

record tax_party =
  tx_country :: "string option"
  tx_taxId :: "string option"

record tax_line =
  tl_label :: string
  tl_rateBps :: int
  tl_base :: int
  tl_amount :: int

record tax_result =
  it_treatment :: tax_treatment
  it_rateBps :: int
  it_subtotal :: int
  it_taxTotal :: int
  it_total :: int
  it_taxLines :: "tax_line list"
  it_notices :: "tax_treatment list"
  it_seller :: tax_party
  it_customer :: tax_party

section \<open>Normalisation\<close>

definition is_upper :: "char \<Rightarrow> bool" where
  "is_upper c \<longleftrightarrow> (let n = (of_char c :: nat) in 65 \<le> n \<and> n \<le> 90)"

definition or_empty_string :: "string option \<Rightarrow> string" where
  "or_empty_string s = (case s of None \<Rightarrow> [] | Some x \<Rightarrow> x)"

definition normalizeCountry :: "string option \<Rightarrow> string option" where
  "normalizeCountry c = (let v = map upper_char (trim (or_empty_string c))
     in if length v = 2 \<and> list_all is_upper v then Some v else None)"

definition normalizeTaxId :: "string option \<Rightarrow> string option" where
  "normalizeTaxId t =
     (let v = map upper_char (filter (\<lambda>c. \<not> is_space c \<and> c \<noteq> CHR ''.'' \<and> c \<noteq> CHR ''-'') (or_empty_string t))
      in if v = [] then None else Some v)"

definition vatPrefix :: "string \<Rightarrow> string" where
  "vatPrefix c = (if c = ''GR'' then ''EL'' else c)"

definition alnum_upper :: "nat \<Rightarrow> nat \<Rightarrow> string \<Rightarrow> bool" where
  "alnum_upper lo hi s \<longleftrightarrow> lo \<le> length s \<and> length s \<le> hi \<and> list_all (\<lambda>c. is_upper c \<or> is_digit c) s"

definition isPlausibleVatId :: "string option \<Rightarrow> string option \<Rightarrow> bool" where
  "isPlausibleVatId t c =
     (if \<not> truthy t \<or> \<not> truthy c then False
      else if the c \<notin> set EU_COUNTRIES then alnum_upper 4 20 (the t)
      else let p = vatPrefix (the c)
           in take (length p) (the t) = p \<and> alnum_upper 2 13 (drop (length p) (the t)))"

section \<open>Rates\<close>

definition standardRateBps :: "string \<Rightarrow> (string \<times> int) list \<Rightarrow> exn + int" where
  "standardRateBps c overrides = (case map_of overrides c of
     Some r \<Rightarrow> Inr r
   | None \<Rightarrow> (case map_of STANDARD_VAT_RATES_BPS c of Some r \<Rightarrow> Inr r | None \<Rightarrow> Inl PlainError))"

definition applyRate :: "int \<Rightarrow> int \<Rightarrow> int" where
  "applyRate base bps =
     (if bps = 0 \<or> base = 0 then 0
      else let numerator = base * bps; s = (if numerator < 0 then -1 else 1); a = numerator * s
           in s * ((a + 5000) div 10000))"

text \<open>\<open>rateBps / 100\<close> as JavaScript prints it: no trailing zeros.\<close>

definition formatRate :: "int \<Rightarrow> string" where
  "formatRate bps =
     (let q = bps div 100; r = bps mod 100
      in show_int q @
         (if r = 0 then [] else if r mod 10 = 0 then CHR ''.'' # show_int (r div 10)
          else CHR ''.'' # padStart 2 (CHR ''0'') (show_int r)) @ ''%'')"

section \<open>The computation\<close>

definition tax_result_of ::
  "tax_party \<Rightarrow> tax_party \<Rightarrow> int \<Rightarrow> tax_treatment \<Rightarrow> int \<Rightarrow> string option \<Rightarrow> tax_treatment list \<Rightarrow> tax_result" where
  "tax_result_of seller customer subtotal tr bps label notices =
     (let tax = applyRate subtotal bps
      in \<lparr>it_treatment = tr, it_rateBps = bps, it_subtotal = subtotal, it_taxTotal = tax, it_total = subtotal + tax,
          it_taxLines = (if truthy label
             then [\<lparr>tl_label = the label, tl_rateBps = bps, tl_base = subtotal, tl_amount = tax\<rparr>] else []),
          it_notices = notices, it_seller = seller, it_customer = customer\<rparr>)"

definition vat_label :: "int \<Rightarrow> string \<Rightarrow> string" where
  "vat_label bps country = ''VAT '' @ formatRate bps @ '' ('' @ country @ '')''"

definition computeInvoiceTax ::
  "tax_party \<Rightarrow> tax_party \<Rightarrow> int list \<Rightarrow> (string \<times> int) list \<Rightarrow> exn + tax_result" where
  "computeInvoiceTax seller customer amounts overrides =
     (let sc = normalizeCountry (tx_country seller); st = normalizeTaxId (tx_taxId seller);
          cc = normalizeCountry (tx_country customer); ct = normalizeTaxId (tx_taxId customer);
          subtotal = sum_list amounts;
          result = tax_result_of \<lparr>tx_country = sc, tx_taxId = st\<rparr> \<lparr>tx_country = cc, tx_taxId = ct\<rparr> subtotal
      in if sc = None \<or> st = None then Inr (result NOT_REGISTERED 0 None [])
         else if cc = None \<or> cc = sc
         then (case standardRateBps (the sc) overrides of
                 Inl x \<Rightarrow> Inl x
               | Inr r \<Rightarrow> Inr (result DOMESTIC r (Some (vat_label r (the sc))) []))
         else if the sc \<in> set EU_COUNTRIES \<and> the cc \<in> set EU_COUNTRIES
         then (if isPlausibleVatId ct cc
               then Inr (result REVERSE_CHARGE 0 (Some ''VAT 0% (reverse charge)'') [REVERSE_CHARGE])
               else (case standardRateBps (the cc) overrides of
                 Inl x \<Rightarrow> Inl x
               | Inr r \<Rightarrow> Inr (result EU_DESTINATION r (Some (vat_label r (the cc))) [EU_DESTINATION])))
         else Inr (result OUTSIDE_SCOPE 0 (Some ''VAT 0% (outside scope)'') [OUTSIDE_SCOPE]))"

section \<open>Rounding\<close>

text \<open>The tax is the exact product rounded to the nearest unit, halves away from zero.\<close>

lemma round_half: "0 \<le> a \<Longrightarrow> \<bar>((a + 5000) div 10000) * 10000 - a\<bar> \<le> (5000::int)"
proof -
  define q r where "q = (a + 5000) div 10000" and "r = (a + 5000) mod 10000"
  have "a + 5000 = q * 10000 + r" by (simp add: q_def r_def)
  moreover have "0 \<le> r" "r < 10000" by (simp_all add: r_def)
  ultimately show ?thesis unfolding q_def [symmetric] by linarith
qed

lemma applyRate_nearest: "\<bar>applyRate base bps * 10000 - base * bps\<bar> \<le> 5000"
proof (cases "base * bps < 0")
  case True
  then have "\<bar>((- (base * bps) + 5000) div 10000) * 10000 - (- (base * bps))\<bar> \<le> 5000" by (intro round_half) simp
  with True show ?thesis by (auto simp: applyRate_def Let_def)
next
  case False
  then have "\<bar>((base * bps + 5000) div 10000) * 10000 - base * bps\<bar> \<le> 5000" by (intro round_half) simp
  with False show ?thesis by (auto simp: applyRate_def Let_def)
qed

lemma applyRate_zero [simp]: "applyRate base 0 = 0"
  by (simp add: applyRate_def)

section \<open>Every EU country has a rate\<close>

lemma eu_rates: "c \<in> set EU_COUNTRIES \<Longrightarrow> \<exists>r. standardRateBps c overrides = Inr r"
  by (cases "map_of overrides c")
    (auto simp: EU_COUNTRIES_def standardRateBps_def STANDARD_VAT_RATES_BPS_def)

section \<open>Specification\<close>

text \<open>
  The table of the module's documentation, read as a function of the normalised parties: the
  treatment and the country whose standard rate applies, if any.
\<close>

definition place_of_supply ::
  "string option \<Rightarrow> string option \<Rightarrow> string option \<Rightarrow> string option \<Rightarrow> tax_treatment \<times> string option" where
  "place_of_supply sc st cc ct = (case (sc, st) of
     (Some s, Some _) \<Rightarrow> (case cc of
         None \<Rightarrow> (DOMESTIC, Some s)
       | Some c \<Rightarrow>
           if c = s then (DOMESTIC, Some s)
           else if c \<in> set EU_COUNTRIES \<and> s \<in> set EU_COUNTRIES
           then (if isPlausibleVatId ct (Some c) then (REVERSE_CHARGE, None) else (EU_DESTINATION, Some c))
           else (OUTSIDE_SCOPE, None))
   | _ \<Rightarrow> (NOT_REGISTERED, None))"

text \<open>
  C15.  The invoice tax follows the place of supply: the treatment is the one of the documented table,
  the rate is the standard rate of the country the table names (zero if it names none), the tax is
  the exact amount rounded to the nearest unit, the total is subtotal plus tax; the only error is a
  country without a rate, and no EU country is one.
\<close>
theorem tax_follows_place_of_supply:
  "case place_of_supply (normalizeCountry (tx_country seller)) (normalizeTaxId (tx_taxId seller))
       (normalizeCountry (tx_country customer)) (normalizeTaxId (tx_taxId customer)) of
     (tr, rated) \<Rightarrow> (case computeInvoiceTax seller customer amounts overrides of
       Inr r \<Rightarrow> it_treatment r = tr \<and>
         (case rated of None \<Rightarrow> it_rateBps r = 0 | Some c \<Rightarrow> standardRateBps c overrides = Inr (it_rateBps r)) \<and>
         it_subtotal r = sum_list amounts \<and> \<bar>it_taxTotal r * 10000 - it_subtotal r * it_rateBps r\<bar> \<le> 5000 \<and>
         it_total r = it_subtotal r + it_taxTotal r
     | Inl x \<Rightarrow> (case rated of None \<Rightarrow> False | Some c \<Rightarrow> standardRateBps c overrides = Inl x \<and> c \<notin> set EU_COUNTRIES))"
proof -
  obtain sc st cc ct where n: "normalizeCountry (tx_country seller) = sc" "normalizeTaxId (tx_taxId seller) = st"
    "normalizeCountry (tx_country customer) = cc" "normalizeTaxId (tx_taxId customer) = ct" by blast
  have r: "it_treatment (tax_result_of a b t tr bps l ns) = tr \<and> it_rateBps (tax_result_of a b t tr bps l ns) = bps \<and>
      it_subtotal (tax_result_of a b t tr bps l ns) = t \<and> it_taxTotal (tax_result_of a b t tr bps l ns) = applyRate t bps \<and>
      it_total (tax_result_of a b t tr bps l ns) = t + applyRate t bps" for a b t tr bps l ns
    by (simp add: tax_result_of_def Let_def)
  have rates: "c \<notin> set EU_COUNTRIES" if "standardRateBps c overrides = Inl x" for c x
    using eu_rates [of c overrides] that by auto
  show ?thesis
    unfolding computeInvoiceTax_def place_of_supply_def n Let_def
    using applyRate_nearest [of "sum_list amounts"] rates
    by (auto simp: r split: option.splits sum.splits)
qed

end
