(* ===== verification/Billing.thy ===== *)
theory Billing
  imports Engagements
begin

text \<open>
  \<^verbatim>\<open>modules/billing/billing.service.ts\<close>: the billing summary of a company and the two CSV exports.
  \<open>isoText\<close> is \<open>toISOString\<close>; the period defaults to the current calendar month, whose bounds are
  arguments, since they depend on the server's time zone.
\<close>

text \<open>
  A wallet filter of \<open>undefined\<close> is no filter in Prisma: a company without wallet matches every row.
\<close>

definition in_period :: "time \<Rightarrow> time \<Rightarrow> engagement \<Rightarrow> bool" where
  "in_period from_ms to_ms e \<longleftrightarrow> from_ms \<le> e_createdAt e \<and> e_createdAt e \<le> to_ms"

definition of_company :: "string option \<Rightarrow> engagement \<Rightarrow> bool" where
  "of_company wallet e \<longleftrightarrow> (case wallet of None \<Rightarrow> True | Some a \<Rightarrow> e_companyAddress e = a)"

definition newest_first :: "engagement list \<Rightarrow> engagement list" where
  "newest_first es = rev (sort_key e_createdAt es)"

record billing_line =
  bl_engagementId :: ident
  bl_jobTitle :: string
  bl_createdAt :: time
  bl_totalEscrowed :: stroops
  bl_totalReleased :: stroops
  bl_status :: engagement_status

record billing_summary =
  bs_totalEscrowed :: stroops
  bs_totalReleased :: stroops
  bs_totalEngagements :: nat
  bs_breakdown :: "billing_line list"

definition billing_line_of :: "engagement \<Rightarrow> billing_line" where
  "billing_line_of e = \<lparr>bl_engagementId = e_id e, bl_jobTitle = e_jobTitle e, bl_createdAt = e_createdAt e,
     bl_totalEscrowed = e_totalAmount e, bl_totalReleased = e_releasedAmount e, bl_status = e_status e\<rparr>"

definition getBillingSummary :: "user \<Rightarrow> time \<Rightarrow> time \<Rightarrow> db \<Rightarrow> billing_summary" where
  "getBillingSummary u from_ms to_ms s =
     (let es = newest_first (filter (\<lambda>e. of_company (u_stellarAddress u) e \<and> in_period from_ms to_ms e) (t_engagements s))
      in \<lparr>bs_totalEscrowed = sum_list (map e_totalAmount es), bs_totalReleased = sum_list (map e_releasedAmount es),
          bs_totalEngagements = length es, bs_breakdown = map billing_line_of es\<rparr>)"

definition status_name :: "engagement_status \<Rightarrow> string" where
  "status_name st = (case st of PENDING_ACCEPTANCE \<Rightarrow> ''PENDING_ACCEPTANCE'' | ACTIVE \<Rightarrow> ''ACTIVE''
     | COMPLETED \<Rightarrow> ''COMPLETED'' | CANCELLED \<Rightarrow> ''CANCELLED''
     | REPLACEMENT_REQUESTED \<Rightarrow> ''REPLACEMENT_REQUESTED'' | ACCOUNT_MERGED \<Rightarrow> ''ACCOUNT_MERGED'')"

fun join_lines :: "string list \<Rightarrow> string" where
  "join_lines [] = []"
| "join_lines [l] = l"
| "join_lines (l # ls) = l @ newline # join_lines ls"

definition exportBillingToCsv :: "(time \<Rightarrow> string) \<Rightarrow> user \<Rightarrow> time \<Rightarrow> time \<Rightarrow> db \<Rightarrow> string" where
  "exportBillingToCsv isoText u from_ms to_ms s =
     (let b = getBillingSummary u from_ms to_ms s;
          header = join_fields [''Engagement ID'', ''Job Title'', ''Created At'', ''Total Escrowed'', ''Total Released'', ''Status''];
          rows = map (\<lambda>l. join_fields [bl_engagementId l, quote_field (bl_jobTitle l), isoText (bl_createdAt l),
                   show_int (bl_totalEscrowed l), show_int (bl_totalReleased l), status_name (bl_status l)]) (bs_breakdown b);
          summary = join_fields [''Summary'', [], [], show_int (bs_totalEscrowed b), show_int (bs_totalReleased b),
                   show_int (int (bs_totalEngagements b)) @ '' engagements'']
      in join_lines (header # rows @ [[], summary]))"

definition exportBillingHistory :: "(time \<Rightarrow> string) \<Rightarrow> user \<Rightarrow> time \<Rightarrow> time \<Rightarrow> db \<Rightarrow> string" where
  "exportBillingHistory isoText u from_ms to_ms s =
     (let es = newest_first (filter (\<lambda>e. in_period from_ms to_ms e \<and>
                 (u_role u = ADMIN \<or> of_company (u_stellarAddress u) e)) (t_engagements s));
          header = buildCsvRow [Some ''Date'', Some ''Engagement Reference'', Some ''Amount (stroops)'', Some ''Status''];
          rows = map (\<lambda>e. buildCsvRow [Some (isoText (e_createdAt e)), Some (e_id e), Some (show_int (e_totalAmount e)),
                   Some (status_name (e_status e))]) es
      in join_lines (header # rows))"

text \<open>The breakdown adds up to the summary, and a company with a wallet sees its own engagements only.\<close>

lemma summary_adds_up:
  "bs_totalEscrowed (getBillingSummary u f t s) = sum_list (map bl_totalEscrowed (bs_breakdown (getBillingSummary u f t s)))"
  "bs_totalReleased (getBillingSummary u f t s) = sum_list (map bl_totalReleased (bs_breakdown (getBillingSummary u f t s)))"
  "bs_totalEngagements (getBillingSummary u f t s) = length (bs_breakdown (getBillingSummary u f t s))"
  by (simp_all add: getBillingSummary_def Let_def billing_line_of_def o_def)

lemma summary_is_scoped:
  assumes "u_stellarAddress u = Some a" and "l \<in> set (bs_breakdown (getBillingSummary u f t s))"
  shows "\<exists>e \<in> set (t_engagements s). e_id e = bl_engagementId l \<and> e_companyAddress e = a"
  using assms by (auto simp: getBillingSummary_def Let_def billing_line_of_def newest_first_def of_company_def)

text \<open>Without a wallet the filter is gone: the summary covers every company's engagements in the period.\<close>

lemma walletless_summary_leaks:
  assumes "u_stellarAddress u = None" and "e \<in> set (t_engagements s)" and "in_period f t e"
  shows "billing_line_of e \<in> set (bs_breakdown (getBillingSummary u f t s))"
  using assms by (auto simp: getBillingSummary_def Let_def newest_first_def of_company_def)

end
