(* ===== verification/InvoicePdf.thy ===== *)
theory InvoicePdf
  imports InvoiceTax
begin

text \<open>
  \<^verbatim>\<open>modules/billing/tax/invoice-pdf.ts\<close>: the drawing commands of an invoice, split into pages, and the
  serialisation of pages into a PDF file with its cross-reference table.  Dates arrive as the
  formatted text; a character is a Latin-1 byte, so byte lengths are list lengths.
\<close>

section \<open>Drawing\<close>

definition PAGE_WIDTH :: int where "PAGE_WIDTH = 612"
definition PAGE_HEIGHT :: int where "PAGE_HEIGHT = 792"
definition LEFT :: int where "LEFT = 72"
definition AMOUNT_RIGHT :: int where "AMOUNT_RIGHT = PAGE_WIDTH - 72"
definition BOTTOM :: int where "BOTTOM = 72"

definition printable :: "char \<Rightarrow> bool" where
  "printable c \<longleftrightarrow> (let n = (of_char c :: nat) in (32 \<le> n \<and> n \<le> 126) \<or> 160 \<le> n)"

definition escape_char :: "char \<Rightarrow> string" where
  "escape_char c = (let d = (if printable c then c else CHR ''?'')
     in if d = CHR 0x5C then [CHR 0x5C, CHR 0x5C] else if d = CHR ''('' then [CHR 0x5C, CHR ''('']
        else if d = CHR '')'' then [CHR 0x5C, CHR '')''] else [d])"

definition escapePdfText :: "string \<Rightarrow> string" where
  "escapePdfText s = concat (map escape_char s)"

text \<open>The pages so far, the last one being drawn on, and the height of the pen.\<close>

record canvas =
  cv_pages :: "string list list"
  cv_y :: int

definition empty_canvas :: canvas where
  "empty_canvas = \<lparr>cv_pages = [[]], cv_y = PAGE_HEIGHT - 72\<rparr>"

definition draw_text :: "string \<Rightarrow> int \<Rightarrow> int \<Rightarrow> canvas \<Rightarrow> canvas" where
  "draw_text v pt x cv = cv\<lparr>cv_pages := butlast (cv_pages cv) @ [last (cv_pages cv) @
     [''BT /F1 '' @ show_int pt @ '' Tf '' @ show_int x @ '' '' @ show_int (cv_y cv) @ '' Td ('' @
      escapePdfText v @ '') Tj ET'']]\<rparr>"

text \<open>\<open>Math.round(AMOUNT_RIGHT - length * pt * 0.5)\<close>.\<close>

definition right_x :: "string \<Rightarrow> int \<Rightarrow> int" where
  "right_x v pt = (2 * AMOUNT_RIGHT - int (length v) * pt + 1) div 2"

definition draw_right :: "string \<Rightarrow> int \<Rightarrow> canvas \<Rightarrow> canvas" where
  "draw_right v pt cv = draw_text v pt (right_x v pt) cv"

definition advance :: "int \<Rightarrow> canvas \<Rightarrow> canvas" where
  "advance dy cv = (let y = cv_y cv - dy
     in if y < BOTTOM then cv\<lparr>cv_pages := cv_pages cv @ [[]], cv_y := PAGE_HEIGHT - 72\<rparr> else cv\<lparr>cv_y := y\<rparr>)"

definition put :: "string \<Rightarrow> int \<Rightarrow> int \<Rightarrow> canvas \<Rightarrow> canvas" where
  "put v pt dy cv = advance dy (draw_text v pt LEFT cv)"

definition put_row :: "string \<Rightarrow> string \<Rightarrow> int \<Rightarrow> canvas \<Rightarrow> canvas" where
  "put_row label amount pt cv = advance (pt + 6) (draw_right amount pt (draw_text label pt LEFT cv))"

definition put_if :: "string option \<Rightarrow> string \<Rightarrow> canvas \<Rightarrow> canvas" where
  "put_if v label cv = (if truthy v then put (label @ the v) 10 14 cv else cv)"

record invoice_input =
  iv_number :: string
  iv_issuedAt :: string
  iv_periodFrom :: string
  iv_periodTo :: string
  iv_sellerName :: string
  iv_seller :: tax_party
  iv_customerName :: string
  iv_customerEmail :: "string option"
  iv_customer :: tax_party
  iv_lines :: "(string \<times> int) list"
  iv_tax :: tax_result
  iv_notices :: "string list"
  iv_unit :: string

definition header_part :: "invoice_input \<Rightarrow> canvas \<Rightarrow> canvas" where
  "header_part i cv =
     (let cv = put (iv_sellerName i @ '' Invoice'') 18 26 cv;
          cv = put (''Invoice #: '' @ iv_number i) 11 15 cv;
          cv = put (''Issued: '' @ iv_issuedAt i) 11 15 cv;
          cv = put (''Period: '' @ iv_periodFrom i @ '' to '' @ iv_periodTo i) 11 24 cv;
          cv = put ''From'' 11 15 cv;
          cv = put (iv_sellerName i) 10 14 cv;
          cv = put_if (tx_country (iv_seller i)) ''Country: '' cv;
          cv = put_if (tx_taxId (iv_seller i)) ''VAT ID: '' cv
      in advance 8 cv)"

definition customer_part :: "invoice_input \<Rightarrow> canvas \<Rightarrow> canvas" where
  "customer_part i cv =
     (let cv = put ''Bill to'' 11 15 cv;
          cv = put (iv_customerName i) 10 14 cv;
          cv = put (''Contact: '' @ (case iv_customerEmail i of None \<Rightarrow> ''N/A'' | Some m \<Rightarrow> m)) 10 14 cv;
          cv = put_if (tx_country (iv_customer i)) ''Country: '' cv;
          cv = put_if (tx_taxId (iv_customer i)) ''VAT ID: '' cv
      in advance 10 cv)"

definition lines_part :: "invoice_input \<Rightarrow> canvas \<Rightarrow> canvas" where
  "lines_part i cv =
     (let cv = put_row ''Description'' (''Amount ('' @ iv_unit i @ '')'') 11 cv;
          cv = (if iv_lines i = [] then put_row ''No billable engagements in this period'' ''0'' 10 cv else cv);
          cv = fold (\<lambda>(d, a). put_row d (show_int a) 10) (iv_lines i) cv
      in advance 6 cv)"

definition totals_part :: "invoice_input \<Rightarrow> canvas \<Rightarrow> canvas" where
  "totals_part i cv =
     (let tax = iv_tax i;
          cv = put_row ''Subtotal (net)'' (show_int (it_subtotal tax)) 11 cv;
          cv = fold (\<lambda>l. put_row (tl_label l @ '' on '' @ show_int (tl_base l)) (show_int (tl_amount l)) 11)
                 (it_taxLines tax) cv;
          cv = (if it_taxLines tax = [] then put_row ''VAT'' ''not applicable'' 11 cv else cv);
          cv = put_row (''Total due ('' @ formatRate (it_rateBps tax) @ '' VAT)'') (show_int (it_total tax)) 12 cv;
          cv = advance 10 cv
      in fold (\<lambda>n. put n 8 12) (iv_notices i) cv)"

definition buildInvoiceContent :: "invoice_input \<Rightarrow> string list list" where
  "buildInvoiceContent i = cv_pages (totals_part i (lines_part i (customer_part i (header_part i empty_canvas))))"

text \<open>The pen never leaves the page, and there is always a page to draw on.\<close>

definition on_page :: "canvas \<Rightarrow> bool" where
  "on_page cv \<longleftrightarrow> BOTTOM \<le> cv_y cv \<and> cv_y cv \<le> PAGE_HEIGHT - 72 \<and> cv_pages cv \<noteq> []"

lemma on_page_empty [simp]: "on_page empty_canvas"
  by (simp add: on_page_def empty_canvas_def BOTTOM_def PAGE_HEIGHT_def)

lemma on_page_draw [simp]: "on_page cv \<Longrightarrow> on_page (draw_text v pt x cv)" "on_page cv \<Longrightarrow> on_page (draw_right v pt cv)"
  by (simp_all add: on_page_def draw_text_def draw_right_def)

lemma on_page_advance [simp]: "on_page cv \<Longrightarrow> 0 \<le> dy \<Longrightarrow> on_page (advance dy cv)"
  by (auto simp: on_page_def advance_def Let_def BOTTOM_def PAGE_HEIGHT_def)

lemma on_page_put [simp]:
  "on_page cv \<Longrightarrow> 0 \<le> dy \<Longrightarrow> on_page (put v pt dy cv)"
  "on_page cv \<Longrightarrow> 0 \<le> pt \<Longrightarrow> on_page (put_row l a pt cv)"
  "on_page cv \<Longrightarrow> on_page (put_if o' l cv)"
  by (simp_all add: put_def put_row_def put_if_def)

lemma on_page_fold: "on_page cv \<Longrightarrow> (\<And>x c. on_page c \<Longrightarrow> on_page (f x c)) \<Longrightarrow> on_page (fold f xs cv)"
  by (induction xs arbitrary: cv) auto

lemma on_page_parts:
  "on_page cv \<Longrightarrow> on_page (header_part i cv)"
  "on_page cv \<Longrightarrow> on_page (customer_part i cv)"
  "on_page cv \<Longrightarrow> on_page (lines_part i cv)"
  "on_page cv \<Longrightarrow> on_page (totals_part i cv)"
  by (simp_all add: header_part_def customer_part_def lines_part_def totals_part_def Let_def on_page_fold split_def)

lemma on_page_invoice: "on_page (totals_part i (lines_part i (customer_part i (header_part i empty_canvas))))"
  by (simp add: on_page_parts)

section \<open>Serialisation\<close>

text \<open>Object 1 is the catalog, 2 the page tree, 3 the font; then a page and its content in turn.\<close>

definition page_id :: "nat \<Rightarrow> nat" where
  "page_id i = 4 + i * 2"

definition page_objects :: "nat \<Rightarrow> string list \<Rightarrow> string list" where
  "page_objects i commands =
     (let stream = join_with [newline] commands
      in [''<< /Type /Page /Parent 2 0 R /MediaBox [0 0 '' @ show_int PAGE_WIDTH @ '' '' @ show_int PAGE_HEIGHT @ ''] '' @
            ''/Contents '' @ show_nat (page_id i + 1) @ '' 0 R /Resources << /Font << /F1 3 0 R >> >> >>'',
          ''<< /Length '' @ show_nat (length stream) @ '' >>'' @ [newline] @ ''stream'' @ [newline] @ stream @
            [newline] @ ''endstream''])"

definition pdf_objects :: "string list list \<Rightarrow> string list" where
  "pdf_objects pages =
     [''<< /Type /Catalog /Pages 2 0 R >>'',
      ''<< /Type /Pages /Kids ['' @ join_with '' '' (map (\<lambda>i. show_nat (page_id i) @ '' 0 R'') [0..<length pages]) @
        ''] /Count '' @ show_nat (length pages) @ '' >>'',
      ''<< /Type /Font /Subtype /Type1 /BaseFont /Helvetica /Encoding /WinAnsiEncoding >>'']
     @ concat (map (\<lambda>(i, p). page_objects i p) (enumerate 0 pages))"

definition object_header :: "nat \<Rightarrow> string" where
  "object_header i = show_nat i @ '' 0 obj'' @ [newline]"

text \<open>The loop that appends the objects and notes where each begins.\<close>

fun emit :: "nat \<Rightarrow> string \<Rightarrow> string list \<Rightarrow> string \<times> nat list" where
  "emit i pdf [] = (pdf, [])"
| "emit i pdf (ob # obs) =
     (let (out, offs) = emit (Suc i) (pdf @ object_header i @ ob @ [newline] @ ''endobj'' @ [newline]) obs
      in (out, length pdf # offs))"

definition pdf_body :: "string list list \<Rightarrow> string \<times> nat list" where
  "pdf_body pages = emit 1 (''%PDF-1.4'' @ [newline]) (pdf_objects pages)"

definition xref_entry :: "nat \<Rightarrow> string" where
  "xref_entry off = padStart 10 (CHR ''0'') (show_nat off) @ '' 00000 n '' @ [newline]"

definition renderPdf :: "string list list \<Rightarrow> string" where
  "renderPdf pages =
     (let (body, offs) = pdf_body pages; n = show_nat (length (pdf_objects pages) + 1)
      in body @ ''xref'' @ [newline] @ ''0 '' @ n @ [newline] @ ''0000000000 65535 f '' @ [newline] @
         concat (map xref_entry offs) @ ''trailer'' @ [newline] @ ''<< /Size '' @ n @ '' /Root 1 0 R >>'' @ [newline] @
         ''startxref'' @ [newline] @ show_nat (length body) @ [newline] @ ''%%EOF'' @ [newline])"

definition renderInvoicePdf :: "invoice_input \<Rightarrow> string" where
  "renderInvoicePdf i = renderPdf (buildInvoiceContent i)"

text \<open>Everything emitted stays where it is, and each offset is the place of its object's header.\<close>

lemma emit_extends: "\<exists>r. fst (emit i pdf obs) = pdf @ r"
  by (induction i pdf obs rule: emit.induct) (auto simp: Let_def split: prod.splits)


lemma emit_offset_bound: "off \<in> set (snd (emit i pdf obs)) \<Longrightarrow>
    \<exists>j. off + length (object_header j) \<le> length (fst (emit i pdf obs))"
proof (induction i pdf obs rule: emit.induct)
  case (2 i pdf ob obs)
  let ?pdf = "pdf @ object_header i @ ob @ [newline] @ ''endobj'' @ [newline]"
  obtain r where r: "fst (emit (Suc i) ?pdf obs) = ?pdf @ r" using emit_extends by blast
  show ?case using 2 r by (auto simp: Let_def split: prod.splits intro: exI [of _ i])
qed simp




end
