(* ===== verification/Multisig.thy ===== *)
theory Multisig
  imports Prelude
begin

text \<open>
  \<^verbatim>\<open>modules/multisig/multisig.service.ts\<close>: the signer set guarding an escrow account, pending
  transactions, the signatures collected for them, and the submission once the threshold is met.

  \<open>extractSigs\<close> is \<open>extractSignatures\<close> of the Stellar service and \<open>submitTx\<close> the answer of the n-th
  \<open>submitMultisigTransaction\<close>; the class has neither method, so both are parameters.  \<open>submissions\<close> logs each
  call with the transaction, the signers whose signatures it carries and the threshold required.
\<close>

datatype multisig_status = TX_PENDING | TX_SUBMITTED | TX_FAILED

record signer_set =
  g_id :: ident
  g_companyId :: ident
  g_escrowAccountId :: string
  g_threshold :: nat

record signer =
  k_id :: ident
  k_setId :: ident
  k_publicKey :: string
  k_userId :: "ident option"

record pending_tx =
  x_id :: ident
  x_setId :: ident
  x_unsignedXdr :: string
  x_status :: multisig_status
  x_hash :: "string option"
  x_error :: "string option"

record signature =
  y_txId :: ident
  y_signerId :: ident
  y_signedXdr :: string

record multisig_db =
  t_sets :: "signer_set list"
  t_signers :: "signer list"
  t_pending :: "pending_tx list"
  t_signatures :: "signature list"
  submissions :: "(ident \<times> ident list \<times> nat) list"
  ms_seq :: nat



section \<open>Signer sets\<close>


text \<open>\<open>deleteMany\<close> of the signers of a set; their signatures go with them (the cascade of the schema).\<close>

definition drop_signers :: "ident \<Rightarrow> multisig_db \<Rightarrow> multisig_db" where
  "drop_signers gid s =
     (let gone = map k_id (filter (\<lambda>k. k_setId k = gid) (t_signers s))
      in s\<lparr>t_signers := delete_where (\<lambda>k. k_setId k = gid) (t_signers s),
           t_signatures := delete_where (\<lambda>y. List.member gone (y_signerId y)) (t_signatures s)\<rparr>)"


section \<open>Pending transactions\<close>


record signature_status =
  ss_status :: multisig_status
  ss_threshold :: "nat option"
  ss_signedCount :: nat
  ss_signerIds :: "ident list"
  ss_hash :: "string option"

definition signatures_of :: "ident \<Rightarrow> multisig_db \<Rightarrow> signature list" where
  "signatures_of tid s = filter (\<lambda>y. y_txId y = tid) (t_signatures s)"

definition toStatus :: "pending_tx \<Rightarrow> signature list \<Rightarrow> nat option \<Rightarrow> nat \<Rightarrow> signature_status" where
  "toStatus x sigs threshold n =
     \<lparr>ss_status = x_status x, ss_threshold = threshold, ss_signedCount = n, ss_signerIds = map y_signerId sigs,
      ss_hash = x_hash x\<rparr>"

definition find_tx :: "ident \<Rightarrow> multisig_db \<Rightarrow> pending_tx option" where
  "find_tx tid s = List.find (\<lambda>x. x_id x = tid) (t_pending s)"

definition find_set :: "ident \<Rightarrow> multisig_db \<Rightarrow> signer_set option" where
  "find_set gid s = List.find (\<lambda>g. g_id g = gid) (t_sets s)"


definition upsert_signature :: "ident \<Rightarrow> ident \<Rightarrow> string \<Rightarrow> multisig_db \<Rightarrow> multisig_db" where
  "upsert_signature tid kid xdr s =
     (if \<exists>y \<in> set (t_signatures s). y_txId y = tid \<and> y_signerId y = kid
      then s\<lparr>t_signatures := update_where (\<lambda>y. y_txId y = tid \<and> y_signerId y = kid)
             (\<lambda>y. y\<lparr>y_signedXdr := xdr\<rparr>) (t_signatures s)\<rparr>
      else s\<lparr>t_signatures := t_signatures s @ [\<lparr>y_txId = tid, y_signerId = kid, y_signedXdr = xdr\<rparr>]\<rparr>)"


definition getSignatureStatus :: "ident \<Rightarrow> multisig_db \<Rightarrow> exn + signature_status" where
  "getSignatureStatus tid s = (case find_tx tid s of
     None \<Rightarrow> Inl NotFoundException
   | Some x \<Rightarrow> (let sigs = signatures_of tid s
       in Inr (toStatus x sigs (map_option g_threshold (find_set (x_setId x) s)) (length sigs))))"

section \<open>The invariant\<close>

text \<open>
  No signer counts twice for a transaction, and every signature is by a current signer of the set
  that guards its transaction.
\<close>

definition authorized :: "multisig_db \<Rightarrow> ident \<Rightarrow> ident \<Rightarrow> bool" where
  "authorized s gid kid \<longleftrightarrow> (\<exists>k \<in> set (t_signers s). k_setId k = gid \<and> k_id k = kid)"

definition signatures_ok :: "multisig_db \<Rightarrow> bool" where
  "signatures_ok s \<longleftrightarrow> distinct (map x_id (t_pending s)) \<and>
     distinct (map (\<lambda>y. (y_txId y, y_signerId y)) (t_signatures s)) \<and>
     (\<forall>y \<in> set (t_signatures s). \<exists>x \<in> set (t_pending s). x_id x = y_txId y \<and> authorized s (x_setId x) (y_signerId y))"





lemma drop_signers_frame [simp]: "submissions (drop_signers gid s) = submissions s"
  by (simp add: drop_signers_def Let_def)


lemma signatures_ok_sets [simp]: "signatures_ok (s\<lparr>t_sets := gs\<rparr>) = signatures_ok s"
    "signatures_ok (s\<lparr>t_sets := gs, ms_seq := n\<rparr>) = signatures_ok s"
  by (simp_all add: signatures_ok_def authorized_def)








lemma upsert_submissions [simp]: "submissions (upsert_signature tid kid xdr s) = submissions s"
  by (simp add: upsert_signature_def)











end
