(* ===== verification/Sessions.thy ===== *)
theory Sessions
  imports Prelude
begin

text \<open>
  Refresh tokens: \<^verbatim>\<open>modules/auth/session.service.ts\<close> and the copy of it in
  \<^verbatim>\<open>modules/auth/auth.service.ts\<close>, which write the same table.  A login opens a family with one token;
  a refresh consumes the presented token and adds its successor to the family; presenting a consumed
  token revokes the family.

  The signature of a token, its hash, and the identifiers the database and \<open>randomBytes\<close> deliver are
  parameters.  A signed token is a function of the user, the family and the second it is signed in.
  \<open>race\<close> is what other requests do between the lookup of a token and the write that follows.
\<close>

record refresh_token =
  r_id :: ident
  r_userId :: ident
  r_tokenHash :: string
  r_familyId :: string
  r_expiresAt :: time
  r_consumedAt :: "time option"
  r_revokedAt :: "time option"
  r_lastUsedAt :: "time option"
  r_createdAt :: time

datatype security_action = LOGIN_SUCCESS | LOGIN_FAILURE | LOGOUT | IMPERSONATION_ISSUED

record session_db =
  t_tokens :: "refresh_token list"
  securityLog :: "(ident option \<times> security_action) list"
  families :: nat
  ss_seq :: nat

record session_env =
  rowId :: "nat \<Rightarrow> ident"
  familyOf :: "nat \<Rightarrow> string"
  signRefreshToken :: "ident \<Rightarrow> string \<Rightarrow> int \<Rightarrow> string"
  hashRefreshToken :: "string \<Rightarrow> string"
  refreshDays :: int
  idleDays :: int

definition refreshExpiryDate :: "session_env \<Rightarrow> time \<Rightarrow> time" where
  "refreshExpiryDate w now = now + refreshDays w * day_ms"

definition isSessionIdle :: "session_env \<Rightarrow> refresh_token \<Rightarrow> time \<Rightarrow> bool" where
  "isSessionIdle w r now =
     ((case r_lastUsedAt r of None \<Rightarrow> r_createdAt r | Some t \<Rightarrow> t) < now - idleDays w * day_ms)"

text \<open>The insert, with the unique index on the hash.\<close>

definition insert_token :: "refresh_token \<Rightarrow> session_db \<Rightarrow> (session_db, unit) outcome" where
  "insert_token r s =
     (if \<exists>x \<in> set (t_tokens s). r_tokenHash x = r_tokenHash r then throw UniqueViolation s
      else return () (s\<lparr>t_tokens := t_tokens s @ [r], ss_seq := ss_seq s + 1\<rparr>))"

definition new_token :: "session_env \<Rightarrow> time \<Rightarrow> ident \<Rightarrow> string \<Rightarrow> string \<Rightarrow> time option \<Rightarrow> session_db \<Rightarrow> refresh_token" where
  "new_token w now uid fam token used s =
     \<lparr>r_id = rowId w (ss_seq s), r_userId = uid, r_tokenHash = hashRefreshToken w token, r_familyId = fam,
      r_expiresAt = refreshExpiryDate w now, r_consumedAt = None, r_revokedAt = None,
      r_lastUsedAt = used, r_createdAt = now\<rparr>"

definition issueTokenPair :: "session_env \<Rightarrow> time \<Rightarrow> ident \<Rightarrow> session_db \<Rightarrow> (session_db, string) outcome" where
  "issueTokenPair w now uid s =
     (let fam = familyOf w (families s);
          s1 = s\<lparr>families := families s + 1\<rparr>;
          token = signRefreshToken w uid fam (now div second_ms)
      in and_then (insert_token (new_token w now uid fam token None s1) s1) (\<lambda>_ s2. return token s2))"

definition find_token :: "session_env \<Rightarrow> string \<Rightarrow> session_db \<Rightarrow> refresh_token option" where
  "find_token w token s = List.find (\<lambda>r. r_tokenHash r = hashRefreshToken w token) (t_tokens s)"

definition revokeFamily :: "time \<Rightarrow> string \<Rightarrow> session_db \<Rightarrow> session_db" where
  "revokeFamily now fam s = s\<lparr>t_tokens :=
     update_where (\<lambda>r. r_familyId r = fam \<and> r_revokedAt r = None) (\<lambda>r. r\<lparr>r_revokedAt := Some now\<rparr>) (t_tokens s)\<rparr>"

definition live :: "refresh_token \<Rightarrow> bool" where
  "live r \<longleftrightarrow> r_consumedAt r = None \<and> r_revokedAt r = None"

text \<open>
  The body of the transaction.  \<open>touch\<close> is \<open>Some now\<close> in the session service, which records the last
  use, and \<open>None\<close> in the authentication service, which does not.
\<close>

definition consume :: "time \<Rightarrow> time option \<Rightarrow> refresh_token \<Rightarrow> refresh_token" where
  "consume now touch x =
     x\<lparr>r_consumedAt := Some now, r_lastUsedAt := (if touch = None then r_lastUsedAt x else touch)\<rparr>"

definition rotate :: "session_env \<Rightarrow> time \<Rightarrow> time option \<Rightarrow> refresh_token \<Rightarrow> string \<Rightarrow> session_db \<Rightarrow> (session_db, unit) outcome" where
  "rotate w now touch r token s =
     (if count_where (\<lambda>x. r_id x = r_id r \<and> live x) (t_tokens s) \<noteq> 1
      then throw UnauthorizedException (revokeFamily now (r_familyId r) s)
      else (let s1 = s\<lparr>t_tokens := update_where (\<lambda>x. r_id x = r_id r \<and> live x)
                   (consume now touch) (t_tokens s)\<rparr>
            in insert_token (new_token w now (r_userId r) (r_familyId r) token touch s1) s1))"

definition session_refresh :: "session_env \<Rightarrow> time \<Rightarrow> (session_db \<Rightarrow> session_db) \<Rightarrow> string \<Rightarrow> session_db \<Rightarrow>
  (session_db, string) outcome" where
  "session_refresh w now race token s = (case find_token w token s of
     None \<Rightarrow> throw UnauthorizedException s
   | Some r \<Rightarrow>
       if r_consumedAt r \<noteq> None then throw UnauthorizedException (revokeFamily now (r_familyId r) (race s))
       else if r_revokedAt r \<noteq> None \<or> r_expiresAt r \<le> now then throw UnauthorizedException s
       else if isSessionIdle w r now then throw UnauthorizedException s
       else (let new = signRefreshToken w (r_userId r) (r_familyId r) (now div second_ms)
             in and_then (transaction (rotate w now (Some now) r new) (race s)) (\<lambda>_ s1. return new s1)))"

definition auth_refresh :: "session_env \<Rightarrow> time \<Rightarrow> (session_db \<Rightarrow> session_db) \<Rightarrow> string \<Rightarrow> session_db \<Rightarrow>
  (session_db, string) outcome" where
  "auth_refresh w now race token s = (case find_token w token s of
     None \<Rightarrow> throw UnauthorizedException s
   | Some r \<Rightarrow>
       if r_consumedAt r \<noteq> None then throw UnauthorizedException (revokeFamily now (r_familyId r) (race s))
       else if r_revokedAt r \<noteq> None \<or> r_expiresAt r \<le> now then throw UnauthorizedException s
       else (let new = signRefreshToken w (r_userId r) (r_familyId r) (now div second_ms)
             in and_then (transaction (rotate w now None r new) (race s)) (\<lambda>_ s1. return new s1)))"

definition revoke_token :: "time \<Rightarrow> ident \<Rightarrow> session_db \<Rightarrow> session_db" where
  "revoke_token now rid s =
     s\<lparr>t_tokens := update_where (\<lambda>r. r_id r = rid) (\<lambda>r. r\<lparr>r_revokedAt := Some now\<rparr>) (t_tokens s)\<rparr>"

definition log_security :: "ident option \<Rightarrow> security_action \<Rightarrow> session_db \<Rightarrow> session_db" where
  "log_security uid a s = s\<lparr>securityLog := securityLog s @ [(uid, a)]\<rparr>"

definition logout :: "session_env \<Rightarrow> time \<Rightarrow> string \<Rightarrow> session_db \<Rightarrow> session_db" where
  "logout w now token s = (case find_token w token s of
     None \<Rightarrow> log_security None LOGOUT s
   | Some r \<Rightarrow> log_security (Some (r_userId r)) LOGOUT
       (if r_revokedAt r = None then revoke_token now (r_id r) s else s))"

definition getSessions :: "time \<Rightarrow> ident \<Rightarrow> session_db \<Rightarrow> (refresh_token \<times> bool) list" where
  "getSessions now uid s = map (\<lambda>r. (r, r_consumedAt r = None))
     (rev (sort_key r_createdAt (filter (\<lambda>r. r_userId r = uid \<and> r_revokedAt r = None \<and> now < r_expiresAt r) (t_tokens s))))"

definition revokeSession :: "session_env \<Rightarrow> time \<Rightarrow> ident \<Rightarrow> ident \<Rightarrow> string option \<Rightarrow> session_db \<Rightarrow> (session_db, bool) outcome" where
  "revokeSession w now sid uid current s = (case List.find (\<lambda>r. r_id r = sid) (t_tokens s) of
     None \<Rightarrow> throw BadRequestException s
   | Some r \<Rightarrow>
       if r_userId r \<noteq> uid then throw ForbiddenException s
       else if r_revokedAt r \<noteq> None then throw BadRequestException s
       else return (case current of None \<Rightarrow> False
                    | Some t \<Rightarrow> t \<noteq> [] \<and> r_tokenHash r = hashRefreshToken w t) (revoke_token now sid s))"

section \<open>The invariant\<close>

text \<open>
  Identifiers are unique and known, and no two live tokens share a family.  \<open>dead fam s\<close> says that a
  family exists and no token of it is live; \<open>follows\<close> relates a state to the later ones: tokens stay,
  and dead families stay dead.
\<close>

definition session_ok :: "session_env \<Rightarrow> session_db \<Rightarrow> bool" where
  "session_ok w s \<longleftrightarrow> distinct (map r_id (t_tokens s)) \<and>
     (\<forall>r \<in> set (t_tokens s). (\<exists>n < ss_seq s. r_id r = rowId w n) \<and> (\<exists>n < families s. r_familyId r = familyOf w n)) \<and>
     (\<forall>r \<in> set (t_tokens s). \<forall>x \<in> set (t_tokens s). live r \<and> live x \<and> r_familyId r = r_familyId x \<longrightarrow> r_id r = r_id x)"

definition dead :: "string \<Rightarrow> session_db \<Rightarrow> bool" where
  "dead fam s \<longleftrightarrow> (\<exists>r \<in> set (t_tokens s). r_familyId r = fam) \<and> (\<forall>r \<in> set (t_tokens s). r_familyId r = fam \<longrightarrow> \<not> live r)"

definition follows :: "session_db \<Rightarrow> session_db \<Rightarrow> bool" where
  "follows s s' \<longleftrightarrow> (\<forall>r \<in> set (t_tokens s). \<exists>x \<in> set (t_tokens s'). r_id x = r_id r \<and> r_familyId x = r_familyId r) \<and>
     (\<forall>fam. dead fam s \<longrightarrow> dead fam s')"

definition fresh_names :: "session_env \<Rightarrow> bool" where
  "fresh_names w \<longleftrightarrow> inj (rowId w) \<and> inj (familyOf w)"

lemma follows_refl [simp]: "follows s s"
  by (auto simp: follows_def)

lemma follows_trans: "follows a b \<Longrightarrow> follows b c \<Longrightarrow> follows a c"
  unfolding follows_def by metis

lemma session_okI:
  assumes "distinct (map r_id (t_tokens s))"
    and "\<And>r. r \<in> set (t_tokens s) \<Longrightarrow> \<exists>n < ss_seq s. r_id r = rowId w n"
    and "\<And>r. r \<in> set (t_tokens s) \<Longrightarrow> \<exists>n < families s. r_familyId r = familyOf w n"
    and "\<And>r x. r \<in> set (t_tokens s) \<Longrightarrow> x \<in> set (t_tokens s) \<Longrightarrow> live r \<Longrightarrow> live x \<Longrightarrow>
      r_familyId r = r_familyId x \<Longrightarrow> r_id r = r_id x"
  shows "session_ok w s"
  using assms unfolding session_ok_def by blast

lemma session_okD:
  assumes "session_ok w s"
  shows "distinct (map r_id (t_tokens s))"
    and "r \<in> set (t_tokens s) \<Longrightarrow> \<exists>n < ss_seq s. r_id r = rowId w n"
    and "r \<in> set (t_tokens s) \<Longrightarrow> \<exists>n < families s. r_familyId r = familyOf w n"
    and "r \<in> set (t_tokens s) \<Longrightarrow> x \<in> set (t_tokens s) \<Longrightarrow> live r \<Longrightarrow> live x \<Longrightarrow>
      r_familyId r = r_familyId x \<Longrightarrow> r_id r = r_id x"
  using assms unfolding session_ok_def by blast+

lemma shrink_ok:
  assumes "session_ok w s"
    and "t_tokens s' = map g (t_tokens s)" and "families s' = families s" and "ss_seq s' = ss_seq s"
    and "\<And>r. r_id (g r) = r_id r" "\<And>r. r_familyId (g r) = r_familyId r" "\<And>r. live (g r) \<Longrightarrow> live r"
  shows "session_ok w s' \<and> follows s s'"
proof
  note ok = session_okD [OF assms(1)]
  have "map r_id (map g (t_tokens s)) = map r_id (t_tokens s)" using assms(5) by simp
  then have d: "distinct (map r_id (t_tokens s'))" using ok(1) assms(2) by (simp del: map_map)
  have pre: "\<exists>r \<in> set (t_tokens s). x = g r" if "x \<in> set (t_tokens s')" for x using that assms(2) by auto
  show "session_ok w s'"
  proof (rule session_okI [OF d])
    fix r x assume "r \<in> set (t_tokens s')" "x \<in> set (t_tokens s')" "live r" "live x" "r_familyId r = r_familyId x"
    moreover from calculation(1,2) obtain r0 x0 where "r0 \<in> set (t_tokens s)" "r = g r0" "x0 \<in> set (t_tokens s)" "x = g x0"
      using pre by meson
    ultimately show "r_id r = r_id x" using ok(4) [of r0 x0] assms(5,6) assms(7) [of r0] assms(7) [of x0] by simp
  qed (use pre ok(2,3) assms(3-6) in fastforce)+
  have "dead f s'" if "dead f s" for f
    using that assms(6,7) unfolding dead_def assms(2) by fastforce
  moreover have "\<exists>x \<in> set (t_tokens s'). r_id x = r_id r \<and> r_familyId x = r_familyId r" if "r \<in> set (t_tokens s)" for r
    using that assms(5,6) unfolding assms(2) by (intro bexI [of _ "g r"]) auto
  ultimately show "follows s s'" by (simp add: follows_def)
qed

lemma live_simps [simp]:
  "\<not> live (r\<lparr>r_revokedAt := Some t\<rparr>)" "\<not> live (r\<lparr>r_consumedAt := Some t, r_lastUsedAt := u\<rparr>)"
  by (simp_all add: live_def)

lemma revokeFamily_ok: "session_ok w s \<Longrightarrow> session_ok w (revokeFamily now fam s) \<and> follows s (revokeFamily now fam s)"
  by (rule shrink_ok [where g = "\<lambda>r. if r_familyId r = fam \<and> r_revokedAt r = None then r\<lparr>r_revokedAt := Some now\<rparr> else r"])
    (auto simp: revokeFamily_def update_where_def split: if_splits)

lemma revoke_token_ok: "session_ok w s \<Longrightarrow> session_ok w (revoke_token now rid s) \<and> follows s (revoke_token now rid s)"
  by (rule shrink_ok [where g = "\<lambda>r. if r_id r = rid then r\<lparr>r_revokedAt := Some now\<rparr> else r"])
    (auto simp: revoke_token_def update_where_def split: if_splits)

lemma log_security_ok [simp]:
  "session_ok w (log_security u a s) = session_ok w s" "follows s (log_security u a s')= follows s s'"
  by (simp_all add: log_security_def session_ok_def follows_def dead_def)

lemma append_ok:
  assumes "session_ok w s" and "fresh_names w" and "r_id r = rowId w (ss_seq s)" and "n < families s" "r_familyId r = familyOf w n"
    and "\<And>x. x \<in> set (t_tokens s) \<Longrightarrow> r_familyId x = r_familyId r \<Longrightarrow> \<not> live x"
  shows "session_ok w (s\<lparr>t_tokens := t_tokens s @ [r], ss_seq := ss_seq s + 1\<rparr>)"
proof -
  have "r_id x \<noteq> r_id r" if "x \<in> set (t_tokens s)" for x
  proof
    assume "r_id x = r_id r"
    with that assms(1,3) obtain k where "k < ss_seq s" "rowId w k = rowId w (ss_seq s)"
      by (auto simp: session_ok_def)
    with assms(2) show False by (auto simp: fresh_names_def dest: injD)
  qed
  then have new: "r_id r \<notin> r_id ` set (t_tokens s)" by force
  note ok = session_okD [OF assms(1)]
  show ?thesis
  proof (rule session_okI)
    fix x y
    assume "x \<in> set (t_tokens (s\<lparr>t_tokens := t_tokens s @ [r], ss_seq := ss_seq s + 1\<rparr>))"
      "y \<in> set (t_tokens (s\<lparr>t_tokens := t_tokens s @ [r], ss_seq := ss_seq s + 1\<rparr>))"
      "live x" "live y" "r_familyId x = r_familyId y"
    then show "r_id x = r_id y" using ok(4) [of x y] assms(6) [of x] assms(6) [of y] by auto
  next
    fix x assume "x \<in> set (t_tokens (s\<lparr>t_tokens := t_tokens s @ [r], ss_seq := ss_seq s + 1\<rparr>))"
    then show "\<exists>n < ss_seq (s\<lparr>t_tokens := t_tokens s @ [r], ss_seq := ss_seq s + 1\<rparr>). r_id x = rowId w n"
      using ok(2) [of x] assms(3) by (auto intro: less_SucI)
  qed (use new ok(1,3) assms(4,5) in auto)
qed

lemma follows_append:
  assumes "follows s s1" and "\<not> dead (r_familyId r) s"
  shows "follows s (s1\<lparr>t_tokens := t_tokens s1 @ [r], ss_seq := m\<rparr>)"
  using assms by (auto simp: follows_def dead_def)

section \<open>The operations keep it\<close>

lemma insert_token_cases:
  "insert_token r s = throw UniqueViolation s \<or>
   insert_token r s = return () (s\<lparr>t_tokens := t_tokens s @ [r], ss_seq := ss_seq s + 1\<rparr>)"
  by (simp add: insert_token_def)

lemma issue_ok:
  assumes "session_ok w s" and "fresh_names w"
  shows "session_ok w (snd (issueTokenPair w now uid s)) \<and> follows s (snd (issueTokenPair w now uid s))"
proof -
  let ?s = "s\<lparr>families := families s + 1\<rparr>" and ?fam = "familyOf w (families s)"
  let ?r = "new_token w now uid ?fam (signRefreshToken w uid ?fam (now div second_ms)) None ?s"
  note ok = session_okD [OF assms(1)]
  have ok1: "session_ok w ?s"
  proof (rule session_okI)
    fix r assume "r \<in> set (t_tokens ?s)"
    then show "\<exists>n < families ?s. r_familyId r = familyOf w n" using ok(3) [of r] by (auto intro: less_SucI)
  next
    fix r x assume "r \<in> set (t_tokens ?s)" "x \<in> set (t_tokens ?s)" "live r" "live x" "r_familyId r = r_familyId x"
    then show "r_id r = r_id x" using ok(4) [of r x] by simp
  qed (use ok(1,2) in auto)
  have f1: "follows s ?s" by (auto simp: follows_def dead_def)
  have new: "r_familyId x \<noteq> ?fam" if "x \<in> set (t_tokens s)" for x
    using ok(3) [OF that] assms(2) by (auto simp: fresh_names_def dest: injD)
  have r: "r_id ?r = rowId w (ss_seq ?s)" "r_familyId ?r = ?fam" by (simp_all add: new_token_def)
  have "session_ok w (?s\<lparr>t_tokens := t_tokens ?s @ [?r], ss_seq := ss_seq ?s + 1\<rparr>)"
    by (rule append_ok [where n = "families s", OF ok1 assms(2) r(1) _ r(2)]) (use new r(2) in auto)
  moreover have "follows s (?s\<lparr>t_tokens := t_tokens ?s @ [?r], ss_seq := ss_seq ?s + 1\<rparr>)"
    by (rule follows_append [OF f1]) (use new r(2) in \<open>auto simp: dead_def\<close>)
  ultimately show ?thesis using insert_token_cases [of ?r ?s] ok1 f1
    by (auto simp: issueTokenPair_def Let_def)
qed

lemma count_live_1:
  assumes "count_where (\<lambda>x. r_id x = i \<and> live x) rs = 1"
  obtains x where "x \<in> set rs" "r_id x = i" "live x"
  using assms count_where_pos [of "\<lambda>x. r_id x = i \<and> live x" rs] by auto

lemma rotate_ok:
  assumes "session_ok w s" and "fresh_names w"
    and "r' \<in> set (t_tokens s)" "r_id r' = r_id r" "r_familyId r' = r_familyId r"
  shows "session_ok w (snd (transaction (rotate w now touch r token) s)) \<and>
    follows s (snd (transaction (rotate w now touch r token) s))"
proof (cases "count_where (\<lambda>x. r_id x = r_id r \<and> live x) (t_tokens s) = 1")
  case False
  then show ?thesis using assms(1) by (simp add: transaction_def rotate_def throw_def)
next
  case True
  note ok = session_okD [OF assms(1)]
  define g where "g = consume now touch"
  define s1 where "s1 = s\<lparr>t_tokens := update_where (\<lambda>x. r_id x = r_id r \<and> live x) g (t_tokens s)\<rparr>"
  define n where "n = new_token w now (r_userId r) (r_familyId r) token touch s1"
  have body: "rotate w now touch r token s = insert_token n s1"
    using True by (simp add: rotate_def s1_def n_def g_def Let_def)
  have g: "r_id (g x) = r_id x" "r_familyId (g x) = r_familyId x" "\<not> live (g x)" for x
    by (simp_all add: g_def consume_def live_def)
  have s1: "session_ok w s1 \<and> follows s s1"
    by (rule shrink_ok [where g = "\<lambda>x. if r_id x = r_id r \<and> live x then g x else x", OF assms(1)])
      (auto simp: s1_def update_where_def g split: if_splits)
  obtain x where x: "x \<in> set (t_tokens s)" "r_id x = r_id r" "live x" using True by (rule count_live_1)
  have "x = r'" using inj_onD [of r_id "set (t_tokens s)" x r'] x(1,2) assms(3,4) ok(1) by (simp add: distinct_map)
  then have fam: "r_familyId x = r_familyId r" using assms(5) by simp
  have nolive: "\<not> live y" if "y \<in> set (t_tokens s1)" "r_familyId y = r_familyId n" for y
  proof -
    from that(1) obtain z where z: "z \<in> set (t_tokens s)" "y = (if r_id z = r_id r \<and> live z then g z else z)"
      by (auto simp: s1_def set_update_where)
    with that(2) have "r_familyId z = r_familyId r" by (auto simp: n_def new_token_def g split: if_splits)
    with z x fam ok(4) [of z x] g(3) show ?thesis by (auto split: if_splits)
  qed
  obtain k where k: "k < families s1" "r_familyId n = familyOf w k"
    using ok(3) [OF x(1)] fam by (auto simp: s1_def n_def new_token_def)
  have id: "r_id n = rowId w (ss_seq s1)" by (simp add: n_def new_token_def)
  let ?s2 = "s1\<lparr>t_tokens := t_tokens s1 @ [n], ss_seq := ss_seq s1 + 1\<rparr>"
  have "session_ok w ?s2"
    using s1 by (intro append_ok [OF _ assms(2) id k nolive]) auto
  moreover have "follows s ?s2"
    using s1 x fam by (intro follows_append) (auto simp: dead_def n_def new_token_def)
  ultimately show ?thesis using insert_token_cases [of n s1] assms(1)
    by (auto simp: transaction_def body throw_def return_def)
qed

lemma find_token_in: "find_token w token s = Some r \<Longrightarrow> r \<in> set (t_tokens s) \<and> r_tokenHash r = hashRefreshToken w token"
  by (auto simp: find_token_def dest: find_SomeD)


section \<open>Runs\<close>

text \<open>
  All requests on the table, in any order.  While a refresh is between its lookup and its write, any
  further run may take place (\<open>race\<close>).
\<close>

inductive session_run :: "session_env \<Rightarrow> session_db \<Rightarrow> session_db \<Rightarrow> bool" for w where
  start: "session_run w s s"
| issue: "session_run w s s1 \<Longrightarrow> session_run w s (snd (issueTokenPair w now uid s1))"
| refresh: "session_run w s s1 \<Longrightarrow> (\<And>t. session_run w t (race t)) \<Longrightarrow> session_run w s (snd (session_refresh w now race token s1))"
| refresh_auth: "session_run w s s1 \<Longrightarrow> (\<And>t. session_run w t (race t)) \<Longrightarrow> session_run w s (snd (auth_refresh w now race token s1))"
| log_out: "session_run w s s1 \<Longrightarrow> session_run w s (logout w now token s1)"
| revoke: "session_run w s s1 \<Longrightarrow> session_run w s (snd (revokeSession w now sid uid current s1))"

lemma rotation_ok:
  assumes "session_ok w s" and "fresh_names w" and "find_token w token s = Some r"
    and "session_ok w (race s) \<and> follows s (race s)"
  shows "session_ok w (snd (transaction (rotate w now touch r new) (race s))) \<and>
    follows s (snd (transaction (rotate w now touch r new) (race s)))"
proof -
  from assms(4) find_token_in [OF assms(3)]
  obtain r' where "r' \<in> set (t_tokens (race s))" "r_id r' = r_id r" "r_familyId r' = r_familyId r"
    by (auto simp: follows_def)
  with rotate_ok [of w "race s" r' r now touch new] assms(2,4) show ?thesis by (auto intro: follows_trans)
qed

lemma refresh_ok:
  assumes "session_ok w s" and "fresh_names w" and "session_ok w (race s) \<and> follows s (race s)"
  shows "session_ok w (snd (session_refresh w now race token s)) \<and> follows s (snd (session_refresh w now race token s))"
    and "session_ok w (snd (auth_refresh w now race token s)) \<and> follows s (snd (auth_refresh w now race token s))"
proof -
  have rev: "session_ok w (revokeFamily now fam (race s)) \<and> follows s (revokeFamily now fam (race s))" for fam
    using assms(3) revokeFamily_ok [of w "race s" now fam] by (auto intro: follows_trans)
  have bind: "snd (and_then x (\<lambda>_ s1. return new s1)) = snd x" for x :: "(session_db, unit) outcome" and new :: string
    by (auto simp: and_then_def return_def split: prod.splits sum.splits)
  show "session_ok w (snd (session_refresh w now race token s)) \<and> follows s (snd (session_refresh w now race token s))"
    using assms(1) rev rotation_ok [where race = race, OF assms(1,2) _ assms(3)]
    by (auto simp: session_refresh_def Let_def bind split: option.splits)
  show "session_ok w (snd (auth_refresh w now race token s)) \<and> follows s (snd (auth_refresh w now race token s))"
    using assms(1) rev rotation_ok [where race = race, OF assms(1,2) _ assms(3)]
    by (auto simp: auth_refresh_def Let_def bind split: option.splits)
qed

lemma logout_ok: "session_ok w s \<Longrightarrow> session_ok w (logout w now token s) \<and> follows s (logout w now token s)"
  by (simp add: logout_def revoke_token_ok split: option.split)

lemma revokeSession_ok: "session_ok w s \<Longrightarrow>
  session_ok w (snd (revokeSession w now sid uid current s)) \<and> follows s (snd (revokeSession w now sid uid current s))"
  using revoke_token_ok [of w s now sid] by (auto simp: revokeSession_def split: option.splits)

lemma session_run_ok:
  assumes "session_run w s s'" and "fresh_names w"
  shows "session_ok w s \<longrightarrow> session_ok w s' \<and> follows s s'"
  using assms(1)
proof induction
  case (issue s s1 now uid)
  then show ?case using issue_ok [OF _ assms(2)] follows_trans by blast
next
  case (refresh s s1 race now token)
  then show ?case using refresh_ok(1) [OF _ assms(2)] follows_trans by meson
next
  case (refresh_auth s s1 race now token)
  then show ?case using refresh_ok(2) [OF _ assms(2)] follows_trans by meson
next
  case (log_out s s1 now token)
  then show ?case using logout_ok follows_trans by blast
next
  case (revoke s s1 now sid uid current)
  then show ?case using revokeSession_ok follows_trans by blast
qed simp


definition no_sessions :: session_db where
  "no_sessions = \<lparr>t_tokens = [], securityLog = [], families = 0, ss_seq = 0\<rparr>"

lemma no_sessions_ok: "session_ok w no_sessions"
  by (simp add: session_ok_def no_sessions_def)

lemma reachable_ok: "session_run w no_sessions s \<Longrightarrow> fresh_names w \<Longrightarrow> session_ok w s"
  using session_run_ok no_sessions_ok by blast

lemma not_live_refused:
  assumes "find_token w token s = Some r" and "\<not> live r"
  shows "fst (session_refresh w now race token s) = Inl UnauthorizedException"
    and "fst (auth_refresh w now race token s) = Inl UnauthorizedException"
  using assms by (auto simp: session_refresh_def auth_refresh_def live_def)

lemma consumed_revokes:
  assumes "find_token w token s = Some r" and "r_consumedAt r \<noteq> None"
  shows "session_refresh w now race token s = (Inl UnauthorizedException, revokeFamily now (r_familyId r) (race s))"
    and "auth_refresh w now race token s = (Inl UnauthorizedException, revokeFamily now (r_familyId r) (race s))"
  using assms by (auto simp: session_refresh_def auth_refresh_def throw_def)

lemma revokeFamily_dead:
  assumes "r \<in> set (t_tokens s)" and "r_familyId r = fam"
  shows "dead fam (revokeFamily now fam s)"
proof -
  define g where "g = (\<lambda>x :: refresh_token. if r_familyId x = fam \<and> r_revokedAt x = None then x\<lparr>r_revokedAt := Some now\<rparr> else x)"
  have toks: "set (t_tokens (revokeFamily now fam s)) = g ` set (t_tokens s)"
    by (simp add: revokeFamily_def set_update_where g_def)
  have fam: "r_familyId (g x) = r_familyId x" and lv: "r_familyId x = fam \<Longrightarrow> \<not> live (g x)" for x
    by (simp_all add: g_def live_def)
  show ?thesis unfolding dead_def toks using assms fam lv by auto
qed

text \<open>A successor whose hash is taken: the unique index rejects it and the transaction rolls back.\<close>

lemma rotate_taken:
  assumes "count_where (\<lambda>x. r_id x = r_id r \<and> live x) (t_tokens s) = 1"
    and "x \<in> set (t_tokens s)" and "r_tokenHash x = hashRefreshToken w token"
  shows "transaction (rotate w now touch r token) s = (Inl UniqueViolation, s)"
proof -
  let ?rs = "update_where (\<lambda>x. r_id x = r_id r \<and> live x) (consume now touch) (t_tokens s)"
  have "map r_tokenHash ?rs = map r_tokenHash (t_tokens s)"
    by (rule map_update_where_key) (simp add: consume_def)
  then have "r_tokenHash x \<in> set (map r_tokenHash ?rs)" using assms(2) by simp
  then have "\<exists>y \<in> set ?rs. r_tokenHash y = hashRefreshToken w token" using assms(3) by auto
  then show ?thesis using assms(1) by (simp add: transaction_def rotate_def insert_token_def new_token_def Let_def throw_def)
qed

text \<open>
  The loser of a race: the family is revoked inside the transaction that the exception rolls back,
  so the revocation is lost.
\<close>

lemma lost_race_revokes_nothing:
  assumes "find_token w token s = Some r" and "live r" and "now < r_expiresAt r" and "\<not> isSessionIdle w r now"
    and "count_where (\<lambda>x. r_id x = r_id r \<and> live x) (t_tokens (race s)) \<noteq> 1"
  shows "session_refresh w now race token s = (Inl UnauthorizedException, race s)"
  using assms by (simp add: session_refresh_def live_def transaction_def rotate_def throw_def and_then_def Let_def)

section \<open>Properties\<close>

text \<open>
  C18.  However logins, refreshes, logouts and revocations interleave, every family has at most one
  token that can still be refreshed: no token is ever exchanged for two successors.
\<close>
theorem one_live_token_per_family:
  assumes "session_run w no_sessions s" and "inj (rowId w)" and "inj (familyOf w)"
  shows "count_where (\<lambda>r. r_familyId r = fam \<and> live r) (t_tokens s) \<le> 1"
proof -
  let ?l = "filter (\<lambda>r. r_familyId r = fam \<and> live r) (t_tokens s)"
  note ok = session_okD [OF reachable_ok [OF assms(1)]] and names = assms(2,3)
  have fresh: "fresh_names w" using names by (simp add: fresh_names_def)
  have "r_id x = r_id y" if "x \<in> set ?l" "y \<in> set ?l" for x y using that ok(4) [OF fresh, of x y] by simp
  then have "\<forall>i \<in> r_id ` set ?l. \<forall>j \<in> r_id ` set ?l. i = j" by blast
  then have "card (r_id ` set ?l) \<le> 1" by (simp only: One_nat_def card_le_Suc0_iff_eq finite_imageI finite_set)
  moreover have "distinct (map r_id ?l)" using ok(1) [OF fresh] by (simp add: distinct_map_filter)
  ultimately show ?thesis using distinct_card [of "map r_id ?l"] by (simp add: count_where_def)
qed

text \<open>
  Presenting a consumed refresh token ends its session for good: the request fails, and whatever
  runs afterwards, every token of the family that is presented, to either service and in whatever
  race, is refused.
\<close>
lemma reuse_ends_the_session:
  assumes "session_run w no_sessions s" and "inj (rowId w)" and "inj (familyOf w)" and "\<And>t. session_run w t (race t)"
    and "find_token w token s = Some r" and "r_consumedAt r \<noteq> None"
    and "session_run w (snd (session_refresh w now race token s)) s'"
    and "find_token w token' s' = Some r'" and "r_familyId r' = r_familyId r"
  shows "fst (session_refresh w now race token s) = Inl UnauthorizedException \<and>
    fst (session_refresh w now' race' token' s') = Inl UnauthorizedException \<and>
    fst (auth_refresh w now' race' token' s') = Inl UnauthorizedException"
proof -
  have fresh: "fresh_names w" using assms(2,3) by (simp add: fresh_names_def)
  have ok: "session_ok w s" by (rule reachable_ok [OF assms(1) fresh])
  have race: "session_ok w (race s) \<and> follows s (race s)" using session_run_ok [OF assms(4) fresh] ok by blast
  let ?s1 = "snd (session_refresh w now race token s)"
  note run = consumed_revokes(1) [OF assms(5,6), of now race]
  have "dead (r_familyId r) ?s1"
    using race find_token_in [OF assms(5)] revokeFamily_dead [where s = "race s" and fam = "r_familyId r"]
    by (auto simp: run follows_def)
  moreover have "follows ?s1 s'"
    using session_run_ok [OF assms(7) fresh] refresh_ok(1) [where race = race, OF ok fresh race] by blast
  ultimately have "\<not> live r'" using find_token_in [OF assms(8)] assms(9) by (auto simp: follows_def dead_def)
  with not_live_refused [OF assms(8)] run show ?thesis by simp
qed

text \<open>
  A refresh in the second in which its token was signed fails and changes nothing: the successor is
  the same string, and the unique index on its hash rejects it.
\<close>
lemma refresh_within_the_second_fails:
  assumes "issueTokenPair w now uid s = (Inr token, s1)" and "find_token w token s = None" and "inj (rowId w)"
    and "session_run w no_sessions s" and "inj (familyOf w)"
    and "now' div second_ms = now div second_ms" and "now' < refreshExpiryDate w now" and "now' - idleDays w * day_ms \<le> now"
  shows "session_refresh w now' (\<lambda>t. t) token s1 = (Inl UniqueViolation, s1) \<and>
    auth_refresh w now' (\<lambda>t. t) token s1 = (Inl UniqueViolation, s1)"
proof -
  have fresh: "fresh_names w" using assms(3,5) by (simp add: fresh_names_def)
  define t where "t = s\<lparr>families := families s + 1\<rparr>"
  define r where "r = new_token w now uid (familyOf w (families s)) token None t"
  have tok: "token = signRefreshToken w uid (familyOf w (families s)) (now div second_ms)"
    and ins: "insert_token r t = (Inr (), s1)"
    using assms(1) by (auto simp: issueTokenPair_def Let_def and_then_Inr_iff r_def t_def)
  then have s1: "t_tokens s1 = t_tokens s @ [r]" by (auto simp: insert_token_def t_def split: if_splits)
  have f: "find_token w token s1 = Some r"
    using assms(2) by (simp add: s1 find_token_def find_append r_def new_token_def)
  have s1ok: "session_ok w s1"
    using issue_ok [OF reachable_ok [OF assms(4) fresh] fresh, of now uid] assms(1) by simp
  have r: "r_consumedAt r = None" "r_revokedAt r = None" "r_expiresAt r = refreshExpiryDate w now" "r_userId r = uid"
    "r_familyId r = familyOf w (families s)" "\<not> isSessionIdle w r now'" "r_tokenHash r = hashRefreshToken w token"
    using assms(8) by (simp_all add: r_def new_token_def isSessionIdle_def)
  have "count_where (\<lambda>x. r_id x = r_id r \<and> live x) (t_tokens s1) \<le> 1"
    using session_okD(1) [OF s1ok] by (rule count_where_le_1)
  moreover have "0 < count_where (\<lambda>x. r_id x = r_id r \<and> live x) (t_tokens s1)"
    using r(1,2) by (simp add: s1 live_def)
  ultimately have one: "count_where (\<lambda>x. r_id x = r_id r \<and> live x) (t_tokens s1) = 1" by simp
  have "transaction (rotate w now' touch r token) s1 = (Inl UniqueViolation, s1)" for touch
    by (rule rotate_taken [OF one, of r]) (use r(7) s1 in auto)
  then show ?thesis using assms(6,7) f r tok
    by (simp add: session_refresh_def auth_refresh_def Let_def)
qed


text \<open>Three requests: a login, a refresh ten seconds later, and the old token presented again.\<close>

definition session_env1 :: session_env where
  "session_env1 = \<lparr>rowId = (\<lambda>n. replicate n (CHR ''i'')), familyOf = (\<lambda>n. replicate n (CHR ''f'')),
     signRefreshToken = (\<lambda>u f sec. u @ ''.'' @ f @ ''.'' @ replicate (nat sec) (CHR ''s'')),
     hashRefreshToken = (\<lambda>t. t), refreshDays = 7, idleDays = 7\<rparr>"

definition logged_in :: session_db where
  "logged_in = snd (issueTokenPair session_env1 0 ''u'' no_sessions)"

definition refreshed :: session_db where
  "refreshed = snd (session_refresh session_env1 10000 (\<lambda>t. t) ''u..'' logged_in)"

definition reused :: session_db where
  "reused = snd (session_refresh session_env1 20000 (\<lambda>t. t) ''u..'' refreshed)"

lemma session_env1_inj: "inj (rowId session_env1)" "inj (familyOf session_env1)"
  by (auto simp: session_env1_def inj_on_def dest: arg_cong [of _ _ length])

lemma session_demo_runs: "session_run session_env1 no_sessions logged_in" "session_run session_env1 no_sessions refreshed"
  unfolding refreshed_def logged_in_def by (intro session_run.intros)+

theorem one_live_token_per_family_witness:
  "count_where (\<lambda>r. r_familyId r = [] \<and> live r) (t_tokens refreshed) \<le> 1 \<and> length (t_tokens refreshed) = 2"
  using one_live_token_per_family [OF session_demo_runs(2) session_env1_inj, of "[]"]
  by (simp, code_simp)

lemma reuse_ends_the_session_witness:
  "fst (session_refresh session_env1 20000 (\<lambda>t. t) ''u..'' refreshed) = Inl UnauthorizedException \<and>
   fst (session_refresh session_env1 30000 (\<lambda>t. t) ''u..ssssssssss'' reused) = Inl UnauthorizedException \<and>
   fst (auth_refresh session_env1 30000 (\<lambda>t. t) ''u..ssssssssss'' reused) = Inl UnauthorizedException"
proof -
  have a: "find_token session_env1 ''u..'' refreshed \<noteq> None \<and>
      r_consumedAt (the (find_token session_env1 ''u..'' refreshed)) \<noteq> None \<and>
      find_token session_env1 ''u..ssssssssss'' reused \<noteq> None \<and>
      r_familyId (the (find_token session_env1 ''u..ssssssssss'' reused)) = r_familyId (the (find_token session_env1 ''u..'' refreshed))"
    by code_simp
  then obtain r r' where "find_token session_env1 ''u..'' refreshed = Some r" "r_consumedAt r \<noteq> None"
    "find_token session_env1 ''u..ssssssssss'' reused = Some r'" "r_familyId r' = r_familyId r" by auto
  from reuse_ends_the_session [where now = 20000 and race = "\<lambda>t. t", OF session_demo_runs(2) session_env1_inj session_run.start
      this(1,2) _ this(3,4)] session_run.start
  show ?thesis by (simp add: reused_def)
qed

lemma refresh_within_the_second_fails_witness:
  "session_refresh session_env1 900 (\<lambda>t. t) ''u..'' logged_in = (Inl UniqueViolation, logged_in) \<and>
   auth_refresh session_env1 900 (\<lambda>t. t) ''u..'' logged_in = (Inl UniqueViolation, logged_in)"
proof (rule refresh_within_the_second_fails [where s = no_sessions and now = 0 and uid = "''u''"])
  have "fst (issueTokenPair session_env1 0 ''u'' no_sessions) = Inr ''u..''" by code_simp
  then show "issueTokenPair session_env1 0 ''u'' no_sessions = (Inr ''u..'', logged_in)"
    by (simp add: logged_in_def prod_eq_iff)
qed (use session_env1_inj in \<open>simp_all add: session_run.start find_token_def no_sessions_def second_ms_def refreshExpiryDate_def
    day_ms_def session_env1_def\<close>)

end
