(* ===== verification/Base32.thy ===== *)
theory Base32
  imports Prelude "HOL-Library.Word"
begin

unbundle bit_operations_syntax

text \<open>
  The base-32 encoder of the two-factor secrets, \<open>base32Encode\<close> in
  \<^verbatim>\<open>modules/auth/auth.service.ts\<close> and \<^verbatim>\<open>modules/auth/two-factor.service.ts\<close>.  JavaScript shifts and
  masks work on 32 bits, and \<open>value << 8\<close> drops the high bits for every byte after the fourth; the
  development shows that the dropped bits have all been emitted.
\<close>

section \<open>The encoder\<close>

definition base32Chars :: string where
  "base32Chars = ''ABCDEFGHIJKLMNOPQRSTUVWXYZ234567''"

definition base32_char :: "32 word \<Rightarrow> char" where
  "base32_char v = base32Chars ! unat (v AND 31)"

text \<open>The inner loop: as long as five bits are pending, emit them.\<close>

fun drain :: "nat \<Rightarrow> 32 word \<Rightarrow> string \<Rightarrow> nat \<times> string" where
  "drain bits v out =
     (if 5 \<le> bits then drain (bits - 5) v (out @ [base32_char (drop_bit (bits - 5) v)]) else (bits, out))"

declare drain.simps [simp del]

fun encode_bytes :: "nat \<Rightarrow> 32 word \<Rightarrow> string \<Rightarrow> 8 word list \<Rightarrow> string" where
  "encode_bytes bits v out [] =
     (if 0 < bits then out @ [base32_char (push_bit (5 - bits) v)] else out)"
| "encode_bytes bits v out (b # bs) =
     (let v' = push_bit 8 v OR ucast b;
          (bits', out') = drain (bits + 8) v' out
      in encode_bytes bits' v' out' bs)"

definition base32Encode :: "8 word list \<Rightarrow> string" where
  "base32Encode bs = encode_bytes 0 0 [] bs"

fun chunks5 :: "'a list \<Rightarrow> 'a list list" where
  "chunks5 xs = (if xs = [] then [] else take 5 xs # chunks5 (drop 5 xs))"

declare chunks5.simps [simp del]

text \<open>The secret of twenty random bytes is encoded in slices of five.\<close>

definition totp_secret :: "8 word list \<Rightarrow> string" where
  "totp_secret bytes = concat (map base32Encode (chunks5 bytes))"

section \<open>The specification\<close>

text \<open>
  RFC 4648 without padding: the bits of the bytes, most significant first, in groups of five, the last
  group filled with zeros.
\<close>

definition low_bits :: "nat \<Rightarrow> 'a::len word \<Rightarrow> bool list" where
  "low_bits n v = map (bit v) (rev [0..<n])"

fun value_of_bits :: "bool list \<Rightarrow> nat" where
  "value_of_bits [] = 0"
| "value_of_bits (b # bs) = of_bool b * 2 ^ length bs + value_of_bits bs"

definition group_char :: "bool list \<Rightarrow> char" where
  "group_char g = base32Chars ! value_of_bits (g @ replicate (5 - length g) False)"

definition base32_of_bits :: "bool list \<Rightarrow> string" where
  "base32_of_bits bs = map group_char (chunks5 bs)"

definition bits_of_bytes :: "8 word list \<Rightarrow> bool list" where
  "bits_of_bytes bs = concat (map (low_bits 8) bs)"

section \<open>The encoder meets it\<close>

lemma length_low_bits [simp]: "length (low_bits n v) = n"
  by (simp add: low_bits_def)

lemma low_bits_0 [simp]: "low_bits 0 v = []"
  by (simp add: low_bits_def)

lemma low_bits_append: "low_bits (m + n) v = map (\<lambda>i. bit v (n + i)) (rev [0..<m]) @ low_bits n v"
proof -
  have "[0..<m + n] = [0..<n] @ map (\<lambda>i. n + i) [0..<m]"
    using upt_add_eq_append [of 0 n m] map_add_upt [of n m] by (simp add: add.commute)
  then show ?thesis by (simp add: low_bits_def rev_map)
qed

lemma low_bits_drop: "low_bits m (drop_bit n v) @ low_bits n v = low_bits (m + n) v"
  unfolding low_bits_append [of m n v] by (simp add: low_bits_def bit_drop_bit_eq)

lemma low_bits_shift_in:
  assumes "n + 8 \<le> 32"
  shows "low_bits (n + 8) (push_bit 8 (v :: 32 word) OR ucast (b :: 8 word)) = low_bits n v @ low_bits 8 b"
proof -
  have hi: "bit (push_bit 8 v OR ucast b) (8 + i) = bit v i" if "i < n" for i
    using that assms by (auto simp: bit_or_iff bit_push_bit_iff bit_ucast_iff dest: bit_imp_le_length)
  have lo: "bit (push_bit 8 v OR ucast b) i = bit b i" if "i < 8" for i
    using that by (auto simp: bit_or_iff bit_push_bit_iff bit_ucast_iff)
  show ?thesis unfolding low_bits_append
    by (rule arg_cong2 [of _ _ _ _ append]) (auto simp: low_bits_def hi lo)
qed

lemma low_bits_pad:
  assumes "n \<le> 5"
  shows "low_bits 5 (push_bit (5 - n) (v :: 32 word)) = low_bits n v @ replicate (5 - n) False"
proof -
  have "low_bits 5 (push_bit (5 - n) v) = low_bits (n + (5 - n)) (push_bit (5 - n) v)" using assms by simp
  also have "\<dots> = map (\<lambda>i. bit (push_bit (5 - n) v) (5 - n + i)) (rev [0..<n]) @ low_bits (5 - n) (push_bit (5 - n) v)"
    by (rule low_bits_append)
  also have "map (\<lambda>i. bit (push_bit (5 - n) v) (5 - n + i)) (rev [0..<n]) = low_bits n v"
    unfolding low_bits_def by (rule map_cong) (use assms in \<open>auto simp: bit_push_bit_iff\<close>)
  also have "low_bits (5 - n) (push_bit (5 - n) v) = replicate (5 - n) False"
    by (rule replicate_eqI) (auto simp: low_bits_def bit_push_bit_iff)
  finally show ?thesis .
qed

lemma unat_low_5: "unat ((v :: 32 word) AND 31) = value_of_bits (low_bits 5 v)"
proof -
  have "v AND 31 = take_bit 5 v" by (simp add: take_bit_eq_mask mask_eq_exp_minus_1)
  then have "unat (v AND 31) = take_bit 5 (unat v)" by (simp add: unsigned_take_bit_eq)
  also have "\<dots> = horner_sum of_bool 2 (map (bit (unat v)) [0..<5])" by (simp add: horner_sum_bit_eq_take_bit)
  also have "\<dots> = value_of_bits (low_bits 5 v)"
    by (simp add: low_bits_def numeral_eq_Suc upt_rec bit_unsigned_iff algebra_simps)
  finally show ?thesis .
qed

lemma base32_char_group: "base32_char v = group_char (low_bits 5 v)"
  by (simp add: base32_char_def group_char_def unat_low_5)


lemma chunks5_split: "length g = 5 \<Longrightarrow> chunks5 (g @ xs) = g # chunks5 xs"
  by (subst chunks5.simps) auto

lemma chunks5_short: "xs \<noteq> [] \<Longrightarrow> length xs \<le> 5 \<Longrightarrow> chunks5 xs = [xs]"
  by (subst chunks5.simps) (simp add: chunks5.simps [of "[]"])

lemma chunks5_Nil [simp]: "chunks5 [] = []"
  by (simp add: chunks5.simps)

lemma base32_of_bits_Nil [simp]: "base32_of_bits [] = []"
  by (simp add: base32_of_bits_def)

lemma drain_spec:
  "drain n v out = (n', out') \<Longrightarrow> n' < 5 \<and>
     out' @ base32_of_bits (low_bits n' v @ xs) = out @ base32_of_bits (low_bits n v @ xs)"
proof (induction n v out rule: drain.induct)
  case (1 n v out)
  show ?case
  proof (cases "5 \<le> n")
    case True
    let ?c = "base32_char (drop_bit (n - 5) v)"
    have "drain (n - 5) v (out @ [?c]) = (n', out')" using 1(2) True by (simp add: drain.simps [of n])
    note IH = 1(1) [OF True this]
    have "low_bits n v = low_bits 5 (drop_bit (n - 5) v) @ low_bits (n - 5) v"
      using low_bits_drop [of 5 "n - 5" v] True by simp
    then have "base32_of_bits (low_bits n v @ xs) = ?c # base32_of_bits (low_bits (n - 5) v @ xs)"
      by (simp add: base32_of_bits_def chunks5_split base32_char_group)
    with IH show ?thesis by simp
  next
    case False
    with 1(2) show ?thesis by (simp add: drain.simps [of n])
  qed
qed

lemma encode_bytes_spec:
  "n < 5 \<Longrightarrow> encode_bytes n v out bs = out @ base32_of_bits (low_bits n v @ bits_of_bytes bs)"
proof (induction bs arbitrary: n v out)
  case Nil
  show ?case
  proof (cases "n = 0")
    case False
    then have "low_bits n v \<noteq> []" by (simp flip: length_greater_0_conv)
    then have "base32_of_bits (low_bits n v) = [group_char (low_bits n v)]"
      using Nil by (simp add: base32_of_bits_def chunks5_short)
    moreover have "group_char (low_bits n v) = base32_char (push_bit (5 - n) v)"
      using low_bits_pad [of n v] Nil by (simp add: base32_char_group group_char_def)
    ultimately show ?thesis using False by (simp add: bits_of_bytes_def)
  qed (simp add: bits_of_bytes_def)
next
  case (Cons b bs)
  let ?v = "push_bit 8 v OR ucast b :: 32 word"
  obtain n' out' where d: "drain (n + 8) ?v out = (n', out')" by fastforce
  have "low_bits (n + 8) ?v = low_bits n v @ low_bits 8 b" using Cons.prems by (simp add: low_bits_shift_in)
  with drain_spec [OF d, of "bits_of_bytes bs"] Cons.IH d show ?case
    by (simp add: Let_def bits_of_bytes_def)
qed

lemma base32Encode_spec: "base32Encode bs = base32_of_bits (bits_of_bytes bs)"
  by (simp add: base32Encode_def encode_bytes_spec)

lemma length_bits_of_bytes: "length (bits_of_bytes bs) = 8 * length bs"
  by (induction bs) (simp_all add: bits_of_bytes_def)

lemma base32_of_bits_append:
  "length xs = 5 * n \<Longrightarrow> base32_of_bits (xs @ ys) = base32_of_bits xs @ base32_of_bits ys"
proof (induction n arbitrary: xs)
  case (Suc n)
  define g where "g = take 5 xs"
  define r where "r = drop 5 xs"
  have split: "xs = g @ r" "length g = 5" "length r = 5 * n" using Suc.prems by (simp_all add: g_def r_def)
  then show ?case using Suc.IH [of r] by (simp add: base32_of_bits_def chunks5_split)
qed simp

section \<open>Properties\<close>

text \<open>
  C19.  The two-factor secret is the RFC 4648 encoding of the random bytes, whatever their number: no
  bit is lost to the 32-bit shifts, and encoding slices of five bytes separately changes nothing.
\<close>
theorem totp_secret_is_base32: "totp_secret bytes = base32_of_bits (bits_of_bytes bytes)"
proof (induction bytes rule: chunks5.induct)
  case (1 bytes)
  show ?case
  proof (cases "length bytes \<le> 5")
    case True
    then show ?thesis
      by (cases "bytes = []") (simp_all add: totp_secret_def chunks5_short base32Encode_spec bits_of_bytes_def)
  next
    case False
    define g where "g = take 5 bytes"
    define r where "r = drop 5 bytes"
    have split: "bytes = g @ r" "length g = 5" "bytes \<noteq> []" using False by (auto simp: g_def r_def)
    have "totp_secret bytes = base32Encode g @ totp_secret r"
      using split(1,2) by (simp add: totp_secret_def chunks5_split)
    also have "\<dots> = base32_of_bits (bits_of_bytes g) @ base32_of_bits (bits_of_bytes r)"
      using 1 [OF split(3)] by (simp add: base32Encode_spec r_def)
    also have "\<dots> = base32_of_bits (bits_of_bytes g @ bits_of_bytes r)"
      by (rule base32_of_bits_append [symmetric, of _ 8]) (simp add: length_bits_of_bytes split(2))
    finally show ?thesis using split(1) by (simp add: bits_of_bytes_def)
  qed
qed

end
