(* ===== verification/Passwords.thy ===== *)
theory Passwords
  imports JsText "HOL-Library.Word"
begin

text \<open>
  Passwords: the policy of \<^verbatim>\<open>common/password/password-policy.service.ts\<close>, and the stored form
  \<open>scrypt:salt:key\<close> that \<open>hashPassword\<close> writes and \<open>verifyPassword\<close> reads
  (\<^verbatim>\<open>modules/auth/auth.service.ts\<close>).  The key derivation is a parameter; the hexadecimal
  encoding of Node's buffers and the parsing of the stored string are modelled.
\<close>

section \<open>Policy\<close>

datatype raw_flag = Unset | BoolFlag bool | TextFlag string

record raw_policy =
  PASSWORD_MIN_LENGTH :: nat
  PASSWORD_REQUIRE_UPPERCASE :: raw_flag
  PASSWORD_REQUIRE_LOWERCASE :: raw_flag
  PASSWORD_REQUIRE_NUMBER :: raw_flag
  PASSWORD_REQUIRE_SPECIAL :: raw_flag

record password_policy =
  minLength :: nat
  requireUppercase :: bool
  requireLowercase :: bool
  requireNumber :: bool
  requireSpecial :: bool

datatype requirement = MinLength nat | NeedUppercase | NeedLowercase | NeedNumber | NeedSpecial

definition parseBool :: "raw_flag \<Rightarrow> bool \<Rightarrow> bool" where
  "parseBool raw d = (case raw of Unset \<Rightarrow> d | BoolFlag b \<Rightarrow> b
     | TextFlag t \<Rightarrow> toLowerCase t \<in> {''true'', ''1'', ''yes''})"

definition getPolicy :: "raw_policy \<Rightarrow> password_policy" where
  "getPolicy c = \<lparr>minLength = PASSWORD_MIN_LENGTH c,
     requireUppercase = parseBool (PASSWORD_REQUIRE_UPPERCASE c) True,
     requireLowercase = parseBool (PASSWORD_REQUIRE_LOWERCASE c) True,
     requireNumber = parseBool (PASSWORD_REQUIRE_NUMBER c) True,
     requireSpecial = parseBool (PASSWORD_REQUIRE_SPECIAL c) False\<rparr>"

definition special_char :: "char \<Rightarrow> bool" where
  "special_char c \<longleftrightarrow> char_in 33 47 c \<or> char_in 58 64 c \<or> char_in 91 96 c \<or> char_in 123 126 c"

definition getUnmetRequirements :: "password_policy \<Rightarrow> string \<Rightarrow> requirement list" where
  "getUnmetRequirements p pw =
     (if pw = [] \<or> length pw < minLength p then [MinLength (minLength p)] else []) @
     (if requireUppercase p \<and> \<not> list_ex (char_in 65 90) pw then [NeedUppercase] else []) @
     (if requireLowercase p \<and> \<not> list_ex (char_in 97 122) pw then [NeedLowercase] else []) @
     (if requireNumber p \<and> \<not> list_ex (char_in 48 57) pw then [NeedNumber] else []) @
     (if requireSpecial p \<and> \<not> list_ex special_char pw then [NeedSpecial] else [])"

definition validate_password :: "raw_policy \<Rightarrow> string \<Rightarrow> exn + unit" where
  "validate_password c pw = (if getUnmetRequirements (getPolicy c) pw \<noteq> [] then Inl BadRequestException else Inr ())"

section \<open>Hexadecimal\<close>

definition hex_digits :: string where
  "hex_digits = ''0123456789abcdef''"

definition hex_byte :: "8 word \<Rightarrow> string" where
  "hex_byte b = [hex_digits ! (unat b div 16), hex_digits ! (unat b mod 16)]"

definition to_hex :: "8 word list \<Rightarrow> string" where
  "to_hex bs = concat (map hex_byte bs)"

definition hex_value :: "char \<Rightarrow> nat option" where
  "hex_value c =
     (if char_in 48 57 c then Some (of_char c - 48)
      else if char_in 97 102 c then Some (of_char c - 87)
      else if char_in 65 70 c then Some (of_char c - 55) else None)"

text \<open>\<open>Buffer.from(text, 'hex')\<close> stops at the first pair that is not hexadecimal.\<close>

fun from_hex :: "string \<Rightarrow> 8 word list" where
  "from_hex (a # b # cs) = (case (hex_value a, hex_value b) of
     (Some x, Some y) \<Rightarrow> word_of_nat (16 * x + y) # from_hex cs
   | _ \<Rightarrow> [])"
| "from_hex _ = []"

lemma hex_value_digit: "n < 16 \<Longrightarrow> hex_value (hex_digits ! n) = Some n"
proof -
  have "list_all (\<lambda>n. hex_value (hex_digits ! n) = Some n) [0..<16]" by code_simp
  then show "n < 16 \<Longrightarrow> ?thesis" by (simp add: list_all_iff)
qed

lemma hex_digit_not_colon: "n < 16 \<Longrightarrow> hex_digits ! n \<noteq> CHR '':''"
proof -
  have "list_all (\<lambda>n. hex_digits ! n \<noteq> CHR '':'') [0..<16]" by code_simp
  then show "n < 16 \<Longrightarrow> ?thesis" by (simp add: list_all_iff)
qed

lemma unat_byte [simp]: "unat (b :: 8 word) div 16 < 16" "unat b mod 16 < 16"
proof -
  have "unat b < 2 ^ LENGTH(8)" by (rule unsigned_less)
  then show "unat b div 16 < 16" by (simp add: less_mult_imp_div_less)
qed simp

lemma from_hex_to_hex [simp]: "from_hex (to_hex bs) = bs"
  by (induction bs) (simp_all add: to_hex_def hex_byte_def hex_value_digit)

lemma to_hex_colon_free: "CHR '':'' \<notin> set (to_hex bs)"
  by (induction bs) (simp_all add: to_hex_def hex_byte_def hex_digit_not_colon not_sym [OF hex_digit_not_colon])

lemma to_hex_Nil_iff [simp]: "to_hex bs = [] \<longleftrightarrow> bs = []"
  by (cases bs) (simp_all add: to_hex_def hex_byte_def)

section \<open>The stored form\<close>

definition hashPassword :: "(string \<Rightarrow> string \<Rightarrow> 8 word list) \<Rightarrow> 8 word list \<Rightarrow> string \<Rightarrow> string" where
  "hashPassword scrypt random pw =
     (let salt = to_hex random in ''scrypt:'' @ salt @ '':'' @ to_hex (scrypt pw salt))"

definition verifyPassword :: "(string \<Rightarrow> string \<Rightarrow> 8 word list) \<Rightarrow> string \<Rightarrow> string \<Rightarrow> bool" where
  "verifyPassword scrypt pw stored = (case split_on (CHR '':'') stored of
     algorithm # salt # key # _ \<Rightarrow>
       if algorithm \<noteq> ''scrypt'' \<or> salt = [] \<or> key = [] then False
       else (let storedKey = from_hex key; derivedKey = scrypt pw salt
             in length storedKey = length derivedKey \<and> storedKey = derivedKey)
   | _ \<Rightarrow> False)"

lemma split_hash:
  "split_on (CHR '':'') (hashPassword scrypt random pw) = [''scrypt'', to_hex random, to_hex (scrypt pw (to_hex random))]"
proof -
  let ?salt = "to_hex random" and ?key = "to_hex (scrypt pw (to_hex random))"
  have "hashPassword scrypt random pw = ''scrypt'' @ CHR '':'' # (?salt @ CHR '':'' # ?key)"
    by (simp add: hashPassword_def Let_def)
  moreover have "split_on (CHR '':'') (''scrypt'' @ CHR '':'' # (?salt @ CHR '':'' # ?key)) = [''scrypt'', ?salt, ?key]"
    by (subst split_on_append; simp add: to_hex_colon_free)
  ultimately show ?thesis by simp
qed

section \<open>Properties\<close>

text \<open>
  A password is accepted against a stored hash exactly when it derives the key the hash was made
  from, for the salt stored in it; in particular the password itself is accepted.
\<close>
theorem stored_password_round_trip:
  assumes "random \<noteq> []" and "\<And>p salt. scrypt p salt \<noteq> []"
  shows "verifyPassword scrypt pw (hashPassword scrypt random pw) \<and>
    (verifyPassword scrypt other (hashPassword scrypt random pw) \<longleftrightarrow> scrypt other (to_hex random) = scrypt pw (to_hex random))"
  using assms by (auto simp: verifyPassword_def split_hash Let_def)


definition toy_scrypt :: "string \<Rightarrow> string \<Rightarrow> 8 word list" where
  "toy_scrypt p salt = map (\<lambda>c. word_of_nat (of_char c)) (p @ salt @ ''pepper'')"

theorem stored_password_round_trip_witness:
  "verifyPassword toy_scrypt ''pw'' (hashPassword toy_scrypt [7, 255] ''pw'')"
  by (rule stored_password_round_trip [THEN conjunct1]) (simp_all add: toy_scrypt_def)

end
