(* ===== verification/Accounts.thy ===== *)
theory Accounts
  imports Sessions Passwords Base32 Store
begin

text \<open>
  \<^verbatim>\<open>modules/auth/auth.service.ts\<close>: registration, password and Google login with the lockout, nonces,
  impersonation, profile, two-factor enrolment and password change.  Refresh tokens are the state of
  \<^verbatim>\<open>Sessions\<close>.  The key derivation, the TOTP check, the random bytes and the ledger lookup of an
  account are parameters.
\<close>

record account =
  a_id :: ident
  a_email :: "string option"
  a_passwordHash :: "string option"
  a_stellarAddress :: "string option"
  a_googleId :: "string option"
  a_name :: "string option"
  a_company :: "string option"
  a_role :: user_role
  a_deactivatedAt :: "time option"
  a_deletedAt :: "time option"
  a_failedLoginAttempts :: nat
  a_lockedUntil :: "time option"
  a_totpSecret :: "string option"
  a_totpEnabled :: bool
  a_webhookUrl :: "string option"
  a_webhookSecret :: "string option"

record auth_db =
  accounts :: "account list"
  sessions :: session_db
  nonces :: "string \<Rightarrow> (string \<times> time) option"
  draws :: nat

record auth_env =
  session_part :: session_env
  scrypt :: "string \<Rightarrow> string \<Rightarrow> 8 word list"
  randomBytes :: "nat \<Rightarrow> nat \<Rightarrow> 8 word list"
  accountId :: "nat \<Rightarrow> ident"
  totpValid :: "string option \<Rightarrow> string \<Rightarrow> time \<Rightarrow> bool"
  accountExists :: "string \<Rightarrow> exn + bool"
  skipAccountValidation :: bool
  policy :: raw_policy
  nonceText :: "string \<Rightarrow> time \<Rightarrow> string"

definition MAX_FAILED_ATTEMPTS :: nat where "MAX_FAILED_ATTEMPTS = 5"
definition LOCKOUT_DURATION_MINUTES :: int where "LOCKOUT_DURATION_MINUTES = 15"

definition find_account :: "ident \<Rightarrow> auth_db \<Rightarrow> account option" where
  "find_account uid s = List.find (\<lambda>a. a_id a = uid) (accounts s)"

definition find_email :: "string \<Rightarrow> auth_db \<Rightarrow> account option" where
  "find_email email s = List.find (\<lambda>a. a_email a = Some email) (accounts s)"

definition put_account :: "ident \<Rightarrow> (account \<Rightarrow> account) \<Rightarrow> auth_db \<Rightarrow> auth_db" where
  "put_account uid f s = s\<lparr>accounts := update_where (\<lambda>a. a_id a = uid) f (accounts s)\<rparr>"

definition log_auth :: "ident option \<Rightarrow> security_action \<Rightarrow> auth_db \<Rightarrow> auth_db" where
  "log_auth uid a s = s\<lparr>sessions := log_security uid a (sessions s)\<rparr>"

definition issue_tokens :: "auth_env \<Rightarrow> time \<Rightarrow> ident \<Rightarrow> auth_db \<Rightarrow> (auth_db, string) outcome" where
  "issue_tokens w tnow uid s =
     (let (r, ss) = issueTokenPair (session_part w) tnow uid (sessions s) in (r, s\<lparr>sessions := ss\<rparr>))"

section \<open>Nonces\<close>

definition generateNonce :: "auth_env \<Rightarrow> time \<Rightarrow> string \<Rightarrow> auth_db \<Rightarrow> auth_db \<times> string" where
  "generateNonce w tnow addr s =
     (let nonce = nonceText w addr tnow
      in (s\<lparr>nonces := (nonces s)(addr \<mapsto> (nonce, tnow + 5 * 60 * 1000))\<rparr>, nonce))"

definition consumeNonce :: "time \<Rightarrow> string \<Rightarrow> string \<Rightarrow> auth_db \<Rightarrow> auth_db \<times> bool" where
  "consumeNonce tnow addr nonce s = (case nonces s addr of
     None \<Rightarrow> (s, False)
   | Some (n, expiresAt) \<Rightarrow>
       if expiresAt < tnow then (s\<lparr>nonces := (nonces s)(addr := None)\<rparr>, False)
       else if n \<noteq> nonce then (s, False)
       else (s\<lparr>nonces := (nonces s)(addr := None)\<rparr>, True))"

section \<open>Registration\<close>

record register_dto =
  rg_email :: string
  rg_password :: string
  rg_stellarAddress :: "string option"
  rg_name :: "string option"
  rg_company :: "string option"
  rg_role :: "user_role option"

text \<open>The unique columns of a user; NULLs do not collide.\<close>

definition collides :: "string option \<Rightarrow> string option \<Rightarrow> bool" where
  "collides x y \<longleftrightarrow> x \<noteq> None \<and> x = y"

definition insert_account :: "account \<Rightarrow> auth_db \<Rightarrow> (auth_db, unit) outcome" where
  "insert_account a s =
     (if \<exists>x \<in> set (accounts s). collides (a_email a) (a_email x) \<or> collides (a_stellarAddress a) (a_stellarAddress x) \<or>
           collides (a_googleId a) (a_googleId x)
      then throw UniqueViolation s
      else return () (s\<lparr>accounts := accounts s @ [a]\<rparr>))"

text \<open>The \<open>catch\<close> clause: a unique violation becomes \<open>e\<close>, any other error is thrown again.\<close>

definition on_unique :: "exn \<Rightarrow> ('s, 'a) outcome \<Rightarrow> ('s, 'a) outcome" where
  "on_unique e r = (if fst r = Inl UniqueViolation then throw e (snd r) else r)"

definition blank_account :: "ident \<Rightarrow> string \<Rightarrow> user_role \<Rightarrow> account" where
  "blank_account i email role =
     \<lparr>a_id = i, a_email = Some email, a_passwordHash = None, a_stellarAddress = None, a_googleId = None, a_name = None,
      a_company = None, a_role = role, a_deactivatedAt = None, a_deletedAt = None, a_failedLoginAttempts = 0,
      a_lockedUntil = None, a_totpSecret = None, a_totpEnabled = False, a_webhookUrl = None, a_webhookSecret = None\<rparr>"

definition register :: "auth_env \<Rightarrow> time \<Rightarrow> register_dto \<Rightarrow> auth_db \<Rightarrow> (auth_db, string) outcome" where
  "register w tnow dto s = (case validate_password (policy w) (rg_password dto) of
     Inl e \<Rightarrow> throw e s
   | Inr _ \<Rightarrow>
       (let email = toLowerCase (rg_email dto);
            hash = hashPassword (scrypt w) (randomBytes w (draws s) 16) (rg_password dto);
            s1 = s\<lparr>draws := draws s + 1\<rparr>;
            create = (let uid = accountId w (length (accounts s1));
                          a = (blank_account uid email (case rg_role dto of None \<Rightarrow> COMPANY | Some r \<Rightarrow> r))
                                \<lparr>a_passwordHash := Some hash, a_stellarAddress := rg_stellarAddress dto,
                                 a_name := rg_name dto, a_company := rg_company dto\<rparr>
                      in and_then (on_unique ConflictException (insert_account a s1))
                           (\<lambda>_ s2. issue_tokens w tnow uid s2))
        in if truthy (rg_stellarAddress dto) \<and> \<not> skipAccountValidation w
           then (case accountExists w (the (rg_stellarAddress dto)) of
                   Inl e \<Rightarrow> throw e s1
                 | Inr False \<Rightarrow> throw BadRequestException s1
                 | Inr True \<Rightarrow> create)
           else create))"

section \<open>Login\<close>

record login_dto =
  lg_email :: string
  lg_password :: string
  lg_totpCode :: "string option"

definition handleFailedLogin :: "time \<Rightarrow> ident option \<Rightarrow> auth_db \<Rightarrow> auth_db" where
  "handleFailedLogin tnow uid s = (case uid of
     None \<Rightarrow> log_auth None LOGIN_FAILURE s
   | Some u \<Rightarrow>
       (let s1 = log_auth (Some u) LOGIN_FAILURE s
        in case find_account u s1 of
             None \<Rightarrow> s1
           | Some a \<Rightarrow>
               (let n = a_failedLoginAttempts a + 1
                in if MAX_FAILED_ATTEMPTS \<le> n
                   then put_account u (\<lambda>a. a\<lparr>a_failedLoginAttempts := n,
                          a_lockedUntil := Some (tnow + LOCKOUT_DURATION_MINUTES * 60 * 1000)\<rparr>) s1
                   else put_account u (\<lambda>a. a\<lparr>a_failedLoginAttempts := n\<rparr>) s1)))"

definition resetFailedAttempts :: "ident \<Rightarrow> auth_db \<Rightarrow> auth_db" where
  "resetFailedAttempts uid s = put_account uid (\<lambda>a. a\<lparr>a_failedLoginAttempts := 0, a_lockedUntil := None\<rparr>) s"

definition password_ok :: "auth_env \<Rightarrow> login_dto \<Rightarrow> account option \<Rightarrow> bool" where
  "password_ok w dto a = (case a of None \<Rightarrow> False
     | Some a \<Rightarrow> truthy (a_passwordHash a) \<and> verifyPassword (scrypt w) (lg_password dto) (the (a_passwordHash a)))"

definition locked :: "time \<Rightarrow> account \<Rightarrow> bool" where
  "locked tnow a = (case a_lockedUntil a of None \<Rightarrow> False | Some t \<Rightarrow> tnow < t)"

definition login :: "auth_env \<Rightarrow> time \<Rightarrow> login_dto \<Rightarrow> auth_db \<Rightarrow> (auth_db, string) outcome" where
  "login w tnow dto s =
     (let user = find_email (toLowerCase (lg_email dto)) s
      in if \<not> password_ok w dto user
         then throw UnauthorizedException (handleFailedLogin tnow (map_option a_id user) s)
         else (let a = the user;
                   succeed = issue_tokens w tnow (a_id a) (log_auth (Some (a_id a)) LOGIN_SUCCESS (resetFailedAttempts (a_id a) s))
               in if a_deactivatedAt a \<noteq> None
                  then throw ForbiddenException (log_auth (Some (a_id a)) LOGIN_FAILURE s)
                  else if locked tnow a
                  then throw TooManyRequestsException (log_auth (Some (a_id a)) LOGIN_FAILURE s)
                  else if a_totpEnabled a
                  then (if \<not> truthy (lg_totpCode dto) then throw UnauthorizedException s
                        else if \<not> totpValid w (a_totpSecret a) (the (lg_totpCode dto)) tnow
                        then throw UnauthorizedException (handleFailedLogin tnow (Some (a_id a)) s)
                        else succeed)
                  else succeed))"

definition loginWithGoogle :: "auth_env \<Rightarrow> time \<Rightarrow> string \<Rightarrow> string \<Rightarrow> string option \<Rightarrow> auth_db \<Rightarrow> (auth_db, string) outcome" where
  "loginWithGoogle w tnow googleId emailGiven name s =
     (let email = toLowerCase emailGiven;
          finish = (\<lambda>uid s. issue_tokens w tnow uid (log_auth (Some uid) LOGIN_SUCCESS (resetFailedAttempts uid s)));
          link = (\<lambda>a s. if \<exists>x \<in> set (accounts s). a_id x \<noteq> a_id a \<and> a_googleId x = Some googleId then throw UniqueViolation s
                  else return () (put_account (a_id a) (\<lambda>a. a\<lparr>a_googleId := Some googleId\<rparr>) s))
      in case List.find (\<lambda>a. a_googleId a = Some googleId \<or> a_email a = Some email) (accounts s) of
           Some a \<Rightarrow>
             if a_deactivatedAt a \<noteq> None \<or> a_deletedAt a \<noteq> None
             then throw ForbiddenException (log_auth (Some (a_id a)) LOGIN_FAILURE s)
             else if \<not> truthy (a_googleId a) \<or> a_googleId a \<noteq> Some googleId \<and> a_email a = Some email
             then and_then (link a s) (\<lambda>_ s1. finish (a_id a) s1)
             else finish (a_id a) s
         | None \<Rightarrow>
             (let uid = accountId w (length (accounts s))
              in and_then (insert_account ((blank_account uid email COMPANY)\<lparr>a_googleId := Some googleId, a_name := name\<rparr>) s)
                   (\<lambda>_ s1. finish uid s1)))"

section \<open>Impersonation and profile\<close>

record impersonation =
  im_sub :: ident
  im_role :: user_role
  im_impersonatorId :: ident
  im_expiresAt :: time

definition issueImpersonationToken :: "time \<Rightarrow> ident \<Rightarrow> ident \<Rightarrow> auth_db \<Rightarrow> (auth_db, impersonation) outcome" where
  "issueImpersonationToken tnow adminId targetId s = (case find_account targetId s of
     None \<Rightarrow> throw ForbiddenException s
   | Some a \<Rightarrow>
       if a_deletedAt a \<noteq> None \<or> a_deactivatedAt a \<noteq> None then throw ForbiddenException s
       else return \<lparr>im_sub = a_id a, im_role = a_role a, im_impersonatorId = adminId, im_expiresAt = tnow + 5 * 60 * 1000\<rparr>
              (log_auth (Some (a_id a)) IMPERSONATION_ISSUED s))"

text \<open>A field of the profile: left out, set to null, or set to a text.\<close>

type_synonym field_change = "string option option"

definition changed :: "field_change \<Rightarrow> string option \<Rightarrow> string option" where
  "changed c old = (case c of None \<Rightarrow> old | Some v \<Rightarrow> v)"

definition updateProfile :: "auth_env \<Rightarrow> ident \<Rightarrow> field_change \<Rightarrow> field_change \<Rightarrow> field_change \<Rightarrow> auth_db \<Rightarrow>
  (auth_db, string option) outcome" where
  "updateProfile w uid name company webhookUrl s =
     (let existing = find_account uid s;
          hadUrl = (case existing of None \<Rightarrow> False | Some a \<Rightarrow> truthy (a_webhookUrl a));
          isNew = truthy (changed webhookUrl None) \<and> \<not> hadUrl;
          secret = (if isNew then Some (to_hex (randomBytes w (draws s) 32)) else None);
          s1 = (if isNew then s\<lparr>draws := draws s + 1\<rparr> else s)
      in case existing of
           None \<Rightarrow> throw RecordNotFound s1
         | Some _ \<Rightarrow> return secret (put_account uid (\<lambda>a. a\<lparr>a_name := changed name (a_name a),
             a_company := changed company (a_company a), a_webhookUrl := changed webhookUrl (a_webhookUrl a),
             a_webhookSecret := (if truthy secret then secret else a_webhookSecret a)\<rparr>) s1))"

section \<open>Two-factor enrolment and password change\<close>

definition generateTotpSecret :: "auth_env \<Rightarrow> ident \<Rightarrow> auth_db \<Rightarrow> (auth_db, string) outcome" where
  "generateTotpSecret w uid s = (case find_account uid s of
     None \<Rightarrow> throw BadRequestException s
   | Some a \<Rightarrow>
       if a_totpEnabled a then throw BadRequestException s
       else (let secret = totp_secret (randomBytes w (draws s) 20)
             in return secret (put_account uid (\<lambda>a. a\<lparr>a_totpSecret := Some secret\<rparr>) (s\<lparr>draws := draws s + 1\<rparr>))))"

definition enableTotp :: "auth_env \<Rightarrow> time \<Rightarrow> ident \<Rightarrow> string \<Rightarrow> auth_db \<Rightarrow> (auth_db, unit) outcome" where
  "enableTotp w tnow uid code s = (case find_account uid s of
     None \<Rightarrow> throw BadRequestException s
   | Some a \<Rightarrow>
       if \<not> truthy (a_totpSecret a) then throw BadRequestException s
       else if a_totpEnabled a then throw BadRequestException s
       else if \<not> totpValid w (a_totpSecret a) code tnow then throw UnauthorizedException s
       else return () (put_account uid (\<lambda>a. a\<lparr>a_totpEnabled := True\<rparr>) s))"

definition disableTotp :: "auth_env \<Rightarrow> time \<Rightarrow> ident \<Rightarrow> string \<Rightarrow> auth_db \<Rightarrow> (auth_db, unit) outcome" where
  "disableTotp w tnow uid code s = (case find_account uid s of
     None \<Rightarrow> throw BadRequestException s
   | Some a \<Rightarrow>
       if \<not> a_totpEnabled a then throw BadRequestException s
       else if \<not> totpValid w (a_totpSecret a) code tnow then throw UnauthorizedException s
       else return () (put_account uid (\<lambda>a. a\<lparr>a_totpSecret := None, a_totpEnabled := False\<rparr>) s))"

definition resetPassword :: "auth_env \<Rightarrow> ident \<Rightarrow> string \<Rightarrow> string \<Rightarrow> auth_db \<Rightarrow> (auth_db, unit) outcome" where
  "resetPassword w uid current new s = (case find_account uid s of
     None \<Rightarrow> throw BadRequestException s
   | Some a \<Rightarrow>
       if \<not> truthy (a_passwordHash a) then throw BadRequestException s
       else if \<not> verifyPassword (scrypt w) current (the (a_passwordHash a)) then throw UnauthorizedException s
       else (case validate_password (policy w) new of
               Inl e \<Rightarrow> throw e s
             | Inr _ \<Rightarrow> return () (put_account uid (\<lambda>a. a\<lparr>a_passwordHash :=
                   Some (hashPassword (scrypt w) (randomBytes w (draws s) 16) new)\<rparr>) (s\<lparr>draws := draws s + 1\<rparr>))))"

end
