(* ===== verification/Doubles.thy ===== *)
theory Doubles
  imports JsText Complex_Main
begin

text \<open>
  JavaScript numbers.  \<open>to_double\<close> is the rounding to 53 significant bits, half to even, of an IEEE
  double in the normal range; \<open>toFixed\<close>, \<open>parseFloat\<close> and \<open>Number\<close> follow ECMAScript.  NaN and the
  infinities, which no caller tells apart, are \<open>None\<close>.
\<close>

section \<open>Rounding\<close>

fun bits :: "nat \<Rightarrow> nat" where
  "bits n = (if n = 0 then 0 else Suc (bits (n div 2)))"

declare bits.simps [simp del]

definition binary_exponent :: "rat \<Rightarrow> int" where
  "binary_exponent q =
     (let (n, d) = quotient_of q; e = int (bits (nat n)) - int (bits (nat d))
      in if 2 powi e \<le> q then e else e - 1)"

definition round_half_even :: "rat \<Rightarrow> int" where
  "round_half_even x =
     (let f = \<lfloor>x\<rfloor>; r = x - of_int f
      in if r < 1 / 2 then f else if 1 / 2 < r then f + 1 else if even f then f else f + 1)"

definition to_double :: "rat \<Rightarrow> rat" where
  "to_double q =
     (if q = 0 then 0
      else (let a = \<bar>q\<bar>; ulp = 2 powi (binary_exponent a - 52)
            in sgn q * (of_int (round_half_even (a / ulp)) * ulp)))"

text \<open>
  \<open>parseFloat\<close> of an optional sign, digits, and an optional fraction; \<open>None\<close> is NaN.  What follows the
  longest such prefix is ignored.  An exponent part, which no caller produces, is not modelled.
\<close>

definition parseFloat :: "string \<Rightarrow> rat option" where
  "parseFloat s =
     (let neg = (s \<noteq> [] \<and> hd s = CHR ''-'');
          t = (if neg then tl s else s);
          whole = takeWhile is_digit t;
          rest = dropWhile is_digit t;
          frac = (if rest \<noteq> [] \<and> hd rest = CHR ''.'' then takeWhile is_digit (tl rest) else [])
      in if whole = [] \<and> frac = [] then None
         else Some ((if neg then - 1 else 1) * to_double (of_nat (dec_val (whole @ frac)) / 10 ^ length frac)))"

definition toFixed :: "(rat \<Rightarrow> string) \<Rightarrow> nat \<Rightarrow> rat option \<Rightarrow> string" where
  "toFixed showBig d v = (case v of
     None \<Rightarrow> ''NaN''
   | Some x \<Rightarrow>
       (if 10 ^ 21 \<le> \<bar>x\<bar> then showBig x
        else (let n = nat \<lfloor>\<bar>x\<bar> * 10 ^ d + 1 / 2\<rfloor>;
                  m = padStart (d + 1) (CHR ''0'') (show_nat n);
                  k = length m - d;
                  t = (if d = 0 then m else take k m @ ''.'' @ drop k m)
              in if x < 0 then CHR ''-'' # t else t)))"


section \<open>\<open>Number\<close> of a string\<close>

definition exponent_part :: "string \<Rightarrow> int option" where
  "exponent_part s = (case s of
     [] \<Rightarrow> Some 0
   | c # r \<Rightarrow> if (c = CHR ''e'' \<or> c = CHR ''E'') \<and> r \<noteq> [] then big_int r else None)"

definition radix_digit :: "char \<Rightarrow> nat" where
  "radix_digit c = (if is_digit c then digit_val c else if char_in 97 102 c then of_char c - 87
     else if char_in 65 70 c then of_char c - 55 else 16)"

definition radix_number :: "nat \<Rightarrow> string \<Rightarrow> rat option" where
  "radix_number b s =
     (if s \<noteq> [] \<and> list_all (\<lambda>c. radix_digit c < b) s
      then Some (to_double (of_nat (foldl (\<lambda>a c. b * a + radix_digit c) 0 s))) else None)"

text \<open>A magnitude below half of the smallest positive double reads as 0.\<close>

definition number_of :: "string \<Rightarrow> rat option" where
  "number_of text =
     (let s = trim text
      in if s = [] then Some 0
         else if take 2 s \<in> {''0x'', ''0X''} then radix_number 16 (drop 2 s)
         else if take 2 s \<in> {''0o'', ''0O''} then radix_number 8 (drop 2 s)
         else if take 2 s \<in> {''0b'', ''0B''} then radix_number 2 (drop 2 s)
         else (let sign = (if hd s = CHR ''-'' then - 1 else 1);
                   u = (if hd s = CHR ''-'' \<or> hd s = CHR ''+'' then tl s else s);
                   whole = takeWhile is_digit u; rest = dropWhile is_digit u;
                   dot = (rest \<noteq> [] \<and> hd rest = CHR ''.'');
                   frac = (if dot then takeWhile is_digit (tl rest) else []);
                   tail = (if dot then dropWhile is_digit (tl rest) else rest)
               in if whole @ frac = [] then None
                  else (case exponent_part tail of
                          None \<Rightarrow> None
                        | Some e \<Rightarrow>
                            (let x = of_nat (dec_val (whole @ frac)) * 10 powi (e - int (length frac))
                             in Some (sign * (if x \<le> 2 powi (- 1075) then 0 else to_double x))))))"

definition isSafeInteger :: "rat \<Rightarrow> bool" where
  "isSafeInteger x \<longleftrightarrow> of_int \<lfloor>x\<rfloor> = x \<and> \<bar>x\<bar> < 2 ^ 53"

section \<open>Accuracy\<close>

lemma bits_lower: "0 < n \<Longrightarrow> 2 ^ (bits n - 1) \<le> n"
proof (induction n rule: bits.induct)
  case (1 n)
  show ?case
  proof (cases "n = 1")
    case True
    then show ?thesis by (simp add: bits.simps)
  next
    case False
    with 1(2) have "0 < n div 2" by simp
    with 1 have "2 ^ (bits (n div 2) - 1) \<le> n div 2" by simp
    moreover have "0 < bits (n div 2)" using \<open>0 < n div 2\<close> by (subst bits.simps) simp
    ultimately have "2 ^ bits (n div 2) \<le> 2 * (n div 2)" by (cases "bits (n div 2)") auto
    then show ?thesis using 1(2) by (subst bits.simps) simp
  qed
qed

lemma bits_upper: "n < 2 ^ bits n"
proof (induction n rule: bits.induct)
  case (1 n)
  then show ?case by (cases "n = 0") (subst bits.simps; simp)+
qed

lemma binary_exponent_le:
  assumes "0 < q"
  shows "2 powi binary_exponent q \<le> q"
proof -
  obtain n d where nd: "quotient_of q = (n, d)" by fastforce
  have d: "0 < d" using quotient_of_denom_pos [OF nd] .
  have q: "q = of_int n / of_int d" using quotient_of_div [OF nd] .
  have n: "0 < n" using assms d by (simp add: q zero_less_divide_iff)
  let ?bn = "bits (nat n)" and ?bd = "bits (nat d)"
  have "2 ^ (?bn - 1) \<le> nat n" "nat d < 2 ^ ?bd" using bits_lower [of "nat n"] bits_upper [of "nat d"] n by simp_all
  then have lo: "(2 :: int) ^ (?bn - 1) \<le> n" and hi: "d < 2 ^ ?bd"
    using n d by (simp_all add: le_nat_iff zless_nat_eq_int_zless nat_less_iff)
  have bn: "0 < ?bn" using n by (subst bits.simps) simp
  have "(2 :: rat) powi (int ?bn - int ?bd - 1) = 2 ^ (?bn - 1) / 2 ^ ?bd"
  proof -
    have "int ?bn - int ?bd - 1 = int (?bn - 1) - int ?bd" using bn by simp
    moreover have "(2 :: rat) powi (int (?bn - 1) - int ?bd) = 2 ^ (?bn - 1) / 2 ^ ?bd"
      by (subst power_int_diff) (simp_all only: power_int_of_nat, simp_all)
    ultimately show ?thesis by (simp only:)
  qed
  also have "\<dots> \<le> of_int n / of_int d"
  proof (rule frac_le)
    show "(2 :: rat) ^ (?bn - 1) \<le> of_int n" using lo by (metis of_int_le_iff of_int_numeral of_int_power)
    show "of_int d \<le> (2 :: rat) ^ ?bd" using hi by (metis less_imp_le of_int_le_iff of_int_numeral of_int_power)
  qed (use n d in auto)
  finally show ?thesis by (simp add: binary_exponent_def nd Let_def q [symmetric])
qed

lemma round_half_even_error: "\<bar>of_int (round_half_even x) - x\<bar> \<le> 1 / 2"
proof -
  have "of_int \<lfloor>x\<rfloor> \<le> x" "x < of_int \<lfloor>x\<rfloor> + 1" by linarith+
  then show ?thesis by (auto simp: round_half_even_def Let_def)
qed

lemma round_half_even_nonneg: "0 \<le> x \<Longrightarrow> 0 \<le> round_half_even x"
  by (auto simp: round_half_even_def Let_def)

lemma to_double_error:
  assumes "0 \<le> q"
  shows "\<bar>to_double q - q\<bar> \<le> q / 2 ^ 53" and "0 \<le> to_double q"
proof -
  let ?u = "2 powi (binary_exponent q - 52) :: rat"
  have u: "0 < ?u" by simp
  have "\<bar>to_double q - q\<bar> \<le> q / 2 ^ 53 \<and> 0 \<le> to_double q"
  proof (cases "q = 0")
    case False
    with assms have q: "0 < q" by simp
    then have v: "to_double q = of_int (round_half_even (q / ?u)) * ?u" by (simp add: to_double_def Let_def)
    have "of_int (round_half_even (q / ?u)) * ?u - q = (of_int (round_half_even (q / ?u)) - q / ?u) * ?u"
      using u by (simp only: left_diff_distrib nonzero_divide_eq_eq less_imp_neq [symmetric] divide_self_if times_divide_eq_left) simp
    then have "\<bar>of_int (round_half_even (q / ?u)) * ?u - q\<bar> = \<bar>of_int (round_half_even (q / ?u)) - q / ?u\<bar> * ?u"
      using u by (simp only: abs_mult abs_of_pos)
    also have "\<dots> \<le> 1 / 2 * ?u" by (rule mult_right_mono [OF round_half_even_error]) (use u in simp)
    also have "\<dots> \<le> q / 2 ^ 53"
      using binary_exponent_le [OF q] by (simp add: power_int_diff field_simps)
    finally have "\<bar>to_double q - q\<bar> \<le> q / 2 ^ 53" using v by simp
    moreover have "0 \<le> q / ?u" using q u by (simp add: divide_nonneg_pos)
    ultimately show ?thesis using v u round_half_even_nonneg [of "q / ?u"] by simp
  qed (simp add: to_double_def)
  then show "\<bar>to_double q - q\<bar> \<le> q / 2 ^ 53" and "0 \<le> to_double q" by simp_all
qed


lemma round_to_nearest:
  assumes "\<bar>x - of_nat n\<bar> < (1 / 2 :: rat)"
  shows "nat \<lfloor>x + 1 / 2\<rfloor> = n"
proof -
  have "x - of_nat n < 1 / 2" "- (x - of_nat n) < 1 / 2" using assms unfolding abs_less_iff by simp_all
  then have "\<lfloor>x + 1 / 2\<rfloor> = int n" unfolding floor_eq_iff of_int_of_nat_eq by linarith
  then show ?thesis by simp
qed

lemma round_half_even_int [simp]: "round_half_even (of_int n) = n"
  by (simp add: round_half_even_def)

lemma to_double_of_int:
  assumes "\<bar>n\<bar> < 2 ^ 53"
  shows "to_double (of_int n) = of_int n"
proof (cases "n = 0")
  case False
  let ?q = "of_int \<bar>n\<bar> :: rat" and ?e = "binary_exponent (of_int \<bar>n\<bar>)"
  have q: "0 < ?q" using False by simp
  have "2 powi ?e \<le> ?q" using binary_exponent_le [OF q] .
  also have "?q < 2 powi 53"
  proof -
    have "of_int \<bar>n\<bar> < (of_int (2 ^ 53) :: rat)" using assms by (simp only: of_int_less_iff)
    then show ?thesis by simp
  qed
  finally have "(2 :: rat) powi ?e < 2 powi 53" .
  then have e: "?e < 53" using power_int_increasing [of 53 ?e "2 :: rat"] by (meson not_le one_le_numeral)
  define k where "k = nat (52 - ?e)"
  have ulp: "(2 :: rat) powi (?e - 52) = 1 / 2 ^ k"
  proof -
    have "?e - 52 = - int k" using e by (simp add: k_def)
    then show ?thesis by (simp add: power_int_minus divide_inverse)
  qed
  have "?q / (2 powi (?e - 52)) = of_int (\<bar>n\<bar> * 2 ^ k)" unfolding ulp by simp
  then have "round_half_even (?q / (2 powi (?e - 52))) = \<bar>n\<bar> * 2 ^ k" by (simp only: round_half_even_int)
  moreover have "\<bar>of_int n :: rat\<bar> = ?q" by simp
  ultimately have "to_double (of_int n) = sgn (of_int n) * (of_int (\<bar>n\<bar> * 2 ^ k) * (1 / 2 ^ k))"
    using False unfolding to_double_def Let_def \<open>\<bar>of_int n\<bar> = ?q\<close> ulp by simp
  also have "\<dots> = sgn (of_int n) * ?q" by simp
  also have "\<dots> = of_int n" by (simp add: sgn_if)
  finally show ?thesis .
qed (simp add: to_double_def)

lemma takeWhile_all [simp]: "list_all P s \<Longrightarrow> takeWhile P s = s" "list_all P s \<Longrightarrow> dropWhile P s = []"
  by (induction s) auto

lemma digit_not_space: "is_digit c \<Longrightarrow> \<not> is_space c"
  by (auto simp: is_digit_def is_space_def char_in_def)

lemma digit_not_letter: "is_digit c \<Longrightarrow> c \<noteq> CHR ''x'' \<and> c \<noteq> CHR ''X'' \<and> c \<noteq> CHR ''o'' \<and> c \<noteq> CHR ''O'' \<and> c \<noteq> CHR ''b'' \<and> c \<noteq> CHR ''B''"
  by (auto simp: is_digit_def)

lemma trim_digits: "list_all is_digit s \<Longrightarrow> s \<noteq> [] \<Longrightarrow> trim s = s"
  by (rule trim_no_space) (simp add: list_all_iff digit_not_space)

lemma number_digits:
  assumes "list_all is_digit s" and "s \<noteq> []" and "dec_val s < 2 ^ 53"
  shows "number_of s = Some (of_nat (dec_val s))"
proof -
  have prefix: "take 2 s \<notin> {[CHR ''0'', c], [CHR ''0'', d]}"
    if "\<not> is_digit c" "\<not> is_digit d" for c d
    using assms(1,2) that by (cases s; cases "tl s") auto
  have letters: "\<not> is_digit (CHR ''x'')" "\<not> is_digit (CHR ''X'')" "\<not> is_digit (CHR ''o'')" "\<not> is_digit (CHR ''O'')"
    "\<not> is_digit (CHR ''b'')" "\<not> is_digit (CHR ''B'')"
    by (simp_all add: is_digit_def)
  have sign: "hd s \<noteq> CHR ''-''" "hd s \<noteq> CHR ''+''"
    using assms(1,2) is_digit_not_sign by (cases s; auto)+
  have v: "to_double (of_nat (dec_val s)) = of_nat (dec_val s)"
    using to_double_of_int [of "int (dec_val s)"] assms(3) by simp
  have small: "(of_nat (dec_val s) :: rat) \<le> 2 powi (- 1075) \<longleftrightarrow> dec_val s = 0"
  proof
    assume le: "(of_nat (dec_val s) :: rat) \<le> 2 powi (- 1075)"
    have "(2 :: rat) powi (- 1075) < 2 powi 0" by (rule power_int_strict_increasing) simp_all
    with le have "(of_nat (dec_val s) :: rat) < 1" by (simp del: power_int_minus)
    then show "dec_val s = 0" by simp
  qed simp
  show ?thesis
    using assms(1,2) prefix letters sign
    by (simp add: number_of_def trim_digits exponent_part_def small v Let_def)
qed

lemma number_show: "0 \<le> n \<Longrightarrow> n < 2 ^ 53 \<Longrightarrow> number_of (show_int n) = Some (of_int n)"
  using number_digits [of "show_nat (nat n)"] by (simp add: show_int_def nat_less_iff)

end
