(* ===== verification/Cache.thy ===== *)
theory Cache
  imports Prelude "HOL-Library.AList"
begin

text \<open>
  \<^verbatim>\<open>common/cache/cache.service.ts\<close>: the cache-aside store in both of its modes, and what a client may rely
  on.  The in-process mode is a JavaScript \<open>Map\<close>, here the association list of its entries; the Redis
  mode is a parameter, together with the JSON conversions it needs.
\<close>

section \<open>The store in process\<close>

record 'v cache_entry =
  en_value :: 'v
  en_expiresAt :: time

type_synonym 'v mem_store = "(string \<times> 'v cache_entry) list"

definition mem_get :: "time \<Rightarrow> string \<Rightarrow> 'v mem_store \<Rightarrow> 'v option \<times> 'v mem_store" where
  "mem_get t k m = (case map_of m k of
     None \<Rightarrow> (None, m)
   | Some e \<Rightarrow> if en_expiresAt e < t then (None, AList.delete k m) else (Some (en_value e), m))"

definition mem_set :: "time \<Rightarrow> string \<Rightarrow> 'v \<Rightarrow> int \<Rightarrow> 'v mem_store \<Rightarrow> 'v mem_store" where
  "mem_set t k v ttl m = AList.update k \<lparr>en_value = v, en_expiresAt = t + ttl * 1000\<rparr> m"

definition mem_del :: "string \<Rightarrow> 'v mem_store \<Rightarrow> 'v mem_store" where
  "mem_del k m = AList.delete k m"

text \<open>The sweep deletes while it walks over the entries.\<close>

definition evictExpired :: "time \<Rightarrow> 'v mem_store \<Rightarrow> 'v mem_store" where
  "evictExpired t m = fold (\<lambda>(k, e) m. if en_expiresAt e < t then AList.delete k m else m) m m"

section \<open>The service\<close>

text \<open>
  \<open>redis_get\<close> answers \<open>None\<close> for a missing key; \<open>parse\<close> is \<open>JSON.parse\<close>, \<open>None\<close> when it throws, and then
  the raw string itself is the value.
\<close>

record ('r, 'v) redis =
  redis_get :: "string \<Rightarrow> 'r \<Rightarrow> string option"
  redis_set :: "string \<Rightarrow> string \<Rightarrow> int \<Rightarrow> 'r \<Rightarrow> 'r"
  redis_del :: "string \<Rightarrow> 'r \<Rightarrow> 'r"
  redis_flush :: "'r \<Rightarrow> 'r"
  stringify :: "'v \<Rightarrow> string"
  parse :: "string \<Rightarrow> 'v option"
  raw_value :: "string \<Rightarrow> 'v"

record ('r, 'v) cache =
  useRedis :: bool
  server :: 'r
  memStore :: "'v mem_store"

definition cache_get :: "('r, 'v) redis \<Rightarrow> time \<Rightarrow> string \<Rightarrow> ('r, 'v) cache \<Rightarrow> 'v option \<times> ('r, 'v) cache" where
  "cache_get r t k c =
     (if useRedis c
      then (case redis_get r k (server c) of
              None \<Rightarrow> (None, c)
            | Some raw \<Rightarrow> (Some (case parse r raw of None \<Rightarrow> raw_value r raw | Some v \<Rightarrow> v), c))
      else (let (v, m) = mem_get t k (memStore c) in (v, c\<lparr>memStore := m\<rparr>)))"

definition cache_set :: "('r, 'v) redis \<Rightarrow> time \<Rightarrow> string \<Rightarrow> 'v \<Rightarrow> int \<Rightarrow> ('r, 'v) cache \<Rightarrow> ('r, 'v) cache" where
  "cache_set r t k v ttl c =
     (if useRedis c then c\<lparr>server := redis_set r k (stringify r v) ttl (server c)\<rparr>
      else c\<lparr>memStore := mem_set t k v ttl (memStore c)\<rparr>)"

definition cache_del :: "('r, 'v) redis \<Rightarrow> string \<Rightarrow> ('r, 'v) cache \<Rightarrow> ('r, 'v) cache" where
  "cache_del r k c =
     (if useRedis c then c\<lparr>server := redis_del r k (server c)\<rparr> else c\<lparr>memStore := mem_del k (memStore c)\<rparr>)"

definition cache_flush :: "('r, 'v) redis \<Rightarrow> ('r, 'v) cache \<Rightarrow> ('r, 'v) cache" where
  "cache_flush r c =
     (if useRedis c then c\<lparr>server := redis_flush r (server c)\<rparr> else c\<lparr>memStore := []\<rparr>)"

text \<open>\<open>onModuleInit\<close>: Redis is used when it is configured and the connection succeeds.\<close>

definition cache_init :: "string option \<Rightarrow> bool \<Rightarrow> 'r \<Rightarrow> ('r, 'v) cache" where
  "cache_init url connects r = \<lparr>useRedis = (truthy url \<and> connects), server = r, memStore = []\<rparr>"

section \<open>The abstract store\<close>

text \<open>What the store holds at a time: a partial map, from which entries disappear as time passes.\<close>

definition view :: "time \<Rightarrow> 'v mem_store \<Rightarrow> string \<rightharpoonup> 'v" where
  "view t m k = (case map_of m k of
     None \<Rightarrow> None | Some e \<Rightarrow> if en_expiresAt e < t then None else Some (en_value e))"

lemma view_get: "fst (mem_get t k m) = view t m k"
  by (simp add: mem_get_def view_def split: option.split)

lemma view_after_get: "t \<le> t' \<Longrightarrow> view t' (snd (mem_get t k m)) = view t' m"
  by (auto simp: mem_get_def view_def delete_conv' fun_eq_iff split: option.split)

lemma view_set:
  "view t' (mem_set t k v ttl m) = (view t' m)(k := if t + ttl * 1000 < t' then None else Some v)"
  by (auto simp: mem_set_def view_def update_conv' fun_eq_iff)

lemma view_del: "view t (mem_del k m) = (view t m)(k := None)"
  by (auto simp: mem_del_def view_def delete_conv' fun_eq_iff)

lemma view_ages: "t \<le> t' \<Longrightarrow> view t' m k = Some v \<Longrightarrow> view t m k = Some v"
  by (auto simp: view_def split: option.splits if_splits)

lemma view_init [simp]: "view t [] = Map.empty"
  by (simp add: view_def fun_eq_iff)

lemma evict_keeps:
  assumes "distinct (map fst m)" and "set es \<subseteq> set m" and "\<And>k. map_of n k = map_of m k \<or> map_of n k = None \<and> (\<exists>e. map_of m k = Some e \<and> en_expiresAt e < t)"
  shows "map_of (fold (\<lambda>(k, e) m. if en_expiresAt e < t then AList.delete k m else m) es n) k = map_of m k \<or>
    map_of (fold (\<lambda>(k, e) m. if en_expiresAt e < t then AList.delete k m else m) es n) k = None \<and>
      (\<exists>e. map_of m k = Some e \<and> en_expiresAt e < t)"
  using assms(2,3)
proof (induction es arbitrary: n)
  case Nil
  then show ?case by simp
next
  case (Cons p es)
  obtain k' e where p: "p = (k', e)" by fastforce
  have "map_of m k' = Some e" using Cons.prems(1) assms(1) p by simp
  then have "map_of (if en_expiresAt e < t then AList.delete k' n else n) j = map_of m j \<or>
      map_of (if en_expiresAt e < t then AList.delete k' n else n) j = None \<and> (\<exists>e. map_of m j = Some e \<and> en_expiresAt e < t)" for j
    using Cons.prems(2) [of j] by (auto simp: delete_conv')
  from Cons.IH [OF _ this] Cons.prems(1) show ?case by (simp add: p)
qed

lemma view_evict: "distinct (map fst m) \<Longrightarrow> t \<le> t' \<Longrightarrow> view t' (evictExpired t m) = view t' m"
proof
  fix k assume "distinct (map fst m)" and t: "t \<le> t'"
  then have "map_of (evictExpired t m) k = map_of m k \<or>
      map_of (evictExpired t m) k = None \<and> (\<exists>e. map_of m k = Some e \<and> en_expiresAt e < t)"
    unfolding evictExpired_def by (intro evict_keeps) auto
  with t show "view t' (evictExpired t m) k = view t' m k" by (auto simp: view_def)
qed

section \<open>The contract of a cache\<close>

text \<open>
  What a cache-aside client needs.  \<open>look t m\<close> is the content at time \<open>t\<close>: reading tells it and
  keeps it, writing sets one key for a while, deleting clears one key, and waiting can only lose keys.
\<close>

locale cache_store =
  fixes look :: "time \<Rightarrow> 'm \<Rightarrow> string \<rightharpoonup> 'v"
    and get :: "time \<Rightarrow> string \<Rightarrow> 'm \<Rightarrow> 'v option \<times> 'm"
    and set_key :: "time \<Rightarrow> string \<Rightarrow> 'v \<Rightarrow> int \<Rightarrow> 'm \<Rightarrow> 'm"
    and del :: "string \<Rightarrow> 'm \<Rightarrow> 'm"
  assumes get_look: "fst (get t k m) = look t m k"
    and get_keeps: "t \<le> t' \<Longrightarrow> look t' (snd (get t k m)) = look t' m"
    and set_look: "look t' (set_key t k v ttl m) = (look t' m)(k := if t + ttl * 1000 < t' then None else Some v)"
    and del_look: "look t (del k m) = (look t m)(k := None)"
    and ages: "t \<le> t' \<Longrightarrow> look t' m k = Some v \<Longrightarrow> look t m k = Some v"
begin

text \<open>Cached values agree with a source, for the keys of one client.\<close>

definition coherent :: "time \<Rightarrow> (string \<Rightarrow> string) \<Rightarrow> (string \<Rightarrow> 'v) \<Rightarrow> 'm \<Rightarrow> bool" where
  "coherent t key source m \<longleftrightarrow> (\<forall>x v. look t m (key x) = Some v \<longrightarrow> v = source x)"

lemma coherentD: "coherent t key source m \<Longrightarrow> look t m (key x) = Some v \<Longrightarrow> v = source x"
  by (simp add: coherent_def)

lemma coherent_later: "coherent t key source m \<Longrightarrow> t \<le> t' \<Longrightarrow> coherent t' key source m"
  using ages by (fastforce simp: coherent_def)

lemma coherent_get: "coherent t key source m \<Longrightarrow> coherent t key source (snd (get t k m))"
  by (simp add: coherent_def get_keeps)

lemma coherent_fill:
  assumes "coherent t key source m" and "inj key"
  shows "coherent t key source (set_key t (key x) (source x) ttl m)"
  using assms by (auto simp: coherent_def set_look dest: injD)

lemma coherent_foreign:
  "coherent t key source m \<Longrightarrow> k \<notin> range key \<Longrightarrow> coherent t key source (set_key t k v ttl m)"
  by (auto simp: coherent_def set_look)

lemma coherent_invalidate:
  assumes "coherent t key source m" and "inj key"
  shows "coherent t key (source(x := v)) (del (key x) m)"
  using assms by (auto simp: coherent_def del_look dest: injD)

end

interpretation mem: cache_store view mem_get mem_set mem_del
  by unfold_locales (simp_all add: view_get view_after_get view_set view_del view_ages)

lemma useRedis_keeps [simp]:
  "useRedis (snd (cache_get r t k c)) = useRedis c" "useRedis (cache_set r t k v ttl c) = useRedis c"
  "useRedis (cache_del r k c) = useRedis c"
  by (auto simp: cache_get_def cache_set_def cache_del_def split: option.split prod.split)

lemma memory_mode [simp]:
  assumes "\<not> useRedis c"
  shows "fst (cache_get r t k c) = fst (mem_get t k (memStore c))"
    "memStore (snd (cache_get r t k c)) = snd (mem_get t k (memStore c))"
    "memStore (cache_set r t k v ttl c) = mem_set t k v ttl (memStore c)"
    "memStore (cache_del r k c) = mem_del k (memStore c)"
  using assms by (simp_all add: cache_get_def cache_set_def cache_del_def split_beta)

end
