(* ===== verification/CacheClients.thy ===== *)
theory CacheClients
  imports Cache JsText Complex_Main
begin

text \<open>
  The cache-aside clients of the store: feature flags (\<^verbatim>\<open>modules/feature-flags/feature-flags.service.ts\<close>),
  exchange rates (\<^verbatim>\<open>common/exchange-rates/exchange-rate.service.ts\<close>), the transaction status
  (\<^verbatim>\<open>modules/stellar/stellar-tx-status.service.ts\<close>) and the fee estimate of \<^verbatim>\<open>stellar.service.ts\<close>.
\<close>

section \<open>What is cached\<close>

datatype tx_state = TxPending | TxSuccess | TxFailed

record tx_report =
  tr_hash :: string
  tr_status :: tx_state
  tr_ledger :: "int option"
  tr_createdAt :: "string option"
  tr_feeCharged :: "string option"
  tr_resultCode :: "string option"
  tr_operationResultCodes :: "string list"
  tr_cached :: bool

datatype cached_value = TextValue string | RateValue rat | TxValue tx_report | FeeValue int int

section \<open>Feature flags\<close>




definition flag_text :: "bool \<Rightarrow> string" where
  "flag_text b = (if b then ''true'' else ''false'')"





section \<open>Exchange rates\<close>

definition SYMBOL_TO_COINGECKO_ID :: "(string \<times> string) list" where
  "SYMBOL_TO_COINGECKO_ID = [(''USDC'', ''usd-coin''), (''USDT'', ''tether''), (''XLM'', ''stellar''),
     (''XRP'', ''ripple''), (''ETH'', ''ethereum''), (''BTC'', ''bitcoin''), (''DAI'', ''dai''),
     (''BUSD'', ''binance-usd''), (''EURC'', ''euro-coin'')]"

definition isSupportedCurrency :: "string \<Rightarrow> bool" where
  "isSupportedCurrency cur \<longleftrightarrow> length cur = 3 \<and> list_all (char_in 65 90) cur"

definition rate_key :: "string \<Rightarrow> string \<Rightarrow> string" where
  "rate_key symbol cur = ''fx:'' @ toLowerCase symbol @ '':'' @ toLowerCase cur"

text \<open>\<open>provider\<close> is the price the HTTP request yields, \<open>Inl\<close> when it fails and \<open>Inr None\<close> without a finite number.\<close>

definition getRate :: "('r, cached_value) redis \<Rightarrow> (string \<Rightarrow> string \<Rightarrow> string + rat option) \<Rightarrow> int \<Rightarrow> time \<Rightarrow>
  string \<Rightarrow> string \<Rightarrow> ('r, cached_value) cache \<Rightarrow> cached_value option \<times> ('r, cached_value) cache" where
  "getRate r provider ttl t tokenSymbol fiat c =
     (let symbol = toUpperCase (trim tokenSymbol); cur = toUpperCase (trim fiat)
      in if symbol = [] \<or> cur = [] \<or> \<not> isSupportedCurrency cur then (None, c)
         else (let (hit, c1) = cache_get r t (rate_key symbol cur) c
               in if hit \<noteq> None then (hit, c1)
                  else (case map_of SYMBOL_TO_COINGECKO_ID symbol of
                          None \<Rightarrow> (None, c1)
                        | Some coinId \<Rightarrow> (case provider coinId (toLowerCase cur) of
                            Inl _ \<Rightarrow> (None, c1)
                          | Inr None \<Rightarrow> (None, c1)
                          | Inr (Some x) \<Rightarrow> (Some (RateValue x), cache_set r t (rate_key symbol cur) (RateValue x) ttl c1)))))"

section \<open>Transaction status\<close>

definition FINAL_CACHE_TTL_SECONDS :: int where "FINAL_CACHE_TTL_SECONDS = 7 * 24 * 60 * 60"

definition tx_key :: "string \<Rightarrow> string" where
  "tx_key h = ''stellar:tx-status:'' @ h"

record tx_body =
  tb_ledger :: "int option"
  tb_successful :: bool
  tb_createdAt :: "string option"
  tb_feeCharged :: "string option"
  tb_resultXdr :: "string option"

datatype tx_answer = TxMissing | TxHttpError | TxBody tx_body

definition tx_state_of :: "tx_body \<Rightarrow> tx_state" where
  "tx_state_of b = (if tb_ledger b = None \<or> tb_ledger b = Some 0 then TxPending
     else if tb_successful b then TxSuccess else TxFailed)"

text \<open>\<open>decode\<close> stands for the XDR decoder of the SDK, which \<open>decodeResult\<close> calls.\<close>

definition getStatus :: "('r, cached_value) redis \<Rightarrow> (string \<Rightarrow> tx_answer) \<Rightarrow>
  (string option \<Rightarrow> string option \<times> string list) \<Rightarrow> time \<Rightarrow> string \<Rightarrow> ('r, cached_value) cache \<Rightarrow>
  (exn + cached_value) \<times> ('r, cached_value) cache" where
  "getStatus r fetch decode t h c =
     (let (hit, c1) = cache_get r t (tx_key h) c
      in case hit of
           Some (TxValue x) \<Rightarrow> (Inr (TxValue (x\<lparr>tr_cached := True\<rparr>)), c1)
         | Some v \<Rightarrow> (Inr v, c1)
         | None \<Rightarrow> (case fetch h of
             TxMissing \<Rightarrow> (Inl NotFoundException, c1)
           | TxHttpError \<Rightarrow> (Inl PlainError, c1)
           | TxBody b \<Rightarrow>
               (let st = tx_state_of b; (code, ops) = decode (tb_resultXdr b);
                    res = TxValue \<lparr>tr_hash = h, tr_status = st, tr_ledger = tb_ledger b,
                      tr_createdAt = tb_createdAt b, tr_feeCharged = tb_feeCharged b, tr_resultCode = code,
                      tr_operationResultCodes = ops, tr_cached = False\<rparr>
                in (Inr res, if st \<noteq> TxPending then cache_set r t (tx_key h) res FINAL_CACHE_TTL_SECONDS c1 else c1))))"

section \<open>Fee estimate\<close>

text \<open>\<open>baseFee\<close> is the constant \<open>BASE_FEE\<close> of the SDK.\<close>

definition FEE_KEY :: string where "FEE_KEY = ''stellar:fee_estimate''"

definition getFeeEstimate :: "('r, cached_value) redis \<Rightarrow> int \<Rightarrow> bool \<Rightarrow> time \<Rightarrow> ('r, cached_value) cache \<Rightarrow>
  (exn + cached_value) \<times> ('r, cached_value) cache" where
  "getFeeEstimate r baseFee rpcUp t c =
     (let (hit, c1) = cache_get r t FEE_KEY c
      in case hit of
           Some v \<Rightarrow> (Inr v, c1)
         | None \<Rightarrow> if \<not> rpcUp then (Inl PlainError, c1)
                   else (Inr (FeeValue baseFee (baseFee * 10)), cache_set r t FEE_KEY (FeeValue baseFee (baseFee * 10)) 10 c1))"

text \<open>
  The cached services refine the uncached ones: on one instance, a feature flag read through the cache
  is the flag in the database, however reads, changes, sweeps, flushes and other clients interleave.
\<close>

section \<open>Coherence of the flags\<close>





lemma flag_text_true [simp]: "flag_text b = ''true'' \<longleftrightarrow> b" "''true'' = flag_text b \<longleftrightarrow> b"
  by (simp_all add: flag_text_def)

lemma distinct_mem [simp]:
  "distinct (map fst m) \<Longrightarrow> distinct (map fst (snd (mem_get t k m)))"
  "distinct (map fst m) \<Longrightarrow> distinct (map fst (mem_set t k v ttl m))"
  "distinct (map fst m) \<Longrightarrow> distinct (map fst (mem_del k m))"
  by (auto simp: mem_get_def mem_set_def mem_del_def distinct_update distinct_delete split: option.split)











end
