(* ===== verification/SystemConfig.thy ===== *)
theory SystemConfig
  imports Doubles
begin

text \<open>
  The runtime configuration store (\<^verbatim>\<open>common/system-config/system-config.service.ts\<close> and
  \<^verbatim>\<open>system-config.definitions.ts\<close>): settings with a type and bounds, resolved from the administrator's
  override, the environment, and a default; every replica caches the overrides and reloads them.
\<close>

section \<open>Definitions of the settings\<close>

datatype cfg_type = IntegerSetting | BooleanSetting | StringSetting | StroopsSetting

datatype cfg_value = CInt int | CBool bool | CText string

record cfg_definition =
  cd_key :: string
  cd_type :: cfg_type
  cd_envKey :: "string option"
  cd_default :: cfg_value
  cd_min :: "int option"
  cd_max :: "int option"
  cd_allowed :: "string list option"
  cd_maxLength :: "nat option"

definition integer_setting :: "string \<Rightarrow> string \<Rightarrow> int \<Rightarrow> int \<Rightarrow> int \<Rightarrow> cfg_definition" where
  "integer_setting key env dflt lo hi = \<lparr>cd_key = key, cd_type = IntegerSetting, cd_envKey = Some env, cd_default = CInt dflt,
     cd_min = Some lo, cd_max = Some hi, cd_allowed = None, cd_maxLength = None\<rparr>"

definition SYSTEM_CONFIG_DEFINITIONS :: "cfg_definition list" where
  "SYSTEM_CONFIG_DEFINITIONS =
     [integer_setting ''disputes.slaAssignmentHours'' ''DISPUTE_SLA_ASSIGNMENT_HOURS'' 24 1 720,
      integer_setting ''disputes.slaReviewHours'' ''DISPUTE_SLA_REVIEW_HOURS'' 72 1 720,
      integer_setting ''disputes.slaAppealHours'' ''DISPUTE_SLA_APPEAL_HOURS'' 72 1 720,
      integer_setting ''disputes.appealWindowHours'' ''DISPUTE_APPEAL_WINDOW_HOURS'' 72 0 720,
      integer_setting ''milestones.placementReminderDays'' ''PLACEMENT_MILESTONE_REMINDER_DAYS'' 7 0 365,
      \<lparr>cd_key = ''stellar.balanceAlertThresholdStroops'', cd_type = StroopsSetting,
       cd_envKey = Some ''STELLAR_BALANCE_ALERT_THRESHOLD_STROOPS'', cd_default = CText ''10000000'',
       cd_min = Some 0, cd_max = Some 1000000000000000, cd_allowed = None, cd_maxLength = None\<rparr>]"

section \<open>Validation\<close>

text \<open>A JSON value of a request, as far as the validation looks at it.\<close>

datatype json_input = JNumber rat | JBool bool | JText string | JOther

definition in_bounds :: "cfg_definition \<Rightarrow> int \<Rightarrow> bool" where
  "in_bounds d n \<longleftrightarrow> (\<forall>lo \<in> set_option (cd_min d). lo \<le> n) \<and> (\<forall>hi \<in> set_option (cd_max d). n \<le> hi)"

text \<open>\<^verbatim>\<open>/^(0|[1-9]\d{0,18})$/\<close>\<close>

definition stroops_text :: "string \<Rightarrow> bool" where
  "stroops_text s \<longleftrightarrow> s = ''0'' \<or> s \<noteq> [] \<and> char_in 49 57 (hd s) \<and> list_all is_digit s \<and> length s \<le> 19"

definition validate_integer :: "cfg_definition \<Rightarrow> json_input \<Rightarrow> cfg_value option" where
  "validate_integer d v = (case v of
     JNumber x \<Rightarrow> if isSafeInteger x \<and> in_bounds d \<lfloor>x\<rfloor> then Some (CInt \<lfloor>x\<rfloor>) else None
   | _ \<Rightarrow> None)"

definition validate_stroops :: "cfg_definition \<Rightarrow> json_input \<Rightarrow> cfg_value option" where
  "validate_stroops d v =
     (let text = (case v of JNumber x \<Rightarrow> if isSafeInteger x then Some (show_int \<lfloor>x\<rfloor>) else None
                  | JText s \<Rightarrow> Some s | _ \<Rightarrow> None)
      in case text of
           None \<Rightarrow> None
         | Some s \<Rightarrow> if stroops_text s \<and> in_bounds d (int (dec_val s)) then Some (CText s) else None)"

definition validate_string :: "cfg_definition \<Rightarrow> json_input \<Rightarrow> cfg_value option" where
  "validate_string d v = (case v of
     JText s \<Rightarrow> if (\<forall>xs \<in> set_option (cd_allowed d). s \<in> set xs) \<and> (\<forall>n \<in> set_option (cd_maxLength d). length s \<le> n)
                then Some (CText s) else None
   | _ \<Rightarrow> None)"

definition validateSystemConfigValue :: "cfg_definition \<Rightarrow> json_input \<Rightarrow> cfg_value option" where
  "validateSystemConfigValue d v = (case cd_type d of
     IntegerSetting \<Rightarrow> validate_integer d v
   | StroopsSetting \<Rightarrow> validate_stroops d v
   | BooleanSetting \<Rightarrow> (case v of JBool b \<Rightarrow> Some (CBool b) | _ \<Rightarrow> None)
   | StringSetting \<Rightarrow> validate_string d v)"

definition serializeSystemConfigValue :: "cfg_value \<Rightarrow> string" where
  "serializeSystemConfigValue v = (case v of
     CInt n \<Rightarrow> show_int n | CBool b \<Rightarrow> if b then ''true'' else ''false'' | CText s \<Rightarrow> s)"

definition boolean_candidate :: "string \<Rightarrow> json_input" where
  "boolean_candidate s =
     (if toLowerCase s \<in> {''true'', ''1'', ''yes''} then JBool True
      else if toLowerCase s \<in> {''false'', ''0'', ''no''} then JBool False else JText s)"

text \<open>The raw value is a string of the database or the environment; \<open>JOther\<close> is NaN.\<close>

definition parseSystemConfigValue :: "cfg_definition \<Rightarrow> string option \<Rightarrow> cfg_value option" where
  "parseSystemConfigValue d raw =
     (if \<not> truthy raw then None
      else (let s = trim (the raw)
            in validateSystemConfigValue d (case cd_type d of
                 IntegerSetting \<Rightarrow> (case number_of s of None \<Rightarrow> JOther | Some x \<Rightarrow> JNumber x)
               | BooleanSetting \<Rightarrow> boolean_candidate s
               | _ \<Rightarrow> JText s)))"

section \<open>The service\<close>

datatype cfg_source = SourceOverride | SourceEnv | SourceDefault

record config_row =
  cr_key :: string
  cr_value :: string
  cr_updatedAt :: time

record config_audit =
  cu_key :: string
  cu_action :: string
  cu_old :: "cfg_value \<times> cfg_source"
  cu_new :: cfg_value
  cu_reason :: string
  cu_changedBy :: ident

record config_db =
  configRows :: "config_row list"
  configAudits :: "config_audit list"

type_synonym overrides = "string \<rightharpoonup> cfg_value \<times> time"

type_synonym environment = "string \<Rightarrow> string option"

definition find_definition :: "string \<Rightarrow> exn + cfg_definition" where
  "find_definition key = (case List.find (\<lambda>d. cd_key d = key) SYSTEM_CONFIG_DEFINITIONS of
     None \<Rightarrow> Inl NotFoundException | Some d \<Rightarrow> Inr d)"

definition fallback :: "environment \<Rightarrow> cfg_definition \<Rightarrow> cfg_value \<times> cfg_source" where
  "fallback env d =
     (let fromEnv = (case cd_envKey d of None \<Rightarrow> None
                     | Some k \<Rightarrow> if k = [] then None else parseSystemConfigValue d (env k))
      in case fromEnv of Some v \<Rightarrow> (v, SourceEnv) | None \<Rightarrow> (cd_default d, SourceDefault))"

definition resolve :: "environment \<Rightarrow> overrides \<Rightarrow> cfg_definition \<Rightarrow> cfg_value \<times> cfg_source" where
  "resolve env ov d = (case ov (cd_key d) of Some (v, _) \<Rightarrow> (v, SourceOverride) | None \<Rightarrow> fallback env d)"

definition get_setting :: "environment \<Rightarrow> overrides \<Rightarrow> string \<Rightarrow> exn + cfg_value" where
  "get_setting env ov key = (case find_definition key of Inl x \<Rightarrow> Inl x | Inr d \<Rightarrow> Inr (fst (resolve env ov d)))"

definition getBigInt :: "environment \<Rightarrow> overrides \<Rightarrow> string \<Rightarrow> exn + int" where
  "getBigInt env ov key = (case get_setting env ov key of
     Inl x \<Rightarrow> Inl x
   | Inr v \<Rightarrow> (case (case v of CInt n \<Rightarrow> Some n | CBool b \<Rightarrow> Some (if b then 1 else 0) | CText s \<Rightarrow> big_int s) of
       None \<Rightarrow> Inl PlainError | Some n \<Rightarrow> Inr n))"

record config_view =
  vw_key :: string
  vw_value :: cfg_value
  vw_source :: cfg_source
  vw_updatedAt :: "time option"

definition view_setting :: "environment \<Rightarrow> overrides \<Rightarrow> cfg_definition \<Rightarrow> config_view" where
  "view_setting env ov d = \<lparr>vw_key = cd_key d, vw_value = fst (resolve env ov d), vw_source = snd (resolve env ov d),
     vw_updatedAt = map_option snd (ov (cd_key d))\<rparr>"

definition list_settings :: "environment \<Rightarrow> overrides \<Rightarrow> config_view list" where
  "list_settings env ov = map (view_setting env ov) SYSTEM_CONFIG_DEFINITIONS"

text \<open>\<open>refresh\<close> builds the new map from the rows of known keys, in the order the query returns them.\<close>

definition load_row :: "config_row \<Rightarrow> overrides \<Rightarrow> overrides" where
  "load_row r ov = (case find_definition (cr_key r) of
     Inl _ \<Rightarrow> ov
   | Inr d \<Rightarrow> (case parseSystemConfigValue d (Some (cr_value r)) of
       None \<Rightarrow> ov | Some v \<Rightarrow> ov(cr_key r \<mapsto> (v, cr_updatedAt r))))"

definition refresh :: "config_db \<Rightarrow> overrides" where
  "refresh s = fold load_row
     (filter (\<lambda>r. cr_key r \<in> set (map cd_key SYSTEM_CONFIG_DEFINITIONS)) (configRows s)) Map.empty"

definition upsert_row :: "string \<Rightarrow> string \<Rightarrow> time \<Rightarrow> config_row list \<Rightarrow> config_row list" where
  "upsert_row key v t rows =
     (if list_ex (\<lambda>r. cr_key r = key) rows
      then update_where (\<lambda>r. cr_key r = key) (\<lambda>r. r\<lparr>cr_value := v, cr_updatedAt := t\<rparr>) rows
      else rows @ [\<lparr>cr_key = key, cr_value = v, cr_updatedAt = t\<rparr>])"

text \<open>The transaction of the database and the write to the cache of this replica.\<close>

definition set_setting :: "environment \<Rightarrow> time \<Rightarrow> string \<Rightarrow> json_input \<Rightarrow> ident \<Rightarrow> string \<Rightarrow> config_db \<times> overrides \<Rightarrow>
  (config_db \<times> overrides, config_view) outcome" where
  "set_setting env t key raw adminId reason p = (case find_definition key of
     Inl x \<Rightarrow> throw x p
   | Inr d \<Rightarrow> (case validateSystemConfigValue d raw of
       None \<Rightarrow> throw BadRequestException p
     | Some v \<Rightarrow>
         (let (s, ov) = p; previous = resolve env ov d;
              s' = s\<lparr>configRows := upsert_row key (serializeSystemConfigValue v) t (configRows s),
                     configAudits := configAudits s @ [\<lparr>cu_key = key, cu_action = ''SYSTEM_CONFIG_UPDATED'',
                       cu_old = previous, cu_new = v, cu_reason = reason, cu_changedBy = adminId\<rparr>]\<rparr>;
              ov' = ov(key \<mapsto> (v, t))
          in return (view_setting env ov' d) (s', ov'))))"

definition reset_setting :: "environment \<Rightarrow> string \<Rightarrow> ident \<Rightarrow> string \<Rightarrow> config_db \<times> overrides \<Rightarrow>
  (config_db \<times> overrides, config_view) outcome" where
  "reset_setting env key adminId reason p = (case find_definition key of
     Inl x \<Rightarrow> throw x p
   | Inr d \<Rightarrow>
       (let (s, ov) = p; previous = resolve env ov d;
            s' = s\<lparr>configRows := delete_where (\<lambda>r. cr_key r = key) (configRows s),
                   configAudits := configAudits s @ [\<lparr>cu_key = key, cu_action = ''SYSTEM_CONFIG_RESET'',
                     cu_old = previous, cu_new = fst (fallback env d), cu_reason = reason, cu_changedBy = adminId\<rparr>]\<rparr>;
            ov' = ov(key := None)
        in return (view_setting env ov' d) (s', ov')))"

section \<open>Well-typed values\<close>

definition well_typed :: "cfg_definition \<Rightarrow> cfg_value \<Rightarrow> bool" where
  "well_typed d v \<longleftrightarrow> (case cd_type d of
     IntegerSetting \<Rightarrow> (\<exists>n. v = CInt n \<and> \<bar>n\<bar> < 2 ^ 53 \<and> in_bounds d n)
   | StroopsSetting \<Rightarrow> (\<exists>s. v = CText s \<and> stroops_text s \<and> in_bounds d (int (dec_val s)))
   | BooleanSetting \<Rightarrow> (\<exists>b. v = CBool b)
   | StringSetting \<Rightarrow> (\<exists>s. v = CText s \<and> (\<forall>xs \<in> set_option (cd_allowed d). s \<in> set xs) \<and>
       (\<forall>n \<in> set_option (cd_maxLength d). length s \<le> n)))"

lemma safe_integer: "isSafeInteger x \<Longrightarrow> of_int \<lfloor>x\<rfloor> = x \<and> \<bar>\<lfloor>x\<rfloor>\<bar> < 2 ^ 53"
proof -
  assume "isSafeInteger x"
  then have x: "of_int \<lfloor>x\<rfloor> = x" "\<bar>x\<bar> < 2 ^ 53" by (simp_all add: isSafeInteger_def)
  have "\<bar>of_int \<lfloor>x\<rfloor> :: rat\<bar> < of_int (2 ^ 53)" unfolding x(1) using x(2) by simp
  then have "(of_int \<bar>\<lfloor>x\<rfloor>\<bar> :: rat) < of_int (2 ^ 53)" by simp
  then show ?thesis using x(1) by (simp only: of_int_less_iff)
qed

lemma validated_is_well_typed: "validateSystemConfigValue d raw = Some v \<Longrightarrow> well_typed d v"
  by (auto simp: validateSystemConfigValue_def validate_integer_def validate_stroops_def validate_string_def
      well_typed_def Let_def dest: safe_integer split: cfg_type.splits json_input.splits option.splits if_splits)

lemma parsed_is_well_typed: "parseSystemConfigValue d raw = Some v \<Longrightarrow> well_typed d v"
  by (auto simp: parseSystemConfigValue_def Let_def dest: validated_is_well_typed split: if_splits)

text \<open>
  The configuration store as a replicated state: one database, any number of replicas with a cache of
  overrides each.  Whatever administrators send and whatever the environment and the table contain, every
  effective value has the type and bounds of its setting; and a saved value reaches every replica that
  reloads.
\<close>

section \<open>The defined settings\<close>

lemma settings_simple:
  assumes "d \<in> set SYSTEM_CONFIG_DEFINITIONS"
  shows "cd_type d = IntegerSetting \<or> cd_type d = StroopsSetting" and "\<exists>lo. cd_min d = Some lo \<and> 0 \<le> lo"
  using assms by (auto simp: SYSTEM_CONFIG_DEFINITIONS_def integer_setting_def)

lemma default_well_typed: "d \<in> set SYSTEM_CONFIG_DEFINITIONS \<Longrightarrow> well_typed d (cd_default d)"
  by (auto simp: SYSTEM_CONFIG_DEFINITIONS_def integer_setting_def well_typed_def in_bounds_def stroops_text_def
      char_in_def is_digit_def digit_val_def)

lemma find_definition_of: "d \<in> set SYSTEM_CONFIG_DEFINITIONS \<Longrightarrow> find_definition (cd_key d) = Inr d"
proof -
  have "distinct (map cd_key SYSTEM_CONFIG_DEFINITIONS)" by code_simp
  from find_key_unique [OF this] show "d \<in> set SYSTEM_CONFIG_DEFINITIONS \<Longrightarrow> ?thesis" by (simp add: find_definition_def)
qed

lemma find_definition_Inr: "find_definition key = Inr d \<Longrightarrow> d \<in> set SYSTEM_CONFIG_DEFINITIONS \<and> cd_key d = key"
  by (auto simp: find_definition_def dest: find_SomeD split: option.splits)

lemma stored_value_reads_back:
  assumes "d \<in> set SYSTEM_CONFIG_DEFINITIONS" and "well_typed d v"
  shows "parseSystemConfigValue d (Some (serializeSystemConfigValue v)) = Some v"
proof -
  obtain lo where lo: "cd_min d = Some lo" "0 \<le> lo" using settings_simple(2) [OF assms(1)] by blast
  from settings_simple(1) [OF assms(1)] show ?thesis
  proof
    assume ty: "cd_type d = IntegerSetting"
    with assms(2) obtain n where n: "v = CInt n" "\<bar>n\<bar> < 2 ^ 53" "in_bounds d n" by (auto simp: well_typed_def)
    with lo have pos: "0 \<le> n" by (simp add: in_bounds_def)
    then have digits: "show_int n = show_nat (nat n)" by (simp add: show_int_def)
    then have "trim (show_int n) = show_int n" by (simp add: trim_digits)
    moreover have "number_of (show_int n) = Some (of_int n)" using pos n(2) by (intro number_show) simp_all
    moreover have "isSafeInteger (of_int n)"
    proof -
      have "(of_int \<bar>n\<bar> :: rat) < of_int (2 ^ 53)" using n(2) by (simp only: of_int_less_iff)
      then show ?thesis by (simp add: isSafeInteger_def)
    qed
    ultimately show ?thesis using n ty digits
      by (simp add: parseSystemConfigValue_def serializeSystemConfigValue_def validateSystemConfigValue_def validate_integer_def Let_def)
  next
    assume ty: "cd_type d = StroopsSetting"
    with assms(2) obtain t where t: "v = CText t" "stroops_text t" "in_bounds d (int (dec_val t))" by (auto simp: well_typed_def)
    then have "list_all is_digit t" "t \<noteq> []" by (auto simp: stroops_text_def is_digit_def)
    then have "trim t = t" by (rule trim_digits)
    with t ty \<open>t \<noteq> []\<close> show ?thesis
      by (simp add: parseSystemConfigValue_def serializeSystemConfigValue_def validateSystemConfigValue_def validate_stroops_def Let_def)
  qed
qed

section \<open>Reloading\<close>

definition row_override :: "string \<Rightarrow> config_row \<Rightarrow> (cfg_value \<times> time) option" where
  "row_override key r = (case find_definition key of
     Inl _ \<Rightarrow> None
   | Inr d \<Rightarrow> map_option (\<lambda>v. (v, cr_updatedAt r)) (parseSystemConfigValue d (Some (cr_value r))))"

lemma load_row_at: "load_row r ov key = (if cr_key r = key \<and> row_override key r \<noteq> None then row_override key r else ov key)"
  by (auto simp: load_row_def row_override_def split: sum.split option.split)

lemma load_rows_at:
  "distinct (map cr_key rows) \<Longrightarrow> fold load_row rows ov key =
     (case List.find (\<lambda>r. cr_key r = key) rows of
        None \<Rightarrow> ov key | Some r \<Rightarrow> if row_override key r = None then ov key else row_override key r)"
proof (induction rows arbitrary: ov)
  case (Cons r rows)
  show ?case
  proof (cases "cr_key r = key")
    case True
    have "cr_key x \<noteq> key" if "x \<in> set rows" for x using that True Cons.prems by (force simp: image_iff)
    then have "List.find (\<lambda>r. cr_key r = key) rows = None" by (simp add: find_None)
    with True Cons show ?thesis by (simp add: load_row_at)
  next
    case False
    with Cons show ?thesis by (simp add: load_row_at split: option.split)
  qed
qed simp

lemma find_known_row:
  "find_definition key = Inr d \<Longrightarrow>
   List.find (\<lambda>r. cr_key r = key) (filter (\<lambda>r. cr_key r \<in> set (map cd_key SYSTEM_CONFIG_DEFINITIONS)) rows) =
     List.find (\<lambda>r. cr_key r = key) rows"
  by (induction rows) (auto dest!: find_definition_Inr)

lemma refresh_at:
  assumes "distinct (map cr_key (configRows s))" and "find_definition key = Inr d"
  shows "refresh s key = Option.bind (List.find (\<lambda>r. cr_key r = key) (configRows s)) (row_override key)"
proof -
  have "distinct (map cr_key (filter (\<lambda>r. cr_key r \<in> set (map cd_key SYSTEM_CONFIG_DEFINITIONS)) (configRows s)))"
    by (rule distinct_map_filter [OF assms(1)])
  from load_rows_at [OF this, of Map.empty key] show ?thesis
    unfolding find_known_row [OF assms(2)] refresh_def by (simp split: option.split)
qed

lemma find_upsert_row:
  "List.find (\<lambda>r. cr_key r = k) (upsert_row key v t rows) =
     (if k = key then Some (case List.find (\<lambda>r. cr_key r = key) rows of
        None \<Rightarrow> \<lparr>cr_key = key, cr_value = v, cr_updatedAt = t\<rparr> | Some r \<Rightarrow> r\<lparr>cr_value := v, cr_updatedAt := t\<rparr>)
      else List.find (\<lambda>r. cr_key r = k) rows)"
proof (cases "list_ex (\<lambda>r. cr_key r = key) rows")
  case True
  then obtain r where r: "List.find (\<lambda>r. cr_key r = key) rows = Some r"
    by (cases "List.find (\<lambda>r. cr_key r = key) rows") (auto simp: find_None list_ex_iff)
  show ?thesis
  proof (cases "k = key")
    case True
    then show ?thesis unfolding upsert_row_def if_P [OF \<open>list_ex _ _\<close>]
      using r find_SomeD [OF r] by (subst find_update_where) simp_all
  next
    case False
    then show ?thesis unfolding upsert_row_def if_P [OF \<open>list_ex _ _\<close>]
      by (subst find_update_where_other) simp_all
  qed
next
  case False
  then have "List.find (\<lambda>r. cr_key r = key) rows = None" by (auto simp: find_None_iff list_ex_iff)
  with False show ?thesis by (auto simp: upsert_row_def find_append split: option.split)
qed

lemma distinct_upsert_row: "distinct (map cr_key rows) \<Longrightarrow> distinct (map cr_key (upsert_row key v t rows))"
  by (auto simp: upsert_row_def map_update_where_key list_ex_iff)

lemma find_delete_row: "List.find (\<lambda>r. cr_key r = k) (delete_where (\<lambda>r. cr_key r = key) rows) =
    (if k = key then None else List.find (\<lambda>r. cr_key r = k) rows)"
  by (induction rows) (auto simp: delete_where_def)

lemma set_setting_Inr:
  assumes "set_setting env t key raw adm why (s, ov) = (Inr vw, (s', ov'))"
  obtains d v where "find_definition key = Inr d" "validateSystemConfigValue d raw = Some v" "vw_value vw = v"
    "vw_source vw = SourceOverride" "configRows s' = upsert_row key (serializeSystemConfigValue v) t (configRows s)"
    "ov' = ov(key \<mapsto> (v, t))"
  using assms find_definition_Inr [of key]
  by (auto simp: set_setting_def view_setting_def resolve_def Let_def split: sum.splits option.splits)

lemma set_setting_Inl: "set_setting env t key raw adm why p = (Inl x, p') \<Longrightarrow> p' = p"
  by (auto simp: set_setting_def Let_def split: sum.splits option.splits prod.splits)

section \<open>Replicas\<close>

record replicas =
  store :: config_db
  cached :: "nat \<Rightarrow> overrides"

inductive config_run :: "environment \<Rightarrow> replicas \<Rightarrow> bool" for env where
  boot: "distinct (map cr_key (configRows s)) \<Longrightarrow> config_run env \<lparr>store = s, cached = (\<lambda>_. Map.empty)\<rparr>"
| save: "config_run env w \<Longrightarrow> set_setting env t key raw adm why (store w, cached w i) = (r, (s', ov')) \<Longrightarrow>
     config_run env (w\<lparr>store := s', cached := (cached w)(i := ov')\<rparr>)"
| reset: "config_run env w \<Longrightarrow> reset_setting env key adm why (store w, cached w i) = (r, (s', ov')) \<Longrightarrow>
     config_run env (w\<lparr>store := s', cached := (cached w)(i := ov')\<rparr>)"
| reload: "config_run env w \<Longrightarrow> config_run env (w\<lparr>cached := (cached w)(i := refresh (store w))\<rparr>)"
| bookkeeping: "config_run env w \<Longrightarrow> distinct (map cr_key (configRows s)) \<Longrightarrow> config_run env (w\<lparr>store := s\<rparr>)"

definition overrides_ok :: "overrides \<Rightarrow> bool" where
  "overrides_ok ov \<longleftrightarrow> (\<forall>d \<in> set SYSTEM_CONFIG_DEFINITIONS. \<forall>v t. ov (cd_key d) = Some (v, t) \<longrightarrow> well_typed d v)"

definition replicas_ok :: "replicas \<Rightarrow> bool" where
  "replicas_ok w \<longleftrightarrow> distinct (map cr_key (configRows (store w))) \<and> (\<forall>i. overrides_ok (cached w i))"

lemma config_refresh_ok:
  assumes "distinct (map cr_key (configRows s))"
  shows "overrides_ok (refresh s)"
  unfolding overrides_ok_def
proof (intro ballI allI impI)
  fix d v t assume d: "d \<in> set SYSTEM_CONFIG_DEFINITIONS" and r: "refresh s (cd_key d) = Some (v, t)"
  from r obtain row where "row_override (cd_key d) row = Some (v, t)"
    using refresh_at [OF assms find_definition_of [OF d]] by (auto simp: bind_eq_Some_conv)
  then show "well_typed d v" by (auto simp: row_override_def find_definition_of [OF d] dest: parsed_is_well_typed)
qed

lemma overrides_ok_upd:
  assumes "overrides_ok ov" and "find_definition key = Inr d" and "well_typed d v"
  shows "overrides_ok (ov(key \<mapsto> (v, t)))"
proof -
  have "e = d" if "e \<in> set SYSTEM_CONFIG_DEFINITIONS" "cd_key e = key" for e
    using find_definition_of [OF that(1)] that(2) assms(2) by simp
  then show ?thesis using assms(1,3) by (auto simp: overrides_ok_def)
qed

lemma overrides_ok_drop: "overrides_ok ov \<Longrightarrow> overrides_ok (ov(key := None))"
  by (auto simp: overrides_ok_def split: if_splits)

lemma config_run_ok: "config_run env w \<Longrightarrow> replicas_ok w"
proof (induction rule: config_run.induct)
  case (boot s)
  then show ?case by (simp add: replicas_ok_def overrides_ok_def)
next
  case (save w t key raw adm why i r s' ov')
  show ?case
  proof (cases r)
    case (Inl x)
    with save show ?thesis by (auto dest!: set_setting_Inl simp: replicas_ok_def)
  next
    case (Inr vw)
    with save(2) obtain d v where "find_definition key = Inr d" "validateSystemConfigValue d raw = Some v"
      "configRows s' = upsert_row key (serializeSystemConfigValue v) t (configRows (store w))"
      "ov' = (cached w i)(key \<mapsto> (v, t))"
      using set_setting_Inr by metis
    with save.IH show ?thesis
      by (auto simp: replicas_ok_def distinct_upsert_row intro!: overrides_ok_upd validated_is_well_typed)
  qed
next
  case (reset w key adm why i r s' ov')
  then have "ov' = cached w i \<and> s' = store w \<or> ov' = (cached w i)(key := None) \<and>
      configRows s' = delete_where (\<lambda>r. cr_key r = key) (configRows (store w))"
    by (auto simp: reset_setting_def Let_def split: sum.splits)
  with reset.IH show ?case
    by (auto simp: replicas_ok_def delete_where_def distinct_map_filter overrides_ok_drop)
next
  case (reload w i)
  then show ?case by (simp add: replicas_ok_def config_refresh_ok)
next
  case (bookkeeping w s)
  then show ?case by (simp add: replicas_ok_def)
qed

text \<open>
  C25.  Every effective value has the type of its setting and lies within its bounds: on every replica,
  after any sequence of changes, resets and reloads, whatever the requests, the environment and the rows
  of the table contain, a defined setting reads as a well-typed value.
\<close>

theorem every_setting_is_well_typed:
  assumes "config_run env w" and "d \<in> set SYSTEM_CONFIG_DEFINITIONS"
  shows "\<exists>v. get_setting env (cached w i) (cd_key d) = Inr v \<and> well_typed d v"
proof -
  have "well_typed d (fst (resolve env (cached w i) d))"
  proof (cases "cached w i (cd_key d)")
    case None
    then show ?thesis using parsed_is_well_typed default_well_typed [OF assms(2)]
      by (auto simp: resolve_def fallback_def Let_def split: option.split)
  next
    case (Some p)
    with config_run_ok [OF assms(1)] assms(2) show ?thesis
      by (cases p) (auto simp: resolve_def replicas_ok_def overrides_ok_def)
  qed
  then show ?thesis by (simp add: get_setting_def find_definition_of [OF assms(2)])
qed

text \<open>
  A saved value reaches every replica: the change is in force at once where it was made, and any
  replica that reloads afterwards reads the same value; no other setting changes on either.
\<close>

lemma saved_setting_reaches_every_replica:
  assumes "config_run env w" and "set_setting env t key raw adm why (store w, cached w i) = (Inr vw, (s', ov'))"
  shows "get_setting env ov' key = Inr (vw_value vw) \<and> get_setting env (refresh s') key = Inr (vw_value vw) \<and>
    (k \<noteq> key \<longrightarrow> get_setting env ov' k = get_setting env (cached w i) k \<and>
       get_setting env (refresh s') k = get_setting env (refresh (store w)) k)"
proof -
  from set_setting_Inr [OF assms(2)] obtain d v where d: "find_definition key = Inr d"
    "validateSystemConfigValue d raw = Some v" "vw_value vw = v"
    and rows: "configRows s' = upsert_row key (serializeSystemConfigValue v) t (configRows (store w))"
    and ov': "ov' = (cached w i)(key \<mapsto> (v, t))" by blast
  have def: "d \<in> set SYSTEM_CONFIG_DEFINITIONS" "cd_key d = key" using find_definition_Inr [OF d(1)] by simp_all
  have dist: "distinct (map cr_key (configRows (store w)))" using config_run_ok [OF assms(1)] by (simp add: replicas_ok_def)
  then have dist': "distinct (map cr_key (configRows s'))" by (simp add: rows distinct_upsert_row)
  have reads: "parseSystemConfigValue d (Some (serializeSystemConfigValue v)) = Some v"
    by (rule stored_value_reads_back [OF def(1) validated_is_well_typed [OF d(2)]])
  have "refresh s' key = Some (v, t)"
    unfolding refresh_at [OF dist' d(1)] rows find_upsert_row using reads d(1)
    by (auto simp: row_override_def split: option.split)
  moreover have "resolve env ov' e = resolve env (cached w i) e \<and> resolve env (refresh s') e = resolve env (refresh (store w)) e"
    if "k \<noteq> key" "find_definition k = Inr e" for e
  proof -
    have "cd_key e = k" using find_definition_Inr [OF that(2)] by simp
    moreover have "refresh s' k = refresh (store w) k"
      unfolding refresh_at [OF dist' that(2)] refresh_at [OF dist that(2)] rows find_upsert_row using that(1) by simp
    ultimately show ?thesis using that(1) by (simp add: resolve_def ov')
  qed
  ultimately show ?thesis using d def(2) by (auto simp: get_setting_def resolve_def ov' split: sum.split)
qed

definition stale_row :: config_db where
  "stale_row = \<lparr>configRows = [\<lparr>cr_key = ''disputes.slaReviewHours'', cr_value = ''0x400'', cr_updatedAt = 3\<rparr>], configAudits = []\<rparr>"

definition no_env :: environment where "no_env = (\<lambda>_. None)"

lemma stale_boot: "config_run no_env \<lparr>store = stale_row, cached = (\<lambda>_. Map.empty)\<rparr>"
  by (rule config_run.boot) (simp add: stale_row_def)

lemma review_hours: "integer_setting ''disputes.slaReviewHours'' ''DISPUTE_SLA_REVIEW_HOURS'' 72 1 720 \<in> set SYSTEM_CONFIG_DEFINITIONS"
  by (simp add: SYSTEM_CONFIG_DEFINITIONS_def)

theorem every_setting_is_well_typed_witness:
  "\<exists>v. get_setting no_env (refresh stale_row) ''disputes.slaReviewHours'' = Inr v \<and>
     well_typed (integer_setting ''disputes.slaReviewHours'' ''DISPUTE_SLA_REVIEW_HOURS'' 72 1 720) v"
  using every_setting_is_well_typed [OF config_run.reload [OF stale_boot, of 0] review_hours, of 0]
  by (simp add: integer_setting_def)

lemma saved_setting_reaches_every_replica_witness:
  "get_setting no_env (refresh (fst (snd (set_setting no_env 9 ''disputes.slaReviewHours'' (JNumber 48) ''ad'' ''why'' (stale_row, Map.empty)))))
     ''disputes.slaReviewHours'' = Inr (CInt 48)"
proof -
  have "find_definition ''disputes.slaReviewHours'' =
      Inr (integer_setting ''disputes.slaReviewHours'' ''DISPUTE_SLA_REVIEW_HOURS'' 72 1 720)"
    using find_definition_of [OF review_hours] by (simp add: integer_setting_def)
  then obtain vw s' ov' where run: "set_setting no_env 9 ''disputes.slaReviewHours'' (JNumber 48) ''ad'' ''why'' (stale_row, Map.empty) = (Inr vw, (s', ov'))"
    and v: "vw_value vw = CInt 48"
    by (simp add: set_setting_def validateSystemConfigValue_def validate_integer_def integer_setting_def isSafeInteger_def
        in_bounds_def view_setting_def resolve_def Let_def)
  from saved_setting_reaches_every_replica [OF stale_boot, of 9 "''disputes.slaReviewHours''" "JNumber 48" "''ad''" "''why''" 0 vw s' ov'] run v
  show ?thesis by simp
qed

end
