(* ===== verification/BatchLoader.thy ===== *)
theory BatchLoader
  imports Fixtures "HOL-Library.AList" "HOL-Library.List_Lexorder" "HOL-Library.Char_ord"
begin

text \<open>
  \<^verbatim>\<open>graphql/loaders/batch-loader.ts\<close> and \<^verbatim>\<open>graphql-loaders.ts\<close>: the loads of one tick are coalesced into
  one call of a batch function per chunk, with one promise per key.  A promise is a number; \<open>l_done\<close> tells
  how it was settled, and \<open>l_batches\<close> logs the calls of the batch function.
\<close>

section \<open>The loader\<close>

record ('k, 'v) loader =
  l_cache :: "('k \<times> nat) list"
  l_queue :: "('k \<times> nat) list"
  l_done :: "nat \<rightharpoonup> string + 'v"
  l_next :: nat
  l_scheduled :: nat
  l_batches :: "'k list list"

text \<open>What a batch function answers: an exception, or a value or an error for each key.\<close>

type_synonym ('k, 'v) batch_fn = "'k list \<Rightarrow> string + (string + 'v) list"

definition new_loader :: "('k, 'v) loader" where
  "new_loader = \<lparr>l_cache = [], l_queue = [], l_done = Map.empty, l_next = 0, l_scheduled = 0, l_batches = []\<rparr>"

definition load :: "'k \<Rightarrow> ('k, 'v) loader \<Rightarrow> nat \<times> ('k, 'v) loader" where
  "load k s = (case map_of (l_cache s) k of
     Some p \<Rightarrow> (p, s)
   | None \<Rightarrow>
       (let p = l_next s; q = l_queue s @ [(k, p)]
        in (p, s\<lparr>l_queue := q, l_cache := AList.update k p (l_cache s), l_next := p + 1,
                 l_scheduled := l_scheduled s + (if length q = 1 then 1 else 0)\<rparr>)))"

fun loadMany :: "'k list \<Rightarrow> ('k, 'v) loader \<Rightarrow> nat list \<times> ('k, 'v) loader" where
  "loadMany [] s = ([], s)"
| "loadMany (k # ks) s =
     (let (p, s1) = load k s; (ps, s2) = loadMany ks s1 in (p # ps, s2))"

definition prime_key :: "'k \<Rightarrow> 'v \<Rightarrow> ('k, 'v) loader \<Rightarrow> ('k, 'v) loader" where
  "prime_key k v s = (if map_of (l_cache s) k \<noteq> None then s
     else s\<lparr>l_cache := AList.update k (l_next s) (l_cache s), l_done := (l_done s)(l_next s \<mapsto> Inr v), l_next := l_next s + 1\<rparr>)"

definition clear_key :: "'k \<Rightarrow> ('k, 'v) loader \<Rightarrow> ('k, 'v) loader" where
  "clear_key k s = s\<lparr>l_cache := AList.delete k (l_cache s)\<rparr>"

definition clearAll :: "('k, 'v) loader \<Rightarrow> ('k, 'v) loader" where
  "clearAll s = s\<lparr>l_cache := []\<rparr>"

text \<open>A failed key leaves the cache, so that a later load asks again.\<close>

definition settle_one :: "('k \<times> nat) \<times> (string + 'v) \<Rightarrow> ('k, 'v) loader \<Rightarrow> ('k, 'v) loader" where
  "settle_one a s = (case a of ((k, p), v) \<Rightarrow>
     s\<lparr>l_done := (l_done s)(p \<mapsto> v), l_cache := (if isl v then AList.delete k (l_cache s) else l_cache s)\<rparr>)"

definition runBatch :: "('k, 'v) batch_fn \<Rightarrow> ('k \<times> nat) list \<Rightarrow> ('k, 'v) loader \<Rightarrow> ('k, 'v) loader" where
  "runBatch f batch s =
     (let s1 = s\<lparr>l_batches := l_batches s @ [map fst batch]\<rparr>
      in case f (map fst batch) of
           Inl e \<Rightarrow> fold (\<lambda>item. settle_one (item, Inl e)) batch s1
         | Inr vs \<Rightarrow>
             if length vs \<noteq> length batch then fold (\<lambda>item. settle_one (item, Inl ''TypeError'')) batch s1
             else fold settle_one (zip batch vs) s1)"

fun slices :: "nat \<Rightarrow> 'a list \<Rightarrow> 'a list list" where
  "slices n xs = (if xs = [] \<or> n = 0 then [] else take n xs # slices n (drop n xs))"

declare slices.simps [simp del]

definition dispatch :: "('k, 'v) batch_fn \<Rightarrow> nat option \<Rightarrow> ('k, 'v) loader \<Rightarrow> ('k, 'v) loader" where
  "dispatch f maxBatchSize s =
     (let pending = l_queue s;
          size = (case maxBatchSize of None \<Rightarrow> length pending | Some n \<Rightarrow> if 0 < n then n else length pending)
      in fold (runBatch f) (slices size pending) (s\<lparr>l_queue := []\<rparr>))"

section \<open>The batch functions\<close>

text \<open>A \<open>Map\<close> filled from the rows: the last row of a key wins.\<close>

definition alignByKey :: "'k list \<Rightarrow> 'r list \<Rightarrow> ('r \<Rightarrow> 'k) \<Rightarrow> 'r option list" where
  "alignByKey keys rows keyOf =
     (let byKey = fold (\<lambda>r m. m(keyOf r \<mapsto> r)) rows Map.empty in map byKey keys)"

definition groupByKey :: "'k list \<Rightarrow> 'r list \<Rightarrow> ('r \<Rightarrow> 'k) \<Rightarrow> 'r list list" where
  "groupByKey keys rows keyOf =
     (let groups = fold (\<lambda>r m. m(keyOf r \<mapsto> (case m (keyOf r) of None \<Rightarrow> [r] | Some g \<Rightarrow> g @ [r]))) rows Map.empty
      in map (\<lambda>k. case groups k of None \<Rightarrow> [] | Some g \<Rightarrow> g) keys)"

definition MAX_BATCH_SIZE :: nat where "MAX_BATCH_SIZE = 500"

text \<open>
  \<open>downs\<close> tells whether the query for a key list fails.  The key of a row is its (nullable) address; a
  row the query returns always has one of the asked addresses.
\<close>

definition usersByStellarAddress :: "user list \<Rightarrow> (string list \<Rightarrow> bool) \<Rightarrow> (string, user option) batch_fn" where
  "usersByStellarAddress us downs addresses =
     (if downs addresses then Inl ''query failed''
      else (let rows = filter (\<lambda>u. u_stellarAddress u \<in> Some ` set addresses) us
            in Inr (map Inr (alignByKey (map Some addresses) rows u_stellarAddress))))"

definition milestonesByEngagement :: "milestone list \<Rightarrow> (string list \<Rightarrow> bool) \<Rightarrow> (string, milestone list) batch_fn" where
  "milestonesByEngagement ms downs ids =
     (if downs ids then Inl ''query failed''
      else (let rows = sort_key m_engagementId (sort_key m_index (filter (\<lambda>m. m_engagementId m \<in> set ids) ms))
            in Inr (map Inr (groupByKey ids rows m_engagementId))))"

lemma align_fold: "fold (\<lambda>r m. m(keyOf r \<mapsto> r)) rows m k =
    (case List.find (\<lambda>r. keyOf r = k) (rev rows) of None \<Rightarrow> m k | Some r \<Rightarrow> Some r)"
  by (induction rows arbitrary: m) (auto simp: find_append split: option.splits)

lemma group_fold: "fold (\<lambda>r m. m(keyOf r \<mapsto> (case m (keyOf r) of None \<Rightarrow> [r] | Some g \<Rightarrow> g @ [r]))) rows m k =
    (case m k of None \<Rightarrow> if filter (\<lambda>r. keyOf r = k) rows = [] then None else Some (filter (\<lambda>r. keyOf r = k) rows)
     | Some g \<Rightarrow> Some (g @ filter (\<lambda>r. keyOf r = k) rows))"
  by (induction rows arbitrary: m) (auto split: option.splits)

lemma align_rows: "alignByKey keys rows keyOf = map (\<lambda>k. List.find (\<lambda>r. keyOf r = k) (rev rows)) keys"
  by (auto simp: alignByKey_def align_fold split: option.split)

lemma group_rows: "groupByKey keys rows keyOf = map (\<lambda>k. filter (\<lambda>r. keyOf r = k) rows) keys"
  by (auto simp: groupByKey_def group_fold)

section \<open>The contract of a batch function\<close>

text \<open>
  A loader client relies on a batch function that answers every key by itself, whatever else is in the
  batch; then coalescing cannot be observed.
\<close>

lemma slices_Nil [simp]: "slices n [] = []"
  by (simp add: slices.simps)

lemma slices_spec: "0 < n \<Longrightarrow> concat (slices n xs) = xs \<and> list_all (\<lambda>b. b \<noteq> [] \<and> length b \<le> n) (slices n xs)"
proof (induction n xs rule: slices.induct)
  case (1 n xs)
  then show ?case by (cases "xs = []") (simp_all add: slices.simps [of n xs])
qed

text \<open>The keys a list of loads adds to the queue: the uncached ones, once each, in order.\<close>

fun asked_for :: "'k set \<Rightarrow> 'k list \<Rightarrow> 'k list" where
  "asked_for seen [] = []"
| "asked_for seen (k # ks) = (if k \<in> seen then asked_for seen ks else k # asked_for (insert k seen) ks)"

lemma asked_for_spec: "distinct (asked_for seen ks) \<and> set (asked_for seen ks) = set ks - seen"
  by (induction ks arbitrary: seen) auto

locale pointwise_batch =
  fixes f :: "('k, 'v) batch_fn" and g :: "'k \<Rightarrow> 'v"
  assumes pointwise: "f ks = Inr (map (\<lambda>k. Inr (g k)) ks)"
begin

definition settle_map :: "('k \<times> nat) list \<Rightarrow> (nat \<rightharpoonup> string + 'v) \<Rightarrow> (nat \<rightharpoonup> string + 'v)" where
  "settle_map batch d = fold (\<lambda>kp d. d(snd kp \<mapsto> Inr (g (fst kp)))) batch d"

lemma settle_map_append: "settle_map (a @ b) d = settle_map b (settle_map a d)"
  by (simp add: settle_map_def)

lemma settle_map_out: "p \<notin> snd ` set batch \<Longrightarrow> settle_map batch d p = d p"
  unfolding settle_map_def by (induction batch arbitrary: d) auto

lemma settle_map_in:
  "distinct (map snd batch) \<Longrightarrow> (k, p) \<in> set batch \<Longrightarrow> settle_map batch d p = Some (Inr (g k))"
proof (induction batch arbitrary: d)
  case (Cons kp batch)
  show ?case
  proof (cases "(k, p) = kp")
    case True
    have "snd kp \<notin> snd ` set batch" using Cons.prems(1) by simp
    then have "p \<notin> snd ` set batch" using True by (metis snd_conv)
    from settle_map_out [OF this] True show ?thesis by (auto simp: settle_map_def)
  next
    case False
    with Cons show ?thesis by (simp add: settle_map_def)
  qed
qed simp

lemma settle_batch:
  "fold settle_one (zip batch (map (\<lambda>kp. Inr (g (fst kp))) batch)) s = s\<lparr>l_done := settle_map batch (l_done s)\<rparr>"
proof (induction batch arbitrary: s)
  case (Cons kp batch)
  have "settle_one (kp, Inr (g (fst kp))) s = s\<lparr>l_done := (l_done s)(snd kp \<mapsto> Inr (g (fst kp)))\<rparr>"
    by (simp add: settle_one_def split_beta)
  with Cons show ?case by (simp add: settle_map_def)
qed (simp add: settle_map_def)

lemma run_batch:
  "runBatch f batch s = s\<lparr>l_batches := l_batches s @ [map fst batch], l_done := settle_map batch (l_done s)\<rparr>"
proof -
  have answers: "map (\<lambda>k. Inr (g k)) (map fst batch) = map (\<lambda>kp. Inr (g (fst kp))) batch" by simp
  have "length (map (\<lambda>kp. Inr (g (fst kp))) batch) = length batch" by simp
  then show ?thesis unfolding runBatch_def Let_def pointwise answers sum.case by (simp add: settle_batch)
qed

lemma run_batches:
  "fold (runBatch f) bs s = s\<lparr>l_batches := l_batches s @ map (map fst) bs, l_done := settle_map (concat bs) (l_done s)\<rparr>"
proof (induction bs arbitrary: s)
  case Nil
  show ?case by (simp add: settle_map_def)
next
  case (Cons b bs)
  have "fold (runBatch f) (b # bs) s = fold (runBatch f) bs (runBatch f b s)" by simp
  also have "\<dots> = s\<lparr>l_batches := l_batches s @ map (map fst) (b # bs), l_done := settle_map (concat (b # bs)) (l_done s)\<rparr>"
    unfolding Cons by (simp add: run_batch settle_map_append)
  finally show ?case .
qed

text \<open>A promise of the cache is settled with the value of its key, or waits in the queue.\<close>

definition promise_ok :: "('k, 'v) loader \<Rightarrow> 'k \<Rightarrow> nat \<Rightarrow> bool" where
  "promise_ok s k p \<longleftrightarrow> p < l_next s \<and>
     (l_done s p = Some (Inr (g k)) \<and> p \<notin> snd ` set (l_queue s) \<or> (k, p) \<in> set (l_queue s))"

definition loader_ok :: "('k, 'v) loader \<Rightarrow> bool" where
  "loader_ok s \<longleftrightarrow> (\<forall>k p. map_of (l_cache s) k = Some p \<longrightarrow> promise_ok s k p) \<and>
     distinct (map snd (l_queue s)) \<and> (\<forall>p \<in> snd ` set (l_queue s). p < l_next s)"

lemma loader_okD:
  assumes "loader_ok s"
  shows "map_of (l_cache s) k = Some p \<Longrightarrow> promise_ok s k p" "distinct (map snd (l_queue s))"
    "p \<in> snd ` set (l_queue s) \<Longrightarrow> p < l_next s"
  using assms by (auto simp: loader_ok_def)

lemma load_ok:
  assumes "loader_ok s" and "load k s = (p, s')"
  shows "loader_ok s'" and "promise_ok s' k p" and "promise_ok s j q \<Longrightarrow> promise_ok s' j q"
    and "l_batches s' = l_batches s" and "l_done s' = l_done s"
    and "map fst (l_queue s') = map fst (l_queue s) @ (if map_of (l_cache s) k = None then [k] else [])"
    and "map_of (l_cache s') j = (if j = k then Some p else map_of (l_cache s) j)"
proof -
  note ok = loader_okD [OF assms(1)]
  have "loader_ok s' \<and> promise_ok s' k p \<and> (promise_ok s j q \<longrightarrow> promise_ok s' j q) \<and> l_batches s' = l_batches s \<and> l_done s' = l_done s \<and>
     map fst (l_queue s') = map fst (l_queue s) @ (if map_of (l_cache s) k = None then [k] else []) \<and>
     map_of (l_cache s') j = (if j = k then Some p else map_of (l_cache s) j)" for j q
  proof (cases "map_of (l_cache s) k")
    case None
    with assms(2) have p: "p = l_next s" and s': "l_queue s' = l_queue s @ [(k, p)]" "l_next s' = p + 1"
      "l_cache s' = AList.update k p (l_cache s)" "l_done s' = l_done s" "l_batches s' = l_batches s"
      by (auto simp: load_def Let_def)
    have new: "l_next s \<notin> snd ` set (l_queue s)" using ok(3) by blast
    have mono: "promise_ok s' j q" if "promise_ok s j q" for j q
      using that p by (auto simp: promise_ok_def s')
    have "loader_ok s'"
      unfolding loader_ok_def
    proof (intro conjI allI impI ballI)
      fix j q assume "map_of (l_cache s') j = Some q"
      then have q: "(if j = k then Some p else map_of (l_cache s) j) = Some q" by (simp add: s'(3) update_conv')
      show "promise_ok s' j q"
      proof (cases "j = k")
        case True
        with q show ?thesis by (simp add: promise_ok_def s'(1,2))
      next
        case False
        with q show ?thesis by (intro mono ok(1)) simp
      qed
    next
      show "distinct (map snd (l_queue s'))" using ok(2) new p by (simp add: s')
    next
      fix q assume "q \<in> snd ` set (l_queue s')"
      then show "q < l_next s'" using ok(3) p by (force simp: s')
    qed
    moreover have "promise_ok s' k p" by (simp add: promise_ok_def s')
    ultimately show ?thesis using mono None by (simp add: s' update_conv')
  next
    case (Some p')
    with assms ok(1) show ?thesis by (auto simp: load_def)
  qed
  then show "loader_ok s'" "promise_ok s' k p" "promise_ok s j q \<Longrightarrow> promise_ok s' j q" "l_batches s' = l_batches s" "l_done s' = l_done s"
    "map fst (l_queue s') = map fst (l_queue s) @ (if map_of (l_cache s) k = None then [k] else [])"
    "map_of (l_cache s') j = (if j = k then Some p else map_of (l_cache s) j)" by blast+
qed

lemma loadMany_ok:
  assumes "loader_ok s" and "loadMany ks s = (ps, s')"
  shows "loader_ok s' \<and> list_all2 (promise_ok s') ks ps \<and> (\<forall>j q. promise_ok s j q \<longrightarrow> promise_ok s' j q) \<and>
    l_batches s' = l_batches s \<and> map fst (l_queue s') = map fst (l_queue s) @ asked_for (dom (map_of (l_cache s))) ks"
  using assms
proof (induction ks arbitrary: s ps)
  case (Cons k ks)
  obtain p s1 where l: "load k s = (p, s1)" by fastforce
  note step = load_ok [OF Cons.prems(1) l]
  obtain qs where r: "loadMany ks s1 = (qs, s')" "ps = p # qs" using Cons.prems(2) l by (auto split: prod.splits)
  note ih = Cons.IH [OF step(1) r(1)]
  have "dom (map_of (l_cache s1)) = insert k (dom (map_of (l_cache s)))" by (auto simp: dom_def step(7))
  then have "(if map_of (l_cache s) k = None then [k] else []) @ asked_for (dom (map_of (l_cache s1))) ks =
      asked_for (dom (map_of (l_cache s))) (k # ks)"
    by (cases "map_of (l_cache s) k") (auto simp: dom_def insert_absorb)
  then have "map fst (l_queue s') = map fst (l_queue s) @ asked_for (dom (map_of (l_cache s))) (k # ks)"
    using ih step(6) by (simp only: append_assoc)
  moreover have "promise_ok s' k p" using ih step(2) by blast
  moreover have "promise_ok s' j q" if "promise_ok s j q" for j q using ih step(3) [OF that] by blast
  ultimately show ?case using ih step(4) r(2) by simp
qed simp

lemma dispatch_ok:
  assumes "loader_ok s" and "0 < n"
  shows "loader_ok (dispatch f (Some n) s)" and "promise_ok s k p \<Longrightarrow> l_done (dispatch f (Some n) s) p = Some (Inr (g k))"
    and "\<exists>bs. l_batches (dispatch f (Some n) s) = l_batches s @ bs \<and> concat bs = map fst (l_queue s) \<and>
      list_all (\<lambda>b. b \<noteq> [] \<and> length b \<le> n) bs"
proof -
  note ok = loader_okD [OF assms(1)]
  have all: "concat (slices n (l_queue s)) = l_queue s" "list_all (\<lambda>b. b \<noteq> [] \<and> length b \<le> n) (slices n (l_queue s))"
    using slices_spec [OF assms(2)] by blast+
  have run: "dispatch f (Some n) s = s\<lparr>l_queue := [], l_batches := l_batches s @ map (map fst) (slices n (l_queue s)),
      l_done := settle_map (l_queue s) (l_done s)\<rparr>"
    using assms(2) by (simp add: dispatch_def run_batches all(1) Let_def)
  show settled: "l_done (dispatch f (Some n) s) p = Some (Inr (g k))" if "promise_ok s k p" for k p
    using that settle_map_in [OF ok(2)] settle_map_out by (auto simp: promise_ok_def run)
  have "promise_ok (dispatch f (Some n) s) k p" if "map_of (l_cache s) k = Some p" for k p
    using settled [OF ok(1) [OF that]] ok(1) [OF that] by (simp add: promise_ok_def run)
  then show "loader_ok (dispatch f (Some n) s)" by (simp add: loader_ok_def run)
  show "\<exists>bs. l_batches (dispatch f (Some n) s) = l_batches s @ bs \<and> concat bs = map fst (l_queue s) \<and>
      list_all (\<lambda>b. b \<noteq> [] \<and> length b \<le> n) bs"
    by (rule exI [of _ "map (map fst) (slices n (l_queue s))"])
      (use all in \<open>simp add: run map_concat [symmetric] list_all_iff\<close>)
qed

lemma tick_settles:
  assumes "loader_ok s" and "l_queue s = []" and "loadMany ks s = (ps, s1)" and "0 < n"
  shows "loader_ok (dispatch f (Some n) s1)" and "l_queue (dispatch f (Some n) s1) = []"
    and "map (l_done (dispatch f (Some n) s1)) ps = map (\<lambda>k. Some (Inr (g k))) ks"
    and "\<exists>bs. l_batches (dispatch f (Some n) s1) = l_batches s @ bs \<and>
      concat bs = asked_for (dom (map_of (l_cache s))) ks \<and> list_all (\<lambda>b. b \<noteq> [] \<and> length b \<le> n) bs"
proof -
  note loads = loadMany_ok [OF assms(1,3)]
  then have s1: "loader_ok s1" by blast
  show "loader_ok (dispatch f (Some n) s1)" by (rule dispatch_ok(1) [OF s1 assms(4)])
  show "l_queue (dispatch f (Some n) s1) = []" using assms(4) by (simp add: dispatch_def run_batches Let_def)
  have "list_all2 (promise_ok s1) ks ps" using loads by blast
  then have "list_all2 (\<lambda>k p. Some (Inr (g k)) = l_done (dispatch f (Some n) s1) p) ks ps"
    by (rule list_all2_mono) (simp add: dispatch_ok(2) [OF s1 assms(4)])
  then show "map (l_done (dispatch f (Some n) s1)) ps = map (\<lambda>k. Some (Inr (g k))) ks"
    by (induction rule: list_all2_induct) simp_all
  from dispatch_ok(3) [OF s1 assms(4)] loads assms(2) show "\<exists>bs. l_batches (dispatch f (Some n) s1) = l_batches s @ bs \<and>
      concat bs = asked_for (dom (map_of (l_cache s))) ks \<and> list_all (\<lambda>b. b \<noteq> [] \<and> length b \<le> n) bs"
    by simp
qed

end

text \<open>The life of a loader: ticks, and rows a resolver already has primed into it.\<close>

inductive loader_run :: "('k, 'v) batch_fn \<Rightarrow> ('k \<Rightarrow> 'v) \<Rightarrow> nat \<Rightarrow> ('k, 'v) loader \<Rightarrow> bool" for f g n where
  start: "loader_run f g n new_loader"
| tick: "loader_run f g n s \<Longrightarrow> loadMany ks s = (ps, s1) \<Longrightarrow> loader_run f g n (dispatch f (Some n) s1)"
| primed: "loader_run f g n s \<Longrightarrow> loader_run f g n (prime_key k (g k) s)"
| cleared: "loader_run f g n s \<Longrightarrow> loader_run f g n (clear_key k s)"
| cleared_all: "loader_run f g n s \<Longrightarrow> loader_run f g n (clearAll s)"

context pointwise_batch begin

lemma prime_ok: "loader_ok s \<Longrightarrow> l_queue s = [] \<Longrightarrow> loader_ok (prime_key k (g k) s)"
  by (auto simp: loader_ok_def promise_ok_def prime_key_def update_conv' less_Suc_eq)

lemma clear_ok: "loader_ok s \<Longrightarrow> loader_ok (clear_key k s)" "loader_ok s \<Longrightarrow> loader_ok (clearAll s)"
  by (auto simp: loader_ok_def promise_ok_def clear_key_def clearAll_def delete_conv')

lemma loader_run_ok: "loader_run f g n s \<Longrightarrow> 0 < n \<Longrightarrow> loader_ok s \<and> l_queue s = []"
proof (induction rule: loader_run.induct)
  case start
  then show ?case by (simp add: loader_ok_def new_loader_def)
next
  case (tick s ks ps s1)
  then show ?case using tick_settles [of s ks ps s1 n] by simp
next
  case (primed s k)
  then show ?case by (simp add: prime_ok) (simp add: prime_key_def)
next
  case (cleared s k)
  then show ?case by (simp add: clear_ok) (simp add: clear_key_def)
next
  case (cleared_all s)
  then show ?case by (simp add: clear_ok) (simp add: clearAll_def)
qed

lemma batching:
  assumes "loader_run f g n s" and "0 < n" and "loadMany ks s = (ps, s1)"
  shows "map (l_done (dispatch f (Some n) s1)) ps = map (\<lambda>k. Some (Inr (g k))) ks \<and>
    (\<exists>bs. l_batches (dispatch f (Some n) s1) = l_batches s @ bs \<and>
      concat bs = asked_for (dom (map_of (l_cache s))) ks \<and> list_all (\<lambda>b. b \<noteq> [] \<and> length b \<le> n) bs)"
  using loader_run_ok [OF assms(1,2)] tick_settles [OF _ _ assms(3,2)] by blast

end

section \<open>The loaders of a request\<close>

definition user_by :: "user list \<Rightarrow> string \<Rightarrow> user option" where
  "user_by us a = List.find (\<lambda>u. u_stellarAddress u = Some a) us"

lemma find_filter: "(\<And>r. P r \<Longrightarrow> Q r) \<Longrightarrow> List.find P (filter Q rs) = List.find P rs"
  by (induction rs) auto

text \<open>The address is a unique column, so which of its rows wins does not matter.\<close>

definition addresses_unique :: "user list \<Rightarrow> bool" where
  "addresses_unique us \<longleftrightarrow> (\<forall>u \<in> set us. \<forall>v \<in> set us. u_stellarAddress u \<noteq> None \<longrightarrow> u_stellarAddress u = u_stellarAddress v \<longrightarrow> u = v)"

lemma find_rev_unique:
  assumes "addresses_unique us"
  shows "List.find (\<lambda>u. u_stellarAddress u = Some a) (rev us) = List.find (\<lambda>u. u_stellarAddress u = Some a) us"
proof (cases "List.find (\<lambda>u. u_stellarAddress u = Some a) us")
  case None
  then show ?thesis by (metis find_None set_rev)
next
  case (Some u)
  then have u: "u \<in> set (rev us)" "u_stellarAddress u = Some a" using find_SomeD [OF Some] by simp_all
  then obtain v where v: "List.find (\<lambda>u. u_stellarAddress u = Some a) (rev us) = Some v"
    by (cases "List.find (\<lambda>u. u_stellarAddress u = Some a) (rev us)") (auto simp: find_None)
  with find_SomeD [OF v] u assms have "v = u" unfolding addresses_unique_def by fastforce
  with v Some show ?thesis by simp
qed

lemma users_pointwise:
  "usersByStellarAddress us (\<lambda>_. False) ks = Inr (map (\<lambda>k. Inr (user_by (rev us) k)) ks)"
  by (simp add: usersByStellarAddress_def align_rows Let_def rev_filter user_by_def find_filter)

interpretation users: pointwise_batch "usersByStellarAddress us (\<lambda>_. False)" "user_by (rev us)" for us
  by unfold_locales (rule users_pointwise)

definition milestones_by :: "milestone list \<Rightarrow> string \<Rightarrow> milestone list" where
  "milestones_by ms eid = sort_key m_index (filter (\<lambda>m. m_engagementId m = eid) ms)"

lemma milestones_pointwise:
  "milestonesByEngagement ms (\<lambda>_. False) ks = Inr (map (\<lambda>k. Inr (milestones_by ms k)) ks)"
proof -
  have "filter (\<lambda>m. m_engagementId m = k) (sort_key m_engagementId (sort_key m_index (filter (\<lambda>m. m_engagementId m \<in> set ks) ms))) =
      milestones_by ms k" if "k \<in> set ks" for k
  proof -
    have "filter (\<lambda>m. m_engagementId m = k \<and> m_engagementId m \<in> set ks) ms = filter (\<lambda>m. m_engagementId m = k) ms"
      using that by (intro filter_cong) auto
    then show ?thesis by (simp add: sort_key_stable filter_sort milestones_by_def conj_commute)
  qed
  then show ?thesis by (simp add: milestonesByEngagement_def group_rows Let_def)
qed

interpretation milestones: pointwise_batch "milestonesByEngagement ms (\<lambda>_. False)" "milestones_by ms" for ms
  by unfold_locales (rule milestones_pointwise)

text \<open>
  C26.  Batching cannot be observed except in the number of queries: at any point of a request, loading
  a list of addresses settles every promise with the user row of its address, or null, as one query per
  address would; likewise for the milestones of engagements, in index order.  The database is asked
  for the keys not asked before, once each, in chunks of at most 500.
\<close>

theorem batching_is_transparent:
  assumes "loader_run (usersByStellarAddress us (\<lambda>_. False)) (user_by (rev us)) MAX_BATCH_SIZE s" and "loadMany ks s = (ps, s1)"
    and "loader_run (milestonesByEngagement ms (\<lambda>_. False)) (milestones_by ms) MAX_BATCH_SIZE t" and "loadMany ids t = (qs, t1)"
    and "addresses_unique us"
    and "u = dispatch (usersByStellarAddress us (\<lambda>_. False)) (Some MAX_BATCH_SIZE) s1"
    and "m = dispatch (milestonesByEngagement ms (\<lambda>_. False)) (Some MAX_BATCH_SIZE) t1"
  shows "map (l_done u) ps = map (\<lambda>k. Some (Inr (user_by us k))) ks \<and>
    map (l_done m) qs = map (\<lambda>k. Some (Inr (milestones_by ms k))) ids \<and>
    (\<exists>bs cs. l_batches u = l_batches s @ bs \<and> l_batches m = l_batches t @ cs \<and>
      concat bs = asked_for (dom (map_of (l_cache s))) ks \<and> concat cs = asked_for (dom (map_of (l_cache t))) ids \<and>
      list_all (\<lambda>b. b \<noteq> [] \<and> length b \<le> 500) (bs @ cs))"
proof -
  have n: "0 < MAX_BATCH_SIZE" by (simp add: MAX_BATCH_SIZE_def)
  have "user_by (rev us) = user_by us" using find_rev_unique [OF assms(5)] by (simp add: fun_eq_iff user_by_def)
  moreover note users.batching [OF assms(1) n assms(2)] milestones.batching [OF assms(3) n assms(4)]
  ultimately show ?thesis unfolding assms(6,7) by (auto simp: MAX_BATCH_SIZE_def)
qed

theorem batching_is_transparent_witness:
  "(let f = usersByStellarAddress (t_users world_db) (\<lambda>_. False);
        (ps, s1) = loadMany [''GC'', ''ZZ'', ''GC''] new_loader; u = dispatch f (Some MAX_BATCH_SIZE) s1
    in map (l_done u) ps = [Some (Inr (Some (mk_user ''uc'' COMPANY ''GC'' 1))), Some (Inr None), Some (Inr (Some (mk_user ''uc'' COMPANY ''GC'' 1)))])"
proof -
  let ?us = "t_users world_db" and ?ks = "[''GC'', ''ZZ'', ''GC'']"
  obtain ps s1 where l: "loadMany ?ks new_loader = (ps, s1 :: (string, user option) loader)" by fastforce
  have run: "loader_run (usersByStellarAddress ?us (\<lambda>_. False)) (user_by (rev ?us)) MAX_BATCH_SIZE new_loader"
    "loader_run (milestonesByEngagement [] (\<lambda>_. False)) (milestones_by []) MAX_BATCH_SIZE new_loader"
    by (rule loader_run.start)+
  have unique: "addresses_unique ?us" by (simp add: addresses_unique_def world_db_def mk_user_def)
  have "loadMany [] new_loader = ([], new_loader :: (string, milestone list) loader)" by simp
  from batching_is_transparent [OF run(1) l run(2) this unique refl refl]
  have "map (l_done (dispatch (usersByStellarAddress ?us (\<lambda>_. False)) (Some MAX_BATCH_SIZE) s1)) ps =
      map (\<lambda>k. Some (Inr (user_by ?us k))) ?ks" by blast
  moreover have "map (\<lambda>k. Some (Inr (user_by ?us k)) :: (string + user option) option) ?ks =
      [Some (Inr (Some (mk_user ''uc'' COMPANY ''GC'' 1))), Some (Inr None), Some (Inr (Some (mk_user ''uc'' COMPANY ''GC'' 1)))]"
    by (simp add: user_by_def world_db_def mk_user_def)
  ultimately show ?thesis using l by (simp add: Let_def)
qed

text \<open>A failed batch settles its promises with the error and leaves none of its keys cached.\<close>

lemma failed_batch_can_be_retried:
  assumes "f (map fst batch) = Inl e" and "k \<in> set (map fst batch)"
  shows "map_of (l_cache (runBatch f batch s)) k = None"
proof -
  have keep: "map_of (l_cache (fold (\<lambda>item. settle_one (item, Inl e)) batch t)) j = None" if "map_of (l_cache t) j = None" for batch t j
    using that
  proof (induction batch arbitrary: t)
    case (Cons item batch)
    then have "map_of (l_cache (settle_one (item, Inl e) t)) j = None"
      by (simp add: settle_one_def split_beta delete_conv')
    with Cons show ?case by simp
  qed simp
  have "map_of (l_cache (fold (\<lambda>item. settle_one (item, Inl e)) batch t)) k = None" for t
    using assms(2)
  proof (induction batch arbitrary: t)
    case (Cons item batch)
    show ?case
    proof (cases "k = fst item")
      case True
      then have "map_of (l_cache (settle_one (item, Inl e) t)) k = None" by (simp add: settle_one_def split_beta delete_conv')
      then show ?thesis by (simp add: keep)
    next
      case False
      with Cons show ?thesis by simp
    qed
  qed simp
  then show ?thesis by (simp add: runBatch_def assms(1) Let_def)
qed

end
