(* ===== verification/Privacy.thy ===== *)
theory Privacy
  imports Accounts
begin

text \<open>
  Erasure and retention of personal data: the erasure request (\<^verbatim>\<open>modules/users/gdpr.service.ts\<close>), the
  scheduled anonymisation (\<^verbatim>\<open>modules/users/pii-anonymization-scheduler.service.ts\<close>) and the retention job
  (\<^verbatim>\<open>common/retention/data-retention.service.ts\<close>), over the accounts and refresh tokens of
  \<^verbatim>\<open>Accounts\<close> and \<^verbatim>\<open>Sessions\<close>.
\<close>

section \<open>State\<close>

record person =
  p_account :: account
  p_avatarUrl :: "string option"
  p_slackWebhookUrl :: "string option"
  p_discordWebhookUrl :: "string option"
  p_teamsWebhookUrl :: "string option"
  p_rateLimitOverride :: "int option"
  p_anonymizedAt :: "time option"

abbreviation p_id :: "person \<Rightarrow> ident" where "p_id p \<equiv> a_id (p_account p)"
abbreviation p_deletedAt :: "person \<Rightarrow> time option" where "p_deletedAt p \<equiv> a_deletedAt (p_account p)"

record candidate =
  c_name :: "string option"
  c_email :: "string option"
  c_phone :: "string option"
  c_startDate :: "time option"
  c_role :: "string option"
  c_placedAt :: "time option"

record hire =
  h_engagement :: engagement
  h_candidate :: candidate

record notice =
  nt_userId :: ident
  nt_read :: bool
  nt_createdAt :: time

record sec_event =
  se_userId :: "ident option"
  se_ip :: "string option"
  se_userAgent :: "string option"
  se_createdAt :: time

record deletion_request =
  dr_id :: ident
  dr_userId :: ident
  dr_requestedAt :: time
  dr_processedAt :: "time option"
  dr_processedBy :: "ident option"

record privacy_db =
  people :: "person list"
  tokens :: session_db
  hires :: "hire list"
  notices :: "notice list"
  prefs :: "ident list"
  pushSubs :: "ident list"
  secEvents :: "sec_event list"
  idemKeys :: "time list"
  deletionRequests :: "deletion_request list"
  s3Deleted :: "string list"

text \<open>
  \<open>parseUrl\<close> is the URL parser (host name and path), \<open>wipeFails\<close> tells whether the transaction of an account
  throws, \<open>s3Fails\<close> whether the object store does.
\<close>

record privacy_env =
  parseUrl :: "string \<Rightarrow> (string \<times> string) option"
  bucket :: string
  wipeFails :: "ident \<Rightarrow> bool"
  s3Fails :: "string \<Rightarrow> bool"
  windowDays :: int
  passwordMatches :: "string \<Rightarrow> string \<Rightarrow> bool"
  signatureValid :: "string \<Rightarrow> string \<Rightarrow> string \<Rightarrow> bool"
  requestId :: "nat \<Rightarrow> ident"

section \<open>Erasure requests\<close>

record delete_dto =
  dd_password :: "string option"
  dd_signature :: "string option"
  dd_nonce :: "string option"

definition requireReauthentication :: "privacy_env \<Rightarrow> account \<Rightarrow> delete_dto \<Rightarrow> exn + unit" where
  "requireReauthentication w a dto =
     (if truthy (dd_password dto)
      then (if \<not> truthy (a_passwordHash a) then Inl BadRequestException
            else if \<not> passwordMatches w (the (dd_password dto)) (the (a_passwordHash a)) then Inl UnauthorizedException
            else Inr ())
      else if truthy (dd_signature dto)
      then (if \<not> truthy (a_stellarAddress a) then Inl BadRequestException
            else if \<not> truthy (dd_nonce dto) then Inl BadRequestException
            else if \<not> signatureValid w (the (a_stellarAddress a)) (the (dd_nonce dto)) (the (dd_signature dto))
            then Inl UnauthorizedException else Inr ())
      else Inl UnauthorizedException)"

definition takes_part :: "account \<Rightarrow> engagement \<Rightarrow> bool" where
  "takes_part a e \<longleftrightarrow> e_companyId e = Some (a_id a) \<or> e_recruiterId e = Some (a_id a) \<or> e_arbiterId e = Some (a_id a) \<or>
     truthy (a_stellarAddress a) \<and> the (a_stellarAddress a) \<in> {e_companyAddress e, e_recruiterAddress e, e_arbiterAddress e}"

definition assertNoActiveEngagements :: "account \<Rightarrow> privacy_db \<Rightarrow> exn + unit" where
  "assertNoActiveEngagements a s =
     (if 0 < count_where (\<lambda>h. e_status (h_engagement h) \<in> {ACTIVE, REPLACEMENT_REQUESTED} \<and> takes_part a (h_engagement h)) (hires s)
      then Inl ConflictException else Inr ())"

definition erased_account :: "time \<Rightarrow> account \<Rightarrow> account" where
  "erased_account t a = a\<lparr>a_name := None, a_email := None, a_googleId := None, a_deletedAt := Some t\<rparr>"

definition find_person :: "ident \<Rightarrow> privacy_db \<Rightarrow> person option" where
  "find_person uid s = List.find (\<lambda>p. p_id p = uid) (people s)"

definition put_person :: "ident \<Rightarrow> (person \<Rightarrow> person) \<Rightarrow> privacy_db \<Rightarrow> privacy_db" where
  "put_person uid f s = s\<lparr>people := update_where (\<lambda>p. p_id p = uid) f (people s)\<rparr>"

definition requestErasure :: "privacy_env \<Rightarrow> time \<Rightarrow> ident \<Rightarrow> delete_dto \<Rightarrow> privacy_db \<Rightarrow> (privacy_db, unit) outcome" where
  "requestErasure w t uid dto s = (case find_person uid s of
     None \<Rightarrow> throw NotFoundException s
   | Some p \<Rightarrow>
       if p_deletedAt p \<noteq> None then throw ConflictException s
       else (case requireReauthentication w (p_account p) dto of
               Inl x \<Rightarrow> throw x s
             | Inr _ \<Rightarrow> (case assertNoActiveEngagements (p_account p) s of
                 Inl x \<Rightarrow> throw x s
               | Inr _ \<Rightarrow>
                   (let s1 = put_person uid (\<lambda>p. p\<lparr>p_account := erased_account t (p_account p)\<rparr>) s
                    in return () (s1\<lparr>deletionRequests := deletionRequests s1 @
                         [\<lparr>dr_id = requestId w (length (deletionRequests s1)), dr_userId = uid, dr_requestedAt = t,
                           dr_processedAt = None, dr_processedBy = None\<rparr>]\<rparr>)))))"

definition processRequest :: "time \<Rightarrow> ident \<Rightarrow> ident \<Rightarrow> privacy_db \<Rightarrow> (privacy_db, unit) outcome" where
  "processRequest t rid adminId s =
     (if \<not> list_ex (\<lambda>r. dr_id r = rid) (deletionRequests s) then throw NotFoundException s
      else return () (s\<lparr>deletionRequests := update_where (\<lambda>r. dr_id r = rid)
             (\<lambda>r. r\<lparr>dr_processedAt := Some t, dr_processedBy := Some adminId\<rparr>) (deletionRequests s)\<rparr>))"

section \<open>Anonymisation\<close>

definition BATCH_SIZE :: nat where "BATCH_SIZE = 100"

text \<open>The key of an object in its URL, virtual-hosted or path style.\<close>

definition text_or_null :: "string \<Rightarrow> string option" where
  "text_or_null s = (if s = [] then None else Some s)"

definition extractS3Key :: "privacy_env \<Rightarrow> string \<Rightarrow> string option" where
  "extractS3Key w url = (case parseUrl w url of
     None \<Rightarrow> None
   | Some (host, path) \<Rightarrow>
       (let pathname = (if path \<noteq> [] \<and> hd path = CHR 0x2F then tl path else path);
            parts = split_on (CHR 0x2F) pathname
        in if starts_with (bucket w @ ''.'') host then text_or_null pathname
           else if hd parts = bucket w \<and> 1 < length parts then text_or_null (join_with ''/'' (tl parts))
           else None))"

text \<open>Best effort: an error of the object store is logged.\<close>

definition deleteAvatar :: "privacy_env \<Rightarrow> string \<Rightarrow> privacy_db \<Rightarrow> privacy_db" where
  "deleteAvatar w url s = (case extractS3Key w url of
     None \<Rightarrow> s | Some k \<Rightarrow> if s3Fails w k then s else s\<lparr>s3Deleted := s3Deleted s @ [k]\<rparr>)"

definition wiped_account :: "account \<Rightarrow> account" where
  "wiped_account a = a\<lparr>a_email := None, a_name := None, a_company := None, a_passwordHash := None, a_webhookUrl := None,
     a_webhookSecret := None, a_totpSecret := None, a_totpEnabled := False, a_failedLoginAttempts := 0, a_lockedUntil := None\<rparr>"

definition wiped :: "time \<Rightarrow> person \<Rightarrow> person" where
  "wiped t p = p\<lparr>p_account := wiped_account (p_account p), p_avatarUrl := None, p_rateLimitOverride := None,
     p_anonymizedAt := Some t\<rparr>"

definition wiped_candidate :: "candidate \<Rightarrow> candidate" where
  "wiped_candidate c = c\<lparr>c_name := None, c_email := None, c_phone := None, c_startDate := None, c_role := None\<rparr>"

definition wipe_candidates :: "string option \<Rightarrow> hire list \<Rightarrow> hire list" where
  "wipe_candidates addr hs = (if \<not> truthy addr then hs
     else update_where (\<lambda>h. the addr \<in> {e_companyAddress (h_engagement h), e_recruiterAddress (h_engagement h)})
            (\<lambda>h. h\<lparr>h_candidate := wiped_candidate (h_candidate h)\<rparr>) hs)"

text \<open>The body of the transaction.\<close>

definition wipe_user :: "time \<Rightarrow> ident \<Rightarrow> privacy_db \<Rightarrow> privacy_db" where
  "wipe_user t uid s =
     (let s1 = put_person uid (wiped t) s
      in s1\<lparr>tokens := (tokens s1)\<lparr>t_tokens := update_where (\<lambda>r. r_userId r = uid \<and> r_revokedAt r = None)
              (\<lambda>r. r\<lparr>r_revokedAt := Some t\<rparr>) (t_tokens (tokens s1))\<rparr>,
            notices := delete_where (\<lambda>n. nt_userId n = uid) (notices s1),
            prefs := delete_where (\<lambda>u. u = uid) (prefs s1),
            pushSubs := delete_where (\<lambda>u. u = uid) (pushSubs s1),
            secEvents := update_where (\<lambda>e. se_userId e = Some uid) (\<lambda>e. e\<lparr>se_ip := None, se_userAgent := None\<rparr>) (secEvents s1),
            hires := wipe_candidates (case find_person uid s1 of None \<Rightarrow> None | Some p \<Rightarrow> a_stellarAddress (p_account p)) (hires s1)\<rparr>)"

definition anonymizeUser :: "privacy_env \<Rightarrow> time \<Rightarrow> ident \<Rightarrow> string option \<Rightarrow> privacy_db \<Rightarrow> (privacy_db, unit) outcome" where
  "anonymizeUser w t uid avatar s =
     (let s0 = (if truthy avatar then deleteAvatar w (the avatar) s else s)
      in if wipeFails w uid then throw PlainError s0 else return () (wipe_user t uid s0))"

definition due :: "time \<Rightarrow> person \<Rightarrow> bool" where
  "due cutoff p \<longleftrightarrow> lt_opt (p_deletedAt p) cutoff \<and> p_anonymizedAt p = None"

definition due_people :: "time \<Rightarrow> privacy_db \<Rightarrow> person list" where
  "due_people cutoff s = sort_key (\<lambda>p. the (p_deletedAt p)) (filter (due cutoff) (people s))"

fun anonymize_batch :: "privacy_env \<Rightarrow> time \<Rightarrow> person list \<Rightarrow> privacy_db \<Rightarrow> nat \<times> privacy_db" where
  "anonymize_batch w t [] s = (0, s)"
| "anonymize_batch w t (p # ps) s =
     (case anonymizeUser w t (p_id p) (p_avatarUrl p) s of
        (Inr _, s1) \<Rightarrow> (let (n, s2) = anonymize_batch w t ps s1 in (n + 1, s2))
      | (Inl _, s1) \<Rightarrow> anonymize_batch w t ps s1)"

text \<open>The loop goes on while batches are full; it may not end.\<close>

partial_function (option) anonymize_loop :: "privacy_env \<Rightarrow> time \<Rightarrow> time \<Rightarrow> nat \<Rightarrow> privacy_db \<Rightarrow> (nat \<times> privacy_db) option" where
  "anonymize_loop w t cutoff sofar s =
     (let batch = take BATCH_SIZE (due_people cutoff s); (n, s1) = anonymize_batch w t batch s
      in if length batch = BATCH_SIZE then anonymize_loop w t cutoff (sofar + n) s1 else Some (sofar + n, s1))"

definition anonymizeDueAccounts :: "privacy_env \<Rightarrow> time \<Rightarrow> privacy_db \<Rightarrow> (nat \<times> privacy_db) option" where
  "anonymizeDueAccounts w t s = anonymize_loop w t (t - windowDays w * day_ms) 0 s"

section \<open>Retention\<close>

text \<open>The configured windows in days; \<open>-1\<close> disables a category.\<close>

record retention_config =
  readNoticeDays :: int
  unreadNoticeDays :: int
  securityEventDays :: int
  idempotencyDays :: int
  refreshTokenDays :: int
  deletionRequestDays :: int

type_synonym purge = "privacy_db \<Rightarrow> nat \<times> privacy_db"

definition daysAgo :: "time \<Rightarrow> int \<Rightarrow> time" where
  "daysAgo t n = t - n * day_ms"

definition purgeNotices :: "bool \<Rightarrow> int \<Rightarrow> time \<Rightarrow> purge" where
  "purgeNotices isRead n t s =
     (let p = (\<lambda>x. nt_read x = isRead \<and> nt_createdAt x < daysAgo t n)
      in (count_where p (notices s), s\<lparr>notices := delete_where p (notices s)\<rparr>))"

definition purgeSecurityEvents :: "int \<Rightarrow> time \<Rightarrow> purge" where
  "purgeSecurityEvents n t s =
     (let p = (\<lambda>x. se_createdAt x < daysAgo t n)
      in (count_where p (secEvents s), s\<lparr>secEvents := delete_where p (secEvents s)\<rparr>))"

definition purgeExpiredIdempotencyKeys :: "time \<Rightarrow> purge" where
  "purgeExpiredIdempotencyKeys t s =
     (let p = (\<lambda>x. x < t) in (count_where p (idemKeys s), s\<lparr>idemKeys := delete_where p (idemKeys s)\<rparr>))"

definition stale_token :: "int \<Rightarrow> time \<Rightarrow> refresh_token \<Rightarrow> bool" where
  "stale_token n t r \<longleftrightarrow> r_createdAt r < daysAgo t n \<and> (r_consumedAt r \<noteq> None \<or> r_revokedAt r \<noteq> None \<or> r_expiresAt r < t)"

definition purgeStaleRefreshTokens :: "int \<Rightarrow> time \<Rightarrow> purge" where
  "purgeStaleRefreshTokens n t s =
     (count_where (stale_token n t) (t_tokens (tokens s)),
      s\<lparr>tokens := (tokens s)\<lparr>t_tokens := delete_where (stale_token n t) (t_tokens (tokens s))\<rparr>\<rparr>)"

definition purgeProcessedDeletionRequests :: "int \<Rightarrow> time \<Rightarrow> purge" where
  "purgeProcessedDeletionRequests n t s =
     (let p = (\<lambda>x. dr_processedAt x \<noteq> None \<and> dr_requestedAt x < daysAgo t n)
      in (count_where p (deletionRequests s), s\<lparr>deletionRequests := delete_where p (deletionRequests s)\<rparr>))"

text \<open>The categories in order: name, window, purge.\<close>

definition runners :: "retention_config \<Rightarrow> time \<Rightarrow> (string \<times> int \<times> purge) list" where
  "runners c t =
     [(''notifications.read'', readNoticeDays c, purgeNotices True (readNoticeDays c) t),
      (''notifications.unread'', unreadNoticeDays c, purgeNotices False (unreadNoticeDays c) t),
      (''security_events'', securityEventDays c, purgeSecurityEvents (securityEventDays c) t),
      (''idempotency_keys'', idempotencyDays c, purgeExpiredIdempotencyKeys t),
      (''refresh_tokens'', refreshTokenDays c, purgeStaleRefreshTokens (refreshTokenDays c) t),
      (''data_deletion_requests'', deletionRequestDays c, purgeProcessedDeletionRequests (deletionRequestDays c) t)]"

datatype category_result = Deleted nat | Skipped | Failed

text \<open>\<open>down\<close> tells which categories fail with a database error; the others still run.\<close>

definition run_category :: "(string \<Rightarrow> bool) \<Rightarrow> string \<times> int \<times> purge \<Rightarrow> privacy_db \<Rightarrow> category_result \<times> privacy_db" where
  "run_category down c s = (case c of (name, days, purge) \<Rightarrow>
     if days = -1 then (Skipped, s)
     else if down name then (Failed, s)
     else (let (n, s1) = purge s in (Deleted n, s1)))"

fun run_categories :: "(string \<Rightarrow> bool) \<Rightarrow> (string \<times> int \<times> purge) list \<Rightarrow> privacy_db \<Rightarrow> (string \<times> category_result) list \<times> privacy_db" where
  "run_categories down [] s = ([], s)"
| "run_categories down (c # cs) s =
     (let (r, s1) = run_category down c s; (rs, s2) = run_categories down cs s1 in ((fst c, r) # rs, s2))"

definition total_deleted :: "(string \<times> category_result) list \<Rightarrow> nat" where
  "total_deleted rs = sum_list (map (\<lambda>(_, r). case r of Deleted n \<Rightarrow> n | _ \<Rightarrow> 0) rs)"

definition enforceRetention :: "retention_config \<Rightarrow> (string \<Rightarrow> bool) \<Rightarrow> time \<Rightarrow> privacy_db \<Rightarrow>
  ((string \<times> category_result) list \<times> nat) \<times> privacy_db" where
  "enforceRetention c down t s =
     (let (rs, s1) = run_categories down (runners c t) s in ((rs, total_deleted rs), s1))"

end
