(* ===== verification/PrivacyProperties.thy ===== *)
theory PrivacyProperties
  imports Privacy
begin

text \<open>
  The anonymisation job ends and wipes every due account it can, or never ends; what the retention job keeps.
\<close>

section \<open>One batch\<close>

definition wipes :: "privacy_env \<Rightarrow> person \<Rightarrow> bool" where
  "wipes w p \<longleftrightarrow> \<not> wipeFails w (p_id p)"

definition revoke_of :: "time \<Rightarrow> (ident \<Rightarrow> bool) \<Rightarrow> refresh_token list \<Rightarrow> refresh_token list" where
  "revoke_of t u = map (\<lambda>r. if u (r_userId r) \<and> r_revokedAt r = None then r\<lparr>r_revokedAt := Some t\<rparr> else r)"

lemma revoke_of_twice: "revoke_of t u (revoke_of t v rs) = revoke_of t (\<lambda>x. u x \<or> v x) rs"
  by (auto simp: revoke_of_def)

lemma revoke_of_nobody: "revoke_of t (\<lambda>_. False) rs = rs"
  by (simp add: revoke_of_def)

lemma wiped_simps [simp]:
  "p_id (wiped t p) = p_id p" "p_deletedAt (wiped t p) = p_deletedAt p" "wiped t (wiped t p) = wiped t p"
  "p_anonymizedAt (wiped t p) = Some t"
  by (simp_all add: wiped_def wiped_account_def)

lemma deleteAvatar_simps [simp]:
  "people (deleteAvatar w url s) = people s" "tokens (deleteAvatar w url s) = tokens s"
  by (simp_all add: deleteAvatar_def split: option.split)

lemma wipe_user_simps [simp]:
  "people (wipe_user t uid s) = map (\<lambda>p. if p_id p = uid then wiped t p else p) (people s)"
  "t_tokens (tokens (wipe_user t uid s)) = revoke_of t (\<lambda>x. x = uid) (t_tokens (tokens s))"
  by (simp_all add: wipe_user_def put_person_def Let_def update_where_def revoke_of_def)

lemma anonymizeUser_cases:
  "anonymizeUser w t uid avatar s =
     (let s0 = (if truthy avatar then deleteAvatar w (the avatar) s else s)
      in (if wipeFails w uid then Inl PlainError else Inr (), if wipeFails w uid then s0 else wipe_user t uid s0))"
  by (simp add: anonymizeUser_def throw_def return_def Let_def)

lemma anonymizeUser_tables:
  "people (snd (anonymizeUser w t uid avatar s)) =
     map (\<lambda>p. if p_id p = uid \<and> wipes w p then wiped t p else p) (people s)"
  "t_tokens (tokens (snd (anonymizeUser w t uid avatar s))) =
     revoke_of t (\<lambda>x. x = uid \<and> \<not> wipeFails w uid) (t_tokens (tokens s))"
  by (auto simp: anonymizeUser_cases Let_def wipes_def revoke_of_nobody intro!: map_idI [symmetric] map_cong)

lemma batch_Cons:
  "anonymize_batch w t (p # ps) s =
     (let r = anonymize_batch w t ps (snd (anonymizeUser w t (p_id p) (p_avatarUrl p) s))
      in (if wipes w p then fst r + 1 else fst r, snd r))"
  by (auto simp: anonymizeUser_cases Let_def wipes_def split: prod.splits)

lemma batch_people:
  "people (snd (anonymize_batch w t ps s)) =
     map (\<lambda>p. if p_id p \<in> p_id ` set ps \<and> wipes w p then wiped t p else p) (people s)"
  by (induction ps arbitrary: s)
     (auto simp: batch_Cons Let_def anonymizeUser_tables wipes_def simp del: anonymize_batch.simps(2))

lemma batch_tokens:
  "t_tokens (tokens (snd (anonymize_batch w t ps s))) =
     revoke_of t (\<lambda>x. \<exists>p \<in> set ps. p_id p = x \<and> wipes w p) (t_tokens (tokens s))"
proof (induction ps arbitrary: s)
  case (Cons q ps)
  have "(\<lambda>x. (\<exists>p \<in> set ps. p_id p = x \<and> wipes w p) \<or> x = p_id q \<and> \<not> wipeFails w (p_id q)) =
      (\<lambda>x. \<exists>p \<in> set (q # ps). p_id p = x \<and> wipes w p)"
    by (auto simp: wipes_def)
  then show ?case
    by (simp only: batch_Cons Let_def snd_conv Cons.IH anonymizeUser_tables revoke_of_twice)
qed (simp add: revoke_of_nobody)

lemma batch_count: "fst (anonymize_batch w t ps s) = count_where (wipes w) ps"
  by (induction ps arbitrary: s) (simp_all add: batch_Cons Let_def del: anonymize_batch.simps(2))

section \<open>The loop\<close>

lemma due_wiped [simp]: "\<not> due cutoff (wiped t p)"
  by (simp add: due_def)

lemma set_due_people: "set (due_people cutoff s) = {p \<in> set (people s). due cutoff p}"
  by (auto simp: due_people_def)

lemma filter_map_keep: "(\<And>p. p \<in> set xs \<Longrightarrow> P (f p) = (P p \<and> Q p)) \<Longrightarrow> (\<And>p. p \<in> set xs \<Longrightarrow> P (f p) \<Longrightarrow> f p = p) \<Longrightarrow>
  filter P (map f xs) = filter Q (filter P xs)"
  by (induction xs) auto

lemma due_after_batch:
  "due_people cutoff (snd (anonymize_batch w t ps s)) =
     filter (\<lambda>p. \<not> (p_id p \<in> p_id ` set ps \<and> wipes w p)) (due_people cutoff s)"
  unfolding due_people_def batch_people filter_sort
  by (rule arg_cong [where f = "sort_key _"], rule filter_map_keep) (auto split: if_splits)

text \<open>With distinct ids a batch is told by the rows themselves.\<close>

lemma distinct_due: "distinct (map p_id (people s)) \<Longrightarrow> distinct (map p_id (due_people cutoff s))"
  by (auto simp: due_people_def distinct_map inj_on_def)

lemma distinct_after_batch:
  "distinct (map p_id (people s)) \<Longrightarrow> distinct (map p_id (people (snd (anonymize_batch w t ps s))))"
  by (simp add: batch_people o_def if_distrib cong: if_cong)

lemma due_after_first:
  assumes "distinct (map p_id (people s))"
  shows "due_people cutoff (snd (anonymize_batch w t (take n (due_people cutoff s)) s)) =
     filter (\<lambda>p. \<not> wipes w p) (take n (due_people cutoff s)) @ drop n (due_people cutoff s)"
proof -
  define xs ys where "xs = take n (due_people cutoff s)" and "ys = drop n (due_people cutoff s)"
  have e: "due_people cutoff s = xs @ ys" by (simp add: xs_def ys_def)
  have d: "p_id ` set xs \<inter> p_id ` set ys = {}"
    using distinct_due [OF assms, of cutoff] unfolding e by simp
  have "filter (\<lambda>p. \<not> (p_id p \<in> p_id ` set xs \<and> wipes w p)) xs = filter (\<lambda>p. \<not> wipes w p) xs"
    by (rule filter_cong) auto
  moreover have "filter (\<lambda>p. \<not> (p_id p \<in> p_id ` set xs \<and> wipes w p)) ys = ys"
    using d by (force simp: filter_id_conv)
  ultimately show ?thesis
    unfolding xs_def [symmetric] ys_def [symmetric] unfolding due_after_batch e filter_append by simp
qed

text \<open>
  The result of the job: every account that is due and does not fail is wiped, and only its tokens are revoked.
\<close>

definition wiped_by :: "privacy_env \<Rightarrow> time \<Rightarrow> person \<Rightarrow> bool" where
  "wiped_by w cutoff p \<longleftrightarrow> due cutoff p \<and> wipes w p"

definition job_result :: "privacy_env \<Rightarrow> time \<Rightarrow> time \<Rightarrow> privacy_db \<Rightarrow> privacy_db \<Rightarrow> bool" where
  "job_result w t cutoff s s' \<longleftrightarrow>
     people s' = map (\<lambda>p. if wiped_by w cutoff p then wiped t p else p) (people s) \<and>
     t_tokens (tokens s') =
       revoke_of t (\<lambda>x. \<exists>p \<in> set (people s). p_id p = x \<and> wiped_by w cutoff p) (t_tokens (tokens s))"

lemma batch_ids:
  assumes "distinct (map p_id (people s))" "set ps \<subseteq> set (due_people cutoff s)" "p \<in> set (people s)"
  shows "p_id p \<in> p_id ` set ps \<longleftrightarrow> p \<in> set ps"
  using assms by (auto simp: set_due_people distinct_map inj_on_def)

lemma job_result_batch:
  assumes dist: "distinct (map p_id (people s))" and sub: "set ps \<subseteq> set (due_people cutoff s)"
    and rest: "job_result w t cutoff (snd (anonymize_batch w t ps s)) s'"
  shows "job_result w t cutoff s s'"
proof -
  let ?b = "\<lambda>p. if p_id p \<in> p_id ` set ps \<and> wipes w p then wiped t p else p"
  have due: "due cutoff p" if "p \<in> set (people s)" "p_id p \<in> p_id ` set ps" for p
    using batch_ids [OF dist sub that(1)] that(2) sub by (auto simp: set_due_people)
  have 1: "people s' = map (\<lambda>p. if wiped_by w cutoff p then wiped t p else p) (people s)"
    using rest due by (auto simp: job_result_def batch_people wiped_by_def)
  have "(\<exists>p \<in> ?b ` set (people s). p_id p = x \<and> wiped_by w cutoff p) \<or> (\<exists>p \<in> set ps. p_id p = x \<and> wipes w p) \<longleftrightarrow>
      (\<exists>p \<in> set (people s). p_id p = x \<and> wiped_by w cutoff p)" (is "?l \<longleftrightarrow> ?r") for x
  proof
    assume ?l
    then show ?r
    proof
      assume "\<exists>p \<in> ?b ` set (people s). p_id p = x \<and> wiped_by w cutoff p"
      then obtain q where "q \<in> set (people s)" "p_id (?b q) = x" "wiped_by w cutoff (?b q)" by blast
      then show ?r by (cases "p_id q \<in> p_id ` set ps \<and> wipes w q") (auto simp: wiped_by_def)
    next
      assume "\<exists>p \<in> set ps. p_id p = x \<and> wipes w p"
      then show ?r using sub unfolding wiped_by_def set_due_people by blast
    qed
  next
    assume ?r
    then obtain p where p: "p \<in> set (people s)" "p_id p = x" "wiped_by w cutoff p" by auto
    show ?l
    proof (cases "p \<in> set ps")
      case True
      then show ?thesis using p by (auto simp: wiped_by_def)
    next
      case False
      then have "?b p = p" using batch_ids [OF dist sub p(1)] by simp
      then have "p \<in> ?b ` set (people s)" using p(1) by (rule image_eqI [OF sym])
      then show ?thesis using p(2,3) by blast
    qed
  qed
  then have 2: "t_tokens (tokens s') =
      revoke_of t (\<lambda>x. \<exists>p \<in> set (people s). p_id p = x \<and> wiped_by w cutoff p) (t_tokens (tokens s))"
    using rest by (simp add: job_result_def batch_people batch_tokens revoke_of_twice)
  show ?thesis using 1 2 by (simp add: job_result_def)
qed

lemma job_result_done:
  assumes "distinct (map p_id (people s))" "filter (wipes w) (due_people cutoff s) = []"
  shows "job_result w t cutoff s s"
proof -
  have "\<not> wiped_by w cutoff p" if "p \<in> set (people s)" for p
    using assms(2) that by (auto simp: filter_empty_conv set_due_people wiped_by_def)
  then show ?thesis
    by (auto simp: job_result_def revoke_of_def intro!: map_idI [symmetric])
qed

section \<open>The job ends when fewer than a batch of accounts fail\<close>

lemma anonymize_loop_step:
  "anonymize_loop w t cutoff k s =
     (let b = take BATCH_SIZE (due_people cutoff s); r = anonymize_batch w t b s
      in if length b = BATCH_SIZE then anonymize_loop w t cutoff (k + fst r) (snd r) else Some (k + fst r, snd r))"
  by (subst anonymize_loop.simps) (simp add: Let_def split: prod.split)

lemma full_batch:
  fixes cutoff s w t
  defines "d \<equiv> due_people cutoff s" and "b \<equiv> take BATCH_SIZE (due_people cutoff s)"
  defines "d1 \<equiv> due_people cutoff (snd (anonymize_batch w t b s))"
  assumes dist: "distinct (map p_id (people s))" and few: "count_where (\<lambda>p. \<not> wipes w p) d < BATCH_SIZE"
    and full: "length b = BATCH_SIZE"
  shows "length d1 < length d" "count_where (\<lambda>p. \<not> wipes w p) d1 < BATCH_SIZE"
    "count_where (wipes w) b + count_where (wipes w) d1 = count_where (wipes w) d"
proof -
  have d1: "d1 = filter (\<lambda>p. \<not> wipes w p) b @ drop BATCH_SIZE d"
    unfolding d1_def b_def d_def by (rule due_after_first [OF dist])
  have split: "count_where P d = count_where P b + count_where P (drop BATCH_SIZE d)" for P
    unfolding b_def d_def by (metis append_take_drop_id count_where_append)
  have fail: "count_where (\<lambda>p. \<not> wipes w p) (filter (\<lambda>p. \<not> wipes w p) b) = count_where (\<lambda>p. \<not> wipes w p) b"
    "count_where (wipes w) (filter (\<lambda>p. \<not> wipes w p) b) = 0"
    "length (filter (\<lambda>p. \<not> wipes w p) b) = count_where (\<lambda>p. \<not> wipes w p) b"
    by (simp_all add: count_where_def conj_commute)
  have len: "length d = BATCH_SIZE + length (drop BATCH_SIZE d)"
    using full unfolding b_def d_def [symmetric] by simp
  show "length d1 < length d" using few split unfolding d1 len by (simp add: fail)
  show "count_where (\<lambda>p. \<not> wipes w p) d1 < BATCH_SIZE"
    using few split unfolding d1 by (simp add: fail)
  show "count_where (wipes w) b + count_where (wipes w) d1 = count_where (wipes w) d"
    unfolding d1 split [of "wipes w"] by (simp add: fail)
qed

lemma loop_ends:
  assumes "distinct (map p_id (people s))" "count_where (\<lambda>p. \<not> wipes w p) (due_people cutoff s) < BATCH_SIZE"
  shows "\<exists>s'. anonymize_loop w t cutoff k s = Some (k + count_where (wipes w) (due_people cutoff s), s') \<and>
    job_result w t cutoff s s'"
  using assms
proof (induction "length (due_people cutoff s)" arbitrary: k s rule: less_induct)
  case less
  let ?d = "due_people cutoff s" and ?b = "take BATCH_SIZE (due_people cutoff s)"
  define s1 where "s1 = snd (anonymize_batch w t ?b s)"
  note step = job_result_batch [OF less.prems(1) set_take_subset [of BATCH_SIZE ?d], where w = w and t = t, folded s1_def]
  have dist1: "distinct (map p_id (people s1))"
    unfolding s1_def by (rule distinct_after_batch [OF less.prems(1)])
  show ?case
  proof (cases "length ?b = BATCH_SIZE")
    case True
    note f = full_batch [OF less.prems True, where t = t, folded s1_def]
    obtain s' where s': "anonymize_loop w t cutoff (k + count_where (wipes w) ?b) s1 =
        Some (k + count_where (wipes w) ?b + count_where (wipes w) (due_people cutoff s1), s')"
      "job_result w t cutoff s1 s'"
      using less.hyps [OF f(1) dist1 f(2)] by blast
    have "anonymize_loop w t cutoff k s = anonymize_loop w t cutoff (k + count_where (wipes w) ?b) s1"
      unfolding anonymize_loop_step [of w t cutoff k s] Let_def s1_def batch_count using True by simp
    then have "anonymize_loop w t cutoff k s = Some (k + count_where (wipes w) ?d, s')"
      unfolding s'(1) f(3) [symmetric] by (simp add: add.assoc)
    then show ?thesis using step [OF s'(2)] by blast
  next
    case False
    then have b: "?b = ?d" by (simp add: min_def split: if_splits)
    have "filter (wipes w) (due_people cutoff s1) = []"
      unfolding s1_def due_after_first [OF less.prems(1)] using b by simp
    then have "job_result w t cutoff s s1"
      using step [OF job_result_done [OF dist1]] by blast
    moreover have "anonymize_loop w t cutoff k s = Some (k + count_where (wipes w) ?d, s1)"
      unfolding anonymize_loop_step [of w t cutoff k s] Let_def s1_def batch_count using False b by simp
    ultimately show ?thesis by blast
  qed
qed

lemma find_revoke_of:
  "List.find (\<lambda>r. r_tokenHash r = h) (revoke_of t u rs) =
     map_option (\<lambda>r. if u (r_userId r) \<and> r_revokedAt r = None then r\<lparr>r_revokedAt := Some t\<rparr> else r)
       (List.find (\<lambda>r. r_tokenHash r = h) rs)"
  by (induction rs) (auto simp: revoke_of_def)

lemma refresh_of_revoked:
  assumes "find_token e token d = Some r" "r_revokedAt r \<noteq> None"
  shows "fst (session_refresh e t race token d) = Inl UnauthorizedException"
  using assms by (auto simp: session_refresh_def throw_def)

lemma refresh_after_job:
  assumes "job_result w t cutoff s s'" "find_token e token (tokens s) = Some r"
    "list_ex (\<lambda>p. p_id p = r_userId r \<and> wiped_by w cutoff p) (people s)"
  shows "fst (session_refresh e t' race token (tokens s')) = Inl UnauthorizedException"
proof -
  have "\<exists>p \<in> set (people s). p_id p = r_userId r \<and> wiped_by w cutoff p"
    using assms(3) by (simp add: list_ex_iff)
  then have "\<exists>q. find_token e token (tokens s') = Some q \<and> r_revokedAt q \<noteq> None"
    using assms(1,2) by (simp add: find_token_def job_result_def find_revoke_of)
  then show ?thesis using refresh_of_revoked by blast
qed

lemma count_due: "count_where P (due_people cutoff s) = count_where (\<lambda>p. due cutoff p \<and> P p) (people s)"
  by (simp add: due_people_def count_where_def filter_sort conj_commute)

text \<open>
  C27. The anonymisation job ends whenever fewer than a batch of the due accounts fail.  It reports how many
  accounts it wiped, wipes exactly the due accounts whose transaction succeeds and leaves every other account
  as it is, and from then on no refresh token of a wiped account is accepted.
\<close>

theorem anonymisation_ends_and_wipes:
  assumes "cutoff = t - windowDays w * day_ms"
    and "distinct (map p_id (people s))"
    and "count_where (\<lambda>p. due cutoff p \<and> wipeFails w (p_id p)) (people s) < 100"
  shows "\<exists>s'. anonymizeDueAccounts w t s =
      Some (count_where (\<lambda>p. due cutoff p \<and> \<not> wipeFails w (p_id p)) (people s), s') \<and>
    people s' = map (\<lambda>p. if due cutoff p \<and> \<not> wipeFails w (p_id p) then wiped t p else p) (people s) \<and>
    (\<forall>e t' race token r. find_token e token (tokens s) = Some r \<and>
        list_ex (\<lambda>p. p_id p = r_userId r \<and> due cutoff p \<and> \<not> wipeFails w (p_id p)) (people s) \<longrightarrow>
      fst (session_refresh e t' race token (tokens s')) = Inl UnauthorizedException)"
proof -
  have "count_where (\<lambda>p. \<not> wipes w p) (due_people cutoff s) < BATCH_SIZE"
    using assms(3) by (simp add: count_due wipes_def BATCH_SIZE_def)
  from loop_ends [OF assms(2) this, of t 0] obtain s' where
    "anonymizeDueAccounts w t s = Some (count_where (wipes w) (due_people cutoff s), s')"
    and job: "job_result w t cutoff s s'"
    by (auto simp: anonymizeDueAccounts_def assms(1))
  then have "anonymizeDueAccounts w t s =
      Some (count_where (\<lambda>p. due cutoff p \<and> \<not> wipeFails w (p_id p)) (people s), s')"
    by (simp add: count_due wipes_def)
  moreover have "people s' = map (\<lambda>p. if due cutoff p \<and> \<not> wipeFails w (p_id p) then wiped t p else p) (people s)"
    using job by (simp add: job_result_def wiped_by_def wipes_def)
  moreover have "\<forall>e t' race token r. find_token e token (tokens s) = Some r \<and>
        list_ex (\<lambda>p. p_id p = r_userId r \<and> due cutoff p \<and> \<not> wipeFails w (p_id p)) (people s) \<longrightarrow>
      fst (session_refresh e t' race token (tokens s')) = Inl UnauthorizedException"
    using refresh_after_job [OF job] by (simp add: wiped_by_def wipes_def)
  ultimately show ?thesis by blast
qed

section \<open>A full batch of failing accounts\<close>

definition stuck :: "privacy_env \<Rightarrow> time \<Rightarrow> privacy_db \<Rightarrow> bool" where
  "stuck w cutoff s \<longleftrightarrow> BATCH_SIZE \<le> length (due_people cutoff s) \<and>
     list_all (\<lambda>p. wipeFails w (p_id p)) (take BATCH_SIZE (due_people cutoff s))"

lemma stuck_batch:
  assumes "stuck w cutoff s"
  shows "stuck w cutoff (snd (anonymize_batch w t (take BATCH_SIZE (due_people cutoff s)) s))"
proof -
  have "filter (\<lambda>p. \<not> (p_id p \<in> p_id ` set (take BATCH_SIZE (due_people cutoff s)) \<and> wipes w p)) (due_people cutoff s) =
      due_people cutoff s"
    using assms by (intro filter_True) (auto simp: stuck_def list_all_iff wipes_def)
  then show ?thesis using assms by (simp add: stuck_def due_after_batch)
qed

text \<open>
  When the hundred accounts that have waited longest all fail, the next batch is the same hundred: the job
  does not end, where its log message says that a failed account is retried on the next run.
\<close>

lemma stuck_never_ends:
  assumes "anonymize_loop w t cutoff k s = Some r"
  shows "\<not> stuck w cutoff s"
proof (rule anonymize_loop.raw_induct [where P = "\<lambda>w t cutoff k s r. \<not> stuck w cutoff s", OF _ assms])
  fix loop and w :: privacy_env and t cutoff and k :: nat and s and r :: "nat \<times> privacy_db"
  assume IH: "\<And>w t cutoff k s y. loop w t cutoff k s = Some y \<Longrightarrow> \<not> stuck w cutoff s"
    and eq: "(let batch = take BATCH_SIZE (due_people cutoff s); (n, s1) = anonymize_batch w t batch s
      in if length batch = BATCH_SIZE then loop w t cutoff (k + n) s1 else Some (k + n, s1)) = Some r"
  show "\<not> stuck w cutoff s"
  proof
    assume st: "stuck w cutoff s"
    then have "loop w t cutoff (k + fst (anonymize_batch w t (take BATCH_SIZE (due_people cutoff s)) s))
        (snd (anonymize_batch w t (take BATCH_SIZE (due_people cutoff s)) s)) = Some r"
      using eq by (simp add: stuck_def Let_def case_prod_unfold)
    then show False using IH stuck_batch [OF st] by blast
  qed
qed

lemma hundred_failures_hang_the_job:
  "stuck w (t - windowDays w * day_ms) s \<Longrightarrow> anonymizeDueAccounts w t s = None"
  using stuck_never_ends unfolding anonymizeDueAccounts_def by (cases "anonymize_loop w t (t - windowDays w * day_ms) 0 s") auto

section \<open>Erasure\<close>

text \<open>A granted request was authenticated, and the account takes part in no running engagement.\<close>

lemma erasure_granted:
  assumes "fst (requestErasure w t uid dto s) = Inr ()"
  obtains p where "find_person uid s = Some p" "p_deletedAt p = None"
    "requireReauthentication w (p_account p) dto = Inr ()" "assertNoActiveEngagements (p_account p) s = Inr ()"
  using assms by (auto simp: requestErasure_def throw_def split: option.splits if_splits sum.splits)

text \<open>The refresh tokens of an erased account stay valid until the anonymisation job.\<close>

lemma erasure_keeps_sessions: "tokens (snd (requestErasure w t uid dto s)) = tokens s"
  by (simp add: requestErasure_def throw_def return_def put_person_def Let_def split: option.split sum.split)

section \<open>Retention\<close>

definition kept_token :: "time \<Rightarrow> refresh_token \<Rightarrow> bool" where
  "kept_token t r \<longleftrightarrow> live r \<and> t \<le> r_expiresAt r"

definition pending :: "deletion_request \<Rightarrow> bool" where
  "pending r \<longleftrightarrow> dr_processedAt r = None"

text \<open>What a purge may not touch.\<close>

definition keeps :: "time \<Rightarrow> purge \<Rightarrow> bool" where
  "keeps t purge \<longleftrightarrow> (\<forall>s.
     filter (kept_token t) (t_tokens (tokens (snd (purge s)))) = filter (kept_token t) (t_tokens (tokens s)) \<and>
     filter pending (deletionRequests (snd (purge s))) = filter pending (deletionRequests s) \<and>
     filter (\<lambda>x. t \<le> x) (idemKeys (snd (purge s))) = filter (\<lambda>x. t \<le> x) (idemKeys s) \<and>
     people (snd (purge s)) = people s \<and> hires (snd (purge s)) = hires s)"

lemma filter_delete_where: "(\<And>r. p r \<Longrightarrow> \<not> q r) \<Longrightarrow> filter q (delete_where p rs) = filter q rs"
  by (induction rs) (auto simp: delete_where_def)

lemma purges_keep: "list_all (\<lambda>(_, _, purge). keeps t purge) (runners c t)"
  by (auto simp: runners_def keeps_def purgeNotices_def purgeSecurityEvents_def purgeExpiredIdempotencyKeys_def
      purgeStaleRefreshTokens_def purgeProcessedDeletionRequests_def stale_token_def kept_token_def live_def pending_def
      Let_def intro!: filter_delete_where)

lemma run_category_keeps:
  "(case c of (_, _, purge) \<Rightarrow> keeps t purge) \<Longrightarrow> keeps t (\<lambda>s. (0, snd (run_category down c s)))"
  by (auto simp: keeps_def run_category_def split: prod.splits) (metis snd_conv)+

lemma run_categories_keep:
  "list_all (\<lambda>(_, _, purge). keeps t purge) cs \<Longrightarrow> keeps t (\<lambda>s. (0, snd (run_categories down cs s)))"
proof (induction cs)
  case (Cons c cs)
  then have "keeps t (\<lambda>s. (0, snd (run_category down c s)))" "keeps t (\<lambda>s. (0, snd (run_categories down cs s)))"
    using run_category_keeps by simp_all
  then show ?case by (simp add: keeps_def Let_def split: prod.splits) (metis snd_conv)
qed (simp add: keeps_def)

text \<open>
  Whatever windows are configured and whichever categories fail, the retention job deletes no refresh
  token that is neither used, revoked nor expired, no erasure request that waits for an administrator and no
  idempotency key that has not expired, and it touches neither accounts nor engagements.
\<close>

lemma retention_keeps_what_is_in_use:
  "let s' = snd (enforceRetention c down t s)
   in filter (\<lambda>r. live r \<and> t \<le> r_expiresAt r) (t_tokens (tokens s')) = filter (\<lambda>r. live r \<and> t \<le> r_expiresAt r) (t_tokens (tokens s)) \<and>
      filter (\<lambda>r. dr_processedAt r = None) (deletionRequests s') = filter (\<lambda>r. dr_processedAt r = None) (deletionRequests s) \<and>
      filter (\<lambda>x. t \<le> x) (idemKeys s') = filter (\<lambda>x. t \<le> x) (idemKeys s) \<and>
      people s' = people s \<and> hires s' = hires s"
  using run_categories_keep [OF purges_keep, of t down c]
  by (simp add: keeps_def enforceRetention_def Let_def case_prod_unfold kept_token_def [abs_def] pending_def [abs_def])

section \<open>A concrete run\<close>

definition person1 :: "ident \<Rightarrow> time option \<Rightarrow> person" where
  "person1 i d = \<lparr>p_account = (blank_account i ''a@x'' RECRUITER)\<lparr>a_deletedAt := d\<rparr>, p_avatarUrl = None, p_slackWebhookUrl = None,
     p_discordWebhookUrl = None, p_teamsWebhookUrl = None, p_rateLimitOverride = None, p_anonymizedAt = None\<rparr>"

definition privacy_env1 :: privacy_env where
  "privacy_env1 = \<lparr>parseUrl = (\<lambda>_. None), bucket = ''b'', wipeFails = (\<lambda>i. i = ''u2''), s3Fails = (\<lambda>_. False), windowDays = 30,
     passwordMatches = (=), signatureValid = (\<lambda>_ _ _. False), requestId = (\<lambda>_. ''r'')\<rparr>"

definition token1 :: refresh_token where
  "token1 = \<lparr>r_id = ''k1'', r_userId = ''u1'', r_tokenHash = ''h1'', r_familyId = ''f1'', r_expiresAt = 90 * day_ms, r_consumedAt = None,
     r_revokedAt = None, r_lastUsedAt = None, r_createdAt = 0\<rparr>"

definition privacy_db1 :: privacy_db where
  "privacy_db1 = \<lparr>people = [person1 ''u1'' (Some 5), person1 ''u2'' (Some 3), person1 ''u3'' None],
     tokens = \<lparr>t_tokens = [token1], securityLog = [], families = 0, ss_seq = 0\<rparr>, hires = [], notices = [], prefs = [], pushSubs = [],
     secEvents = [], idemKeys = [], deletionRequests = [], s3Deleted = []\<rparr>"

lemma person1_simps [simp]:
  "p_id (person1 i d) = i" "due c (person1 i d) = lt_opt d c"
  by (simp_all add: person1_def blank_account_def due_def)

theorem anonymisation_ends_and_wipes_witness:
  "\<exists>s'. anonymizeDueAccounts privacy_env1 (40 * day_ms) privacy_db1 = Some (1, s') \<and>
     people s' = [wiped (40 * day_ms) (person1 ''u1'' (Some 5)), person1 ''u2'' (Some 3), person1 ''u3'' None] \<and>
     fst (session_refresh session_env1 (41 * day_ms) id ''h1'' (tokens s')) = Inl UnauthorizedException"
proof -
  have "10 * day_ms = 40 * day_ms - windowDays privacy_env1 * day_ms"
    by (simp add: privacy_env1_def)
  moreover have "distinct (map p_id (people privacy_db1))"
    by (simp add: privacy_db1_def)
  moreover have "count_where (\<lambda>p. due (10 * day_ms) p \<and> wipeFails privacy_env1 (p_id p)) (people privacy_db1) < 100"
    by (simp add: privacy_db1_def)
  ultimately obtain s' where r: "anonymizeDueAccounts privacy_env1 (40 * day_ms) privacy_db1 =
      Some (count_where (\<lambda>p. due (10 * day_ms) p \<and> \<not> wipeFails privacy_env1 (p_id p)) (people privacy_db1), s')"
    "people s' = map (\<lambda>p. if due (10 * day_ms) p \<and> \<not> wipeFails privacy_env1 (p_id p) then wiped (40 * day_ms) p else p)
       (people privacy_db1)"
    "\<And>e t' race token r. find_token e token (tokens privacy_db1) = Some r \<Longrightarrow>
        list_ex (\<lambda>p. p_id p = r_userId r \<and> due (10 * day_ms) p \<and> \<not> wipeFails privacy_env1 (p_id p)) (people privacy_db1) \<Longrightarrow>
      fst (session_refresh e t' race token (tokens s')) = Inl UnauthorizedException"
    using anonymisation_ends_and_wipes [of "10 * day_ms" "40 * day_ms" privacy_env1 privacy_db1] by blast
  have "fst (session_refresh session_env1 (41 * day_ms) id ''h1'' (tokens s')) = Inl UnauthorizedException"
    by (rule r(3) [of _ _ token1])
       (simp_all add: find_token_def privacy_db1_def token1_def session_env1_def privacy_env1_def day_ms_def)
  then show ?thesis
    using r(1,2) by (intro exI [of _ s']) (simp add: privacy_db1_def privacy_env1_def day_ms_def)
qed

end
