(* ===== verification/Locks.thy ===== *)
theory Locks
  imports Prelude
begin

text \<open>
  \<^verbatim>\<open>common/lock/distributed-lock.service.ts\<close>: the lock the scheduled jobs of several replicas share.  The Redis
  server is a parameter: \<open>set_nx\<close> is \<open>SET key token PX ttl NX\<close>, and \<open>get\<close> and \<open>del\<close> are the calls the release
  script makes; each command can also fail.  What Redis documents of them is stated by \<open>redis_laws\<close>.
\<close>

section \<open>The service\<close>

record 'r lock_server =
  set_nx :: "time \<Rightarrow> string \<Rightarrow> string \<Rightarrow> time \<Rightarrow> 'r \<Rightarrow> bool \<times> 'r"
  lk_get :: "time \<Rightarrow> string \<Rightarrow> 'r \<Rightarrow> string option"
  lk_del :: "string \<Rightarrow> 'r \<Rightarrow> 'r"

definition RELEASE_SCRIPT :: "'r lock_server \<Rightarrow> time \<Rightarrow> string \<Rightarrow> string \<Rightarrow> 'r \<Rightarrow> 'r" where
  "RELEASE_SCRIPT c t key token r = (if lk_get c t key r = Some token then lk_del c key r else r)"

text \<open>\<open>redisConnected\<close> is the outcome of \<open>onModuleInit\<close>.\<close>

definition lock_init :: "string option \<Rightarrow> bool \<Rightarrow> bool" where
  "lock_init redisUrl connects = (truthy redisUrl \<and> connects)"

text \<open>\<open>ok\<close> says whether the server answers the command; \<open>uuid\<close> is the token drawn.\<close>

definition tryAcquireLock :: "'r lock_server \<Rightarrow> bool \<Rightarrow> bool \<Rightarrow> string \<Rightarrow> time \<Rightarrow> string \<Rightarrow> time \<Rightarrow> 'r \<Rightarrow> string option \<times> 'r" where
  "tryAcquireLock c redisConnected ok uuid t key ttl r =
     (if \<not> redisConnected then (Some uuid, r)
      else if \<not> ok then (Some uuid, r)
      else (case set_nx c t key uuid ttl r of (True, r') \<Rightarrow> (Some uuid, r') | (False, r') \<Rightarrow> (None, r')))"

definition releaseLock :: "'r lock_server \<Rightarrow> bool \<Rightarrow> bool \<Rightarrow> time \<Rightarrow> string \<Rightarrow> string \<Rightarrow> 'r \<Rightarrow> 'r" where
  "releaseLock c redisConnected ok t key token r =
     (if \<not> redisConnected then r else if ok then RELEASE_SCRIPT c t key token r else r)"

text \<open>The body of \<open>withLock\<close> may throw; the lock is released either way.  It ends at time \<open>t'\<close>.\<close>

definition withLock :: "'r lock_server \<Rightarrow> bool \<Rightarrow> bool \<Rightarrow> bool \<Rightarrow> string \<Rightarrow> time \<Rightarrow> time \<Rightarrow> string \<Rightarrow> time \<Rightarrow>
  ('r \<Rightarrow> (exn + 'a) \<times> 'r) \<Rightarrow> 'r \<Rightarrow> (exn + 'a option) \<times> 'r" where
  "withLock c conn ok ok' uuid t t' key ttl body r =
     (case tryAcquireLock c conn ok uuid t key ttl r of
        (None, r1) \<Rightarrow> (Inr None, r1)
      | (Some token, r1) \<Rightarrow>
          (case body r1 of (res, r2) \<Rightarrow> (map_sum id Some res, releaseLock c conn ok' t' key token r2)))"

section \<open>Runs of several replicas\<close>

text \<open>A grant is a lock somebody believes to hold: the key, the token and the time it lapses on the server.\<close>

record grant =
  g_key :: string
  g_token :: string
  g_until :: time

record 'r lock_world =
  lw_time :: time
  lw_server :: 'r
  lw_grants :: "grant list"
  lw_tokens :: "string list"

text \<open>
  A step of some replica: it asks for a lock with a token never drawn before, gives one back (whether the server
  is reached or not), or dies holding it; or time passes.
\<close>

datatype lock_step = Acquire string time string | Release nat bool | Die nat | Tick nat

definition drop_nth :: "nat \<Rightarrow> 'a list \<Rightarrow> 'a list" where
  "drop_nth i xs = take i xs @ drop (Suc i) xs"

definition lock_step :: "'r lock_server \<Rightarrow> lock_step \<Rightarrow> 'r lock_world \<Rightarrow> 'r lock_world" where
  "lock_step c a w = (case a of
     Acquire key ttl uuid \<Rightarrow>
       (if uuid \<in> set (lw_tokens w) \<or> ttl \<le> 0 then w
        else (case tryAcquireLock c True True uuid (lw_time w) key ttl (lw_server w) of
          (None, r) \<Rightarrow> w\<lparr>lw_server := r, lw_tokens := uuid # lw_tokens w\<rparr>
        | (Some token, r) \<Rightarrow> w\<lparr>lw_server := r, lw_tokens := uuid # lw_tokens w,
            lw_grants := \<lparr>g_key = key, g_token = token, g_until = lw_time w + ttl\<rparr> # lw_grants w\<rparr>))
   | Release i ok \<Rightarrow>
       (if i < length (lw_grants w)
        then w\<lparr>lw_server := releaseLock c True ok (lw_time w) (g_key (lw_grants w ! i)) (g_token (lw_grants w ! i)) (lw_server w),
             lw_grants := drop_nth i (lw_grants w)\<rparr>
        else w)
   | Die i \<Rightarrow> w\<lparr>lw_grants := drop_nth i (lw_grants w)\<rparr>
   | Tick d \<Rightarrow> w\<lparr>lw_time := lw_time w + int d\<rparr>)"

definition run_locks :: "'r lock_server \<Rightarrow> lock_step list \<Rightarrow> 'r lock_world \<Rightarrow> 'r lock_world" where
  "run_locks c as w = fold (lock_step c) as w"

definition fresh_locks :: "'r \<Rightarrow> 'r lock_world" where
  "fresh_locks r = \<lparr>lw_time = 0, lw_server = r, lw_grants = [], lw_tokens = []\<rparr>"

text \<open>Those who hold the lock of a key at the moment.\<close>

definition holders :: "string \<Rightarrow> 'r lock_world \<Rightarrow> grant list" where
  "holders key w = filter (\<lambda>g. g_key g = key \<and> lw_time w < g_until g) (lw_grants w)"

section \<open>What Redis documents\<close>

text \<open>
  \<open>SET \<dots> NX PX ttl\<close> succeeds exactly when the key is missing, and then the key holds the token until the time
  is up and is missing from then on; otherwise nothing changes.  \<open>DEL\<close> removes the key.  Neither touches
  another key, and a key that is missing stays missing while nothing is set.
\<close>

definition set_law :: "'r lock_server \<Rightarrow> bool" where
  "set_law c \<longleftrightarrow> (\<forall>t k v ttl r t' k'. t \<le> t' \<and> 0 < ttl \<longrightarrow>
     fst (set_nx c t k v ttl r) = (lk_get c t k r = None) \<and>
     lk_get c t' k' (snd (set_nx c t k v ttl r)) =
       (if lk_get c t k r = None \<and> k' = k then (if t' < t + ttl then Some v else None) else lk_get c t' k' r))"

definition del_law :: "'r lock_server \<Rightarrow> bool" where
  "del_law c \<longleftrightarrow> (\<forall>t k r k'. lk_get c t k' (lk_del c k r) = (if k' = k then None else lk_get c t k' r))"

definition redis_laws :: "'r lock_server \<Rightarrow> bool" where
  "redis_laws c \<longleftrightarrow> set_law c \<and> del_law c"

lemma set_lawD:
  assumes "redis_laws c" "t \<le> t'" "0 < ttl"
  shows "fst (set_nx c t k v ttl r) = (lk_get c t k r = None)"
    and "lk_get c t' k' (snd (set_nx c t k v ttl r)) =
       (if lk_get c t k r = None \<and> k' = k then (if t' < t + ttl then Some v else None) else lk_get c t' k' r)"
  using assms unfolding redis_laws_def set_law_def by blast+

lemma del_lawD: "redis_laws c \<Longrightarrow> lk_get c t k' (lk_del c k r) = (if k' = k then None else lk_get c t k' r)"
  unfolding redis_laws_def del_law_def by blast

section \<open>Mutual exclusion\<close>

text \<open>
  The invariant: tokens of grants are distinct and were drawn, and a grant that has not lapsed is what the
  server holds at every moment until it lapses.
\<close>

definition lock_inv :: "'r lock_server \<Rightarrow> 'r lock_world \<Rightarrow> bool" where
  "lock_inv c w \<longleftrightarrow>
     distinct (map g_token (lw_grants w)) \<and> g_token ` set (lw_grants w) \<subseteq> set (lw_tokens w) \<and>
     (\<forall>g \<in> set (lw_grants w). \<forall>t. lw_time w \<le> t \<and> t < g_until g \<longrightarrow> lk_get c t (g_key g) (lw_server w) = Some (g_token g))"

lemma lock_invI:
  assumes "distinct (map g_token (lw_grants w))" "g_token ` set (lw_grants w) \<subseteq> set (lw_tokens w)"
    and "\<And>g t. g \<in> set (lw_grants w) \<Longrightarrow> lw_time w \<le> t \<Longrightarrow> t < g_until g \<Longrightarrow>
      lk_get c t (g_key g) (lw_server w) = Some (g_token g)"
  shows "lock_inv c w"
  using assms unfolding lock_inv_def by blast

lemma lock_invD:
  assumes "lock_inv c w"
  shows "distinct (map g_token (lw_grants w))" "g_token ` set (lw_grants w) \<subseteq> set (lw_tokens w)"
    and "g \<in> set (lw_grants w) \<Longrightarrow> lw_time w \<le> t \<Longrightarrow> t < g_until g \<Longrightarrow>
      lk_get c t (g_key g) (lw_server w) = Some (g_token g)"
  using assms unfolding lock_inv_def by blast+

lemma set_drop_nth: "set (drop_nth i xs) \<subseteq> set xs"
  using set_take_subset [of i xs] set_drop_subset [of "Suc i" xs] by (auto simp: drop_nth_def)

lemma distinct_drop_nth: "distinct (map f xs) \<Longrightarrow> distinct (map f (drop_nth i xs))"
proof (induction xs arbitrary: i)
  case (Cons x xs)
  show ?case
  proof (cases i)
    case 0
    then show ?thesis using Cons.prems by (simp add: drop_nth_def)
  next
    case (Suc j)
    have "drop_nth i (x # xs) = x # drop_nth j xs" by (simp add: drop_nth_def Suc)
    then show ?thesis using Cons.IH [of j] Cons.prems set_drop_nth [of j xs] by auto
  qed
qed (simp add: drop_nth_def)

lemma drop_nth_token:
  assumes "distinct (map f xs)" "i < length xs" "x \<in> set (drop_nth i xs)"
  shows "f x \<noteq> f (xs ! i)"
  using assms
proof (induction xs arbitrary: i)
  case (Cons y xs)
  show ?case
  proof (cases i)
    case 0
    then show ?thesis using Cons.prems by (simp add: drop_nth_def) (metis imageI)
  next
    case (Suc j)
    have d: "drop_nth i (y # xs) = y # drop_nth j xs" by (simp add: drop_nth_def Suc)
    have "xs ! j \<in> set xs" using Cons.prems(2) Suc by simp
    then show ?thesis using Cons.IH [of j] Cons.prems Suc d by auto
  qed
qed simp

lemma acquire_keeps:
  assumes r: "redis_laws c" and i: "lock_inv c w"
  shows "lock_inv c (lock_step c (Acquire key ttl uuid) w)"
proof (cases "uuid \<in> set (lw_tokens w) \<or> ttl \<le> 0")
  case True
  then show ?thesis using i by (simp add: lock_step_def)
next
  case False
  obtain b r' where s: "set_nx c (lw_time w) key uuid ttl (lw_server w) = (b, r')" by fastforce
  have free: "b = (lk_get c (lw_time w) key (lw_server w) = None)"
    using set_lawD(1) [OF r, of "lw_time w" "lw_time w" ttl] False by (metis fst_conv linorder_not_less order_refl s)
  have get: "lk_get c t k r' = (if b \<and> k = key then (if t < lw_time w + ttl then Some uuid else None) else lk_get c t k (lw_server w))"
    if "lw_time w \<le> t" for t k
    using set_lawD(2) [OF r that, of ttl k key uuid "lw_server w"] False by (simp add: s free)
  have old: "lk_get c t (g_key g) r' = Some (g_token g)" if "g \<in> set (lw_grants w)" "lw_time w \<le> t" "t < g_until g" for g t
  proof -
    have "lk_get c (lw_time w) (g_key g) (lw_server w) = Some (g_token g)"
      using lock_invD(3) [OF i that(1), of "lw_time w"] that(2,3) by simp
    then have "\<not> (b \<and> g_key g = key)" using free by auto
    then show ?thesis using get [OF that(2), of "g_key g"] lock_invD(3) [OF i that] by auto
  qed
  have new: "lk_get c t key r' = Some uuid" if "b" "lw_time w \<le> t" "t < lw_time w + ttl" for t
    using get [OF that(2)] that by simp
  have fresh: "uuid \<notin> g_token ` set (lw_grants w)" using lock_invD(2) [OF i] False by blast
  show ?thesis
  proof (cases b)
    case True
    have "lock_step c (Acquire key ttl uuid) w = w\<lparr>lw_server := r', lw_tokens := uuid # lw_tokens w,
        lw_grants := \<lparr>g_key = key, g_token = uuid, g_until = lw_time w + ttl\<rparr> # lw_grants w\<rparr>"
      using False s True by (simp add: lock_step_def tryAcquireLock_def)
    then show ?thesis
      using lock_invD(1,2) [OF i] fresh old new [OF True] by (intro lock_invI) auto
  next
    case F: False
    have "lock_step c (Acquire key ttl uuid) w = w\<lparr>lw_server := r', lw_tokens := uuid # lw_tokens w\<rparr>"
      using False s F by (simp add: lock_step_def tryAcquireLock_def)
    then show ?thesis using lock_invD(1,2) [OF i] old by (intro lock_invI) auto
  qed
qed

lemma release_keeps:
  assumes r: "redis_laws c" and i: "lock_inv c w"
  shows "lock_inv c (lock_step c (Release n ok) w)"
proof (cases "n < length (lw_grants w)")
  case True
  define g0 where "g0 = lw_grants w ! n"
  define r' where "r' = releaseLock c True ok (lw_time w) (g_key g0) (g_token g0) (lw_server w)"
  have w: "lock_step c (Release n ok) w = w\<lparr>lw_server := r', lw_grants := drop_nth n (lw_grants w)\<rparr>"
    using True by (simp add: lock_step_def r'_def g0_def)
  have "lk_get c t (g_key g) r' = Some (g_token g)"
    if g: "g \<in> set (drop_nth n (lw_grants w))" and t: "lw_time w \<le> t" "t < g_until g" for g t
  proof -
    have m: "g \<in> set (lw_grants w)" using g set_drop_nth by fast
    have ne: "g_token g \<noteq> g_token g0" unfolding g0_def by (rule drop_nth_token [OF lock_invD(1) [OF i] True g])
    have h: "lk_get c (lw_time w) (g_key g) (lw_server w) = Some (g_token g)"
      using lock_invD(3) [OF i m, of "lw_time w"] t by simp
    show ?thesis
      using ne h lock_invD(3) [OF i m t] by (auto simp: r'_def releaseLock_def RELEASE_SCRIPT_def del_lawD [OF r])
  qed
  then show ?thesis
    unfolding w using subset_trans [OF image_mono [OF set_drop_nth] lock_invD(2) [OF i]]
      distinct_drop_nth [OF lock_invD(1) [OF i]]
    by (intro lock_invI) simp_all
qed (use i in \<open>simp add: lock_step_def\<close>)

lemma lock_step_keeps:
  assumes "redis_laws c" "lock_inv c w"
  shows "lock_inv c (lock_step c a w)"
proof (cases a)
  case (Acquire key ttl uuid)
  then show ?thesis using acquire_keeps [OF assms] by simp
next
  case (Release n ok)
  then show ?thesis using release_keeps [OF assms] by simp
next
  case (Die n)
  have "lock_step c a w = w\<lparr>lw_grants := drop_nth n (lw_grants w)\<rparr>" by (simp add: lock_step_def Die)
  then show ?thesis
    using subset_trans [OF image_mono [OF set_drop_nth] lock_invD(2) [OF assms(2)]]
      distinct_drop_nth [OF lock_invD(1) [OF assms(2)]] lock_invD(3) [OF assms(2) subsetD [OF set_drop_nth]]
    by (intro lock_invI) simp_all
next
  case (Tick d)
  then show ?thesis using lock_invD [OF assms(2)] by (intro lock_invI) (simp_all add: lock_step_def)
qed

lemma run_locks_keeps: "redis_laws c \<Longrightarrow> lock_inv c w \<Longrightarrow> lock_inv c (run_locks c as w)"
  unfolding run_locks_def by (induction as arbitrary: w) (simp_all add: lock_step_keeps)

lemma lock_inv_exclusive:
  assumes "lock_inv c w"
  shows "length (holders key w) \<le> 1"
proof -
  have d: "distinct (map g_token (holders key w))"
    unfolding holders_def by (rule distinct_map_filter) (rule lock_invD(1) [OF assms])
  have same: "g_token g = the (lk_get c (lw_time w) key (lw_server w))" if "g \<in> set (holders key w)" for g
  proof -
    have "g \<in> set (lw_grants w)" "g_key g = key" "lw_time w < g_until g" using that by (simp_all add: holders_def)
    then show ?thesis using lock_invD(3) [OF assms, of g "lw_time w"] by simp
  qed
  have "set (map g_token (holders key w)) \<subseteq> {the (lk_get c (lw_time w) key (lw_server w))}"
  proof
    fix x assume "x \<in> set (map g_token (holders key w))"
    then obtain g where "g \<in> set (holders key w)" "x = g_token g" by fastforce
    then show "x \<in> {the (lk_get c (lw_time w) key (lw_server w))}" using same by simp
  qed
  then have "card (set (map g_token (holders key w))) \<le> 1" using card_mono [of "{the (lk_get c (lw_time w) key (lw_server w))}"] by simp
  then show ?thesis using distinct_card [OF d] by simp
qed

text \<open>
  C31. However many replicas ask for locks, give them back late, early or not at all, or die holding them: at
  every moment at most one of them holds the lock of a job that has not lapsed, as long as the server answers
  the requests for locks.  In particular giving back a lapsed lock never frees the lock of the next holder.
\<close>

theorem one_holder_at_a_time:
  assumes "redis_laws c"
  shows "length (holders key (run_locks c as (fresh_locks r))) \<le> 1"
proof -
  have "lock_inv c (fresh_locks r)" by (intro lock_invI) (simp_all add: fresh_locks_def)
  then show ?thesis by (rule lock_inv_exclusive [OF run_locks_keeps [OF assms(1)]])
qed

text \<open>Without a connection, or when the server fails, everybody is granted the lock.\<close>

lemma fails_open:
  "\<not> conn \<or> \<not> ok \<Longrightarrow> fst (tryAcquireLock c conn ok uuid t key ttl r) = Some uuid"
  by (auto simp: tryAcquireLock_def)

text \<open>A job that runs under the lock leaves it free, whether it succeeds or throws.\<close>

lemma withLock_releases:
  assumes "redis_laws c" "0 < ttl" "lk_get c t key r = None" "\<And>r'. snd (body r') = r'" "t \<le> t'"
  shows "lk_get c t' key (snd (withLock c True True True uuid t t' key ttl body r)) = None"
    and "fst (withLock c True True True uuid t t' key ttl body r) =
      map_sum id Some (fst (body (snd (set_nx c t key uuid ttl r))))"
proof -
  obtain r' where s: "set_nx c t key uuid ttl r = (True, r')"
    using set_lawD(1) [OF assms(1) order_refl assms(2), of t key uuid r] assms(3)
    by (cases "set_nx c t key uuid ttl r") simp
  have g: "lk_get c t' key r' = (if t' < t + ttl then Some uuid else None)"
    using set_lawD(2) [OF assms(1,5,2), of key key uuid r] assms(3) by (simp add: s)
  obtain x where b: "body r' = (x, r')" using assms(4) [of r'] by (cases "body r'") simp
  show "lk_get c t' key (snd (withLock c True True True uuid t t' key ttl body r)) = None"
    using g by (auto simp: withLock_def tryAcquireLock_def s b releaseLock_def RELEASE_SCRIPT_def del_lawD [OF assms(1)] split: if_splits)
  show "fst (withLock c True True True uuid t t' key ttl body r) = map_sum id Some (fst (body (snd (set_nx c t key uuid ttl r))))"
    by (simp add: withLock_def tryAcquireLock_def s b)
qed

section \<open>A concrete server\<close>

definition map_server :: "(string \<Rightarrow> (string \<times> time) option) lock_server" where
  "map_server =
     \<lparr>set_nx = (\<lambda>t k v ttl m. case m k of
          Some (_, e) \<Rightarrow> if t < e then (False, m) else (True, m(k := Some (v, t + ttl)))
        | None \<Rightarrow> (True, m(k := Some (v, t + ttl)))),
      lk_get = (\<lambda>t k m. case m k of Some (v, e) \<Rightarrow> if t < e then Some v else None | None \<Rightarrow> None),
      lk_del = (\<lambda>k m. m(k := None))\<rparr>"

lemma map_server_laws: "redis_laws map_server"
  unfolding redis_laws_def set_law_def del_law_def
  by (intro conjI allI impI) (auto simp: map_server_def split: option.splits if_splits)

definition lock_run1 :: "lock_step list" where
  "lock_run1 = [Acquire ''job'' 10 ''a'', Acquire ''job'' 10 ''b'', Tick 10, Acquire ''job'' 10 ''c'', Release 1 True, Acquire ''job'' 5 ''d'']"

theorem one_holder_at_a_time_witness:
  "length (holders ''job'' (run_locks map_server lock_run1 (fresh_locks Map.empty))) \<le> 1 \<and>
   map g_token (holders ''job'' (run_locks map_server lock_run1 (fresh_locks Map.empty))) = [''c'']"
proof
  show "length (holders ''job'' (run_locks map_server lock_run1 (fresh_locks Map.empty))) \<le> 1"
    by (rule one_holder_at_a_time) (rule map_server_laws)
  show "map g_token (holders ''job'' (run_locks map_server lock_run1 (fresh_locks Map.empty))) = [''c'']"
    by (simp add: lock_run1_def run_locks_def lock_step_def fresh_locks_def holders_def tryAcquireLock_def
      releaseLock_def RELEASE_SCRIPT_def map_server_def drop_nth_def)
qed

end
