(* ===== verification/Idempotency.thy ===== *)
theory Idempotency
  imports Prelude
begin

text \<open>
  Replay protection of repeated requests: \<^verbatim>\<open>common/idempotency/idempotency.service.ts\<close> and
  \<^verbatim>\<open>common/interceptors/idempotency.interceptor.ts\<close>.  A request is looked up, and if it is new the handler
  runs and answers; its response is stored afterwards, without the answer waiting for it.  Requests of several
  clients therefore interleave as explicit steps.

  A response is an optional value: \<open>None\<close> is null or undefined, which the column does not accept.
\<close>

section \<open>The service\<close>

record 'v idempotency_row =
  ik_key :: string
  ik_userId :: ident
  ik_response :: 'v
  ik_expiresAt :: time

definition IDEMPOTENCY_KEY_TTL_MS :: int where
  "IDEMPOTENCY_KEY_TTL_MS = 24 * 60 * 60 * 1000"

definition find_row :: "string \<Rightarrow> ident \<Rightarrow> 'v idempotency_row list \<Rightarrow> 'v idempotency_row option" where
  "find_row k u rows = List.find (\<lambda>r. ik_key r = k \<and> ik_userId r = u) rows"

definition checkAndReturn :: "time \<Rightarrow> string \<Rightarrow> ident \<Rightarrow> 'v idempotency_row list \<Rightarrow> 'v option" where
  "checkAndReturn t k u rows = (case find_row k u rows of
     None \<Rightarrow> None
   | Some r \<Rightarrow> if t < ik_expiresAt r then Some (ik_response r) else None)"

definition store_response :: "time \<Rightarrow> string \<Rightarrow> ident \<Rightarrow> 'v option \<Rightarrow> 'v idempotency_row list \<Rightarrow> ('v idempotency_row list, unit) outcome" where
  "store_response t k u response rows =
     (case response of
        None \<Rightarrow> throw PlainError rows
      | Some v \<Rightarrow>
          (if find_row k u rows = None
           then return () (rows @ [\<lparr>ik_key = k, ik_userId = u, ik_response = v, ik_expiresAt = t + IDEMPOTENCY_KEY_TTL_MS\<rparr>])
           else return () (update_where (\<lambda>r. ik_key r = k \<and> ik_userId r = u)
             (\<lambda>r. r\<lparr>ik_response := v, ik_expiresAt := t + IDEMPOTENCY_KEY_TTL_MS\<rparr>) rows)))"

section \<open>The interceptor\<close>

text \<open>
  \<open>iw_ran\<close> counts the handlers run for a key of a user, \<open>iw_pending\<close> are the responses still to be stored,
  and \<open>iw_answers\<close> what was answered, latest first.
\<close>

record 'v idempotency_world =
  iw_time :: time
  iw_rows :: "'v idempotency_row list"
  iw_pending :: "(string \<times> ident \<times> 'v option) list"
  iw_ran :: "(string option \<times> ident option) list"
  iw_answers :: "(string option \<times> ident option \<times> (exn + 'v option)) list"

text \<open>
  A request: whether the route is marked, the header, the user, and what its handler would do now.  A handler
  that throws is answered with the error, and nothing is stored.
\<close>

record 'v idempotent_request =
  iq_marked :: bool
  iq_key :: "string option"
  iq_user :: "ident option"
  iq_handler :: "exn + 'v option"

definition intercepted :: "'v idempotent_request \<Rightarrow> bool" where
  "intercepted q = (iq_marked q \<and> truthy (iq_key q) \<and> truthy (iq_user q))"

definition run_handler :: "'v idempotent_request \<Rightarrow> 'v idempotency_world \<Rightarrow> 'v idempotency_world" where
  "run_handler q w = w\<lparr>iw_ran := (iq_key q, iq_user q) # iw_ran w,
     iw_answers := (iq_key q, iq_user q, iq_handler q) # iw_answers w\<rparr>"

definition intercept_request :: "'v idempotent_request \<Rightarrow> 'v idempotency_world \<Rightarrow> 'v idempotency_world" where
  "intercept_request q w =
     (if \<not> intercepted q then run_handler q w
      else (let k = the (iq_key q); u = the (iq_user q) in
        case checkAndReturn (iw_time w) k u (iw_rows w) of
          Some v \<Rightarrow> w\<lparr>iw_answers := (iq_key q, iq_user q, Inr (Some v)) # iw_answers w\<rparr>
        | None \<Rightarrow>
            (let w1 = run_handler q w in
             case iq_handler q of
               Inl e \<Rightarrow> w1
             | Inr response \<Rightarrow> w1\<lparr>iw_pending := iw_pending w1 @ [(k, u, response)]\<rparr>)))"

text \<open>Storing is best effort: a failure is logged and forgotten.\<close>

definition store_pending :: "nat \<Rightarrow> bool \<Rightarrow> 'v idempotency_world \<Rightarrow> 'v idempotency_world" where
  "store_pending i ok w =
     (if i < length (iw_pending w)
      then (let (k, u, v) = iw_pending w ! i;
                rows = (if ok then snd (store_response (iw_time w) k u v (iw_rows w)) else iw_rows w)
            in w\<lparr>iw_rows := rows, iw_pending := take i (iw_pending w) @ drop (Suc i) (iw_pending w)\<rparr>)
      else w)"

datatype 'v idempotency_step = Arrive "'v idempotent_request" | StoreOne nat bool | Wait nat

definition idempotency_step :: "'v idempotency_step \<Rightarrow> 'v idempotency_world \<Rightarrow> 'v idempotency_world" where
  "idempotency_step a w = (case a of
     Arrive q \<Rightarrow> intercept_request q w
   | StoreOne i ok \<Rightarrow> store_pending i ok w
   | Wait d \<Rightarrow> w\<lparr>iw_time := iw_time w + int d\<rparr>)"

definition run_idempotency :: "'v idempotency_step list \<Rightarrow> 'v idempotency_world \<Rightarrow> 'v idempotency_world" where
  "run_idempotency as w = fold idempotency_step as w"

section \<open>Rows\<close>

lemma find_row_append: "find_row k u (rows @ rows') = (case find_row k u rows of None \<Rightarrow> find_row k u rows' | Some r \<Rightarrow> Some r)"
  by (simp add: find_row_def find_append split: option.split)

lemma find_row_SomeD: "find_row k u rows = Some r \<Longrightarrow> ik_key r = k \<and> ik_userId r = u"
  unfolding find_row_def by (auto dest: find_SomeD)

lemma find_row_store:
  "find_row k' u' (snd (store_response t k u (Some v) rows)) =
     (if k' = k \<and> u' = u then Some (case find_row k u rows of
          None \<Rightarrow> \<lparr>ik_key = k, ik_userId = u, ik_response = v, ik_expiresAt = t + IDEMPOTENCY_KEY_TTL_MS\<rparr>
        | Some r \<Rightarrow> r\<lparr>ik_response := v, ik_expiresAt := t + IDEMPOTENCY_KEY_TTL_MS\<rparr>)
      else find_row k' u' rows)"
proof (cases "find_row k u rows")
  case None
  then have "snd (store_response t k u (Some v) rows) =
      rows @ [\<lparr>ik_key = k, ik_userId = u, ik_response = v, ik_expiresAt = t + IDEMPOTENCY_KEY_TTL_MS\<rparr>]"
    by (simp add: store_response_def)
  moreover have "find_row k' u' [\<lparr>ik_key = k, ik_userId = u, ik_response = v, ik_expiresAt = t + IDEMPOTENCY_KEY_TTL_MS\<rparr>] =
      (if k' = k \<and> u' = u then Some \<lparr>ik_key = k, ik_userId = u, ik_response = v, ik_expiresAt = t + IDEMPOTENCY_KEY_TTL_MS\<rparr> else None)"
    by (auto simp: find_row_def)
  ultimately show ?thesis using None by (cases "find_row k' u' rows") (auto simp: find_row_append)
next
  case (Some r)
  define f where "f = (\<lambda>r. r\<lparr>ik_response := v, ik_expiresAt := t + IDEMPOTENCY_KEY_TTL_MS\<rparr> :: 'a idempotency_row)"
  have "snd (store_response t k u (Some v) rows) = update_where (\<lambda>r. ik_key r = k \<and> ik_userId r = u) f rows"
    using Some by (simp add: store_response_def f_def)
  moreover have "find_row k' u' (update_where (\<lambda>r. ik_key r = k \<and> ik_userId r = u) f rows) =
      map_option (\<lambda>r. if ik_key r = k \<and> ik_userId r = u then f r else r) (find_row k' u' rows)"
    unfolding find_row_def by (rule find_update_where) (simp add: f_def)
  ultimately show ?thesis using Some find_row_SomeD [of k' u' rows] find_row_SomeD [OF Some]
    by (cases "find_row k' u' rows") (auto simp: f_def)
qed

lemma find_row_stored:
  "snd (store_response t k u None rows) = rows"
  by (simp add: store_response_def)

section \<open>Replay\<close>











text \<open>A user's key is no other user's.\<close>

lemma keys_are_per_user:
  "u' \<noteq> u \<Longrightarrow> checkAndReturn t k u' (snd (store_response t' k u v rows)) = checkAndReturn t k u' rows"
  by (cases v) (auto simp: checkAndReturn_def find_row_stored find_row_store)

section \<open>Where it does not protect\<close>

text \<open>
  Two requests with the same key that arrive before the first response is stored both run; so does every
  repetition of a request whose response is null.
\<close>

definition request1 :: "int idempotent_request" where
  "request1 = \<lparr>iq_marked = True, iq_key = Some ''k'', iq_user = Some ''u'', iq_handler = Inr (Some 1)\<rparr>"

definition idle_world :: "int idempotency_world" where
  "idle_world = \<lparr>iw_time = 0, iw_rows = [], iw_pending = [], iw_ran = [], iw_answers = []\<rparr>"

lemma concurrent_requests_both_run:
  "iw_ran (run_idempotency [Arrive request1, Arrive request1, StoreOne 0 True] idle_world) =
     [(Some ''k'', Some ''u''), (Some ''k'', Some ''u'')]"
  by (simp add: run_idempotency_def idempotency_step_def intercept_request_def intercepted_def request1_def idle_world_def
    run_handler_def checkAndReturn_def find_row_def store_pending_def store_response_def)

lemma null_response_runs_again:
  "iw_ran (run_idempotency [Arrive (request1\<lparr>iq_handler := Inr None\<rparr>), StoreOne 0 True,
       Arrive (request1\<lparr>iq_handler := Inr None\<rparr>)] idle_world) =
     [(Some ''k'', Some ''u''), (Some ''k'', Some ''u'')]"
  by (simp add: run_idempotency_def idempotency_step_def intercept_request_def intercepted_def request1_def idle_world_def
    run_handler_def checkAndReturn_def find_row_def store_pending_def store_response_def)


end
