(* ===== verification/JwtKeys.thy ===== *)
theory JwtKeys
  imports JsText Prelude "HOL-Library.AList"
begin

text \<open>
  \<^verbatim>\<open>modules/auth/jwt-keys/jwt-key-store.service.ts\<close>: which key signs a token and which key verifies it.
  Key objects are those of the crypto library: reading a PEM text, the public half of a private key, and the
  type and length of a key are parameters, as are \<open>JSON.parse\<close> of the configuration and of a token header.
\<close>

section \<open>Configuration\<close>

record key_entry =
  ke_kid :: "string option"
  ke_privateKey :: "string option"
  ke_publicKey :: "string option"

text \<open>The first field is \<open>JSON.parse\<close> of the configured text: it throws, yields no array, or entries.\<close>

datatype parsed_config = NotJson | NoArray | Entries "key_entry list"

record ('priv, 'pub) crypto =
  parse_config :: "string \<Rightarrow> parsed_config"
  createPrivateKey :: "string \<Rightarrow> exn + 'priv"
  createPublicKey :: "string \<Rightarrow> exn + 'pub"
  publicOf :: "'priv \<Rightarrow> 'pub"
  isRsa :: "'pub \<Rightarrow> bool"
  modulusLength :: "'pub \<Rightarrow> nat option"
  parse_header :: "string \<Rightarrow> (string option \<times> string option) option"

record key_config =
  SIGNING_KEYS_FILE :: "string option"
  SIGNING_KEYS :: "string option"
  ACTIVE_KID :: "string option"
  kc_JWT_SECRET :: "string option"
  ACCEPT_LEGACY :: "string option"

record ('priv, 'pub) loaded_key =
  lk_kid :: string
  lk_private :: "'priv option"
  lk_public :: 'pub

record ('priv, 'pub) key_store =
  ks_keys :: "(string \<times> ('priv, 'pub) loaded_key) list"
  ks_active :: "('priv, 'pub) loaded_key option"
  ks_legacySecret :: "string option"
  ks_acceptLegacy :: bool

definition JWT_ASYMMETRIC_ALGORITHM :: string where "JWT_ASYMMETRIC_ALGORITHM = ''RS256''"
definition LEGACY_ALGORITHM :: string where "LEGACY_ALGORITHM = ''HS256''"
definition MIN_RSA_MODULUS_BITS :: nat where "MIN_RSA_MODULUS_BITS = 2048"

text \<open>A backslash followed by an \<open>n\<close> becomes a line break.\<close>

fun normalizePem :: "string \<Rightarrow> string" where
  "normalizePem (a # b # s) =
     (if a = CHR 0x5C \<and> b = CHR ''n'' then CHR 0x0A # normalizePem s else a # normalizePem (b # s))"
| "normalizePem s = s"

definition isTruthy :: "string option \<Rightarrow> bool" where
  "isTruthy v = (toLowerCase (trim (case v of None \<Rightarrow> [] | Some s \<Rightarrow> s)) \<in> {''true'', ''1'', ''yes''})"

text \<open>\<open>files\<close> is what reading the configured file yields, if it can be read.\<close>

definition readKeyConfig :: "('priv, 'pub) crypto \<Rightarrow> (string \<Rightarrow> string option) \<Rightarrow> key_config \<Rightarrow> exn + key_entry list" where
  "readKeyConfig c files cfg =
     (if truthy (SIGNING_KEYS_FILE cfg) \<and> files (the (SIGNING_KEYS_FILE cfg)) = None then Inl PlainError
      else (let raw = (if truthy (SIGNING_KEYS_FILE cfg) then files (the (SIGNING_KEYS_FILE cfg)) else SIGNING_KEYS cfg) in
        if \<not> truthy raw \<or> trim (the raw) = [] then Inr []
        else (case parse_config c (the raw) of
          NotJson \<Rightarrow> Inl PlainError
        | NoArray \<Rightarrow> Inl PlainError
        | Entries es \<Rightarrow> Inr es)))"

definition loadKey :: "('priv, 'pub) crypto \<Rightarrow> key_entry \<Rightarrow> exn + ('priv, 'pub) loaded_key" where
  "loadKey c e =
     (if \<not> truthy (ke_kid e) \<or> trim (the (ke_kid e)) = [] then Inl PlainError
      else if \<not> truthy (ke_privateKey e) \<and> \<not> truthy (ke_publicKey e) then Inl PlainError
      else (case (if truthy (ke_privateKey e)
                  then (case createPrivateKey c (normalizePem (the (ke_privateKey e))) of Inl x \<Rightarrow> Inl x | Inr k \<Rightarrow> Inr (Some k))
                  else Inr None) of
        Inl x \<Rightarrow> Inl x
      | Inr priv \<Rightarrow>
          (case (if truthy (ke_publicKey e) then createPublicKey c (normalizePem (the (ke_publicKey e)))
                 else Inr (publicOf c (the priv))) of
             Inl x \<Rightarrow> Inl x
           | Inr pub \<Rightarrow>
               if \<not> isRsa c pub \<or> (case modulusLength c pub of None \<Rightarrow> 0 | Some n \<Rightarrow> n) < MIN_RSA_MODULUS_BITS
               then Inl PlainError
               else Inr \<lparr>lk_kid = the (ke_kid e), lk_private = priv, lk_public = pub\<rparr>)))"

text \<open>A JavaScript map keeps its entries in the order of insertion.\<close>

fun loadKeys :: "('priv, 'pub) crypto \<Rightarrow> key_entry list \<Rightarrow> (string \<times> ('priv, 'pub) loaded_key) list \<Rightarrow>
  exn + (string \<times> ('priv, 'pub) loaded_key) list" where
  "loadKeys c [] ks = Inr ks"
| "loadKeys c (e # es) ks = (case loadKey c e of
     Inl x \<Rightarrow> Inl x
   | Inr k \<Rightarrow> if map_of ks (lk_kid k) \<noteq> None then Inl PlainError else loadKeys c es (ks @ [(lk_kid k, k)]))"

definition resolveActiveKey :: "string option \<Rightarrow> (string \<times> ('priv, 'pub) loaded_key) list \<Rightarrow> exn + ('priv, 'pub) loaded_key option" where
  "resolveActiveKey requested ks =
     (if ks = [] then Inr None
      else (case (if truthy requested then map_of ks (the requested)
                  else List.find (\<lambda>k. lk_private k \<noteq> None) (map snd ks)) of
        None \<Rightarrow> Inl PlainError
      | Some k \<Rightarrow> if lk_private k = None then Inl PlainError else Inr (Some k)))"

definition key_store_init :: "('priv, 'pub) crypto \<Rightarrow> (string \<Rightarrow> string option) \<Rightarrow> key_config \<Rightarrow> exn + ('priv, 'pub) key_store" where
  "key_store_init c files cfg =
     (case readKeyConfig c files cfg of
        Inl x \<Rightarrow> Inl x
      | Inr es \<Rightarrow>
          (case loadKeys c es [] of
             Inl x \<Rightarrow> Inl x
           | Inr ks \<Rightarrow>
               (case resolveActiveKey (ACTIVE_KID cfg) ks of
                  Inl x \<Rightarrow> Inl x
                | Inr a \<Rightarrow> Inr \<lparr>ks_keys = ks, ks_active = a,
                    ks_legacySecret = (if truthy (kc_JWT_SECRET cfg) then kc_JWT_SECRET cfg else None),
                    ks_acceptLegacy = (a = None \<or> isTruthy (ACCEPT_LEGACY cfg))\<rparr>)))"

section \<open>Signing and verifying\<close>

datatype ('priv, 'pub) jwt_key = PrivateKey 'priv | PublicKey 'pub | Secret string

definition isAsymmetric :: "('priv, 'pub) key_store \<Rightarrow> bool" where
  "isAsymmetric ks = (ks_active ks \<noteq> None)"

definition activeKid :: "('priv, 'pub) key_store \<Rightarrow> string option" where
  "activeKid ks = map_option lk_kid (ks_active ks)"

definition verifyAlgorithms :: "('priv, 'pub) key_store \<Rightarrow> string list" where
  "verifyAlgorithms ks = (if 0 < length (ks_keys ks) then [JWT_ASYMMETRIC_ALGORITHM] else []) @
     (if ks_acceptLegacy ks \<and> truthy (ks_legacySecret ks) then [LEGACY_ALGORITHM] else [])"

definition signingKey :: "('priv, 'pub) key_store \<Rightarrow> exn + ('priv, 'pub) jwt_key" where
  "signingKey ks = (case ks_active ks of
     Some k \<Rightarrow> Inr (PrivateKey (the (lk_private k)))
   | None \<Rightarrow> if truthy (ks_legacySecret ks) then Inr (Secret (the (ks_legacySecret ks))) else Inl PlainError)"

definition first_segment :: "string \<Rightarrow> string" where
  "first_segment s = takeWhile (\<lambda>c. c \<noteq> CHR ''.'') s"

definition decodeHeader :: "('priv, 'pub) crypto \<Rightarrow> string \<Rightarrow> (string option \<times> string option) option" where
  "decodeHeader c token = (if first_segment token = [] then None else parse_header c (first_segment token))"

definition verificationKeyFor :: "('priv, 'pub) crypto \<Rightarrow> ('priv, 'pub) key_store \<Rightarrow> string \<Rightarrow> exn + ('priv, 'pub) jwt_key" where
  "verificationKeyFor c ks token = (case decodeHeader c token of
     None \<Rightarrow> Inl PlainError
   | Some (alg, kid) \<Rightarrow>
       if alg = Some JWT_ASYMMETRIC_ALGORITHM
       then (case (if truthy kid then map_of (ks_keys ks) (the kid) else None) of
               None \<Rightarrow> Inl PlainError
             | Some k \<Rightarrow> Inr (PublicKey (lk_public k)))
       else if alg = Some LEGACY_ALGORITHM \<and> ks_acceptLegacy ks \<and> truthy (ks_legacySecret ks)
       then Inr (Secret (the (ks_legacySecret ks)))
       else Inl PlainError)"

text \<open>The header of the tokens that are signed: the algorithm and, with an asymmetric key, its id.\<close>

definition sign_header :: "('priv, 'pub) key_store \<Rightarrow> string \<times> string option" where
  "sign_header ks = (case ks_active ks of
     Some k \<Rightarrow> (JWT_ASYMMETRIC_ALGORITHM, Some (lk_kid k)) | None \<Rightarrow> (LEGACY_ALGORITHM, None))"

definition jwks :: "('pub \<Rightarrow> 'j) \<Rightarrow> ('priv, 'pub) key_store \<Rightarrow> (string \<times> 'j) list" where
  "jwks export ks = map (\<lambda>(_, k). (lk_kid k, export (lk_public k))) (ks_keys ks)"

section \<open>What a store holds\<close>

lemma loadKey_SomeD:
  assumes "loadKey c e = Inr k"
  shows "lk_kid k = the (ke_kid e)" "truthy (ke_kid e)" "isRsa c (lk_public k)"
    "\<exists>n. modulusLength c (lk_public k) = Some n \<and> MIN_RSA_MODULUS_BITS \<le> n"
    "\<not> truthy (ke_publicKey e) \<longrightarrow> (\<exists>p. lk_private k = Some p \<and> lk_public k = publicOf c p)"
    "lk_private k \<noteq> None \<longleftrightarrow> truthy (ke_privateKey e)"
  using assms by (auto simp: loadKey_def MIN_RSA_MODULUS_BITS_def split: if_splits sum.splits option.splits)

lemma loadKeys_order: "loadKeys c es ks = Inr ks' \<Longrightarrow>
    \<exists>new. ks' = ks @ new \<and> length new = length es \<and>
      (\<forall>i < length es. loadKey c (es ! i) = Inr (snd (new ! i)) \<and> fst (new ! i) = lk_kid (snd (new ! i)))"
proof (induction es arbitrary: ks)
  case (Cons e es)
  obtain k where k: "loadKey c e = Inr k" "loadKeys c es (ks @ [(lk_kid k, k)]) = Inr ks'"
    using Cons.prems by (auto split: sum.splits if_splits)
  obtain new where new: "ks' = (ks @ [(lk_kid k, k)]) @ new" "length new = length es"
      "\<forall>i < length es. loadKey c (es ! i) = Inr (snd (new ! i)) \<and> fst (new ! i) = lk_kid (snd (new ! i))"
    using Cons.IH [OF k(2)] by blast
  then show ?case using k(1) by (intro exI [of _ "(lk_kid k, k) # new"]) (auto simp: nth_Cons split: nat.split)
qed simp

lemma loadKeys_distinct: "loadKeys c es ks = Inr ks' \<Longrightarrow> distinct (map fst ks) \<Longrightarrow> distinct (map fst ks')"
proof (induction es arbitrary: ks)
  case (Cons e es)
  obtain k where k: "map_of ks (lk_kid k) = None" "loadKeys c es (ks @ [(lk_kid k, k)]) = Inr ks'"
    using Cons.prems(1) by (auto split: sum.splits if_splits)
  then show ?case using Cons.prems(2) by (intro Cons.IH [OF k(2)]) (simp add: map_of_eq_None_iff)
qed simp

lemma key_store_init_InrD:
  assumes "key_store_init c files cfg = Inr ks"
  obtains es where "readKeyConfig c files cfg = Inr es" "loadKeys c es [] = Inr (ks_keys ks)"
    "resolveActiveKey (ACTIVE_KID cfg) (ks_keys ks) = Inr (ks_active ks)"
    "ks_acceptLegacy ks = (ks_active ks = None \<or> isTruthy (ACCEPT_LEGACY cfg))"
    "ks_legacySecret ks = (if truthy (kc_JWT_SECRET cfg) then kc_JWT_SECRET cfg else None)"
  using assms by (auto simp: key_store_init_def split: sum.splits)

lemma stored_key:
  assumes "loadKeys c es [] = Inr keys"
  shows "map_of keys kid = Some k \<longleftrightarrow> (\<exists>e \<in> set es. loadKey c e = Inr k \<and> lk_kid k = kid)"
proof -
  obtain new where new: "keys = new" "length new = length es"
      "\<forall>i < length es. loadKey c (es ! i) = Inr (snd (new ! i)) \<and> fst (new ! i) = lk_kid (snd (new ! i))"
    using loadKeys_order [OF assms] by auto
  have "(kid, k) \<in> set keys \<longleftrightarrow> (\<exists>e \<in> set es. loadKey c e = Inr k \<and> lk_kid k = kid)"
  proof
    assume "(kid, k) \<in> set keys"
    then obtain i where i: "i < length es" "new ! i = (kid, k)" using new(1,2) by (metis in_set_conv_nth)
    then show "\<exists>e \<in> set es. loadKey c e = Inr k \<and> lk_kid k = kid" using new(3) by (metis fst_conv nth_mem snd_conv)
  next
    assume "\<exists>e \<in> set es. loadKey c e = Inr k \<and> lk_kid k = kid"
    then obtain i where i: "i < length es" "loadKey c (es ! i) = Inr k" "lk_kid k = kid" by (metis in_set_conv_nth)
    then have "new ! i = (kid, k)" using new(3) by (metis prod.collapse sum.inject(2))
    then show "(kid, k) \<in> set keys" using i(1) new(1,2) by (metis nth_mem)
  qed
  then show ?thesis using loadKeys_distinct [OF assms] by simp
qed

lemma active_key:
  assumes "key_store_init c files cfg = Inr ks" "ks_active ks = Some k"
  shows "map_of (ks_keys ks) (lk_kid k) = Some k" "lk_private k \<noteq> None" "truthy (Some (lk_kid k))"
proof -
  obtain es where es: "loadKeys c es [] = Inr (ks_keys ks)"
      "resolveActiveKey (ACTIVE_KID cfg) (ks_keys ks) = Inr (ks_active ks)"
    using assms(1) by (rule key_store_init_InrD)
  have m: "map_of (ks_keys ks) (the (ACTIVE_KID cfg)) = Some k \<or> k \<in> snd ` set (ks_keys ks)"
    and p: "lk_private k \<noteq> None"
    using es(2) assms(2) by (auto simp: resolveActiveKey_def split: if_splits option.splits dest: find_SomeD)
  from m obtain kid where kid: "map_of (ks_keys ks) kid = Some k"
  proof
    assume "k \<in> snd ` set (ks_keys ks)"
    then obtain kid where "(kid, k) \<in> set (ks_keys ks)" by force
    then show ?thesis using that loadKeys_distinct [OF es(1)] by simp
  qed (rule that)
  then obtain e where e: "e \<in> set es" "loadKey c e = Inr k" "lk_kid k = kid" using stored_key [OF es(1)] by blast
  show "map_of (ks_keys ks) (lk_kid k) = Some k" using kid e(3) by simp
  show "lk_private k \<noteq> None" by (rule p)
  show "truthy (Some (lk_kid k))" using loadKey_SomeD(1,2) [OF e(2)] by (auto simp: truthy_iff)
qed

section \<open>Rotation and algorithm confusion\<close>

text \<open>
  Tokens survive a rotation: a token signed by one store is verified with the public half of the key that
  signed it by every store whose configuration still lists that key, whichever key signs now.
\<close>

lemma token_survives_rotation:
  assumes s: "key_store_init c files cfg = Inr ks" "ks_active ks = Some k"
    and v: "key_store_init c files' cfg' = Inr ks'" "readKeyConfig c files' cfg' = Inr es'" "e \<in> set es'" "loadKey c e = Inr k"
    and h: "decodeHeader c token = Some (Some (fst (sign_header ks)), snd (sign_header ks))"
  shows "verificationKeyFor c ks' token = Inr (PublicKey (lk_public k)) \<and> fst (sign_header ks) \<in> set (verifyAlgorithms ks')"
proof -
  have l: "loadKeys c es' [] = Inr (ks_keys ks')" using key_store_init_InrD [OF v(1)] v(2) by (metis sum.inject(2))
  have m: "map_of (ks_keys ks') (lk_kid k) = Some k" using stored_key [OF l] v(3,4) by blast
  then have "ks_keys ks' \<noteq> []" by auto
  then show ?thesis using m h active_key(3) [OF s]
    by (auto simp: verificationKeyFor_def sign_header_def s(2) verifyAlgorithms_def)
qed

text \<open>
  C33. The key a token is verified with fits its algorithm: a token that claims RS256 is verified with the public
  key configured under its key id, which is an RSA key of at least 2048 bits, and one that claims HS256 with the
  shared secret, and only while that is accepted; no public key is ever used as a shared secret.  And what the
  store signs it verifies with the matching key.
\<close>

theorem verification_key_fits_the_algorithm:
  assumes "key_store_init c files cfg = Inr ks" "readKeyConfig c files cfg = Inr es"
  shows "(case verificationKeyFor c ks token of
       Inr (PublicKey p) \<Rightarrow> \<exists>kid e k. decodeHeader c token = Some (Some ''RS256'', Some kid) \<and> e \<in> set es \<and> ke_kid e = Some kid \<and>
         loadKey c e = Inr k \<and> lk_public k = p \<and> isRsa c p \<and> (\<exists>n. modulusLength c p = Some n \<and> 2048 \<le> n)
     | Inr (Secret x) \<Rightarrow> (\<exists>kid. decodeHeader c token = Some (Some ''HS256'', kid)) \<and> kc_JWT_SECRET cfg = Some x \<and>
         (es = [] \<or> isTruthy (ACCEPT_LEGACY cfg))
     | Inr (PrivateKey _) \<Rightarrow> False
     | Inl _ \<Rightarrow> True) \<and>
    (decodeHeader c token = Some (Some (fst (sign_header ks)), snd (sign_header ks)) \<longrightarrow>
     (case signingKey ks of
       Inr key \<Rightarrow>
       (\<exists>k. ks_active ks = Some k \<and> Some (PrivateKey (the (lk_private k))) = Some key \<and>
          verificationKeyFor c ks token = Inr (PublicKey (lk_public k))) \<or>
       (\<exists>x. key = Secret x \<and> verificationKeyFor c ks token = Inr (Secret x))
     | Inl _ \<Rightarrow> True))"
proof (intro conjI impI)
  have l: "loadKeys c es [] = Inr (ks_keys ks)"
    and a: "resolveActiveKey (ACTIVE_KID cfg) (ks_keys ks) = Inr (ks_active ks)"
    and g: "ks_acceptLegacy ks = (ks_active ks = None \<or> isTruthy (ACCEPT_LEGACY cfg))"
      "ks_legacySecret ks = (if truthy (kc_JWT_SECRET cfg) then kc_JWT_SECRET cfg else None)"
    using key_store_init_InrD [OF assms(1)] assms(2) by (metis sum.inject(2))+
  have none: "ks_active ks = None \<Longrightarrow> es = []"
    using a l loadKeys_order [OF l] by (auto simp: resolveActiveKey_def split: if_splits option.splits)
  show "case verificationKeyFor c ks token of
       Inr (PublicKey p) \<Rightarrow> \<exists>kid e k. decodeHeader c token = Some (Some ''RS256'', Some kid) \<and> e \<in> set es \<and> ke_kid e = Some kid \<and>
         loadKey c e = Inr k \<and> lk_public k = p \<and> isRsa c p \<and> (\<exists>n. modulusLength c p = Some n \<and> 2048 \<le> n)
     | Inr (Secret x) \<Rightarrow> (\<exists>kid. decodeHeader c token = Some (Some ''HS256'', kid)) \<and> kc_JWT_SECRET cfg = Some x \<and>
         (es = [] \<or> isTruthy (ACCEPT_LEGACY cfg))
     | Inr (PrivateKey _) \<Rightarrow> False
     | Inl _ \<Rightarrow> True"
  proof (cases "verificationKeyFor c ks token")
    case (Inr key)
    then obtain alg kid where h: "decodeHeader c token = Some (alg, kid)"
      by (auto simp: verificationKeyFor_def split: option.splits)
    show ?thesis
    proof (cases "alg = Some ''RS256''")
      case True
      then obtain k where k: "truthy kid" "map_of (ks_keys ks) (the kid) = Some k" "key = PublicKey (lk_public k)"
        using Inr h by (auto simp: verificationKeyFor_def JWT_ASYMMETRIC_ALGORITHM_def split: option.splits if_splits)
      then obtain e where e: "e \<in> set es" "loadKey c e = Inr k" "lk_kid k = the kid" using stored_key [OF l] by blast
      obtain i where i: "kid = Some i" using k(1) by (auto simp: truthy_iff)
      have "ke_kid e = Some i" using loadKey_SomeD(1,2) [OF e(2)] e(3) i by (auto simp: truthy_iff)
      moreover have "\<exists>n. modulusLength c (lk_public k) = Some n \<and> 2048 \<le> n"
        using loadKey_SomeD(4) [OF e(2)] by (simp add: MIN_RSA_MODULUS_BITS_def)
      ultimately show ?thesis using Inr h True k(3) e loadKey_SomeD(3) [OF e(2)] i by auto
    next
      case False
      then have "alg = Some ''HS256''" "ks_acceptLegacy ks" "truthy (ks_legacySecret ks)" "key = Secret (the (ks_legacySecret ks))"
        using Inr h by (auto simp: verificationKeyFor_def JWT_ASYMMETRIC_ALGORITHM_def LEGACY_ALGORITHM_def split: if_splits)
      then show ?thesis using Inr h g none by (auto simp: truthy_iff split: if_splits)
    qed
  qed simp
  assume h: "decodeHeader c token = Some (Some (fst (sign_header ks)), snd (sign_header ks))"
  show "case signingKey ks of
       Inr key \<Rightarrow>
       (\<exists>k. ks_active ks = Some k \<and> Some (PrivateKey (the (lk_private k))) = Some key \<and>
          verificationKeyFor c ks token = Inr (PublicKey (lk_public k))) \<or>
       (\<exists>x. key = Secret x \<and> verificationKeyFor c ks token = Inr (Secret x))
     | Inl _ \<Rightarrow> True"
  proof (cases "ks_active ks")
    case None
    then show ?thesis using h g(1)
      by (auto simp: sign_header_def signingKey_def verificationKeyFor_def JWT_ASYMMETRIC_ALGORITHM_def LEGACY_ALGORITHM_def)
  next
    case (Some k)
    then show ?thesis using h active_key [OF assms(1) Some]
      by (simp add: sign_header_def signingKey_def verificationKeyFor_def)
  qed
qed

section \<open>A concrete configuration\<close>

text \<open>Two keys; the first was rotated out and only verifies.\<close>

definition crypto1 :: "(string, string) crypto" where
  "crypto1 = \<lparr>parse_config = (\<lambda>_. Entries [\<lparr>ke_kid = Some ''old'', ke_privateKey = None, ke_publicKey = Some ''P''\<rparr>,
       \<lparr>ke_kid = Some ''new'', ke_privateKey = Some ''q'', ke_publicKey = None\<rparr>]),
     createPrivateKey = Inr, createPublicKey = Inr, publicOf = toUpperCase, isRsa = (\<lambda>_. True), modulusLength = (\<lambda>_. Some 2048),
     parse_header = (\<lambda>s. if s = ''o'' then Some (Some ''RS256'', Some ''old'') else if s = ''n'' then Some (Some ''RS256'', Some ''new'')
       else if s = ''h'' then Some (Some ''HS256'', None) else None)\<rparr>"

definition key_config1 :: key_config where
  "key_config1 = \<lparr>SIGNING_KEYS_FILE = None, SIGNING_KEYS = Some ''x'', ACTIVE_KID = None, kc_JWT_SECRET = Some ''s'',
     ACCEPT_LEGACY = None\<rparr>"

theorem verification_key_fits_the_algorithm_witness:
  "verificationKeyFor crypto1 (projr (key_store_init crypto1 (\<lambda>_. None) key_config1)) ''o.b.c'' = Inr (PublicKey ''P'') \<and>
   verificationKeyFor crypto1 (projr (key_store_init crypto1 (\<lambda>_. None) key_config1)) ''h.b.c'' = Inl PlainError \<and>
   (\<exists>k. ks_active (projr (key_store_init crypto1 (\<lambda>_. None) key_config1)) = Some k \<and>
      verificationKeyFor crypto1 (projr (key_store_init crypto1 (\<lambda>_. None) key_config1)) ''n.b.c'' = Inr (PublicKey (lk_public k)))"
proof -
  define ks where "ks = projr (key_store_init crypto1 (\<lambda>_. None) key_config1)"
  have i: "key_store_init crypto1 (\<lambda>_. None) key_config1 = Inr ks" unfolding ks_def by code_simp
  have e: "readKeyConfig crypto1 (\<lambda>_. None) key_config1 = Inr [\<lparr>ke_kid = Some ''old'', ke_privateKey = None, ke_publicKey = Some ''P''\<rparr>,
       \<lparr>ke_kid = Some ''new'', ke_privateKey = Some ''q'', ke_publicKey = None\<rparr>]" by code_simp
  have h: "decodeHeader crypto1 ''n.b.c'' = Some (Some (fst (sign_header ks)), snd (sign_header ks))"
    and s: "signingKey ks = Inr (PrivateKey ''q'')" unfolding ks_def by code_simp+
  have "verificationKeyFor crypto1 ks ''o.b.c'' = Inr (PublicKey ''P'')" "verificationKeyFor crypto1 ks ''h.b.c'' = Inl PlainError"
    unfolding ks_def by code_simp+
  then show ?thesis
    unfolding ks_def [symmetric]
    using mp [OF conjunct2 [OF verification_key_fits_the_algorithm [OF i e, of "''n.b.c''"]] h] by (auto simp: s)
qed

end
