(* ===== verification/Escaping.thy ===== *)
theory Escaping
  imports JsText
begin

text \<open>
  Escaping of user text in messages: \<open>escapeHtml\<close> of \<^verbatim>\<open>modules/notifications/weekly-digest.service.ts\<close> and
  \<open>escape\<close> of \<^verbatim>\<open>modules/notifications/slack-notifications.service.ts\<close>.  Both replace one character after
  the other over the whole text; what makes that right is that the ampersand goes first.
\<close>

definition replace_all :: "char \<Rightarrow> string \<Rightarrow> string \<Rightarrow> string" where
  "replace_all c r s = concat (map (\<lambda>x. if x = c then r else [x]) s)"

definition escapeHtml :: "string \<Rightarrow> string" where
  "escapeHtml s =
     replace_all (CHR 0x27) ''&#39;'' (replace_all (CHR 0x22) ''&quot;'' (replace_all (CHR ''>'') ''&gt;''
       (replace_all (CHR ''<'') ''&lt;'' (replace_all (CHR ''&'') ''&amp;'' s))))"

definition escape_mrkdwn :: "string \<Rightarrow> string" where
  "escape_mrkdwn s = replace_all (CHR ''>'') ''&gt;'' (replace_all (CHR ''<'') ''&lt;'' (replace_all (CHR ''&'') ''&amp;'' s))"

lemma replace_all_simps [simp]:
  "replace_all c r [] = []"
  "replace_all c r (x # s) = (if x = c then r else [x]) @ replace_all c r s"
  "replace_all c r (s @ t) = replace_all c r s @ replace_all c r t"
  by (simp_all add: replace_all_def)

section \<open>One character at a time\<close>

definition html_entity :: "char \<Rightarrow> string" where
  "html_entity c = (if c = CHR ''&'' then ''&amp;'' else if c = CHR ''<'' then ''&lt;'' else if c = CHR ''>'' then ''&gt;''
     else if c = CHR 0x22 then ''&quot;'' else if c = CHR 0x27 then ''&#39;'' else [c])"

lemma escapeHtml_pointwise: "escapeHtml s = concat (map html_entity s)"
  by (induction s) (simp_all add: escapeHtml_def html_entity_def)

definition mrkdwn_entity :: "char \<Rightarrow> string" where
  "mrkdwn_entity c = (if c = CHR ''&'' then ''&amp;'' else if c = CHR ''<'' then ''&lt;'' else if c = CHR ''>'' then ''&gt;'' else [c])"

lemma escape_mrkdwn_pointwise: "escape_mrkdwn s = concat (map mrkdwn_entity s)"
  by (induction s) (simp_all add: escape_mrkdwn_def mrkdwn_entity_def)

section \<open>Reading entities back\<close>

text \<open>What a browser makes of the entities.\<close>

definition entities :: "(string \<times> char) list" where
  "entities = [(''amp;'', CHR ''&''), (''lt;'', CHR ''<''), (''gt;'', CHR ''>''), (''quot;'', CHR 0x22), (''#39;'', CHR 0x27)]"

fun unescape :: "string \<Rightarrow> string" where
  "unescape [] = []"
| "unescape (c # s) =
     (if c = CHR ''&''
      then (case List.find (\<lambda>(e, _). starts_with e s) entities of
              Some (e, x) \<Rightarrow> x # unescape (drop (length e) s)
            | None \<Rightarrow> c # unescape s)
      else c # unescape s)"

lemma unescape_entity [simp]:
  "unescape (''&amp;'' @ s) = CHR ''&'' # unescape s" "unescape (''&lt;'' @ s) = CHR ''<'' # unescape s"
  "unescape (''&gt;'' @ s) = CHR ''>'' # unescape s" "unescape (''&quot;'' @ s) = CHR 0x22 # unescape s"
  "unescape (''&#39;'' @ s) = CHR 0x27 # unescape s"
  by (simp_all add: entities_def starts_with_def)

lemma unescape_other: "c \<noteq> CHR ''&'' \<Longrightarrow> unescape ([c] @ s) = c # unescape s"
  by simp

lemma unescape_escapeHtml: "unescape (escapeHtml s) = s"
  unfolding escapeHtml_pointwise
proof (induction s)
  case (Cons c s)
  have "unescape (html_entity c @ t) = c # unescape t" for t
    unfolding html_entity_def using unescape_entity [of t] unescape_other [of c t] by (simp del: append_Cons)
  then show ?case using Cons by simp
qed simp

lemma unescape_escape_mrkdwn: "unescape (escape_mrkdwn s) = s"
  unfolding escape_mrkdwn_pointwise
proof (induction s)
  case (Cons c s)
  have "unescape (mrkdwn_entity c @ t) = c # unescape t" for t
    unfolding mrkdwn_entity_def using unescape_entity [of t] unescape_other [of c t] by (simp del: append_Cons)
  then show ?case using Cons by simp
qed simp

text \<open>Escaped text opens no tag and closes no attribute.\<close>

lemma escapeHtml_safe: "set (escapeHtml s) \<inter> {CHR ''<'', CHR ''>'', CHR 0x22, CHR 0x27} = {}"
  unfolding escapeHtml_pointwise by (auto simp: html_entity_def split: if_splits)

lemma escape_mrkdwn_safe: "set (escape_mrkdwn s) \<inter> {CHR ''<'', CHR ''>''} = {}"
  unfolding escape_mrkdwn_pointwise by (auto simp: mrkdwn_entity_def split: if_splits)

end
