(* ===== verification/Json.thy ===== *)
theory Json
  imports JsText Complex_Main
begin

text \<open>
  JSON values as the services handle them, and \<open>JSON.stringify\<close>.  The text of a number is a parameter.  A
  character is one of the first 256 code points; outside ASCII it takes two bytes in UTF-8.
\<close>

datatype json = JNull | JBool bool | JNum rat | JStr string | JArr "json list" | JObj "(string \<times> json) list"

abbreviation lookup :: "(string \<times> json) list \<Rightarrow> string \<Rightarrow> json option" where
  "lookup \<equiv> map_of"

definition hex_digit :: "nat \<Rightarrow> char" where
  "hex_digit n = (if n < 10 then char_of (n + 48) else char_of (n + 87))"

text \<open>The escapes of a string; control characters without a short form become \<open>\u00xx\<close>.\<close>

definition escape_char :: "char \<Rightarrow> string" where
  "escape_char c =
     (let n = (of_char c :: nat)
      in if n = 34 \<or> n = 92 then [CHR 0x5C, c]
         else if n = 8 then [CHR 0x5C, CHR ''b''] else if n = 9 then [CHR 0x5C, CHR ''t'']
         else if n = 10 then [CHR 0x5C, CHR ''n''] else if n = 12 then [CHR 0x5C, CHR ''f'']
         else if n = 13 then [CHR 0x5C, CHR ''r'']
         else if n < 32 then [CHR 0x5C, CHR ''u'', CHR ''0'', CHR ''0'', hex_digit (n div 16), hex_digit (n mod 16)]
         else [c])"

definition quote_text :: "string \<Rightarrow> string" where
  "quote_text s = CHR 0x22 # concat (map escape_char s) @ [CHR 0x22]"

fun stringify :: "(rat \<Rightarrow> string) \<Rightarrow> json \<Rightarrow> string" where
  "stringify num JNull = ''null''"
| "stringify num (JBool b) = (if b then ''true'' else ''false'')"
| "stringify num (JNum x) = num x"
| "stringify num (JStr s) = quote_text s"
| "stringify num (JArr xs) = ''['' @ join_with '','' (map (stringify num) xs) @ '']''"
| "stringify num (JObj kvs) = ''{'' @ join_with '','' (map (\<lambda>(k, v). quote_text k @ '':'' @ stringify num v) kvs) @ ''}''"

definition byteLength :: "string \<Rightarrow> nat" where
  "byteLength s = sum_list (map (\<lambda>c. if (of_char c :: nat) < 128 then 1 else 2) s)"

lemma byteLength_append [simp]: "byteLength (s @ t) = byteLength s + byteLength t"
  by (simp add: byteLength_def)

lemma byteLength_ge: "length s \<le> byteLength s"
  by (induction s) (auto simp: byteLength_def)

end
