(* ===== verification/Notifications.thy ===== *)
theory Notifications
  imports Escaping Json Prelude
begin

text \<open>
  Notifications of a user: \<^verbatim>\<open>modules/notifications/notifications.service.ts\<close>, the queue worker for mail
  (\<^verbatim>\<open>queues/email.processor.ts\<close>) and the messages posted to Slack, Discord and Teams
  (\<^verbatim>\<open>slack-notifications.service.ts\<close>, \<^verbatim>\<open>discord-notifications.service.ts\<close>,
  \<^verbatim>\<open>teams-notifications.service.ts\<close>).

  The rendering of mail templates, the text of numbers and of emoji, and the success of a delivery are
  parameters.  The service declares neither the GraphQL publisher nor web push among its dependencies, so both
  are absent and their guarded calls do nothing.
\<close>

section \<open>Types of notifications\<close>

datatype notice_type =
    ENGAGEMENT_CREATED | MILESTONE_UNLOCKED | PROOF_SUBMITTED | MILESTONE_CONFIRMED | DISPUTE_RAISED | DISPUTE_RESOLVED
  | REPLACEMENT_REQUESTED | ENGAGEMENT_CANCELLED | PAYMENT_RELEASED | RETENTION_WINDOW_APPROACHING
  | PLACEMENT_MILESTONE_DUE_SOON | ARBITER_ASSIGNED | ARBITER_REASSIGNED | ARBITER_RECUSAL_REQUESTED
  | ACCOUNT_MERGE_DETECTED | FUNDING_SHORTFALL_DETECTED | STELLAR_BALANCE_LOW | DISPUTE_SLA_OVERDUE | DISPUTE_APPEALED
  | DISPUTE_APPEAL_DECIDED | DISPUTE_EVIDENCE_WINDOW_CLOSING | COMMENT_ADDED | WATCHER_ADDED | UNMATCHED_PAYMENT_ALERT
  | DISPUTE_MESSAGE_CREATED | FILE_QUARANTINED

definition all_notice_types :: "(notice_type \<times> string) list" where
  "all_notice_types =
     [(ENGAGEMENT_CREATED, ''ENGAGEMENT_CREATED''), (MILESTONE_UNLOCKED, ''MILESTONE_UNLOCKED''),
      (PROOF_SUBMITTED, ''PROOF_SUBMITTED''), (MILESTONE_CONFIRMED, ''MILESTONE_CONFIRMED''),
      (DISPUTE_RAISED, ''DISPUTE_RAISED''), (DISPUTE_RESOLVED, ''DISPUTE_RESOLVED''),
      (REPLACEMENT_REQUESTED, ''REPLACEMENT_REQUESTED''), (ENGAGEMENT_CANCELLED, ''ENGAGEMENT_CANCELLED''),
      (PAYMENT_RELEASED, ''PAYMENT_RELEASED''), (RETENTION_WINDOW_APPROACHING, ''RETENTION_WINDOW_APPROACHING''),
      (PLACEMENT_MILESTONE_DUE_SOON, ''PLACEMENT_MILESTONE_DUE_SOON''), (ARBITER_ASSIGNED, ''ARBITER_ASSIGNED''),
      (ARBITER_REASSIGNED, ''ARBITER_REASSIGNED''), (ARBITER_RECUSAL_REQUESTED, ''ARBITER_RECUSAL_REQUESTED''),
      (ACCOUNT_MERGE_DETECTED, ''ACCOUNT_MERGE_DETECTED''), (FUNDING_SHORTFALL_DETECTED, ''FUNDING_SHORTFALL_DETECTED''),
      (STELLAR_BALANCE_LOW, ''STELLAR_BALANCE_LOW''), (DISPUTE_SLA_OVERDUE, ''DISPUTE_SLA_OVERDUE''),
      (DISPUTE_APPEALED, ''DISPUTE_APPEALED''), (DISPUTE_APPEAL_DECIDED, ''DISPUTE_APPEAL_DECIDED''),
      (DISPUTE_EVIDENCE_WINDOW_CLOSING, ''DISPUTE_EVIDENCE_WINDOW_CLOSING''), (COMMENT_ADDED, ''COMMENT_ADDED''),
      (WATCHER_ADDED, ''WATCHER_ADDED''), (UNMATCHED_PAYMENT_ALERT, ''UNMATCHED_PAYMENT_ALERT''),
      (DISPUTE_MESSAGE_CREATED, ''DISPUTE_MESSAGE_CREATED''), (FILE_QUARANTINED, ''FILE_QUARANTINED'')]"

lemma all_notice_types_complete: "y \<in> fst ` set all_notice_types"
  by (cases y) (simp_all add: all_notice_types_def)

definition type_text :: "notice_type \<Rightarrow> string" where
  "type_text y = the (map_of all_notice_types y)"

definition humanizeType :: "notice_type \<Rightarrow> string" where
  "humanizeType y = replace_all (CHR ''_'') '' '' (toLowerCase (type_text y))"

section \<open>Messages to channels\<close>

definition SLACK_KEY_TYPES :: "notice_type list" where
  "SLACK_KEY_TYPES = [ENGAGEMENT_CREATED, PROOF_SUBMITTED, MILESTONE_CONFIRMED, PAYMENT_RELEASED, DISPUTE_RAISED,
     DISPUTE_RESOLVED, REPLACEMENT_REQUESTED, ENGAGEMENT_CANCELLED, FUNDING_SHORTFALL_DETECTED]"

definition isSlackKeyType :: "notice_type \<Rightarrow> bool" where
  "isSlackKeyType y = (y \<in> set SLACK_KEY_TYPES)"

definition TYPE_LABELS :: "notice_type \<rightharpoonup> string" where
  "TYPE_LABELS = map_of
     [(ENGAGEMENT_CREATED, ''Engagement created''), (PROOF_SUBMITTED, ''Proof submitted''),
      (MILESTONE_CONFIRMED, ''Milestone confirmed''), (PAYMENT_RELEASED, ''Payment released''),
      (DISPUTE_RAISED, ''Dispute raised''), (DISPUTE_RESOLVED, ''Dispute resolved''),
      (REPLACEMENT_REQUESTED, ''Replacement requested''), (ENGAGEMENT_CANCELLED, ''Engagement cancelled''),
      (FUNDING_SHORTFALL_DETECTED, ''Funding shortfall detected'')]"

text \<open>\<open>num\<close> is the text of a number; arrays are joined by commas, with nothing for null.\<close>

fun js_string :: "(rat \<Rightarrow> string) \<Rightarrow> json \<Rightarrow> string" where
  "js_string num JNull = ''null''"
| "js_string num (JBool b) = (if b then ''true'' else ''false'')"
| "js_string num (JNum x) = num x"
| "js_string num (JStr s) = s"
| "js_string num (JArr xs) = join_with '','' (map (\<lambda>x. case x of JNull \<Rightarrow> [] | _ \<Rightarrow> js_string num x) xs)"
| "js_string num (JObj _) = ''[object Object]''"

definition js_truthy :: "json option \<Rightarrow> bool" where
  "js_truthy v = (case v of
     None \<Rightarrow> False | Some JNull \<Rightarrow> False | Some (JBool b) \<Rightarrow> b | Some (JNum x) \<Rightarrow> x \<noteq> 0 | Some (JStr s) \<Rightarrow> s \<noteq> []
   | Some _ \<Rightarrow> True)"

type_synonym notice_data = "(string \<times> json) list"

definition given :: "json option \<Rightarrow> bool" where
  "given v = (v \<noteq> None \<and> v \<noteq> Some JNull)"

text \<open>\<open>dot\<close> is the separator, a middle dot between blanks.\<close>

definition buildContextLine :: "(rat \<Rightarrow> string) \<Rightarrow> string \<Rightarrow> notice_data option \<Rightarrow> string option" where
  "buildContextLine num dot data = (case data of
     None \<Rightarrow> None
   | Some d \<Rightarrow>
       (let field = (\<lambda>k. js_string num (the (lookup d k)));
            parts =
              (if js_truthy (lookup d ''engagementTitle'') then [''*'' @ escape_mrkdwn (field ''engagementTitle'') @ ''*''] else []) @
              (if given (lookup d ''milestoneIndex'') then [''milestone *'' @ field ''milestoneIndex'' @ ''*''] else []) @
              (if js_truthy (lookup d ''amount'') then [escape_mrkdwn (field ''amount'')] else []) @
              (if js_truthy (lookup d ''reason'') then [''reason: '' @ escape_mrkdwn (field ''reason'')] else [])
        in if 0 < length parts then Some (join_with dot parts) else None))"

definition mrkdwn :: "string \<Rightarrow> json" where
  "mrkdwn s = JObj [(''type'', JStr ''mrkdwn''), (''text'', JStr s)]"

text \<open>\<open>body\<close> of a message: its text without the blanks around it, or the title when it has none.\<close>

definition message_body :: "string \<Rightarrow> string \<Rightarrow> string" where
  "message_body heading message = (if trim message \<noteq> [] then trim message else heading)"

definition slack_payload :: "(rat \<Rightarrow> string) \<Rightarrow> string \<Rightarrow> (notice_type \<Rightarrow> string) \<Rightarrow> string \<Rightarrow> notice_type \<Rightarrow> string \<Rightarrow> string \<Rightarrow>
  notice_data option \<Rightarrow> json" where
  "slack_payload num dot emoji frontendUrl y heading message data =
     (let label = (case TYPE_LABELS y of Some l \<Rightarrow> l | None \<Rightarrow> humanizeType y);
          context = (case buildContextLine num dot data of
            None \<Rightarrow> [] | Some l \<Rightarrow> [JObj [(''type'', JStr ''section''), (''text'', mrkdwn l)]])
      in JObj [(''blocks'', JArr (
           [JObj [(''type'', JStr ''header''), (''text'', JObj [(''type'', JStr ''plain_text''),
              (''text'', JStr (emoji y @ '' '' @ label)), (''emoji'', JBool True)])],
            JObj [(''type'', JStr ''section''), (''text'', mrkdwn (escape_mrkdwn (message_body heading message)))]] @
           context @
           [JObj [(''type'', JStr ''context''),
              (''elements'', JArr [mrkdwn (''HireSettle'' @ dot @ ''<'' @ frontendUrl @ ''|View in HireSettle>'')])]]))])"

definition discord_payload :: "(notice_type \<Rightarrow> string) \<Rightarrow> string \<Rightarrow> notice_type \<Rightarrow> string \<Rightarrow> string \<Rightarrow> json" where
  "discord_payload emoji now y heading message =
     JObj [(''embeds'', JArr [JObj [(''title'', JStr (emoji y @ '' '' @ heading)),
       (''description'', JStr (message_body heading message)), (''color'', JNum 5793266),
       (''footer'', JObj [(''text'', JStr ''HireSettle'')]), (''timestamp'', JStr now)]])]"

definition TYPE_COLOR :: "notice_type \<rightharpoonup> string" where
  "TYPE_COLOR = map_of [(DISPUTE_RAISED, ''Warning''), (ENGAGEMENT_CANCELLED, ''Attention''),
     (FUNDING_SHORTFALL_DETECTED, ''Attention''), (PAYMENT_RELEASED, ''Good''), (MILESTONE_CONFIRMED, ''Good'')]"

definition buildFacts :: "(rat \<Rightarrow> string) \<Rightarrow> notice_data option \<Rightarrow> (string \<times> string) list" where
  "buildFacts num data = (case data of
     None \<Rightarrow> []
   | Some d \<Rightarrow>
       (let field = (\<lambda>k. js_string num (the (lookup d k))) in
         (if js_truthy (lookup d ''engagementTitle'') then [(''Engagement'', field ''engagementTitle'')] else []) @
         (if given (lookup d ''milestoneIndex'') then [(''Milestone'', field ''milestoneIndex'')] else []) @
         (if js_truthy (lookup d ''amount'') then [(''Amount'', field ''amount'')] else []) @
         (if js_truthy (lookup d ''reason'') then [(''Reason'', field ''reason'')] else [])))"

definition ADAPTIVE_CARD_CONTENT_TYPE :: string where
  "ADAPTIVE_CARD_CONTENT_TYPE = ''application/vnd.microsoft.card.adaptive''"

definition ADAPTIVE_CARD_SCHEMA :: string where
  "ADAPTIVE_CARD_SCHEMA = ''http://adaptivecards.io/schemas/adaptive-card.json''"

definition teams_payload :: "(rat \<Rightarrow> string) \<Rightarrow> (notice_type \<Rightarrow> string) \<Rightarrow> string \<Rightarrow> notice_type \<Rightarrow> string \<Rightarrow> string \<Rightarrow>
  notice_data option \<Rightarrow> json" where
  "teams_payload num emoji frontendUrl y heading message data =
     (let facts = buildFacts num data;
          cardBody =
            [JObj ([(''type'', JStr ''TextBlock''), (''text'', JStr (emoji y @ '' '' @ heading)), (''size'', JStr ''Large''),
               (''weight'', JStr ''Bolder''), (''wrap'', JBool True)] @
               (case TYPE_COLOR y of None \<Rightarrow> [] | Some c \<Rightarrow> [(''color'', JStr c)])),
             JObj [(''type'', JStr ''TextBlock''), (''text'', JStr (message_body heading message)), (''wrap'', JBool True)]] @
            (if 0 < length facts
             then [JObj [(''type'', JStr ''FactSet''), (''facts'', JArr (map (\<lambda>(t, v). JObj [(''title'', JStr t), (''value'', JStr v)]) facts))]]
             else []) @
            [JObj [(''type'', JStr ''TextBlock''), (''text'', JStr ''HireSettle''), (''size'', JStr ''Small''),
               (''isSubtle'', JBool True), (''spacing'', JStr ''Medium'')]]
      in JObj [(''type'', JStr ''message''), (''attachments'', JArr [JObj [(''contentType'', JStr ADAPTIVE_CARD_CONTENT_TYPE),
           (''contentUrl'', JNull), (''content'', JObj [(''$schema'', JStr ADAPTIVE_CARD_SCHEMA), (''type'', JStr ''AdaptiveCard''),
             (''version'', JStr ''1.4''), (''body'', JArr cardBody),
             (''actions'', JArr [JObj [(''type'', JStr ''Action.OpenUrl''), (''title'', JStr ''View in HireSettle''),
               (''url'', JStr frontendUrl)]])])]])])"

section \<open>State\<close>

record notice_user =
  nu_id :: ident
  nu_stellarAddress :: string
  nu_name :: "string option"
  nu_email :: "string option"
  nu_locale :: string
  nu_batchWindowSeconds :: int
  nu_slackWebhookUrl :: "string option"
  nu_discordWebhookUrl :: "string option"
  nu_teamsWebhookUrl :: "string option"
  nu_digestEnabled :: bool
  nu_deletedAt :: "time option"
  nu_deactivatedAt :: "time option"

record inbox_notice =
  no_id :: ident
  no_userId :: ident
  no_type :: notice_type
  no_title :: string
  no_message :: string
  no_data :: notice_data
  no_read :: bool
  no_emailSent :: bool
  no_createdAt :: time

record preference =
  pf_userId :: ident
  pf_type :: notice_type
  pf_emailEnabled :: bool
  pf_inAppEnabled :: bool
  pf_sseEnabled :: bool
  pf_pushEnabled :: bool

record notice_batch =
  nb_userId :: ident
  nb_type :: notice_type
  nb_count :: nat
  nb_flushedAt :: "time option"
  nb_expiresAt :: time

record mail_job =
  mj_to :: string
  mj_type :: notice_type
  mj_subject :: string
  mj_message :: string
  mj_notificationId :: ident
  mj_locale :: string

datatype channel = Slack | Discord | Teams

record channel_post =
  cp_channel :: channel
  cp_time :: time
  cp_user :: ident
  cp_type :: notice_type
  cp_url :: string

record notice_db =
  nd_users :: "notice_user list"
  nd_notices :: "inbox_notice list"
  nd_preferences :: "preference list"
  nd_batches :: "notice_batch list"
  connections :: "ident \<Rightarrow> nat list option"
  sse_log :: "(nat \<times> ident) list"
  mailQueue :: "mail_job list"
  mails :: "(string \<times> string) list"
  posted :: "channel_post list"
  nextNotice :: nat

text \<open>
  The environment: which queues and senders are bound, whether rendering a template throws, whether the mail
  transport fails, and whether handing a message over to a channel fails.
\<close>

record notice_env =
  noticeId :: "nat \<Rightarrow> ident"
  hasEmailQueue :: bool
  emailQueueFails :: bool
  hasQueue :: "channel \<Rightarrow> bool"
  hasSender :: "channel \<Rightarrow> bool"
  channelFails :: "channel \<Rightarrow> bool"
  renderFails :: "notice_type \<Rightarrow> string \<Rightarrow> bool"
  transportFails :: "string \<Rightarrow> bool"

section \<open>Live connections\<close>

definition addConnection :: "ident \<Rightarrow> nat \<Rightarrow> notice_db \<Rightarrow> notice_db" where
  "addConnection u c s =
     s\<lparr>connections := (connections s)(u \<mapsto> (case connections s u of None \<Rightarrow> [] | Some cs \<Rightarrow> cs) @ [c])\<rparr>"

text \<open>Both the close event and the explicit call remove the first occurrence, and an empty list with it.\<close>

definition removeConnection :: "ident \<Rightarrow> nat \<Rightarrow> notice_db \<Rightarrow> notice_db" where
  "removeConnection u c s = (case connections s u of
     None \<Rightarrow> s
   | Some cs \<Rightarrow> (let cs' = remove1 c cs in s\<lparr>connections := (connections s)(u := if length cs' = 0 then None else Some cs')\<rparr>))"

definition pushToConnections :: "inbox_notice \<Rightarrow> notice_db \<Rightarrow> notice_db" where
  "pushToConnections n s = (case connections s (no_userId n) of
     None \<Rightarrow> s | Some cs \<Rightarrow> s\<lparr>sse_log := sse_log s @ map (\<lambda>c. (c, no_id n)) cs\<rparr>)"

section \<open>Mail\<close>

text \<open>A failure of the transport is caught; one of the template is not.\<close>

definition sendEmail :: "notice_env \<Rightarrow> string \<Rightarrow> string \<Rightarrow> notice_type \<Rightarrow> string \<Rightarrow> notice_db \<Rightarrow> (notice_db, unit) outcome" where
  "sendEmail w to subject y locale s =
     (if renderFails w y locale then throw PlainError s
      else if transportFails w to then return () s
      else return () (s\<lparr>mails := mails s @ [(to, subject)]\<rparr>))"

definition markEmailSent :: "ident \<Rightarrow> notice_db \<Rightarrow> (notice_db, unit) outcome" where
  "markEmailSent i s =
     (if List.find (\<lambda>n. no_id n = i) (nd_notices s) = None then throw RecordNotFound s
      else return () (s\<lparr>nd_notices := update_where (\<lambda>n. no_id n = i) (\<lambda>n. n\<lparr>no_emailSent := True\<rparr>) (nd_notices s)\<rparr>))"

text \<open>The worker on a job of the mail queue.\<close>

definition email_job :: "notice_env \<Rightarrow> mail_job \<Rightarrow> notice_db \<Rightarrow> (notice_db, unit) outcome" where
  "email_job w j s = and_then (sendEmail w (mj_to j) (mj_subject j) (mj_type j) (mj_locale j) s)
     (\<lambda>_ s1. if mj_notificationId j \<noteq> [] then markEmailSent (mj_notificationId j) s1 else return () s1)"

definition sendDigestEmail :: "notice_env \<Rightarrow> string \<Rightarrow> string \<Rightarrow> notice_db \<Rightarrow> (notice_db, unit) outcome" where
  "sendDigestEmail w to subject s =
     (if transportFails w to then throw PlainError s else return () (s\<lparr>mails := mails s @ [(to, subject)]\<rparr>))"

section \<open>Notifying a user\<close>

definition find_user :: "ident \<Rightarrow> notice_db \<Rightarrow> notice_user option" where
  "find_user u s = List.find (\<lambda>x. nu_id x = u) (nd_users s)"

definition find_preference :: "ident \<Rightarrow> notice_type \<Rightarrow> notice_db \<Rightarrow> preference option" where
  "find_preference u y s = List.find (\<lambda>p. pf_userId p = u \<and> pf_type p = y) (nd_preferences s)"

definition pref_of :: "(preference \<Rightarrow> bool) \<Rightarrow> preference option \<Rightarrow> bool" where
  "pref_of f p = (case p of None \<Rightarrow> True | Some x \<Rightarrow> f x)"

definition create_notice :: "notice_env \<Rightarrow> time \<Rightarrow> ident \<Rightarrow> notice_type \<Rightarrow> string \<Rightarrow> string \<Rightarrow> notice_data option \<Rightarrow> notice_db \<Rightarrow>
  inbox_notice \<times> notice_db" where
  "create_notice w t u y heading message data s =
     (let n = \<lparr>no_id = noticeId w (nextNotice s), no_userId = u, no_type = y, no_title = heading, no_message = message,
        no_data = (case data of None \<Rightarrow> [] | Some d \<Rightarrow> d), no_read = False, no_emailSent = False, no_createdAt = t\<rparr>
      in (n, s\<lparr>nd_notices := nd_notices s @ [n], nextNotice := nextNotice s + 1\<rparr>))"

text \<open>\<open>mail_user\<close> is the block under \<open>if (user.email)\<close>.\<close>

definition mail_user :: "notice_env \<Rightarrow> notice_user \<Rightarrow> preference option \<Rightarrow> inbox_notice \<Rightarrow> notice_db \<Rightarrow> (notice_db, unit) outcome" where
  "mail_user w x p n s =
     (if truthy (nu_email x) \<and> pref_of pf_emailEnabled p
      then (if hasEmailQueue w
            then (if emailQueueFails w then throw PlainError s
                  else return () (s\<lparr>mailQueue := mailQueue s @ [\<lparr>mj_to = the (nu_email x), mj_type = no_type n, mj_subject = no_title n,
                    mj_message = no_message n, mj_notificationId = no_id n, mj_locale = nu_locale x\<rparr>]\<rparr>))
            else and_then (sendEmail w (the (nu_email x)) (no_title n) (no_type n) (nu_locale x) s)
              (\<lambda>_ s1. markEmailSent (no_id n) s1))
      else return () s)"

definition webhook_of :: "channel \<Rightarrow> notice_user \<Rightarrow> string option" where
  "webhook_of c x = (case c of Slack \<Rightarrow> nu_slackWebhookUrl x | Discord \<Rightarrow> nu_discordWebhookUrl x | Teams \<Rightarrow> nu_teamsWebhookUrl x)"

text \<open>A message to a channel goes to its queue, or else to its sender, or else nowhere.\<close>

definition post_channel :: "notice_env \<Rightarrow> time \<Rightarrow> channel \<Rightarrow> notice_user \<Rightarrow> inbox_notice \<Rightarrow> notice_db \<Rightarrow> (notice_db, unit) outcome" where
  "post_channel w t c x n s =
     (if truthy (webhook_of c x) \<and> isSlackKeyType (no_type n) \<and> (hasQueue w c \<or> hasSender w c)
      then (if channelFails w c then throw PlainError s
            else return () (s\<lparr>posted := posted s @ [\<lparr>cp_channel = c, cp_time = t, cp_user = no_userId n, cp_type = no_type n,
              cp_url = the (webhook_of c x)\<rparr>]\<rparr>))
      else return () s)"

definition open_batch :: "time \<Rightarrow> ident \<Rightarrow> notice_type \<Rightarrow> notice_batch \<Rightarrow> bool" where
  "open_batch t u y b = (nb_userId b = u \<and> nb_type b = y \<and> nb_flushedAt b = None \<and> t < nb_expiresAt b)"

text \<open>The first row that matches is updated, by its id.\<close>

fun count_in :: "(notice_batch \<Rightarrow> bool) \<Rightarrow> notice_batch list \<Rightarrow> notice_batch list" where
  "count_in p [] = []"
| "count_in p (b # bs) = (if p b then b\<lparr>nb_count := nb_count b + 1\<rparr> # bs else b # count_in p bs)"

definition notifyUserById_body :: "notice_env \<Rightarrow> time \<Rightarrow> ident \<Rightarrow> notice_type \<Rightarrow> string \<Rightarrow> string \<Rightarrow> notice_data option \<Rightarrow>
  notice_db \<Rightarrow> (notice_db, inbox_notice option) outcome" where
  "notifyUserById_body w t u y heading message data s = (case find_user u s of
     None \<Rightarrow> return None s
   | Some x \<Rightarrow>
       (let (n, s1) = create_notice w t u y heading message data s;
            p = find_preference u y s1;
            s2 = (if pref_of pf_sseEnabled p then pushToConnections n s1 else s1)
        in and_then (mail_user w x p n s2) (\<lambda>_ s3.
             if List.find (open_batch t u y) (nd_batches s3) \<noteq> None
             then return (Some n) (s3\<lparr>nd_batches := count_in (open_batch t u y) (nd_batches s3)\<rparr>)
             else (let s4 = s3\<lparr>nd_batches := nd_batches s3 @ [\<lparr>nb_userId = u, nb_type = y, nb_count = 1, nb_flushedAt = None,
                      nb_expiresAt = t + nu_batchWindowSeconds x * 1000\<rparr>]\<rparr>
                   in and_then (post_channel w t Slack x n s4) (\<lambda>_ s5.
                      and_then (post_channel w t Discord x n s5) (\<lambda>_ s6.
                      and_then (post_channel w t Teams x n s6) (\<lambda>_ s7. return (Some n) s7)))))))"

text \<open>Errors are logged; the caller gets nothing.\<close>

definition notifyUserById :: "notice_env \<Rightarrow> time \<Rightarrow> ident \<Rightarrow> notice_type \<Rightarrow> string \<Rightarrow> string \<Rightarrow> notice_data option \<Rightarrow>
  notice_db \<Rightarrow> inbox_notice option \<times> notice_db" where
  "notifyUserById w t u y heading message data s = (case notifyUserById_body w t u y heading message data s of
     (Inl _, s') \<Rightarrow> (None, s') | (Inr n, s') \<Rightarrow> (n, s'))"

definition notifyUser :: "notice_env \<Rightarrow> time \<Rightarrow> string \<Rightarrow> notice_type \<Rightarrow> string \<Rightarrow> string \<Rightarrow> notice_data option \<Rightarrow>
  notice_db \<Rightarrow> inbox_notice option \<times> notice_db" where
  "notifyUser w t a y heading message data s = (case List.find (\<lambda>x. nu_stellarAddress x = a) (nd_users s) of
     None \<Rightarrow> (None, s) | Some x \<Rightarrow> notifyUserById w t (nu_id x) y heading message data s)"

section \<open>Preferences and the inbox\<close>

definition getPreferences :: "ident \<Rightarrow> notice_db \<Rightarrow> preference list" where
  "getPreferences u s = map (\<lambda>y. case List.find (\<lambda>p. pf_type p = y) (filter (\<lambda>p. pf_userId p = u) (nd_preferences s)) of
       Some p \<Rightarrow> p
     | None \<Rightarrow> \<lparr>pf_userId = u, pf_type = y, pf_emailEnabled = True, pf_inAppEnabled = True, pf_sseEnabled = True, pf_pushEnabled = True\<rparr>)
     (map fst all_notice_types)"

record preference_change =
  pc_type :: notice_type
  pc_emailEnabled :: "bool option"
  pc_inAppEnabled :: "bool option"
  pc_sseEnabled :: "bool option"
  pc_pushEnabled :: "bool option"

definition or_else :: "bool option \<Rightarrow> bool \<Rightarrow> bool" where
  "or_else v d = (case v of None \<Rightarrow> d | Some b \<Rightarrow> b)"

definition change_preference :: "preference_change \<Rightarrow> preference \<Rightarrow> preference" where
  "change_preference c p = p\<lparr>pf_emailEnabled := or_else (pc_emailEnabled c) (pf_emailEnabled p),
     pf_inAppEnabled := or_else (pc_inAppEnabled c) (pf_inAppEnabled p),
     pf_sseEnabled := or_else (pc_sseEnabled c) (pf_sseEnabled p),
     pf_pushEnabled := or_else (pc_pushEnabled c) (pf_pushEnabled p)\<rparr>"

definition upsert_preference :: "ident \<Rightarrow> preference_change \<Rightarrow> notice_db \<Rightarrow> notice_db" where
  "upsert_preference u c s =
     (if find_preference u (pc_type c) s = None
      then s\<lparr>nd_preferences := nd_preferences s @ [change_preference c
        \<lparr>pf_userId = u, pf_type = pc_type c, pf_emailEnabled = True, pf_inAppEnabled = True, pf_sseEnabled = True, pf_pushEnabled = True\<rparr>]\<rparr>
      else s\<lparr>nd_preferences := update_where (\<lambda>p. pf_userId p = u \<and> pf_type p = pc_type c) (change_preference c) (nd_preferences s)\<rparr>)"

definition updatePreferences :: "ident \<Rightarrow> preference_change list \<Rightarrow> notice_db \<Rightarrow> notice_db" where
  "updatePreferences u cs s = fold (upsert_preference u) cs s"

definition getDigestPreference :: "ident \<Rightarrow> notice_db \<Rightarrow> bool" where
  "getDigestPreference u s = (case find_user u s of None \<Rightarrow> False | Some x \<Rightarrow> nu_digestEnabled x)"

definition setDigestPreference :: "ident \<Rightarrow> bool \<Rightarrow> notice_db \<Rightarrow> (notice_db, bool) outcome" where
  "setDigestPreference u b s =
     (if find_user u s = None then throw RecordNotFound s
      else return b (s\<lparr>nd_users := update_where (\<lambda>x. nu_id x = u) (\<lambda>x. x\<lparr>nu_digestEnabled := b\<rparr>) (nd_users s)\<rparr>))"

definition getUnreadCount :: "ident \<Rightarrow> notice_db \<Rightarrow> nat" where
  "getUnreadCount u s = count_where (\<lambda>n. no_userId n = u \<and> \<not> no_read n) (nd_notices s)"

definition markRead :: "ident \<Rightarrow> ident \<Rightarrow> notice_db \<Rightarrow> nat \<times> notice_db" where
  "markRead i u s = (let p = (\<lambda>n. no_id n = i \<and> no_userId n = u) in
     (count_where p (nd_notices s), s\<lparr>nd_notices := update_where p (\<lambda>n. n\<lparr>no_read := True\<rparr>) (nd_notices s)\<rparr>))"

definition markAllRead :: "ident \<Rightarrow> notice_db \<Rightarrow> nat \<times> notice_db" where
  "markAllRead u s = (let p = (\<lambda>n. no_userId n = u \<and> \<not> no_read n) in
     (count_where p (nd_notices s), s\<lparr>nd_notices := update_where p (\<lambda>n. n\<lparr>no_read := True\<rparr>) (nd_notices s)\<rparr>))"

definition remove_notice :: "ident \<Rightarrow> ident \<Rightarrow> notice_db \<Rightarrow> (notice_db, unit) outcome" where
  "remove_notice i u s = (let p = (\<lambda>n. no_id n = i \<and> no_userId n = u) in
     if count_where p (nd_notices s) = 0 then throw NotFoundException s
     else return () (s\<lparr>nd_notices := delete_where p (nd_notices s)\<rparr>))"

definition findForUser :: "ident \<Rightarrow> bool \<Rightarrow> nat \<Rightarrow> nat \<Rightarrow> notice_db \<Rightarrow> inbox_notice list \<times> nat \<times> nat" where
  "findForUser u unreadOnly page limit s =
     (let rows = rev (sort_key no_createdAt (filter (\<lambda>n. no_userId n = u \<and> (unreadOnly \<longrightarrow> \<not> no_read n)) (nd_notices s)))
      in (take limit (drop ((page - 1) * limit) rows), length rows, getUnreadCount u s))"

text \<open>With a cursor the page starts behind the row it names; an unknown cursor yields nothing.\<close>

definition findForUserAfter :: "ident \<Rightarrow> bool \<Rightarrow> ident \<Rightarrow> nat \<Rightarrow> notice_db \<Rightarrow> inbox_notice list \<times> ident option" where
  "findForUserAfter u unreadOnly cursor limit s =
     (let rows = rev (sort_key no_createdAt (filter (\<lambda>n. no_userId n = u \<and> (unreadOnly \<longrightarrow> \<not> no_read n)) (nd_notices s)));
          items = take (limit + 1) (drop 1 (dropWhile (\<lambda>n. no_id n \<noteq> cursor) rows));
          data = take limit items
      in (data, if limit < length items then Some (no_id (last data)) else None))"

end
