(* ===== verification/NotificationProperties.thy ===== *)
theory NotificationProperties
  imports Notifications
begin

text \<open>What the notification service guarantees: the inbox, the channels, preferences.\<close>

section \<open>Frames\<close>

lemma sendEmail_frame [simp]:
  "nd_batches (snd (sendEmail w a b y l s)) = nd_batches s" "posted (snd (sendEmail w a b y l s)) = posted s"
  "nd_users (snd (sendEmail w a b y l s)) = nd_users s" "nd_notices (snd (sendEmail w a b y l s)) = nd_notices s"
  "nd_preferences (snd (sendEmail w a b y l s)) = nd_preferences s"
  by (simp_all add: sendEmail_def)

lemma markEmailSent_frame [simp]:
  "nd_batches (snd (markEmailSent i s)) = nd_batches s" "posted (snd (markEmailSent i s)) = posted s"
  "nd_users (snd (markEmailSent i s)) = nd_users s" "map no_id (nd_notices (snd (markEmailSent i s))) = map no_id (nd_notices s)"
  "nd_preferences (snd (markEmailSent i s)) = nd_preferences s"
  by (simp_all add: markEmailSent_def map_update_where_key)

lemma snd_and_then: "snd (and_then r k) = (case fst r of Inl e \<Rightarrow> snd r | Inr x \<Rightarrow> snd (k x (snd r)))"
  by (cases r) (auto simp: and_then_def split: sum.split)

lemma mail_user_frame [simp]:
  "nd_batches (snd (mail_user w x p n s)) = nd_batches s" "posted (snd (mail_user w x p n s)) = posted s"
  "nd_users (snd (mail_user w x p n s)) = nd_users s" "nd_preferences (snd (mail_user w x p n s)) = nd_preferences s"
  "map no_id (nd_notices (snd (mail_user w x p n s))) = map no_id (nd_notices s)"
  by (simp_all add: mail_user_def snd_and_then split: sum.split)

lemma push_frame [simp]:
  "nd_batches (pushToConnections n s) = nd_batches s" "posted (pushToConnections n s) = posted s"
  "nd_users (pushToConnections n s) = nd_users s" "nd_notices (pushToConnections n s) = nd_notices s"
  "nd_preferences (pushToConnections n s) = nd_preferences s"
  by (simp_all add: pushToConnections_def split: option.split)

text \<open>What is posted to a channel, as a list of at most one message.\<close>

definition channel_message :: "notice_env \<Rightarrow> time \<Rightarrow> notice_user \<Rightarrow> inbox_notice \<Rightarrow> channel \<Rightarrow> channel_post" where
  "channel_message w t x n c = \<lparr>cp_channel = c, cp_time = t, cp_user = no_userId n, cp_type = no_type n, cp_url = the (webhook_of c x)\<rparr>"

lemma post_channel_cases:
  "post_channel w t c x n s = (Inl PlainError, s) \<or> post_channel w t c x n s = (Inr (), s) \<or>
   post_channel w t c x n s = (Inr (), s\<lparr>posted := posted s @ [channel_message w t x n c]\<rparr>)"
  unfolding post_channel_def throw_def return_def channel_message_def by presburger

definition post_all :: "notice_env \<Rightarrow> time \<Rightarrow> notice_user \<Rightarrow> inbox_notice \<Rightarrow> notice_db \<Rightarrow> (notice_db, inbox_notice option) outcome" where
  "post_all w t x n s = and_then (post_channel w t Slack x n s) (\<lambda>_ s5.
     and_then (post_channel w t Discord x n s5) (\<lambda>_ s6.
     and_then (post_channel w t Teams x n s6) (\<lambda>_ s7. return (Some n) s7)))"

lemma post_all_posts:
  "\<exists>cs. distinct cs \<and> snd (post_all w t x n s) = s\<lparr>posted := posted s @ map (channel_message w t x n) cs\<rparr>"
proof -
  have app: "s'\<lparr>posted := posted s' @ []\<rparr> = s'" for s' :: notice_db by simp
  have one: "\<exists>cs. set cs \<subseteq> {c} \<and> distinct cs \<and>
      snd (post_channel w t c x n s') = s'\<lparr>posted := posted s' @ map (channel_message w t x n) cs\<rparr>" for c s'
    using post_channel_cases [of w t c x n s']
  proof (elim disjE)
    assume "post_channel w t c x n s' = (Inr (), s'\<lparr>posted := posted s' @ [channel_message w t x n c]\<rparr>)"
    then show ?thesis by (intro exI [of _ "[c]"]) simp
  qed (intro exI [of _ "[]"], simp)+
  obtain as where as: "set as \<subseteq> {Slack}" "distinct as" and a:
    "snd (post_channel w t Slack x n s) = s\<lparr>posted := posted s @ map (channel_message w t x n) as\<rparr>" using one by blast
  define s5 where "s5 = s\<lparr>posted := posted s @ map (channel_message w t x n) as\<rparr>"
  obtain bs where bs: "set bs \<subseteq> {Discord}" "distinct bs" and b:
    "snd (post_channel w t Discord x n s5) = s5\<lparr>posted := posted s5 @ map (channel_message w t x n) bs\<rparr>" using one by blast
  define s6 where "s6 = s5\<lparr>posted := posted s5 @ map (channel_message w t x n) bs\<rparr>"
  obtain cs where cs: "set cs \<subseteq> {Teams}" "distinct cs" and c:
    "snd (post_channel w t Teams x n s6) = s6\<lparr>posted := posted s6 @ map (channel_message w t x n) cs\<rparr>" using one by blast
  have "snd (post_all w t x n s) \<in> {s5, s6, s6\<lparr>posted := posted s6 @ map (channel_message w t x n) cs\<rparr>}"
    by (simp add: post_all_def snd_and_then a [folded s5_def] b [folded s6_def] c split: sum.split)
  moreover have "distinct (as @ bs @ cs)" "distinct (as @ bs)" using as bs cs by auto
  ultimately show ?thesis
    using as(2) by (auto simp: s5_def s6_def intro: exI [of _ as] exI [of _ "as @ bs"] exI [of _ "as @ bs @ cs"])
qed

section \<open>Batches\<close>



lemma snd_notifyUserById: "snd (notifyUserById w t u y h m d s) = snd (notifyUserById_body w t u y h m d s)"
  by (simp add: notifyUserById_def split: prod.split sum.split)


section \<open>Runs\<close>






lemma updatePreferences_frame [simp]:
  "nd_batches (updatePreferences u cs s) = nd_batches s" "posted (updatePreferences u cs s) = posted s"
  "nd_users (updatePreferences u cs s) = nd_users s" "nd_notices (updatePreferences u cs s) = nd_notices s"
  unfolding updatePreferences_def by (induction cs arbitrary: s) (simp_all add: upsert_preference_def)

lemma email_job_frame [simp]:
  "nd_batches (snd (email_job w j s)) = nd_batches s" "posted (snd (email_job w j s)) = posted s"
  "nd_users (snd (email_job w j s)) = nd_users s"
  by (simp_all add: email_job_def snd_and_then split: sum.split)



section \<open>Channels are not flooded\<close>








section \<open>The inbox\<close>

text \<open>Whatever fails afterwards, a notification to a known user is in the inbox, unread; nothing else is lost.\<close>

lemma notification_is_kept:
  assumes "find_user u s = Some x"
  shows "map no_id (nd_notices (snd (notifyUserById w t u y h m d s))) = map no_id (nd_notices s) @ [noticeId w (nextNotice s)]"
proof -
  have p: "nd_notices (snd (post_all w t x n s')) = nd_notices s'" for x n s'
    using post_all_posts [of w t x n s'] by auto
  have m: "map no_id (nd_notices (snd (create_notice w t u y h m d s))) = map no_id (nd_notices s) @ [noticeId w (nextNotice s)]"
    by (simp add: create_notice_def Let_def)
  have q: "map no_id (nd_notices (if b then pushToConnections n s' else s')) = map no_id (nd_notices s')" for b n s' by simp
  show ?thesis
    using p m by (simp add: snd_notifyUserById notifyUserById_body_def assms Let_def case_prod_unfold snd_and_then
      post_all_def [symmetric] split: sum.split)
qed

text \<open>A failed transport marks the mail as sent all the same.\<close>

lemma failed_mail_is_marked_sent:
  assumes "transportFails w (mj_to j)" "\<not> renderFails w (mj_type j) (mj_locale j)" "mj_notificationId j \<noteq> []"
    and "List.find (\<lambda>n. no_id n = mj_notificationId j) (nd_notices s) = Some n"
  shows "fst (email_job w j s) = Inr () \<and> mails (snd (email_job w j s)) = mails s \<and>
    (\<exists>n'. List.find (\<lambda>n. no_id n = mj_notificationId j) (nd_notices (snd (email_job w j s))) = Some n' \<and> no_emailSent n')"
  using assms find_update_where [of "\<lambda>n. no_id n = mj_notificationId j" "\<lambda>n. n\<lparr>no_emailSent := True\<rparr>"
      "\<lambda>n. no_id n = mj_notificationId j" "nd_notices s"]
  by (auto simp: email_job_def sendEmail_def markEmailSent_def dest: find_SomeD)

text \<open>Unread counts agree with the inbox, and reading everything empties them.\<close>

lemma unread_after_reading: "getUnreadCount u (snd (markAllRead u s)) = 0"
  by (simp add: getUnreadCount_def markAllRead_def Let_def count_where_def filter_empty_conv update_where_def)

lemma others_stay_unread: "u' \<noteq> u \<Longrightarrow> getUnreadCount u' (snd (markAllRead u s)) = getUnreadCount u' s"
  unfolding getUnreadCount_def markAllRead_def count_where_def Let_def
  by (simp add: update_where_def filter_map o_def) (rule arg_cong [of _ _ length], rule filter_cong, auto)

section \<open>Preferences\<close>

lemma preference_of_type:
  "\<exists>p \<in> set (getPreferences u s). p = (case find_preference u y s of Some p \<Rightarrow> p
     | None \<Rightarrow> \<lparr>pf_userId = u, pf_type = y, pf_emailEnabled = True, pf_inAppEnabled = True, pf_sseEnabled = True, pf_pushEnabled = True\<rparr>)"
proof -
  have find_own: "List.find (\<lambda>p. pf_type p = z) (filter (\<lambda>p. pf_userId p = u) ps) = List.find (\<lambda>p. pf_userId p = u \<and> pf_type p = z) ps" for ps z
    by (induction ps) auto
  have "getPreferences u s = map (\<lambda>y. case find_preference u y s of Some p \<Rightarrow> p
     | None \<Rightarrow> \<lparr>pf_userId = u, pf_type = y, pf_emailEnabled = True, pf_inAppEnabled = True, pf_sseEnabled = True, pf_pushEnabled = True\<rparr>)
     (map fst all_notice_types)"
    unfolding getPreferences_def find_preference_def find_own ..
  moreover have "y \<in> set (map fst all_notice_types)" using all_notice_types_complete by simp
  ultimately show ?thesis by (metis (no_types, lifting) image_eqI list.set_map)
qed

section \<open>A concrete inbox\<close>






end
