(* ===== verification/WeeklyDigest.thy ===== *)
theory WeeklyDigest
  imports Notifications
begin

text \<open>
  \<^verbatim>\<open>modules/notifications/weekly-digest.service.ts\<close>: the weekly mail with a summary of a user's
  notifications, grouped by type.  Dates as text, emoji and the dashes are parameters.
\<close>

section \<open>Rendering\<close>

definition DIGEST_LABELS :: "notice_type \<rightharpoonup> string" where
  "DIGEST_LABELS = map_of
     [(ENGAGEMENT_CREATED, ''Engagement created''), (MILESTONE_UNLOCKED, ''Milestone unlocked''),
      (PROOF_SUBMITTED, ''Proof submitted''), (MILESTONE_CONFIRMED, ''Milestone confirmed''),
      (PAYMENT_RELEASED, ''Payment released''), (DISPUTE_RAISED, ''Dispute raised''),
      (DISPUTE_RESOLVED, ''Dispute resolved''), (REPLACEMENT_REQUESTED, ''Replacement requested''),
      (ENGAGEMENT_CANCELLED, ''Engagement cancelled''), (RETENTION_WINDOW_APPROACHING, ''Retention window approaching''),
      (PLACEMENT_MILESTONE_DUE_SOON, ''Milestone due soon''), (ARBITER_ASSIGNED, ''Arbiter assigned''),
      (ARBITER_REASSIGNED, ''Arbiter reassigned''), (ARBITER_RECUSAL_REQUESTED, ''Arbiter recusal requested''),
      (ACCOUNT_MERGE_DETECTED, ''Account merge detected''), (FUNDING_SHORTFALL_DETECTED, ''Funding shortfall detected''),
      (STELLAR_BALANCE_LOW, ''Stellar balance low'')]"

text \<open>A map with buckets in the order of first insertion.\<close>

fun add_to_group :: "inbox_notice \<Rightarrow> (notice_type \<times> inbox_notice list) list \<Rightarrow> (notice_type \<times> inbox_notice list) list" where
  "add_to_group n [] = [(no_type n, [n])]"
| "add_to_group n ((y, ns) # gs) = (if y = no_type n then (y, ns @ [n]) # gs else (y, ns) # add_to_group n gs)"

definition group_notices :: "inbox_notice list \<Rightarrow> (notice_type \<times> inbox_notice list) list" where
  "group_notices ns = fold add_to_group ns []"

record digest_text =
  dt_date :: "time \<Rightarrow> string"
  dt_emoji :: "notice_type \<Rightarrow> string"
  dt_dash :: string
  dt_year :: "time \<Rightarrow> string"

definition digest_row :: "digest_text \<Rightarrow> inbox_notice \<Rightarrow> string" where
  "digest_row d n = ''<li><strong>'' @ escapeHtml (no_title n) @ ''</strong> '' @ dt_dash d @ '' '' @ dt_date d (no_createdAt n) @ ''<br>'' @
     ''<small>'' @ escapeHtml (no_message n) @ ''</small></li>''"

definition newline :: string where "newline = [CHR 0x0A]"

definition digest_section :: "digest_text \<Rightarrow> notice_type \<times> inbox_notice list \<Rightarrow> string" where
  "digest_section d g = (case g of (y, items) \<Rightarrow>
     (let label = (case DIGEST_LABELS y of Some l \<Rightarrow> l | None \<Rightarrow> humanizeType y)
      in ''<h3>'' @ dt_emoji d y @ '' '' @ escapeHtml label @ '' ('' @ show_nat (length items) @ '')</h3>'' @ newline @
         ''<ul style='' @ [CHR 0x22] @ ''margin:0 0 20px;padding-left:20px;'' @ [CHR 0x22] @ ''>'' @ newline @
         join_with newline (map (digest_row d) items) @ newline @ ''</ul>''))"

definition digest_greeting :: "string option \<Rightarrow> string" where
  "digest_greeting name = (if truthy name then escapeHtml (the name) else ''there'')"

text \<open>The variable parts of the page, in their order; the frame around them is fixed.\<close>

definition digest_page :: "digest_text \<Rightarrow> time \<Rightarrow> string option \<Rightarrow> inbox_notice list \<Rightarrow> time \<Rightarrow> int \<Rightarrow> string list" where
  "digest_page d now name ns windowStart windowDays =
     [digest_greeting name, dt_date d windowStart, dt_date d now,
      join_with newline (map (digest_section d) (group_notices ns)), dt_year d now]"

section \<open>The job\<close>

record digest_summary =
  ds_optedIn :: nat
  ds_sent :: nat
  ds_skippedEmpty :: nat
  ds_errors :: nat

definition opted_in :: "notice_user \<Rightarrow> bool" where
  "opted_in x = (nu_digestEnabled x \<and> nu_email x \<noteq> None \<and> nu_deletedAt x = None \<and> nu_deactivatedAt x = None)"

definition digest_notices :: "time \<Rightarrow> ident \<Rightarrow> notice_db \<Rightarrow> inbox_notice list" where
  "digest_notices windowStart u s = sort_key no_createdAt
     (filter (\<lambda>n. no_userId n = u \<and> windowStart \<le> no_createdAt n) (nd_notices s))"

definition digest_subject :: string where "digest_subject = ''Your weekly HireSettle digest''"

text \<open>One user; \<open>queryFails\<close> tells whether reading the notifications throws.\<close>

definition digest_one :: "notice_env \<Rightarrow> (ident \<Rightarrow> bool) \<Rightarrow> time \<Rightarrow> notice_user \<Rightarrow> digest_summary \<times> notice_db \<Rightarrow> digest_summary \<times> notice_db" where
  "digest_one w queryFails windowStart x p = (case p of (m, s) \<Rightarrow>
     if queryFails (nu_id x) then (m\<lparr>ds_errors := ds_errors m + 1\<rparr>, s)
     else if length (digest_notices windowStart (nu_id x) s) = 0 then (m\<lparr>ds_skippedEmpty := ds_skippedEmpty m + 1\<rparr>, s)
     else (case sendDigestEmail w (the (nu_email x)) digest_subject s of
       (Inl _, s1) \<Rightarrow> (m\<lparr>ds_errors := ds_errors m + 1\<rparr>, s1)
     | (Inr _, s1) \<Rightarrow> (m\<lparr>ds_sent := ds_sent m + 1\<rparr>, s1)))"

definition digest_start :: "time option \<Rightarrow> time \<Rightarrow> int \<Rightarrow> time" where
  "digest_start since now windowDays = (case since of Some t \<Rightarrow> t | None \<Rightarrow> now - windowDays * day_ms)"

definition runWeeklyDigest :: "notice_env \<Rightarrow> (ident \<Rightarrow> bool) \<Rightarrow> time \<Rightarrow> int \<Rightarrow> time option \<Rightarrow> notice_db \<Rightarrow> digest_summary \<times> notice_db" where
  "runWeeklyDigest w queryFails now windowDays since s =
     (let users = filter opted_in (nd_users s)
      in fold (digest_one w queryFails (digest_start since now windowDays)) users
           (\<lparr>ds_optedIn = length users, ds_sent = 0, ds_skippedEmpty = 0, ds_errors = 0\<rparr>, s))"

definition handleWeeklyDigest :: "notice_env \<Rightarrow> (ident \<Rightarrow> bool) \<Rightarrow> time \<Rightarrow> int \<Rightarrow> bool \<Rightarrow> notice_db \<Rightarrow> notice_db" where
  "handleWeeklyDigest w queryFails now windowDays isRunning s =
     (if isRunning then s else snd (runWeeklyDigest w queryFails now windowDays None s))"

section \<open>Groups\<close>

lemma add_to_group_keys: "map fst (add_to_group n gs) = (if no_type n \<in> fst ` set gs then map fst gs else map fst gs @ [no_type n])"
  by (induction n gs rule: add_to_group.induct) (auto simp: image_iff)

lemma add_to_group_set:
  assumes "distinct (map fst gs)"
  shows "map_of (add_to_group n gs) y = (if y = no_type n then Some ((case map_of gs y of None \<Rightarrow> [] | Some ns \<Rightarrow> ns) @ [n]) else map_of gs y)"
  using assms by (induction n gs rule: add_to_group.induct) (auto split: option.split)

lemma group_notices_step: "group_notices (ns @ [n]) = add_to_group n (group_notices ns)"
  by (simp add: group_notices_def)

text \<open>
  Every type that occurs has one section, in the order of first occurrence, and a section lists exactly the
  notifications of its type in their order.
\<close>

lemma group_notices_sections:
  "distinct (map fst (group_notices ns)) \<and> set (map fst (group_notices ns)) = no_type ` set ns \<and>
   map_of (group_notices ns) y = (if y \<in> no_type ` set ns then Some (filter (\<lambda>n. no_type n = y) ns) else None)"
proof (induction ns rule: rev_induct)
  case Nil
  then show ?case by (simp add: group_notices_def)
next
  case (snoc n ns)
  have f: "filter (\<lambda>n. no_type n = z) ns = []" if "z \<notin> no_type ` set ns" for z using that by (auto simp: filter_empty_conv)
  have d: "distinct (map fst (group_notices ns))" "set (map fst (group_notices ns)) = no_type ` set ns" using snoc by blast+
  have "distinct (map fst (group_notices (ns @ [n])))" "set (map fst (group_notices (ns @ [n]))) = no_type ` set (ns @ [n])"
    using d by (auto simp: group_notices_step add_to_group_keys)
  moreover have "map_of (group_notices (ns @ [n])) y =
      (if y \<in> no_type ` set (ns @ [n]) then Some (filter (\<lambda>n. no_type n = y) (ns @ [n])) else None)"
    using snoc f [of y] by (auto simp: group_notices_step add_to_group_set [OF d(1)])
  ultimately show ?case by blast
qed

section \<open>Who gets a digest\<close>

definition digest_due :: "notice_env \<Rightarrow> (ident \<Rightarrow> bool) \<Rightarrow> time \<Rightarrow> notice_db \<Rightarrow> notice_user \<Rightarrow> bool" where
  "digest_due w queryFails windowStart s x \<longleftrightarrow>
     opted_in x \<and> \<not> queryFails (nu_id x) \<and>
     (\<exists>n \<in> set (nd_notices s). no_userId n = nu_id x \<and> windowStart \<le> no_createdAt n) \<and> \<not> transportFails w (the (nu_email x))"

lemma no_notices_iff: "length (digest_notices t u s) = 0 \<longleftrightarrow> (\<forall>n \<in> set (nd_notices s). no_userId n = u \<longrightarrow> no_createdAt n < t)"
proof -
  have "length (digest_notices t u s) = length (filter (\<lambda>n. no_userId n = u \<and> t \<le> no_createdAt n) (nd_notices s))"
    by (simp add: digest_notices_def)
  then show ?thesis by (auto simp: filter_empty_conv)
qed

lemma digest_loop:
  fixes w :: notice_env and q :: "ident \<Rightarrow> bool" and t :: time and m :: digest_summary
  assumes "list_all opted_in xs" "nd_notices s' = nd_notices s"
  defines "r \<equiv> fold (digest_one w q t) xs (m, s')"
  shows "mails (snd r) = mails s' @ map (\<lambda>x. (the (nu_email x), digest_subject)) (filter (digest_due w q t s) xs) \<and>
    nd_notices (snd r) = nd_notices s \<and>
    ds_sent (fst r) = ds_sent m + length (filter (digest_due w q t s) xs) \<and> ds_optedIn (fst r) = ds_optedIn m \<and>
    ds_sent (fst r) + ds_skippedEmpty (fst r) + ds_errors (fst r) = ds_sent m + ds_skippedEmpty m + ds_errors m + length xs"
  using assms(1,2) unfolding r_def
proof (induction xs arbitrary: m s')
  case (Cons x xs)
  obtain m1 s1 where 1: "digest_one w q t x (m, s') = (m1, s1)" by fastforce
  have o: "opted_in x" "list_all opted_in xs" using Cons.prems(1) by simp_all
  have e: "length (digest_notices t (nu_id x) s') = 0 \<longleftrightarrow> \<not> (\<exists>n \<in> set (nd_notices s). no_userId n = nu_id x \<and> t \<le> no_createdAt n)"
    unfolding no_notices_iff Cons.prems(2) by (auto simp: not_le)
  have s1: "nd_notices s1 = nd_notices s" "ds_optedIn m1 = ds_optedIn m"
    "mails s1 = mails s' @ (if digest_due w q t s x then [(the (nu_email x), digest_subject)] else [])"
    "ds_sent m1 = ds_sent m + (if digest_due w q t s x then 1 else 0)"
    "ds_sent m1 + ds_skippedEmpty m1 + ds_errors m1 = ds_sent m + ds_skippedEmpty m + ds_errors m + 1"
    using 1 Cons.prems(2) o(1) unfolding digest_one_def prod.case e digest_due_def
    by (auto simp: sendDigestEmail_def throw_def return_def split: if_splits)
  show ?case using Cons.IH [OF o(2) s1(1), of m1] s1(2-5) by (simp add: 1)
qed simp

text \<open>
  The weekly digest goes to exactly the active users who opted in, have an address and had a notification in
  the window, once each; users with nothing to report get no mail, a failure for one user does not affect the
  others, and the summary accounts for everybody who opted in.
\<close>

lemma digest_reaches_exactly_the_active:
  fixes now days :: int and since :: "time option"
  defines "t \<equiv> digest_start since now days"
  shows "let (m, s') = runWeeklyDigest w q now days since s in
    mails s' = mails s @ map (\<lambda>x. (the (nu_email x), digest_subject)) (filter (digest_due w q t s) (nd_users s)) \<and>
    ds_optedIn m = length (filter opted_in (nd_users s)) \<and> ds_sent m = length (filter (digest_due w q t s) (nd_users s)) \<and>
    ds_sent m + ds_skippedEmpty m + ds_errors m = ds_optedIn m"
proof -
  have "list_all opted_in (filter opted_in (nd_users s))" by (simp add: list_all_iff)
  moreover have "filter (digest_due w q t s) (filter opted_in (nd_users s)) = filter (digest_due w q t s) (nd_users s)"
    unfolding filter_filter by (rule filter_cong) (auto simp: digest_due_def)
  ultimately show ?thesis
    using digest_loop [of "filter opted_in (nd_users s)" s s w q t
      "\<lparr>ds_optedIn = length (filter opted_in (nd_users s)), ds_sent = 0, ds_skippedEmpty = 0, ds_errors = 0\<rparr>"]
    by (simp add: runWeeklyDigest_def t_def Let_def case_prod_unfold)
qed

text \<open>User text in the mail opens no tag.\<close>

lemma digest_row_text_escaped:
  "set (escapeHtml (no_title n)) \<inter> {CHR ''<'', CHR ''>''} = {}" "set (digest_greeting name) \<inter> {CHR ''<'', CHR ''>''} = {}"
  using escapeHtml_safe by (auto simp: digest_greeting_def disjoint_iff)

end
