(* ===== verification/Users.thy ===== *)
theory Users
  imports Cache Doubles Prelude
begin

text \<open>
  \<^verbatim>\<open>modules/users/users.service.ts\<close>: profiles, the verified change of a mail address, the change of the
  Stellar address, avatars and channel settings.

  The nonce and the keyed hash of a confirmation token, the success of the mail transport and of S3, and the
  checks of the Stellar client are parameters.  The client the service calls has no \<open>verifySignature\<close>: its
  record field is an option, \<open>None\<close> in the repository's state, and then the call is a type error.
\<close>

section \<open>State\<close>

datatype account_role = U_COMPANY | U_RECRUITER | U_ARBITER | U_ADMIN

record account_row =
  uu_id :: ident
  uu_stellarAddress :: "string option"
  uu_email :: "string option"
  uu_name :: "string option"
  uu_company :: "string option"
  uu_role :: account_role
  uu_timezone :: "string option"
  uu_locale :: string
  uu_avatarUrl :: "string option"
  uu_verifiedAt :: "time option"
  uu_pendingEmail :: "string option"
  uu_emailChangeToken :: "string option"
  uu_emailChangeTokenExpiresAt :: "time option"
  uu_allowedCustomFields :: "string list"
  uu_slackWebhookUrl :: "string option"
  uu_discordWebhookUrl :: "string option"
  uu_teamsWebhookUrl :: "string option"

record address_use =
  au_active :: bool
  au_companyAddress :: string
  au_recruiterAddress :: string
  au_arbiterAddress :: string

record public_profile =
  pp_name :: "string option"
  pp_company :: "string option"
  pp_role :: account_role
  pp_verifiedAt :: "time option"
  pp_averageRating :: "rat option option"

text \<open>
  \<open>ud_engagements\<close> are the engagements, \<open>au_active\<close> when their status is one of those that block a rebinding;
  \<open>ud_ratings\<close> the ratings of a recruiter.  \<open>ud_issued\<close> records the confirmation tokens that were drawn: for
  whom, to which address, and when.
\<close>

record 'r users_db =
  ud_users :: "account_row list"
  ud_engagements :: "address_use list"
  ud_ratings :: "(ident \<times> nat) list"
  ud_cache :: "('r, public_profile) cache"
  ud_preferences :: "(ident \<times> string \<times> bool) list"
  ud_issued :: "(ident \<times> string \<times> string \<times> time) list"
  ud_mails :: "(string \<times> string) list"
  ud_events :: "(ident \<times> string) list"
  ud_uploads :: "string list"

record 'r users_env =
  ue_redis :: "('r, public_profile) redis"
  ue_hmac :: "string \<Rightarrow> string \<Rightarrow> string"
  ue_secret :: "string option"
  ue_nonce :: string
  ue_now :: time
  ue_mailFails :: "string \<Rightarrow> bool"
  ue_uploadFails :: bool
  ue_isValidAddress :: "string \<Rightarrow> bool"
  ue_verifySignature :: "(string \<Rightarrow> string \<Rightarrow> string \<Rightarrow> bool) option"
  ue_types :: "string list"
  ue_numText :: "time \<Rightarrow> string"
  ue_cdnBase :: string

definition get_user :: "ident \<Rightarrow> 'r users_db \<Rightarrow> account_row option" where
  "get_user i s = List.find (\<lambda>x. uu_id x = i) (ud_users s)"

definition map_users :: "ident \<Rightarrow> (account_row \<Rightarrow> account_row) \<Rightarrow> 'r users_db \<Rightarrow> 'r users_db" where
  "map_users i f s = s\<lparr>ud_users := update_where (\<lambda>x. uu_id x = i) f (ud_users s)\<rparr>"

text \<open>
  \<open>prisma.user.update\<close> by id: a missing row is an error, and so is a value another row already has in one of the
  unique columns.
\<close>

definition unique_clash :: "ident \<Rightarrow> account_row \<Rightarrow> 'r users_db \<Rightarrow> bool" where
  "unique_clash i x s = list_ex (\<lambda>y. uu_id y \<noteq> i \<and>
     (uu_email x \<noteq> None \<and> uu_email y = uu_email x \<or> uu_stellarAddress x \<noteq> None \<and> uu_stellarAddress y = uu_stellarAddress x \<or>
      uu_emailChangeToken x \<noteq> None \<and> uu_emailChangeToken y = uu_emailChangeToken x)) (ud_users s)"

definition update_user :: "ident \<Rightarrow> (account_row \<Rightarrow> account_row) \<Rightarrow> 'r users_db \<Rightarrow> ('r users_db, account_row) outcome" where
  "update_user i f s = (case get_user i s of
     None \<Rightarrow> throw RecordNotFound s
   | Some x \<Rightarrow> if unique_clash i (f x) s then throw UniqueViolation s else return (f x) (map_users i f s))"

section \<open>Profiles\<close>

definition PROFILE_TTL_S :: int where "PROFILE_TTL_S = 60"

text \<open>\<open>Math.round(avg * 10) / 10\<close> on doubles; \<open>Math.round\<close> rounds halves up.\<close>

definition averageRating :: "ident \<Rightarrow> 'r users_db \<Rightarrow> rat option" where
  "averageRating i s =
     (let rs = map snd (filter (\<lambda>(j, _). j = i) (ud_ratings s))
      in if rs = [] then None
         else (let avg = to_double (of_nat (sum_list rs) / of_nat (length rs))
               in Some (to_double (of_int \<lfloor>to_double (avg * 10) + 1 / 2\<rfloor> / 10))))"

definition profile_key :: "string \<Rightarrow> string" where
  "profile_key a = ''user:profile:'' @ a"

definition findByStellarAddress :: "'r users_env \<Rightarrow> string \<Rightarrow> 'r users_db \<Rightarrow> ('r users_db, public_profile) outcome" where
  "findByStellarAddress w a s =
     (case cache_get (ue_redis w) (ue_now w) (profile_key a) (ud_cache s) of
        (Some p, c) \<Rightarrow> return p (s\<lparr>ud_cache := c\<rparr>)
      | (None, c) \<Rightarrow>
          (case List.find (\<lambda>x. uu_stellarAddress x = Some a) (ud_users s) of
             None \<Rightarrow> throw NotFoundException (s\<lparr>ud_cache := c\<rparr>)
           | Some x \<Rightarrow>
               (let p = \<lparr>pp_name = uu_name x, pp_company = uu_company x, pp_role = uu_role x, pp_verifiedAt = uu_verifiedAt x,
                      pp_averageRating = (if uu_role x = U_RECRUITER then Some (averageRating (uu_id x) s) else None)\<rparr>
                in return p (s\<lparr>ud_cache := cache_set (ue_redis w) (ue_now w) (profile_key a) p PROFILE_TTL_S c\<rparr>))))"

definition getProfile :: "ident \<Rightarrow> 'r users_db \<Rightarrow> exn + account_row" where
  "getProfile i s = (case get_user i s of None \<Rightarrow> Inl NotFoundException | Some x \<Rightarrow> Inr x)"

text \<open>A change of the profile: \<open>None\<close> is a field that was not sent.\<close>

record profile_change =
  ch_name :: "string option"
  ch_company :: "string option"
  ch_timezone :: "string option"
  ch_locale :: "string option"
  ch_email :: "string option"
  ch_stellarAddress :: "string option"

definition change_profile :: "profile_change \<Rightarrow> account_row \<Rightarrow> account_row" where
  "change_profile d x = x\<lparr>uu_name := (if ch_name d = None then uu_name x else ch_name d),
     uu_company := (if ch_company d = None then uu_company x else ch_company d),
     uu_timezone := (if ch_timezone d = None then uu_timezone x else ch_timezone d),
     uu_locale := (case ch_locale d of None \<Rightarrow> uu_locale x | Some l \<Rightarrow> l)\<rparr>"

definition updateProfile_users :: "ident \<Rightarrow> profile_change \<Rightarrow> 'r users_db \<Rightarrow> ('r users_db, account_row) outcome" where
  "updateProfile_users i d s =
     (if ch_stellarAddress d \<noteq> None then throw BadRequestException s
      else if ch_email d \<noteq> None then throw BadRequestException s
      else update_user i (change_profile d) s)"

text \<open>Mail preferences, one entry per type.\<close>

definition getPreferences_users :: "'r users_env \<Rightarrow> ident \<Rightarrow> 'r users_db \<Rightarrow> (string \<times> bool) list" where
  "getPreferences_users w i s = map (\<lambda>y. (y, case List.find (\<lambda>(j, z, _). j = i \<and> z = y) (ud_preferences s) of
     Some (_, _, b) \<Rightarrow> b | None \<Rightarrow> True)) (ue_types w)"

definition set_preference :: "ident \<Rightarrow> string \<times> bool \<Rightarrow> (ident \<times> string \<times> bool) list \<Rightarrow> (ident \<times> string \<times> bool) list" where
  "set_preference i p ps = (case p of (y, b) \<Rightarrow>
     if list_ex (\<lambda>(j, z, _). j = i \<and> z = y) ps then update_where (\<lambda>(j, z, _). j = i \<and> z = y) (\<lambda>(j, z, _). (j, z, b)) ps
     else ps @ [(i, y, b)])"

definition updatePreferences_users :: "'r users_env \<Rightarrow> ident \<Rightarrow> (string \<times> bool) list \<Rightarrow> 'r users_db \<Rightarrow> (string \<times> bool) list \<times> 'r users_db" where
  "updatePreferences_users w i changes s =
     (let s' = s\<lparr>ud_preferences := fold (set_preference i) changes (ud_preferences s)\<rparr>
      in (getPreferences_users w i s', s'))"

section \<open>Changing the mail address\<close>

definition EMAIL_TOKEN_TTL_H :: int where "EMAIL_TOKEN_TTL_H = 24"

definition generateEmailChangeToken :: "'r users_env \<Rightarrow> ident \<Rightarrow> string" where
  "generateEmailChangeToken w i =
     (let secret = (case ue_secret w of None \<Rightarrow> ''fallback-secret'' | Some s \<Rightarrow> s)
      in ue_nonce w @ ''.'' @ ue_hmac w secret (i @ '':'' @ ue_nonce w))"

definition send_change_mail :: "'r users_env \<Rightarrow> string \<Rightarrow> string \<Rightarrow> 'r users_db \<Rightarrow> ('r users_db, unit) outcome" where
  "send_change_mail w to token s = (if ue_mailFails w to then throw PlainError s else return () (s\<lparr>ud_mails := ud_mails s @ [(to, token)]\<rparr>))"

definition normal_email :: "string \<Rightarrow> string" where
  "normal_email e = trim (toLowerCase e)"

definition set_pending :: "string \<Rightarrow> string \<Rightarrow> time \<Rightarrow> account_row \<Rightarrow> account_row" where
  "set_pending e token expires x = x\<lparr>uu_pendingEmail := Some e, uu_emailChangeToken := Some token, uu_emailChangeTokenExpiresAt := Some expires\<rparr>"

definition clear_pending :: "account_row \<Rightarrow> account_row" where
  "clear_pending x = x\<lparr>uu_pendingEmail := None, uu_emailChangeToken := None, uu_emailChangeTokenExpiresAt := None\<rparr>"

definition requestEmailChange :: "'r users_env \<Rightarrow> ident \<Rightarrow> string \<Rightarrow> 'r users_db \<Rightarrow> ('r users_db, unit) outcome" where
  "requestEmailChange w i newEmail s =
     (let e = normal_email newEmail in
      case get_user i s of
        None \<Rightarrow> throw NotFoundException s
      | Some x \<Rightarrow>
          if map_option toLowerCase (uu_email x) = Some e then throw BadRequestException s
          else if List.find (\<lambda>y. uu_email y = Some e) (ud_users s) \<noteq> None then throw ConflictException s
          else (let token = generateEmailChangeToken w i;
                    s1 = s\<lparr>ud_issued := (i, e, token, ue_now w) # ud_issued s\<rparr>
                in and_then (update_user i (set_pending e token (ue_now w + EMAIL_TOKEN_TTL_H * 60 * 60 * 1000)) s1)
                  (\<lambda>_ s2. and_then (send_change_mail w e token s2)
                    (\<lambda>_ s3. if truthy (uu_email x) then send_change_mail w (the (uu_email x)) [] s3 else return () s3))))"

definition confirmEmailChange :: "'r users_env \<Rightarrow> string \<Rightarrow> 'r users_db \<Rightarrow> ('r users_db, string) outcome" where
  "confirmEmailChange w token s =
     (case List.find (\<lambda>x. uu_emailChangeToken x = Some token) (ud_users s) of
        None \<Rightarrow> throw BadRequestException s
      | Some x \<Rightarrow>
          if \<not> ge_opt (uu_emailChangeTokenExpiresAt x) (ue_now w) then throw BadRequestException s
          else if \<not> truthy (uu_pendingEmail x) then throw BadRequestException s
          else (let e = the (uu_pendingEmail x) in
            if List.find (\<lambda>y. uu_email y = Some e \<and> uu_id y \<noteq> uu_id x) (ud_users s) \<noteq> None
            then and_then (update_user (uu_id x) clear_pending s) (\<lambda>_ s1. throw ConflictException s1)
            else and_then (update_user (uu_id x) (\<lambda>y. clear_pending (y\<lparr>uu_email := Some e\<rparr>)) s)
              (\<lambda>_ s1. return e (s1\<lparr>ud_events := ud_events s1 @ [(uu_id x, ''EMAIL_VERIFICATION'')]\<rparr>))))"

section \<open>Changing the Stellar address\<close>

definition uses_address :: "string \<Rightarrow> address_use \<Rightarrow> bool" where
  "uses_address a e = (au_active e \<and> (au_companyAddress e = a \<or> au_recruiterAddress e = a \<or> au_arbiterAddress e = a))"

definition check_signature :: "'r users_env \<Rightarrow> string \<Rightarrow> string \<Rightarrow> string \<Rightarrow> 'r users_db \<Rightarrow> ('r users_db, unit) outcome" where
  "check_signature w a nonce sig s = (case ue_verifySignature w of
     None \<Rightarrow> throw TypeErrorExn s
   | Some v \<Rightarrow> if v a nonce sig then return () s else throw BadRequestException s)"

definition rebindStellarAddress :: "'r users_env \<Rightarrow> ident \<Rightarrow> string \<Rightarrow> string \<Rightarrow> string \<Rightarrow> string option \<Rightarrow> 'r users_db \<Rightarrow>
  ('r users_db, string) outcome" where
  "rebindStellarAddress w i newAddress nonce newSignature oldSignature s =
     (if \<not> ue_isValidAddress w newAddress then throw BadRequestException s
      else (case get_user i s of
        None \<Rightarrow> throw NotFoundException s
      | Some x \<Rightarrow>
          if uu_stellarAddress x = Some newAddress then throw BadRequestException s
          else and_then (check_signature w newAddress nonce newSignature s) (\<lambda>_ s.
            and_then
              (if truthy (uu_stellarAddress x)
               then (if \<not> truthy oldSignature then throw BadRequestException s
                     else check_signature w (the (uu_stellarAddress x)) nonce (the oldSignature) s)
               else return () s)
              (\<lambda>_ s.
                if truthy (uu_stellarAddress x) \<and> 0 < count_where (uses_address (the (uu_stellarAddress x))) (ud_engagements s)
                then throw ForbiddenException s
                else if List.find (\<lambda>y. uu_stellarAddress y = Some newAddress \<and> uu_id y \<noteq> i) (ud_users s) \<noteq> None
                then throw ConflictException s
                else and_then (update_user i (\<lambda>y. y\<lparr>uu_stellarAddress := Some newAddress\<rparr>) s)
                  (\<lambda>_ s1. return newAddress (s1\<lparr>ud_events := ud_events s1 @ [(i, ''ROLE_CHANGE'')]\<rparr>))))))"

section \<open>Avatars and settings\<close>

definition avatar_key :: "'r users_env \<Rightarrow> ident \<Rightarrow> string \<Rightarrow> string" where
  "avatar_key w i contentType =
     ''avatars/'' @ i @ ''/'' @ ue_numText w (ue_now w) @ ''.'' @ (if contentType = ''image/png'' then ''png'' else ''jpg'')"

definition updateAvatar :: "ident \<Rightarrow> string \<Rightarrow> 'r users_db \<Rightarrow> ('r users_db, account_row) outcome" where
  "updateAvatar i url s = update_user i (\<lambda>x. x\<lparr>uu_avatarUrl := Some url\<rparr>) s"

definition getAvatarUploadUrl :: "'r users_env \<Rightarrow> ident \<Rightarrow> string \<Rightarrow> 'r users_db \<Rightarrow> ('r users_db, string) outcome" where
  "getAvatarUploadUrl w i contentType s =
     (let key = avatar_key w i contentType in
      if ue_uploadFails w then throw PlainError s
      else and_then (updateAvatar i (ue_cdnBase w @ ''/'' @ key) s) (\<lambda>_ s1. return key s1))"

definition uploadAvatar :: "'r users_env \<Rightarrow> ident \<Rightarrow> string \<Rightarrow> nat \<Rightarrow> 'r users_db \<Rightarrow> ('r users_db, account_row) outcome" where
  "uploadAvatar w i mimetype fileSize s =
     (if mimetype \<notin> {''image/jpeg'', ''image/png'', ''image/jpg''} then throw BadRequestException s
      else if 2 * 1024 * 1024 < fileSize then throw BadRequestException s
      else if ue_uploadFails w then throw PlainError s
      else (let key = avatar_key w i mimetype
            in updateAvatar i (ue_cdnBase w @ ''/'' @ key) (s\<lparr>ud_uploads := ud_uploads s @ [key]\<rparr>)))"

definition getCustomFieldsConfig :: "ident \<Rightarrow> 'r users_db \<Rightarrow> exn + string list" where
  "getCustomFieldsConfig i s = (case get_user i s of None \<Rightarrow> Inl NotFoundException | Some x \<Rightarrow> Inr (uu_allowedCustomFields x))"

definition updateCustomFieldsConfig :: "ident \<Rightarrow> string list \<Rightarrow> 'r users_db \<Rightarrow> ('r users_db, account_row) outcome" where
  "updateCustomFieldsConfig i keys s = update_user i (\<lambda>x. x\<lparr>uu_allowedCustomFields := keys\<rparr>) s"

text \<open>Setting (\<open>Some\<close>) and clearing (\<open>None\<close>) the channel of a user.\<close>

definition setSlackWebhook :: "ident \<Rightarrow> string option \<Rightarrow> 'r users_db \<Rightarrow> ('r users_db, account_row) outcome" where
  "setSlackWebhook i url s = update_user i (\<lambda>x. x\<lparr>uu_slackWebhookUrl := url\<rparr>) s"

definition setDiscordWebhook :: "ident \<Rightarrow> string option \<Rightarrow> 'r users_db \<Rightarrow> ('r users_db, account_row) outcome" where
  "setDiscordWebhook i url s = update_user i (\<lambda>x. x\<lparr>uu_discordWebhookUrl := url\<rparr>) s"

definition setTeamsWebhook :: "ident \<Rightarrow> string option \<Rightarrow> 'r users_db \<Rightarrow> ('r users_db, account_row) outcome" where
  "setTeamsWebhook i url s = update_user i (\<lambda>x. x\<lparr>uu_teamsWebhookUrl := url\<rparr>) s"

end
