(* ===== verification/UserProperties.thy ===== *)
theory UserProperties
  imports Users
begin

text \<open>What identifies an account - its mail address and its Stellar address - changes only in authorised ways.\<close>

section \<open>Runs\<close>




section \<open>What an update keeps\<close>

text \<open>The part of an account that identifies it, and the pending change.\<close>

definition identity :: "account_row \<Rightarrow> string option \<times> string option \<times> string option \<times> string option \<times> time option" where
  "identity x = (uu_email x, uu_stellarAddress x, uu_pendingEmail x, uu_emailChangeToken x, uu_emailChangeTokenExpiresAt x)"




text \<open>An update that leaves the identity alone changes nothing else that matters here.\<close>

definition harmless :: "(account_row \<Rightarrow> account_row) \<Rightarrow> bool" where
  "harmless f \<longleftrightarrow> (\<forall>x. uu_id (f x) = uu_id x \<and> identity (f x) = identity x)"

definition same_identity :: "'r users_db \<Rightarrow> 'r users_db \<Rightarrow> bool" where
  "same_identity s s' \<longleftrightarrow> map (\<lambda>x. (uu_id x, identity x)) (ud_users s') = map (\<lambda>x. (uu_id x, identity x)) (ud_users s) \<and>
     ud_issued s' = ud_issued s"

lemma same_identity_refl [simp]: "same_identity s s"
  by (simp add: same_identity_def)

lemma same_identity_trans: "same_identity s s' \<Longrightarrow> same_identity s' s'' \<Longrightarrow> same_identity s s''"
  by (simp add: same_identity_def)

lemma same_identity_upd [simp]:
  "same_identity s (s'\<lparr>ud_cache := c\<rparr>) = same_identity s s'" "same_identity s (s'\<lparr>ud_preferences := ps\<rparr>) = same_identity s s'"
  "same_identity s (s'\<lparr>ud_mails := ms\<rparr>) = same_identity s s'" "same_identity s (s'\<lparr>ud_events := es\<rparr>) = same_identity s s'"
  "same_identity (s\<lparr>ud_uploads := us\<rparr>) s' = same_identity s s'"
  by (simp_all add: same_identity_def)


lemma harmless_all [simp]:
  "harmless (change_profile d)" "harmless (\<lambda>x. x\<lparr>uu_avatarUrl := u\<rparr>)" "harmless (\<lambda>x. x\<lparr>uu_allowedCustomFields := ks\<rparr>)"
  "harmless (\<lambda>x. x\<lparr>uu_slackWebhookUrl := u\<rparr>)" "harmless (\<lambda>x. x\<lparr>uu_discordWebhookUrl := u\<rparr>)" "harmless (\<lambda>x. x\<lparr>uu_teamsWebhookUrl := u\<rparr>)"
  by (simp_all add: harmless_def identity_def change_profile_def)



section \<open>The invariant\<close>









section \<open>The three operations on the identity\<close>







lemma send_mail_same: "same_identity s (snd (send_change_mail w a b s))"
  by (simp add: send_change_mail_def)

lemma set_pending_simps [simp]:
  "uu_id (set_pending e k t x) = uu_id x" "uu_email (set_pending e k t x) = uu_email x"
  "uu_stellarAddress (set_pending e k t x) = uu_stellarAddress x" "uu_pendingEmail (set_pending e k t x) = Some e"
  "uu_emailChangeToken (set_pending e k t x) = Some k" "uu_emailChangeTokenExpiresAt (set_pending e k t x) = Some t"
  by (simp_all add: set_pending_def)

lemma clear_pending_simps [simp]:
  "uu_id (clear_pending x) = uu_id x" "uu_email (clear_pending x) = uu_email x"
  "uu_stellarAddress (clear_pending x) = uu_stellarAddress x" "uu_emailChangeToken (clear_pending x) = None"
  by (simp_all add: clear_pending_def)





section \<open>Every run\<close>





text \<open>Without the missing check of the Stellar client no address can be changed at all.\<close>

lemma rebinding_always_fails:
  assumes "ue_verifySignature w = None"
  shows "\<exists>e. rebindStellarAddress w i a nonce sig old s = (Inl e, s)"
  using assms by (auto simp: rebindStellarAddress_def check_signature_def throw_def split: option.split)

text \<open>The nonce is not looked at: what was signed once can be presented again.\<close>

lemma nonce_is_not_checked:
  assumes "ue_isValidAddress w a" "get_user i s = Some x" "uu_stellarAddress x = None" "ue_verifySignature w = Some v" "v a nonce sig"
    and "List.find (\<lambda>y. uu_stellarAddress y = Some a \<and> uu_id y \<noteq> i) (ud_users s) = None"
    and "\<not> unique_clash i (x\<lparr>uu_stellarAddress := Some a\<rparr>) s"
  shows "fst (rebindStellarAddress w i a nonce sig old s) = Inr a"
  using assms by (simp add: rebindStellarAddress_def check_signature_def update_user_def)

section \<open>A concrete account\<close>






end
