(* ===== verification/FieldSelection.thy ===== *)
theory FieldSelection
  imports Json Prelude
begin

text \<open>
  Sparse fieldsets, \<^verbatim>\<open>common/interceptors/fields.interceptor.ts\<close>: the \<open>fields\<close> query parameter selects the
  fields of the rows of a response.
\<close>

section \<open>The query parameter\<close>

definition split_fields :: "string list \<Rightarrow> string list" where
  "split_fields values = filter (\<lambda>f. 0 < length f) (map trim (concat (map (split_on (CHR '','')) values)))"

definition parseFields :: "string list \<Rightarrow> exn + string list" where
  "parseFields values =
     (let fs = split_fields values in if fs = [] then Inl BadRequestException else Inr (rev (remdups (rev fs))))"

definition getAllowedFields :: "string list option \<Rightarrow> string list option \<Rightarrow> string list" where
  "getAllowedFields handler cls = (case handler of Some fs \<Rightarrow> fs | None \<Rightarrow> (case cls of Some fs \<Rightarrow> fs | None \<Rightarrow> []))"

section \<open>Selection\<close>

definition array_index :: "string \<Rightarrow> nat option" where
  "array_index f = (if f \<noteq> [] \<and> list_all is_digit f \<and> (f = ''0'' \<or> hd f \<noteq> CHR ''0'') then Some (dec_val f) else None)"

text \<open>\<open>field in source\<close> with its value.  The members inherited from the prototypes are functions, which a
  response does not show.\<close>

definition member_value :: "json \<Rightarrow> string \<Rightarrow> json option" where
  "member_value item f = (case item of
     JObj kvs \<Rightarrow> lookup kvs f
   | JArr xs \<Rightarrow> (if f = ''length'' then Some (JNum (of_nat (length xs)))
       else (case array_index f of None \<Rightarrow> None | Some i \<Rightarrow> if i < length xs then Some (xs ! i) else None))
   | _ \<Rightarrow> None)"

definition is_object :: "json \<Rightarrow> bool" where
  "is_object v = (case v of JObj _ \<Rightarrow> True | JArr _ \<Rightarrow> True | _ \<Rightarrow> False)"

definition pick :: "json \<Rightarrow> string list \<Rightarrow> json" where
  "pick item fs = (if \<not> is_object item then item
     else JObj (concat (map (\<lambda>f. case member_value item f of None \<Rightarrow> [] | Some v \<Rightarrow> [(f, v)]) fs)))"

text \<open>\<open>{ ...envelope, data: v }\<close> keeps the position of the key.\<close>

definition put_data :: "json \<Rightarrow> (string \<times> json) list \<Rightarrow> (string \<times> json) list" where
  "put_data v = map (\<lambda>(k, u). if k = ''data'' then (k, v) else (k, u))"

lemma lookup_size: "lookup kvs k = Some v \<Longrightarrow> size v < size (JObj kvs)"
proof (induction kvs)
  case (Cons p kvs)
  then show ?case by (cases p) (auto split: if_splits)
qed simp

function applyFields :: "json \<Rightarrow> string list \<Rightarrow> json" where
  "applyFields (JArr xs) fs = JArr (map (\<lambda>x. pick x fs) xs)"
| "applyFields (JObj kvs) fs = (case lookup kvs ''data'' of
     Some v \<Rightarrow> JObj (put_data (applyFields v fs) kvs)
   | None \<Rightarrow> pick (JObj kvs) fs)"
| "applyFields JNull fs = pick JNull fs"
| "applyFields (JBool b) fs = pick (JBool b) fs"
| "applyFields (JNum x) fs = pick (JNum x) fs"
| "applyFields (JStr s) fs = pick (JStr s) fs"
  by pat_completeness auto
termination
  by (relation "measure (size \<circ> fst)") (use lookup_size in auto)

text \<open>\<open>rawFields\<close> is \<open>None\<close> when the parameter is absent or empty; \<open>handler\<close> is the answer of the endpoint.\<close>

definition intercept :: "string list option \<Rightarrow> string list option \<Rightarrow> string list option \<Rightarrow> json \<Rightarrow> exn + json" where
  "intercept forHandler forClass rawFields answer = (case rawFields of
     None \<Rightarrow> Inr answer
   | Some values \<Rightarrow>
       if values = [[]] then Inr answer
       else (case parseFields values of
         Inl e \<Rightarrow> Inl e
       | Inr requested \<Rightarrow>
           (let allowed = getAllowedFields forHandler forClass
            in if allowed \<noteq> [] \<and> list_ex (\<lambda>f. f \<notin> set allowed) requested then Inl BadRequestException
               else Inr (applyFields answer requested))))"

section \<open>What a response contains\<close>

lemma pick_simps:
  "pick (JObj kvs) fs = JObj (concat (map (\<lambda>f. case lookup kvs f of None \<Rightarrow> [] | Some v \<Rightarrow> [(f, v)]) fs))"
  by (simp add: pick_def is_object_def member_value_def)

lemma lookup_pick: "lookup (concat (map (\<lambda>f. case g f of None \<Rightarrow> [] | Some v \<Rightarrow> [(f, v)]) fs)) k = (if k \<in> set fs then g k else None)"
  by (induction fs) (auto simp: map_add_def split: option.split)

text \<open>A selected row has exactly the requested fields it had, with their values.\<close>

lemma pick_exact: "\<exists>kvs'. pick (JObj kvs) fs = JObj kvs' \<and> (\<forall>k. lookup kvs' k = (if k \<in> set fs then lookup kvs k else None)) \<and>
    set (map fst kvs') \<subseteq> set fs"
proof -
  let ?kvs = "concat (map (\<lambda>f. case lookup kvs f of None \<Rightarrow> [] | Some v \<Rightarrow> [(f, v)]) fs)"
  have "set (map fst ?kvs) \<subseteq> set fs" by (auto split: option.splits)
  then show ?thesis using lookup_pick [of "lookup kvs" fs] by (intro exI [of _ ?kvs]) (simp add: pick_simps)
qed

lemma pick_twice: "is_object v \<longrightarrow> (\<exists>kvs. v = JObj kvs) \<Longrightarrow> pick (pick v fs) fs = pick v fs"
proof -
  assume v: "is_object v \<longrightarrow> (\<exists>kvs. v = JObj kvs)"
  show ?thesis
  proof (cases "is_object v")
    case True
    then obtain kvs where "v = JObj kvs" using v by blast
    then show ?thesis by (simp add: pick_simps lookup_pick cong: map_cong)
  qed (simp add: pick_def)
qed

lemma put_data_keys: "map fst (put_data v kvs) = map fst kvs"
  by (auto simp: put_data_def)

lemma lookup_put_data: "lookup (put_data v kvs) k = (if k = ''data'' then map_option (\<lambda>_. v) (lookup kvs k) else lookup kvs k)"
  by (induction kvs) (auto simp: put_data_def)

text \<open>
  The response of a list endpoint keeps every key of the envelope; each row keeps exactly the requested fields
  it has.
\<close>

lemma selected_rows:
  assumes "values \<noteq> [[]]" "parseFields values = Inr fs" "getAllowedFields h c = [] \<or> set fs \<subseteq> set (getAllowedFields h c)"
    and "lookup env ''data'' = Some (JArr rows)"
  shows "\<exists>env'. intercept h c (Some values) (JObj env) = Inr (JObj env') \<and> map fst env' = map fst env \<and>
    (\<forall>k. k \<noteq> ''data'' \<longrightarrow> lookup env' k = lookup env k) \<and>
    lookup env' ''data'' = Some (JArr (map (\<lambda>r. pick r fs) rows))"
proof -
  have "intercept h c (Some values) (JObj env) = Inr (JObj (put_data (JArr (map (\<lambda>r. pick r fs) rows)) env))"
    using assms by (auto simp: intercept_def Let_def list_ex_iff)
  then show ?thesis using assms(4) by (auto simp: put_data_keys lookup_put_data)
qed

lemma unknown_field_refused:
  assumes "values \<noteq> [[]]" "parseFields values = Inr fs" "getAllowedFields h c \<noteq> []" "f \<in> set fs" "f \<notin> set (getAllowedFields h c)"
  shows "intercept h c (Some values) answer = Inl BadRequestException"
  using assms by (auto simp: intercept_def Let_def list_ex_iff)

text \<open>Selecting again the same fields changes nothing.\<close>

lemma selected_again:
  assumes "list_all (\<lambda>r. is_object r \<longrightarrow> (\<exists>kvs. r = JObj kvs)) rows"
  shows "applyFields (applyFields (JArr rows) fs) fs = applyFields (JArr rows) fs"
  using assms by (auto simp: list_all_iff intro: pick_twice)

end
