(* ===== verification/Webhooks.thy ===== *)
theory Webhooks
  imports Json Doubles Prelude
begin

text \<open>
  Outgoing webhooks: the body and its signature (\<^verbatim>\<open>modules/webhooks/webhook-payload.util.ts\<close>,
  \<^verbatim>\<open>webhook-signing.util.ts\<close>), sending (\<^verbatim>\<open>webhooks.service.ts\<close>), the queue worker
  (\<^verbatim>\<open>queues/webhook.processor.ts\<close>) and the subscriptions with their delivery log
  (\<^verbatim>\<open>webhook-subscriptions.service.ts\<close>).

  The keyed hash, the number formatter and the answer of a receiver are parameters.  The queue is modelled by
  its use: a job is processed until an attempt succeeds or the attempts are used up.
\<close>

section \<open>Body and signature\<close>

record webhook_payload =
  wp_event :: string
  wp_engagementId :: string
  wp_status :: string
  wp_timestamp :: string
  wp_extra :: "(string \<times> json) list"

definition payload_json :: "webhook_payload \<Rightarrow> json" where
  "payload_json p = JObj ([(''event'', JStr (wp_event p)), (''engagementId'', JStr (wp_engagementId p)),
     (''status'', JStr (wp_status p)), (''timestamp'', JStr (wp_timestamp p))] @ wp_extra p)"

definition DEFAULT_WEBHOOK_MAX_PAYLOAD_BYTES :: nat where
  "DEFAULT_WEBHOOK_MAX_PAYLOAD_BYTES = 256 * 1024"

text \<open>\<open>parseInt\<close> of a configured value: leading blanks, a sign, then digits.\<close>

definition parse_int :: "string \<Rightarrow> int option" where
  "parse_int s =
     (let t = dropWhile is_space s;
          neg = (t \<noteq> [] \<and> hd t = CHR ''-'');
          u = (if t \<noteq> [] \<and> (hd t = CHR ''-'' \<or> hd t = CHR ''+'') then tl t else t);
          ds = takeWhile is_digit u
      in if ds = [] then None else Some (if neg then - int (dec_val ds) else int (dec_val ds)))"

definition getWebhookMaxPayloadBytes :: "string option \<Rightarrow> nat" where
  "getWebhookMaxPayloadBytes raw =
     (case (if truthy raw then parse_int (the raw) else None) of
        Some n \<Rightarrow> if 0 < n then nat n else DEFAULT_WEBHOOK_MAX_PAYLOAD_BYTES
      | None \<Rightarrow> DEFAULT_WEBHOOK_MAX_PAYLOAD_BYTES)"

definition getAppBaseUrl :: "string option \<Rightarrow> string option \<Rightarrow> string" where
  "getAppBaseUrl app pub = (if truthy app then the app else if truthy pub then the pub else ''https://api.hiresettle.com'')"

definition without_slash :: "string \<Rightarrow> string" where
  "without_slash u = (if u \<noteq> [] \<and> last u = CHR ''/'' then butlast u else u)"

definition buildEngagementRefUrl :: "string \<Rightarrow> string \<Rightarrow> string" where
  "buildEngagementRefUrl baseUrl eid = without_slash baseUrl @ ''/engagements/'' @ eid"

definition reference_json :: "string \<Rightarrow> webhook_payload \<Rightarrow> json" where
  "reference_json baseUrl p = JObj [(''event'', JStr (wp_event p)), (''engagementId'', JStr (wp_engagementId p)),
     (''status'', JStr (wp_status p)), (''timestamp'', JStr (wp_timestamp p)), (''truncated'', JBool True),
     (''ref'', JStr (buildEngagementRefUrl baseUrl (wp_engagementId p)))]"

definition buildWebhookRawBody :: "(rat \<Rightarrow> string) \<Rightarrow> string \<Rightarrow> webhook_payload \<Rightarrow> nat \<Rightarrow> string" where
  "buildWebhookRawBody num baseUrl p maxBytes =
     (let full = stringify num (payload_json p)
      in if byteLength full \<le> maxBytes then full else stringify num (reference_json baseUrl p))"

text \<open>\<open>hmac\<close> is HMAC-SHA256 in hexadecimal, of a secret and a body.\<close>

definition signWebhookBody :: "(string \<Rightarrow> string \<Rightarrow> string) \<Rightarrow> string \<Rightarrow> string \<Rightarrow> string" where
  "signWebhookBody hmac rawBody secret = hmac secret rawBody"

definition verifyProviderSignature :: "(string \<Rightarrow> string \<Rightarrow> string) \<Rightarrow> string \<Rightarrow> string option \<Rightarrow> string \<Rightarrow> bool" where
  "verifyProviderSignature hmac rawBody header secret =
     (if rawBody = [] \<or> \<not> truthy header \<or> secret = [] then False
      else (let expected = hmac secret rawBody
            in if length expected \<noteq> length (the header) then False else expected = the header))"

datatype header_value = One string | Many "string list"

definition SIGNATURE_HEADERS :: "string list" where
  "SIGNATURE_HEADERS = [''x-billing-signature'', ''x-provider-signature'', ''x-signature'', ''x-hiresettle-signature'',
     ''x-hire-settle-signature'', ''x-webhook-signature'']"

fun first_header :: "(string \<Rightarrow> header_value option) \<Rightarrow> string list \<Rightarrow> string option" where
  "first_header headers [] = None"
| "first_header headers (k # ks) = (case headers k of
     Some (One v) \<Rightarrow> Some v
   | Some (Many (v # _)) \<Rightarrow> Some v
   | _ \<Rightarrow> first_header headers ks)"

definition getProviderSignatureHeader :: "(string \<Rightarrow> header_value option) \<Rightarrow> string option" where
  "getProviderSignatureHeader headers = first_header headers SIGNATURE_HEADERS"

definition getSourceIps :: "string option \<Rightarrow> string option \<Rightarrow> string list" where
  "getSourceIps configured fromEnv =
     (let raw = (case configured of Some v \<Rightarrow> v | None \<Rightarrow> (case fromEnv of Some v \<Rightarrow> v | None \<Rightarrow> []))
      in filter (\<lambda>ip. 0 < length ip) (map trim (split_on (CHR '','') raw)))"

section \<open>Sending\<close>

record webhook_job =
  wj_url :: string
  wj_payload :: webhook_payload
  wj_userId :: "ident option"
  wj_secret :: "string option"
  wj_subscriptionId :: "ident option"
  wj_lastResponseCode :: "nat option"
  wj_startTime :: "time option"

record webhook_delivery =
  wd_id :: ident
  wd_userId :: "ident option"
  wd_subscriptionId :: "ident option"
  wd_url :: string
  wd_event :: string
  wd_payload :: webhook_payload
  wd_attempts :: nat
  wd_responseCode :: "nat option"
  wd_status :: string
  wd_resendCount :: nat
  wd_lastResendAt :: "time option"
  wd_createdAt :: time

record webhook_subscription =
  ws_id :: ident
  ws_companyId :: ident
  ws_url :: string
  ws_eventTypes :: "string list"
  ws_createdAt :: time

record webhook_db =
  subscriptions :: "webhook_subscription list"
  deliveries :: "webhook_delivery list"
  webhookQueue :: "webhook_job list"
  posts :: "(string \<times> string \<times> string option) list"
  metricsCalls :: nat

text \<open>
  \<open>answer\<close> is what the receiver does with an attempt: \<open>Inr\<close> a success status, \<open>Inl\<close> a failure with the status
  it answered, if any.
\<close>

record webhook_env =
  keyedHash :: "string \<Rightarrow> string \<Rightarrow> string"
  numberText :: "rat \<Rightarrow> string"
  baseUrl :: string
  maxBytes :: nat
  queueAvailable :: bool
  hasMetrics :: bool
  answer :: "string \<Rightarrow> nat \<Rightarrow> nat option + nat"
  deliveryId :: "nat \<Rightarrow> ident"
  recordFails :: bool

definition sendWebhook :: "webhook_env \<Rightarrow> time \<Rightarrow> string \<Rightarrow> webhook_payload \<Rightarrow> ident option \<Rightarrow> string option \<Rightarrow> ident option \<Rightarrow>
  webhook_db \<Rightarrow> webhook_db" where
  "sendWebhook w t url p userId secret subId s =
     (if url = [] then s
      else if queueAvailable w
      then s\<lparr>webhookQueue := webhookQueue s @ [\<lparr>wj_url = url, wj_payload = p, wj_userId = userId, wj_secret = secret,
              wj_subscriptionId = subId, wj_lastResponseCode = None, wj_startTime = Some t\<rparr>]\<rparr>
      else s)"

text \<open>
  Without a queue the body is built by a function this file does not import: the reference error is caught and
  logged, and nothing is posted.
\<close>

definition post_of :: "webhook_env \<Rightarrow> webhook_job \<Rightarrow> string \<times> string \<times> string option" where
  "post_of w j =
     (let body = buildWebhookRawBody (numberText w) (baseUrl w) (wj_payload j) (maxBytes w)
      in (wj_url j, body, if truthy (wj_secret j) then Some (signWebhookBody (keyedHash w) body (the (wj_secret j))) else None))"

definition recordDelivery :: "webhook_env \<Rightarrow> time \<Rightarrow> webhook_job \<Rightarrow> string \<Rightarrow> nat \<Rightarrow> nat option \<Rightarrow> webhook_db \<Rightarrow> webhook_db" where
  "recordDelivery w t j st n code s =
     (if recordFails w then s
      else s\<lparr>deliveries := deliveries s @ [\<lparr>wd_id = deliveryId w (length (deliveries s)), wd_userId = wj_userId j,
             wd_subscriptionId = wj_subscriptionId j, wd_url = wj_url j, wd_event = wp_event (wj_payload j),
             wd_payload = wj_payload j, wd_attempts = n, wd_responseCode = code, wd_status = st, wd_resendCount = 0,
             wd_lastResendAt = None, wd_createdAt = t\<rparr>]\<rparr>)"

text \<open>
  One attempt; \<open>made\<close> counts the earlier ones.  The job carries the status of the last failure.  With metrics the
  duration is computed from a variable that does not exist, after the post.
\<close>

definition process_job :: "webhook_env \<Rightarrow> time \<Rightarrow> nat \<Rightarrow> webhook_job \<Rightarrow> webhook_db \<Rightarrow> (webhook_db, unit) outcome \<times> webhook_job" where
  "process_job w t made j s =
     (let s1 = s\<lparr>posts := posts s @ [post_of w j]\<rparr>
      in case answer w (wj_url j) made of
           Inl code \<Rightarrow> (throw PlainError s1, if code \<noteq> wj_lastResponseCode j then j\<lparr>wj_lastResponseCode := code\<rparr> else j)
         | Inr code \<Rightarrow>
             if hasMetrics w then (throw PlainError s1, j)
             else (return () (if truthy (wj_subscriptionId j) then recordDelivery w t j ''SUCCEEDED'' (made + 1) (Some code) s1 else s1), j))"

definition onFailed :: "webhook_env \<Rightarrow> time \<Rightarrow> nat \<Rightarrow> nat \<Rightarrow> webhook_job \<Rightarrow> webhook_db \<Rightarrow> webhook_db" where
  "onFailed w t maxAttempts made j s =
     (if made < maxAttempts then s
      else (let s1 = (if hasMetrics w then s\<lparr>metricsCalls := metricsCalls s + 1\<rparr> else s)
            in recordDelivery w t j ''FAILED'' made (wj_lastResponseCode j) s1))"

text \<open>The worker on one job: \<open>left\<close> attempts remain of \<open>maxAttempts\<close>.\<close>

fun run_job :: "webhook_env \<Rightarrow> time \<Rightarrow> nat \<Rightarrow> nat \<Rightarrow> webhook_job \<Rightarrow> webhook_db \<Rightarrow> webhook_db" where
  "run_job w t maxAttempts 0 j s = s"
| "run_job w t maxAttempts (Suc left) j s =
     (case process_job w t (maxAttempts - Suc left) j s of
        ((Inr _, s1), _) \<Rightarrow> s1
      | ((Inl _, s1), j1) \<Rightarrow>
          run_job w t maxAttempts left j1 (onFailed w t maxAttempts (maxAttempts - left) j1 s1))"

section \<open>Subscriptions\<close>

definition create_subscription :: "time \<Rightarrow> ident \<Rightarrow> ident \<Rightarrow> string \<Rightarrow> string list option \<Rightarrow> webhook_db \<Rightarrow> webhook_db" where
  "create_subscription t i c url types s = s\<lparr>subscriptions := subscriptions s @
     [\<lparr>ws_id = i, ws_companyId = c, ws_url = url, ws_eventTypes = (case types of None \<Rightarrow> [] | Some ts \<Rightarrow> ts), ws_createdAt = t\<rparr>]\<rparr>"

definition findAll_subscriptions :: "ident \<Rightarrow> webhook_db \<Rightarrow> webhook_subscription list" where
  "findAll_subscriptions c s = rev (sort_key ws_createdAt (filter (\<lambda>x. ws_companyId x = c) (subscriptions s)))"

definition own_subscription :: "ident \<Rightarrow> ident \<Rightarrow> webhook_db \<Rightarrow> exn + webhook_subscription" where
  "own_subscription i c s = (case List.find (\<lambda>x. ws_id x = i) (subscriptions s) of
     None \<Rightarrow> Inl NotFoundException
   | Some x \<Rightarrow> if ws_companyId x \<noteq> c then Inl ForbiddenException else Inr x)"

definition remove_subscription :: "ident \<Rightarrow> ident \<Rightarrow> webhook_db \<Rightarrow> (webhook_db, unit) outcome" where
  "remove_subscription i c s = (case own_subscription i c s of
     Inl e \<Rightarrow> throw e s
   | Inr _ \<Rightarrow> return () (s\<lparr>subscriptions := delete_where (\<lambda>x. ws_id x = i) (subscriptions s)\<rparr>))"

definition listDeliveries :: "ident \<Rightarrow> ident \<Rightarrow> string option \<Rightarrow> string option \<Rightarrow> nat option \<Rightarrow> nat option \<Rightarrow> webhook_db \<Rightarrow>
  exn + webhook_delivery list \<times> nat" where
  "listDeliveries i c st ev page limit s = (case own_subscription i c s of
     Inl e \<Rightarrow> Inl e
   | Inr _ \<Rightarrow>
       (let p = (case page of None \<Rightarrow> 1 | Some n \<Rightarrow> n); l = (case limit of None \<Rightarrow> 20 | Some n \<Rightarrow> n);
            rows = rev (sort_key wd_createdAt (filter (\<lambda>d. wd_subscriptionId d = Some i \<and>
              (\<not> truthy st \<or> Some (wd_status d) = st) \<and> (\<not> truthy ev \<or> Some (wd_event d) = ev)) (deliveries s)))
        in Inr (take l (drop ((p - 1) * l) rows), length rows)))"

definition shouldDeliver :: "string list \<Rightarrow> string \<Rightarrow> bool" where
  "shouldDeliver types ev \<longleftrightarrow> types = [] \<or> ev \<in> set types"

definition replay_one :: "webhook_env \<Rightarrow> time \<Rightarrow> webhook_subscription \<Rightarrow> string option \<Rightarrow> webhook_delivery \<Rightarrow> webhook_db \<Rightarrow> webhook_db" where
  "replay_one w t x secret d s =
     (let s1 = sendWebhook w t (ws_url x) (wd_payload d) (Some (ws_companyId x)) secret (Some (ws_id x)) s
      in s1\<lparr>deliveries := update_where (\<lambda>e. wd_id e = wd_id d)
            (\<lambda>e. e\<lparr>wd_status := ''RESENT'', wd_resendCount := wd_resendCount e + 1, wd_lastResendAt := Some t\<rparr>) (deliveries s1)\<rparr>)"

definition replay_rows :: "ident \<Rightarrow> time \<Rightarrow> time \<Rightarrow> webhook_db \<Rightarrow> webhook_delivery list" where
  "replay_rows c from to s = sort_key wd_createdAt
     (filter (\<lambda>d. wd_userId d = Some c \<and> from \<le> wd_createdAt d \<and> wd_createdAt d \<le> to) (deliveries s))"

definition replay :: "webhook_env \<Rightarrow> time \<Rightarrow> ident \<Rightarrow> ident \<Rightarrow> time \<Rightarrow> time \<Rightarrow> string option \<Rightarrow> webhook_db \<Rightarrow> (webhook_db, nat) outcome" where
  "replay w t i c from to secret s =
     (if to < from then throw BadRequestException s
      else (case own_subscription i c s of
        Inl e \<Rightarrow> throw e s
      | Inr x \<Rightarrow>
          (let ds = filter (\<lambda>d. shouldDeliver (ws_eventTypes x) (wd_event d)) (replay_rows c from to s)
           in return (length ds) (fold (replay_one w t x secret) ds s))))"

section \<open>Signatures\<close>

lemma body_not_empty: "buildWebhookRawBody num u p n \<noteq> []"
  by (simp add: buildWebhookRawBody_def payload_json_def reference_json_def Let_def)

text \<open>
  What a receiver gets verifies: the signature header a signed webhook is posted with is the one the
  service's own verification accepts for the posted body and the shared secret.
\<close>

lemma posted_webhook_verifies:
  assumes "wj_secret j = Some secret" "secret \<noteq> []" "keyedHash w secret (fst (snd (post_of w j))) \<noteq> []"
  shows "verifyProviderSignature (keyedHash w) (fst (snd (post_of w j))) (snd (snd (post_of w j))) secret"
  using assms body_not_empty by (simp add: post_of_def verifyProviderSignature_def signWebhookBody_def Let_def)

text \<open>A body over the limit is replaced by the reference, which the extra fields do not enlarge.\<close>

lemma body_bounded:
  "byteLength (buildWebhookRawBody num u p n) \<le> max n (byteLength (stringify num (reference_json u p)))"
  by (simp add: buildWebhookRawBody_def Let_def le_max_iff_disj)

section \<open>Attempts and the delivery log\<close>

lemma post_of_code [simp]: "post_of w (j\<lparr>wj_lastResponseCode := c\<rparr>) = post_of w j"
  by (simp add: post_of_def Let_def)


lemma recordDelivery_posts [simp]:
  "posts (recordDelivery w t j st n code s) = posts s"
  by (simp add: recordDelivery_def)

lemma recordDelivery_code [simp]: "recordDelivery w t (j\<lparr>wj_lastResponseCode := c\<rparr>) = recordDelivery w t j"
  by (simp add: recordDelivery_def fun_eq_iff)




text \<open>
  With metrics every attempt throws after the post: a webhook that is accepted at once is posted as often as
  the queue allows and logged as failed.
\<close>

lemma metrics_fail_every_delivery:
  assumes "hasMetrics w" "\<not> recordFails w" "0 < n"
  shows "length (posts (run_job w t n n j s)) = length (posts s) + n \<and>
    wd_status (last (deliveries (run_job w t n n j s))) = ''FAILED''"
proof -
  have "length (posts (run_job w t n (n - i) j s)) = length (posts s) + (n - i) \<and>
      (i < n \<longrightarrow> wd_status (last (deliveries (run_job w t n (n - i) j s))) = ''FAILED'')" if "i \<le> n" for i j s
    using that
  proof (induction "n - i" arbitrary: i j s)
    case (Suc m)
    have i: "n - i = Suc (n - Suc i)" "n - (n - Suc i) = Suc i" using Suc.hyps(2) by simp_all
    define j1 where "j1 = snd (process_job w t i j s)"
    have "fst (process_job w t i j s) = (Inl PlainError, s\<lparr>posts := posts s @ [post_of w j]\<rparr>)"
      using assms(1) by (simp add: process_job_def Let_def throw_def split: sum.split)
    then have "process_job w t i j s = ((Inl PlainError, s\<lparr>posts := posts s @ [post_of w j]\<rparr>), j1)"
      by (simp add: j1_def prod_eq_iff)
    then have j1: "run_job w t n (n - i) j s =
        run_job w t n (n - Suc i) j1 (onFailed w t n (Suc i) j1 (s\<lparr>posts := posts s @ [post_of w j]\<rparr>))"
      unfolding i(1) using i Suc.hyps(2) by simp
    have m: "m = n - Suc i" "Suc i \<le> n" using Suc.hyps(2) by simp_all
    have p: "posts (onFailed w t n (Suc i) j1 s') = posts s'" for s' by (simp add: onFailed_def Let_def)
    show ?case
    proof (cases "Suc i < n")
      case True
      then show ?thesis unfolding j1 using Suc.hyps(1) [OF m, of j1] p i(1) by simp
    next
      case False
      then have "n = Suc i" using m(2) by simp
      then show ?thesis unfolding j1 using assms(2) p by (simp add: onFailed_def recordDelivery_def Let_def)
    qed
  qed simp
  from this [of 0 j s] show ?thesis using assms(3) by simp
qed

section \<open>Replay\<close>

text \<open>A replay needs the company's own subscription, and resends what it counts.\<close>

lemma replay_needs_ownership:
  assumes "fst (replay w t i c from to secret s) = Inr n"
  shows "\<exists>x. List.find (\<lambda>x. ws_id x = i) (subscriptions s) = Some x \<and> ws_companyId x = c"
  using assms by (auto simp: replay_def own_subscription_def throw_def split: if_splits option.splits)

lemma replay_queues:
  assumes "queueAvailable w" "ws_url x \<noteq> []"
  shows "length (webhookQueue (fold (replay_one w t x secret) ds s)) = length (webhookQueue s) + length ds"
proof (induction ds arbitrary: s)
  case (Cons d ds)
  then show ?case using assms by (simp add: replay_one_def sendWebhook_def Let_def)
qed simp

section \<open>A concrete receiver\<close>

definition payload1 :: webhook_payload where
  "payload1 = \<lparr>wp_event = ''COMPLETED'', wp_engagementId = ''e1'', wp_status = ''COMPLETED'', wp_timestamp = ''t'', wp_extra = []\<rparr>"

definition webhook_env1 :: webhook_env where
  "webhook_env1 = \<lparr>keyedHash = (\<lambda>k b. k @ show_nat (length b)), numberText = (\<lambda>_. ''0''), baseUrl = ''https://x'', maxBytes = 1000,
     queueAvailable = True, hasMetrics = False, answer = (\<lambda>_ i. if i < 2 then Inl (Some 500) else Inr 200),
     deliveryId = (\<lambda>n. replicate n (CHR ''d'')), recordFails = False\<rparr>"

definition job1 :: webhook_job where
  "job1 = \<lparr>wj_url = ''https://y'', wj_payload = payload1, wj_userId = None, wj_secret = Some ''k'', wj_subscriptionId = Some ''s1'',
     wj_lastResponseCode = None, wj_startTime = Some 0\<rparr>"


lemma posted_webhook_verifies_witness:
  "verifyProviderSignature (keyedHash webhook_env1) (fst (snd (post_of webhook_env1 job1))) (snd (snd (post_of webhook_env1 job1))) ''k''"
  by (rule posted_webhook_verifies) (simp_all add: job1_def webhook_env1_def)


end
