(* ===== verification/IncomingPayments.thy ===== *)
theory IncomingPayments
  imports Store
begin

text \<open>
  Payments that reach the escrow contract: the poller \<^verbatim>\<open>modules/admin/incoming-payment-poller.service.ts\<close>
  and the administrator's resolution \<^verbatim>\<open>modules/admin/unmatched-payments.service.ts\<close>.
\<close>

section \<open>State\<close>

record horizon_payment =
  hp_type :: string
  hp_txHash :: string
  hp_transaction :: "(string option \<times> string option) option"
  hp_from :: string
  hp_to :: "string option"
  hp_assetType :: string
  hp_assetCode :: "string option"
  hp_assetIssuer :: "string option"
  hp_amount :: string
  hp_ledger :: "int option"
  hp_pagingToken :: string

datatype unmatched_status = UP_PENDING | UP_MATCHED | UP_REFUNDED | UP_IGNORED

record unmatched_payment =
  up_id :: ident
  up_txHash :: string
  up_sender :: string
  up_assetCode :: string
  up_assetIssuer :: "string option"
  up_amount :: string
  up_memo :: "string option"
  up_memoType :: "string option"
  up_ledger :: int
  up_status :: unmatched_status
  up_matchedEngagementId :: "ident option"
  up_resolvedBy :: "ident option"
  up_resolvedAt :: "time option"
  up_notes :: "string option"
  up_createdAt :: time

record payment_db =
  pdb_engagements :: "engagement list"
  pdb_users :: "user list"
  cursorRow :: "string option"
  unmatched :: "unmatched_payment list"
  pendingGauge :: nat
  lastAlertedCount :: nat
  paymentAlerts :: "(ident \<times> nat) list"

text \<open>
  \<open>payments\<close> is the answer of Horizon after a cursor, \<open>None\<close> when the request fails or is refused;
  \<open>insertFails\<close> tells for which transaction the insert fails.
\<close>

record payment_env =
  contractAddress :: "string option"
  payments :: "string \<Rightarrow> horizon_payment list option"
  insertFails :: "string \<Rightarrow> bool"
  alertThreshold :: nat
  paymentId :: "nat \<Rightarrow> ident"

section \<open>The poller\<close>

definition matched_status :: "engagement_status \<Rightarrow> bool" where
  "matched_status x \<longleftrightarrow> x \<in> {ACTIVE, PENDING_ACCEPTANCE, REPLACEMENT_REQUESTED}"

definition matchMemoToEngagement :: "string option \<Rightarrow> payment_db \<Rightarrow> ident option" where
  "matchMemoToEngagement memo s =
     (if \<not> truthy memo then None
      else (case List.find (\<lambda>e. e_id e = the memo) (pdb_engagements s) of
              None \<Rightarrow> None
            | Some e \<Rightarrow> if matched_status (e_status e) then Some (e_id e) else None))"

definition hp_memo :: "horizon_payment \<Rightarrow> string option" where
  "hp_memo p = (case hp_transaction p of None \<Rightarrow> None | Some x \<Rightarrow> fst x)"

definition hp_memoType :: "horizon_payment \<Rightarrow> string option" where
  "hp_memoType p = (case hp_transaction p of None \<Rightarrow> None | Some x \<Rightarrow> snd x)"

definition asset_name :: "horizon_payment \<Rightarrow> string" where
  "asset_name p = (if hp_assetType p = ''native'' then ''XLM''
     else (case hp_assetCode p of None \<Rightarrow> ''UNKNOWN'' | Some c \<Rightarrow> c))"

definition new_unmatched :: "payment_env \<Rightarrow> time \<Rightarrow> horizon_payment \<Rightarrow> payment_db \<Rightarrow> unmatched_payment" where
  "new_unmatched w t p s =
     \<lparr>up_id = paymentId w (length (unmatched s)), up_txHash = hp_txHash p, up_sender = hp_from p, up_assetCode = asset_name p,
      up_assetIssuer = hp_assetIssuer p, up_amount = hp_amount p, up_memo = hp_memo p, up_memoType = hp_memoType p,
      up_ledger = (case hp_ledger p of None \<Rightarrow> 0 | Some l \<Rightarrow> l), up_status = UP_PENDING, up_matchedEngagementId = None,
      up_resolvedBy = None, up_resolvedAt = None, up_notes = None, up_createdAt = t\<rparr>"

definition relevant :: "string \<Rightarrow> horizon_payment \<Rightarrow> bool" where
  "relevant c p \<longleftrightarrow> hp_to p = Some c \<and> hp_type p \<in> {''payment'', ''create_account''}"

definition recorded :: "string \<Rightarrow> payment_db \<Rightarrow> bool" where
  "recorded h s \<longleftrightarrow> List.find (\<lambda>u. up_txHash u = h) (unmatched s) \<noteq> None"

text \<open>The loop over the page; the result is the number of rows stored.\<close>

fun payment_loop :: "payment_env \<Rightarrow> time \<Rightarrow> string \<Rightarrow> horizon_payment list \<Rightarrow> nat \<Rightarrow> payment_db \<Rightarrow> (payment_db, nat) outcome" where
  "payment_loop w t c [] n s = return n s"
| "payment_loop w t c (p # ps) n s =
     (if \<not> relevant c p then payment_loop w t c ps n s
      else if matchMemoToEngagement (hp_memo p) s \<noteq> None then payment_loop w t c ps n s
      else if recorded (hp_txHash p) s then payment_loop w t c ps n s
      else if insertFails w (hp_txHash p) then throw PlainError s
      else payment_loop w t c ps (n + 1) (s\<lparr>unmatched := unmatched s @ [new_unmatched w t p s]\<rparr>))"

definition loadCursor :: "payment_db \<Rightarrow> string" where
  "loadCursor s = (case cursorRow s of None \<Rightarrow> [] | Some v \<Rightarrow> v)"

definition saveCursor :: "string \<Rightarrow> payment_db \<Rightarrow> payment_db" where
  "saveCursor v s = (if v = [] then s else s\<lparr>cursorRow := Some v\<rparr>)"

definition pending_count :: "payment_db \<Rightarrow> nat" where
  "pending_count s = count_where (\<lambda>u. up_status u = UP_PENDING) (unmatched s)"

definition syncPendingGauge :: "payment_db \<Rightarrow> payment_db" where
  "syncPendingGauge s = s\<lparr>pendingGauge := pending_count s\<rparr>"

definition notifyAdmins :: "nat \<Rightarrow> payment_db \<Rightarrow> payment_db" where
  "notifyAdmins n s = s\<lparr>paymentAlerts := paymentAlerts s @
     map (\<lambda>a. (u_id a, n)) (filter (\<lambda>a. u_role a = ADMIN \<and> u_deactivatedAt a = None) (pdb_users s))\<rparr>"

definition maybeAlertAdmins :: "payment_env \<Rightarrow> payment_db \<Rightarrow> payment_db" where
  "maybeAlertAdmins w s =
     (let n = pending_count s
      in if alertThreshold w \<le> n \<and> lastAlertedCount s < alertThreshold w then notifyAdmins n (s\<lparr>lastAlertedCount := n\<rparr>)
         else if n < alertThreshold w then s\<lparr>lastAlertedCount := 0\<rparr>
         else s)"

definition fetchPayments :: "payment_env \<Rightarrow> string \<Rightarrow> horizon_payment list" where
  "fetchPayments w cur = (case payments w cur of None \<Rightarrow> [] | Some ps \<Rightarrow> ps)"

definition poll :: "payment_env \<Rightarrow> time \<Rightarrow> payment_db \<Rightarrow> (payment_db, nat \<times> nat) outcome" where
  "poll w t s = (case contractAddress w of
     None \<Rightarrow> return (0, 0) s
   | Some c \<Rightarrow>
       (let ps = fetchPayments w (loadCursor s)
        in if ps = [] then return (0, 0) s
           else and_then (payment_loop w t c ps 0 s) (\<lambda>n s1.
             return (length ps, n)
               (maybeAlertAdmins w (syncPendingGauge (saveCursor (hp_pagingToken (last ps)) s1))))))"

section \<open>Resolution\<close>

definition find_unmatched :: "ident \<Rightarrow> payment_db \<Rightarrow> unmatched_payment option" where
  "find_unmatched i s = List.find (\<lambda>u. up_id u = i) (unmatched s)"

definition resolve_row :: "time \<Rightarrow> ident \<Rightarrow> ident \<Rightarrow> string option \<Rightarrow> unmatched_status \<Rightarrow> ident option \<Rightarrow> payment_db \<Rightarrow> payment_db" where
  "resolve_row t i adminId notes st eng s = syncPendingGauge (s\<lparr>unmatched := update_where (\<lambda>u. up_id u = i)
     (\<lambda>u. u\<lparr>up_status := st, up_resolvedBy := Some adminId, up_resolvedAt := Some t, up_notes := notes,
            up_matchedEngagementId := (if eng = None then up_matchedEngagementId u else eng)\<rparr>) (unmatched s)\<rparr>)"

definition match_payment :: "time \<Rightarrow> ident \<Rightarrow> ident \<Rightarrow> ident \<Rightarrow> string option \<Rightarrow> payment_db \<Rightarrow> (payment_db, unit) outcome" where
  "match_payment t i adminId eng notes s = (case find_unmatched i s of
     None \<Rightarrow> throw NotFoundException s
   | Some u \<Rightarrow>
       if up_status u \<noteq> UP_PENDING then throw ConflictException s
       else if \<not> list_ex (\<lambda>e. e_id e = eng) (pdb_engagements s) then throw BadRequestException s
       else return () (resolve_row t i adminId notes UP_MATCHED (Some eng) s))"

definition refund_payment :: "time \<Rightarrow> ident \<Rightarrow> ident \<Rightarrow> string option \<Rightarrow> payment_db \<Rightarrow> (payment_db, unit) outcome" where
  "refund_payment t i adminId notes s = (case find_unmatched i s of
     None \<Rightarrow> throw NotFoundException s
   | Some u \<Rightarrow>
       if up_status u \<noteq> UP_PENDING then throw ConflictException s
       else return () (resolve_row t i adminId notes UP_REFUNDED None s))"

definition ignore_payment :: "time \<Rightarrow> ident \<Rightarrow> ident \<Rightarrow> string option \<Rightarrow> payment_db \<Rightarrow> (payment_db, unit) outcome" where
  "ignore_payment t i adminId notes s = (case find_unmatched i s of
     None \<Rightarrow> throw NotFoundException s
   | Some u \<Rightarrow>
       if up_status u \<noteq> UP_PENDING then throw ConflictException s
       else return () (resolve_row t i adminId notes UP_IGNORED None s))"

definition list_unmatched :: "unmatched_status option \<Rightarrow> nat \<Rightarrow> nat \<Rightarrow> payment_db \<Rightarrow> unmatched_payment list \<times> nat" where
  "list_unmatched st page limit s =
     (let rows = rev (sort_key up_createdAt (filter (\<lambda>u. st = None \<or> st = Some (up_status u)) (unmatched s)))
      in (take limit (drop ((page - 1) * limit) rows), length rows))"

section \<open>What a poll does\<close>

lemma payment_loop_error: "fst (payment_loop w t c ps n s) = Inl e \<Longrightarrow> e = PlainError"
  by (induction ps arbitrary: n s) (auto simp: throw_def return_def split: if_splits)

lemma payment_loop_frame:
  "\<exists>rows. snd (payment_loop w t c ps n s) = s\<lparr>unmatched := unmatched s @ rows\<rparr> \<and>
     list_all (\<lambda>u. up_status u = UP_PENDING) rows"
proof (induction ps arbitrary: n s)
  case (Cons p ps)
  show ?case
  proof (cases "relevant c p \<and> matchMemoToEngagement (hp_memo p) s = None \<and> \<not> recorded (hp_txHash p) s \<and> \<not> insertFails w (hp_txHash p)")
    case True
    let ?s1 = "s\<lparr>unmatched := unmatched s @ [new_unmatched w t p s]\<rparr>"
    obtain rows where "snd (payment_loop w t c ps (n + 1) ?s1) = ?s1\<lparr>unmatched := unmatched ?s1 @ rows\<rparr>"
      "list_all (\<lambda>u. up_status u = UP_PENDING) rows" using Cons.IH by blast
    then show ?thesis using True
      by (intro exI [of _ "new_unmatched w t p s # rows"]) (simp add: new_unmatched_def)
  next
    case False
    then show ?thesis using Cons.IH [of n s] by (auto simp: throw_def intro: exI [of _ "[]"])
  qed
qed (auto simp: return_def intro: exI [of _ "[]"])

lemma recorded_iff: "recorded h s \<longleftrightarrow> (\<exists>u \<in> set (unmatched s). up_txHash u = h)"
  unfolding recorded_def find_None by blast

lemma recorded_append: "recorded h (s\<lparr>unmatched := unmatched s @ rows\<rparr>) \<longleftrightarrow> recorded h s \<or> (\<exists>u \<in> set rows. up_txHash u = h)"
  by (auto simp: recorded_iff)

lemma match_frame [simp]: "matchMemoToEngagement memo (s\<lparr>unmatched := us\<rparr>) = matchMemoToEngagement memo s"
  by (simp add: matchMemoToEngagement_def)

lemma payment_loop_accounts:
  assumes "fst (payment_loop w t c ps n s) = Inr k" "p \<in> set ps" "relevant c p" "matchMemoToEngagement (hp_memo p) s = None"
  shows "recorded (hp_txHash p) (snd (payment_loop w t c ps n s))"
  using assms
proof (induction ps arbitrary: n s)
  case (Cons q ps)
  have keep: "recorded h s' \<Longrightarrow> recorded h (snd (payment_loop w t c ps m s'))" for h m s'
    using payment_loop_frame [of w t c ps m s'] recorded_append by metis
  show ?case
  proof (cases "relevant c q \<and> matchMemoToEngagement (hp_memo q) s = None \<and> \<not> recorded (hp_txHash q) s")
    case True
    then have ok: "\<not> insertFails w (hp_txHash q)" using Cons.prems(1) by (auto simp: throw_def split: if_splits)
    let ?s1 = "s\<lparr>unmatched := unmatched s @ [new_unmatched w t q s]\<rparr>"
    have "recorded (hp_txHash q) ?s1" unfolding recorded_append by (simp add: new_unmatched_def)
    then show ?thesis using True ok Cons keep by auto
  next
    case False
    then show ?thesis using Cons keep by auto
  qed
qed simp

lemma payment_loop_distinct:
  "distinct (map up_txHash (unmatched s)) \<Longrightarrow> distinct (map up_txHash (unmatched (snd (payment_loop w t c ps n s))))"
proof (induction ps arbitrary: n s)
  case (Cons p ps)
  have "distinct (map up_txHash (unmatched (s\<lparr>unmatched := unmatched s @ [new_unmatched w t p s]\<rparr>)))" if "\<not> recorded (hp_txHash p) s"
    using that Cons.prems by (auto simp: recorded_iff new_unmatched_def)
  then show ?case using Cons by (simp add: throw_def)
qed (simp add: return_def)

lemma after_poll [simp]:
  "unmatched (maybeAlertAdmins w s) = unmatched s" "cursorRow (maybeAlertAdmins w s) = cursorRow s"
  "recorded h (maybeAlertAdmins w s) = recorded h s"
  "unmatched (syncPendingGauge s) = unmatched s" "cursorRow (syncPendingGauge s) = cursorRow s"
  "unmatched (saveCursor v s) = unmatched s"
  by (simp_all add: maybeAlertAdmins_def notifyAdmins_def syncPendingGauge_def saveCursor_def recorded_def Let_def)

text \<open>The gauge shows the pending payments after every poll that had something to do.\<close>

lemma gauge_is_pending: "pendingGauge (maybeAlertAdmins w (syncPendingGauge s)) = pending_count s"
  by (simp add: maybeAlertAdmins_def notifyAdmins_def syncPendingGauge_def Let_def)

text \<open>
  C29. A poll that answers has accounted for every payment of the page: a payment to the contract belongs to an
  engagement in progress or is on record for the administrators.  Rows on record before are kept as they are,
  new rows are pending, no transaction is recorded twice, and the cursor stands at the last payment.  A poll
  that fails leaves the cursor, so that the page is read again.
\<close>

theorem polled_payments_are_accounted_for:
  assumes "contractAddress w = Some c" "fetchPayments w (loadCursor s) = ps" "ps \<noteq> []" "hp_pagingToken (last ps) \<noteq> []"
    and "distinct (map up_txHash (unmatched s))"
  shows "(case poll w t s of
     (Inr _, s') \<Rightarrow>
       list_all (\<lambda>p. relevant c p \<longrightarrow> matchMemoToEngagement (hp_memo p) s \<noteq> None \<or> recorded (hp_txHash p) s') ps \<and>
       (\<exists>rows. unmatched s' = unmatched s @ rows \<and> list_all (\<lambda>u. up_status u = UP_PENDING) rows) \<and>
       distinct (map up_txHash (unmatched s')) \<and> cursorRow s' = Some (hp_pagingToken (last ps))
   | (Inl _, s') \<Rightarrow> cursorRow s' = cursorRow s)"
proof -
  define s1 where "s1 = snd (payment_loop w t c ps 0 s)"
  obtain rows where rows: "s1 = s\<lparr>unmatched := unmatched s @ rows\<rparr>" "list_all (\<lambda>u. up_status u = UP_PENDING) rows"
    using payment_loop_frame [of w t c ps 0 s] unfolding s1_def by blast
  show ?thesis
  proof (cases "fst (payment_loop w t c ps 0 s)")
    case (Inl e)
    then have "payment_loop w t c ps 0 s = (Inl e, s1)" by (simp add: s1_def prod_eq_iff)
    then have "poll w t s = (Inl e, s1)"
      using assms(1-3) by (simp add: poll_def Let_def and_then_def)
    then show ?thesis using rows(1) by simp
  next
    case (Inr n)
    then have "payment_loop w t c ps 0 s = (Inr n, s1)" by (simp add: s1_def prod_eq_iff)
    then have p: "poll w t s = (Inr (length ps, n),
        maybeAlertAdmins w (syncPendingGauge (saveCursor (hp_pagingToken (last ps)) s1)))"
      using assms(1-3) by (simp add: poll_def Let_def and_then_def return_def)
    have "recorded (hp_txHash q) s1"
      if "q \<in> set ps" "relevant c q" "matchMemoToEngagement (hp_memo q) s = None" for q
      using payment_loop_accounts [OF Inr that] by (simp add: s1_def)
    then have "list_all (\<lambda>q. relevant c q \<longrightarrow> matchMemoToEngagement (hp_memo q) s \<noteq> None \<or> recorded (hp_txHash q) s1) ps"
      by (auto simp: list_all_iff)
    moreover have "distinct (map up_txHash (unmatched s1))"
      unfolding s1_def by (rule payment_loop_distinct [OF assms(5)])
    ultimately show ?thesis
      using rows assms(4) unfolding p by (simp add: saveCursor_def syncPendingGauge_def recorded_def)
  qed
qed

section \<open>Resolution is final\<close>

text \<open>A resolved payment is refused by every resolution, and nothing changes.\<close>

lemma resolved_is_final:
  assumes "find_unmatched i s = Some u" "up_status u \<noteq> UP_PENDING"
  shows "match_payment t i a e n s = (Inl ConflictException, s)" "refund_payment t i a n s = (Inl ConflictException, s)"
    "ignore_payment t i a n s = (Inl ConflictException, s)"
  using assms by (simp_all add: match_payment_def refund_payment_def ignore_payment_def throw_def)

lemma resolution_sets_status:
  assumes "find_unmatched i s = Some u"
  shows "find_unmatched i (resolve_row t i a n st e s) = Some (u\<lparr>up_status := st, up_resolvedBy := Some a, up_resolvedAt := Some t,
     up_notes := n, up_matchedEngagementId := (if e = None then up_matchedEngagementId u else e)\<rparr>)"
  using assms find_SomeD [OF assms [unfolded find_unmatched_def]]
  by (auto simp: find_unmatched_def resolve_row_def syncPendingGauge_def find_update_where)

section \<open>A page\<close>

definition payment1 :: "string \<Rightarrow> string option \<Rightarrow> horizon_payment" where
  "payment1 h memo = \<lparr>hp_type = ''payment'', hp_txHash = h, hp_transaction = Some (memo, Some ''text''), hp_from = ''G1'', hp_to = Some ''C'',
     hp_assetType = ''native'', hp_assetCode = None, hp_assetIssuer = None, hp_amount = ''1'', hp_ledger = None,
     hp_pagingToken = h\<rparr>"

definition payment_env1 :: payment_env where
  "payment_env1 = \<lparr>contractAddress = Some ''C'', payments = (\<lambda>_. Some [payment1 ''h1'' None, payment1 ''h2'' (Some ''e''), payment1 ''h1'' None]),
     insertFails = (\<lambda>_. False), alertThreshold = 5, paymentId = (\<lambda>n. replicate n (CHR ''p''))\<rparr>"

definition payment_db1 :: payment_db where
  "payment_db1 = \<lparr>pdb_engagements = [], pdb_users = [], cursorRow = None, unmatched = [], pendingGauge = 0, lastAlertedCount = 0,
     paymentAlerts = []\<rparr>"

theorem polled_payments_are_accounted_for_witness:
  "(\<exists>rows. unmatched (snd (poll payment_env1 0 payment_db1)) = [] @ rows \<and> list_all (\<lambda>u. up_status u = UP_PENDING) rows) \<and>
   map up_txHash (unmatched (snd (poll payment_env1 0 payment_db1))) = [''h1'', ''h2''] \<and>
   cursorRow (snd (poll payment_env1 0 payment_db1)) = Some ''h1''"
proof -
  have "contractAddress payment_env1 = Some ''C''" "fetchPayments payment_env1 (loadCursor payment_db1) =
      [payment1 ''h1'' None, payment1 ''h2'' (Some ''e''), payment1 ''h1'' None]" "unmatched payment_db1 = []"
    by (simp_all add: payment_env1_def payment_db1_def fetchPayments_def)
  note c = polled_payments_are_accounted_for [OF this(1,2), of 0] this(3)
  have "fst (poll payment_env1 0 payment_db1) = Inr (3, 2) \<and>
      map up_txHash (unmatched (snd (poll payment_env1 0 payment_db1))) = [''h1'', ''h2'']" by code_simp
  then show ?thesis using c by (cases "poll payment_env1 0 payment_db1") (auto simp: payment1_def)
qed

end
