(* ===== verification/OpenApiDiff.thy ===== *)
theory OpenApiDiff
  imports JsText "HOL-Library.List_Lexorder" "HOL-Library.Char_ord"
begin

text \<open>
  \<^verbatim>\<open>scripts/diff-openapi.ts\<close>: the comparison of two OpenAPI documents, the change log entry it renders
  and its insertion into the change log.

  A JavaScript object is the list of its entries in enumeration order.  A string is its UTF-8 text, so that
  the symbols of the rendered entry are byte sequences.  \<open>localeCompare\<close>, whose collation is that of the
  host, is a parameter.
\<close>

section \<open>Documents\<close>

datatype schema = Schema
  (s_type: "string option")
  (s_ref: "string option")
  (s_properties: "(string \<times> schema) list")
  (s_items: "schema option")
  (s_allOf: "schema list")
  (s_oneOf: "schema list")
  (s_anyOf: "schema list")

type_synonym content = "(string \<times> schema option) list"

record parameter =
  pm_name :: string
  pm_in :: string

record operation =
  op_summary :: "string option"
  op_tags :: "string list"
  op_requestBody :: "content option"
  op_responses :: "(string \<times> content option) list"
  op_parameters :: "parameter list"

record open_api =
  oa_paths :: "(string \<times> (string \<times> operation) list) list"
  oa_schemas :: "(string \<times> schema) list"

definition HTTP_METHODS :: "string list" where
  "HTTP_METHODS = [''get'', ''post'', ''put'', ''patch'', ''delete'', ''options'', ''head'', ''trace'']"

definition parse_flag :: "string list \<Rightarrow> string \<Rightarrow> string \<Rightarrow> string" where
  "parse_flag args flag dflt =
     (case dropWhile (\<lambda>a. a \<noteq> flag) args of
        _ # v # _ \<Rightarrow> if v = [] then dflt else v
      | _ \<Rightarrow> dflt)"

definition parseArgs :: "string list \<Rightarrow> string \<times> string \<times> string" where
  "parseArgs args = (parse_flag args ''--base'' ''docs/openapi.json'', parse_flag args ''--head'' ''docs/openapi.head.json'',
     parse_flag args ''--out'' ''API_CHANGELOG.md'')"

section \<open>Property paths\<close>

definition REF_PREFIX :: string where "REF_PREFIX = ''#/components/schemas/''"

definition resolveRef :: "string \<Rightarrow> open_api \<Rightarrow> schema option" where
  "resolveRef r spec = (if starts_with REF_PREFIX r then map_of (oa_schemas spec) (drop (length REF_PREFIX) r) else None)"

definition dotted :: "string \<Rightarrow> string \<Rightarrow> string" where
  "dotted pre key = (if pre = [] then key else pre @ ''.'' @ key)"

text \<open>
  The dotted paths of the properties of a schema, in the order they are found and with repetitions.  A
  reference is followed once on a path, and nothing below depth eight is seen.
\<close>

function flattenProperties :: "open_api \<Rightarrow> string \<Rightarrow> string list \<Rightarrow> nat \<Rightarrow> schema \<Rightarrow> string list" where
  "flattenProperties spec pre seen depth s =
     (if 8 < depth then []
      else if truthy (s_ref s)
      then (if the (s_ref s) \<in> set seen then []
            else (case resolveRef (the (s_ref s)) spec of
                    None \<Rightarrow> []
                  | Some r \<Rightarrow> flattenProperties spec pre (the (s_ref s) # seen) (depth + 1) r))
      else concat (map (\<lambda>u. flattenProperties spec pre seen (depth + 1) u) (s_allOf s @ s_oneOf s @ s_anyOf s)) @
        (case (if s_type s = Some ''array'' then s_items s else None) of
           Some i \<Rightarrow> flattenProperties spec pre seen (depth + 1) i
         | None \<Rightarrow> concat (map (\<lambda>(key, u). dotted pre key # flattenProperties spec (dotted pre key) seen (depth + 1) u)
             (s_properties s))))"
  by pat_completeness auto
termination by (relation "measure (\<lambda>(_, _, _, depth, _). 9 - depth)") auto

declare flattenProperties.simps [simp del]

definition flatten :: "open_api \<Rightarrow> schema option \<Rightarrow> string list" where
  "flatten spec s = (case s of None \<Rightarrow> [] | Some u \<Rightarrow> flattenProperties spec [] [] 0 u)"

definition contentSchema :: "content option \<Rightarrow> schema option" where
  "contentSchema c = (case c of None \<Rightarrow> None
     | Some xs \<Rightarrow> (case map_of xs ''application/json'' of
          Some s \<Rightarrow> s
        | None \<Rightarrow> (case xs of [] \<Rightarrow> None | x # _ \<Rightarrow> snd x)))"

section \<open>Comparison\<close>

definition path_operations :: "string \<times> (string \<times> operation) list \<Rightarrow> (string \<times> operation) list" where
  "path_operations p = concat (map (\<lambda>m. case map_of (snd p) m of
     None \<Rightarrow> [] | Some x \<Rightarrow> [(toUpperCase m @ '' '' @ fst p, x)]) HTTP_METHODS)"

definition buildEndpointMap :: "open_api \<Rightarrow> (string \<times> operation) list" where
  "buildEndpointMap spec = concat (map path_operations (oa_paths spec))"

text \<open>The entries of \<open>xs\<close> that are not in \<open>ys\<close>, sorted and without repetitions.\<close>

definition only_in :: "string list \<Rightarrow> string list \<Rightarrow> string list" where
  "only_in xs ys = sort (remdups (filter (\<lambda>x. x \<notin> set ys) xs))"

record changes =
  added :: "string list"
  removed :: "string list"

definition compare_lists :: "string list \<Rightarrow> string list \<Rightarrow> changes" where
  "compare_lists base head = \<lparr>added = only_in head base, removed = only_in base head\<rparr>"

definition diffSchemas :: "schema option \<Rightarrow> schema option \<Rightarrow> open_api \<Rightarrow> open_api \<Rightarrow> changes" where
  "diffSchemas b h base head = compare_lists (flatten base b) (flatten head h)"

definition param_key :: "parameter \<Rightarrow> string" where
  "param_key p = pm_in p @ '':'' @ pm_name p"

definition diffParameters :: "operation \<Rightarrow> operation \<Rightarrow> changes" where
  "diffParameters b h = compare_lists (map param_key (op_parameters b)) (map param_key (op_parameters h))"

record endpoint =
  ep_key :: string
  ep_summary :: "string option"
  ep_tags :: "string list"

record endpoint_change =
  ec_key :: string
  ec_summary :: "string option"
  ec_request :: "changes option"
  ec_responses :: "(string \<times> changes) list"
  ec_params :: "changes option"

record diff_result =
  addedEndpoints :: "endpoint list"
  removedEndpoints :: "endpoint list"
  changedEndpoints :: "endpoint_change list"
  addedSchemas :: "string list"
  removedSchemas :: "string list"

definition no_changes :: "changes \<Rightarrow> bool" where
  "no_changes c \<longleftrightarrow> added c = [] \<and> removed c = []"

definition proper :: "changes \<Rightarrow> changes option" where
  "proper c = (if no_changes c then None else Some c)"

definition response_content :: "operation \<Rightarrow> string \<Rightarrow> content option" where
  "response_content x code = (case map_of (op_responses x) code of None \<Rightarrow> None | Some c \<Rightarrow> c)"

definition status_codes :: "operation \<Rightarrow> operation \<Rightarrow> string list" where
  "status_codes b h = rev (remdups (rev (map fst (op_responses b) @ map fst (op_responses h))))"

definition response_changes :: "open_api \<Rightarrow> open_api \<Rightarrow> operation \<Rightarrow> operation \<Rightarrow> (string \<times> changes) list" where
  "response_changes base head b h = concat (map (\<lambda>code.
     case proper (diffSchemas (contentSchema (response_content b code)) (contentSchema (response_content h code)) base head) of
       None \<Rightarrow> [] | Some c \<Rightarrow> [(code, c)]) (status_codes b h))"

definition endpoint_change_of :: "open_api \<Rightarrow> open_api \<Rightarrow> string \<Rightarrow> operation \<Rightarrow> operation \<Rightarrow> endpoint_change" where
  "endpoint_change_of base head key b h =
     \<lparr>ec_key = key, ec_summary = op_summary h,
      ec_request = proper (diffSchemas (contentSchema (op_requestBody b)) (contentSchema (op_requestBody h)) base head),
      ec_responses = response_changes base head b h,
      ec_params = proper (diffParameters b h)\<rparr>"

definition has_changes :: "endpoint_change \<Rightarrow> bool" where
  "has_changes c \<longleftrightarrow> ec_request c \<noteq> None \<or> ec_responses c \<noteq> [] \<or> ec_params c \<noteq> None"

text \<open>\<open>sort\<close> with a comparison function.\<close>

fun insert_by :: "('a \<Rightarrow> 'a \<Rightarrow> bool) \<Rightarrow> 'a \<Rightarrow> 'a list \<Rightarrow> 'a list" where
  "insert_by le x [] = [x]"
| "insert_by le x (y # ys) = (if le x y then x # y # ys else y # insert_by le x ys)"

definition sort_by :: "('a \<Rightarrow> 'a \<Rightarrow> bool) \<Rightarrow> 'a list \<Rightarrow> 'a list" where
  "sort_by le xs = foldr (insert_by le) xs []"

definition listed :: "string \<times> operation \<Rightarrow> endpoint" where
  "listed p = \<lparr>ep_key = fst p, ep_summary = op_summary (snd p), ep_tags = op_tags (snd p)\<rparr>"

definition changed_endpoints :: "open_api \<Rightarrow> open_api \<Rightarrow> endpoint_change list" where
  "changed_endpoints base head = concat (map (\<lambda>(key, h).
     case map_of (buildEndpointMap base) key of
       None \<Rightarrow> []
     | Some b \<Rightarrow> (let c = endpoint_change_of base head key b h in if has_changes c then [c] else []))
     (buildEndpointMap head))"

definition new_endpoints :: "open_api \<Rightarrow> open_api \<Rightarrow> endpoint list" where
  "new_endpoints base head =
     map listed (filter (\<lambda>(key, _). map_of (buildEndpointMap base) key = None) (buildEndpointMap head))"

definition diffSpecs :: "(string \<Rightarrow> string \<Rightarrow> bool) \<Rightarrow> open_api \<Rightarrow> open_api \<Rightarrow> diff_result" where
  "diffSpecs localeLe base head =
     \<lparr>addedEndpoints = sort_by (\<lambda>a b. localeLe (ep_key a) (ep_key b)) (new_endpoints base head),
      removedEndpoints = sort_by (\<lambda>a b. localeLe (ep_key a) (ep_key b)) (new_endpoints head base),
      changedEndpoints = sort_by (\<lambda>a b. localeLe (ec_key a) (ec_key b)) (changed_endpoints base head),
      addedSchemas = only_in (map fst (oa_schemas head)) (map fst (oa_schemas base)),
      removedSchemas = only_in (map fst (oa_schemas base)) (map fst (oa_schemas head))\<rparr>"

section \<open>The change log entry\<close>

text \<open>The symbols outside ASCII, in UTF-8.\<close>

definition utf8 :: "nat list \<Rightarrow> string" where "utf8 = map char_of"

definition em_dash :: string where "em_dash = utf8 [0xE2, 0x80, 0x94]"
definition middle_dot :: string where "middle_dot = utf8 [0xC2, 0xB7]"
definition tick_mark :: string where "tick_mark = utf8 [0xE2, 0x9C, 0x85]"
definition cross_mark :: string where "cross_mark = utf8 [0xE2, 0x9D, 0x8C]"
definition arrows_sign :: string where "arrows_sign = utf8 [0xF0, 0x9F, 0x94, 0x84]"
definition plus_sign :: string where "plus_sign = utf8 [0xEF, 0xBC, 0x8B]"
definition minus_sign :: string where "minus_sign = utf8 [0xEF, 0xBC, 0x8D]"
definition package_sign :: string where "package_sign = utf8 [0xF0, 0x9F, 0x93, 0xA6]"
definition bin_sign :: string where "bin_sign = utf8 [0xF0, 0x9F, 0x97, 0x91]"

definition lines :: "string list \<Rightarrow> string" where
  "lines = join_with (CHR 0x0A # [])"

definition code_span :: "string \<Rightarrow> string" where
  "code_span s = ''`'' @ s @ ''`''"

definition formatFieldList :: "string list \<Rightarrow> string \<Rightarrow> string" where
  "formatFieldList fs icon = lines (map (\<lambda>f. ''  - '' @ icon @ '' '' @ code_span f) fs)"

definition summary_text :: "string option \<Rightarrow> string" where
  "summary_text s = (if truthy s then '' '' @ em_dash @ '' '' @ the s else [])"

definition tags_text :: "string list \<Rightarrow> string" where
  "tags_text ts = (if ts = [] then [] else '' *('' @ join_with '', '' ts @ '')*'')"

definition bold :: "string \<Rightarrow> string" where
  "bold s = ''**'' @ s @ ''**''"

definition field_blocks :: "changes \<Rightarrow> string list" where
  "field_blocks c = (if added c = [] then [] else [formatFieldList (added c) plus_sign]) @
     (if removed c = [] then [] else [formatFieldList (removed c) minus_sign])"

definition param_blocks :: "changes \<Rightarrow> string list" where
  "param_blocks c =
     (if added c = [] then [] else [''**Parameters added:**'', formatFieldList (added c) plus_sign, []]) @
     (if removed c = [] then [] else [''**Parameters removed:**'', formatFieldList (removed c) minus_sign, []])"

definition change_lines :: "endpoint_change \<Rightarrow> string list" where
  "change_lines c =
     [''#### '' @ code_span (ec_key c) @ summary_text (ec_summary c), []] @
     (case ec_params c of None \<Rightarrow> [] | Some p \<Rightarrow> param_blocks p) @
     (case ec_request c of None \<Rightarrow> [] | Some r \<Rightarrow> [''**Request body:**''] @ field_blocks r @ [[]]) @
     concat (map (\<lambda>(code, r). [''**Response '' @ code_span code @ '':**''] @ field_blocks r @ [[]]) (ec_responses c))"

text \<open>A section with its heading, left out when it has no entries.\<close>

definition section_of :: "string \<Rightarrow> string list \<Rightarrow> string list" where
  "section_of heading entries = (if entries = [] then [] else heading # [] # entries @ [[]])"

record ref_meta =
  mt_ref :: "string option"
  mt_sha :: "string option"
  mt_pr :: "string option"

definition ref_line :: "ref_meta \<Rightarrow> string" where
  "ref_line m = (if truthy (mt_pr m) then ''PR #'' @ the (mt_pr m)
     else if truthy (mt_ref m) then code_span (the (mt_ref m)) else ''unknown ref'')"

definition sha_line :: "ref_meta \<Rightarrow> string" where
  "sha_line m = (if truthy (mt_sha m) then '' '' @ middle_dot @ '' '' @ code_span (take 8 (the (mt_sha m))) else [])"

definition diff_empty :: "diff_result \<Rightarrow> bool" where
  "diff_empty d \<longleftrightarrow> addedEndpoints d = [] \<and> removedEndpoints d = [] \<and> changedEndpoints d = [] \<and>
     addedSchemas d = [] \<and> removedSchemas d = []"

text \<open>\<open>tnow\<close> is the formatted time.  The list of changed endpoints ends without an empty line of its own.\<close>

definition renderMarkdown :: "string \<Rightarrow> ref_meta \<Rightarrow> diff_result \<Rightarrow> string" where
  "renderMarkdown tnow m d =
     (if diff_empty d then []
      else lines ([''## API Changes '' @ em_dash @ '' '' @ tnow, [], ''> '' @ ref_line m @ sha_line m, []] @
        section_of (''### '' @ tick_mark @ '' New Endpoints'')
          (map (\<lambda>e. ''- '' @ bold (code_span (ep_key e)) @ tags_text (ep_tags e) @ summary_text (ep_summary e)) (addedEndpoints d)) @
        section_of (''### '' @ cross_mark @ '' Removed Endpoints'')
          (map (\<lambda>e. ''- '' @ bold (code_span (ep_key e)) @ summary_text (ep_summary e)) (removedEndpoints d)) @
        (if changedEndpoints d = [] then []
         else (''### '' @ arrows_sign @ '' Changed Endpoints'') # [] # concat (map change_lines (changedEndpoints d))) @
        section_of (''### '' @ package_sign @ '' New Schemas'') (map (\<lambda>s. ''- '' @ code_span s) (addedSchemas d)) @
        section_of (''### '' @ bin_sign @ '' Removed Schemas'') (map (\<lambda>s. ''- '' @ code_span s) (removedSchemas d)) @
        [''---'', []]))"

section \<open>The change log\<close>

definition CHANGELOG_HEADER :: string where
  "CHANGELOG_HEADER = lines
     [''# API Changelog'', [],
      ''This file records API shape changes (endpoints, request/response fields, schemas)'',
      ''detected automatically by comparing OpenAPI specs between builds.'', [],
      ''For conventional-commit-based changes see [CHANGELOG.md](./CHANGELOG.md).'', [],
      ''---'', [], []]"

definition SEPARATOR :: string where "SEPARATOR = ''---'' @ [CHR 0x0A, CHR 0x0A]"

text \<open>\<open>indexOf\<close>.\<close>

fun index_of :: "string \<Rightarrow> string \<Rightarrow> nat option" where
  "index_of p [] = (if p = [] then Some 0 else None)"
| "index_of p (c # s) = (if starts_with p (c # s) then Some 0 else map_option Suc (index_of p s))"

text \<open>The file is \<open>None\<close> when it does not exist.\<close>

definition appendToChangelog :: "string option \<Rightarrow> string \<Rightarrow> string" where
  "appendToChangelog file entry = (case file of
     None \<Rightarrow> CHANGELOG_HEADER @ entry
   | Some old \<Rightarrow> (case index_of SEPARATOR old of
       None \<Rightarrow> old @ [CHR 0x0A] @ entry
     | Some i \<Rightarrow> (let k = i + length SEPARATOR in take k old @ entry @ drop k old)))"

section \<open>The script\<close>

definition total_changes :: "diff_result \<Rightarrow> nat" where
  "total_changes d = length (addedEndpoints d) + length (removedEndpoints d) + length (changedEndpoints d) +
     length (addedSchemas d) + length (removedSchemas d)"

text \<open>
  \<open>loadSpec\<close> reads and parses a file, \<open>Inl\<close> when it is missing or malformed.  The result is the exit code and
  the change log file.
\<close>

definition run_diff :: "(string \<Rightarrow> string + open_api) \<Rightarrow> (string \<Rightarrow> string \<Rightarrow> bool) \<Rightarrow> string \<Rightarrow> ref_meta \<Rightarrow> string list \<Rightarrow>
  (string \<Rightarrow> string option) \<Rightarrow> nat \<times> (string \<Rightarrow> string option)" where
  "run_diff loadSpec localeLe tnow m args files =
     (case parseArgs args of (base, head, out) \<Rightarrow>
       (case loadSpec base of
          Inl _ \<Rightarrow> (1, files)
        | Inr b \<Rightarrow> (case loadSpec head of
            Inl _ \<Rightarrow> (1, files)
          | Inr h \<Rightarrow> (let d = diffSpecs localeLe b h
              in if total_changes d = 0 then (0, files)
                 else (0, files(out \<mapsto> appendToChangelog (files out) (renderMarkdown tnow m d)))))))"

text \<open>
  The script adds an entry exactly when the two documents differ in their endpoints, schemas, parameters or
  visible fields, and a change log keeps its entries, newest first.
\<close>

section \<open>Lists\<close>

lemma set_insert_by [simp]: "set (insert_by le x ys) = insert x (set ys)"
  by (induction ys) auto

lemma set_sort_by [simp]: "set (sort_by le xs) = set xs"
  by (induction xs) (auto simp: sort_by_def)

lemma sort_by_Nil [simp]: "sort_by le xs = [] \<longleftrightarrow> xs = []"
  by (metis set_empty set_sort_by)

lemma set_only_in [simp]: "set (only_in xs ys) = set xs - set ys"
  by (auto simp: only_in_def)

lemma only_in_Nil: "only_in xs ys = [] \<longleftrightarrow> set xs \<subseteq> set ys"
  by (metis Diff_eq_empty_iff set_empty set_only_in)

lemma only_in_sorted: "sorted (only_in xs ys)" "distinct (only_in xs ys)"
  by (simp_all add: only_in_def)

lemma no_changes_compare: "no_changes (compare_lists xs ys) \<longleftrightarrow> set xs = set ys"
  by (auto simp: no_changes_def compare_lists_def only_in_Nil)

lemma proper_None: "proper c = None \<longleftrightarrow> no_changes c"
  by (simp add: proper_def)

text \<open>Comparing in the other direction exchanges what is added and what is removed.\<close>

lemma compare_lists_swap: "compare_lists ys xs = \<lparr>added = removed (compare_lists xs ys), removed = added (compare_lists xs ys)\<rparr>"
  by (simp add: compare_lists_def)

section \<open>Endpoints\<close>

lemma set_path_operations:
  "(k, x) \<in> set (path_operations p) \<longleftrightarrow>
     (\<exists>m \<in> set HTTP_METHODS. map_of (snd p) m = Some x \<and> k = toUpperCase m @ '' '' @ fst p)"
proof
  assume "(k, x) \<in> set (path_operations p)"
  then obtain m where "m \<in> set HTTP_METHODS" "(k, x) \<in> set (case map_of (snd p) m of
      None \<Rightarrow> [] | Some x \<Rightarrow> [(toUpperCase m @ '' '' @ fst p, x)])"
    by (auto simp: path_operations_def)
  then show "\<exists>m \<in> set HTTP_METHODS. map_of (snd p) m = Some x \<and> k = toUpperCase m @ '' '' @ fst p"
    by (auto split: option.splits)
qed (force simp: path_operations_def)

text \<open>A key determines the method and the path: no method contains a space.\<close>

lemma key_split:
  assumes "a @ '' '' @ p = b @ '' '' @ q" "CHR '' '' \<notin> set a" "CHR '' '' \<notin> set b"
  shows "a = b \<and> p = q"
proof -
  have "takeWhile (\<lambda>c. c \<noteq> CHR '' '') (a @ '' '' @ p) = a" "takeWhile (\<lambda>c. c \<noteq> CHR '' '') (b @ '' '' @ q) = b"
    using assms(2,3) by (subst takeWhile_append2; auto)+
  then show ?thesis using assms(1) by simp
qed

lemma methods_no_space: "list_all (\<lambda>m. CHR '' '' \<notin> set (toUpperCase m)) HTTP_METHODS"
  by code_simp

lemma methods_distinct: "distinct (map toUpperCase HTTP_METHODS)"
  by code_simp

lemma key_inj:
  assumes "m \<in> set HTTP_METHODS" "n \<in> set HTTP_METHODS" "toUpperCase m @ '' '' @ p = toUpperCase n @ '' '' @ q"
  shows "m = n \<and> p = q"
proof -
  have "toUpperCase m = toUpperCase n \<and> p = q"
    using key_split [OF assms(3)] methods_no_space assms(1,2) by (auto simp: list_all_iff)
  then show ?thesis using methods_distinct assms(1,2) by (auto simp: distinct_map dest: inj_onD)
qed

lemma distinct_concat_keys:
  "distinct (map key xs) \<Longrightarrow> (\<And>x. x \<in> set xs \<Longrightarrow> distinct (map fst (f x))) \<Longrightarrow>
   (\<And>x y k. x \<in> set xs \<Longrightarrow> y \<in> set xs \<Longrightarrow> k \<in> fst ` set (f x) \<Longrightarrow> k \<in> fst ` set (f y) \<Longrightarrow> key x = key y) \<Longrightarrow>
   distinct (map fst (concat (map f xs)))"
proof (induction xs)
  case (Cons x xs)
  have "fst ` set (f x) \<inter> fst ` set (concat (map f xs)) = {}"
  proof (rule ccontr)
    assume "fst ` set (f x) \<inter> fst ` set (concat (map f xs)) \<noteq> {}"
    then obtain k y where "k \<in> fst ` set (f x)" "y \<in> set xs" "k \<in> fst ` set (f y)" by auto
    then have "key x = key y" using Cons.prems(3) [of x y k] by simp
    with \<open>y \<in> set xs\<close> Cons.prems(1) show False by auto
  qed
  moreover have "distinct (map fst (concat (map f xs)))"
    using Cons.prems by (intro Cons.IH) auto
  ultimately show ?case using Cons.prems(2) by simp
qed simp

lemma distinct_path_operations: "distinct (map fst (path_operations p))"
  unfolding path_operations_def
proof (rule distinct_concat_keys [where key = "\<lambda>m. m"])
  let ?f = "\<lambda>m. case map_of (snd p) m of None \<Rightarrow> [] | Some x \<Rightarrow> [(toUpperCase m @ '' '' @ fst p, x)]"
  show "distinct (map (\<lambda>m. m) HTTP_METHODS)" by (simp add: HTTP_METHODS_def)
  show "distinct (map fst (?f m))" for m by (simp split: option.split)
  fix m n k assume m: "m \<in> set HTTP_METHODS" "n \<in> set HTTP_METHODS" and k: "k \<in> fst ` set (?f m)" "k \<in> fst ` set (?f n)"
  from k have "k = toUpperCase m @ '' '' @ fst p" "k = toUpperCase n @ '' '' @ fst p"
    by (auto split: option.splits)
  then show "m = n" using key_inj [OF m] by metis
qed

lemma distinct_endpoints:
  assumes "distinct (map fst (oa_paths spec))"
  shows "distinct (map fst (buildEndpointMap spec))"
  unfolding buildEndpointMap_def
proof (rule distinct_concat_keys [OF assms distinct_path_operations])
  fix p q k assume "k \<in> fst ` set (path_operations p)" "k \<in> fst ` set (path_operations q)"
  then obtain x y where "(k, x) \<in> set (path_operations p)" "(k, y) \<in> set (path_operations q)" by force
  then obtain m n where "m \<in> set HTTP_METHODS" "n \<in> set HTTP_METHODS" "k = toUpperCase m @ '' '' @ fst p" "k = toUpperCase n @ '' '' @ fst q"
    unfolding set_path_operations by blast
  then show "fst p = fst q" using key_inj [of m n "fst p" "fst q"] by simp
qed

section \<open>Operations\<close>

text \<open>Two operations look the same when their parameters and the fields of their bodies and responses agree.\<close>

definition same_fields :: "open_api \<Rightarrow> open_api \<Rightarrow> content option \<Rightarrow> content option \<Rightarrow> bool" where
  "same_fields base head b h \<longleftrightarrow> set (flatten base (contentSchema b)) = set (flatten head (contentSchema h))"

definition same_operation :: "open_api \<Rightarrow> open_api \<Rightarrow> operation \<Rightarrow> operation \<Rightarrow> bool" where
  "same_operation base head b h \<longleftrightarrow>
     same_fields base head (op_requestBody b) (op_requestBody h) \<and>
     (\<forall>code. same_fields base head (response_content b code) (response_content h code)) \<and>
     param_key ` set (op_parameters b) = param_key ` set (op_parameters h)"

lemma no_changes_schemas: "no_changes (diffSchemas (contentSchema b) (contentSchema h) base head) \<longleftrightarrow> same_fields base head b h"
  by (simp add: diffSchemas_def no_changes_compare same_fields_def)

lemma set_status_codes: "set (status_codes b h) = fst ` set (op_responses b) \<union> fst ` set (op_responses h)"
  by (auto simp: status_codes_def)

lemma same_fields_unlisted: "code \<notin> set (status_codes b h) \<Longrightarrow> same_fields base head (response_content b code) (response_content h code)"
proof -
  assume "code \<notin> set (status_codes b h)"
  then have "map_of (op_responses b) code = None" "map_of (op_responses h) code = None"
    by (simp_all add: set_status_codes map_of_eq_None_iff)
  then show ?thesis
    by (simp add: response_content_def same_fields_def contentSchema_def flatten_def)
qed

lemma response_changes_Nil:
  "response_changes base head b h = [] \<longleftrightarrow> (\<forall>code. same_fields base head (response_content b code) (response_content h code))"
proof -
  have "response_changes base head b h = [] \<longleftrightarrow>
      (\<forall>code \<in> set (status_codes b h). same_fields base head (response_content b code) (response_content h code))"
    by (auto simp: response_changes_def no_changes_schemas [symmetric] proper_def)
  then show ?thesis using same_fields_unlisted by blast
qed

lemma ec_key_change [simp]: "ec_key (endpoint_change_of base head key b h) = key"
  by (simp add: endpoint_change_of_def)

lemma has_changes_iff: "has_changes (endpoint_change_of base head key b h) \<longleftrightarrow> \<not> same_operation base head b h"
  by (simp add: has_changes_def endpoint_change_of_def proper_None no_changes_schemas response_changes_Nil
      diffParameters_def no_changes_compare same_operation_def)

definition endpoints :: "open_api \<Rightarrow> string set" where
  "endpoints spec = fst ` set (buildEndpointMap spec)"

definition schema_names :: "open_api \<Rightarrow> string set" where
  "schema_names spec = fst ` set (oa_schemas spec)"

definition differing :: "open_api \<Rightarrow> open_api \<Rightarrow> string set" where
  "differing base head = {key. \<exists>b h. map_of (buildEndpointMap base) key = Some b \<and>
     map_of (buildEndpointMap head) key = Some h \<and> \<not> same_operation base head b h}"

lemma keys_new_endpoints: "ep_key ` set (new_endpoints base head) = endpoints head - endpoints base"
  by (force simp: new_endpoints_def endpoints_def listed_def map_of_eq_None_iff)

lemma keys_changed_endpoints:
  assumes "distinct (map fst (oa_paths head))"
  shows "ec_key ` set (changed_endpoints base head) = differing base head"
proof -
  have "ec_key ` set (changed_endpoints base head) = {key. \<exists>b h. map_of (buildEndpointMap base) key = Some b \<and>
      (key, h) \<in> set (buildEndpointMap head) \<and> \<not> same_operation base head b h}" (is "?l = ?r")
  proof
    show "?l \<subseteq> ?r"
      by (auto simp: changed_endpoints_def Let_def has_changes_iff split: option.splits if_splits) (metis has_changes_iff)+
    show "?r \<subseteq> ?l"
    proof
      fix key assume "key \<in> ?r"
      then obtain b h where k: "map_of (buildEndpointMap base) key = Some b" "(key, h) \<in> set (buildEndpointMap head)"
        "\<not> same_operation base head b h" by blast
      then have "endpoint_change_of base head key b h \<in> set (changed_endpoints base head)"
        by (auto simp: changed_endpoints_def Let_def has_changes_iff intro!: bexI [of _ "(key, h)"])
      then show "key \<in> ?l" by (rule rev_image_eqI) simp
    qed
  qed
  then show ?thesis
    using distinct_endpoints [OF assms] by (simp add: differing_def map_of_eq_Some_iff)
qed

lemma lines_Cons_Cons [simp]: "lines (x # y # ys) = x @ [CHR 0x0A] @ lines (y # ys)"
  by (simp add: lines_def join_with_def)

lemma render_empty: "renderMarkdown t m d = [] \<longleftrightarrow> diff_empty d"
  by (simp add: renderMarkdown_def)

text \<open>
  Comparing two documents lists exactly the endpoints that appear or disappear, exactly the common
  endpoints whose parameters, request fields or response fields differ, and exactly the schemas that appear
  or disappear; the change log entry is empty exactly when there is none of them.
\<close>

lemma diff_is_exact:
  fixes base head :: open_api and localeLe :: "string \<Rightarrow> string \<Rightarrow> bool"
  assumes "distinct (map fst (oa_paths head))"
  defines "d \<equiv> diffSpecs localeLe base head"
  shows "ep_key ` set (addedEndpoints d) = endpoints head - endpoints base \<and>
    ep_key ` set (removedEndpoints d) = endpoints base - endpoints head \<and>
    ec_key ` set (changedEndpoints d) = differing base head \<and>
    set (addedSchemas d) = schema_names head - schema_names base \<and>
    set (removedSchemas d) = schema_names base - schema_names head \<and>
    (renderMarkdown tnow m d = [] \<longleftrightarrow>
       endpoints base = endpoints head \<and> differing base head = {} \<and> schema_names base = schema_names head)"
proof -
  note k = keys_new_endpoints keys_changed_endpoints [OF assms(1), of base]
  have "diff_empty d \<longleftrightarrow> ep_key ` set (addedEndpoints d) = {} \<and> ep_key ` set (removedEndpoints d) = {} \<and>
      ec_key ` set (changedEndpoints d) = {} \<and> set (addedSchemas d) = {} \<and> set (removedSchemas d) = {}"
    by (simp add: diff_empty_def)
  then show ?thesis
    unfolding render_empty by (auto simp: d_def diffSpecs_def k schema_names_def)
qed

section \<open>The change log\<close>

lemma index_of_length: "index_of p s = Some i \<Longrightarrow> i + length p \<le> length s"
proof (induction s arbitrary: i)
  case (Cons c s)
  show ?case
  proof (cases "starts_with p (c # s)")
    case True
    then have "length (take (length p) (c # s)) = length p" by (simp only: starts_with_def)
    then show ?thesis using Cons.prems True by (simp split: if_splits)
  qed (use Cons in \<open>auto split: if_splits\<close>)
qed (simp split: if_splits)

lemma starts_with_append: "length p \<le> length s \<Longrightarrow> starts_with p (s @ t) \<longleftrightarrow> starts_with p s"
  by (simp add: starts_with_def)

lemma index_of_append: "index_of p s = Some i \<Longrightarrow> index_of p (s @ t) = Some i"
proof (induction s arbitrary: i)
  case Nil
  then show ?case by (cases t) (auto simp: starts_with_def split: if_splits)
next
  case (Cons c s)
  have "length p \<le> length (c # s)" using index_of_length [OF Cons.prems] by simp
  from starts_with_append [OF this] show ?case
    using Cons by (auto split: if_splits)
qed

lemma header_separator: "index_of SEPARATOR CHANGELOG_HEADER = Some (length CHANGELOG_HEADER - length SEPARATOR)"
  by code_simp

lemma separator_fits: "length SEPARATOR \<le> length CHANGELOG_HEADER"
  by code_simp

lemma append_after_header: "appendToChangelog (Some (CHANGELOG_HEADER @ rest)) entry = CHANGELOG_HEADER @ entry @ rest"
  using index_of_append [OF header_separator, of rest] separator_fits by (simp add: appendToChangelog_def Let_def)

text \<open>A run of the script on its loaded documents.\<close>

lemma run_diff_loaded:
  fixes base head :: open_api and localeLe :: "string \<Rightarrow> string \<Rightarrow> bool"
  assumes "parseArgs args = (f, g, out)" "loadSpec f = Inr base" "loadSpec g = Inr head"
  defines "d \<equiv> diffSpecs localeLe base head"
  shows "run_diff loadSpec localeLe tnow m args files =
    (0, if diff_empty d then files else files(out \<mapsto> appendToChangelog (files out) (renderMarkdown tnow m d)))"
  using assms by (simp add: run_diff_def Let_def total_changes_def diff_empty_def)

text \<open>
  Whatever entries are written, one after the other, into a change log that did not exist, the file is the
  header followed by all the entries, the newest first; none is lost or split.
\<close>

lemma change_log_keeps_entries:
  "fold (\<lambda>entry file. Some (appendToChangelog file entry)) (first # entries) None =
     Some (CHANGELOG_HEADER @ concat (rev (first # entries)))"
proof (induction entries rule: rev_induct)
  case Nil
  show ?case by (simp add: appendToChangelog_def)
next
  case (snoc e entries)
  have "fold (\<lambda>entry file. Some (appendToChangelog file entry)) (first # entries @ [e]) None =
      Some (appendToChangelog (fold (\<lambda>entry file. Some (appendToChangelog file entry)) (first # entries) None) e)"
    by simp
  then show ?case by (simp only: snoc.IH append_after_header) simp
qed

section \<open>Two documents\<close>

definition text_schema :: schema where
  "text_schema = Schema (Some ''string'') None [] None [] [] []"

definition user_schema :: "string list \<Rightarrow> schema" where
  "user_schema names = Schema (Some ''object'') None (map (\<lambda>n. (n, text_schema)) names) None [] [] []"

definition get_users :: operation where
  "get_users = \<lparr>op_summary = None, op_tags = [], op_requestBody = None,
     op_responses = [(''200'', Some [(''application/json'',
       Some (Schema (Some ''array'') None [] (Some (Schema None (Some ''#/components/schemas/User'') [] None [] [] [])) [] [] []))])],
     op_parameters = []\<rparr>"

definition document1 :: open_api where
  "document1 = \<lparr>oa_paths = [(''/users'', [(''get'', get_users)])], oa_schemas = [(''User'', user_schema [''id''])]\<rparr>"

definition document2 :: open_api where
  "document2 = \<lparr>oa_paths = [(''/users'', [(''get'', get_users), (''post'', get_users)])],
     oa_schemas = [(''User'', user_schema [''id'', ''name''])]\<rparr>"

definition listed_after :: "string \<Rightarrow> string \<Rightarrow> bool" where
  "listed_after a b = (length a \<le> length b)"

definition ref1 :: ref_meta where
  "ref1 = \<lparr>mt_ref = None, mt_sha = None, mt_pr = None\<rparr>"

lemma diff_is_exact_witness:
  "ep_key ` set (addedEndpoints (diffSpecs listed_after document1 document2)) = {''POST /users''} \<and>
   ''GET /users'' \<in> ec_key ` set (changedEndpoints (diffSpecs listed_after document1 document2)) \<and>
   renderMarkdown [] ref1 (diffSpecs listed_after document1 document2) \<noteq> []"
proof -
  have d: "distinct (map fst (oa_paths document2))" by code_simp
  have e: "map fst (buildEndpointMap document1) = [''GET /users'']"
    "map fst (buildEndpointMap document2) = [''GET /users'', ''POST /users'']" by code_simp+
  have "has_changes (endpoint_change_of document1 document2 ''GET /users'' get_users get_users)" by code_simp
  then have "\<not> same_operation document1 document2 get_users get_users" by (simp add: has_changes_iff)
  moreover have "map_of (buildEndpointMap document1) ''GET /users'' = Some get_users"
    "map_of (buildEndpointMap document2) ''GET /users'' = Some get_users" by code_simp+
  ultimately have "''GET /users'' \<in> differing document1 document2" unfolding differing_def by blast
  moreover have "endpoints document1 = {''GET /users''}" "endpoints document2 = {''GET /users'', ''POST /users''}"
    unfolding endpoints_def set_map [symmetric] e by simp_all
  ultimately show ?thesis
    using diff_is_exact [OF d, of listed_after document1 "[]" ref1] by auto
qed

end
