(* ===== verification/Companies.thy ===== *)
theory Companies
  imports Accounts Doubles
begin

text \<open>
  Companies and their members: \<^verbatim>\<open>modules/companies/companies.service.ts\<close>, the member endpoints of
  \<^verbatim>\<open>modules/billing/billing.controller.ts\<close>, the guard \<^verbatim>\<open>common/guards/company-role.guard.ts\<close> and
  the invitations of \<^verbatim>\<open>modules/team-invites/team-invites.service.ts\<close>.

  A company is the user id of its first owner.  A member has a row; a user without one is taken for the
  owner of the company of the user's own id.
\<close>

section \<open>State\<close>

datatype company_role = OWNER | MEMBER

record company_member =
  cm_companyId :: ident
  cm_memberId :: ident
  cm_role :: company_role
  cm_spendingLimit :: "int option"

record ownership_transfer =
  ot_id :: ident
  ot_companyId :: ident
  ot_fromOwnerId :: ident
  ot_toMemberId :: ident
  ot_expiresAt :: time
  ot_acceptedAt :: "time option"
  ot_cancelledAt :: "time option"
  ot_createdAt :: time

record team_invite =
  ti_id :: ident
  ti_companyOwnerId :: ident
  ti_email :: string
  ti_token :: string
  ti_expiresAt :: time
  ti_acceptedAt :: "time option"
  ti_createdAt :: time

record company_db =
  users :: auth_db
  companyOwner :: "ident \<rightharpoonup> ident"
  proofSla :: "ident \<rightharpoonup> int \<times> proof_sla_action"
  members :: "company_member list"
  transfers :: "ownership_transfer list"
  invites :: "team_invite list"
  hiring :: "(engagement \<times> time) list"
  co_audit :: "audit_entry list"
  mailed :: "(string \<times> string) list"

text \<open>The identifiers and the invite tokens the database and \<open>randomBytes\<close> deliver, and the mail transport.\<close>

record company_env =
  auth_part :: auth_env
  transferId :: "nat \<Rightarrow> ident"
  inviteId :: "nat \<Rightarrow> ident"
  inviteToken :: "ident \<Rightarrow> nat \<Rightarrow> string"
  mailFails :: "string \<Rightarrow> bool"

section \<open>The guard\<close>

definition membership :: "ident \<Rightarrow> company_db \<Rightarrow> company_member option" where
  "membership uid s = List.find (\<lambda>m. cm_memberId m = uid) (members s)"

definition company_role_of :: "ident \<Rightarrow> company_db \<Rightarrow> company_role" where
  "company_role_of uid s = (case membership uid s of None \<Rightarrow> OWNER | Some m \<Rightarrow> cm_role m)"

definition canActivate :: "company_role list \<Rightarrow> (ident \<times> user_role) option \<Rightarrow> company_db \<Rightarrow> exn + bool" where
  "canActivate required user s =
     (if required = [] then Inr True
      else (case user of
        None \<Rightarrow> Inr False
      | Some (uid, role) \<Rightarrow>
          if role \<noteq> COMPANY then Inl ForbiddenException
          else if company_role_of uid s \<notin> set required then Inl ForbiddenException
          else Inr True))"

definition resolveCompanyId :: "ident \<Rightarrow> company_db \<Rightarrow> ident" where
  "resolveCompanyId uid s = (case membership uid s of None \<Rightarrow> uid | Some m \<Rightarrow> cm_companyId m)"

definition member_of :: "ident \<Rightarrow> ident \<Rightarrow> company_member \<Rightarrow> bool" where
  "member_of c uid m \<longleftrightarrow> cm_companyId m = c \<and> cm_memberId m = uid"

definition find_member :: "ident \<Rightarrow> ident \<Rightarrow> company_db \<Rightarrow> company_member option" where
  "find_member c uid s = List.find (member_of c uid) (members s)"

section \<open>Members\<close>

definition new_member :: "ident \<Rightarrow> ident \<Rightarrow> company_role \<Rightarrow> company_member" where
  "new_member c uid role = \<lparr>cm_companyId = c, cm_memberId = uid, cm_role = role, cm_spendingLimit = None\<rparr>"

definition addMember :: "ident \<Rightarrow> ident \<Rightarrow> company_role \<Rightarrow> company_db \<Rightarrow> (company_db, unit) outcome" where
  "addMember uid memberId role s =
     (if memberId = uid then throw BadRequestException s
      else if find_member uid memberId s \<noteq> None then throw BadRequestException s
      else return () (s\<lparr>members := members s @ [new_member uid memberId role]\<rparr>))"

definition removeMember :: "ident \<Rightarrow> ident \<Rightarrow> company_db \<Rightarrow> (company_db, unit) outcome" where
  "removeMember uid memberId s =
     (if find_member uid memberId s = None then throw BadRequestException s
      else return () (s\<lparr>members := delete_where (member_of uid memberId) (members s)\<rparr>))"

definition listMembers :: "ident \<Rightarrow> company_db \<Rightarrow> company_member list" where
  "listMembers uid s = filter (\<lambda>m. cm_companyId m = uid) (members s)"

section \<open>Transfer of ownership\<close>

definition TRANSFER_TTL_DAYS :: int where "TRANSFER_TTL_DAYS = 7"

definition pending_transfer :: "ownership_transfer \<Rightarrow> bool" where
  "pending_transfer x \<longleftrightarrow> ot_acceptedAt x = None \<and> ot_cancelledAt x = None"

definition cancel_pending :: "time \<Rightarrow> ident \<Rightarrow> company_db \<Rightarrow> company_db" where
  "cancel_pending t c s = s\<lparr>transfers := update_where (\<lambda>x. ot_companyId x = c \<and> pending_transfer x)
     (\<lambda>x. x\<lparr>ot_cancelledAt := Some t\<rparr>) (transfers s)\<rparr>"

definition create_transfer :: "company_env \<Rightarrow> time \<Rightarrow> ident \<Rightarrow> ident \<Rightarrow> ident \<Rightarrow> company_db \<Rightarrow> (company_db, ownership_transfer) outcome" where
  "create_transfer w t c from to s =
     (let x = \<lparr>ot_id = transferId w (length (transfers s)), ot_companyId = c, ot_fromOwnerId = from, ot_toMemberId = to,
               ot_expiresAt = t + TRANSFER_TTL_DAYS * 24 * 60 * 60 * 1000, ot_acceptedAt = None, ot_cancelledAt = None,
               ot_createdAt = t\<rparr>
      in return x (s\<lparr>transfers := transfers s @ [x]\<rparr>))"

definition initiateTransfer :: "company_env \<Rightarrow> time \<Rightarrow> ident \<Rightarrow> ident \<Rightarrow> company_db \<Rightarrow> (company_db, ownership_transfer) outcome" where
  "initiateTransfer w t owner to s =
     (if owner = to then throw BadRequestException s
      else (let c = resolveCompanyId owner s
            in if find_member c to s = None then throw BadRequestException s
               else create_transfer w t c owner to (cancel_pending t c s)))"

text \<open>The body of the transaction of an acceptance.\<close>

definition demote :: "ident \<Rightarrow> ident \<Rightarrow> company_db \<Rightarrow> company_db" where
  "demote c uid s = s\<lparr>members :=
     (if find_member c uid s = None then members s @ [new_member c uid MEMBER]
      else update_where (member_of c uid) (\<lambda>m. m\<lparr>cm_role := MEMBER\<rparr>) (members s))\<rparr>"

definition promote :: "ident \<Rightarrow> ident \<Rightarrow> company_db \<Rightarrow> (company_db, unit) outcome" where
  "promote c uid s =
     (if find_member c uid s = None then throw RecordNotFound s
      else return () (s\<lparr>members := update_where (member_of c uid) (\<lambda>m. m\<lparr>cm_role := OWNER\<rparr>) (members s)\<rparr>))"

definition accept_body :: "time \<Rightarrow> ident \<Rightarrow> ownership_transfer \<Rightarrow> company_db \<Rightarrow> (company_db, unit) outcome" where
  "accept_body t uid x s =
     (let s1 = s\<lparr>transfers := update_where (\<lambda>y. ot_id y = ot_id x) (\<lambda>y. y\<lparr>ot_acceptedAt := Some t\<rparr>) (transfers s)\<rparr>;
          s2 = demote (ot_companyId x) (ot_fromOwnerId x) s1
      in and_then (promote (ot_companyId x) (ot_toMemberId x) s2) (\<lambda>_ s3.
           return () (s3\<lparr>co_audit := co_audit s3 @ [\<lparr>al_entityType = ''CompanyMember'', al_entityId = ot_companyId x,
             al_action = ''OWNERSHIP_TRANSFER'', al_old = Some (ot_fromOwnerId x), al_new = ot_toMemberId x,
             al_changedBy = uid\<rparr>]\<rparr>)))"

definition transfer_to :: "ident \<Rightarrow> company_db \<Rightarrow> ownership_transfer option" where
  "transfer_to uid s = latest_by ot_createdAt (filter (\<lambda>x. ot_toMemberId x = uid \<and> pending_transfer x) (transfers s))"

definition acceptTransfer :: "time \<Rightarrow> ident \<Rightarrow> company_db \<Rightarrow> (company_db, unit) outcome" where
  "acceptTransfer t uid s = (case transfer_to uid s of
     None \<Rightarrow> throw NotFoundException s
   | Some x \<Rightarrow> if ot_expiresAt x < t then throw BadRequestException s
       else transaction (accept_body t uid x) s)"

definition cancelTransfer :: "time \<Rightarrow> ident \<Rightarrow> company_db \<Rightarrow> (company_db, unit) outcome" where
  "cancelTransfer t uid s =
     (case List.find (\<lambda>x. ot_companyId x = resolveCompanyId uid s \<and> ot_fromOwnerId x = uid \<and> pending_transfer x) (transfers s) of
        None \<Rightarrow> throw NotFoundException s
      | Some x \<Rightarrow> return () (s\<lparr>transfers := update_where (\<lambda>y. ot_id y = ot_id x) (\<lambda>y. y\<lparr>ot_cancelledAt := Some t\<rparr>) (transfers s)\<rparr>))"

definition getPendingTransfer :: "ident \<Rightarrow> company_db \<Rightarrow> ownership_transfer option" where
  "getPendingTransfer uid s =
     latest_by ot_createdAt (filter (\<lambda>x. ot_companyId x = resolveCompanyId uid s \<and> pending_transfer x) (transfers s))"

section \<open>Settings, limits and statistics\<close>

definition getProofSlaSettings :: "ident \<Rightarrow> company_db \<Rightarrow> exn + (int \<times> proof_sla_action)" where
  "getProofSlaSettings uid s = (case proofSla s uid of None \<Rightarrow> Inl NotFoundException | Some x \<Rightarrow> Inr x)"

definition updateProofSlaSettings :: "ident \<Rightarrow> int option \<Rightarrow> proof_sla_action option \<Rightarrow> company_db \<Rightarrow>
  (company_db, int \<times> proof_sla_action) outcome" where
  "updateProofSlaSettings uid days action s = (case proofSla s uid of
     None \<Rightarrow> throw RecordNotFound s
   | Some (d, a) \<Rightarrow>
       (let x = (case days of None \<Rightarrow> d | Some n \<Rightarrow> n, case action of None \<Rightarrow> a | Some b \<Rightarrow> b)
        in return x (s\<lparr>proofSla := (proofSla s)(uid \<mapsto> x)\<rparr>)))"

definition setMemberSpendingLimit :: "ident \<Rightarrow> ident \<Rightarrow> int option \<Rightarrow> company_db \<Rightarrow> (company_db, unit) outcome" where
  "setMemberSpendingLimit owner memberId limit s =
     (let c = resolveCompanyId owner s
      in if find_member c memberId s = None then throw NotFoundException s
         else return () (s\<lparr>members := update_where (member_of c memberId) (\<lambda>m. m\<lparr>cm_spendingLimit := limit\<rparr>) (members s)\<rparr>))"

definition spent :: "ident \<Rightarrow> company_db \<Rightarrow> int" where
  "spent memberId s = sum_list (map (e_totalAmount \<circ> fst)
     (filter (\<lambda>(e, _). e_clientId e = Some memberId \<and> e_status e \<noteq> CANCELLED) (hiring s)))"

text \<open>The sum is read as a double and added to the request as doubles.\<close>

definition enforceSpendingLimit :: "ident \<Rightarrow> ident \<Rightarrow> int \<Rightarrow> company_db \<Rightarrow> exn + unit" where
  "enforceSpendingLimit owner memberId amount s =
     (case find_member (resolveCompanyId owner s) memberId s of
        None \<Rightarrow> Inr ()
      | Some m \<Rightarrow> (case cm_spendingLimit m of
          None \<Rightarrow> Inr ()
        | Some limit \<Rightarrow>
            if of_int limit < to_double (to_double (of_int (spent memberId s)) + of_int amount)
            then Inl ForbiddenException else Inr ()))"

record engagement_stats =
  st_total :: nat
  st_byStatus :: "(engagement_status \<times> nat) list"
  st_escrowed :: stroops
  st_released :: stroops
  st_avgDays :: rat

definition STATUS_KEYS :: "engagement_status list" where
  "STATUS_KEYS = [ACTIVE, COMPLETED, CANCELLED, PENDING_ACCEPTANCE, REPLACEMENT_REQUESTED, ACCOUNT_MERGED]"

definition stats_range :: "time option \<Rightarrow> time option \<Rightarrow> engagement \<Rightarrow> bool" where
  "stats_range lo hi e \<longleftrightarrow> (case lo of None \<Rightarrow> True | Some a \<Rightarrow> a \<le> e_createdAt e) \<and>
     (case hi of None \<Rightarrow> True | Some b \<Rightarrow> e_createdAt e \<le> b)"

definition days_to_complete :: "engagement \<times> time \<Rightarrow> int" where
  "days_to_complete x = (snd x - e_createdAt (fst x)) div day_ms"

text \<open>\<open>Math.round((sum / n) * 10) / 10\<close>.\<close>

definition average_days :: "int list \<Rightarrow> rat" where
  "average_days ds = (if ds = [] then 0
     else to_double (of_int \<lfloor>to_double (to_double (of_int (sum_list ds) / of_nat (length ds)) * 10) + 1 / 2\<rfloor> / 10))"

definition getEngagementStats :: "ident \<Rightarrow> time option \<Rightarrow> time option \<Rightarrow> company_db \<Rightarrow> engagement_stats" where
  "getEngagementStats uid lo hi s =
     (let c = resolveCompanyId uid s;
          es = filter (\<lambda>(e, _). e_companyId e = Some c \<and> stats_range lo hi e) (hiring s)
      in \<lparr>st_total = length es,
          st_byStatus = map (\<lambda>k. (k, count_where (\<lambda>(e, _). e_status e = k) es)) STATUS_KEYS,
          st_escrowed = sum_list (map (e_totalAmount \<circ> fst) es),
          st_released = sum_list (map (e_releasedAmount \<circ> fst) es),
          st_avgDays = average_days (map days_to_complete (filter (\<lambda>(e, _). e_status e = COMPLETED) es))\<rparr>)"

section \<open>Invitations\<close>

definition INVITE_TTL_DAYS :: int where "INVITE_TTL_DAYS = 7"

definition send_mail :: "company_env \<Rightarrow> string \<Rightarrow> string \<Rightarrow> company_db \<Rightarrow> company_db" where
  "send_mail w to token s = (if mailFails w to then s else s\<lparr>mailed := mailed s @ [(to, token)]\<rparr>)"

definition sendInvite :: "company_env \<Rightarrow> time \<Rightarrow> ident \<Rightarrow> string \<Rightarrow> company_db \<Rightarrow> (company_db, ident) outcome" where
  "sendInvite w t owner to s = (case find_account owner (users s) of
     None \<Rightarrow> throw ForbiddenException s
   | Some a \<Rightarrow>
       if a_role a \<noteq> COMPANY then throw ForbiddenException s
       else (let email = toLowerCase to
             in if find_email email (users s) \<noteq> None then throw ConflictException s
                else (let s1 = s\<lparr>invites := delete_where (\<lambda>i. ti_companyOwnerId i = owner \<and> ti_email i = email \<and> ti_acceptedAt i = None)
                                  (invites s)\<rparr>;
                          n = length (invites s1); token = inviteToken w owner n;
                          i = \<lparr>ti_id = inviteId w n, ti_companyOwnerId = owner, ti_email = email, ti_token = token,
                               ti_expiresAt = t + INVITE_TTL_DAYS * 24 * 60 * 60 * 1000, ti_acceptedAt = None, ti_createdAt = t\<rparr>
                      in if \<exists>x \<in> set (invites s1). ti_token x = token then throw UniqueViolation s1
                         else return (ti_id i) (send_mail w email token (s1\<lparr>invites := invites s1 @ [i]\<rparr>)))))"

text \<open>The transaction of an acceptance: the account and the mark on the invitation.\<close>

definition accept_invite_body :: "company_env \<Rightarrow> time \<Rightarrow> team_invite \<Rightarrow> string \<Rightarrow> string \<Rightarrow> company_db \<Rightarrow> (company_db, ident) outcome" where
  "accept_invite_body w t i name hash s =
     (let uid = accountId (auth_part w) (length (accounts (users s)));
          owner = find_account (ti_companyOwnerId i) (users s);
          a = (blank_account uid (ti_email i) COMPANY)\<lparr>a_passwordHash := Some hash, a_name := Some name,
                 a_company := (case owner of None \<Rightarrow> None | Some x \<Rightarrow> a_company x)\<rparr>
      in (case insert_account a (users s) of
            (Inl e, _) \<Rightarrow> throw e s
          | (Inr _, u) \<Rightarrow> return uid (s\<lparr>users := u, companyOwner := (companyOwner s)(uid \<mapsto> ti_companyOwnerId i),
              invites := update_where (\<lambda>x. ti_id x = ti_id i) (\<lambda>x. x\<lparr>ti_acceptedAt := Some t\<rparr>) (invites s)\<rparr>)))"

definition acceptInvite_team :: "company_env \<Rightarrow> time \<Rightarrow> string \<Rightarrow> string \<Rightarrow> string \<Rightarrow> company_db \<Rightarrow> (company_db, ident) outcome" where
  "acceptInvite_team w t token name password s = (case List.find (\<lambda>i. ti_token i = token) (invites s) of
     None \<Rightarrow> throw NotFoundException s
   | Some i \<Rightarrow>
       if ti_acceptedAt i \<noteq> None then throw BadRequestException s
       else if ti_expiresAt i < t then throw BadRequestException s
       else (case validate_password (policy (auth_part w)) password of
         Inl e \<Rightarrow> throw e s
       | Inr _ \<Rightarrow>
           if find_email (ti_email i) (users s) \<noteq> None then throw ConflictException s
           else (let hash = hashPassword (scrypt (auth_part w)) (randomBytes (auth_part w) (draws (users s)) 16) password;
                     s1 = s\<lparr>users := (users s)\<lparr>draws := draws (users s) + 1\<rparr>\<rparr>
                 in on_unique ConflictException (transaction (accept_invite_body w t i name hash) s1))))"

definition listInvites :: "time \<Rightarrow> ident \<Rightarrow> company_db \<Rightarrow> team_invite list" where
  "listInvites t owner s = rev (sort_key ti_createdAt
     (filter (\<lambda>i. ti_companyOwnerId i = owner \<and> ti_acceptedAt i = None \<and> t < ti_expiresAt i) (invites s)))"

definition revokeInvite :: "ident \<Rightarrow> ident \<Rightarrow> company_db \<Rightarrow> (company_db, unit) outcome" where
  "revokeInvite owner iid s = (case List.find (\<lambda>i. ti_id i = iid) (invites s) of
     None \<Rightarrow> throw NotFoundException s
   | Some i \<Rightarrow>
       if ti_companyOwnerId i \<noteq> owner then throw NotFoundException s
       else if ti_acceptedAt i \<noteq> None then throw BadRequestException s
       else return () (s\<lparr>invites := delete_where (\<lambda>x. ti_id x = iid) (invites s)\<rparr>))"

end
