(* ===== verification/AccountProperties.thy ===== *)
theory AccountProperties
  imports Accounts
begin

text \<open>
  The lockout of \<^verbatim>\<open>modules/auth/auth.service.ts\<close> over sequences of login requests, and what
  registration and impersonation grant.
\<close>

section \<open>What a login does to the accounts\<close>




definition email_of :: "login_dto \<Rightarrow> string" where
  "email_of dto = toLowerCase (lg_email dto)"

lemma accounts_frame [simp]:
  "accounts (log_auth u a s) = accounts s"
  "accounts (snd (issue_tokens w t uid s)) = accounts s"
  "accounts (put_account uid f s) = update_where (\<lambda>a. a_id a = uid) f (accounts s)"
  by (simp_all add: log_auth_def issue_tokens_def put_account_def split: prod.split)

lemma account_find_frame [simp]:
  "find_account u (log_auth v a s) = find_account u s"
  "find_email e (log_auth v a s) = find_email e s"
  "find_email e (snd (issue_tokens w t uid s)) = find_email e s"
  by (simp_all add: find_account_def find_email_def)

definition account_ids_ok :: "auth_db \<Rightarrow> bool" where
  "account_ids_ok s \<longleftrightarrow> distinct (map a_id (accounts s))"




lemma account_ids_put: "(\<And>x. a_id (f x) = a_id x) \<Longrightarrow> account_ids_ok (put_account uid f s) = account_ids_ok s"
  by (simp add: account_ids_ok_def map_update_where_key)

lemma account_ids_frame [simp]:
  "account_ids_ok (log_auth u a s) = account_ids_ok s"
  "account_ids_ok (snd (issue_tokens w t uid s)) = account_ids_ok s"
  by (simp_all add: account_ids_ok_def)

lemma handleFailedLogin_ids [simp]: "account_ids_ok (handleFailedLogin t uid s) = account_ids_ok s"
  by (auto simp: handleFailedLogin_def account_ids_put Let_def split: option.split)

lemma resetFailedAttempts_ids [simp]: "account_ids_ok (resetFailedAttempts uid s) = account_ids_ok s"
  by (simp add: resetFailedAttempts_def account_ids_put)


definition strike :: "time \<Rightarrow> account \<Rightarrow> account" where
  "strike t a = (let n = a_failedLoginAttempts a + 1
     in if MAX_FAILED_ATTEMPTS \<le> n
        then a\<lparr>a_failedLoginAttempts := n, a_lockedUntil := Some (t + LOCKOUT_DURATION_MINUTES * 60 * 1000)\<rparr>
        else a\<lparr>a_failedLoginAttempts := n\<rparr>)"

lemma strike_frame [simp]:
  "a_id (strike t a) = a_id a" "a_passwordHash (strike t a) = a_passwordHash a"
  "a_failedLoginAttempts (strike t a) = a_failedLoginAttempts a + 1"
  by (simp_all add: strike_def Let_def)




definition wrong_password :: "auth_env \<Rightarrow> login_dto \<Rightarrow> account \<Rightarrow> bool" where
  "wrong_password w dto a \<longleftrightarrow> \<not> password_ok w dto (Some a)"

lemma wrong_password_strike [simp]: "wrong_password w dto (strike t a) = wrong_password w dto a"
  by (simp add: wrong_password_def password_ok_def)








text \<open>
  While the lock holds, the answer still tells a right password from a wrong one: the password is
  checked first.
\<close>

lemma lock_reveals_the_password:
  assumes "find_email (email_of dto) s = Some a" and "locked t a" and "a_deactivatedAt a = None"
  shows "fst (login w t dto s) =
    (if password_ok w dto (Some a) then Inl TooManyRequestsException else Inl UnauthorizedException)"
  using assms by (simp add: login_def Let_def email_of_def)

section \<open>Registration\<close>

lemma insert_account_cases:
  "insert_account a s = throw UniqueViolation s \<or>
   insert_account a s = return () (s\<lparr>accounts := accounts s @ [a]\<rparr>) \<and> find_email (the (a_email a)) s = None" if "a_email a \<noteq> None"
  using that by (auto simp: insert_account_def find_email_def find_None collides_def)

definition registered_account :: "auth_env \<Rightarrow> register_dto \<Rightarrow> auth_db \<Rightarrow> account" where
  "registered_account w dto s =
     (blank_account (accountId w (length (accounts s))) (toLowerCase (rg_email dto))
        (case rg_role dto of None \<Rightarrow> COMPANY | Some r \<Rightarrow> r))
       \<lparr>a_passwordHash := Some (hashPassword (scrypt w) (randomBytes w (draws s) 16) (rg_password dto)),
        a_stellarAddress := rg_stellarAddress dto, a_name := rg_name dto, a_company := rg_company dto\<rparr>"

lemma register_Inr:
  assumes "register w t dto s = (Inr tok, s')"
  shows "accounts s' = accounts s @ [registered_account w dto s] \<and> find_email (toLowerCase (rg_email dto)) s = None \<and>
    validate_password (policy w) (rg_password dto) = Inr ()"
proof -
  let ?a = "registered_account w dto s" and ?s1 = "s\<lparr>draws := draws s + 1\<rparr>"
  have mail: "a_email ?a = Some (toLowerCase (rg_email dto))" by (simp add: registered_account_def blank_account_def)
  have f1: "find_email e ?s1 = find_email e s" for e by (simp add: find_email_def)
  define create where "create = and_then (on_unique ConflictException (insert_account ?a ?s1))
      (\<lambda>_ s2. issue_tokens w t (accountId w (length (accounts s))) s2)"
  have "validate_password (policy w) (rg_password dto) = Inr () \<and> create = (Inr tok, s')"
    using assms by (cases "validate_password (policy w) (rg_password dto)")
      (auto simp: register_def create_def registered_account_def Let_def split: sum.splits if_splits bool.splits)
  moreover from this have ins: "insert_account ?a ?s1 = return () (?s1\<lparr>accounts := accounts ?s1 @ [?a]\<rparr>)"
    "find_email (toLowerCase (rg_email dto)) s = None"
    using insert_account_cases [of ?a ?s1] mail f1 by (auto simp: create_def on_unique_def throw_def)
  ultimately have "issue_tokens w t (accountId w (length (accounts s))) (?s1\<lparr>accounts := accounts ?s1 @ [?a]\<rparr>) = (Inr tok, s')"
    by (simp add: create_def on_unique_def return_def)
  then have "accounts s' = accounts s @ [?a]"
    using accounts_frame(2) [of w t "accountId w (length (accounts s))" "?s1\<lparr>accounts := accounts ?s1 @ [?a]\<rparr>"] by simp
  with ins(2) \<open>validate_password (policy w) (rg_password dto) = Inr () \<and> create = (Inr tok, s')\<close> show ?thesis by simp
qed

section \<open>Properties\<close>



text \<open>
  A registration that succeeds adds one account, under an address no other account has and with
  a password that meets the policy; the account has whatever role the request names, the
  administrator's included; and the same address, in any case, with the same password is not refused
  at the next login.
\<close>
lemma registered_accounts_can_log_in:
  assumes "register w t dto s = (Inr tok, s')" and "\<And>k n. randomBytes w k n \<noteq> []" and "\<And>p salt. scrypt w p salt \<noteq> []"
    and "email_of ldto = toLowerCase (rg_email dto)" and "lg_password ldto = rg_password dto"
  shows "\<exists>a. accounts s' = accounts s @ [a] \<and> find_email (toLowerCase (rg_email dto)) s = None \<and>
    getUnmetRequirements (getPolicy (policy w)) (rg_password dto) = [] \<and>
    a_role a = (case rg_role dto of None \<Rightarrow> COMPANY | Some r \<Rightarrow> r) \<and>
    fst (login w t' ldto s') \<notin> {Inl UnauthorizedException, Inl ForbiddenException, Inl TooManyRequestsException}"
proof -
  let ?a = "registered_account w dto s"
  note reg = register_Inr [OF assms(1)]
  have find: "find_email (email_of ldto) s' = Some ?a"
    using reg assms(4) by (simp add: find_email_def find_append registered_account_def blank_account_def)
  have fields: "a_deactivatedAt ?a = None" "\<not> locked t' ?a" "\<not> a_totpEnabled ?a"
    "a_role ?a = (case rg_role dto of None \<Rightarrow> COMPANY | Some r \<Rightarrow> r)"
    "a_passwordHash ?a = Some (hashPassword (scrypt w) (randomBytes w (draws s) 16) (rg_password dto))"
    by (simp_all add: registered_account_def blank_account_def locked_def)
  have "hashPassword (scrypt w) (randomBytes w (draws s) 16) (rg_password dto) \<noteq> []"
    by (simp add: hashPassword_def Let_def)
  then have pw: "password_ok w ldto (Some ?a)"
    using assms(2,3,5) by (simp add: password_ok_def fields verifyPassword_def split_hash Let_def)
  have issue: "fst (issue_tokens w t' u x) \<notin> {Inl UnauthorizedException, Inl ForbiddenException, Inl TooManyRequestsException}" for u x
    by (auto simp: issue_tokens_def issueTokenPair_def insert_token_def Let_def split: prod.splits)
  have "fst (login w t' ldto s') \<notin> {Inl UnauthorizedException, Inl ForbiddenException, Inl TooManyRequestsException}"
    using find fields pw issue by (simp add: login_def Let_def email_of_def)
  with reg fields show ?thesis by (auto simp: validate_password_def split: if_splits)
qed

section \<open>An example\<close>

definition auth_env1 :: auth_env where
  "auth_env1 = \<lparr>session_part = session_env1, scrypt = toy_scrypt, randomBytes = (\<lambda>_ n. replicate (n + 1) 7),
     accountId = (\<lambda>n. replicate (n + 1) (CHR ''u'')), totpValid = (\<lambda>_ c _. c = ''123456''),
     accountExists = (\<lambda>_. Inr True), skipAccountValidation = True,
     policy = \<lparr>PASSWORD_MIN_LENGTH = 8, PASSWORD_REQUIRE_UPPERCASE = Unset, PASSWORD_REQUIRE_LOWERCASE = Unset,
       PASSWORD_REQUIRE_NUMBER = TextFlag ''no'', PASSWORD_REQUIRE_SPECIAL = BoolFlag False\<rparr>,
     nonceText = (\<lambda>a _. a)\<rparr>"

definition no_accounts :: auth_db where
  "no_accounts = \<lparr>accounts = [], sessions = no_sessions, nonces = (\<lambda>_. None), draws = 0\<rparr>"

definition ada_dto :: register_dto where
  "ada_dto = \<lparr>rg_email = ''Ada@x.io'', rg_password = ''Longenough'', rg_stellarAddress = None, rg_name = None,
     rg_company = None, rg_role = Some ADMIN\<rparr>"

definition ada_login :: "string \<Rightarrow> login_dto" where
  "ada_login pw = \<lparr>lg_email = ''ADA@x.io'', lg_password = pw, lg_totpCode = None\<rparr>"

definition ada_registered :: auth_db where
  "ada_registered = snd (register auth_env1 0 ada_dto no_accounts)"

lemma registered_accounts_can_log_in_witness:
  "fst (login auth_env1 5000 (ada_login ''Longenough'') ada_registered) \<noteq> Inl UnauthorizedException \<and>
   map a_role (accounts ada_registered) = [ADMIN]"
proof -
  have "fst (register auth_env1 0 ada_dto no_accounts) = Inr ''u..''" by code_simp
  then have "register auth_env1 0 ada_dto no_accounts = (Inr ''u..'', ada_registered)"
    by (simp add: ada_registered_def prod_eq_iff)
  moreover have "email_of (ada_login ''Longenough'') = toLowerCase (rg_email ada_dto)" by code_simp
  moreover have "lg_password (ada_login ''Longenough'') = rg_password ada_dto" by (simp add: ada_login_def ada_dto_def)
  ultimately have "\<exists>a. accounts ada_registered = accounts no_accounts @ [a] \<and>
      a_role a = (case rg_role ada_dto of None \<Rightarrow> COMPANY | Some r \<Rightarrow> r) \<and>
      fst (login auth_env1 5000 (ada_login ''Longenough'') ada_registered) \<notin>
        {Inl UnauthorizedException, Inl ForbiddenException, Inl TooManyRequestsException}"
    using registered_accounts_can_log_in [where t = 0 and t' = 5000 and w = auth_env1 and s = no_accounts and s' = ada_registered
        and dto = ada_dto and ldto = "ada_login ''Longenough''" and tok = "''u..''"]
    by (auto simp: auth_env1_def toy_scrypt_def)
  then show ?thesis by (auto simp: no_accounts_def ada_dto_def)
qed


end
