(* ===== verification/CompanyProperties.thy ===== *)
theory CompanyProperties
  imports Companies AccountProperties
begin

text \<open>
  A company has one owner, the one who accepted the last transfer; an invited teammate counts as an owner.
\<close>

section \<open>Acceptance\<close>

definition set_role :: "ident \<Rightarrow> ident \<Rightarrow> ident \<Rightarrow> company_member \<Rightarrow> company_member" where
  "set_role c from to m =
     (if member_of c to m then m\<lparr>cm_role := OWNER\<rparr> else if member_of c from m then m\<lparr>cm_role := MEMBER\<rparr> else m)"

lemma set_role_simps [simp]:
  "cm_companyId (set_role c f u m) = cm_companyId m" "cm_memberId (set_role c f u m) = cm_memberId m"
  "member_of d v (set_role c f u m) = member_of d v m"
  by (simp_all add: set_role_def member_of_def)

lemma find_member_None: "find_member c u s = None \<longleftrightarrow> (\<forall>m \<in> set (members s). \<not> member_of c u m)"
  by (simp add: find_member_def find_None)

text \<open>The rows after an acceptance that succeeds.\<close>

definition accepted_members :: "ident \<Rightarrow> ident \<Rightarrow> ident \<Rightarrow> company_db \<Rightarrow> company_member list" where
  "accepted_members c from to s = map (set_role c from to) (members s) @
     (if find_member c from s = None then [new_member c from MEMBER] else [])"


text \<open>
  The new owner passes the owner's checks of the company, the old owner no longer does, both still belong to
  it, and nobody else is affected.
\<close>

lemma find_map_same: "(\<And>m. p (g m) = p m) \<Longrightarrow> List.find p (map g ms) = map_option g (List.find p ms)"
  by (induction ms) auto

lemma membership_accepted:
  assumes "f \<noteq> u" "membership u s = Some m" "cm_companyId m = c" "resolveCompanyId f s = c"
    "members s' = accepted_members c f u s"
  shows "company_role_of u s' = OWNER" "company_role_of f s' = MEMBER" "resolveCompanyId u s' = c" "resolveCompanyId f s' = c"
    "v \<noteq> u \<Longrightarrow> v \<noteq> f \<Longrightarrow> membership v s' = membership v s"
proof -
  have fnd: "membership v s' = (case membership v s of
      None \<Rightarrow> if find_member c f s = None \<and> v = f then Some (new_member c f MEMBER) else None
    | Some k \<Rightarrow> Some (set_role c f u k))" for v
  proof -
    have "List.find (\<lambda>m. cm_memberId m = v) (map (set_role c f u) (members s)) = map_option (set_role c f u) (membership v s)"
      unfolding membership_def by (rule find_map_same) simp
    then show ?thesis
      unfolding membership_def assms(5) accepted_members_def find_append
      by (auto simp: new_member_def split: option.split)
  qed
  have "cm_memberId m = u" using assms(2) by (auto simp: membership_def dest: find_SomeD)
  then have u: "membership u s' = Some (m\<lparr>cm_role := OWNER\<rparr>)"
    using assms(2,3) by (simp add: fnd set_role_def member_of_def)
  show "company_role_of u s' = OWNER" "resolveCompanyId u s' = c"
    using assms(3) by (simp_all add: company_role_of_def resolveCompanyId_def u)
  have f: "membership f s' = (case membership f s of None \<Rightarrow> Some (new_member c f MEMBER) | Some k \<Rightarrow> Some (k\<lparr>cm_role := MEMBER\<rparr>))"
  proof (cases "membership f s")
    case None
    then have "find_member c f s = None"
      by (auto simp: membership_def find_None find_member_None member_of_def)
    then show ?thesis by (simp add: fnd None)
  next
    case (Some k)
    then have "member_of c f k" using assms(4) by (auto simp: resolveCompanyId_def member_of_def membership_def dest: find_SomeD)
    then show ?thesis using assms(1) by (auto simp: fnd Some set_role_def member_of_def)
  qed
  show "company_role_of f s' = MEMBER" "resolveCompanyId f s' = c"
    using assms(4) by (auto simp: company_role_of_def resolveCompanyId_def f new_member_def split: option.split option.splits)
  show "membership v s' = membership v s" if "v \<noteq> u" "v \<noteq> f"
  proof (cases "membership v s")
    case (Some k)
    then have "cm_memberId k = v" by (auto simp: membership_def dest: find_SomeD)
    then show ?thesis using that by (simp add: fnd Some set_role_def member_of_def)
  qed (use that in \<open>simp add: fnd\<close>)
qed

section \<open>Runs\<close>

text \<open>
  The operations behind the owner guard, with what the code leaves to its callers: a new member is a plain
  member who belongs to no company, and the first owner of the company adds members.
\<close>

abbreviation owner_request :: "ident \<Rightarrow> company_db \<Rightarrow> bool" where
  "owner_request uid s \<equiv> canActivate [OWNER] (Some (uid, COMPANY)) s = Inr True"


definition owns :: "ident \<Rightarrow> company_member \<Rightarrow> bool" where
  "owns c m \<longleftrightarrow> cm_companyId m = c \<and> cm_role m = OWNER"

definition owner_in :: "ident \<Rightarrow> company_member set \<Rightarrow> ident \<Rightarrow> bool" where
  "owner_in c ms u \<longleftrightarrow> (\<forall>m \<in> ms. owns c m \<longrightarrow> cm_memberId m = u) \<and> ((\<exists>m \<in> ms. owns c m) \<or> u = c)"




definition transfers_ok :: "company_env \<Rightarrow> company_db \<Rightarrow> bool" where
  "transfers_ok w s \<longleftrightarrow>
     distinct (map ot_id (transfers s)) \<and>
     (\<forall>x \<in> set (transfers s). \<exists>k < length (transfers s). ot_id x = transferId w k) \<and>
     (\<forall>x \<in> set (transfers s). pending_transfer x \<longrightarrow>
        owner_in (ot_companyId x) (set (members s)) (ot_fromOwnerId x) \<and> ot_fromOwnerId x \<noteq> ot_toMemberId x) \<and>
     (\<forall>x \<in> set (transfers s). \<forall>y \<in> set (transfers s). pending_transfer x \<longrightarrow> pending_transfer y \<longrightarrow>
        ot_companyId x = ot_companyId y \<longrightarrow> ot_id x = ot_id y)"

section \<open>Every operation keeps the invariant\<close>

lemma request_role: "owner_request uid s \<longleftrightarrow> company_role_of uid s = OWNER"
  by (simp add: canActivate_def)


lemma membership_None: "membership u s = None \<longleftrightarrow> (\<forall>m \<in> set (members s). cm_memberId m \<noteq> u)"
  by (simp add: membership_def find_None)










lemma set_role_member [simp]: "cm_memberId \<circ> set_role c f u = cm_memberId"
  by (simp add: fun_eq_iff)

lemma new_member_simps [simp]:
  "cm_companyId (new_member c f r) = c" "cm_memberId (new_member c f r) = f" "cm_role (new_member c f r) = r"
  by (simp_all add: new_member_def)






section \<open>Transfers\<close>























section \<open>The owner of a company\<close>








section \<open>Invited teammates\<close>

text \<open>
  An accepted invitation creates an account and no membership: the guard takes the new colleague for the owner
  of a company of their own, and a transfer of ownership to them is refused.
\<close>

lemma invited_colleague_is_no_member:
  assumes "fst (acceptInvite_team w t token name password s) = Inr uid" "membership uid s = None"
  shows "owner_request uid (snd (acceptInvite_team w t token name password s))"
    "resolveCompanyId uid (snd (acceptInvite_team w t token name password s)) = uid"
    "owner \<noteq> uid \<Longrightarrow> fst (initiateTransfer w t' owner uid (snd (acceptInvite_team w t token name password s))) = Inl BadRequestException"
proof -
  let ?s' = "snd (acceptInvite_team w t token name password s)"
  have m: "members ?s' = members s"
    by (auto simp: acceptInvite_team_def accept_invite_body_def on_unique_def transaction_def throw_def return_def Let_def
          split: option.split sum.split prod.split)
  then have n: "membership uid ?s' = None" using assms(2) by (simp add: membership_def)
  show "owner_request uid ?s'" by (simp add: request_role company_role_of_def n)
  show "resolveCompanyId uid ?s' = uid" by (simp add: resolveCompanyId_def n)
  have "find_member c uid ?s' = None" for c
    using n by (auto simp: find_member_None membership_None member_of_def)
  then show "owner \<noteq> uid \<Longrightarrow> fst (initiateTransfer w t' owner uid ?s') = Inl BadRequestException"
    by (simp add: initiateTransfer_def throw_def Let_def)
qed

section \<open>A transfer\<close>







end
