(* ===== verification/TwoFactor.thy ===== *)
theory TwoFactor
  imports Accounts
begin

text \<open>
  \<^verbatim>\<open>modules/auth/two-factor.service.ts\<close>: enrolment with recovery codes, their consumption, and
  trusted devices; and \<^verbatim>\<open>modules/auth/api-keys.service.ts\<close> with the scope guard
  (\<^verbatim>\<open>common/guards/api-key-scopes.guard.ts\<close>).  SHA-256 is the parameter \<open>sha256\<close>.
\<close>

record recovery_code =
  rc_id :: ident
  rc_userId :: ident
  rc_codeHash :: string
  rc_usedAt :: "time option"

record trusted_device =
  td_id :: ident
  td_userId :: ident
  td_tokenHash :: string
  td_name :: "string option"
  td_lastUsedAt :: time
  td_expiresAt :: time
  td_revokedAt :: "time option"
  td_createdAt :: time

record api_key =
  ak_id :: ident
  ak_name :: string
  ak_keyPrefix :: string
  ak_keyHash :: string
  ak_userId :: ident
  ak_companyId :: "ident option"
  ak_scopes :: "string list"
  ak_expiresAt :: "time option"
  ak_revokedAt :: "time option"
  ak_lastUsedAt :: "time option"
  ak_createdAt :: time

record tf_db =
  authdb :: auth_db
  recoveryCodes :: "recovery_code list"
  trustedDevices :: "trusted_device list"
  apiKeys :: "api_key list"
  tf_seq :: nat

record tf_env =
  authenv :: auth_env
  sha256 :: "string \<Rightarrow> string"
  rowName :: "nat \<Rightarrow> ident"
  trustedDeviceDays :: int

section \<open>Recovery codes\<close>

definition recovery_code_text :: "8 word list \<Rightarrow> 8 word list \<Rightarrow> string" where
  "recovery_code_text a b = map upper_char (to_hex a) @ ''-'' @ map upper_char (to_hex b)"

definition draw_codes :: "auth_env \<Rightarrow> nat \<Rightarrow> string list" where
  "draw_codes w k = map (\<lambda>i. recovery_code_text (randomBytes w (k + 2 * i) 5) (randomBytes w (k + 2 * i + 1) 5)) [0..<10]"

definition createRecoveryCodes :: "tf_env \<Rightarrow> ident \<Rightarrow> tf_db \<Rightarrow> tf_db \<times> string list" where
  "createRecoveryCodes w uid s =
     (let codes = draw_codes (authenv w) (draws (authdb s));
          rows = map (\<lambda>i. \<lparr>rc_id = rowName w (tf_seq s + i), rc_userId = uid, rc_codeHash = sha256 w (codes ! i),
                          rc_usedAt = None\<rparr>) [0..<length codes]
      in (s\<lparr>authdb := (authdb s)\<lparr>draws := draws (authdb s) + 20\<rparr>,
            recoveryCodes := delete_where (\<lambda>r. rc_userId r = uid) (recoveryCodes s) @ rows,
            tf_seq := tf_seq s + length codes\<rparr>, codes))"

definition on_auth :: "(auth_db \<Rightarrow> (auth_db, 'a) outcome) \<Rightarrow> tf_db \<Rightarrow> (tf_db, 'a) outcome" where
  "on_auth f s = (let (r, a) = f (authdb s) in (r, s\<lparr>authdb := a\<rparr>))"

definition tf_generateTotpSecret :: "tf_env \<Rightarrow> ident \<Rightarrow> tf_db \<Rightarrow> (tf_db, string) outcome" where
  "tf_generateTotpSecret w uid = on_auth (generateTotpSecret (authenv w) uid)"

definition tf_enableTotp :: "tf_env \<Rightarrow> time \<Rightarrow> ident \<Rightarrow> string \<Rightarrow> tf_db \<Rightarrow> (tf_db, string list) outcome" where
  "tf_enableTotp w t uid code s =
     and_then (on_auth (enableTotp (authenv w) t uid code) s)
       (\<lambda>_ s1. let (s2, codes) = createRecoveryCodes w uid s1 in return codes s2)"

definition tf_disableTotp :: "tf_env \<Rightarrow> time \<Rightarrow> ident \<Rightarrow> string \<Rightarrow> tf_db \<Rightarrow> (tf_db, unit) outcome" where
  "tf_disableTotp w t uid code = on_auth (disableTotp (authenv w) t uid code)"

definition regenerateRecoveryCodes :: "tf_env \<Rightarrow> time \<Rightarrow> ident \<Rightarrow> string \<Rightarrow> tf_db \<Rightarrow> (tf_db, string list) outcome" where
  "regenerateRecoveryCodes w t uid code s = (case find_account uid (authdb s) of
     None \<Rightarrow> throw BadRequestException s
   | Some a \<Rightarrow>
       if \<not> a_totpEnabled a then throw BadRequestException s
       else if \<not> totpValid (authenv w) (a_totpSecret a) code t then throw UnauthorizedException s
       else (let (s1, codes) = createRecoveryCodes w uid s in return codes s1))"

definition unused_code :: "ident \<Rightarrow> string \<Rightarrow> recovery_code \<Rightarrow> bool" where
  "unused_code uid h r \<longleftrightarrow> rc_userId r = uid \<and> rc_codeHash r = h \<and> rc_usedAt r = None"

definition consumeRecoveryCode :: "tf_env \<Rightarrow> time \<Rightarrow> ident \<Rightarrow> string \<Rightarrow> tf_db \<Rightarrow> tf_db \<times> bool" where
  "consumeRecoveryCode w t uid rawCode s =
     (let h = sha256 w (map upper_char (trim rawCode))
      in case List.find (unused_code uid h) (recoveryCodes s) of
           None \<Rightarrow> (s, False)
         | Some r \<Rightarrow> (s\<lparr>recoveryCodes := update_where (\<lambda>x. rc_id x = rc_id r) (\<lambda>x. x\<lparr>rc_usedAt := Some t\<rparr>) (recoveryCodes s)\<rparr>, True))"

section \<open>Trusted devices\<close>

definition issueTrustedDeviceToken :: "tf_env \<Rightarrow> time \<Rightarrow> ident \<Rightarrow> string option \<Rightarrow> tf_db \<Rightarrow> (tf_db, string) outcome" where
  "issueTrustedDeviceToken w t uid userAgent s =
     (let rawToken = to_hex (randomBytes (authenv w) (draws (authdb s)) 32);
          s1 = s\<lparr>authdb := (authdb s)\<lparr>draws := draws (authdb s) + 1\<rparr>\<rparr>;
          d = \<lparr>td_id = rowName w (tf_seq s), td_userId = uid, td_tokenHash = sha256 w rawToken,
               td_name = (if truthy userAgent then map_option (take 120) userAgent else None), td_lastUsedAt = t,
               td_expiresAt = t + trustedDeviceDays w * day_ms, td_revokedAt = None, td_createdAt = t\<rparr>
      in if \<exists>x \<in> set (trustedDevices s). td_tokenHash x = td_tokenHash d then throw UniqueViolation s1
         else return rawToken (s1\<lparr>trustedDevices := trustedDevices s @ [d], tf_seq := tf_seq s + 1\<rparr>))"

definition verifyTrustedDeviceToken :: "tf_env \<Rightarrow> time \<Rightarrow> ident \<Rightarrow> string \<Rightarrow> tf_db \<Rightarrow> tf_db \<times> bool" where
  "verifyTrustedDeviceToken w t uid rawToken s =
     (case List.find (\<lambda>d. td_tokenHash d = sha256 w rawToken) (trustedDevices s) of
        None \<Rightarrow> (s, False)
      | Some d \<Rightarrow>
          if td_userId d \<noteq> uid \<or> td_revokedAt d \<noteq> None \<or> td_expiresAt d \<le> t then (s, False)
          else (s\<lparr>trustedDevices := update_where (\<lambda>x. td_id x = td_id d) (\<lambda>x. x\<lparr>td_lastUsedAt := t\<rparr>) (trustedDevices s)\<rparr>, True))"

definition listTrustedDevices :: "time \<Rightarrow> ident \<Rightarrow> tf_db \<Rightarrow> trusted_device list" where
  "listTrustedDevices t uid s = rev (sort_key td_lastUsedAt
     (filter (\<lambda>d. td_userId d = uid \<and> td_revokedAt d = None \<and> t < td_expiresAt d) (trustedDevices s)))"

definition revokeTrustedDevice :: "time \<Rightarrow> ident \<Rightarrow> ident \<Rightarrow> tf_db \<Rightarrow> (tf_db, unit) outcome" where
  "revokeTrustedDevice t did uid s = (case List.find (\<lambda>d. td_id d = did) (trustedDevices s) of
     None \<Rightarrow> throw BadRequestException s
   | Some d \<Rightarrow>
       if td_userId d \<noteq> uid then throw ForbiddenException s
       else if td_revokedAt d \<noteq> None then throw BadRequestException s
       else return () (s\<lparr>trustedDevices := update_where (\<lambda>x. td_id x = did) (\<lambda>x. x\<lparr>td_revokedAt := Some t\<rparr>) (trustedDevices s)\<rparr>))"

section \<open>API keys\<close>

record api_key_dto =
  kd_userId :: ident
  kd_name :: string
  kd_companyId :: "ident option"
  kd_scopes :: "string list option"
  kd_expiresAt :: "time option"

definition create_api_key :: "tf_env \<Rightarrow> time \<Rightarrow> api_key_dto \<Rightarrow> tf_db \<Rightarrow> (tf_db, string) outcome" where
  "create_api_key w t dto s = (case find_account (kd_userId dto) (authdb s) of
     None \<Rightarrow> throw NotFoundException s
   | Some a \<Rightarrow>
       if a_deletedAt a \<noteq> None \<or> a_deactivatedAt a \<noteq> None then throw NotFoundException s
       else (let rawKey = ''hs_'' @ to_hex (randomBytes (authenv w) (draws (authdb s)) 32);
                 s1 = s\<lparr>authdb := (authdb s)\<lparr>draws := draws (authdb s) + 1\<rparr>\<rparr>;
                 k = \<lparr>ak_id = rowName w (tf_seq s), ak_name = kd_name dto, ak_keyPrefix = take 11 rawKey,
                      ak_keyHash = sha256 w rawKey, ak_userId = a_id a,
                      ak_companyId = Some (case kd_companyId dto of None \<Rightarrow> a_id a | Some c \<Rightarrow> c),
                      ak_scopes = (case kd_scopes dto of None \<Rightarrow> [] | Some x \<Rightarrow> x), ak_expiresAt = kd_expiresAt dto,
                      ak_revokedAt = None, ak_lastUsedAt = None, ak_createdAt = t\<rparr>
             in if le_opt (kd_expiresAt dto) t then throw BadRequestException s1
                else if \<exists>x \<in> set (apiKeys s). ak_keyHash x = ak_keyHash k then throw UniqueViolation s1
                else return rawKey (s1\<lparr>apiKeys := apiKeys s @ [k], tf_seq := tf_seq s + 1\<rparr>)))"

definition list_api_keys :: "ident option \<Rightarrow> tf_db \<Rightarrow> api_key list" where
  "list_api_keys uid s = rev (sort_key ak_createdAt
     (filter (\<lambda>k. truthy uid \<longrightarrow> Some (ak_userId k) = uid) (apiKeys s)))"

definition revoke_api_key :: "time \<Rightarrow> ident \<Rightarrow> tf_db \<Rightarrow> (tf_db, unit) outcome" where
  "revoke_api_key t kid s = (case List.find (\<lambda>k. ak_id k = kid) (apiKeys s) of
     None \<Rightarrow> throw NotFoundException s
   | Some k \<Rightarrow>
       if ak_revokedAt k \<noteq> None then throw BadRequestException s
       else return () (s\<lparr>apiKeys := update_where (\<lambda>x. ak_id x = kid) (\<lambda>x. x\<lparr>ak_revokedAt := Some t\<rparr>) (apiKeys s)\<rparr>))"

record key_user =
  ku_id :: ident
  ku_role :: user_role
  ku_companyId :: "ident option"
  ku_apiKeyId :: ident
  ku_scopes :: "string list"

definition authenticate_key :: "tf_env \<Rightarrow> time \<Rightarrow> string \<Rightarrow> tf_db \<Rightarrow> (tf_db, key_user) outcome" where
  "authenticate_key w t rawKey s =
     (if rawKey = [] then throw UnauthorizedException s
      else (case List.find (\<lambda>k. ak_keyHash k = sha256 w rawKey) (apiKeys s) of
        None \<Rightarrow> throw UnauthorizedException s
      | Some k \<Rightarrow> (case find_account (ak_userId k) (authdb s) of
          None \<Rightarrow> throw TypeErrorExn s
        | Some a \<Rightarrow>
            if ak_revokedAt k \<noteq> None then throw UnauthorizedException s
            else if le_opt (ak_expiresAt k) t then throw UnauthorizedException s
            else if a_deactivatedAt a \<noteq> None \<or> a_deletedAt a \<noteq> None then throw UnauthorizedException s
            else return \<lparr>ku_id = a_id a, ku_role = a_role a, ku_companyId = ak_companyId k, ku_apiKeyId = ak_id k,
                         ku_scopes = ak_scopes k\<rparr>
                   (s\<lparr>apiKeys := update_where (\<lambda>x. ak_id x = ak_id k) (\<lambda>x. x\<lparr>ak_lastUsedAt := Some t\<rparr>) (apiKeys s)\<rparr>))))"

text \<open>The scope guard; \<open>None\<close> is a request that did not come with an API key.\<close>

definition scopes_guard :: "string list option \<Rightarrow> key_user option \<Rightarrow> exn + bool" where
  "scopes_guard required user = (case required of
     None \<Rightarrow> Inr True
   | Some rs \<Rightarrow>
       if rs = [] then Inr True
       else (case user of
               None \<Rightarrow> Inr True
             | Some u \<Rightarrow>
                 if ku_scopes u = [] then Inr True
                 else if list_ex (\<lambda>r. r \<in> set (ku_scopes u)) rs then Inr True
                 else Inl ForbiddenException))"

section \<open>Lemmas\<close>

text \<open>Each success uses up a code: a set of codes admits at most as many logins as it has unused ones.\<close>

fun consume_all :: "tf_env \<Rightarrow> (time \<times> ident \<times> string) list \<Rightarrow> tf_db \<Rightarrow> tf_db \<times> bool list" where
  "consume_all w [] s = (s, [])"
| "consume_all w ((t, uid, code) # reqs) s =
     (let (s1, b) = consumeRecoveryCode w t uid code s; (s2, bs) = consume_all w reqs s1 in (s2, b # bs))"

definition unused_codes :: "tf_db \<Rightarrow> nat" where
  "unused_codes s = count_where (\<lambda>r. rc_usedAt r = None) (recoveryCodes s)"

lemma count_where_marking:
  assumes "r \<in> set rs" and "p r" and "k r" and "\<And>x. \<not> p (f x)"
  shows "count_where p (update_where k f rs) < count_where p rs"
proof -
  have le: "count_where p (update_where k f xs) \<le> count_where p xs" for xs
    using assms(4) by (induction xs) auto
  show ?thesis using assms(1)
  proof (induction rs)
    case (Cons x xs)
    show ?case
    proof (cases "x = r")
      case True
      then show ?thesis using le [of xs] assms(2-4) by simp
    next
      case False
      with Cons assms(4) show ?thesis by auto
    qed
  qed simp
qed

lemma consume_uses_up:
  "unused_codes (fst (consumeRecoveryCode w t uid code s)) + (if snd (consumeRecoveryCode w t uid code s) then 1 else 0)
     \<le> unused_codes s"
proof (cases "List.find (unused_code uid (sha256 w (map upper_char (trim code)))) (recoveryCodes s)")
  case None
  then show ?thesis by (simp add: consumeRecoveryCode_def Let_def)
next
  case (Some r)
  from find_SomeD [OF this] have r: "r \<in> set (recoveryCodes s)" "rc_usedAt r = None" by (auto simp: unused_code_def)
  from count_where_marking [where p = "\<lambda>r. rc_usedAt r = None" and k = "\<lambda>x. rc_id x = rc_id r" and f = "\<lambda>x. x\<lparr>rc_usedAt := Some t\<rparr>", OF r]
  show ?thesis using Some by (simp add: consumeRecoveryCode_def Let_def unused_codes_def)
qed

lemma recovery_logins_bounded:
  "length (filter id (snd (consume_all w reqs s))) \<le> unused_codes s"
proof (induction w reqs s rule: consume_all.induct)
  case (2 w t uid code reqs s)
  obtain s1 b where c: "consumeRecoveryCode w t uid code s = (s1, b)" by fastforce
  obtain s2 bs where cs: "consume_all w reqs s1 = (s2, bs)" by fastforce
  show ?case using 2 [OF c [symmetric] refl] consume_uses_up [of w t uid code s] c cs by auto
qed simp

lemma revoked_key_refused:
  assumes "List.find (\<lambda>k. ak_keyHash k = sha256 w raw) (apiKeys s) = Some k"
    and "find_account (ak_userId k) (authdb s) \<noteq> None" and "ak_revokedAt k \<noteq> None \<or> le_opt (ak_expiresAt k) t"
  shows "fst (authenticate_key w t raw s) = Inl UnauthorizedException"
  using assms by (auto simp: authenticate_key_def)

lemma scope_needed:
  "scopes_guard required (Some u) = Inr True \<longleftrightarrow>
     required = None \<or> required = Some [] \<or> ku_scopes u = [] \<or> (\<exists>rs. required = Some rs \<and> set rs \<inter> set (ku_scopes u) \<noteq> {})"
  by (auto simp: scopes_guard_def list_ex_iff split: option.split)

end
