(* ===== verification/StellarAmounts.thy ===== *)
theory StellarAmounts
  imports Doubles
begin

text \<open>
  \<^verbatim>\<open>common/stellar/stellar.service.ts\<close>, the utilities: amounts between stroops and decimal strings,
  the token allow-list, balances and account existence read from Horizon.

  The conversions to decimal strings pass through a JavaScript number; a number of 10^21 or more, which
  \<open>toFixed\<close> prints in exponent notation, is printed by the parameter \<open>showBig\<close>.
\<close>

section \<open>Amounts\<close>

record token_config =
  tc_address :: string
  tc_symbol :: string
  tc_decimals :: nat

definition isTokenAllowed :: "token_config list \<Rightarrow> string \<Rightarrow> bool" where
  "isTokenAllowed tokens addr = list_ex (\<lambda>t. tc_address t = addr) tokens"

definition getTokenConfig :: "token_config list \<Rightarrow> string \<Rightarrow> exn + token_config" where
  "getTokenConfig tokens addr = (case List.find (\<lambda>t. tc_address t = addr) tokens of
     None \<Rightarrow> Inl BadRequestException | Some t \<Rightarrow> Inr t)"

definition decimal_text :: "nat \<Rightarrow> int \<Rightarrow> string" where
  "decimal_text d value =
     show_int (big_div value (10 ^ d)) @ ''.'' @ padStart d (CHR ''0'') (show_int (big_mod value (10 ^ d)))"

definition stroopsToHuman :: "(rat \<Rightarrow> string) \<Rightarrow> token_config list \<Rightarrow> int \<Rightarrow> string \<Rightarrow> nat option \<Rightarrow> exn + string" where
  "stroopsToHuman showBig tokens value token override =
     (let decimals = (case override of
            Some (Suc n) \<Rightarrow> Inr (Suc n)
          | _ \<Rightarrow> (case getTokenConfig tokens token of Inl e \<Rightarrow> Inl e | Inr c \<Rightarrow> Inr (tc_decimals c)))
      in case decimals of
           Inl e \<Rightarrow> Inl e
         | Inr d \<Rightarrow> Inr (toFixed showBig d (parseFloat (decimal_text d value))))"

definition read_amount :: "nat \<Rightarrow> string \<Rightarrow> exn + int" where
  "read_amount d human = (case split_on (CHR ''.'') human of
     [] \<Rightarrow> Inl TypeErrorExn
   | whole # rest \<Rightarrow>
       (let fraction = (case rest of [] \<Rightarrow> [] | f # _ \<Rightarrow> f);
            padded = take d (padEnd d (CHR ''0'') fraction)
        in case (big_int whole, big_int padded) of
             (Some a, Some b) \<Rightarrow> Inr (a * 10 ^ d + b)
           | _ \<Rightarrow> Inl PlainError))"

definition humanToStroops :: "token_config list \<Rightarrow> string \<Rightarrow> string + nat \<Rightarrow> exn + int" where
  "humanToStroops tokens human tokenOrDecimals =
     (case (case tokenOrDecimals of
              Inl token \<Rightarrow> (case getTokenConfig tokens token of Inl e \<Rightarrow> Inl e | Inr c \<Rightarrow> Inr (tc_decimals c))
            | Inr n \<Rightarrow> Inr n) of
        Inl e \<Rightarrow> Inl e
      | Inr d \<Rightarrow> read_amount d human)"

definition stroopsToUsdc :: "(rat \<Rightarrow> string) \<Rightarrow> nat \<Rightarrow> int \<Rightarrow> string" where
  "stroopsToUsdc showBig decimals value = toFixed showBig decimals (parseFloat (decimal_text 7 value))"

definition usdcToStroops :: "string \<Rightarrow> exn + int" where
  "usdcToStroops usdc = read_amount 7 usdc"

section \<open>Horizon\<close>

record horizon_balance =
  hb_asset_type :: string
  hb_asset_code :: "string option"
  hb_asset_issuer :: "string option"
  hb_balance :: "string option"

record horizon_account =
  ha_balance :: "string option"
  ha_balances :: "horizon_balance list option"

text \<open>The answer of \<open>fetch\<close>: a network error, a status that is not ok, or the account.\<close>

type_synonym horizon = "string \<Rightarrow> exn + horizon_account option"

definition or_zero :: "string option \<Rightarrow> string" where
  "or_zero s = (case s of None \<Rightarrow> ''0'' | Some x \<Rightarrow> x)"

definition native_balance :: "horizon_account \<Rightarrow> string" where
  "native_balance acc =
     (let found = (case ha_balances acc of None \<Rightarrow> None | Some bs \<Rightarrow>
            (case List.find (\<lambda>b. hb_asset_type b = ''native'') bs of None \<Rightarrow> None | Some b \<Rightarrow> hb_balance b))
      in case found of Some x \<Rightarrow> x | None \<Rightarrow> or_zero (ha_balance acc))"

definition is_trustline :: "string \<Rightarrow> horizon_balance \<Rightarrow> bool" where
  "is_trustline token b \<longleftrightarrow> truthy (hb_asset_code b) \<and> truthy (hb_asset_issuer b) \<and>
     the (hb_asset_code b) @ '':'' @ the (hb_asset_issuer b) = token"

definition getBalance_horizon :: "horizon \<Rightarrow> token_config list \<Rightarrow> string \<Rightarrow> string \<Rightarrow> exn + int" where
  "getBalance_horizon hz tokens addr token =
     (let isNative = token \<in> {''native'', ''XLM''}
      in case (if isNative then Inr () else (case getTokenConfig tokens token of Inl e \<Rightarrow> Inl e | Inr _ \<Rightarrow> Inr ())) of
           Inl e \<Rightarrow> Inl e
         | Inr _ \<Rightarrow> (case hz addr of
             Inl e \<Rightarrow> Inl e
           | Inr None \<Rightarrow> Inl BadRequestException
           | Inr (Some acc) \<Rightarrow>
               if isNative then usdcToStroops (native_balance acc)
               else (case ha_balances acc of
                       None \<Rightarrow> Inl TypeErrorExn
                     | Some bs \<Rightarrow> (case List.find (is_trustline token) bs of
                         None \<Rightarrow> Inr 0
                       | Some b \<Rightarrow> (case hb_balance b of None \<Rightarrow> Inl TypeErrorExn | Some x \<Rightarrow> usdcToStroops x)))))"

definition checkTokenBalance_horizon :: "horizon \<Rightarrow> token_config list \<Rightarrow> string \<Rightarrow> string \<Rightarrow> int \<Rightarrow> exn + bool \<times> int" where
  "checkTokenBalance_horizon hz tokens addr token required = (case getBalance_horizon hz tokens addr token of
     Inl e \<Rightarrow> Inl e | Inr b \<Rightarrow> Inr (required \<le> b, b))"

definition getBackendAccountBalance :: "horizon \<Rightarrow> token_config list \<Rightarrow> string option \<Rightarrow> exn + int" where
  "getBackendAccountBalance hz tokens backend =
     (if truthy backend then getBalance_horizon hz tokens (the backend) ''native'' else Inr 0)"

text \<open>\<open>balances.some(\<dots>)\<close> stops at the first positive balance and fails at the first unreadable one.\<close>

fun some_positive :: "horizon_balance list \<Rightarrow> bool option" where
  "some_positive [] = Some False"
| "some_positive (b # bs) = (case big_int (or_zero (hb_balance b)) of
     None \<Rightarrow> None
   | Some n \<Rightarrow> if 0 < n then Some True else some_positive bs)"

definition accountExists_horizon :: "horizon \<Rightarrow> string \<Rightarrow> bool \<Rightarrow> bool" where
  "accountExists_horizon hz addr requireFunded = (case hz addr of
     Inl _ \<Rightarrow> False
   | Inr None \<Rightarrow> False
   | Inr (Some acc) \<Rightarrow>
       if \<not> requireFunded then True
       else (case big_int (or_zero (ha_balance acc)) of
               None \<Rightarrow> False
             | Some n \<Rightarrow>
                 if 0 < n then True
                 else (case some_positive (case ha_balances acc of None \<Rightarrow> [] | Some bs \<Rightarrow> bs) of
                         None \<Rightarrow> False | Some r \<Rightarrow> r)))"

section \<open>Accuracy of the conversions\<close>

lemma double_exact:
  assumes "n < 2 ^ 52"
  shows "nat \<lfloor>\<bar>to_double (of_nat n / 10 ^ d)\<bar> * 10 ^ d + 1 / 2\<rfloor> = n"
    and "\<not> 10 ^ 21 \<le> \<bar>to_double (of_nat n / 10 ^ d)\<bar>" and "\<not> to_double (of_nat n / 10 ^ d) < 0"
proof -
  let ?q = "of_nat n / 10 ^ d :: rat" and ?x = "to_double (of_nat n / 10 ^ d)"
  have n: "of_nat n < (2 ^ 52 :: rat)" using assms by (metis of_nat_less_iff of_nat_numeral of_nat_power)
  have q: "0 \<le> ?q" "?q \<le> of_nat n" by (simp_all add: divide_le_eq mult_le_cancel_left1)
  note err = to_double_error [OF q(1)]
  show "\<not> ?x < 0" using err(2) by simp
  have "\<bar>?x - ?q\<bar> * 10 ^ d \<le> ?q / 2 ^ 53 * 10 ^ d" using err(1) by (intro mult_right_mono) auto
  also have "\<dots> = of_nat n / 2 ^ 53" by simp
  also have "\<dots> < 1 / 2" using n by simp
  finally have "\<bar>?x - ?q\<bar> * 10 ^ d < 1 / 2" .
  moreover have "\<bar>?x * 10 ^ d - of_nat n\<bar> = \<bar>?x - ?q\<bar> * 10 ^ d"
  proof -
    have "?x * 10 ^ d - of_nat n = (?x - ?q) * 10 ^ d" by (simp add: left_diff_distrib)
    then show ?thesis by (simp only: abs_mult) simp
  qed
  ultimately have "\<bar>?x * 10 ^ d - of_nat n\<bar> < 1 / 2" by simp
  then show "nat \<lfloor>\<bar>?x\<bar> * 10 ^ d + 1 / 2\<rfloor> = n" using err(2) by (simp add: round_to_nearest)
  have "?x \<le> ?q + ?q / 2 ^ 53" using err(1) by (simp add: abs_le_iff)
  also have "\<dots> \<le> 2 ^ 52 + 2 ^ 52" using q n by (intro add_mono) auto
  finally show "\<not> 10 ^ 21 \<le> \<bar>?x\<bar>" using err(2) by simp
qed


section \<open>Reading back\<close>

lemma decimal_text_parts:
  fixes s :: int and d :: nat
  assumes "0 \<le> s"
  defines "w \<equiv> show_nat (nat s div 10 ^ d)" and "f \<equiv> padStart d (CHR ''0'') (show_nat (nat s mod 10 ^ d))"
  shows "decimal_text d s = w @ ''.'' @ f" and "list_all is_digit w" and "list_all is_digit f" and "w \<noteq> []"
    and "of_nat (dec_val (w @ f)) / 10 ^ length f = (of_int s / 10 ^ d :: rat)"
proof -
  have div: "nat (s div 10 ^ d) = nat s div 10 ^ d" "nat (s mod 10 ^ d) = nat s mod 10 ^ d"
    using assms(1) by (simp_all add: nat_div_distrib nat_mod_distrib nat_power_eq)
  have nn: "\<not> s div 10 ^ d < 0" "\<not> s mod 10 ^ d < 0" using assms(1) by (simp_all add: not_less pos_imp_zdiv_nonneg_iff)
  show "decimal_text d s = w @ ''.'' @ f"
    using assms(1) nn by (simp add: decimal_text_def big_div_nonneg big_mod_nonneg show_int_def div w_def f_def)
  show "list_all is_digit w" "list_all is_digit f" "w \<noteq> []" by (simp_all add: w_def f_def)
  have val: "dec_val (w @ f) = nat s div 10 ^ d * 10 ^ length f + nat s mod 10 ^ d" by (simp add: w_def f_def)
  show "of_nat (dec_val (w @ f)) / 10 ^ length f = (of_int s / 10 ^ d :: rat)"
  proof (cases "d = 0")
    case True
    then have "f = [digit 0]" "dec_val w = nat s" by (simp_all add: w_def f_def padStart_def show_nat.simps [of 0])
    with True assms(1) show ?thesis by simp
  next
    case False
    have "length (show_nat (nat s mod 10 ^ d)) \<le> d" using False by (intro length_show_nat) simp_all
    then have len: "length f = d" by (simp add: f_def)
    have "dec_val (w @ f) = nat s" unfolding val len by (rule div_mult_mod_eq)
    then show ?thesis using assms(1) len by simp
  qed
qed

lemma takeWhile_digits: "list_all is_digit f \<Longrightarrow> takeWhile is_digit f = f"
  by (induction f) auto

lemma parse_decimal_text:
  assumes "0 \<le> s"
  shows "parseFloat (decimal_text d s) = Some (to_double (of_int s / 10 ^ d))"
proof -
  obtain w f where p: "decimal_text d s = w @ ''.'' @ f" "list_all is_digit w" "list_all is_digit f" "w \<noteq> []"
    "of_nat (dec_val (w @ f)) / 10 ^ length f = (of_int s / 10 ^ d :: rat)"
    using decimal_text_parts [OF assms, of d] by metis
  have nd: "\<not> is_digit (CHR ''.'')" by (simp add: is_digit_def)
  have w: "\<And>x. x \<in> set w \<Longrightarrow> is_digit x" using p(2) by (simp add: list_all_iff)
  have "is_digit (hd w)" using w p(4) by simp
  then have "hd w \<noteq> CHR ''-''" using is_digit_not_sign by auto
  moreover have "takeWhile is_digit (w @ CHR ''.'' # f) = w" "dropWhile is_digit (w @ CHR ''.'' # f) = CHR ''.'' # f"
    using w nd by (simp_all add: takeWhile_append2 dropWhile_append2)
  ultimately show ?thesis using p(4,5)
    by (simp add: parseFloat_def p(1) Let_def takeWhile_digits [OF p(3)] del: dec_val_append)
qed

text \<open>What \<open>toFixed\<close> writes for an integer number of units, and what \<open>humanToStroops\<close> reads from it.\<close>

definition fixed_text :: "nat \<Rightarrow> nat \<Rightarrow> string" where
  "fixed_text d n = (let m = padStart (d + 1) (CHR ''0'') (show_nat n); k = length m - d
     in if d = 0 then m else take k m @ ''.'' @ drop k m)"

lemma read_fixed_text: "read_amount d (fixed_text d n) = Inr (int n)"
proof -
  let ?m = "padStart (d + 1) (CHR ''0'') (show_nat n)"
  let ?k = "length ?m - d"
  have m: "list_all is_digit ?m" "d < length ?m" "dec_val ?m = n" by simp_all
  show ?thesis
  proof (cases "d = 0")
    case True
    have "CHR ''.'' \<notin> set ?m" using m(1) by (auto simp: list_all_iff dest: is_digit_not_sign)
    with True m show ?thesis by (simp add: fixed_text_def read_amount_def Let_def big_int_digits)
  next
    case False
    let ?a = "take ?k ?m" and ?b = "drop ?k ?m"
    have ab: "list_all is_digit ?a" "list_all is_digit ?b" "length ?b = d" using m(1,2) by (auto simp: list_all_iff dest: in_set_takeD in_set_dropD)
    have "dec_val (?a @ ?b) = n" using m(3) by (simp only: append_take_drop_id)
    then have v: "int (dec_val ?a) * 10 ^ d + int (dec_val ?b) = int n"
      unfolding dec_val_append ab(3) by (metis of_nat_add of_nat_mult of_nat_numeral of_nat_power)
    have dot: "CHR ''.'' \<notin> set ?a" "CHR ''.'' \<notin> set ?b" using ab(1,2) unfolding list_all_iff by (blast dest: is_digit_not_sign)+
    have "fixed_text d n = ?a @ CHR ''.'' # ?b" using False by (simp add: fixed_text_def Let_def)
    then have "split_on (CHR ''.'') (fixed_text d n) = [?a, ?b]" using dot by (simp only: split_on_append split_on_none) simp
    moreover have "take d (padEnd d (CHR ''0'') ?b) = ?b" using ab(3) by (simp add: padEnd_def)
    ultimately show ?thesis using v ab(1,2) by (simp add: read_amount_def Let_def big_int_digits del: take_append drop_append)
  qed
qed

lemma amount_text:
  assumes "0 \<le> s" and "s < 2 ^ 52"
  shows "toFixed showBig d (parseFloat (decimal_text d s)) = fixed_text d (nat s)"
proof -
  have "nat s < 2 ^ 52" using assms by (simp add: nat_less_iff)
  note ex = double_exact [OF this, of d]
  have "of_int s = (of_nat (nat s) :: rat)" using assms(1) by simp
  with ex show ?thesis
    by (simp add: toFixed_def parse_decimal_text [OF assms(1)] fixed_text_def Let_def del: of_nat_nat)
qed

section \<open>Properties\<close>

text \<open>
  C21.  Writing an amount as a decimal string and reading it back gives the amount, for every number of
  decimals and every amount from 0 below 2^52 units, although the string is produced through a
  floating point number.
\<close>
theorem amount_round_trip:
  assumes "0 \<le> s" and "s < 2 ^ 52" and "getTokenConfig tokens token = Inr c"
  shows "stroopsToHuman showBig tokens s token None = Inr (fixed_text (tc_decimals c) (nat s)) \<and>
    humanToStroops tokens (fixed_text (tc_decimals c) (nat s)) (Inl token) = Inr s \<and>
    usdcToStroops (stroopsToUsdc showBig 7 s) = Inr s"
  using assms amount_text [OF assms(1,2)] read_fixed_text
  by (simp add: stroopsToHuman_def humanToStroops_def usdcToStroops_def stroopsToUsdc_def)

definition usdc_tokens :: "token_config list" where
  "usdc_tokens = [\<lparr>tc_address = ''A'', tc_symbol = ''USDC'', tc_decimals = 7\<rparr>]"

theorem amount_round_trip_witness:
  "stroopsToHuman (\<lambda>_. []) usdc_tokens 10000000 ''A'' None = Inr ''1.0000000'' \<and>
   humanToStroops usdc_tokens ''1.0000000'' (Inl ''A'') = Inr 10000000"
proof -
  have one: "digit 1 = CHR ''1''" unfolding digit_def by code_simp
  have str: "fixed_text 7 (nat 10000000) = ''1.0000000''"
    by (simp add: fixed_text_def padStart_def show_nat.simps one [simplified] Let_def)
  have "getTokenConfig usdc_tokens ''A'' = Inr \<lparr>tc_address = ''A'', tc_symbol = ''USDC'', tc_decimals = 7\<rparr>"
    by (simp add: getTokenConfig_def usdc_tokens_def)
  from amount_round_trip [OF _ _ this, of 10000000 "\<lambda>_. []"] show ?thesis unfolding token_config.simps str by simp
qed

text \<open>Beyond that bound stroops are lost: this integer is not a double, and is rounded.\<close>

lemma large_amounts_lose_stroops: "to_double (9007199254740993) = 9007199254740992"
proof -
  have "bits (nat 9007199254740993) = 54" by (simp add: bits.simps)
  moreover have "bits (nat 1) = 1" by (simp add: bits.simps)
  ultimately have "binary_exponent 9007199254740993 = 53" by (simp add: binary_exponent_def quotient_of_number(3))
  moreover have "\<lfloor>9007199254740993 / 2 :: rat\<rfloor> = 4503599627370496" by (rule floor_unique) simp_all
  ultimately show ?thesis by (simp add: to_double_def round_half_even_def Let_def)
qed

text \<open>A negative amount below one unit is read as positive.\<close>

lemma negative_fraction_read_positive: "read_amount 1 ''-0.5'' = Inr 5"
  by (simp add: read_amount_def padEnd_def big_int_def is_digit_def digit_val_def Let_def)

text \<open>
  Horizon writes every balance with seven decimals; \<open>BigInt\<close> rejects such a string, so no account is
  ever found to be funded.
\<close>

lemma big_int_dot: "CHR ''.'' \<in> set s \<Longrightarrow> big_int s = None"
proof -
  assume dot: "CHR ''.'' \<in> set s"
  have nd: "\<not> is_digit (CHR ''.'')" by (simp add: is_digit_def)
  with dot have "\<not> list_all is_digit s" by (auto simp: list_all_iff)
  moreover have "\<not> list_all is_digit cs" if "s = c # cs" "c = CHR ''-'' \<or> c = CHR ''+''" for c cs
    using dot nd that by (auto simp: list_all_iff)
  ultimately show "big_int s = None" by (cases s) (auto simp: big_int_def)
qed

lemma funded_account_not_found:
  assumes "hz addr = Inr (Some acc)" and "ha_balance acc = None" and "ha_balances acc = Some bs"
    and "\<forall>b \<in> set bs. \<exists>x. hb_balance b = Some x \<and> CHR ''.'' \<in> set x"
  shows "\<not> accountExists_horizon hz addr True"
proof -
  have "big_int ''0'' = Some 0" by (simp add: big_int_def)
  moreover have "some_positive bs \<noteq> Some True" using assms(4) by (cases bs) (auto simp: or_zero_def big_int_dot)
  ultimately show ?thesis using assms(1-3)
    by (cases "some_positive bs") (auto simp: accountExists_horizon_def or_zero_def)
qed

end
