(* ===== verification/StellarTx.thy ===== *)
theory StellarTx
  imports Prelude
begin

text \<open>
  \<^verbatim>\<open>common/stellar/stellar.service.ts\<close>, the transactions: a contract call is simulated, signed, sent
  and polled until the network has decided it.  The RPC server is a parameter: any request to it may
  be rejected, and \<open>pollAnswer h k\<close> is its answer to the k-th poll for a transaction \<open>h\<close>.
  \<open>pollClock k\<close> is what \<open>Date.now()\<close> reads after the k-th poll.  The state is the log of the
  transactions sent, each with its signer.
\<close>

datatype stellar_code = KEYPAIR_NOT_CONFIGURED | SIMULATION_FAILED | SUBMISSION_FAILED | CONFIRMATION_TIMEOUT
  | TRANSACTION_FAILED | ACCOUNT_NOT_FOUND

text \<open>What a call of the service fails with: a \<open>StellarError\<close>, a \<open>BadRequestException\<close>, or the rejection itself.\<close>

datatype stellar_failure = StellarErr stellar_code "string option" | StellarBadRequest | RpcRejected

datatype 'a rpc_answer = Rejected | Answer 'a

datatype tx_status = NOT_FOUND | SUCCESS nat | FAILED

datatype scval = ScString string | ScAddress string | ScU32 int | ScBool bool | ScI128 int
  | ScMilestones "(string \<times> int \<times> string \<times> int option) list"

record contract_call =
  cc_method :: string
  cc_args :: "scval list"

type_synonym sent_log = "(contract_call \<times> string) list"
type_synonym 'a tx_outcome = "(stellar_failure + 'a) \<times> sent_log"

record rpc =
  backendKeypair :: "string option"
  getAccount :: "string \<Rightarrow> bool"
  simulateTransaction :: "contract_call \<Rightarrow> bool rpc_answer"
  sendTransaction :: "contract_call \<Rightarrow> string \<Rightarrow> (bool \<times> string) rpc_answer"
  pollAnswer :: "string \<Rightarrow> nat \<Rightarrow> tx_status rpc_answer"
  pollClock :: "nat \<Rightarrow> time"

definition TX_CONFIRM_TIMEOUT_MS :: int where "TX_CONFIRM_TIMEOUT_MS = 30000"
definition TX_POLL_INTERVAL_MS :: int where "TX_POLL_INTERVAL_MS = 2000"

section \<open>Polling\<close>

text \<open>
  The loop has no counter: it ends when the network answers anything but NOT_FOUND, or at the first
  poll after the deadline.  \<open>None\<close> would be a loop that never ends.
\<close>

partial_function (option) poll_until ::
  "(nat \<Rightarrow> tx_status rpc_answer) \<Rightarrow> (nat \<Rightarrow> time) \<Rightarrow> string \<Rightarrow> time \<Rightarrow> nat \<Rightarrow> (stellar_failure + tx_status) option" where
  "poll_until answer clock h deadline k = (case answer k of
     Rejected \<Rightarrow> Some (Inl RpcRejected)
   | Answer st \<Rightarrow>
       if deadline < clock k \<and> st = NOT_FOUND then Some (Inl (StellarErr CONFIRMATION_TIMEOUT (Some h)))
       else if st = NOT_FOUND then poll_until answer clock h deadline (k + 1)
       else Some (Inr st))"

text \<open>\<open>start\<close> is the time at which the transaction was sent.\<close>

definition submitAndConfirm :: "rpc \<Rightarrow> time \<Rightarrow> contract_call \<Rightarrow> string option \<Rightarrow> sent_log \<Rightarrow>
  (string \<times> nat) tx_outcome option" where
  "submitAndConfirm w start call signer sent = (case (if signer = None then backendKeypair w else signer) of
     None \<Rightarrow> Some (Inl (StellarErr KEYPAIR_NOT_CONFIGURED None), sent)
   | Some key \<Rightarrow> (case simulateTransaction w call of
       Rejected \<Rightarrow> Some (Inl RpcRejected, sent)
     | Answer False \<Rightarrow> Some (Inl (StellarErr SIMULATION_FAILED None), sent)
     | Answer True \<Rightarrow> (case sendTransaction w call key of
         Rejected \<Rightarrow> Some (Inl RpcRejected, sent @ [(call, key)])
       | Answer (error, h) \<Rightarrow>
           if error then Some (Inl (StellarErr SUBMISSION_FAILED (Some h)), sent @ [(call, key)])
           else (case poll_until (pollAnswer w h) (pollClock w) h (start + TX_CONFIRM_TIMEOUT_MS) 0 of
                   None \<Rightarrow> None
                 | Some (Inl e) \<Rightarrow> Some (Inl e, sent @ [(call, key)])
                 | Some (Inr (SUCCESS ledger)) \<Rightarrow> Some (Inr (h, ledger), sent @ [(call, key)])
                 | Some (Inr _) \<Rightarrow> Some (Inl (StellarErr TRANSACTION_FAILED (Some h)), sent @ [(call, key)])))))"

section \<open>Typed calls\<close>

text \<open>
  Every typed operation checks the key, reads the signer's account, builds its call and submits it.
  Only \<open>createEngagement\<close> turns a missing account into an error of its own.
\<close>

definition submit_call :: "rpc \<Rightarrow> time \<Rightarrow> stellar_failure \<Rightarrow> contract_call \<Rightarrow> string option \<Rightarrow> sent_log \<Rightarrow>
  string tx_outcome option" where
  "submit_call w start noAccount call signer sent = (case (if signer = None then backendKeypair w else signer) of
     None \<Rightarrow> Some (Inl (StellarErr KEYPAIR_NOT_CONFIGURED None), sent)
   | Some key \<Rightarrow>
       if \<not> getAccount w key then Some (Inl noAccount, sent)
       else map_option (\<lambda>(r, log). (map_sum id fst r, log)) (submitAndConfirm w start call signer sent))"

record engagement_params =
  ep_engagementId :: string
  ep_companyAddress :: string
  ep_recruiterAddress :: string
  ep_arbiterAddress :: string
  ep_tokenAddress :: string
  ep_totalAmount :: int
  ep_milestones :: "(string \<times> int \<times> string \<times> int option) list"

definition create_engagement_call :: "engagement_params \<Rightarrow> contract_call" where
  "create_engagement_call p = \<lparr>cc_method = ''create_engagement'',
     cc_args = [ScString (ep_engagementId p), ScAddress (ep_companyAddress p), ScAddress (ep_recruiterAddress p),
       ScAddress (ep_arbiterAddress p), ScAddress (ep_tokenAddress p), ScI128 (ep_totalAmount p),
       ScMilestones (ep_milestones p)]\<rparr>"

definition createEngagement :: "rpc \<Rightarrow> time \<Rightarrow> engagement_params \<Rightarrow> string option \<Rightarrow> sent_log \<Rightarrow> string tx_outcome option" where
  "createEngagement w start p signer =
     submit_call w start (StellarErr ACCOUNT_NOT_FOUND None) (create_engagement_call p) signer"

definition unlockMilestone :: "rpc \<Rightarrow> time \<Rightarrow> string \<Rightarrow> int \<Rightarrow> string option \<Rightarrow> sent_log \<Rightarrow> string tx_outcome option" where
  "unlockMilestone w start eid i signer = submit_call w start RpcRejected
     \<lparr>cc_method = ''unlock_retention_milestone'', cc_args = [ScString eid, ScU32 i]\<rparr> signer"

definition unlockRetentionMilestone where
  "unlockRetentionMilestone = unlockMilestone"

definition releaseMilestonePayment :: "rpc \<Rightarrow> time \<Rightarrow> string \<Rightarrow> int \<Rightarrow> string option \<Rightarrow> sent_log \<Rightarrow> string tx_outcome option" where
  "releaseMilestonePayment w start eid i signer = submit_call w start RpcRejected
     \<lparr>cc_method = ''release_milestone_payment'', cc_args = [ScString eid, ScU32 i]\<rparr> signer"

definition cancelEngagement_tx :: "rpc \<Rightarrow> time \<Rightarrow> string \<Rightarrow> string option \<Rightarrow> sent_log \<Rightarrow> string tx_outcome option" where
  "cancelEngagement_tx w start eid signer = submit_call w start RpcRejected
     \<lparr>cc_method = ''cancel_engagement'', cc_args = [ScString eid]\<rparr> signer"

definition resolveMilestoneDispute :: "rpc \<Rightarrow> time \<Rightarrow> string \<Rightarrow> int \<Rightarrow> bool \<Rightarrow> string option \<Rightarrow> sent_log \<Rightarrow> string tx_outcome option" where
  "resolveMilestoneDispute w start eid i approved signer = submit_call w start RpcRejected
     \<lparr>cc_method = ''resolve_dispute'', cc_args = [ScString eid, ScU32 i, ScBool approved]\<rparr> signer"

text \<open>The older submission: at most fifteen polls, counted.\<close>

fun poll_counted :: "(nat \<Rightarrow> tx_status rpc_answer) \<Rightarrow> nat \<Rightarrow> nat \<Rightarrow> stellar_failure + tx_status" where
  "poll_counted answer k left = (case answer k of
     Rejected \<Rightarrow> Inl RpcRejected
   | Answer st \<Rightarrow> (case left of 0 \<Rightarrow> Inr st
                  | Suc n \<Rightarrow> if st = NOT_FOUND then poll_counted answer (k + 1) n else Inr st))"

definition submitCreateEngagement :: "rpc \<Rightarrow> engagement_params \<Rightarrow> sent_log \<Rightarrow> (string \<times> nat) tx_outcome" where
  "submitCreateEngagement w p sent = (case backendKeypair w of
     None \<Rightarrow> (Inl StellarBadRequest, sent)
   | Some key \<Rightarrow>
       if \<not> getAccount w key then (Inl RpcRejected, sent)
       else (let call = create_engagement_call p in case simulateTransaction w call of
         Rejected \<Rightarrow> (Inl RpcRejected, sent)
       | Answer False \<Rightarrow> (Inl StellarBadRequest, sent)
       | Answer True \<Rightarrow> (case sendTransaction w call key of
           Rejected \<Rightarrow> (Inl RpcRejected, sent @ [(call, key)])
         | Answer (error, h) \<Rightarrow>
             if error then (Inl StellarBadRequest, sent @ [(call, key)])
             else (case poll_counted (pollAnswer w h) 0 14 of
                     Inl e \<Rightarrow> (Inl e, sent @ [(call, key)])
                   | Inr (SUCCESS ledger) \<Rightarrow> (Inr (h, ledger), sent @ [(call, key)])
                   | Inr _ \<Rightarrow> (Inl StellarBadRequest, sent @ [(call, key)])))))"

section \<open>Polling ends\<close>

lemma poll_decides:
  assumes "\<forall>j. start + TX_POLL_INTERVAL_MS * (int j + 1) \<le> clock j" and "k \<le> 15"
    and "\<forall>j < k. answer j = Answer NOT_FOUND"
  shows "\<exists>m. k \<le> m \<and> m \<le> 15 \<and> (\<forall>j < m. answer j = Answer NOT_FOUND) \<and>
    poll_until answer clock h (start + TX_CONFIRM_TIMEOUT_MS) k = (case answer m of
      Rejected \<Rightarrow> Some (Inl RpcRejected)
    | Answer NOT_FOUND \<Rightarrow> Some (Inl (StellarErr CONFIRMATION_TIMEOUT (Some h)))
    | Answer st \<Rightarrow> Some (Inr st)) \<and>
    (answer m = Answer NOT_FOUND \<longrightarrow> start + TX_CONFIRM_TIMEOUT_MS < clock m)"
  using assms(2,3)
proof (induction "15 - k" arbitrary: k)
  case 0
  then have k: "k = 15" by simp
  have "start + TX_POLL_INTERVAL_MS * (int 15 + 1) \<le> clock 15" using assms(1) by blast
  then have late: "start + TX_CONFIRM_TIMEOUT_MS < clock 15" by (simp add: TX_POLL_INTERVAL_MS_def TX_CONFIRM_TIMEOUT_MS_def)
  show ?case using 0(3) late
    by (intro exI [of _ 15]) (auto simp: k poll_until.simps [where k = 15] split: rpc_answer.split tx_status.split)
next
  case (Suc n)
  show ?case
  proof (cases "answer k = Answer NOT_FOUND \<and> \<not> start + TX_CONFIRM_TIMEOUT_MS < clock k")
    case True
    have step: "poll_until answer clock h (start + TX_CONFIRM_TIMEOUT_MS) k =
        poll_until answer clock h (start + TX_CONFIRM_TIMEOUT_MS) (k + 1)"
      using True by (simp add: poll_until.simps [where k = k])
    have "n = 15 - (k + 1)" "k + 1 \<le> 15" using Suc(2) by auto
    moreover have "\<forall>j < k + 1. answer j = Answer NOT_FOUND" using True Suc.prems(2) by (auto simp: less_Suc_eq)
    ultimately obtain m where "k + 1 \<le> m" "m \<le> 15" "\<forall>j < m. answer j = Answer NOT_FOUND"
      "poll_until answer clock h (start + TX_CONFIRM_TIMEOUT_MS) (k + 1) = (case answer m of
        Rejected \<Rightarrow> Some (Inl RpcRejected)
      | Answer NOT_FOUND \<Rightarrow> Some (Inl (StellarErr CONFIRMATION_TIMEOUT (Some h)))
      | Answer st \<Rightarrow> Some (Inr st))"
      "answer m = Answer NOT_FOUND \<longrightarrow> start + TX_CONFIRM_TIMEOUT_MS < clock m"
      using Suc(1) by blast
    then show ?thesis using step by (intro exI [of _ m]) auto
  next
    case False
    then show ?thesis using Suc.prems
      by (intro exI [of _ k]) (auto simp: poll_until.simps [where k = k] split: rpc_answer.split tx_status.split)
  qed
qed

section \<open>Properties\<close>

text \<open>
  C22.  Submitting a contract call always ends, provided the timer of two seconds does not fire early:
  at most sixteen polls are made.  At most one transaction is sent, and the call reports success
  exactly with the hash and ledger of a transaction that it sent and the network confirmed.
\<close>
theorem submission_ends:
  assumes "\<forall>j. start + 2000 * (int j + 1) \<le> pollClock w j"
  shows "\<exists>r log. submitAndConfirm w start call signer sent = Some (r, log) \<and>
    (log = sent \<or> (\<exists>key. log = sent @ [(call, key)])) \<and>
    (\<forall>h ledger. r = Inr (h, ledger) \<longrightarrow> (\<exists>key m. log = sent @ [(call, key)] \<and> sendTransaction w call key = Answer (False, h) \<and>
       m \<le> 15 \<and> pollAnswer w h m = Answer (SUCCESS ledger)))"
proof -
  have clock: "\<forall>j. start + TX_POLL_INTERVAL_MS * (int j + 1) \<le> pollClock w j"
    using assms by (simp add: TX_POLL_INTERVAL_MS_def)
  have poll: "\<exists>m \<le> 15. poll_until (pollAnswer w h) (pollClock w) h (start + TX_CONFIRM_TIMEOUT_MS) 0 =
      (case pollAnswer w h m of
        Rejected \<Rightarrow> Some (Inl RpcRejected)
      | Answer NOT_FOUND \<Rightarrow> Some (Inl (StellarErr CONFIRMATION_TIMEOUT (Some h)))
      | Answer st \<Rightarrow> Some (Inr st))" for h
    using poll_decides [OF clock, of 0 "pollAnswer w h" h] by auto
  show ?thesis
  proof (cases "if signer = None then backendKeypair w else signer")
    case None
    then show ?thesis by (simp add: submitAndConfirm_def)
  next
    case key: (Some key)
    show ?thesis
    proof (cases "simulateTransaction w call = Answer True")
      case False
      with key show ?thesis
        by (cases "simulateTransaction w call") (auto simp: submitAndConfirm_def split: bool.split)
    next
      case sim: True
      show ?thesis
      proof (cases "sendTransaction w call key")
        case Rejected
        with key sim show ?thesis by (simp add: submitAndConfirm_def)
      next
        case (Answer a)
        obtain err h where a: "a = (err, h)" by fastforce
        obtain m where m: "m \<le> 15" "poll_until (pollAnswer w h) (pollClock w) h (start + TX_CONFIRM_TIMEOUT_MS) 0 =
            (case pollAnswer w h m of
              Rejected \<Rightarrow> Some (Inl RpcRejected)
            | Answer NOT_FOUND \<Rightarrow> Some (Inl (StellarErr CONFIRMATION_TIMEOUT (Some h)))
            | Answer st \<Rightarrow> Some (Inr st))" using poll by blast
        show ?thesis
        proof (cases "pollAnswer w h m")
          case Rejected
          with key sim Answer a m show ?thesis by (simp add: submitAndConfirm_def)
        next
          case (Answer st)
          with key sim \<open>sendTransaction w call key = rpc_answer.Answer a\<close> a m show ?thesis
            by (cases st) (auto simp: submitAndConfirm_def)
        qed
      qed
    qed
  qed
qed

definition slow_rpc :: rpc where
  "slow_rpc = \<lparr>backendKeypair = Some ''G'', getAccount = (\<lambda>_. True), simulateTransaction = (\<lambda>_. Answer True),
     sendTransaction = (\<lambda>_ _. Answer (False, ''h'')),
     pollAnswer = (\<lambda>_ k. if k < 3 then Answer NOT_FOUND else Answer (SUCCESS 77)),
     pollClock = (\<lambda>k. 2000 * (int k + 1))\<rparr>"

theorem submission_ends_witness:
  "\<exists>r log. submitAndConfirm slow_rpc 0 (create_engagement_call \<lparr>ep_engagementId = ''e'', ep_companyAddress = ''c'',
      ep_recruiterAddress = ''r'', ep_arbiterAddress = ''a'', ep_tokenAddress = ''t'', ep_totalAmount = 5,
      ep_milestones = []\<rparr>) None [] = Some (r, log) \<and> length log \<le> 1"
  using submission_ends [of 0 slow_rpc _ None "[]"] by (fastforce simp: slow_rpc_def)

end
