(* ===== verification/HorizonFailover.thy ===== *)
theory HorizonFailover
  imports JsText
begin

text \<open>
  \<^verbatim>\<open>common/stellar/horizon-failover.service.ts\<close>: the list of Horizon endpoints, the active one, and
  the consecutive errors of each.  \<open>reply k url\<close> is what the k-th request to the network, sent to \<open>url\<close>,
  gives: \<open>None\<close> when \<open>fetch\<close> rejects, else the status.
\<close>

record failover =
  urls :: "string list"
  activeIndex :: nat
  consecutiveErrors :: "nat list"
  threshold :: nat

definition parse_urls :: "string \<Rightarrow> string \<Rightarrow> string option \<Rightarrow> string list" where
  "parse_urls multi single configured =
     (let raw = (if multi \<noteq> [] then multi else if single \<noteq> [] then single
                 else if truthy configured then the configured else [])
      in filter (\<lambda>u. u \<noteq> []) (map trim (split_on (CHR '','') raw)))"

definition init_failover :: "string \<Rightarrow> string \<Rightarrow> string option \<Rightarrow> nat \<Rightarrow> exn + failover" where
  "init_failover multi single configured n =
     (let us = parse_urls multi single configured
      in if us = [] then Inl PlainError
         else Inr \<lparr>urls = us, activeIndex = 0, consecutiveErrors = replicate (length us) 0, threshold = n\<rparr>)"

definition activeUrl :: "failover \<Rightarrow> string" where
  "activeUrl f = urls f ! activeIndex f"

definition endpointStatus :: "failover \<Rightarrow> (string \<times> bool \<times> nat) list" where
  "endpointStatus f = map (\<lambda>i. (urls f ! i, i = activeIndex f, consecutiveErrors f ! i)) [0..<length (urls f)]"

definition recordSuccess :: "nat \<Rightarrow> failover \<Rightarrow> failover" where
  "recordSuccess i f = f\<lparr>consecutiveErrors := (consecutiveErrors f)[i := 0]\<rparr>"

definition fail_over :: "failover \<Rightarrow> failover" where
  "fail_over f =
     (let next = (activeIndex f + 1) mod length (urls f)
      in if next = activeIndex f then f else f\<lparr>activeIndex := next\<rparr>)"

definition recordError :: "nat \<Rightarrow> failover \<Rightarrow> failover" where
  "recordError i f =
     (let f1 = f\<lparr>consecutiveErrors := (consecutiveErrors f)[i := consecutiveErrors f ! i + 1]\<rparr>
      in if 1 < length (urls f1) \<and> threshold f1 \<le> consecutiveErrors f1 ! i \<and> i = activeIndex f1
         then fail_over f1 else f1)"

text \<open>The loop over \<open>attempt\<close>, by the attempts left; the result carries the number of the next request.\<close>

fun fetch_loop :: "(nat \<Rightarrow> string \<Rightarrow> nat option) \<Rightarrow> string \<Rightarrow> nat \<Rightarrow> nat \<Rightarrow> failover \<Rightarrow> (failover, nat) outcome" where
  "fetch_loop reply path k 0 f = throw PlainError f"
| "fetch_loop reply path k (Suc n) f = (case reply k (activeUrl f @ path) of
     Some status \<Rightarrow> return status (recordSuccess (activeIndex f) f)
   | None \<Rightarrow> fetch_loop reply path (k + 1) n (recordError (activeIndex f) f))"

definition fetch_horizon :: "(nat \<Rightarrow> string \<Rightarrow> nat option) \<Rightarrow> string \<Rightarrow> failover \<Rightarrow> (failover, nat) outcome" where
  "fetch_horizon reply path f = fetch_loop reply path 0 (length (urls f)) f"

definition probe_one :: "(string \<Rightarrow> nat option) \<Rightarrow> nat \<Rightarrow> failover \<Rightarrow> failover" where
  "probe_one probe i f =
     (if i = activeIndex f \<or> consecutiveErrors f ! i = 0 then f
      else (case probe (urls f ! i @ ''/'') of
              None \<Rightarrow> f
            | Some status \<Rightarrow>
                if status < 500
                then (let f1 = f\<lparr>consecutiveErrors := (consecutiveErrors f)[i := 0]\<rparr>
                      in if i = 0 then f1\<lparr>activeIndex := 0\<rparr> else f1)
                else f))"

definition probeFailedEndpoints :: "(string \<Rightarrow> nat option) \<Rightarrow> failover \<Rightarrow> failover" where
  "probeFailedEndpoints probe f = fold (probe_one probe) [0..<length (urls f)] f"

section \<open>The active endpoint exists\<close>

definition failover_ok :: "failover \<Rightarrow> bool" where
  "failover_ok f \<longleftrightarrow> activeIndex f < length (urls f) \<and> length (consecutiveErrors f) = length (urls f)"

lemma init_failover_ok: "init_failover m u c n = Inr f \<Longrightarrow> failover_ok f"
  by (auto simp: init_failover_def failover_ok_def Let_def split: if_splits)

lemma recordSuccess_ok [simp]: "failover_ok (recordSuccess i f) = failover_ok f"
  by (simp add: recordSuccess_def failover_ok_def)

lemma recordError_ok: "failover_ok f \<Longrightarrow> failover_ok (recordError i f) \<and> urls (recordError i f) = urls f"
  by (auto simp: recordError_def fail_over_def failover_ok_def Let_def intro!: mod_less_divisor)

lemma fetch_loop_ok: "failover_ok f \<Longrightarrow> failover_ok (snd (fetch_loop reply path k n f))"
  by (induction n arbitrary: k f) (auto simp: recordError_ok split: option.split)

lemma fetch_horizon_ok: "failover_ok f \<Longrightarrow> failover_ok (snd (fetch_horizon reply path f))"
  by (simp add: fetch_horizon_def fetch_loop_ok)

lemma probe_one_ok: "failover_ok f \<Longrightarrow> failover_ok (probe_one probe i f)"
  by (auto simp: probe_one_def failover_ok_def Let_def split: option.split)

lemma probeFailedEndpoints_ok: "failover_ok f \<Longrightarrow> failover_ok (probeFailedEndpoints probe f)"
  unfolding probeFailedEndpoints_def
  by (rule fold_invariant [where P = failover_ok and Q = "\<lambda>_. True"]) (auto intro: probe_one_ok)

text \<open>
  A request is retried on the active endpoint until its errors reach the threshold: with two
  endpoints and the default threshold of three the first call fails although the second endpoint works.
\<close>

lemma healthy_endpoint_not_tried:
  assumes "\<And>k. reply k (''a'' @ path) = None" and "init_failover ''a,b'' [] None 3 = Inr f"
  shows "fst (fetch_horizon reply path f) = Inl PlainError"
proof -
  have "parse_urls ''a,b'' [] None = [''a'', ''b'']"
    by (simp add: parse_urls_def trim_def is_space_def char_in_def Let_def)
  with assms(2) have "f = \<lparr>urls = [''a'', ''b''], activeIndex = 0, consecutiveErrors = [0, 0], threshold = 3\<rparr>"
    by (simp add: init_failover_def numeral_eq_Suc Let_def)
  with assms(1) show ?thesis
    by (simp add: fetch_horizon_def numeral_eq_Suc recordError_def activeUrl_def Let_def)
qed

end
