(* ===== verification/Events.thy ===== *)
theory Events
  imports MilestoneFlows Engagements Discussion
begin

text \<open>
  \<^verbatim>\<open>modules/events/events.service.ts\<close> and \<^verbatim>\<open>chain-event-retry.service.ts\<close>: the poller fetches the
  contract events from a cursor on, stores each and routes it to its handler; what fails is retried by
  a second job and ends in the dead-letter table.

  A handler writes the milestone, engagement and dispute tables through the ordinary client, and the
  retention schedule and the engagement status through the client of the transaction: only the latter
  are undone when the transaction fails.  A handler therefore returns the state its own writes lead
  to and, as its result, the writes of the transaction, which are applied at the commit.
\<close>

section \<open>Data\<close>

datatype payload = PStr string | PNum int | PBool bool | PNull | PList "payload list" | PObj

record chain_event =
  c_id :: ident
  c_engagementId :: "ident option"
  c_eventName :: string
  c_ledger :: int
  c_txHash :: string
  c_payload :: payload
  c_processed :: bool
  c_retryCount :: nat
  c_lastErrorAt :: "time option"

record raw_event =
  v_topic :: "string option"
  v_ledger :: int
  v_txHash :: "string option"
  v_value :: "payload option"

record dead_letter =
  dl_originalId :: ident
  dl_eventName :: string
  dl_txHash :: string
  dl_payload :: payload
  dl_retryCount :: nat

datatype webhook_event = WH_COMPLETED | WH_CANCELLED | WH_REPLACEMENT_REQUESTED | WH_DISPUTE_RAISED | WH_PAYMENT_RELEASED

record events_db =
  base :: db
  chainEvents :: "chain_event list"
  deadLetters :: "dead_letter list"
  webhooks :: "(string \<times> webhook_event \<times> ident \<times> engagement_status option) list"
  lastProcessedLedger :: int
  eventSeq :: nat

record events_env =
  world :: env
  disputeCfg :: dispute_config
  versionsWired :: bool
  webhookUrl :: "ident \<Rightarrow> string option"
  eventRowId :: "nat \<Rightarrow> ident"

section \<open>JavaScript conversions of a payload\<close>

text \<open>
  \<open>String(x)\<close>, \<open>Number(x)\<close>, \<open>BigInt(x ?? 0)\<close> and \<open>Boolean(x)\<close>; the argument \<open>None\<close> is \<open>undefined\<close>, and
  of a number \<open>None\<close> is NaN.  A numeric string is read as an integer; lists and fractions count as NaN.
\<close>

fun js_text :: "payload \<Rightarrow> string" where
  "js_text (PStr s) = s"
| "js_text (PNum n) = show_int n"
| "js_text (PBool b) = (if b then ''true'' else ''false'')"
| "js_text PNull = ''null''"
| "js_text (PList ps) = (case map (\<lambda>p. if p = PNull then [] else js_text p) ps of
     [] \<Rightarrow> [] | t # ts \<Rightarrow> t @ concat (map (\<lambda>u. '','' @ u) ts))"
| "js_text PObj = ''[object Object]''"

definition js_string :: "payload option \<Rightarrow> string" where
  "js_string p = (case p of None \<Rightarrow> ''undefined'' | Some x \<Rightarrow> js_text x)"

definition js_number :: "payload option \<Rightarrow> int option" where
  "js_number p = (case p of
     Some (PStr s) \<Rightarrow> big_int s
   | Some (PNum n) \<Rightarrow> Some n
   | Some (PBool b) \<Rightarrow> Some (if b then 1 else 0)
   | Some PNull \<Rightarrow> Some 0
   | _ \<Rightarrow> None)"

definition js_bigint :: "payload option \<Rightarrow> int option" where
  "js_bigint p = (case p of
     None \<Rightarrow> Some 0
   | Some PNull \<Rightarrow> Some 0
   | Some (PStr s) \<Rightarrow> big_int s
   | Some (PNum n) \<Rightarrow> Some n
   | Some (PBool b) \<Rightarrow> Some (if b then 1 else 0)
   | _ \<Rightarrow> None)"

definition js_truthy :: "payload option \<Rightarrow> bool" where
  "js_truthy p = (case p of
     None \<Rightarrow> False
   | Some PNull \<Rightarrow> False
   | Some (PStr s) \<Rightarrow> s \<noteq> []
   | Some (PNum n) \<Rightarrow> n \<noteq> 0
   | Some (PBool b) \<Rightarrow> b
   | _ \<Rightarrow> True)"

definition destructurePayload :: "payload \<Rightarrow> payload list" where
  "destructurePayload p = (case p of PList ps \<Rightarrow> ps | _ \<Rightarrow> [p])"

definition arg_at :: "nat \<Rightarrow> payload \<Rightarrow> payload option" where
  "arg_at k p = (let ps = destructurePayload p in if k < length ps then Some (ps ! k) else None)"

definition extractEventName :: "raw_event \<Rightarrow> string" where
  "extractEventName v = (case v_topic v of None \<Rightarrow> ''unknown'' | Some t \<Rightarrow> t)"

definition extractPayload :: "raw_event \<Rightarrow> payload" where
  "extractPayload v = (if js_truthy (v_value v) then the (v_value v) else PNull)"

definition event_hash :: "raw_event \<Rightarrow> string" where
  "event_hash v = (case v_txHash v of None \<Rightarrow> [] | Some h \<Rightarrow> h)"

section \<open>Handlers\<close>

type_synonym handler = "events_db \<Rightarrow> (events_db, db \<Rightarrow> db) outcome"

text \<open>A milestone index the query layer rejects: NaN is not a valid argument, a negative one finds no row.\<close>

definition with_index :: "payload option \<Rightarrow> (nat \<Rightarrow> events_db \<Rightarrow> (events_db, 'a) outcome) \<Rightarrow> events_db \<Rightarrow> (events_db, 'a) outcome" where
  "with_index p k s = (case js_number p of
     None \<Rightarrow> throw PlainError s
   | Some n \<Rightarrow> if n < 0 then throw RecordNotFound s else k (nat n) s)"

definition on_base :: "(db \<Rightarrow> (db, 'a) outcome) \<Rightarrow> events_db \<Rightarrow> (events_db, 'a) outcome" where
  "on_base f s = (let (r, b) = f (base s) in (r, s\<lparr>base := b\<rparr>))"

definition upd_base :: "(db \<Rightarrow> db) \<Rightarrow> events_db \<Rightarrow> events_db" where
  "upd_base f s = s\<lparr>base := f (base s)\<rparr>"

text \<open>Errors of the dispatch are caught; without a URL nothing is sent.\<close>

definition dispatchWebhook :: "events_env \<Rightarrow> string \<Rightarrow> webhook_event \<Rightarrow> ident \<Rightarrow> engagement_status option \<Rightarrow> events_db \<Rightarrow> events_db" where
  "dispatchWebhook w addr ev eid st s =
     (case List.find (\<lambda>u. u_stellarAddress u = Some addr) (t_users (base s)) of
        None \<Rightarrow> s
      | Some u \<Rightarrow> (case webhookUrl w (u_id u) of
          None \<Rightarrow> s
        | Some url \<Rightarrow> if url = [] then s else s\<lparr>webhooks := webhooks s @ [(url, ev, eid, st)]\<rparr>))"

definition if_engagement :: "ident \<Rightarrow> (engagement \<Rightarrow> events_db \<Rightarrow> events_db) \<Rightarrow> events_db \<Rightarrow> events_db" where
  "if_engagement eid k s = (case find_engagement eid (base s) of None \<Rightarrow> s | Some e \<Rightarrow> k e s)"

definition handleEngagementCreated :: "events_env \<Rightarrow> payload \<Rightarrow> handler" where
  "handleEngagementCreated w p s =
     (let eid = js_text p
      in return id (if_engagement eid (\<lambda>e. upd_base (notify (ByAddress (e_recruiterAddress e)) ENGAGEMENT_CREATED))
           (upd_base (syncFromChain (world w) eid) s)))"

definition handleMilestoneUnlocked :: "events_env \<Rightarrow> payload \<Rightarrow> handler" where
  "handleMilestoneUnlocked w p s =
     (let eid = js_string (arg_at 0 p)
      in with_index (arg_at 1 p) (\<lambda>i s. and_then (on_base (markUnlocked eid i) s) (\<lambda>_ s1.
           return (update_schedules eid i (\<lambda>x. x\<lparr>s_unlocked := True\<rparr>))
             (if_engagement eid (\<lambda>e. upd_base (notify (ByAddress (e_recruiterAddress e)) MILESTONE_UNLOCKED)) s1))) s)"

definition handleProofSubmitted :: "events_env \<Rightarrow> payload \<Rightarrow> handler" where
  "handleProofSubmitted w p s =
     (let eid = js_string (arg_at 0 p)
      in with_index (arg_at 1 p) (\<lambda>i s. and_then (on_base (markProofSubmitted (versionsWired w) (world w) eid i []) s) (\<lambda>_ s1.
           return id (if_engagement eid (\<lambda>e. upd_base (notify (ByAddress (e_companyAddress e)) N_PROOF_SUBMITTED)) s1))) s)"

text \<open>\<open>BigInt\<close> of the amount is evaluated before the milestone is touched.\<close>

definition handleMilestoneConfirmed :: "events_env \<Rightarrow> payload \<Rightarrow> handler" where
  "handleMilestoneConfirmed w p s =
     (let eid = js_string (arg_at 0 p)
      in case js_bigint (arg_at 2 p) of
           None \<Rightarrow> throw PlainError s
         | Some paid \<Rightarrow> with_index (arg_at 1 p) (\<lambda>i s. and_then (on_base (markConfirmed (world w) eid i paid) s) (\<lambda>_ s1.
             return id (if_engagement eid (\<lambda>e s. dispatchWebhook w (e_companyAddress e) WH_PAYMENT_RELEASED eid (Some (e_status e))
                 (upd_base (notify (ByAddress (e_recruiterAddress e)) PAYMENT_RELEASED) s))
               (upd_base (syncFromChain (world w) eid) s1)))) s)"

definition handleDisputeRaised :: "events_env \<Rightarrow> payload \<Rightarrow> handler" where
  "handleDisputeRaised w p s =
     (let eid = js_string (arg_at 0 p)
      in with_index (arg_at 1 p) (\<lambda>i s. and_then (on_base (markDisputed (disputeCfg w) (world w) eid i) s) (\<lambda>_ s1.
           return id (if_engagement eid (\<lambda>e s. dispatchWebhook w (e_companyAddress e) WH_DISPUTE_RAISED eid None
               (upd_base (notify_all [ByAddress (e_recruiterAddress e), ByAddress (e_arbiterAddress e)] DISPUTE_RAISED) s)) s1))) s)"

definition handleDisputeResolved :: "events_env \<Rightarrow> payload \<Rightarrow> handler" where
  "handleDisputeResolved w p s =
     (let eid = js_string (arg_at 0 p); approved = js_truthy (arg_at 2 p)
      in with_index (arg_at 1 p) (\<lambda>i s. and_then (on_base (markResolved (world w) eid i approved None) s) (\<lambda>_ s1.
           return id (if_engagement eid (\<lambda>e s. dispatchWebhook w (e_companyAddress e)
                   (if approved then WH_COMPLETED else WH_PAYMENT_RELEASED) eid (Some (e_status e))
                 (upd_base (notify_all [ByAddress (e_companyAddress e), ByAddress (e_recruiterAddress e)] DISPUTE_RESOLVED) s))
               (upd_base (syncFromChain (world w) eid) s1)))) s)"

text \<open>\<open>tx.engagement.update\<close> fails when there is no such row.\<close>

definition set_status :: "ident \<Rightarrow> engagement_status \<Rightarrow> db \<Rightarrow> db" where
  "set_status eid st = update_engagement eid (\<lambda>x. x\<lparr>e_status := st\<rparr>)"

definition handleReplacementRequested :: "events_env \<Rightarrow> payload \<Rightarrow> handler" where
  "handleReplacementRequested w p s =
     (let eid = js_string (case p of PList ps \<Rightarrow> arg_at 0 p | _ \<Rightarrow> Some p)
      in case latestLedger (world w) of
           Inl m \<Rightarrow> throw (StellarFailure m) s
         | Inr cur \<Rightarrow> and_then (on_base (resetForReplacement (world w) eid cur) s) (\<lambda>_ s1.
             case find_engagement eid (base s1) of
               None \<Rightarrow> throw RecordNotFound s1
             | Some e \<Rightarrow> return (set_status eid REPLACEMENT_REQUESTED)
                 (dispatchWebhook w (e_companyAddress e) WH_REPLACEMENT_REQUESTED eid (Some REPLACEMENT_REQUESTED)
                   (upd_base (notify (ByAddress (e_recruiterAddress e)) N_REPLACEMENT_REQUESTED) s1))))"

definition handleEngagementCancelled :: "events_env \<Rightarrow> payload \<Rightarrow> handler" where
  "handleEngagementCancelled w p s =
     (let eid = js_string (arg_at 0 p)
      in case find_engagement eid (base s) of
           None \<Rightarrow> throw RecordNotFound s
         | Some e \<Rightarrow> return (set_status eid CANCELLED)
             (dispatchWebhook w (e_companyAddress e) WH_CANCELLED eid (Some CANCELLED)
               (upd_base (notify (ByAddress (e_recruiterAddress e)) ENGAGEMENT_CANCELLED) s)))"

definition handle_event :: "events_env \<Rightarrow> string \<Rightarrow> payload \<Rightarrow> handler" where
  "handle_event w name p s =
     (if name = ''engagement_created'' then handleEngagementCreated w p s
      else if name = ''milestone_unlocked'' then handleMilestoneUnlocked w p s
      else if name = ''proof_submitted'' then handleProofSubmitted w p s
      else if name = ''milestone_confirmed'' then handleMilestoneConfirmed w p s
      else if name = ''dispute_raised'' then handleDisputeRaised w p s
      else if name = ''dispute_resolved'' then handleDisputeResolved w p s
      else if name = ''replacement_requested'' then handleReplacementRequested w p s
      else if name = ''engagement_cancelled'' then handleEngagementCancelled w p s
      else return id s)"


section \<open>The dispatcher\<close>

definition payload_engagement :: "payload \<Rightarrow> string option" where
  "payload_engagement p = (case p of
     PList (PStr x # _) \<Rightarrow> Some x
   | PList _ \<Rightarrow> None
   | PStr x \<Rightarrow> Some x
   | _ \<Rightarrow> None)"

text \<open>The insert; an engagement id that is no row violates the foreign key.\<close>

definition saveRawEvent :: "events_env \<Rightarrow> string \<Rightarrow> raw_event \<Rightarrow> payload \<Rightarrow> events_db \<Rightarrow> (events_db, chain_event) outcome" where
  "saveRawEvent w name v p s =
     (let eid = (if truthy (payload_engagement p) then payload_engagement p else None);
          row = \<lparr>c_id = eventRowId w (eventSeq s), c_engagementId = eid, c_eventName = name, c_ledger = v_ledger v,
                 c_txHash = event_hash v, c_payload = (if p = PNull then PObj else p), c_processed = False,
                 c_retryCount = 0, c_lastErrorAt = None\<rparr>
      in if eid \<noteq> None \<and> find_engagement (the eid) (base s) = None then throw PlainError s
         else return row (s\<lparr>chainEvents := chainEvents s @ [row], eventSeq := eventSeq s + 1\<rparr>))"

definition same_event :: "string \<Rightarrow> string \<Rightarrow> chain_event \<Rightarrow> bool" where
  "same_event h name c \<longleftrightarrow> c_txHash c = h \<and> c_eventName c = name"

definition already_processed :: "string \<Rightarrow> events_db \<Rightarrow> bool" where
  "already_processed h s \<longleftrightarrow> list_ex (\<lambda>c. c_txHash c = h \<and> c_processed c) (chainEvents s)"

definition stored_event :: "events_env \<Rightarrow> raw_event \<Rightarrow> events_db \<Rightarrow> (events_db, chain_event) outcome" where
  "stored_event w v s = (case List.find (same_event (event_hash v) (extractEventName v)) (chainEvents s) of
     Some c \<Rightarrow> return c s
   | None \<Rightarrow> saveRawEvent w (extractEventName v) v (extractPayload v) s)"

text \<open>The commit: the writes of the transaction and the mark on the stored event, or neither.\<close>

definition commit_event :: "ident \<Rightarrow> (db \<Rightarrow> db) \<Rightarrow> events_db \<Rightarrow> (events_db, unit) outcome" where
  "commit_event cid writes s =
     (if list_ex (\<lambda>c. c_id c = cid) (chainEvents s)
      then return () (s\<lparr>base := writes (base s),
             chainEvents := update_where (\<lambda>c. c_id c = cid) (\<lambda>c. c\<lparr>c_processed := True\<rparr>) (chainEvents s)\<rparr>)
      else throw RecordNotFound s)"

definition processEvent :: "events_env \<Rightarrow> raw_event \<Rightarrow> events_db \<Rightarrow> (events_db, unit) outcome" where
  "processEvent w v s =
     (if already_processed (event_hash v) s then return () s
      else and_then (stored_event w v s) (\<lambda>c s1.
        if c_processed c then return () s1
        else and_then (handle_event w (extractEventName v) (extractPayload v) s1) (\<lambda>writes s2.
          commit_event (c_id c) writes s2)))"

text \<open>The loop of the poller: an error ends it, and is logged.\<close>

fun poll_loop :: "events_env \<Rightarrow> raw_event list \<Rightarrow> events_db \<Rightarrow> events_db" where
  "poll_loop w [] s = s"
| "poll_loop w (v # vs) s = (case processEvent w v s of
     (Inl _, s1) \<Rightarrow> s1
   | (Inr _, s1) \<Rightarrow> poll_loop w vs (s1\<lparr>lastProcessedLedger := max (lastProcessedLedger s1) (v_ledger v + 1)\<rparr>))"

text \<open>\<open>fetch l\<close> is what \<open>fetchContractEvents\<close> returns from ledger \<open>l\<close> on, the empty list on an error.\<close>

definition pollEvents :: "events_env \<Rightarrow> bool \<Rightarrow> (int \<Rightarrow> raw_event list) \<Rightarrow> events_db \<Rightarrow> events_db" where
  "pollEvents w gotLock fetch s = (if gotLock then poll_loop w (fetch (lastProcessedLedger s)) s else s)"

definition onModuleInit :: "string + int \<Rightarrow> events_db \<Rightarrow> events_db" where
  "onModuleInit tip s = (case tip of
     Inl _ \<Rightarrow> s\<lparr>lastProcessedLedger := 1\<rparr>
   | Inr l \<Rightarrow> s\<lparr>lastProcessedLedger := max 1 (l - 10)\<rparr>)"

definition pseudo_event :: "chain_event \<Rightarrow> raw_event" where
  "pseudo_event c = \<lparr>v_topic = Some (c_eventName c), v_ledger = c_ledger c, v_txHash = Some (c_txHash c),
     v_value = Some (c_payload c)\<rparr>"

definition processChainEventRecord :: "events_env \<Rightarrow> chain_event \<Rightarrow> events_db \<Rightarrow> (events_db, unit) outcome" where
  "processChainEventRecord w c s = processEvent w (pseudo_event c) s"

definition processUnprocessedEvents :: "events_env \<Rightarrow> events_db \<Rightarrow> events_db" where
  "processUnprocessedEvents w s = fold (\<lambda>c s. snd (processChainEventRecord w c s))
     (sort_key c_ledger (filter (\<lambda>c. \<not> c_processed c) (chainEvents s))) s"

section \<open>Retries and dead letters\<close>

definition MAX_RETRIES :: nat where "MAX_RETRIES = 5"

definition backoffMs :: "nat \<Rightarrow> int" where
  "backoffMs n = 2 ^ n * 1000"

definition isEligible :: "time \<Rightarrow> chain_event \<Rightarrow> bool" where
  "isEligible t c = (case c_lastErrorAt c of None \<Rightarrow> True | Some e \<Rightarrow> backoffMs (c_retryCount c) \<le> t - e)"

definition letter_of :: "chain_event \<Rightarrow> dead_letter" where
  "letter_of c = \<lparr>dl_originalId = c_id c, dl_eventName = c_eventName c, dl_txHash = c_txHash c,
     dl_payload = c_payload c, dl_retryCount = c_retryCount c\<rparr>"

definition moveToDeadLetter :: "ident \<Rightarrow> events_db \<Rightarrow> events_db" where
  "moveToDeadLetter cid s = (case List.find (\<lambda>c. c_id c = cid) (chainEvents s) of
     None \<Rightarrow> s
   | Some c \<Rightarrow>
       (let ls = (if list_ex (\<lambda>l. dl_originalId l = cid) (deadLetters s)
                  then update_where (\<lambda>l. dl_originalId l = cid) (\<lambda>l. l\<lparr>dl_retryCount := c_retryCount c\<rparr>) (deadLetters s)
                  else deadLetters s @ [letter_of c])
        in s\<lparr>deadLetters := ls, chainEvents := delete_where (\<lambda>c. c_id c = cid) (chainEvents s)\<rparr>))"

definition recordFailure :: "time \<Rightarrow> ident \<Rightarrow> nat \<Rightarrow> events_db \<Rightarrow> (events_db, unit) outcome" where
  "recordFailure t cid n s =
     (if list_ex (\<lambda>c. c_id c = cid) (chainEvents s)
      then (let s1 = s\<lparr>chainEvents := update_where (\<lambda>c. c_id c = cid)
                   (\<lambda>c. c\<lparr>c_retryCount := n + 1, c_lastErrorAt := Some t\<rparr>) (chainEvents s)\<rparr>
            in return () (if MAX_RETRIES \<le> n + 1 then moveToDeadLetter cid s1 else s1))
      else throw RecordNotFound s)"

fun retry_loop :: "events_env \<Rightarrow> time \<Rightarrow> chain_event list \<Rightarrow> events_db \<Rightarrow> (events_db, unit) outcome" where
  "retry_loop w t [] s = return () s"
| "retry_loop w t (c # cs) s =
     (if \<not> isEligible t c then retry_loop w t cs s
      else (case processChainEventRecord w c s of
              (Inr _, s1) \<Rightarrow> retry_loop w t cs s1
            | (Inl _, s1) \<Rightarrow> and_then (recordFailure t (c_id c) (c_retryCount c) s1) (\<lambda>_ s2. retry_loop w t cs s2)))"

definition retryUnprocessed :: "events_env \<Rightarrow> bool \<Rightarrow> time \<Rightarrow> events_db \<Rightarrow> (events_db, unit) outcome" where
  "retryUnprocessed w gotLock t s =
     (if \<not> gotLock then return () s
      else retry_loop w t (sort_key c_ledger (filter (\<lambda>c. \<not> c_processed c \<and> c_retryCount c < MAX_RETRIES) (chainEvents s))) s)"

section \<open>Listing\<close>

definition event_matches :: "string option \<Rightarrow> string option \<Rightarrow> bool option \<Rightarrow> chain_event \<Rightarrow> bool" where
  "event_matches eid name processed c \<longleftrightarrow> (truthy eid \<longrightarrow> c_engagementId c = eid) \<and>
     (truthy name \<longrightarrow> Some (c_eventName c) = name) \<and> (processed \<noteq> None \<longrightarrow> Some (c_processed c) = processed)"

datatype event_page = CursorPage "chain_event list" "ident option" | NumberedPage "chain_event list" nat

text \<open>Newest ledger first; the empty cursor counts as none.\<close>

definition findAll_events ::
    "string option \<Rightarrow> string option \<Rightarrow> bool option \<Rightarrow> nat \<Rightarrow> nat \<Rightarrow> ident option \<Rightarrow> events_db \<Rightarrow> event_page" where
  "findAll_events eid name processed page limit cursor s =
     (let rows = rev (sort_key c_ledger (filter (event_matches eid name processed) (chainEvents s)))
      in if truthy cursor
         then (case fetch_page c_id limit cursor rows of (es, next) \<Rightarrow> CursorPage es next)
         else NumberedPage (take limit (drop ((page - 1) * limit) rows)) (length rows))"

end
