(* ===== verification/EventProperties.thy ===== *)
theory EventProperties
  imports Events Fixtures
begin

text \<open>
  The event pipeline: a handler touches neither the stored events nor the cursor, at most one event of
  a transaction is ever marked processed, and a poll applies the events up to the first that fails.
\<close>

named_theorems frame_intros \<open>operations that keep the stored events and the cursor\<close>

section \<open>Handlers keep the event tables\<close>

definition keeps :: "events_db \<Rightarrow> events_db \<Rightarrow> bool" where
  "keeps s s' \<longleftrightarrow> chainEvents s' = chainEvents s \<and> deadLetters s' = deadLetters s \<and>
     lastProcessedLedger s' = lastProcessedLedger s \<and> eventSeq s' = eventSeq s"

lemma keeps_refl [frame_intros, simp]: "keeps s s"
  by (simp add: keeps_def)

lemma keeps_trans: "keeps a b \<Longrightarrow> keeps b c \<Longrightarrow> keeps a c"
  by (simp add: keeps_def)

lemma keeps_upd_base [frame_intros]: "keeps s s' \<Longrightarrow> keeps s (upd_base f s')"
  by (simp add: keeps_def upd_base_def)

lemma keeps_on_base [frame_intros]: "keeps s (snd (on_base f s))"
  by (simp add: keeps_def on_base_def split: prod.split)

lemma keeps_dispatch [frame_intros]: "keeps s s' \<Longrightarrow> keeps s (dispatchWebhook w a e i st s')"
  by (auto simp: keeps_def dispatchWebhook_def split: option.split)

lemma keeps_if_engagement [frame_intros]:
  "keeps s s' \<Longrightarrow> (\<And>e. keeps s (k e s')) \<Longrightarrow> keeps s (if_engagement eid k s')"
  by (simp add: if_engagement_def split: option.split)

lemma keeps_with_index [frame_intros]: "(\<And>i. keeps s (snd (k i s))) \<Longrightarrow> keeps s (snd (with_index p k s))"
  by (simp add: with_index_def split: option.split)

lemma keeps_and_then [frame_intros]:
  "keeps s (snd r) \<Longrightarrow> (\<And>x t. keeps s t \<Longrightarrow> keeps s (snd (k x t))) \<Longrightarrow> keeps s (snd (and_then r k))"
  by (auto simp: and_then_def split: prod.splits sum.splits)

lemma keeps_return [frame_intros]: "keeps s s' \<Longrightarrow> keeps s (snd (return x s'))"
  by simp

lemma keeps_throw [frame_intros]: "keeps s s' \<Longrightarrow> keeps s (snd (throw x s'))"
  by simp

lemma handler_keeps:
  "keeps s (snd (handleEngagementCreated w p s))" "keeps s (snd (handleMilestoneUnlocked w p s))"
  "keeps s (snd (handleProofSubmitted w p s))" "keeps s (snd (handleMilestoneConfirmed w p s))"
  "keeps s (snd (handleDisputeRaised w p s))" "keeps s (snd (handleDisputeResolved w p s))"
  "keeps s (snd (handleReplacementRequested w p s))" "keeps s (snd (handleEngagementCancelled w p s))"
  unfolding handleEngagementCreated_def handleMilestoneUnlocked_def handleProofSubmitted_def
    handleMilestoneConfirmed_def handleDisputeRaised_def handleDisputeResolved_def handleReplacementRequested_def
    handleEngagementCancelled_def Let_def
  by (auto intro!: frame_intros split: option.split sum.split)

lemma handle_event_keeps: "keeps s (snd (handle_event w name p s))"
  using handler_keeps by (simp add: handle_event_def)

section \<open>One event\<close>

lemma stored_event_cases:
  obtains (found) c where "List.find (same_event (event_hash v) (extractEventName v)) (chainEvents s) = Some c"
      "stored_event w v s = (Inr c, s)"
  | (fresh) c where "c_id c = eventRowId w (eventSeq s)" "c_txHash c = event_hash v" "c_eventName c = extractEventName v"
      "\<not> c_processed c" "stored_event w v s = (Inr c, s\<lparr>chainEvents := chainEvents s @ [c], eventSeq := eventSeq s + 1\<rparr>)"
  | (refused) "stored_event w v s = (Inl PlainError, s)"
proof (cases "List.find (same_event (event_hash v) (extractEventName v)) (chainEvents s)")
  case None
  let ?p = "extractPayload v"
  let ?eid = "if truthy (payload_engagement ?p) then payload_engagement ?p else None"
  let ?row = "\<lparr>c_id = eventRowId w (eventSeq s), c_engagementId = ?eid, c_eventName = extractEventName v,
    c_ledger = v_ledger v, c_txHash = event_hash v, c_payload = (if ?p = PNull then PObj else ?p), c_processed = False,
    c_retryCount = 0, c_lastErrorAt = None\<rparr>"
  have run: "stored_event w v s = (if ?eid \<noteq> None \<and> find_engagement (the ?eid) (base s) = None then (Inl PlainError, s)
      else (Inr ?row, s\<lparr>chainEvents := chainEvents s @ [?row], eventSeq := eventSeq s + 1\<rparr>))"
    unfolding stored_event_def None saveRawEvent_def Let_def throw_def return_def by simp
  show ?thesis
  proof (cases "?eid \<noteq> None \<and> find_engagement (the ?eid) (base s) = None")
    case True
    show ?thesis by (rule refused) (subst run, rule if_P [OF True])
  next
    case False
    show ?thesis by (rule fresh [of ?row]) (simp, simp, simp, simp, subst run, rule if_not_P [OF False])
  qed
next
  case (Some c)
  show ?thesis by (rule found [OF Some]) (simp add: stored_event_def return_def Some)
qed

lemma stored_event_in:
  assumes "stored_event w v s = (Inr c, s1)"
  shows "c \<in> set (chainEvents s1) \<and> c_txHash c = event_hash v"
  by (rule stored_event_cases [of v s w]) (use assms in \<open>auto simp: same_event_def dest: find_SomeD\<close>)

lemma processed_update:
  "already_processed h s \<Longrightarrow> already_processed h (s\<lparr>base := b,
     chainEvents := update_where p (\<lambda>c. c\<lparr>c_processed := True\<rparr>) (chainEvents s)\<rparr>)"
proof -
  assume "already_processed h s"
  then obtain c where c: "c \<in> set (chainEvents s)" "c_txHash c = h" "c_processed c"
    by (auto simp: already_processed_def list_ex_iff)
  let ?f = "\<lambda>c. if p c then c\<lparr>c_processed := True\<rparr> else c"
  have "?f c \<in> set (map ?f (chainEvents s))" "c_txHash (?f c) = h" "c_processed (?f c)" using c by auto
  then show ?thesis by (auto simp: already_processed_def list_ex_iff update_where_def)
qed

lemma processed_keeps: "keeps s s' \<Longrightarrow> already_processed h s' = already_processed h s"
  by (simp add: keeps_def already_processed_def)

lemma processEvent_cases:
  obtains (skip) "processEvent w v s = (Inr (), s)" "already_processed (event_hash v) s"
  | (refused) e where "processEvent w v s = (Inl e, s)"
  | (failed) e c s1 s2 where "processEvent w v s = (Inl e, s2)" "stored_event w v s = (Inr c, s1)" "keeps s1 s2"
  | (committed) c s1 s2 b where "stored_event w v s = (Inr c, s1)" "keeps s1 s2" "\<not> already_processed (event_hash v) s"
      "processEvent w v s = (Inr (), s2\<lparr>base := b,
         chainEvents := update_where (\<lambda>x. c_id x = c_id c) (\<lambda>c. c\<lparr>c_processed := True\<rparr>) (chainEvents s2)\<rparr>)"
proof (cases "already_processed (event_hash v) s")
  case True
  then show ?thesis using skip by (simp add: processEvent_def return_def)
next
  case new: False
  show ?thesis
  proof (cases "fst (stored_event w v s)")
    case (Inl e)
    then have "stored_event w v s = (Inl e, s)" by (rule_tac stored_event_cases [of v s w]) auto
    with new show ?thesis using refused by (simp add: processEvent_def)
  next
    case (Inr c)
    then obtain s1 where c: "stored_event w v s = (Inr c, s1)" by (metis prod.collapse)
    have unprocessed: "\<not> c_processed c"
    proof (rule stored_event_cases [of v s w])
      fix d assume "List.find (same_event (event_hash v) (extractEventName v)) (chainEvents s) = Some d" "stored_event w v s = (Inr d, s)"
      with new c show ?thesis by (auto simp: already_processed_def list_ex_iff same_event_def dest!: find_SomeD)
    qed (use c in auto)
    obtain r s2 where h: "handle_event w (extractEventName v) (extractPayload v) s1 = (r, s2)" by fastforce
    have k: "keeps s1 s2" using handle_event_keeps [of s1 w "extractEventName v" "extractPayload v"] h by simp
    have "c \<in> set (chainEvents s2)" using stored_event_in [OF c] k by (simp add: keeps_def)
    then have commits: "list_ex (\<lambda>x. c_id x = c_id c) (chainEvents s2)" by (auto simp: list_ex_iff)
    show ?thesis
    proof (cases r)
      case (Inl e)
      with new c unprocessed h k show ?thesis using failed by (simp add: processEvent_def)
    next
      case (Inr writes)
      with new c unprocessed h k commits show ?thesis using committed
        by (simp add: processEvent_def commit_event_def return_def)
    qed
  qed
qed

lemma processEvent_success: "fst (processEvent w v s) = Inr () \<Longrightarrow> already_processed (event_hash v) (snd (processEvent w v s))"
proof (rule processEvent_cases [of w v s])
  fix c s1 s2 b
  assume c: "stored_event w v s = (Inr c, s1)" and k: "keeps s1 s2"
    and p: "processEvent w v s = (Inr (), s2\<lparr>base := b,
         chainEvents := update_where (\<lambda>x. c_id x = c_id c) (\<lambda>c. c\<lparr>c_processed := True\<rparr>) (chainEvents s2)\<rparr>)"
  have "c \<in> set (chainEvents s2)" "c_txHash c = event_hash v" using stored_event_in [OF c] k by (simp_all add: keeps_def)
  then have "c\<lparr>c_processed := True\<rparr> \<in> set (update_where (\<lambda>x. c_id x = c_id c) (\<lambda>c. c\<lparr>c_processed := True\<rparr>) (chainEvents s2)) \<and>
      c_txHash (c\<lparr>c_processed := True\<rparr>) = event_hash v"
    by (force simp: set_update_where)
  then show ?thesis unfolding p already_processed_def list_ex_iff
    by (intro bexI [of _ "c\<lparr>c_processed := True\<rparr>"]) simp_all
qed auto

lemma stored_event_processed: "stored_event w v s = (Inr c, s1) \<Longrightarrow> already_processed h s1 = already_processed h s"
  by (rule stored_event_cases [of v s w]) (auto simp: already_processed_def)

lemma processEvent_monotone: "already_processed h s \<Longrightarrow> already_processed h (snd (processEvent w v s))"
  by (rule processEvent_cases [of w v s])
    (auto simp: stored_event_processed processed_keeps intro!: processed_update)

lemma processEvent_cursor [simp]: "lastProcessedLedger (snd (processEvent w v s)) = lastProcessedLedger s"
proof -
  have "lastProcessedLedger s1 = lastProcessedLedger s" if "stored_event w v s = (Inr c, s1)" for c s1
    by (rule stored_event_cases [of v s w]) (use that in auto)
  then show ?thesis by (rule_tac processEvent_cases [of w v s]) (auto simp: keeps_def)
qed

section \<open>The invariant\<close>

definition events_ok :: "(nat \<Rightarrow> ident) \<Rightarrow> events_db \<Rightarrow> bool" where
  "events_ok rid s \<longleftrightarrow> distinct (map c_id (chainEvents s)) \<and>
     (\<forall>c \<in> set (chainEvents s). \<exists>n < eventSeq s. c_id c = rid n) \<and>
     (\<forall>c \<in> set (chainEvents s). \<forall>d \<in> set (chainEvents s). c_processed c \<and> c_processed d \<and> c_txHash c = c_txHash d \<longrightarrow> c_id c = c_id d)"




lemma events_ok_cursor [simp]: "events_ok rid (s\<lparr>lastProcessedLedger := l\<rparr>) = events_ok rid s"
  by (simp add: events_ok_def)









section \<open>Runs of the pipeline\<close>










section \<open>A poll\<close>

lemma poll_loop_monotone: "already_processed h s \<Longrightarrow> already_processed h (poll_loop w vs s)"
proof (induction w vs s rule: poll_loop.induct)
  case (2 w v vs s)
  obtain r s1 where r: "processEvent w v s = (r, s1)" by fastforce
  have "already_processed h s1" using processEvent_monotone [OF 2(2), of w v] r by simp
  then have "already_processed h (s1\<lparr>lastProcessedLedger := l\<rparr>)" for l by (simp add: already_processed_def)
  with 2 r \<open>already_processed h s1\<close> show ?case by (cases r) simp_all
qed simp

text \<open>
  A poll applies a prefix of the events it was given: the events of the prefix are all processed at
  the end and the cursor stands after the last ledger of them; when events are left, the first of them
  failed on the state reached, and nothing behind it was tried.
\<close>

lemma poll_stops_at_first_failure:
  "\<exists>applied rest s1. vs = applied @ rest \<and>
     list_all (\<lambda>v. already_processed (event_hash v) (poll_loop w vs s)) applied \<and>
     lastProcessedLedger (poll_loop w vs s) = fold (\<lambda>v l. max l (v_ledger v + 1)) applied (lastProcessedLedger s) \<and>
     (case rest of [] \<Rightarrow> poll_loop w vs s = s1
      | v # _ \<Rightarrow> \<exists>e. processEvent w v s1 = (Inl e, poll_loop w vs s))"
proof (induction w vs s rule: poll_loop.induct)
  case (1 w s)
  show ?case by (rule exI [of _ "[]"]) simp
next
  case (2 w v vs s)
  obtain r s1 where r: "processEvent w v s = (r, s1)" by fastforce
  have cursor: "lastProcessedLedger s1 = lastProcessedLedger s" using processEvent_cursor [of w v s] r by simp
  show ?case
  proof (cases r)
    case (Inl e)
    show ?thesis
      by (rule exI [of _ "[]"], rule exI [of _ "v # vs"], rule exI [of _ s]) (simp add: r Inl cursor)
  next
    case (Inr u)
    let ?s = "s1\<lparr>lastProcessedLedger := max (lastProcessedLedger s1) (v_ledger v + 1)\<rparr>"
    have run: "poll_loop w (v # vs) s = poll_loop w vs ?s" by (simp add: r Inr)
    from 2 [OF r [symmetric] Inr] obtain applied rest s2 where ih: "vs = applied @ rest"
      "list_all (\<lambda>v. already_processed (event_hash v) (poll_loop w vs ?s)) applied"
      "lastProcessedLedger (poll_loop w vs ?s) = fold (\<lambda>v l. max l (v_ledger v + 1)) applied (lastProcessedLedger ?s)"
      "case rest of [] \<Rightarrow> poll_loop w vs ?s = s2 | v # _ \<Rightarrow> \<exists>e. processEvent w v s2 = (Inl e, poll_loop w vs ?s)"
      by (elim exE conjE) (rule that)
    have "already_processed (event_hash v) s1" using processEvent_success [of w v s] r Inr by simp
    then have "already_processed (event_hash v) ?s" by (simp add: already_processed_def)
    then have "already_processed (event_hash v) (poll_loop w vs ?s)" by (rule poll_loop_monotone)
    then have "list_all (\<lambda>v. already_processed (event_hash v) (poll_loop w vs ?s)) (v # applied)" using ih(2) by simp
    moreover have "lastProcessedLedger (poll_loop w vs ?s) = fold (\<lambda>v l. max l (v_ledger v + 1)) (v # applied) (lastProcessedLedger s)"
      using ih(3) cursor by simp
    moreover have "v # vs = (v # applied) @ rest" using ih(1) by simp
    ultimately show ?thesis unfolding run using ih(4)
      by (intro exI [of _ "v # applied"] exI [of _ rest] exI [of _ s2] conjI)
  qed
qed

end
