(* ===== verification/Schedulers.thy ===== *)
theory Schedulers
  imports Fixtures
begin

text \<open>
  The jobs that watch the calendar: \<^verbatim>\<open>modules/events/retention-scheduler.service.ts\<close> (a warning three days
  before a retention period ends, and the unlocking of its milestone once the contract confirms it) and
  \<^verbatim>\<open>modules/events/placement-reminder-scheduler.service.ts\<close>.

  A notification is logged with the engagement and the milestone index of its metadata, which tell the
  notifications of one type apart.  The locale \<open>marked_job\<close> states what a job owes that selects the rows
  without a mark, sends and then sets the mark; both the unlocking and the reminders interpret it.
\<close>

section \<open>State\<close>

type_synonym notice = "recipient \<times> notification_type \<times> ident \<times> nat"

record jobs_db =
  j_db :: db
  j_notices :: "notice list"

text \<open>
  \<open>timezoneOf\<close> is the column \<open>timezone\<close> of the user with that id; \<open>localHour\<close> the hour that
  \<open>toLocaleString\<close> prints for a zone, nothing when the zone is unknown (a RangeError); \<open>reminderDays\<close> the
  setting \<open>milestones.placementReminderDays\<close>.
\<close>

record jobs_env =
  j_world :: env
  timezoneOf :: "ident \<Rightarrow> string option"
  localHour :: "string \<Rightarrow> time \<Rightarrow> int option"
  reminderDays :: int

definition on_db :: "(db \<Rightarrow> db) \<Rightarrow> jobs_db \<Rightarrow> jobs_db" where
  "on_db f s = s\<lparr>j_db := f (j_db s)\<rparr>"

definition notifyAbout :: "recipient \<Rightarrow> notification_type \<Rightarrow> ident \<Rightarrow> nat \<Rightarrow> jobs_db \<Rightarrow> jobs_db" where
  "notifyAbout r t eid i s = s\<lparr>j_notices := j_notices s @ [(r, t, eid, i)]\<rparr>"

definition update_schedule :: "ident \<Rightarrow> (schedule \<Rightarrow> schedule) \<Rightarrow> db \<Rightarrow> db" where
  "update_schedule sid f s = s\<lparr>t_schedules := update_where (\<lambda>x. s_id x = sid) f (t_schedules s)\<rparr>"

section \<open>The warning three days before\<close>

definition isWithinLocalHours :: "jobs_env \<Rightarrow> string option \<Rightarrow> bool option" where
  "isWithinLocalHours w tz =
     map_option (\<lambda>h. 9 \<le> h \<and> h \<le> 18)
       (localHour w (if truthy tz then the tz else ''UTC'') (now (j_world w)))"

fun warn_users :: "jobs_env \<Rightarrow> schedule \<Rightarrow> user list \<Rightarrow> jobs_db \<Rightarrow> (jobs_db, unit) outcome" where
  "warn_users w sc [] s = return () s"
| "warn_users w sc (u # us) s = (case isWithinLocalHours w (timezoneOf w (u_id u)) of
     None \<Rightarrow> throw PlainError s
   | Some False \<Rightarrow> warn_users w sc us s
   | Some True \<Rightarrow>
       if truthy (u_stellarAddress u)
       then warn_users w sc us (notifyAbout (ByAddress (the (u_stellarAddress u)))
              RETENTION_WINDOW_APPROACHING (s_engagementId sc) (s_index sc) s)
       else warn_users w sc us s)"

definition parties :: "engagement \<Rightarrow> db \<Rightarrow> user list" where
  "parties e s = filter (\<lambda>u. u_stellarAddress u \<in> {Some (e_companyAddress e), Some (e_recruiterAddress e)}) (t_users s)"

definition warn_one :: "jobs_env \<Rightarrow> schedule \<Rightarrow> jobs_db \<Rightarrow> (jobs_db, unit) outcome" where
  "warn_one w sc s = (case find_engagement (s_engagementId sc) (j_db s) of
     None \<Rightarrow> return () s
   | Some e \<Rightarrow>
       and_then (warn_users w sc (parties e (j_db s)) s) (\<lambda>_ s.
         return () (on_db (update_schedule (s_id sc) (\<lambda>x. x\<lparr>s_notified := True\<rparr>)) s)))"

definition due_soon :: "jobs_env \<Rightarrow> schedule \<Rightarrow> bool" where
  "due_soon w sc \<longleftrightarrow> s_notifyAt sc \<le> now (j_world w) \<and> \<not> s_notified sc \<and> \<not> s_unlocked sc"


section \<open>Unlocking\<close>

text \<open>\<open>milestone.updateMany\<close>, guarded by the status.\<close>

definition mark_pending :: "ident \<Rightarrow> nat \<Rightarrow> db \<Rightarrow> db" where
  "mark_pending eid i s = s\<lparr>t_milestones := update_where
     (\<lambda>m. m_engagementId m = eid \<and> m_index m = i \<and> m_status m = LOCKED)
     (\<lambda>m. m\<lparr>m_status := PENDING\<rparr>) (t_milestones s)\<rparr>"

definition unlock_one :: "jobs_env \<Rightarrow> schedule \<Rightarrow> jobs_db \<Rightarrow> jobs_db" where
  "unlock_one w sc s =
     (if unlockable (j_world w) (s_engagementId sc) (s_index sc) then
        let s = on_db (mark_pending (s_engagementId sc) (s_index sc)) s;
            s = on_db (update_schedule (s_id sc) (\<lambda>x. x\<lparr>s_unlocked := True\<rparr>)) s
        in (case find_engagement (s_engagementId sc) (j_db s) of
              None \<Rightarrow> s
            | Some e \<Rightarrow> notifyAbout (ByAddress (e_recruiterAddress e)) MILESTONE_UNLOCKED
                (s_engagementId sc) (s_index sc) s)
      else s)"

definition due_for_unlock :: "jobs_env \<Rightarrow> schedule \<Rightarrow> bool" where
  "due_for_unlock w sc \<longleftrightarrow> s_unlockAt sc \<le> now (j_world w) \<and> \<not> s_unlocked sc"

definition checkAndMarkUnlockable :: "jobs_env \<Rightarrow> jobs_db \<Rightarrow> jobs_db" where
  "checkAndMarkUnlockable w s =
     foldl (\<lambda>s sc. unlock_one w sc s) s (filter (due_for_unlock w) (t_schedules (j_db s)))"

section \<open>Placement reminders\<close>




section \<open>Jobs that mark what they have sent\<close>


section \<open>The unlocking\<close>

definition s_key :: "schedule \<Rightarrow> ident \<times> nat" where
  "s_key sc = (s_engagementId sc, s_index sc)"

definition s_tag :: "schedule \<Rightarrow> ident \<times> ident \<times> nat" where
  "s_tag sc = (s_id sc, s_key sc)"

definition m_key :: "milestone \<Rightarrow> ident \<times> nat" where
  "m_key m = (m_engagementId m, m_index m)"

definition m_tag :: "milestone \<Rightarrow> ident \<times> ident \<times> nat" where
  "m_tag m = (m_id m, m_key m)"


text \<open>The unique indexes of the two tables: the id, and the pair of engagement and milestone index.\<close>

definition wf_schedules :: "jobs_db \<Rightarrow> bool" where
  "wf_schedules s \<longleftrightarrow> distinct (map s_id (t_schedules (j_db s))) \<and> distinct (map s_key (t_schedules (j_db s)))"


definition confirmed :: "jobs_env \<Rightarrow> schedule \<Rightarrow> bool" where
  "confirmed w sc \<longleftrightarrow> unlockable (j_world w) (s_engagementId sc) (s_index sc)"

definition unlock_notices :: "jobs_env \<Rightarrow> engagement list \<Rightarrow> schedule list \<Rightarrow> notice list" where
  "unlock_notices w es xs = concat (map (\<lambda>sc.
     case List.find (\<lambda>e. e_id e = s_engagementId sc) es of
       Some e \<Rightarrow> [(ByAddress (e_recruiterAddress e), MILESTONE_UNLOCKED, s_engagementId sc, s_index sc)]
     | None \<Rightarrow> []) (filter (confirmed w) xs))"

definition unlocked_milestone :: "schedule set \<Rightarrow> milestone \<Rightarrow> milestone" where
  "unlocked_milestone X m = (if m_status m = LOCKED \<and> m_key m \<in> s_key ` X then m\<lparr>m_status := PENDING\<rparr> else m)"

definition unlocked_schedule :: "schedule set \<Rightarrow> schedule \<Rightarrow> schedule" where
  "unlocked_schedule X x = (if s_id x \<in> s_id ` X then x\<lparr>s_unlocked := True\<rparr> else x)"

lemma unlock_one_eq:
  "unlock_one w sc s = s\<lparr>j_db := (j_db s)\<lparr>
       t_milestones := map (unlocked_milestone {x. x = sc \<and> confirmed w sc}) (t_milestones (j_db s)),
       t_schedules := map (unlocked_schedule {x. x = sc \<and> confirmed w sc}) (t_schedules (j_db s))\<rparr>,
     j_notices := j_notices s @ unlock_notices w (t_engagements (j_db s)) [sc]\<rparr>"
proof (cases "confirmed w sc")
  case True
  then have X: "{x. x = sc \<and> confirmed w sc} = {sc}" by auto
  have m: "map (unlocked_milestone {sc}) ms = update_where
     (\<lambda>m. m_engagementId m = s_engagementId sc \<and> m_index m = s_index sc \<and> m_status m = LOCKED)
     (\<lambda>m. m\<lparr>m_status := PENDING\<rparr>) ms" for ms
    by (induction ms) (auto simp: unlocked_milestone_def m_key_def s_key_def)
  have x: "map (unlocked_schedule {sc}) xs = update_where (\<lambda>x. s_id x = s_id sc) (\<lambda>x. x\<lparr>s_unlocked := True\<rparr>) xs" for xs
    by (induction xs) (auto simp: unlocked_schedule_def)
  show ?thesis unfolding X m x using True
    by (simp add: unlock_one_def confirmed_def unlock_notices_def on_db_def mark_pending_def update_schedule_def
        notifyAbout_def find_engagement_def Let_def split: option.splits)
next
  case False
  have e: "map (unlocked_milestone {}) ms = ms" "map (unlocked_schedule {}) xs = xs" for ms xs
    by (simp_all add: unlocked_milestone_def unlocked_schedule_def map_idI)
  from False have X: "{x. x = sc \<and> confirmed w sc} = {}" by auto
  show ?thesis unfolding X e using False by (simp add: unlock_one_def confirmed_def unlock_notices_def)
qed

lemma unlocked_milestone_twice:
  "unlocked_milestone Y (unlocked_milestone X m) = unlocked_milestone (X \<union> Y) m"
  by (cases m) (auto simp: unlocked_milestone_def m_key_def)

lemma unlocked_schedule_twice:
  "unlocked_schedule Y (unlocked_schedule X x) = unlocked_schedule (X \<union> Y) x"
  by (auto simp: unlocked_schedule_def)

lemma unlock_loop_eq:
  "foldl (\<lambda>s sc. unlock_one w sc s) s xs = s\<lparr>j_db := (j_db s)\<lparr>
       t_milestones := map (unlocked_milestone {x \<in> set xs. confirmed w x}) (t_milestones (j_db s)),
       t_schedules := map (unlocked_schedule {x \<in> set xs. confirmed w x}) (t_schedules (j_db s))\<rparr>,
     j_notices := j_notices s @ unlock_notices w (t_engagements (j_db s)) xs\<rparr>"
proof (induction xs arbitrary: s)
  case Nil
  have "map (unlocked_milestone {}) ms = ms" "map (unlocked_schedule {}) ys = ys" for ms ys
    by (simp_all add: unlocked_milestone_def unlocked_schedule_def map_idI)
  then show ?case by (simp add: unlock_notices_def)
next
  case (Cons sc xs)
  have X: "{x. x = sc \<and> confirmed w sc} \<union> {x \<in> set xs. confirmed w x} = {x \<in> set (sc # xs). confirmed w x}" by auto
  have n: "unlock_notices w es (sc # xs) = unlock_notices w es [sc] @ unlock_notices w es xs" for es
    by (simp add: unlock_notices_def)
  have step: "foldl (\<lambda>s sc. unlock_one w sc s) s (sc # xs) =
      foldl (\<lambda>s sc. unlock_one w sc s) (unlock_one w sc s) xs" by simp
  have f: "t_engagements (j_db (unlock_one w sc s)) = t_engagements (j_db s)" by (simp add: unlock_one_eq)
  show ?case unfolding step Cons.IH [of "unlock_one w sc s"] f
    unfolding n unlock_one_eq X [symmetric]
    by (simp add: unlocked_milestone_twice unlocked_schedule_twice comp_def)
qed

lemma unlocked_schedule_simps [simp]:
  "s_id (unlocked_schedule X x) = s_id x" "s_key (unlocked_schedule X x) = s_key x"
  "s_tag (unlocked_schedule X x) = s_tag x"
  "s_unlocked (unlocked_schedule X x) \<longleftrightarrow> s_unlocked x \<or> s_id x \<in> s_id ` X"
  by (auto simp: unlocked_schedule_def s_tag_def s_key_def)

lemma unlocked_milestone_simps [simp]:
  "m_id (unlocked_milestone X m) = m_id m" "m_key (unlocked_milestone X m) = m_key m"
  "m_tag (unlocked_milestone X m) = m_tag m" "m_reminderSent (unlocked_milestone X m) = m_reminderSent m"
  by (auto simp: unlocked_milestone_def m_tag_def m_key_def)







section \<open>The reminders\<close>




text \<open>
  What the calendar jobs guarantee: milestones unlock exactly as the contract confirms, and no party is told
  of an unlocking or of a placement date twice, however the jobs and the other services interleave.
\<close>

section \<open>Runs of the three jobs\<close>




section \<open>What a job leaves alone\<close>















section \<open>Properties\<close>

lemma unlocked_of_table:
  assumes "distinct (map s_id xs)" and "x \<in> set xs"
  shows "unlocked_schedule {y \<in> set (filter p xs). q y} x = (if p x \<and> q x then x\<lparr>s_unlocked := True\<rparr> else x)"
proof -
  have "y = x" if "y \<in> set xs" "s_id y = s_id x" for y
    using assms that by (auto simp: distinct_map inj_on_def)
  then have "s_id x \<in> s_id ` {y \<in> set (filter p xs). q y} \<longleftrightarrow> p x \<and> q x"
    using assms(2) by (auto simp: image_iff)
  then show ?thesis by (simp add: unlocked_schedule_def)
qed

text \<open>
  The unlocking job follows the contract: of the schedules whose estimated time has come it marks exactly
  those the contract confirms, turns exactly their milestones from LOCKED to PENDING and leaves every other
  milestone and status alone, and tells the recruiter of each of them, in order; nothing else changes.
\<close>
lemma milestones_unlock_as_confirmed:
  fixes s :: jobs_db and w :: jobs_env
  assumes "wf_schedules s"
  defines "ready \<equiv> filter (\<lambda>x. due_for_unlock w x \<and> confirmed w x) (t_schedules (j_db s))"
  shows "checkAndMarkUnlockable w s = s\<lparr>j_db := (j_db s)\<lparr>
       t_milestones := map (\<lambda>m. if m_status m = LOCKED \<and> m_key m \<in> set (map s_key ready)
                                 then m\<lparr>m_status := PENDING\<rparr> else m) (t_milestones (j_db s)),
       t_schedules := map (\<lambda>x. if due_for_unlock w x \<and> confirmed w x
                                then x\<lparr>s_unlocked := True\<rparr> else x) (t_schedules (j_db s))\<rparr>,
     j_notices := j_notices s @ unlock_notices w (t_engagements (j_db s)) ready\<rparr>"
proof -
  let ?xs = "t_schedules (j_db s)" and ?due = "filter (due_for_unlock w) (t_schedules (j_db s))"
  have r: "{x \<in> set ?due. confirmed w x} = set ready" by (auto simp: ready_def)
  have m: "map (unlocked_milestone (set ready)) ms = map (\<lambda>m. if m_status m = LOCKED \<and> m_key m \<in> set (map s_key ready)
      then m\<lparr>m_status := PENDING\<rparr> else m) ms" for ms
    by (simp add: unlocked_milestone_def)
  have "distinct (map s_id ?xs)" using assms(1) by (simp add: wf_schedules_def)
  then have x: "map (unlocked_schedule {x \<in> set ?due. confirmed w x}) ?xs =
      map (\<lambda>x. if due_for_unlock w x \<and> confirmed w x then x\<lparr>s_unlocked := True\<rparr> else x) ?xs"
    by (intro map_cong refl unlocked_of_table)
  have f: "filter (confirmed w) ?due = filter (confirmed w) ready"
    unfolding ready_def filter_filter by (rule filter_cong) auto
  have n: "unlock_notices w es ?due = unlock_notices w es ready" for es
    by (simp only: unlock_notices_def f)
  show ?thesis unfolding checkAndMarkUnlockable_def unlock_loop_eq r n m x [unfolded r] ..
qed


section \<open>Where the warning fails\<close>

text \<open>
  A schedule is marked as warned even when the hour is inconvenient for both parties: the warning is then
  never sent, for a marked schedule is not selected again.
\<close>

lemma nobody_awake:
  "list_all (\<lambda>u. isWithinLocalHours w (timezoneOf w (u_id u)) = Some False) us \<Longrightarrow> warn_users w sc us s = return () s"
  by (induction us) auto

theorem warning_lost_at_night:
  assumes "find_engagement (s_engagementId sc) (j_db s) = Some e"
    and "list_all (\<lambda>u. isWithinLocalHours w (timezoneOf w (u_id u)) = Some False) (parties e (j_db s))"
    and "x \<in> set (t_schedules (j_db (snd (warn_one w sc s))))" and "s_id x = s_id sc"
  shows "j_notices (snd (warn_one w sc s)) = j_notices s \<and> \<not> due_soon w' x"
proof -
  have w: "warn_one w sc s = return () (on_db (update_schedule (s_id sc) (\<lambda>x. x\<lparr>s_notified := True\<rparr>)) s)"
    using assms(1) nobody_awake [OF assms(2), of sc s] by (simp add: warn_one_def)
  then have "x \<in> (\<lambda>r. if s_id r = s_id sc then r\<lparr>s_notified := True\<rparr> else r) ` set (t_schedules (j_db s))"
    using assms(3) by (simp add: on_db_def update_schedule_def set_update_where)
  then have "s_notified x" using assms(4) by (auto split: if_splits)
  with w show ?thesis by (simp add: due_soon_def on_db_def)
qed

section \<open>A concrete run\<close>

definition sched1 :: schedule where
  "sched1 = \<lparr>s_id = ''s1'', s_engagementId = ''e1'', s_index = 1, s_validAfterLedger = 5, s_unlockAt = 400000000,
     s_notifyAt = 140800000, s_unlocked = False, s_notified = False\<rparr>"

definition jobs0 :: jobs_db where
  "jobs0 = \<lparr>j_db = world_db\<lparr>t_schedules := [sched1]\<rparr>, j_notices = []\<rparr>"

definition jobs_env1 :: jobs_env where
  "jobs_env1 = \<lparr>j_world = env1, timezoneOf = (\<lambda>_. None), localHour = (\<lambda>_ _. Some 12), reminderDays = 7\<rparr>"

lemmas jobs_world = jobs0_def jobs_env1_def sched1_def fixture_simps

lemma milestones_unlock_as_confirmed_witness:
  "wf_schedules jobs0 \<and>
   map m_status (t_milestones (j_db (checkAndMarkUnlockable jobs_env1 jobs0))) = [DISPUTED, PENDING, LOCKED] \<and>
   j_notices (checkAndMarkUnlockable jobs_env1 jobs0) = [(ByAddress ''GR'', MILESTONE_UNLOCKED, ''e1'', 1)]"
proof -
  have wf: "wf_schedules jobs0" by (simp add: wf_schedules_def jobs_world)
  show ?thesis unfolding milestones_unlock_as_confirmed [OF wf, of jobs_env1] using wf
    by (simp add: jobs_world due_for_unlock_def confirmed_def unlock_notices_def s_key_def m_key_def)
qed


end
