(* ===== verification/ChainWatch.thy ===== *)
theory ChainWatch
  imports Fixtures Billing JsText
begin

text \<open>
  The jobs of \<^verbatim>\<open>modules/admin\<close> that watch the Stellar network for the administrators: merged accounts
  (\<^verbatim>\<open>stellar-merge-detector.service.ts\<close>), the balance of the backend's own account
  (\<^verbatim>\<open>stellar-balance-alert.service.ts\<close>) and the nightly comparison of the engagements with the contract
  (\<^verbatim>\<open>reconciliation.service.ts\<close>).
\<close>

section \<open>State\<close>

text \<open>
  \<open>x_config\<close> is the table \<open>SystemConfig\<close>; a notification is logged with the engagement of its metadata (the
  empty string where it has none).
\<close>

record watch_db =
  x_db :: db
  x_config :: "string \<Rightarrow> string option"
  x_notices :: "(recipient \<times> notification_type \<times> ident) list"

definition notifyAdmin :: "recipient \<Rightarrow> notification_type \<Rightarrow> ident \<Rightarrow> watch_db \<Rightarrow> watch_db" where
  "notifyAdmin r t eid s = s\<lparr>x_notices := x_notices s @ [(r, t, eid)]\<rparr>"

text \<open>\<open>where: { role: 'ADMIN', deactivatedAt: null }\<close>, told one after the other.\<close>

definition alert_admins :: "db \<Rightarrow> user list" where
  "alert_admins d = filter (\<lambda>u. u_role u = ADMIN \<and> u_deactivatedAt u = None) (t_users d)"

definition tell_admins :: "notification_type \<Rightarrow> ident \<Rightarrow> watch_db \<Rightarrow> watch_db" where
  "tell_admins t eid s = foldl (\<lambda>s a. notifyAdmin (ById (u_id a)) t eid s) s (alert_admins (x_db s))"

definition upsert_config :: "string \<Rightarrow> string \<Rightarrow> watch_db \<Rightarrow> watch_db" where
  "upsert_config k v s = s\<lparr>x_config := (x_config s)(k := Some v)\<rparr>"

section \<open>Merged accounts\<close>

text \<open>An operation of Horizon, as far as it is read.\<close>

record horizon_op =
  ho_type :: string
  ho_pagingToken :: "string option"

text \<open>
  \<open>operations\<close> answers the request for the operations of an account, oldest first, after a cursor or from the
  beginning of its history; nothing when the request fails.
\<close>

record merge_env =
  horizonUrl :: "string option"
  operations :: "string \<Rightarrow> string option \<Rightarrow> horizon_op list option"

definition MERGE_CURSOR_KEY :: string where
  "MERGE_CURSOR_KEY = ''stellar_merge_last_paging_token''"

definition live_engagements :: "db \<Rightarrow> engagement list" where
  "live_engagements d = filter (\<lambda>e. e_status e \<in> {ACTIVE, REPLACEMENT_REQUESTED}) (t_engagements d)"

definition merge_addresses :: "engagement \<Rightarrow> string list" where
  "merge_addresses e = [e_companyAddress e, e_recruiterAddress e, e_arbiterAddress e]"

text \<open>A \<open>Set\<close> is iterated in the order of first insertion.\<close>

definition address_set :: "engagement list \<Rightarrow> string list" where
  "address_set es = rev (remdups (rev (concat (map merge_addresses es))))"

definition flag_engagement :: "engagement \<Rightarrow> watch_db \<Rightarrow> watch_db" where
  "flag_engagement e s = (case find_engagement (e_id e) (x_db s) of
     None \<Rightarrow> s
   | Some c \<Rightarrow>
       if e_status c = ACCOUNT_MERGED then s
       else tell_admins ACCOUNT_MERGE_DETECTED (e_id e)
              (s\<lparr>x_db := update_engagement (e_id e) (\<lambda>x. x\<lparr>e_status := ACCOUNT_MERGED\<rparr>) (x_db s)\<rparr>))"

definition flagMergedEngagements :: "string \<Rightarrow> engagement list \<Rightarrow> watch_db \<Rightarrow> watch_db" where
  "flagMergedEngagements a es s =
     foldl (\<lambda>s e. flag_engagement e s) s (filter (\<lambda>e. a \<in> set (merge_addresses e)) es)"

definition newer_token :: "horizon_op \<Rightarrow> string \<Rightarrow> string" where
  "newer_token p m = (if truthy (ho_pagingToken p) \<and> js_less m (the (ho_pagingToken p)) then the (ho_pagingToken p) else m)"

definition scan_op :: "engagement list \<Rightarrow> string \<Rightarrow> horizon_op \<Rightarrow> string \<times> watch_db \<Rightarrow> string \<times> watch_db" where
  "scan_op es a p ms = (newer_token p (fst ms),
     if ho_type p = ''account_merge'' then flagMergedEngagements a es (snd ms) else snd ms)"

definition scan_address :: "merge_env \<Rightarrow> string option \<Rightarrow> engagement list \<Rightarrow> string \<Rightarrow> string \<times> watch_db \<Rightarrow> string \<times> watch_db" where
  "scan_address w cur es a ms = (case operations w a cur of
     None \<Rightarrow> ms
   | Some ops \<Rightarrow> foldl (\<lambda>ms p. scan_op es a p ms) ms ops)"

definition run_detector :: "merge_env \<Rightarrow> watch_db \<Rightarrow> watch_db" where
  "run_detector w s = (let es = live_engagements (x_db s) in
     if \<not> truthy (horizonUrl w) \<or> es = [] then s
     else let token = (case x_config s MERGE_CURSOR_KEY of None \<Rightarrow> ''now'' | Some v \<Rightarrow> v);
              cur = (if token = ''now'' then None else Some token);
              (m, s) = foldl (\<lambda>ms a. scan_address w cur es a ms) (token, s) (address_set es)
          in if m \<noteq> token then upsert_config MERGE_CURSOR_KEY m s else s)"

text \<open>The tick: without the lock, or while another run of the same process is under way, nothing happens.\<close>

definition detectMergedAccounts :: "merge_env \<Rightarrow> bool \<Rightarrow> bool \<Rightarrow> watch_db \<Rightarrow> watch_db" where
  "detectMergedAccounts w gotLock isRunning s = (if gotLock \<and> \<not> isRunning then run_detector w s else s)"

definition listMergedEngagements :: "db \<Rightarrow> engagement list" where
  "listMergedEngagements d = filter (\<lambda>e. e_status e = ACCOUNT_MERGED) (t_engagements d)"

section \<open>The balance of the backend's account\<close>

record balance_env =
  backendAddress :: "string option"
  backendBalance :: "exn + stroops"
  balanceThreshold :: stroops

definition BALANCE_BREACH_KEY :: string where
  "BALANCE_BREACH_KEY = ''stellar_balance_alert_breached''"

definition checkBalance :: "balance_env \<Rightarrow> watch_db \<Rightarrow> watch_db" where
  "checkBalance w s =
     (if \<not> truthy (backendAddress w) then s
      else case backendBalance w of
        Inl _ \<Rightarrow> s
      | Inr b \<Rightarrow>
          let breached = b < balanceThreshold w;
              wasBreached = x_config s BALANCE_BREACH_KEY = Some ''true''
          in if \<not> breached then (if wasBreached then upsert_config BALANCE_BREACH_KEY ''false'' s else s)
             else if wasBreached then s
             else tell_admins STELLAR_BALANCE_LOW [] (upsert_config BALANCE_BREACH_KEY ''true'' s))"

section \<open>Reconciliation\<close>

datatype mismatch_kind = BALANCE_DRIFT | STATUS_DRIFT | NOT_FOUND_ON_CHAIN

text \<open>Amounts and statuses as the report shows them.\<close>

record mismatch =
  mm_engagementId :: ident
  mm_dbEscrow :: stroops
  mm_chainEscrow :: "stroops option"
  mm_dbReleased :: stroops
  mm_chainReleased :: "stroops option"
  mm_dbStatus :: engagement_status
  mm_chainStatus :: string
  mm_kind :: mismatch_kind

record reconciliation_report =
  rr_runAt :: time
  rr_totalChecked :: nat
  rr_totalMatched :: nat
  rr_totalMismatched :: nat
  rr_mismatches :: "mismatch list"

definition ON_CHAIN_STATUS_MAP :: "(string \<times> engagement_status) list" where
  "ON_CHAIN_STATUS_MAP = [(''Active'', ACTIVE), (''Completed'', COMPLETED), (''Cancelled'', CANCELLED),
     (''ReplacementRequested'', REPLACEMENT_REQUESTED)]"

definition on_chain_status :: "string \<Rightarrow> string" where
  "on_chain_status raw = (case map_of ON_CHAIN_STATUS_MAP raw of Some st \<Rightarrow> status_name st | None \<Rightarrow> raw)"

definition db_escrow :: "engagement \<Rightarrow> stroops" where
  "db_escrow e = e_totalAmount e - e_releasedAmount e"

definition checkEngagement :: "env \<Rightarrow> engagement \<Rightarrow> exn + mismatch option" where
  "checkEngagement w e = (case onChain w (e_id e) of
     Inl x \<Rightarrow> Inl x
   | Inr None \<Rightarrow> Inr (Some \<lparr>mm_engagementId = e_id e, mm_dbEscrow = db_escrow e, mm_chainEscrow = Some 0,
         mm_dbReleased = e_releasedAmount e, mm_chainReleased = Some 0, mm_dbStatus = e_status e,
         mm_chainStatus = ''NotFound'', mm_kind = NOT_FOUND_ON_CHAIN\<rparr>)
   | Inr (Some (raw, rel)) \<Rightarrow>
       (case balanceOf w (contractId w) (e_tokenAddress e) of
          Inl x \<Rightarrow> Inl x
        | Inr bal \<Rightarrow>
            let released = (case rel of None \<Rightarrow> 0 | Some r \<Rightarrow> r);
                balanceDrift = bal \<noteq> db_escrow e;
                releasedDrift = released \<noteq> e_releasedAmount e;
                st = on_chain_status raw;
                statusDrift = st \<noteq> status_name (e_status e)
            in if \<not> balanceDrift \<and> \<not> releasedDrift \<and> \<not> statusDrift then Inr None
               else Inr (Some \<lparr>mm_engagementId = e_id e, mm_dbEscrow = db_escrow e, mm_chainEscrow = Some bal,
                 mm_dbReleased = e_releasedAmount e, mm_chainReleased = Some released, mm_dbStatus = e_status e,
                 mm_chainStatus = st,
                 mm_kind = (if statusDrift \<and> \<not> balanceDrift then STATUS_DRIFT else BALANCE_DRIFT)\<rparr>)))"

definition unreadable :: "engagement \<Rightarrow> mismatch" where
  "unreadable e = \<lparr>mm_engagementId = e_id e, mm_dbEscrow = db_escrow e, mm_chainEscrow = None,
     mm_dbReleased = e_releasedAmount e, mm_chainReleased = None, mm_dbStatus = e_status e,
     mm_chainStatus = ''unknown'', mm_kind = NOT_FOUND_ON_CHAIN\<rparr>"

definition watched :: "db \<Rightarrow> engagement list" where
  "watched d = filter (\<lambda>e. e_status e \<in> {ACTIVE, REPLACEMENT_REQUESTED} \<and> e_txHash e \<noteq> None) (t_engagements d)"

fun reconcile_loop :: "env \<Rightarrow> engagement list \<Rightarrow> nat \<times> mismatch list \<Rightarrow> nat \<times> mismatch list" where
  "reconcile_loop w [] acc = acc"
| "reconcile_loop w (e # es) acc = reconcile_loop w es (case checkEngagement w e of
     Inl _ \<Rightarrow> (fst acc, snd acc @ [unreadable e])
   | Inr (Some m) \<Rightarrow> (fst acc, snd acc @ [m])
   | Inr None \<Rightarrow> (Suc (fst acc), snd acc))"

definition runReconciliation :: "env \<Rightarrow> db \<Rightarrow> reconciliation_report" where
  "runReconciliation w d = (let es = watched d; (matched, ms) = reconcile_loop w es (0, [])
     in \<lparr>rr_runAt = now w, rr_totalChecked = length es, rr_totalMatched = matched,
         rr_totalMismatched = length ms, rr_mismatches = ms\<rparr>)"

text \<open>Every administrator with an address, deactivated or not.\<close>

definition notifyAdmins_report :: "reconciliation_report \<Rightarrow> watch_db \<Rightarrow> watch_db" where
  "notifyAdmins_report r s = foldl (\<lambda>s a. if truthy (u_stellarAddress a)
       then notifyAdmin (ByAddress (the (u_stellarAddress a))) FUNDING_SHORTFALL_DETECTED [] s else s) s
     (filter (\<lambda>u. u_role u = ADMIN) (t_users (x_db s)))"

text \<open>The nightly run; the last report is kept for the endpoint.\<close>

definition runNightly :: "env \<Rightarrow> bool \<Rightarrow> reconciliation_report option \<times> watch_db \<Rightarrow> reconciliation_report option \<times> watch_db" where
  "runNightly w gotLock ls =
     (if \<not> gotLock then ls
      else let r = runReconciliation w (x_db (snd ls))
           in (Some r, if 0 < rr_totalMismatched r then notifyAdmins_report r (snd ls) else snd ls))"

text \<open>
  What the administrators learn about the chain: which engagements a merged account touches, when the
  backend's own balance falls below its threshold, and which engagements differ from the contract.
\<close>

section \<open>Merged accounts\<close>

lemma tell_admins_eq:
  "tell_admins t eid s = s\<lparr>x_notices := x_notices s @ map (\<lambda>a. (ById (u_id a), t, eid)) (alert_admins (x_db s))\<rparr>"
proof -
  have "foldl (\<lambda>s a. notifyAdmin (ById (u_id a)) t eid s) s as =
      s\<lparr>x_notices := x_notices s @ map (\<lambda>a. (ById (u_id a), t, eid)) as\<rparr>" for as
    by (induction as arbitrary: s) (simp_all add: notifyAdmin_def)
  then show ?thesis by (simp add: tell_admins_def)
qed

definition mark_merged :: "ident list \<Rightarrow> engagement \<Rightarrow> engagement" where
  "mark_merged F e = (if e_id e \<in> set F then e\<lparr>e_status := ACCOUNT_MERGED\<rparr> else e)"

definition merge_notices :: "db \<Rightarrow> ident list \<Rightarrow> (recipient \<times> notification_type \<times> ident) list" where
  "merge_notices d F = concat (map (\<lambda>i. map (\<lambda>a. (ById (u_id a), ACCOUNT_MERGE_DETECTED, i)) (alert_admins d)) F)"

definition flagged :: "ident list \<Rightarrow> watch_db \<Rightarrow> watch_db" where
  "flagged F s = s\<lparr>x_db := (x_db s)\<lparr>t_engagements := map (mark_merged F) (t_engagements (x_db s))\<rparr>,
     x_notices := x_notices s @ merge_notices (x_db s) F\<rparr>"

definition add_once :: "ident list \<Rightarrow> ident \<Rightarrow> ident list" where
  "add_once F i = (if i \<in> set F then F else F @ [i])"

lemma flagged_Nil: "flagged [] s = s"
proof -
  have "map (mark_merged []) es = es" for es by (simp add: mark_merged_def map_idI)
  then show ?thesis by (simp add: flagged_def merge_notices_def)
qed

lemma add_once_fold:
  "distinct F \<Longrightarrow> distinct (foldl add_once F xs) \<and> set (foldl add_once F xs) = set F \<union> set xs"
  by (induction xs arbitrary: F) (auto simp: add_once_def)

lemma flag_engagement_flagged:
  assumes d: "distinct (map e_id (t_engagements (x_db s)))" and e: "e \<in> set (t_engagements (x_db s))"
    and live: "e_status e \<noteq> ACCOUNT_MERGED"
  shows "flag_engagement e (flagged F s) = flagged (add_once F (e_id e)) s"
proof -
  have k: "e_id (mark_merged F x) = e_id x" for x by (simp add: mark_merged_def)
  have f: "find_engagement (e_id e) (x_db (flagged F s)) = Some (mark_merged F e)"
    unfolding find_engagement_def
    by (rule find_key_unique) (use d e in \<open>simp_all add: flagged_def comp_def k\<close>)
  show ?thesis
  proof (cases "e_id e \<in> set F")
    case True
    then show ?thesis using f by (simp add: flag_engagement_def mark_merged_def add_once_def)
  next
    case False
    have m: "update_where (\<lambda>x. e_id x = e_id e) (\<lambda>x. x\<lparr>e_status := ACCOUNT_MERGED\<rparr>) (map (mark_merged F) es) =
        map (mark_merged (F @ [e_id e])) es" for es
      by (induction es) (auto simp: mark_merged_def)
    have u: "update_engagement (e_id e) (\<lambda>x. x\<lparr>e_status := ACCOUNT_MERGED\<rparr>) (x_db (flagged F s)) =
        (x_db s)\<lparr>t_engagements := map (mark_merged (F @ [e_id e])) (t_engagements (x_db s))\<rparr>"
      by (simp add: update_engagement_def flagged_def m)
    have a: "alert_admins ((x_db s)\<lparr>t_engagements := es\<rparr>) = alert_admins (x_db s)" for es
      by (simp add: alert_admins_def)
    have "e_status (mark_merged F e) \<noteq> ACCOUNT_MERGED" using False live by (simp add: mark_merged_def)
    then have "flag_engagement e (flagged F s) = tell_admins ACCOUNT_MERGE_DETECTED (e_id e)
        ((flagged F s)\<lparr>x_db := (x_db s)\<lparr>t_engagements := map (mark_merged (F @ [e_id e])) (t_engagements (x_db s))\<rparr>\<rparr>)"
      using f u by (simp add: flag_engagement_def)
    also have "\<dots> = flagged (F @ [e_id e]) s"
      by (simp add: tell_admins_eq a) (simp add: flagged_def merge_notices_def)
    finally show ?thesis using False by (simp add: add_once_def)
  qed
qed

lemma flagMerged_flagged:
  assumes d: "distinct (map e_id (t_engagements (x_db s)))"
    and es: "set es \<subseteq> set (live_engagements (x_db s))"
  shows "flagMergedEngagements a es (flagged F s) =
    flagged (foldl add_once F (map e_id (filter (\<lambda>e. a \<in> set (merge_addresses e)) es))) s"
proof -
  have "foldl (\<lambda>s e. flag_engagement e s) (flagged F s) xs = flagged (foldl add_once F (map e_id xs)) s"
    if "set xs \<subseteq> set (live_engagements (x_db s))" for xs
    using that
  proof (induction xs arbitrary: F)
    case (Cons x xs)
    then have "x \<in> set (t_engagements (x_db s))" "e_status x \<noteq> ACCOUNT_MERGED"
      by (auto simp: live_engagements_def)
    with Cons show ?case by (simp add: flag_engagement_flagged [OF d])
  qed simp
  moreover have "set (filter (\<lambda>e. a \<in> set (merge_addresses e)) es) \<subseteq> set (live_engagements (x_db s))" using es by auto
  ultimately show ?thesis by (simp add: flagMergedEngagements_def)
qed

text \<open>The account has merged away, as far as the page of its operations shows.\<close>

definition seen_merged :: "merge_env \<Rightarrow> string option \<Rightarrow> string \<Rightarrow> bool" where
  "seen_merged w cur a \<longleftrightarrow> (case operations w a cur of None \<Rightarrow> False
     | Some ops \<Rightarrow> list_ex (\<lambda>p. ho_type p = ''account_merge'') ops)"

lemma scan_address_flagged:
  assumes d: "distinct (map e_id (t_engagements (x_db s)))" and es: "set es \<subseteq> set (live_engagements (x_db s))"
    and F: "distinct F"
  shows "\<exists>m' F'. scan_address w cur es a (m, flagged F s) = (m', flagged F' s) \<and> distinct F' \<and>
    set F' = set F \<union> (if seen_merged w cur a then e_id ` {e \<in> set es. a \<in> set (merge_addresses e)} else {})"
proof (cases "operations w a cur")
  case None
  then show ?thesis using F by (auto simp: scan_address_def seen_merged_def)
next
  case (Some ops)
  have "\<exists>m' F'. foldl (\<lambda>ms p. scan_op es a p ms) (m, flagged F s) ops = (m', flagged F' s) \<and> distinct F' \<and>
     set F' = set F \<union> (if list_ex (\<lambda>p. ho_type p = ''account_merge'') ops
       then e_id ` {e \<in> set es. a \<in> set (merge_addresses e)} else {})"
    using F
  proof (induction ops arbitrary: m F)
    case (Cons p ops)
    show ?case
    proof (cases "ho_type p = ''account_merge''")
      case True
      let ?F = "foldl add_once F (map e_id (filter (\<lambda>e. a \<in> set (merge_addresses e)) es))"
      from add_once_fold [OF Cons.prems, of "map e_id (filter (\<lambda>e. a \<in> set (merge_addresses e)) es)"]
      have "distinct ?F" "set ?F = set F \<union> e_id ` {e \<in> set es. a \<in> set (merge_addresses e)}" by auto
      with Cons.IH [of ?F "newer_token p m"] obtain m' F' where
        "foldl (\<lambda>ms p. scan_op es a p ms) (newer_token p m, flagged ?F s) ops = (m', flagged F' s)" "distinct F'"
        "set F' = set F \<union> e_id ` {e \<in> set es. a \<in> set (merge_addresses e)}"
        by (auto split: if_splits)
      then show ?thesis using True
        by (intro exI [of _ m'] exI [of _ F']) (simp add: scan_op_def flagMerged_flagged [OF d es])
    next
      case False
      with Cons.IH [OF Cons.prems, of "newer_token p m"] show ?thesis by (simp add: scan_op_def)
    qed
  qed auto
  with Some show ?thesis by (simp add: scan_address_def seen_merged_def)
qed

lemma scan_all_flagged:
  assumes d: "distinct (map e_id (t_engagements (x_db s)))" and es: "set es \<subseteq> set (live_engagements (x_db s))"
    and F: "distinct F"
  shows "\<exists>m' F'. foldl (\<lambda>ms a. scan_address w cur es a ms) (m, flagged F s) as = (m', flagged F' s) \<and> distinct F' \<and>
    set F' = set F \<union> e_id ` {e \<in> set es. \<exists>a \<in> set as. a \<in> set (merge_addresses e) \<and> seen_merged w cur a}"
  using F
proof (induction as arbitrary: m F)
  case (Cons a as)
  obtain m1 F1 where 1: "scan_address w cur es a (m, flagged F s) = (m1, flagged F1 s)" "distinct F1"
    "set F1 = set F \<union> (if seen_merged w cur a then e_id ` {e \<in> set es. a \<in> set (merge_addresses e)} else {})"
    using scan_address_flagged [OF d es Cons.prems, of w cur a m] by blast
  obtain m2 F2 where 2: "foldl (\<lambda>ms a. scan_address w cur es a ms) (m1, flagged F1 s) as = (m2, flagged F2 s)" "distinct F2"
    "set F2 = set F1 \<union> e_id ` {e \<in> set es. \<exists>a \<in> set as. a \<in> set (merge_addresses e) \<and> seen_merged w cur a}"
    using Cons.IH [OF 1(2), of m1] by blast
  have "set F2 = set F \<union> e_id ` {e \<in> set es. \<exists>b \<in> set (a # as). b \<in> set (merge_addresses e) \<and> seen_merged w cur b}"
    unfolding 2(3) 1(3) by auto
  with 1(1) 2(1,2) show ?case by (intro exI [of _ m2] exI [of _ F2]) simp
qed auto

lemma set_address_set: "set (address_set es) = {a. \<exists>e \<in> set es. a \<in> set (merge_addresses e)}"
  by (auto simp: address_set_def)

definition detector_cursor :: "watch_db \<Rightarrow> string option" where
  "detector_cursor s = (case x_config s MERGE_CURSOR_KEY of None \<Rightarrow> None | Some v \<Rightarrow> if v = ''now'' then None else Some v)"

text \<open>
  One run of the merge detector flags exactly the live engagements one of whose three addresses shows a
  merge in the page of operations Horizon answers; each is flagged once however many of its addresses merged,
  every active administrator is told once of each, and no other row changes.
\<close>
lemma merged_accounts_are_flagged:
  assumes "distinct (map e_id (t_engagements (x_db s)))" and "truthy (horizonUrl w)"
  shows "\<exists>F. distinct F \<and>
    set F = e_id ` {e \<in> set (live_engagements (x_db s)).
      list_ex (seen_merged w (detector_cursor s)) (merge_addresses e)} \<and>
    x_db (run_detector w s) = (x_db s)\<lparr>t_engagements := map (mark_merged F) (t_engagements (x_db s))\<rparr> \<and>
    x_notices (run_detector w s) = x_notices s @ merge_notices (x_db s) F"
proof (cases "live_engagements (x_db s) = []")
  case True
  then have "run_detector w s = flagged [] s" by (simp add: run_detector_def flagged_Nil)
  then have "distinct [] \<and> set [] = e_id ` {e \<in> set (live_engagements (x_db s)). list_ex (seen_merged w (detector_cursor s)) (merge_addresses e)} \<and>
    x_db (run_detector w s) = (x_db s)\<lparr>t_engagements := map (mark_merged []) (t_engagements (x_db s))\<rparr> \<and>
    x_notices (run_detector w s) = x_notices s @ merge_notices (x_db s) []"
    using True by (simp add: flagged_def)
  then show ?thesis by blast
next
  case False
  let ?es = "live_engagements (x_db s)"
  let ?token = "case x_config s MERGE_CURSOR_KEY of None \<Rightarrow> ''now'' | Some v \<Rightarrow> v"
  have c: "(if ?token = ''now'' then None else Some ?token) = detector_cursor s"
    by (simp add: detector_cursor_def split: option.splits)
  obtain m F where 1: "foldl (\<lambda>ms a. scan_address w (detector_cursor s) ?es a ms) (?token, flagged [] s) (address_set ?es) = (m, flagged F s)"
    and F: "distinct F" "set F = e_id ` {e \<in> set ?es. \<exists>a \<in> set (address_set ?es). a \<in> set (merge_addresses e) \<and> seen_merged w (detector_cursor s) a}"
    using scan_all_flagged [OF assms(1) subset_refl, of "[]" w "detector_cursor s" ?token "address_set ?es"] by auto
  have "run_detector w s = (if m \<noteq> ?token then upsert_config MERGE_CURSOR_KEY m (flagged F s) else flagged F s)"
    using False assms(2) 1 [unfolded flagged_Nil] by (simp add: run_detector_def Let_def c)
  then have r: "x_db (run_detector w s) = x_db (flagged F s)" "x_notices (run_detector w s) = x_notices (flagged F s)"
    by (simp_all add: upsert_config_def)
  have "set F = e_id ` {e \<in> set ?es. list_ex (seen_merged w (detector_cursor s)) (merge_addresses e)}"
    unfolding F(2) set_address_set list_ex_iff by blast
  with F(1) r show ?thesis by (auto simp: flagged_def)
qed

text \<open>
  Horizon's paging tokens are decimal numbers.  The cursor starts as the word \<open>now\<close>, which no decimal string
  follows in the order of strings: the cursor is never stored, and every run reads the oldest page of every
  account again.
\<close>

definition decimal_tokens :: "merge_env \<Rightarrow> bool" where
  "decimal_tokens w \<longleftrightarrow> (\<forall>a cur ops p t. operations w a cur = Some ops \<longrightarrow> p \<in> set ops \<longrightarrow>
     ho_pagingToken p = Some t \<longrightarrow> list_all (\<lambda>c. c \<in> set ''0123456789'') t)"

lemma now_is_last:
  assumes "list_all (\<lambda>c. c \<in> set ''0123456789'') t" shows "\<not> js_less ''now'' t"
proof (cases t)
  case (Cons c cs)
  with assms have "c \<in> set ''0123456789''" by simp
  then have "of_char c < (110 :: nat)" "c \<noteq> CHR ''n''" by auto
  with Cons show ?thesis by simp
qed simp

lemma scan_keeps_now:
  assumes "decimal_tokens w"
  shows "fst (foldl (\<lambda>ms a. scan_address w cur es a ms) (''now'', s) as) = ''now''"
proof -
  have op: "fst (foldl (\<lambda>ms p. scan_op es a p ms) ms ops) = ''now''"
    if "fst ms = ''now''" "\<And>p t. p \<in> set ops \<Longrightarrow> ho_pagingToken p = Some t \<Longrightarrow> \<not> js_less ''now'' t" for a ms ops
    using that
  proof (induction ops arbitrary: ms)
    case (Cons p ops)
    have "newer_token p (fst ms) = ''now''" using Cons.prems by (cases "ho_pagingToken p") (auto simp: newer_token_def)
    then have "fst (scan_op es a p ms) = ''now''" by (simp add: scan_op_def)
    then have "fst (foldl (\<lambda>ms p. scan_op es a p ms) (scan_op es a p ms) ops) = ''now''"
      by (rule Cons.IH) (rule Cons.prems(2), simp_all)
    then show ?case by simp
  qed simp
  have "fst (foldl (\<lambda>ms a. scan_address w cur es a ms) ms as) = ''now''" if "fst ms = ''now''" for ms
    using that
  proof (induction as arbitrary: ms)
    case (Cons a as)
    have "fst (scan_address w cur es a ms) = ''now''"
    proof (cases "operations w a cur")
      case (Some ops)
      with assms have "\<not> js_less ''now'' t" if "p \<in> set ops" "ho_pagingToken p = Some t" for p t
        using that now_is_last unfolding decimal_tokens_def by blast
      with Some Cons.prems show ?thesis by (simp add: scan_address_def op)
    qed (use Cons.prems in \<open>simp add: scan_address_def\<close>)
    with Cons.IH show ?case by simp
  qed simp
  then show ?thesis by simp
qed

lemma flag_keeps_config: "x_config (flag_engagement e s) = x_config s"
  by (auto simp: flag_engagement_def tell_admins_eq split: option.splits)

lemma foldl_config:
  "(\<And>s x. x_config (f s x) = x_config s) \<Longrightarrow> x_config (foldl f s xs) = x_config s"
  by (induction xs arbitrary: s) simp_all

lemma scan_keeps_config:
  "x_config (snd (foldl (\<lambda>ms a. scan_address w cur es a ms) ms as)) = x_config (snd ms)"
proof -
  have "x_config (snd (foldl (\<lambda>ms p. scan_op es a p ms) ms ops)) = x_config (snd ms)" for a ms ops
    by (induction ops arbitrary: ms) (simp_all add: scan_op_def flagMergedEngagements_def foldl_config flag_keeps_config)
  then have "x_config (snd (scan_address w cur es a ms)) = x_config (snd ms)" for a ms
    by (auto simp: scan_address_def split: option.splits)
  then show ?thesis by (induction as arbitrary: ms) simp_all
qed

theorem merge_cursor_never_moves:
  assumes "decimal_tokens w" and "x_config s MERGE_CURSOR_KEY = None"
  shows "x_config (run_detector w s) = x_config s"
proof -
  let ?r = "foldl (\<lambda>ms a. scan_address w None (live_engagements (x_db s)) a ms) (''now'', s) (address_set (live_engagements (x_db s)))"
  have "fst ?r = ''now''" by (rule scan_keeps_now [OF assms(1)])
  moreover have "x_config (snd ?r) = x_config s" by (simp add: scan_keeps_config)
  ultimately show ?thesis using assms(2)
    by (cases ?r) (simp add: run_detector_def Let_def)
qed

section \<open>The balance alert\<close>

definition reading :: "balance_env \<Rightarrow> bool option" where
  "reading w = (case backendBalance w of Inl _ \<Rightarrow> None | Inr b \<Rightarrow> Some (b < balanceThreshold w))"

text \<open>How often a sequence of readings goes below the threshold; a failed reading is passed over.\<close>

fun falls :: "bool \<Rightarrow> bool option list \<Rightarrow> nat" where
  "falls b [] = 0"
| "falls b (None # xs) = falls b xs"
| "falls b (Some x # xs) = (if x \<and> \<not> b then 1 else 0) + falls x xs"

definition balance_alert :: "db \<Rightarrow> (recipient \<times> notification_type \<times> ident) list" where
  "balance_alert d = map (\<lambda>a. (ById (u_id a), STELLAR_BALANCE_LOW, [])) (alert_admins d)"

lemma checkBalance_cases:
  assumes "truthy (backendAddress w)"
  shows "checkBalance w s = (case reading w of
      None \<Rightarrow> s
    | Some x \<Rightarrow> let was = (x_config s BALANCE_BREACH_KEY = Some ''true'') in
        if x = was then s
        else s\<lparr>x_config := (x_config s)(BALANCE_BREACH_KEY := Some (if x then ''true'' else ''false'')),
               x_notices := x_notices s @ (if x then balance_alert (x_db s) else [])\<rparr>)"
  using assms
  by (auto simp: checkBalance_def reading_def tell_admins_eq upsert_config_def balance_alert_def Let_def split: sum.splits)

text \<open>
  The administrators are told of a low balance exactly when it falls: over any sequence of checks, failed
  ones among them, every active administrator receives one alert for each time the balance goes from above the
  threshold to below it (starting from the state stored before), none while it stays there.
\<close>
lemma alerts_on_falling_edges:
  assumes "list_all (\<lambda>w. truthy (backendAddress w)) ws"
  shows "x_notices (foldl (\<lambda>s w. checkBalance w s) s ws) = x_notices s @
    concat (replicate (falls (x_config s BALANCE_BREACH_KEY = Some ''true'') (map reading ws)) (balance_alert (x_db s)))"
  using assms
proof (induction ws arbitrary: s)
  case (Cons w ws)
  then have w: "truthy (backendAddress w)" by simp
  let ?was = "x_config s BALANCE_BREACH_KEY = Some ''true''" and ?s = "checkBalance w s"
  have d: "x_db ?s = x_db s" by (simp add: checkBalance_cases [OF w] Let_def split: option.splits)
  show ?case
  proof (cases "reading w")
    case None
    then have "?s = s" by (simp add: checkBalance_cases [OF w])
    with None Cons show ?thesis by simp
  next
    case (Some x)
    have "(x_config ?s BALANCE_BREACH_KEY = Some ''true'') = x"
      using Some by (auto simp: checkBalance_cases [OF w] Let_def)
    moreover have "x_notices ?s = x_notices s @ (if x \<and> \<not> ?was then balance_alert (x_db s) else [])"
      using Some by (auto simp: checkBalance_cases [OF w] Let_def)
    ultimately show ?thesis using Some Cons.IH [of ?s] Cons.prems d by (simp del: not_Some_eq)
  qed
qed simp

section \<open>Reconciliation\<close>

lemma check_clean:
  "checkEngagement w e = Inr None \<longleftrightarrow> (\<exists>raw rel. onChain w (e_id e) = Inr (Some (raw, rel)) \<and>
     on_chain_status raw = status_name (e_status e) \<and>
     (case rel of None \<Rightarrow> 0 | Some r \<Rightarrow> r) = e_releasedAmount e \<and>
     balanceOf w (contractId w) (e_tokenAddress e) = Inr (db_escrow e))"
  by (auto simp: checkEngagement_def Let_def split: sum.splits option.splits prod.splits)

lemma check_reports:
  "checkEngagement w e = Inr (Some m) \<Longrightarrow> mm_engagementId m = e_id e"
  by (auto simp: checkEngagement_def Let_def split: sum.splits option.splits prod.splits if_splits)

lemma reconcile_loop_eq:
  "\<exists>ms'. reconcile_loop w es (n, ms) = (n + count_where (\<lambda>e. checkEngagement w e = Inr None) es, ms @ ms') \<and>
     map mm_engagementId ms' = map e_id (filter (\<lambda>e. checkEngagement w e \<noteq> Inr None) es)"
proof (induction es arbitrary: n ms)
  case (Cons e es)
  show ?case
  proof (cases "checkEngagement w e")
    case (Inl x)
    with Cons.IH [of n "ms @ [unreadable e]"] show ?thesis by (auto simp: unreadable_def)
  next
    case (Inr m)
    show ?thesis
    proof (cases m)
      case None
      with Inr Cons.IH [of "Suc n" ms] show ?thesis by auto
    next
      case (Some x)
      with Inr Cons.IH [of n "ms @ [x]"] check_reports [of w e x] show ?thesis by auto
    qed
  qed
qed simp

text \<open>
  The reconciliation report accounts for every engagement watched: matched and mismatched add up to those
  checked, an engagement is reported, once and in order, exactly when it is not clean, and it is clean exactly
  when the contract knows it with the same status and released amount and the contract's balance equals what
  the database has in escrow for it.
\<close>
lemma reconciliation_is_complete:
  "rr_totalChecked (runReconciliation w d) = length (watched d) \<and>
   rr_totalMatched (runReconciliation w d) + rr_totalMismatched (runReconciliation w d) = rr_totalChecked (runReconciliation w d) \<and>
   map mm_engagementId (rr_mismatches (runReconciliation w d)) =
     map e_id (filter (\<lambda>e. \<not> (\<exists>raw rel. onChain w (e_id e) = Inr (Some (raw, rel)) \<and>
       on_chain_status raw = status_name (e_status e) \<and>
       (case rel of None \<Rightarrow> 0 | Some r \<Rightarrow> r) = e_releasedAmount e \<and>
       balanceOf w (contractId w) (e_tokenAddress e) = Inr (db_escrow e))) (watched d))"
proof -
  obtain ms where 1: "reconcile_loop w (watched d) (0, []) = (count_where (\<lambda>e. checkEngagement w e = Inr None) (watched d), ms)"
    "map mm_engagementId ms = map e_id (filter (\<lambda>e. checkEngagement w e \<noteq> Inr None) (watched d))"
    using reconcile_loop_eq [of w "watched d" 0 "[]"] by auto
  have "length ms = length (filter (\<lambda>e. checkEngagement w e \<noteq> Inr None) (watched d))"
    using arg_cong [OF 1(2), of length] by simp
  then have "count_where (\<lambda>e. checkEngagement w e = Inr None) (watched d) + length ms = length (watched d)"
    using sum_length_filter_compl [of "\<lambda>e. checkEngagement w e = Inr None" "watched d"] by (simp add: count_where_def)
  with 1 show ?thesis by (simp add: runReconciliation_def Let_def check_clean)
qed

text \<open>
  All engagements share the contract's account: as soon as two of them with the same token have money in
  escrow, and the contract holds it, both are reported, although nothing is wrong.
\<close>

theorem shared_contract_drifts:
  assumes "e1 \<in> set (watched d)" and "e2 \<in> set (watched d)" and "e_tokenAddress e1 = e_tokenAddress e2"
    and "0 < db_escrow e1" and "0 < db_escrow e2"
    and "balanceOf w (contractId w) (e_tokenAddress e1) = Inr b" and "db_escrow e1 + db_escrow e2 \<le> b"
  shows "e_id e1 \<in> set (map mm_engagementId (rr_mismatches (runReconciliation w d))) \<and>
    e_id e2 \<in> set (map mm_engagementId (rr_mismatches (runReconciliation w d)))"
proof -
  obtain ms where 1: "reconcile_loop w (watched d) (0, []) = (count_where (\<lambda>e. checkEngagement w e = Inr None) (watched d), ms)"
    "map mm_engagementId ms = map e_id (filter (\<lambda>e. checkEngagement w e \<noteq> Inr None) (watched d))"
    using reconcile_loop_eq [of w "watched d" 0 "[]"] by auto
  have "checkEngagement w e1 \<noteq> Inr None" "checkEngagement w e2 \<noteq> Inr None"
    using assms(3-7) by (auto simp: check_clean)
  with assms(1,2) have "e_id e1 \<in> set (map mm_engagementId ms)" "e_id e2 \<in> set (map mm_engagementId ms)"
    unfolding 1(2) by auto
  with 1(1) show ?thesis by (simp add: runReconciliation_def Let_def)
qed

section \<open>A concrete instance\<close>

definition watch0 :: watch_db where
  "watch0 = \<lparr>x_db = world_db, x_config = (\<lambda>_. None), x_notices = []\<rparr>"

definition merge_env1 :: merge_env where
  "merge_env1 = \<lparr>horizonUrl = Some ''https://horizon'', operations = (\<lambda>a _. if a = ''GR''
     then Some [\<lparr>ho_type = ''payment'', ho_pagingToken = Some ''41''\<rparr>, \<lparr>ho_type = ''account_merge'', ho_pagingToken = Some ''42''\<rparr>]
     else Some [])\<rparr>"

lemma distinct_singleton:
  assumes "distinct F" and "set F = {x}" shows "F = [x]"
proof -
  have "length F = Suc 0" using distinct_card [OF assms(1)] assms(2) by simp
  then obtain y where "F = [y]" by (cases F) simp_all
  with assms(2) show ?thesis by simp
qed

lemma merged_accounts_are_flagged_witness:
  "map e_status (t_engagements (x_db (run_detector merge_env1 watch0))) = [ACCOUNT_MERGED] \<and>
   x_notices (run_detector merge_env1 watch0) = [(ById ''ad'', ACCOUNT_MERGE_DETECTED, ''e1'')]"
proof -
  have p: "distinct (map e_id (t_engagements (x_db watch0)))" "truthy (horizonUrl merge_env1)"
    by (simp_all add: watch0_def merge_env1_def fixture_simps)
  obtain F where F: "distinct F" "set F = e_id ` {e \<in> set (live_engagements (x_db watch0)).
      list_ex (seen_merged merge_env1 (detector_cursor watch0)) (merge_addresses e)}"
    "x_db (run_detector merge_env1 watch0) = (x_db watch0)\<lparr>t_engagements := map (mark_merged F) (t_engagements (x_db watch0))\<rparr>"
    "x_notices (run_detector merge_env1 watch0) = x_notices watch0 @ merge_notices (x_db watch0) F"
    using merged_accounts_are_flagged [OF p] by blast
  have l: "live_engagements (x_db watch0) = [eng1]" by (simp add: watch0_def live_engagements_def fixture_simps)
  have "list_ex (seen_merged merge_env1 (detector_cursor watch0)) (merge_addresses eng1)"
    by (simp add: seen_merged_def merge_env1_def merge_addresses_def eng1_def)
  then have "{e \<in> set [eng1]. list_ex (seen_merged merge_env1 (detector_cursor watch0)) (merge_addresses e)} = {eng1}"
    by auto
  then have "set F = {''e1''}" unfolding F(2) l by (simp add: eng1_def)
  with F(1) have "F = [''e1'']" by (rule distinct_singleton)
  then show ?thesis unfolding F(3,4)
    by (simp add: mark_merged_def merge_notices_def alert_admins_def watch0_def fixture_simps)
qed

lemma alerts_on_falling_edges_witness:
  "x_notices (foldl (\<lambda>s b. checkBalance \<lparr>backendAddress = Some ''GB'', backendBalance = b, balanceThreshold = 10\<rparr> s) watch0
     [Inr 12, Inr 9, Inl PlainError, Inr 3, Inr 10, Inr 4]) =
   [(ById ''ad'', STELLAR_BALANCE_LOW, []), (ById ''ad'', STELLAR_BALANCE_LOW, [])]"
proof -
  let ?w = "\<lambda>b. \<lparr>backendAddress = Some ''GB'', backendBalance = b, balanceThreshold = 10\<rparr>"
  let ?ws = "map ?w [Inr 12, Inr 9, Inl PlainError, Inr 3, Inr 10, Inr 4]"
  have "list_all (\<lambda>w. truthy (backendAddress w)) ?ws" by simp
  from alerts_on_falling_edges [OF this, of watch0]
  show ?thesis by (simp add: reading_def watch0_def balance_alert_def alert_admins_def fixture_simps)
qed

end
