(* ===== verification/Recruiters.thy ===== *)
theory Recruiters
  imports Fixtures Doubles EngagementQueries
begin

text \<open>
  Recruiters, \<^verbatim>\<open>modules/recruiters\<close>: reviews and their averages (\<^verbatim>\<open>recruiter-reviews.service.ts\<close>), identity
  checks (\<^verbatim>\<open>kyc.service.ts\<close>), favourites (\<^verbatim>\<open>favorites.service.ts\<close>), the portfolio (\<^verbatim>\<open>portfolio.service.ts\<close>) and
  the statistics of a recruiter (\<^verbatim>\<open>recruiters.service.ts\<close>).
\<close>

section \<open>State\<close>

datatype kyc_status = K_NONE | K_PENDING | K_APPROVED | K_REJECTED

record review =
  rv_engagementId :: ident
  rv_recruiterId :: ident
  rv_reviewerId :: ident
  rv_rating :: nat
  rv_comment :: "string option"
  rv_createdAt :: time

text \<open>The columns of a user the identity check keeps.\<close>

record kyc_row =
  ky_userId :: ident
  ky_status :: kyc_status
  ky_reviewedAt :: "time option"
  ky_reviewedBy :: "ident option"
  ky_rejectionReason :: "string option"
  ky_updatedAt :: time

record kyc_document =
  kd_userId :: ident
  kd_fileName :: string
  kd_fileSize :: nat
  kd_mimeType :: string
  kd_s3Path :: string
  kd_uploadedAt :: time

record portfolio_entry =
  pe_id :: ident
  pe_recruiterId :: ident
  pe_role :: string
  pe_industry :: string
  pe_year :: int

text \<open>A favourite is the company, the recruiter and the time it was added.\<close>

record recruiters_db =
  q_db :: db
  q_reviews :: "review list"
  q_kyc :: "kyc_row list"
  q_documents :: "kyc_document list"
  q_favorites :: "(ident \<times> ident \<times> time) list"
  q_portfolio :: "portfolio_entry list"
  q_objects :: "string list"

record recruiters_env =
  q_now :: time
  q_s3Up :: bool
  q_newId :: ident

definition get_kyc :: "ident \<Rightarrow> recruiters_db \<Rightarrow> (user \<times> kyc_row) option" where
  "get_kyc uid s = (case List.find (\<lambda>u. u_id u = uid) (t_users (q_db s)) of
     None \<Rightarrow> None
   | Some u \<Rightarrow> map_option (\<lambda>k. (u, k)) (List.find (\<lambda>k. ky_userId k = uid) (q_kyc s)))"

text \<open>\<open>skip: (page - 1) * limit, take: limit\<close>, with the number of rows and of pages.\<close>

definition page_of :: "nat \<Rightarrow> nat \<Rightarrow> 'a list \<Rightarrow> 'a page_result" where
  "page_of page limit rows = \<lparr>pg_data = take limit (drop ((page - 1) * limit) rows), pg_total = Some (length rows),
     pg_totalPages = Some (ceil_div (length rows) limit), pg_nextCursor = None\<rparr>"

definition by_newest :: "('a \<Rightarrow> time) \<Rightarrow> 'a list \<Rightarrow> 'a list" where
  "by_newest t rows = sort_key (\<lambda>r. - t r) rows"

section \<open>Reviews\<close>

text \<open>
  \<open>@IsInt() @Min(1) @Max(5)\<close> of the rating, \<open>@MinLength(1) @MaxLength(2000)\<close> of the comment; the request is
  refused before the handler runs.
\<close>

definition valid_review :: "nat \<Rightarrow> string option \<Rightarrow> bool" where
  "valid_review rating comment \<longleftrightarrow> 1 \<le> rating \<and> rating \<le> 5 \<and>
     (case comment of None \<Rightarrow> True | Some c \<Rightarrow> 1 \<le> length c \<and> length c \<le> 2000)"

definition is_review_company :: "engagement \<Rightarrow> user \<Rightarrow> bool" where
  "is_review_company e u \<longleftrightarrow> e_companyId e = Some (u_id u) \<or>
     truthy (u_stellarAddress u) \<and> Some (e_companyAddress e) = u_stellarAddress u"

definition reviewed_recruiter :: "engagement \<Rightarrow> db \<Rightarrow> user option" where
  "reviewed_recruiter e d = List.find (\<lambda>u. (truthy (e_recruiterId e) \<and> Some (u_id u) = e_recruiterId e \<or>
     u_stellarAddress u = Some (e_recruiterAddress e)) \<and> u_role u = RECRUITER) (t_users d)"

text \<open>\<open>recruiterReview.create\<close>: the engagement is unique in the table (P2002 becomes a conflict).\<close>

definition create_review :: "review \<Rightarrow> recruiters_db \<Rightarrow> (recruiters_db, review) outcome" where
  "create_review r s =
     (if list_ex (\<lambda>x. rv_engagementId x = rv_engagementId r) (q_reviews s) then throw ConflictException s
      else return r (s\<lparr>q_reviews := q_reviews s @ [r]\<rparr>))"

definition submitReview :: "recruiters_env \<Rightarrow> ident \<Rightarrow> user \<Rightarrow> nat \<Rightarrow> string option \<Rightarrow> recruiters_db \<Rightarrow> (recruiters_db, review) outcome" where
  "submitReview w eid u rating comment s =
     (if \<not> valid_review rating comment then throw BadRequestException s
      else case find_engagement eid (q_db s) of
        None \<Rightarrow> throw NotFoundException s
      | Some e \<Rightarrow>
          if e_status e \<noteq> COMPLETED then throw BadRequestException s
          else if \<not> is_review_company e u then throw ForbiddenException s
          else if list_ex (\<lambda>x. rv_engagementId x = eid) (q_reviews s) then throw ConflictException s
          else (case reviewed_recruiter e (q_db s) of
             None \<Rightarrow> throw NotFoundException s
           | Some r \<Rightarrow> create_review \<lparr>rv_engagementId = eid, rv_recruiterId = u_id r, rv_reviewerId = u_id u,
               rv_rating = rating, rv_comment = comment, rv_createdAt = q_now w\<rparr> s))"

text \<open>\<open>Math.round(avg * 10) / 10\<close> on doubles, as in \<open>Users\<close>.\<close>

definition round_tenth :: "rat \<Rightarrow> rat" where
  "round_tenth x = to_double (of_int \<lfloor>to_double (x * 10) + 1 / 2\<rfloor> / 10)"

definition ratings_of :: "ident \<Rightarrow> recruiters_db \<Rightarrow> nat list" where
  "ratings_of i s = map rv_rating (filter (\<lambda>r. rv_recruiterId r = i) (q_reviews s))"

definition getAverageRating :: "ident \<Rightarrow> recruiters_db \<Rightarrow> rat option" where
  "getAverageRating i s = (let rs = ratings_of i s in
     if rs = [] then None else Some (round_tenth (to_double (of_nat (sum_list rs) / of_nat (length rs)))))"

text \<open>\<open>groupBy\<close> returns a row for the ids with reviews; the others keep the \<open>null\<close> set before.\<close>

definition getAverageRatings :: "ident list \<Rightarrow> recruiters_db \<Rightarrow> (ident \<Rightarrow> rat option option)" where
  "getAverageRatings ids s = (let nulls = foldl (\<lambda>m i. m(i \<mapsto> None)) (\<lambda>_. None) ids;
       groups = remdups (filter (\<lambda>i. i \<in> set ids) (map rv_recruiterId (q_reviews s)))
     in if ids = [] then (\<lambda>_. None)
        else foldl (\<lambda>m i. m(i \<mapsto> getAverageRating i s)) nulls groups)"

definition listReviews :: "ident \<Rightarrow> nat \<Rightarrow> nat \<Rightarrow> recruiters_db \<Rightarrow> exn + (review page_result \<times> rat option \<times> nat)" where
  "listReviews i page limit s = (case List.find (\<lambda>u. u_id u = i) (t_users (q_db s)) of
     None \<Rightarrow> Inl NotFoundException
   | Some u \<Rightarrow>
       if u_role u \<noteq> RECRUITER then Inl NotFoundException
       else let rows = by_newest rv_createdAt (filter (\<lambda>r. rv_recruiterId r = i) (q_reviews s))
            in Inr (page_of page limit rows, getAverageRating i s, length rows))"

section \<open>Identity checks\<close>

definition ALLOWED_KYC_MIME_TYPES :: "string list" where
  "ALLOWED_KYC_MIME_TYPES = [''image/jpeg'', ''image/png'', ''image/gif'', ''application/pdf'']"

definition MAX_KYC_FILE_BYTES :: nat where
  "MAX_KYC_FILE_BYTES = 10 * 1024 * 1024"

definition is_safe_char :: "char \<Rightarrow> bool" where
  "is_safe_char c \<longleftrightarrow> char_in 97 122 c \<or> char_in 65 90 c \<or> char_in 48 57 c \<or> c \<in> set ''._-''"

definition safe_name :: "string \<Rightarrow> string" where
  "safe_name n = map (\<lambda>c. if is_safe_char c then c else CHR ''_'') n"

definition kyc_key :: "ident \<Rightarrow> time \<Rightarrow> string \<Rightarrow> string" where
  "kyc_key uid t n = ''kyc/'' @ uid @ ''/'' @ show_int t @ ''-'' @ safe_name n"

definition update_kyc :: "ident \<Rightarrow> (kyc_row \<Rightarrow> kyc_row) \<Rightarrow> recruiters_db \<Rightarrow> recruiters_db" where
  "update_kyc uid f s = s\<lparr>q_kyc := update_where (\<lambda>k. ky_userId k = uid) f (q_kyc s)\<rparr>"

definition getMyKyc :: "ident \<Rightarrow> recruiters_db \<Rightarrow> exn + (kyc_row \<times> kyc_document list)" where
  "getMyKyc uid s = (case get_kyc uid s of
     None \<Rightarrow> Inl NotFoundException
   | Some (u, k) \<Rightarrow>
       if u_role u \<noteq> RECRUITER then Inl ForbiddenException
       else Inr (k, by_newest kd_uploadedAt (filter (\<lambda>d. kd_userId d = uid) (q_documents s))))"

definition submitDocument :: "recruiters_env \<Rightarrow> ident \<Rightarrow> string \<Rightarrow> nat \<Rightarrow> string \<Rightarrow> recruiters_db \<Rightarrow> (recruiters_db, kyc_document) outcome" where
  "submitDocument w uid name bytes mime s = (case get_kyc uid s of
     None \<Rightarrow> throw NotFoundException s
   | Some (u, k) \<Rightarrow>
       if u_role u \<noteq> RECRUITER then throw ForbiddenException s
       else if ky_status k = K_APPROVED then throw BadRequestException s
       else if mime \<notin> set ALLOWED_KYC_MIME_TYPES then throw BadRequestException s
       else if MAX_KYC_FILE_BYTES < bytes then throw BadRequestException s
       else if \<not> q_s3Up w then throw PlainError s
       else (let key = kyc_key uid (q_now w) name;
                 d = \<lparr>kd_userId = uid, kd_fileName = name, kd_fileSize = bytes, kd_mimeType = mime,
                      kd_s3Path = key, kd_uploadedAt = q_now w\<rparr>
             in return d (update_kyc uid
                  (\<lambda>k. k\<lparr>ky_status := K_PENDING, ky_rejectionReason := None, ky_reviewedAt := None,
                         ky_reviewedBy := None, ky_updatedAt := q_now w\<rparr>)
                  (s\<lparr>q_objects := q_objects s @ [key], q_documents := q_documents s @ [d]\<rparr>))))"

definition review_kyc :: "recruiters_env \<Rightarrow> ident \<Rightarrow> ident \<Rightarrow> kyc_status \<Rightarrow> string option \<Rightarrow> recruiters_db \<Rightarrow> (recruiters_db, unit) outcome" where
  "review_kyc w uid admin st reason s = (case get_kyc uid s of
     None \<Rightarrow> throw NotFoundException s
   | Some (u, k) \<Rightarrow>
       if u_role u \<noteq> RECRUITER then throw BadRequestException s
       else if ky_status k \<noteq> K_PENDING then throw BadRequestException s
       else if count_where (\<lambda>d. kd_userId d = uid) (q_documents s) = 0 then throw BadRequestException s
       else return () (update_kyc uid
              (\<lambda>k. k\<lparr>ky_status := st, ky_reviewedAt := Some (q_now w), ky_reviewedBy := Some admin,
                     ky_rejectionReason := (if st = K_REJECTED then reason else None), ky_updatedAt := q_now w\<rparr>) s))"

definition approve_kyc :: "recruiters_env \<Rightarrow> ident \<Rightarrow> ident \<Rightarrow> recruiters_db \<Rightarrow> (recruiters_db, unit) outcome" where
  "approve_kyc w uid admin = review_kyc w uid admin K_APPROVED None"

definition reject_kyc :: "recruiters_env \<Rightarrow> ident \<Rightarrow> ident \<Rightarrow> string option \<Rightarrow> recruiters_db \<Rightarrow> (recruiters_db, unit) outcome" where
  "reject_kyc w uid admin reason = review_kyc w uid admin K_REJECTED reason"

definition listPending :: "nat \<Rightarrow> nat \<Rightarrow> recruiters_db \<Rightarrow> kyc_row page_result" where
  "listPending page limit s = page_of page limit (sort_key ky_updatedAt
     (filter (\<lambda>k. ky_status k = K_PENDING \<and>
        list_ex (\<lambda>u. u_id u = ky_userId k \<and> u_role u = RECRUITER) (t_users (q_db s))) (q_kyc s)))"

section \<open>Favourites\<close>

definition is_favorite :: "ident \<Rightarrow> ident \<Rightarrow> recruiters_db \<Rightarrow> bool" where
  "is_favorite c r s \<longleftrightarrow> list_ex (\<lambda>(c', r', _). c' = c \<and> r' = r) (q_favorites s)"

definition addFavorite :: "recruiters_env \<Rightarrow> ident \<Rightarrow> ident \<Rightarrow> recruiters_db \<Rightarrow> (recruiters_db, unit) outcome" where
  "addFavorite w c r s = (case List.find (\<lambda>u. u_id u = r) (t_users (q_db s)) of
     None \<Rightarrow> throw NotFoundException s
   | Some u \<Rightarrow>
       if u_role u \<noteq> RECRUITER then throw ForbiddenException s
       else if is_favorite c r s then throw ConflictException s
       else return () (s\<lparr>q_favorites := q_favorites s @ [(c, r, q_now w)]\<rparr>))"

definition removeFavorite :: "ident \<Rightarrow> ident \<Rightarrow> recruiters_db \<Rightarrow> (recruiters_db, unit) outcome" where
  "removeFavorite c r s =
     (if \<not> is_favorite c r s then throw NotFoundException s
      else return () (s\<lparr>q_favorites := delete_where (\<lambda>(c', r', _). c' = c \<and> r' = r) (q_favorites s)\<rparr>))"

definition listFavorites :: "ident \<Rightarrow> nat \<Rightarrow> nat \<Rightarrow> recruiters_db \<Rightarrow> (ident \<times> ident \<times> time) page_result" where
  "listFavorites c page limit s =
     page_of page limit (by_newest (\<lambda>(_, _, t). t) (filter (\<lambda>(c', _, _). c' = c) (q_favorites s)))"

section \<open>Portfolio\<close>

definition listPortfolio :: "ident \<Rightarrow> recruiters_db \<Rightarrow> portfolio_entry list" where
  "listPortfolio r s = sort_key (\<lambda>p. - pe_year p) (filter (\<lambda>p. pe_recruiterId p = r) (q_portfolio s))"

definition createEntry :: "recruiters_env \<Rightarrow> ident \<Rightarrow> string \<Rightarrow> string \<Rightarrow> int \<Rightarrow> recruiters_db \<Rightarrow> (recruiters_db, portfolio_entry) outcome" where
  "createEntry w r role industry year s =
     (let p = \<lparr>pe_id = q_newId w, pe_recruiterId = r, pe_role = role, pe_industry = industry, pe_year = year\<rparr>
      in return p (s\<lparr>q_portfolio := q_portfolio s @ [p]\<rparr>))"

definition own_entry :: "ident \<Rightarrow> ident \<Rightarrow> recruiters_db \<Rightarrow> exn + portfolio_entry" where
  "own_entry r i s = (case List.find (\<lambda>p. pe_id p = i) (q_portfolio s) of
     None \<Rightarrow> Inl NotFoundException
   | Some p \<Rightarrow> if pe_recruiterId p \<noteq> r then Inl ForbiddenException else Inr p)"

text \<open>A field that is \<open>undefined\<close> is left as it is.\<close>

definition updateEntry :: "ident \<Rightarrow> ident \<Rightarrow> string option \<Rightarrow> string option \<Rightarrow> int option \<Rightarrow> recruiters_db \<Rightarrow> (recruiters_db, unit) outcome" where
  "updateEntry r i role industry year s = (case own_entry r i s of
     Inl x \<Rightarrow> throw x s
   | Inr _ \<Rightarrow> return () (s\<lparr>q_portfolio := update_where (\<lambda>p. pe_id p = i)
       (\<lambda>p. p\<lparr>pe_role := (case role of None \<Rightarrow> pe_role p | Some x \<Rightarrow> x),
              pe_industry := (case industry of None \<Rightarrow> pe_industry p | Some x \<Rightarrow> x),
              pe_year := (case year of None \<Rightarrow> pe_year p | Some x \<Rightarrow> x)\<rparr>) (q_portfolio s)\<rparr>))"

definition deleteEntry :: "ident \<Rightarrow> ident \<Rightarrow> recruiters_db \<Rightarrow> (recruiters_db, unit) outcome" where
  "deleteEntry r i s = (case own_entry r i s of
     Inl x \<Rightarrow> throw x s
   | Inr _ \<Rightarrow> return () (s\<lparr>q_portfolio := delete_where (\<lambda>p. pe_id p = i) (q_portfolio s)\<rparr>))"

section \<open>Statistics\<close>

record recruiter_stats =
  st_totalEngagements :: nat
  st_completedCount :: nat
  st_averageRetentionRate :: rat
  st_averageRating :: "rat option"
  st_totalEarned :: stroops
  st_activeDisputes :: nat

definition stat_engagements :: "string \<Rightarrow> db \<Rightarrow> engagement list" where
  "stat_engagements a d = filter (\<lambda>e. e_recruiterAddress e = a \<and> e_archivedAt e = None) (t_engagements d)"

definition retention_milestones :: "engagement \<Rightarrow> db \<Rightarrow> milestone list" where
  "retention_milestones e d = filter (\<lambda>m. m_kind m = RETENTION) (milestones_of (e_id e) d)"

fun stats_loop :: "db \<Rightarrow> engagement list \<Rightarrow> stroops \<times> nat \<times> nat \<Rightarrow> stroops \<times> nat \<times> nat" where
  "stats_loop d [] acc = acc"
| "stats_loop d (e # es) (earned, n, ok) =
     (let counted = (retention_milestones e d \<noteq> [] \<and> e_status e = COMPLETED);
          kept = list_all (\<lambda>m. m_status m = CONFIRMED) (retention_milestones e d)
      in stats_loop d es (earned + e_releasedAmount e,
           if counted then Suc n else n, if counted \<and> kept then Suc ok else ok))"

text \<open>\<open>Math.round(a / b * 100)\<close>.\<close>

definition percentage :: "nat \<Rightarrow> nat \<Rightarrow> rat" where
  "percentage a b = of_int \<lfloor>to_double (to_double (of_nat a / of_nat b) * 100) + 1 / 2\<rfloor>"

definition compute_stats :: "ident \<Rightarrow> string \<Rightarrow> recruiters_db \<Rightarrow> recruiter_stats" where
  "compute_stats uid a s = (let d = q_db s; es = stat_engagements a d; (earned, n, ok) = stats_loop d es (0, 0, 0)
     in \<lparr>st_totalEngagements = length es,
         st_completedCount = count_where (\<lambda>e. e_status e = COMPLETED) es,
         st_averageRetentionRate = (if 0 < n then percentage ok n else 0),
         st_averageRating = getAverageRating uid s,
         st_totalEarned = earned,
         st_activeDisputes = count_where (\<lambda>e. list_ex (\<lambda>m. m_status m = DISPUTED) (milestones_of (e_id e) d)) es\<rparr>)"

text \<open>\<open>cached\<close> is what the cache manager answers; the second result is what it is asked to keep for five minutes.\<close>

definition getStats :: "recruiter_stats option \<Rightarrow> user \<Rightarrow> recruiters_db \<Rightarrow> exn + (recruiter_stats \<times> recruiter_stats option)" where
  "getStats cached u s =
     (if \<not> truthy (u_stellarAddress u) then Inl NotFoundException
      else case cached of
        Some r \<Rightarrow> Inr (r, None)
      | None \<Rightarrow> (let r = compute_stats (u_id u) (the (u_stellarAddress u)) s in Inr (r, Some r)))"

definition getEngagements_recruiter :: "user \<Rightarrow> nat \<Rightarrow> nat \<Rightarrow> recruiters_db \<Rightarrow> exn + engagement page_result" where
  "getEngagements_recruiter u page limit s =
     (if \<not> truthy (u_stellarAddress u) then Inl NotFoundException
      else Inr (page_of page limit (by_newest e_createdAt
             (stat_engagements (the (u_stellarAddress u)) (q_db s)))))"

section \<open>Consistency of the records\<close>

definition has_documents :: "ident \<Rightarrow> recruiters_db \<Rightarrow> bool" where
  "has_documents uid s \<longleftrightarrow> list_ex (\<lambda>d. kd_userId d = uid) (q_documents s)"

definition kyc_ok :: "recruiters_db \<Rightarrow> kyc_row \<Rightarrow> bool" where
  "kyc_ok s k \<longleftrightarrow>
     (ky_status k \<noteq> K_NONE \<longrightarrow> has_documents (ky_userId k) s) \<and>
     (ky_reviewedBy k \<noteq> None \<longleftrightarrow> ky_status k \<in> {K_APPROVED, K_REJECTED}) \<and>
     (ky_reviewedAt k \<noteq> None \<longleftrightarrow> ky_status k \<in> {K_APPROVED, K_REJECTED}) \<and>
     (ky_rejectionReason k \<noteq> None \<longrightarrow> ky_status k = K_REJECTED)"

definition reviews_ok :: "review list \<Rightarrow> bool" where
  "reviews_ok rs \<longleftrightarrow> distinct (map rv_engagementId rs) \<and> list_all (\<lambda>r. valid_review (rv_rating r) (rv_comment r)) rs"

definition favorite_pairs :: "recruiters_db \<Rightarrow> (ident \<times> ident) list" where
  "favorite_pairs s = map (\<lambda>(c, r, _). (c, r)) (q_favorites s)"

definition records_ok :: "recruiters_db \<Rightarrow> bool" where
  "records_ok s \<longleftrightarrow> reviews_ok (q_reviews s) \<and> list_all (kyc_ok s) (q_kyc s) \<and> distinct (favorite_pairs s)"

inductive recruiters_step :: "recruiters_db \<Rightarrow> recruiters_db \<Rightarrow> bool" where
  review: "recruiters_step s (snd (submitReview w eid u rating comment s))"
| document: "recruiters_step s (snd (submitDocument w uid name bytes mime s))"
| approve: "recruiters_step s (snd (approve_kyc w uid admin s))"
| reject: "recruiters_step s (snd (reject_kyc w uid admin reason s))"
| favor: "recruiters_step s (snd (addFavorite w c r s))"
| unfavor: "recruiters_step s (snd (removeFavorite c r s))"
| entry: "recruiters_step s (snd (createEntry w r role industry year s))"
| edit: "recruiters_step s (snd (updateEntry r i role' industry' year' s))"
| delete: "recruiters_step s (snd (deleteEntry r i s))"
| elsewhere: "recruiters_step s (s\<lparr>q_db := d\<rparr>)"

inductive_cases recruiters_stepE: "recruiters_step s s'"

lemma is_favorite_pairs: "is_favorite c r s \<longleftrightarrow> (c, r) \<in> set (favorite_pairs s)"
  by (force simp: is_favorite_def favorite_pairs_def list_ex_iff)

lemma kyc_ok_frame: "q_documents s' = q_documents s \<Longrightarrow> kyc_ok s' = kyc_ok s"
  by (simp add: fun_eq_iff kyc_ok_def has_documents_def)

lemma kyc_ok_updates [simp]:
  "kyc_ok (s\<lparr>q_favorites := fs\<rparr>) = kyc_ok s" "kyc_ok (s\<lparr>q_reviews := rs\<rparr>) = kyc_ok s"
  "kyc_ok (s\<lparr>q_db := d\<rparr>) = kyc_ok s" "kyc_ok (s\<lparr>q_portfolio := ps\<rparr>) = kyc_ok s"
  by (rule kyc_ok_frame, simp)+

lemma records_ok_updates [simp]:
  "records_ok (s\<lparr>q_db := d\<rparr>) = records_ok s" "records_ok (s\<lparr>q_portfolio := ps\<rparr>) = records_ok s"
  by (simp_all add: records_ok_def favorite_pairs_def)

lemma create_review_ok:
  assumes "records_ok s" and "valid_review (rv_rating r) (rv_comment r)"
  shows "records_ok (snd (create_review r s))"
  using assms by (auto simp: create_review_def records_ok_def reviews_ok_def favorite_pairs_def list_ex_iff)

lemma submitReview_ok: "records_ok s \<Longrightarrow> records_ok (snd (submitReview w eid u rating comment s))"
  by (auto simp: submitReview_def intro: create_review_ok split: option.splits)

lemma update_kyc_ok:
  assumes "records_ok s" and "\<And>k. k \<in> set (q_kyc s) \<Longrightarrow> ky_userId k = uid \<Longrightarrow> kyc_ok s' (f k)"
    and "\<And>k. kyc_ok s k \<Longrightarrow> kyc_ok s' k"
    and "q_kyc s' = q_kyc s" and "q_reviews s' = q_reviews s" and "q_favorites s' = q_favorites s"
  shows "records_ok (update_kyc uid f s')"
proof -
  have "kyc_ok (update_kyc uid f s') = kyc_ok s'" by (rule kyc_ok_frame) (simp add: update_kyc_def)
  moreover have "list_all (kyc_ok s') (update_where (\<lambda>k. ky_userId k = uid) f (q_kyc s))"
    using assms(1-3) by (auto simp: records_ok_def list_all_iff set_update_where)
  ultimately show ?thesis using assms(1,4-6)
    by (simp add: records_ok_def update_kyc_def favorite_pairs_def)
qed

lemma submitDocument_ok:
  assumes "records_ok s" shows "records_ok (snd (submitDocument w uid name bytes mime s))"
proof -
  have "records_ok (update_kyc uid
      (\<lambda>k. k\<lparr>ky_status := K_PENDING, ky_rejectionReason := None, ky_reviewedAt := None, ky_reviewedBy := None, ky_updatedAt := q_now w\<rparr>)
      (s\<lparr>q_objects := os, q_documents := q_documents s @ [d]\<rparr>))"
    if "kd_userId d = uid" for d os
    by (rule update_kyc_ok [OF assms]) (use that in \<open>auto simp: kyc_ok_def has_documents_def\<close>)
  with assms show ?thesis by (auto simp: submitDocument_def Let_def split: option.splits)
qed

lemma review_kyc_ok:
  assumes "records_ok s" and "st \<in> {K_APPROVED, K_REJECTED}"
  shows "records_ok (snd (review_kyc w uid admin st reason s))"
proof -
  have "records_ok (update_kyc uid
      (\<lambda>k. k\<lparr>ky_status := st, ky_reviewedAt := Some (q_now w), ky_reviewedBy := Some admin,
             ky_rejectionReason := (if st = K_REJECTED then reason else None), ky_updatedAt := q_now w\<rparr>) s)"
    if "count_where (\<lambda>d. kd_userId d = uid) (q_documents s) \<noteq> 0"
  proof (rule update_kyc_ok [OF assms(1)])
    have "has_documents uid s" using that by (auto simp: has_documents_def list_ex_iff count_where_0)
    then show "kyc_ok s (k\<lparr>ky_status := st, ky_reviewedAt := Some (q_now w), ky_reviewedBy := Some admin,
         ky_rejectionReason := (if st = K_REJECTED then reason else None), ky_updatedAt := q_now w\<rparr>)"
      if "ky_userId k = uid" for k :: kyc_row
      using assms(2) that by (auto simp: kyc_ok_def)
  qed auto
  with assms(1) show ?thesis by (auto simp: review_kyc_def split: option.splits)
qed

lemma addFavorite_ok:
  assumes "records_ok s" shows "records_ok (snd (addFavorite w c r s))"
proof -
  have "records_ok (s\<lparr>q_favorites := q_favorites s @ [(c, r, t)]\<rparr>)" if "\<not> is_favorite c r s" for t
    using assms that
    by (simp add: records_ok_def is_favorite_pairs) (simp add: favorite_pairs_def)
  with assms show ?thesis by (auto simp: addFavorite_def split: option.splits)
qed

lemma removeFavorite_ok:
  assumes "records_ok s" shows "records_ok (snd (removeFavorite c r s))"
proof -
  let ?s = "s\<lparr>q_favorites := delete_where (\<lambda>(c', r', _). c' = c \<and> r' = r) (q_favorites s)\<rparr>"
  have "distinct (favorite_pairs ?s)" using assms
    by (simp add: records_ok_def favorite_pairs_def delete_where_def distinct_map_filter)
  with assms have "records_ok ?s" by (simp add: records_ok_def)
  with assms show ?thesis by (auto simp: removeFavorite_def)
qed

lemma entry_ok:
  "records_ok s \<Longrightarrow> records_ok (snd (createEntry w r role industry year s))"
  "records_ok s \<Longrightarrow> records_ok (snd (updateEntry r i role' industry' year' s))"
  "records_ok s \<Longrightarrow> records_ok (snd (deleteEntry r i s))"
  by (simp_all add: createEntry_def updateEntry_def deleteEntry_def Let_def split: sum.splits)

lemma recruiters_step_ok: "recruiters_step s s' \<Longrightarrow> records_ok s \<Longrightarrow> records_ok s'"
  by (induction rule: recruiters_step.induct)
    (simp_all add: submitReview_ok submitDocument_ok approve_kyc_def reject_kyc_def review_kyc_ok addFavorite_ok
      removeFavorite_ok entry_ok)

text \<open>What the records of recruiters keep along every run of the handlers, and what an average rating shows.\<close>

section \<open>Runs\<close>

abbreviation recruiters_run :: "recruiters_db \<Rightarrow> recruiters_db \<Rightarrow> bool" where
  "recruiters_run \<equiv> recruiters_step\<^sup>*\<^sup>*"

definition kyc_unique :: "recruiters_db \<Rightarrow> bool" where
  "kyc_unique s \<longleftrightarrow> distinct (map ky_userId (q_kyc s))"

definition keeps_approvals :: "recruiters_db \<Rightarrow> recruiters_db \<Rightarrow> bool" where
  "keeps_approvals s s' \<longleftrightarrow> kyc_unique s' \<and> (\<forall>k \<in> set (q_kyc s). ky_status k = K_APPROVED \<longrightarrow> k \<in> set (q_kyc s'))"

lemma keeps_same: "kyc_unique s \<Longrightarrow> q_kyc s' = q_kyc s \<Longrightarrow> keeps_approvals s s'"
  by (simp add: keeps_approvals_def kyc_unique_def)

lemma keeps_update:
  assumes "kyc_unique s" and "get_kyc uid s = Some (u, k)" and "ky_status k \<noteq> K_APPROVED"
    and "q_kyc s' = q_kyc s" and "\<And>k. ky_userId (f k) = ky_userId k"
  shows "keeps_approvals s (update_kyc uid f s')"
proof -
  have k: "k \<in> set (q_kyc s)" "ky_userId k = uid"
    using assms(2) by (auto simp: get_kyc_def split: option.splits dest: find_SomeD)
  have "map ky_userId (q_kyc (update_kyc uid f s')) = map ky_userId (q_kyc s)"
    using assms(4,5) by (simp add: update_kyc_def map_update_where_key)
  moreover have "x \<in> set (q_kyc (update_kyc uid f s'))" if x: "x \<in> set (q_kyc s)" "ky_status x = K_APPROVED" for x
  proof -
    have "ky_userId x \<noteq> uid"
    proof
      assume "ky_userId x = uid"
      with k x(1) assms(1) have "x = k" by (auto simp: kyc_unique_def distinct_map inj_on_def)
      with x(2) assms(3) show False by simp
    qed
    with x(1) assms(4) show ?thesis by (force simp: update_kyc_def set_update_where image_iff)
  qed
  ultimately show ?thesis using assms(1) by (simp add: keeps_approvals_def kyc_unique_def)
qed

lemma review_kyc_keeps: "kyc_unique s \<Longrightarrow> keeps_approvals s (snd (review_kyc w uid admin st reason s))"
  by (auto simp: review_kyc_def intro: keeps_same intro!: keeps_update split: option.splits)

lemma submitDocument_keeps: "kyc_unique s \<Longrightarrow> keeps_approvals s (snd (submitDocument w uid name bytes mime s))"
  by (auto simp: submitDocument_def Let_def intro: keeps_same intro!: keeps_update split: option.splits)

lemma other_handlers_keep:
  "q_kyc (snd (submitReview w eid u rating comment s)) = q_kyc s"
  "q_kyc (snd (addFavorite w c r s)) = q_kyc s" "q_kyc (snd (removeFavorite c r s)) = q_kyc s"
  "q_kyc (snd (createEntry w r role industry year s)) = q_kyc s"
  "q_kyc (snd (updateEntry r i role' industry' year' s)) = q_kyc s"
  "q_kyc (snd (deleteEntry r i s)) = q_kyc s"
  by (auto simp: submitReview_def create_review_def addFavorite_def removeFavorite_def createEntry_def updateEntry_def
      deleteEntry_def Let_def split: option.splits sum.splits)

lemma step_keeps_approvals: "recruiters_step s s' \<Longrightarrow> kyc_unique s \<Longrightarrow> keeps_approvals s s'"
  by (induction rule: recruiters_step.induct)
    (simp_all add: review_kyc_keeps submitDocument_keeps approve_kyc_def reject_kyc_def keeps_same other_handlers_keep)

lemma recruiters_run_keeps:
  "recruiters_run s0 s \<Longrightarrow> records_ok s0 \<Longrightarrow> kyc_unique s0 \<Longrightarrow> records_ok s \<and> keeps_approvals s0 s"
proof (induction rule: rtranclp_induct)
  case base
  then show ?case by (simp add: keeps_same)
next
  case (step s s')
  then have s: "records_ok s" "keeps_approvals s0 s" by simp_all
  then have "kyc_unique s" by (simp add: keeps_approvals_def)
  with step.hyps(2) have "keeps_approvals s s'" by (rule step_keeps_approvals)
  with s(2) have "keeps_approvals s0 s'" by (simp add: keeps_approvals_def)
  with recruiters_step_ok [OF step.hyps(2) s(1)] show ?case ..
qed

section \<open>Properties\<close>

text \<open>
  Along every run of the recruiters' handlers, and whatever the other services do to engagements and users
  in between: an engagement has at most one review, with a rating from one to five; a company lists a
  recruiter once among its favourites; an identity check past NONE has documents, names a reviewer and a time
  exactly when it is decided and a reason only when it is rejected; and an approval is never touched again.
\<close>
lemma recruiter_records_stay_consistent:
  assumes "recruiters_run s0 s" and "records_ok s0" and "kyc_unique s0"
  shows "distinct (map rv_engagementId (q_reviews s)) \<and>
    list_all (\<lambda>r. 1 \<le> rv_rating r \<and> rv_rating r \<le> 5) (q_reviews s) \<and>
    distinct (map (\<lambda>(c, r, _). (c, r)) (q_favorites s)) \<and>
    list_all (\<lambda>k. (ky_status k = K_NONE \<or> has_documents (ky_userId k) s) \<and>
      (ky_reviewedBy k \<noteq> None) = (ky_status k \<in> {K_APPROVED, K_REJECTED}) \<and>
      (ky_reviewedAt k \<noteq> None) = (ky_status k \<in> {K_APPROVED, K_REJECTED}) \<and>
      (ky_rejectionReason k = None \<or> ky_status k = K_REJECTED)) (q_kyc s) \<and>
    set (filter (\<lambda>k. ky_status k = K_APPROVED) (q_kyc s0)) \<subseteq> set (q_kyc s)"
proof -
  from recruiters_run_keeps [OF assms] have ok: "records_ok s" and k: "keeps_approvals s0 s" by auto
  have "list_all (\<lambda>r. 1 \<le> rv_rating r \<and> rv_rating r \<le> 5) (q_reviews s)"
    using ok by (auto simp: records_ok_def reviews_ok_def valid_review_def list_all_iff)
  moreover have "list_all (\<lambda>k. (ky_status k = K_NONE \<or> has_documents (ky_userId k) s) \<and>
      (ky_reviewedBy k \<noteq> None) = (ky_status k \<in> {K_APPROVED, K_REJECTED}) \<and>
      (ky_reviewedAt k \<noteq> None) = (ky_status k \<in> {K_APPROVED, K_REJECTED}) \<and>
      (ky_rejectionReason k = None \<or> ky_status k = K_REJECTED)) (q_kyc s)"
    using ok unfolding records_ok_def kyc_ok_def by (auto simp: list_all_iff)
  ultimately show ?thesis using ok k
    by (auto simp: records_ok_def reviews_ok_def favorite_pairs_def keeps_approvals_def)
qed

section \<open>The average rating\<close>

lemma to_double_near:
  assumes "0 \<le> q" and "q \<le> 64" shows "\<bar>to_double q - q\<bar> \<le> 1 / 10 ^ 13" and "0 \<le> to_double q"
proof -
  have "\<bar>to_double q - q\<bar> \<le> q / 2 ^ 53" by (rule to_double_error [OF assms(1)])
  also have "\<dots> \<le> 64 / 2 ^ 53" using assms(2) by (simp add: divide_right_mono)
  also have "\<dots> \<le> 1 / 10 ^ 13" by simp
  finally show "\<bar>to_double q - q\<bar> \<le> 1 / 10 ^ 13" .
  show "0 \<le> to_double q" by (rule to_double_error [OF assms(1)])
qed

lemma round_tenth_error:
  assumes "1 \<le> q" and "q \<le> (5 :: rat)"
  shows "\<exists>k. 10 \<le> k \<and> k \<le> 50 \<and> round_tenth (to_double q) = to_double (of_int k / 10) \<and>
    \<bar>of_int k / 10 - q\<bar> \<le> 1 / 20 + 1 / 10 ^ 12"
proof -
  define a where "a = to_double q"
  define b where "b = to_double (a * 10)"
  define k where "k = \<lfloor>b + 1 / 2\<rfloor>"
  define e :: rat where "e = 1 / 10 ^ 13"
  have e: "0 \<le> e" "e \<le> 1 / 100" "1 / 10 ^ 12 = 10 * e" by (simp_all add: e_def)
  have a: "q - e \<le> a" "a \<le> q + e" "0 \<le> a"
    using to_double_near [of q] assms unfolding a_def e_def abs_diff_le_iff by simp_all
  then have a10: "a * 10 \<le> 64" "0 \<le> a * 10" using assms(2) e(2) by linarith+
  have b: "a * 10 - e \<le> b" "b \<le> a * 10 + e"
    using to_double_near(1) [OF a10(2,1)] unfolding b_def e_def abs_diff_le_iff by simp_all
  have k: "of_int k \<le> b + 1 / 2" "b + 1 / 2 < of_int k + 1"
    unfolding k_def by (rule of_int_floor_le, rule floor_correct [THEN conjunct2, unfolded of_int_add of_int_1])
  have "(9 :: rat) < of_int k" using a(1) b(1) k(2) assms(1) e(2) by linarith
  moreover have "of_int k < (51 :: rat)" using a(2) b(2) k(1) assms(2) e(2) by linarith
  ultimately have "9 < k" "k < 51" by linarith+
  moreover have "q - (1 / 20 + 10 * e) \<le> of_int k / 10" "of_int k / 10 \<le> q + (1 / 20 + 10 * e)"
    using a b k e(1) by linarith+
  then have "\<bar>of_int k / 10 - q\<bar> \<le> 1 / 20 + 1 / 10 ^ 12" unfolding e(3) abs_diff_le_iff by simp
  moreover have "round_tenth a = to_double (of_int k / 10)" by (simp add: round_tenth_def k_def b_def)
  ultimately show ?thesis unfolding a_def by (intro exI [of _ k]) simp
qed

lemma mean_between:
  assumes "rs \<noteq> []" and "list_all (\<lambda>r. 1 \<le> r \<and> r \<le> 5) rs"
  shows "1 \<le> (of_nat (sum_list rs) / of_nat (length rs) :: rat)" and "of_nat (sum_list rs) / of_nat (length rs) \<le> (5 :: rat)"
proof -
  have "length rs \<le> sum_list rs \<and> sum_list rs \<le> 5 * length rs" using assms(2) by (induction rs) auto
  then have "(of_nat (length rs) :: rat) \<le> of_nat (sum_list rs)" "(of_nat (sum_list rs) :: rat) \<le> of_nat (5 * length rs)"
    by (simp_all only: of_nat_le_iff)
  moreover have "0 < (of_nat (length rs) :: rat)" using assms(1) by simp
  ultimately show "1 \<le> (of_nat (sum_list rs) / of_nat (length rs) :: rat)" "of_nat (sum_list rs) / of_nat (length rs) \<le> (5 :: rat)"
    by (simp_all add: le_divide_eq divide_le_eq)
qed

text \<open>
  A recruiter without reviews has no average; otherwise the average shown is one of the 41 tenths between
  1.0 and 5.0 (as a double), and within half a tenth and a rounding error of the true mean of the ratings.
\<close>
lemma average_rating_is_the_rounded_mean:
  assumes "list_all (\<lambda>r. 1 \<le> rv_rating r \<and> rv_rating r \<le> 5) (q_reviews s)"
  shows "case getAverageRating i s of
      None \<Rightarrow> ratings_of i s = []
    | Some a \<Rightarrow> ratings_of i s \<noteq> [] \<and> (\<exists>k. 10 \<le> k \<and> k \<le> 50 \<and> a = to_double (of_int k / 10) \<and>
        \<bar>(of_int k :: rat) / 10 - of_nat (sum_list (ratings_of i s)) / of_nat (length (ratings_of i s))\<bar> \<le> 1 / 20 + 1 / 10 ^ 12)"
proof (cases "ratings_of i s = []")
  case False
  have "list_all (\<lambda>r. 1 \<le> r \<and> r \<le> 5) (ratings_of i s)"
    using assms by (auto simp: ratings_of_def list_all_iff)
  from round_tenth_error [OF mean_between [OF False this]] False show ?thesis
    by (simp add: getAverageRating_def Let_def)
qed (simp add: getAverageRating_def)

section \<open>A concrete run\<close>

definition recruiters0 :: recruiters_db where
  "recruiters0 = \<lparr>q_db = world_db, q_reviews = [], q_kyc = [\<lparr>ky_userId = ''ur'', ky_status = K_NONE, ky_reviewedAt = None,
     ky_reviewedBy = None, ky_rejectionReason = None, ky_updatedAt = 0\<rparr>], q_documents = [], q_favorites = [],
     q_portfolio = [], q_objects = []\<rparr>"

definition recruiters_env1 :: recruiters_env where
  "recruiters_env1 = \<lparr>q_now = 7, q_s3Up = True, q_newId = ''p1''\<rparr>"

definition recruiters1 :: recruiters_db where
  "recruiters1 = snd (approve_kyc recruiters_env1 ''ur'' ''ad''
     (snd (submitDocument recruiters_env1 ''ur'' ''pass port.pdf'' 1000 ''application/pdf'' recruiters0)))"

lemma recruiter_records_stay_consistent_witness:
  "map ky_status (q_kyc recruiters1) = [K_APPROVED] \<and> list_all (\<lambda>k. has_documents (ky_userId k) recruiters1) (q_kyc recruiters1)"
proof -
  have "recruiters_run recruiters0 recruiters1" unfolding recruiters1_def
    by (rule rtranclp.rtrancl_into_rtrancl, rule r_into_rtranclp, rule recruiters_step.document, rule recruiters_step.approve)
  moreover have "records_ok recruiters0" "kyc_unique recruiters0"
    by (simp_all add: recruiters0_def records_ok_def reviews_ok_def favorite_pairs_def kyc_ok_def kyc_unique_def)
  ultimately have "list_all (\<lambda>k. (ky_status k = K_NONE \<or> has_documents (ky_userId k) recruiters1)) (q_kyc recruiters1)"
    using recruiter_records_stay_consistent [of recruiters0 recruiters1] by (auto simp: list_all_iff)
  moreover have "map ky_status (q_kyc recruiters1) = [K_APPROVED]"
    by (simp add: recruiters1_def recruiters0_def recruiters_env1_def submitDocument_def approve_kyc_def review_kyc_def get_kyc_def
        update_kyc_def ALLOWED_KYC_MIME_TYPES_def MAX_KYC_FILE_BYTES_def Let_def fixture_simps)
  ultimately show ?thesis by (auto simp: list_all_iff)
qed

lemma average_rating_is_the_rounded_mean_witness:
  "case getAverageRating ''ur'' (recruiters0\<lparr>q_reviews := [\<lparr>rv_engagementId = ''e1'', rv_recruiterId = ''ur'',
      rv_reviewerId = ''uc'', rv_rating = 4, rv_comment = None, rv_createdAt = 1\<rparr>]\<rparr>) of
    None \<Rightarrow> False
  | Some a \<Rightarrow> \<exists>k. 10 \<le> k \<and> k \<le> 50 \<and> a = to_double (of_int k / 10) \<and> \<bar>(of_int k :: rat) / 10 - 4\<bar> \<le> 1 / 20 + 1 / 10 ^ 12"
proof -
  let ?s = "recruiters0\<lparr>q_reviews := [\<lparr>rv_engagementId = ''e1'', rv_recruiterId = ''ur'',
      rv_reviewerId = ''uc'', rv_rating = 4, rv_comment = None, rv_createdAt = 1\<rparr>]\<rparr>"
  have "list_all (\<lambda>r. 1 \<le> rv_rating r \<and> rv_rating r \<le> 5) (q_reviews ?s)" by simp
  from average_rating_is_the_rounded_mean [OF this, of "''ur''"] show ?thesis
    by (simp add: ratings_of_def split: option.splits)
qed

end
