(* ===== verification/Sep10.thy ===== *)
theory Sep10
  imports Prelude "HOL-Library.Word"
begin

text \<open>
  Stellar web authentication, \<^verbatim>\<open>modules/stellar/sep10.service.ts\<close>: the service signs a challenge transaction
  with a nonce, the wallet signs it too, and the service looks the nonce up again.  The transactions are the
  SDK's: how one is built and parsed, and whose signatures it carries, are parameters.
\<close>

section \<open>Base 64, as Node's buffers write it\<close>

definition base64Chars :: string where
  "base64Chars = ''ABCDEFGHIJKLMNOPQRSTUVWXYZabcdefghijklmnopqrstuvwxyz0123456789+/''"

definition base64_char :: "nat \<Rightarrow> char" where
  "base64_char n = base64Chars ! n"

fun base64 :: "8 word list \<Rightarrow> string" where
  "base64 [] = []"
| "base64 [a] = [base64_char (unat a div 4), base64_char (unat a mod 4 * 16), CHR ''='', CHR ''='']"
| "base64 [a, b] = [base64_char (unat a div 4), base64_char (unat a mod 4 * 16 + unat b div 16),
     base64_char (unat b mod 16 * 4), CHR ''='']"
| "base64 (a # b # c # bs) = base64_char (unat a div 4) # base64_char (unat a mod 4 * 16 + unat b div 16) #
     base64_char (unat b mod 16 * 4 + unat c div 64) # base64_char (unat c mod 64) # base64 bs"

text \<open>\<open>Buffer.from(s)\<close>: the bytes of a text; the texts encoded here are ASCII.\<close>

definition text_bytes :: "string \<Rightarrow> 8 word list" where
  "text_bytes s = map of_char s"

section \<open>Challenges\<close>

definition CHALLENGE_TTL_SECONDS :: int where
  "CHALLENGE_TTL_SECONDS = 300"

record sep10_challenge =
  sc_account :: string
  sc_nonce :: string
  sc_xdr :: string
  sc_expiresAt :: time
  sc_usedAt :: "time option"

type_synonym sep10_db = "sep10_challenge list"

text \<open>
  \<open>buildSigned\<close> is the signed challenge for an account, the value of its \<open>manageData\<close> operation and the time
  bounds; \<open>parseTx\<close> reads a transaction; \<open>manageData\<close> is the value of its first such operation;
  \<open>serverSigned\<close> and \<open>clientSigned\<close> tell whether one of its signatures verifies with the server's key and with
  the key of an account.
\<close>

record 'tx sep10_env =
  validAccount :: "string \<Rightarrow> bool"
  buildSigned :: "string \<Rightarrow> 8 word list \<Rightarrow> int \<Rightarrow> int \<Rightarrow> string"
  parseTx :: "string \<Rightarrow> 'tx option"
  manageData :: "'tx \<Rightarrow> 8 word list option"
  serverSigned :: "'tx \<Rightarrow> bool"
  clientSigned :: "string \<Rightarrow> 'tx \<Rightarrow> bool"

text \<open>\<open>random\<close> are the 32 bytes drawn; the nonce is passed to the operation as a text.\<close>

definition createChallenge :: "'tx sep10_env \<Rightarrow> time \<Rightarrow> 8 word list \<Rightarrow> string \<Rightarrow> sep10_db \<Rightarrow> (sep10_db, string) outcome" where
  "createChallenge w t random account s =
     (if \<not> validAccount w account then throw BadRequestException s
      else (let nonce = base64 random;
                n = t div 1000;
                xdr = buildSigned w account (text_bytes nonce) n (n + CHALLENGE_TTL_SECONDS)
            in if list_ex (\<lambda>c. sc_nonce c = nonce) s then throw UniqueViolation s
               else return xdr (s @ [\<lparr>sc_account = account, sc_nonce = nonce, sc_xdr = xdr,
                      sc_expiresAt = (n + CHALLENGE_TTL_SECONDS) * 1000, sc_usedAt = None\<rparr>])))"

definition verifyChallenge :: "'tx sep10_env \<Rightarrow> time \<Rightarrow> string \<Rightarrow> sep10_db \<Rightarrow> (sep10_db, string) outcome" where
  "verifyChallenge w t xdr s = (case parseTx w xdr of
     None \<Rightarrow> throw BadRequestException s
   | Some tx \<Rightarrow> (case manageData w tx of
       None \<Rightarrow> throw BadRequestException s
     | Some v \<Rightarrow>
         (let nonce = base64 v in
          case List.find (\<lambda>c. sc_nonce c = nonce) s of
            None \<Rightarrow> throw UnauthorizedException s
          | Some c \<Rightarrow>
              if sc_usedAt c \<noteq> None then throw UnauthorizedException s
              else if sc_expiresAt c < t then throw UnauthorizedException s
              else if \<not> serverSigned w tx then throw UnauthorizedException s
              else if \<not> clientSigned w (sc_account c) tx then throw UnauthorizedException s
              else return (sc_account c)
                     (update_where (\<lambda>c. sc_nonce c = nonce) (\<lambda>c. c\<lparr>sc_usedAt := Some t\<rparr>) s))))"

section \<open>What a verification requires\<close>

lemma verify_success:
  assumes "verifyChallenge w t xdr s = (Inr a, s')"
  shows "\<exists>tx v c. parseTx w xdr = Some tx \<and> manageData w tx = Some v \<and> c \<in> set s \<and> sc_nonce c = base64 v \<and>
    sc_account c = a \<and> sc_usedAt c = None \<and> t \<le> sc_expiresAt c \<and> serverSigned w tx \<and> clientSigned w a tx \<and>
    s' = update_where (\<lambda>c. sc_nonce c = base64 v) (\<lambda>c. c\<lparr>sc_usedAt := Some t\<rparr>) s"
  using assms
  by (fastforce simp: verifyChallenge_def Let_def throw_def return_def dest: find_SomeD split: option.splits if_splits)

text \<open>A challenge is good for one login.\<close>

theorem challenge_is_used_once:
  assumes "verifyChallenge w t xdr s = (Inr a, s')" and "parseTx w xdr' = parseTx w xdr"
  shows "verifyChallenge w t' xdr' s' = throw UnauthorizedException s'"
proof -
  obtain tx v c where 1: "parseTx w xdr = Some tx" "manageData w tx = Some v" "c \<in> set s" "sc_nonce c = base64 v"
    "s' = update_where (\<lambda>c. sc_nonce c = base64 v) (\<lambda>c. c\<lparr>sc_usedAt := Some t\<rparr>) s"
    using verify_success [OF assms(1)] by blast
  have "List.find (\<lambda>c. sc_nonce c = base64 v) s' =
      map_option (\<lambda>c. if sc_nonce c = base64 v then c\<lparr>sc_usedAt := Some t\<rparr> else c) (List.find (\<lambda>c. sc_nonce c = base64 v) s)"
    unfolding 1(5) by (rule find_update_where) simp
  moreover obtain d where d: "List.find (\<lambda>c. sc_nonce c = base64 v) s = Some d"
    using 1(3,4) by (cases "List.find (\<lambda>c. sc_nonce c = base64 v) s") (auto simp: find_None)
  then have "sc_nonce d = base64 v" by (auto dest: find_SomeD)
  ultimately have "List.find (\<lambda>c. sc_nonce c = base64 v) s' = Some (d\<lparr>sc_usedAt := Some t\<rparr>)" using d by simp
  then show ?thesis using 1(1,2) assms(2) by (simp add: verifyChallenge_def)
qed

section \<open>Nobody can log in\<close>

lemma length_base64: "length (base64 bs) = 4 * ((length bs + 2) div 3)"
  by (induction bs rule: base64.induct) (simp_all, presburger)

inductive sep10_run :: "'tx sep10_env \<Rightarrow> sep10_db \<Rightarrow> bool" for w where
  start: "sep10_run w []"
| issue: "sep10_run w s \<Longrightarrow> length random = 32 \<Longrightarrow> sep10_run w (snd (createChallenge w t random account s))"
| verify: "sep10_run w s \<Longrightarrow> sep10_run w (snd (verifyChallenge w t xdr s))"

lemma nonces_are_short: "sep10_run w s \<Longrightarrow> c \<in> set s \<Longrightarrow> length (sc_nonce c) = 44"
proof (induction arbitrary: c rule: sep10_run.induct)
  case (issue s random t account)
  then show ?case
    by (auto simp: createChallenge_def Let_def length_base64 split: if_splits)
next
  case (verify s t xdr)
  have "map sc_nonce (snd (verifyChallenge w t xdr s)) = map sc_nonce s"
    by (auto simp: verifyChallenge_def Let_def map_update_where_key split: option.splits)
  then have "sc_nonce c \<in> sc_nonce ` set s" using verify.prems by (metis image_eqI list.set_map)
  with verify.IH show ?case by auto
qed simp

text \<open>
  The service encodes the value it finds in the transaction once more before it looks the nonce up.  When the
  server's key only signs what \<open>createChallenge\<close> builds - a transaction whose value is the text of a nonce - no
  challenge is ever found, whatever the wallet does.
\<close>

definition server_signs_challenges_only :: "'tx sep10_env \<Rightarrow> bool" where
  "server_signs_challenges_only w \<longleftrightarrow>
     (\<forall>tx v. serverSigned w tx \<longrightarrow> manageData w tx = Some v \<longrightarrow> (\<exists>random. length random = 32 \<and> v = text_bytes (base64 random)))"

theorem no_wallet_can_log_in:
  assumes "sep10_run w s" and "server_signs_challenges_only w"
  shows "\<not> (\<exists>a s'. verifyChallenge w t xdr s = (Inr a, s'))"
proof
  assume "\<exists>a s'. verifyChallenge w t xdr s = (Inr a, s')"
  then obtain a s' tx v c where 1: "manageData w tx = Some v" "c \<in> set s" "sc_nonce c = base64 v" "serverSigned w tx"
    using verify_success by metis
  with assms(2) obtain random :: "8 word list" where "length random = 32" "v = text_bytes (base64 random)"
    by (auto simp: server_signs_challenges_only_def)
  then have "length v = 44" by (simp add: text_bytes_def length_base64)
  with 1(3) have "length (sc_nonce c) = 60" by (simp add: length_base64)
  with nonces_are_short [OF assms(1) 1(2)] show False by simp
qed

end
