(* ===== verification/FeeSponsorship.thy ===== *)
theory FeeSponsorship
  imports Doubles
begin

text \<open>
  Fees the platform pays for its users, \<^verbatim>\<open>modules/stellar/fee-sponsorship.service.ts\<close>.  Transactions are the
  SDK's and Horizon's: parsing them, the total fee of a fee bump and the answers of the network are parameters.
\<close>

section \<open>Sponsorship\<close>

definition STROOPS_PER_XLM :: rat where
  "STROOPS_PER_XLM = 10000000"

record inner_tx =
  ix_ops :: nat
  ix_fee :: nat
  ix_hash :: string

datatype parsed_tx = FeeBump | Inner inner_tx

record sponsored_fee =
  sf_companyId :: ident
  sf_txHash :: string
  sf_innerTxHash :: string
  sf_feeStroops :: nat
  sf_createdAt :: time

text \<open>
  \<open>cfg\<close> is the configuration; \<open>parseXdr\<close> reads a transaction; \<open>bumpFee\<close> is the fee a fee bump offers for a
  base fee and its inner transaction; \<open>submitInner\<close> and \<open>submitBump\<close> are Horizon's answers, the hash and,
  for a fee bump, the fee charged where Horizon names it.
\<close>

record sponsor_env =
  cfg :: "string \<Rightarrow> string option"
  parseXdr :: "string \<Rightarrow> parsed_tx option"
  bumpFee :: "nat \<Rightarrow> inner_tx \<Rightarrow> nat"
  submitInner :: "inner_tx \<Rightarrow> exn + string"
  submitBump :: "nat \<Rightarrow> inner_tx \<Rightarrow> exn + (string \<times> nat option)"

definition config_or :: "sponsor_env \<Rightarrow> string \<Rightarrow> string \<Rightarrow> string" where
  "config_or w k d = (case cfg w k of None \<Rightarrow> d | Some v \<Rightarrow> v)"

definition sponsorshipEnabled :: "sponsor_env \<Rightarrow> bool" where
  "sponsorshipEnabled w \<longleftrightarrow> toLowerCase (config_or w ''ENABLE_FEE_SPONSORSHIP'' ''false'') = ''true''"

text \<open>A number is \<open>None\<close> when it is NaN.\<close>

definition dailyCapStroops :: "sponsor_env \<Rightarrow> rat option" where
  "dailyCapStroops w = map_option (\<lambda>x. to_double (x * STROOPS_PER_XLM)) (number_of (config_or w ''FEE_SPONSORSHIP_DAILY_CAP_XLM'' ''100''))"

definition maxFeeStroops :: "sponsor_env \<Rightarrow> rat option" where
  "maxFeeStroops w = number_of (config_or w ''FEE_SPONSORSHIP_MAX_FEE_STROOPS'' ''100000'')"

definition sponsorKeypair :: "sponsor_env \<Rightarrow> exn + string" where
  "sponsorKeypair w = (let secret = (case cfg w ''STELLAR_FEE_SPONSOR_SECRET'' of
        None \<Rightarrow> cfg w ''STELLAR_SECRET_KEY'' | Some x \<Rightarrow> Some x)
     in if truthy secret then Inr (the secret) else Inl BadRequestException)"

text \<open>
  The base fee of the fee bump: the share of an operation, but no less than the inner transaction offers and
  no less than the network's minimum.
\<close>

definition base_fee :: "rat \<Rightarrow> inner_tx \<Rightarrow> nat" where
  "base_fee fee ix = (let ops = max (ix_ops ix) 1
     in nat \<lceil>max (max (of_int \<lfloor>to_double (fee / of_nat (ops + 1))\<rfloor>) (to_double (of_nat (ix_fee ix) / of_nat ops))) 100\<rceil>)"

definition wrap :: "sponsor_env \<Rightarrow> inner_tx \<Rightarrow> exn + nat" where
  "wrap w ix = (case sponsorKeypair w of
     Inl e \<Rightarrow> Inl e
   | Inr _ \<Rightarrow> (case maxFeeStroops w of None \<Rightarrow> Inl PlainError | Some fee \<Rightarrow> Inr (base_fee fee ix)))"

definition day_start :: "time \<Rightarrow> time" where
  "day_start t = t div day_ms * day_ms"

definition spentTodayStroops :: "time \<Rightarrow> sponsored_fee list \<Rightarrow> nat" where
  "spentTodayStroops t rows = sum_list (map sf_feeStroops (filter (\<lambda>r. day_start t \<le> sf_createdAt r) rows))"

text \<open>A comparison with NaN is false; the warning near the cap is a log line.\<close>

definition within_budget :: "sponsor_env \<Rightarrow> time \<Rightarrow> rat option \<Rightarrow> sponsored_fee list \<Rightarrow> bool" where
  "within_budget w t fee rows = (case (dailyCapStroops w, fee) of
     (Some cap, Some f) \<Rightarrow> of_nat (spentTodayStroops t rows) + f \<le> cap
   | _ \<Rightarrow> True)"

record sponsored_result =
  sr_hash :: string
  sr_sponsored :: bool
  sr_feeStroops :: "nat option"

definition submit_sponsored :: "sponsor_env \<Rightarrow> time \<Rightarrow> string \<Rightarrow> ident \<Rightarrow> sponsored_fee list \<Rightarrow> (sponsored_fee list, sponsored_result) outcome" where
  "submit_sponsored w t xdr company rows = (case parseXdr w xdr of
     None \<Rightarrow> throw PlainError rows
   | Some FeeBump \<Rightarrow> throw BadRequestException rows
   | Some (Inner ix) \<Rightarrow>
       if \<not> sponsorshipEnabled w then (case submitInner w ix of
           Inl e \<Rightarrow> throw e rows
         | Inr h \<Rightarrow> return \<lparr>sr_hash = h, sr_sponsored = False, sr_feeStroops = None\<rparr> rows)
       else if \<not> within_budget w t (maxFeeStroops w) rows then throw BadRequestException rows
       else (case wrap w ix of
           Inl e \<Rightarrow> throw e rows
         | Inr base \<Rightarrow> (case submitBump w base ix of
             Inl e \<Rightarrow> throw e rows
           | Inr (h, charged) \<Rightarrow>
               (let fee = (case charged of None \<Rightarrow> bumpFee w base ix | Some c \<Rightarrow> c)
                in return \<lparr>sr_hash = h, sr_sponsored = True, sr_feeStroops = Some fee\<rparr>
                     (rows @ [\<lparr>sf_companyId = company, sf_txHash = h, sf_innerTxHash = ix_hash ix, sf_feeStroops = fee,
                        sf_createdAt = t\<rparr>])))))"

section \<open>The daily budget\<close>

text \<open>What Horizon charges, or the bump offers where Horizon does not say, for the bumps the service builds.\<close>

definition charges_at_most_max :: "sponsor_env \<Rightarrow> bool" where
  "charges_at_most_max w \<longleftrightarrow> (\<forall>f ix h c. maxFeeStroops w = Some f \<longrightarrow>
     submitBump w (base_fee f ix) ix = Inr (h, c) \<longrightarrow>
     of_nat (case c of None \<Rightarrow> bumpFee w (base_fee f ix) ix | Some x \<Rightarrow> x) \<le> f)"

inductive sponsor_run :: "sponsor_env \<Rightarrow> time \<Rightarrow> sponsored_fee list \<Rightarrow> bool" for w where
  start: "sponsor_run w t []"
| submit: "sponsor_run w t rows \<Longrightarrow> t \<le> t' \<Longrightarrow> sponsor_run w t' (snd (submit_sponsored w t' xdr company rows))"

lemma day_start_mono: "t \<le> t' \<Longrightarrow> day_start t \<le> day_start t'"
  by (simp add: day_start_def zdiv_mono1 mult_right_mono)

lemma day_start_le: "day_start t \<le> t"
  using pos_mod_sign [of day_ms t] by (simp add: day_start_def minus_mod_eq_div_mult [symmetric])

lemma spent_append [simp]: "spentTodayStroops t (rows @ [r]) = spentTodayStroops t rows + (if day_start t \<le> sf_createdAt r then sf_feeStroops r else 0)"
  by (simp add: spentTodayStroops_def)

lemma spent_later: "t \<le> t' \<Longrightarrow> spentTodayStroops t' rows \<le> spentTodayStroops t rows"
  using day_start_mono [of t t'] by (induction rows) (auto simp: spentTodayStroops_def)

lemma submit_cases:
  "snd (submit_sponsored w t xdr company rows) = rows \<or>
   (\<exists>f ix h c. maxFeeStroops w = Some f \<and> within_budget w t (Some f) rows \<and>
      submitBump w (base_fee f ix) ix = Inr (h, c) \<and>
      snd (submit_sponsored w t xdr company rows) = rows @ [\<lparr>sf_companyId = company, sf_txHash = h,
        sf_innerTxHash = ix_hash ix, sf_feeStroops = (case c of None \<Rightarrow> bumpFee w (base_fee f ix) ix | Some x \<Rightarrow> x),
        sf_createdAt = t\<rparr>])"
  by (auto simp: submit_sponsored_def wrap_def Let_def split: option.splits parsed_tx.splits sum.splits)

text \<open>
  One request after the other keeps the budget: as long as no bump is charged more than the maximal fee, the
  fees recorded since midnight never exceed the cap.
\<close>

theorem daily_budget_holds:
  assumes "sponsor_run w t rows" and "charges_at_most_max w" and "dailyCapStroops w = Some cap" and "0 \<le> cap"
  shows "of_nat (spentTodayStroops t rows) \<le> cap"
  using assms
proof (induction rule: sponsor_run.induct)
  case (start t)
  then show ?case by (simp add: spentTodayStroops_def)
next
  case (submit t rows t' xdr company)
  then have "of_nat (spentTodayStroops t rows) \<le> cap" by blast
  moreover have "of_nat (spentTodayStroops t' rows) \<le> (of_nat (spentTodayStroops t rows) :: rat)"
    using spent_later [OF submit.hyps(2)] by (simp only: of_nat_le_iff)
  ultimately have le: "of_nat (spentTodayStroops t' rows) \<le> cap" by (rule order_trans [rotated])
  from submit_cases [of w t' xdr company rows] show ?case
  proof (elim disjE exE conjE)
    assume "snd (submit_sponsored w t' xdr company rows) = rows"
    with le show ?thesis by simp
  next
    fix f ix h c
    assume f: "maxFeeStroops w = Some f" "within_budget w t' (Some f) rows" "submitBump w (base_fee f ix) ix = Inr (h, c)"
      and r: "snd (submit_sponsored w t' xdr company rows) = rows @ [\<lparr>sf_companyId = company, sf_txHash = h,
        sf_innerTxHash = ix_hash ix, sf_feeStroops = (case c of None \<Rightarrow> bumpFee w (base_fee f ix) ix | Some x \<Rightarrow> x),
        sf_createdAt = t'\<rparr>]"
    have "of_nat (case c of None \<Rightarrow> bumpFee w (base_fee f ix) ix | Some x \<Rightarrow> x) \<le> f"
      using submit.prems(1) f(1,3) unfolding charges_at_most_max_def by blast
    moreover have "of_nat (spentTodayStroops t' rows) + f \<le> cap"
      using f(2) submit.prems(2) by (simp add: within_budget_def)
    ultimately show ?thesis unfolding r by (simp add: day_start_le)
  qed
qed

text \<open>
  The maximal fee is no bound on the bump itself: the inner transaction's own fee, which the user chooses, is a
  lower bound of the base fee.
\<close>

theorem users_raise_the_base_fee:
  assumes "ix_ops ix = 1" and "ix_fee ix < 2 ^ 53"
  shows "ix_fee ix \<le> base_fee fee ix"
proof -
  have "to_double (of_int (int (ix_fee ix))) = of_int (int (ix_fee ix))"
    by (rule to_double_of_int) (use assms(2) in simp)
  then have "of_nat (ix_fee ix) \<le> max (max (of_int \<lfloor>to_double (fee / of_nat (ix_ops ix + 1))\<rfloor>) (to_double (of_nat (ix_fee ix)))) (100 :: rat)"
    by simp
  also have "\<dots> \<le> of_int \<lceil>max (max (of_int \<lfloor>to_double (fee / of_nat (ix_ops ix + 1))\<rfloor>) (to_double (of_nat (ix_fee ix)))) (100 :: rat)\<rceil>"
    by (rule le_of_int_ceiling)
  finally have "int (ix_fee ix) \<le> \<lceil>max (max (of_int \<lfloor>to_double (fee / of_nat (ix_ops ix + 1))\<rfloor>) (to_double (of_nat (ix_fee ix)))) (100 :: rat)\<rceil>"
    by (metis of_int_le_iff of_int_of_nat_eq)
  then show ?thesis using assms(1) by (simp add: base_fee_def Let_def nat_le_iff le_nat_iff)
qed

end
