(* ===== verification/HorizonIndexer.thy ===== *)
theory HorizonIndexer
  imports Events
begin

text \<open>
  The second reader of the contract's events, \<^verbatim>\<open>modules/events/horizon-indexer.service.ts\<close>: it stores them
  without handling them, from a cursor kept in the configuration table, and fills in ranges of ledgers on
  demand.
\<close>

section \<open>State\<close>

record indexer_db =
  ix_events :: events_db
  ix_cursor :: "int option"

text \<open>
  By attempt: \<open>tip\<close> answers \<open>getLatestLedger\<close>, \<open>eventsFrom\<close> answers \<open>fetchContractEvents\<close> (the empty list on an
  error); \<open>eventsIn\<close> answers \<open>fetchContractEventsRange\<close>.
\<close>

record indexer_env =
  ie_events :: events_env
  tip :: "nat \<Rightarrow> string + int"
  eventsFrom :: "nat \<Rightarrow> int \<Rightarrow> raw_event list"
  eventsIn :: "int \<Rightarrow> int \<Rightarrow> exn + raw_event list"

definition MAX_BACKOFF_ATTEMPTS :: nat where
  "MAX_BACKOFF_ATTEMPTS = 3"

section \<open>Storing one event\<close>

definition indexed_payload :: "raw_event \<Rightarrow> payload" where
  "indexed_payload v = (if js_truthy (v_value v) then the (v_value v) else PObj)"

definition persistEvent :: "events_env \<Rightarrow> raw_event \<Rightarrow> events_db \<Rightarrow> (events_db, bool) outcome" where
  "persistEvent w v s =
     (let h = event_hash v; name = extractEventName v; p = indexed_payload v; eid = payload_engagement p
      in if list_ex (same_event h name) (chainEvents s) then return False s
         else if eid \<noteq> None \<and> find_engagement (the eid) (base s) = None then throw PlainError s
         else return True (s\<lparr>chainEvents := chainEvents s @ [\<lparr>c_id = eventRowId w (eventSeq s), c_engagementId = eid,
                c_eventName = name, c_ledger = v_ledger v, c_txHash = h, c_payload = p, c_processed = False,
                c_retryCount = 0, c_lastErrorAt = None\<rparr>], eventSeq := eventSeq s + 1\<rparr>))"

text \<open>The number of events that were new; an error ends the loop, what was stored before it stays.\<close>

fun persist_all :: "events_env \<Rightarrow> raw_event list \<Rightarrow> nat \<Rightarrow> events_db \<Rightarrow> (events_db, nat) outcome" where
  "persist_all w [] n s = return n s"
| "persist_all w (v # vs) n s =
     and_then (persistEvent w v s) (\<lambda>new s. persist_all w vs (if new then Suc n else n) s)"

section \<open>The cursor and the job\<close>

definition readCursor :: "indexer_env \<Rightarrow> nat \<Rightarrow> indexer_db \<Rightarrow> (indexer_db, int) outcome" where
  "readCursor w k s = (case ix_cursor s of
     Some l \<Rightarrow> return l s
   | None \<Rightarrow> (case tip w k of
       Inl m \<Rightarrow> throw (StellarFailure m) s
     | Inr l \<Rightarrow> (let start = max 1 (l - 10) in return start (s\<lparr>ix_cursor := Some start\<rparr>))))"

definition next_ledger :: "int \<Rightarrow> raw_event list \<Rightarrow> int" where
  "next_ledger l vs = fold (\<lambda>v m. max m (v_ledger v + 1)) vs l"

definition index_once :: "indexer_env \<Rightarrow> nat \<Rightarrow> indexer_db \<Rightarrow> (indexer_db, unit) outcome" where
  "index_once w k s = and_then (readCursor w k s) (\<lambda>l s.
     let vs = eventsFrom w k l in
     if vs = [] then return () s
     else (case persist_all (ie_events w) vs 0 (ix_events s) of
             (Inl e, es) \<Rightarrow> throw e (s\<lparr>ix_events := es\<rparr>)
           | (Inr _, es) \<Rightarrow> return () (s\<lparr>ix_events := es, ix_cursor := Some (next_ledger l vs)\<rparr>)))"

definition isRateLimitError :: "exn \<Rightarrow> bool" where
  "isRateLimitError e \<longleftrightarrow> (case e of
     StellarFailure m \<Rightarrow> has_substring ''429'' m \<or> has_substring ''rate limit'' (toLowerCase m)
   | TooManyRequestsException \<Rightarrow> True
   | _ \<Rightarrow> False)"

text \<open>A rate limit is waited out, up to three times; any other error is logged and ends the run.\<close>

function runWithBackoff :: "indexer_env \<Rightarrow> nat \<Rightarrow> indexer_db \<Rightarrow> indexer_db" where
  "runWithBackoff w k s = (case index_once w k s of
     (Inr _, s1) \<Rightarrow> s1
   | (Inl e, s1) \<Rightarrow> if isRateLimitError e \<and> k < MAX_BACKOFF_ATTEMPTS then runWithBackoff w (k + 1) s1 else s1)"
  by pat_completeness auto
termination by (relation "measure (\<lambda>(_, k, _). MAX_BACKOFF_ATTEMPTS - k)") auto

declare runWithBackoff.simps [simp del]

definition indexEvents :: "indexer_env \<Rightarrow> bool \<Rightarrow> bool \<Rightarrow> indexer_db \<Rightarrow> indexer_db" where
  "indexEvents w gotLock isRunning s = (if gotLock \<and> \<not> isRunning then runWithBackoff w 0 s else s)"

definition backfillEvents :: "indexer_env \<Rightarrow> int \<Rightarrow> int \<Rightarrow> indexer_db \<Rightarrow> (indexer_db, nat) outcome" where
  "backfillEvents w from until s =
     (if from < 1 \<or> until < 1 then throw BadRequestException s
      else if until < from then throw BadRequestException s
      else if 10000 < until - from then throw BadRequestException s
      else (case eventsIn w from until of
              Inl e \<Rightarrow> throw e s
            | Inr vs \<Rightarrow> (case persist_all (ie_events w) vs 0 (ix_events s) of
                (r, es) \<Rightarrow> (r, s\<lparr>ix_events := es\<rparr>))))"

section \<open>What is stored\<close>

definition event_key :: "chain_event \<Rightarrow> string \<times> string" where
  "event_key c = (c_txHash c, c_eventName c)"

definition raw_key :: "raw_event \<Rightarrow> string \<times> string" where
  "raw_key v = (event_hash v, extractEventName v)"

lemma persistEvent_stored:
  assumes "persistEvent w v s = (Inr b, s')"
  shows "base s' = base s \<and> (\<exists>cs. chainEvents s' = chainEvents s @ cs \<and>
    map event_key cs = (if raw_key v \<in> event_key ` set (chainEvents s) then [] else [raw_key v]) \<and> length cs = (if b then 1 else 0))"
proof -
  have "list_ex (same_event (event_hash v) (extractEventName v)) (chainEvents s) \<longleftrightarrow> raw_key v \<in> event_key ` set (chainEvents s)"
    by (force simp: list_ex_iff same_event_def raw_key_def event_key_def)
  with assms show ?thesis
    by (auto simp: persistEvent_def Let_def event_key_def raw_key_def split: if_splits)
qed

text \<open>The keys a list of events adds: the first of each that is not stored yet.\<close>

fun fresh_keys :: "(string \<times> string) set \<Rightarrow> (string \<times> string) list \<Rightarrow> (string \<times> string) list" where
  "fresh_keys K [] = []"
| "fresh_keys K (k # ks) = (if k \<in> K then fresh_keys K ks else k # fresh_keys (insert k K) ks)"

lemma set_fresh_keys: "set (fresh_keys K ks) = set ks - K"
  by (induction ks arbitrary: K) auto

lemma distinct_fresh_keys: "distinct (fresh_keys K ks)"
  by (induction ks arbitrary: K) (auto simp: set_fresh_keys)

lemma persist_all_stored:
  assumes "persist_all w vs n s = (Inr m, s')"
  shows "base s' = base s \<and> (\<exists>cs. chainEvents s' = chainEvents s @ cs \<and>
    map event_key cs = fresh_keys (event_key ` set (chainEvents s)) (map raw_key vs) \<and> m = n + length cs)"
  using assms
proof (induction vs arbitrary: n s)
  case (Cons v vs)
  then obtain b s1 where 1: "persistEvent w v s = (Inr b, s1)" "persist_all w vs (if b then Suc n else n) s1 = (Inr m, s')"
    by (auto simp: and_then_Inr_iff)
  from persistEvent_stored [OF 1(1)] obtain cs where cs: "base s1 = base s" "chainEvents s1 = chainEvents s @ cs"
    "map event_key cs = (if raw_key v \<in> event_key ` set (chainEvents s) then [] else [raw_key v])" "length cs = (if b then 1 else 0)"
    by blast
  from Cons.IH [OF 1(2)] obtain ds where ds: "base s' = base s1" "chainEvents s' = chainEvents s1 @ ds"
    "map event_key ds = fresh_keys (event_key ` set (chainEvents s1)) (map raw_key vs)" "m = (if b then Suc n else n) + length ds"
    by blast
  have K: "event_key ` set (chainEvents s1) = event_key ` set (chainEvents s) \<union> set (map event_key cs)"
    unfolding cs(2) by auto
  have "map event_key (cs @ ds) = fresh_keys (event_key ` set (chainEvents s)) (map raw_key (v # vs))"
    unfolding map_append cs(3) ds(3) K by auto
  then show ?case using cs ds by (intro conjI exI [of _ "cs @ ds"]) simp_all
qed simp

text \<open>
  A range of ledgers that is filled in without an error stores exactly the events it did not have, each
  transaction and event name once and in order; it says how many, and leaves everything else.
\<close>

theorem backfill_is_exact:
  assumes "backfillEvents w from until s = (Inr n, s')"
  shows "\<exists>vs cs. eventsIn w from until = Inr vs \<and> 1 \<le> from \<and> from \<le> until \<and> until - from \<le> 10000 \<and>
    chainEvents (ix_events s') = chainEvents (ix_events s) @ cs \<and> n = length cs \<and> distinct (map event_key cs) \<and>
    set (map event_key cs) = set (map raw_key vs) - set (map event_key (chainEvents (ix_events s))) \<and>
    base (ix_events s') = base (ix_events s) \<and> ix_cursor s' = ix_cursor s"
proof -
  from assms obtain vs es where 1: "1 \<le> from" "from \<le> until" "until - from \<le> 10000" "eventsIn w from until = Inr vs"
    "persist_all (ie_events w) vs 0 (ix_events s) = (Inr n, es)" "s' = s\<lparr>ix_events := es\<rparr>"
    by (auto simp: backfillEvents_def split: if_splits sum.splits prod.splits)
  from persist_all_stored [OF 1(5)] obtain cs where "base es = base (ix_events s)" "chainEvents es = chainEvents (ix_events s) @ cs"
    "map event_key cs = fresh_keys (event_key ` set (chainEvents (ix_events s))) (map raw_key vs)" "n = length cs"
    by auto
  with 1 show ?thesis
    by (intro exI [of _ vs] exI [of _ cs]) (auto simp: distinct_fresh_keys set_fresh_keys)
qed

lemma next_ledger_ge: "l \<le> next_ledger l vs \<and> (\<forall>v \<in> set vs. v_ledger v < next_ledger l vs)"
proof -
  have "l \<le> fold (\<lambda>v m. max m (v_ledger v + 1)) vs l \<and> (\<forall>v \<in> set vs. v_ledger v < fold (\<lambda>v m. max m (v_ledger v + 1)) vs l)"
  proof (induction vs arbitrary: l)
    case (Cons v vs)
    from Cons.IH [of "max l (v_ledger v + 1)"] show ?case by auto
  qed simp
  then show ?thesis by (simp add: next_ledger_def)
qed

text \<open>
  The cursor moves past an event only after it was stored: a run that ends with another cursor than the one
  it read has stored every event it fetched, and the cursor is beyond all of them.
\<close>

theorem cursor_waits_for_storage:
  assumes "index_once w k s = (Inr (), s')" and "ix_cursor s = Some l" and "ix_cursor s' \<noteq> Some l"
  shows "set (map raw_key (eventsFrom w k l)) \<subseteq> set (map event_key (chainEvents (ix_events s'))) \<and>
    list_all (\<lambda>v. v_ledger v < the (ix_cursor s')) (eventsFrom w k l) \<and> l \<le> the (ix_cursor s')"
proof -
  from assms obtain es m where 1: "persist_all (ie_events w) (eventsFrom w k l) 0 (ix_events s) = (Inr m, es)"
    "s' = s\<lparr>ix_events := es, ix_cursor := Some (next_ledger l (eventsFrom w k l))\<rparr>"
    by (auto simp: index_once_def readCursor_def Let_def split: if_splits prod.splits sum.splits)
  from persist_all_stored [OF 1(1)] obtain cs where cs: "chainEvents es = chainEvents (ix_events s) @ cs"
    "map event_key cs = fresh_keys (event_key ` set (chainEvents (ix_events s))) (map raw_key (eventsFrom w k l))"
    by auto
  have "set (map event_key cs) = set (map raw_key (eventsFrom w k l)) - event_key ` set (chainEvents (ix_events s))"
    unfolding cs(2) by (rule set_fresh_keys)
  then have "set (map raw_key (eventsFrom w k l)) \<subseteq> set (map event_key (chainEvents es))" unfolding cs(1) by auto
  with 1(2) next_ledger_ge [of l "eventsFrom w k l"] show ?thesis by (simp add: list_all_iff)
qed

text \<open>
  An event of an engagement the database does not have is refused by the foreign key: it is never stored, and
  the cursor stays before it, however often the job runs.
\<close>

theorem unknown_engagement_blocks:
  assumes "raw_key v \<notin> event_key ` set (chainEvents (ix_events s))"
    and "payload_engagement (indexed_payload v) = Some eid" and "find_engagement eid (base (ix_events s)) = None"
    and "ix_cursor s = Some l" and "eventsFrom w k l = v # vs"
  shows "index_once w k s = (Inl PlainError, s)"
proof -
  have "\<not> list_ex (same_event (event_hash v) (extractEventName v)) (chainEvents (ix_events s))"
    using assms(1) by (auto simp: list_ex_iff same_event_def raw_key_def event_key_def image_iff)
  then have "persistEvent (ie_events w) v (ix_events s) = throw PlainError (ix_events s)"
    using assms(2,3) by (simp add: persistEvent_def Let_def)
  then show ?thesis using assms(4,5) by (simp add: index_once_def readCursor_def Let_def throw_def)
qed

end
