(* ===== verification/ActivityFeed.thy ===== *)
theory ActivityFeed
  imports Party JsText
begin

text \<open>
  The activity feed of an engagement, \<^verbatim>\<open>modules/engagements/activity-feed.service.ts\<close>: six tables merged into
  one timeline, newest first, cut into pages by a cursor that names the last item shown.

  A row is what the service reads of it: its id, its time, who did it and the milestone; the other columns are
  copied into \<open>data\<close> and left out here.
\<close>

section \<open>Items\<close>

record feed_row =
  fr_id :: ident
  fr_engagementId :: ident
  fr_at :: time
  fr_actorId :: "ident option"
  fr_milestoneIndex :: "nat option"

datatype activity_type = STATUS_CHANGE | NOTE | MILESTONE_AUDIT | PROOF_VERSION | PARTIAL_RELEASE | MILESTONE_COMMENT

record activity_item =
  ai_id :: string
  ai_type :: activity_type
  ai_at :: time
  ai_actorId :: "ident option"
  ai_milestoneIndex :: "nat option"

record feed_db =
  fd_db :: db
  fd_table :: "activity_type \<Rightarrow> feed_row list"

definition activity_types :: "activity_type list" where
  "activity_types = [STATUS_CHANGE, NOTE, MILESTONE_AUDIT, PROOF_VERSION, PARTIAL_RELEASE, MILESTONE_COMMENT]"

definition type_name :: "activity_type \<Rightarrow> string" where
  "type_name t = (case t of STATUS_CHANGE \<Rightarrow> ''status_change'' | NOTE \<Rightarrow> ''note'' | MILESTONE_AUDIT \<Rightarrow> ''milestone_audit''
     | PROOF_VERSION \<Rightarrow> ''proof_version'' | PARTIAL_RELEASE \<Rightarrow> ''partial_release'' | MILESTONE_COMMENT \<Rightarrow> ''milestone_comment'')"

definition item_of :: "activity_type \<Rightarrow> feed_row \<Rightarrow> activity_item" where
  "item_of t r = \<lparr>ai_id = type_name t @ '':'' @ fr_id r, ai_type = t, ai_at = fr_at r, ai_actorId = fr_actorId r,
     ai_milestoneIndex = fr_milestoneIndex r\<rparr>"

section \<open>The order\<close>

text \<open>\<open>compare(a, b) < 0\<close>: newer first, of the same time the greater id first.\<close>

definition before :: "time \<times> string \<Rightarrow> time \<times> string \<Rightarrow> bool" where
  "before a b \<longleftrightarrow> fst b < fst a \<or> fst a = fst b \<and> js_less (snd b) (snd a)"

definition item_key :: "activity_item \<Rightarrow> time \<times> string" where
  "item_key i = (ai_at i, ai_id i)"

text \<open>\<open>Array.prototype.sort\<close> with \<open>compare\<close> is stable: an insertion sort.\<close>

fun insert_item :: "activity_item \<Rightarrow> activity_item list \<Rightarrow> activity_item list" where
  "insert_item x [] = [x]"
| "insert_item x (y # ys) = (if before (item_key y) (item_key x) then y # insert_item x ys else x # y # ys)"

definition sort_items :: "activity_item list \<Rightarrow> activity_item list" where
  "sort_items xs = foldr insert_item xs []"

section \<open>Cursors\<close>

text \<open>
  \<open>isoText\<close> is \<open>toISOString\<close>, \<open>parseDate\<close> the \<open>Date\<close> constructor (\<open>None\<close> is an invalid date), \<open>toBase64url\<close> and
  \<open>ofBase64url\<close> are the buffers' conversions of a text.
\<close>

record cursor_env =
  isoText :: "time \<Rightarrow> string"
  parseDate :: "string \<Rightarrow> time option"
  toBase64url :: "string \<Rightarrow> string"
  ofBase64url :: "string \<Rightarrow> string"

definition encodeCursor :: "cursor_env \<Rightarrow> activity_item \<Rightarrow> string" where
  "encodeCursor w i = toBase64url w (isoText w (ai_at i) @ ''|'' @ ai_id i)"

text \<open>\<open>const [iso, ...rest] = text.split('|')\<close>, and \<open>rest.join('|')\<close>: what stands behind the first bar, which must be there.\<close>

definition decodeCursor :: "cursor_env \<Rightarrow> string \<Rightarrow> exn + time \<times> string" where
  "decodeCursor w c = (let s = ofBase64url w c; iso = takeWhile (\<lambda>x. x \<noteq> CHR ''|'') s; rest = dropWhile (\<lambda>x. x \<noteq> CHR ''|'') s
     in case parseDate w iso of
          None \<Rightarrow> Inl BadRequestException
        | Some t \<Rightarrow> if rest = [] then Inl BadRequestException else Inr (t, tl rest))"

section \<open>The feed\<close>

text \<open>
  One source: at most \<open>n\<close> rows of the engagement, at or before the time of the cursor, newest first.  Rows of
  the same time come in some order, which is the order of the table here.
\<close>

definition source_rows :: "nat \<Rightarrow> time option \<Rightarrow> ident \<Rightarrow> feed_row list \<Rightarrow> feed_row list" where
  "source_rows n t eid rows = take n (sort_key (\<lambda>r. - fr_at r)
     (filter (\<lambda>r. fr_engagementId r = eid \<and> (case t of None \<Rightarrow> True | Some x \<Rightarrow> fr_at r \<le> x)) rows))"

definition feed_items :: "nat \<Rightarrow> time option \<Rightarrow> ident \<Rightarrow> feed_db \<Rightarrow> activity_item list" where
  "feed_items n t eid s = concat (map (\<lambda>k. map (item_of k) (source_rows n t eid (fd_table s k))) activity_types)"

definition feed_page :: "nat \<Rightarrow> (time \<times> string) option \<Rightarrow> ident \<Rightarrow> feed_db \<Rightarrow> activity_item list \<times> activity_item option" where
  "feed_page n after eid s =
     (let sorted = sort_items (filter (\<lambda>i. case after of None \<Rightarrow> True | Some c \<Rightarrow> before c (item_key i))
            (feed_items (n + 1) (map_option fst after) eid s));
          page = take n sorted
      in (page, if n < length sorted then Some (last page) else None))"

definition clamp_limit :: "int \<Rightarrow> nat" where
  "clamp_limit l = nat (min (max l 1) 100)"

definition getActivity :: "cursor_env \<Rightarrow> ident \<Rightarrow> party_user \<Rightarrow> string option \<Rightarrow> int \<Rightarrow> feed_db \<Rightarrow>
  exn + (activity_item list \<times> string option)" where
  "getActivity w eid u cursor limit s = (case find_engagement eid (fd_db s) of
     None \<Rightarrow> Inl NotFoundException
   | Some e \<Rightarrow>
       if pu_role u \<noteq> Some ADMIN \<and> engagementPartyRole e u = None then Inl ForbiddenException
       else (case (if truthy cursor then map_sum id Some (decodeCursor w (the cursor)) else Inr None) of
          Inl x \<Rightarrow> Inl x
        | Inr after \<Rightarrow> (case feed_page (clamp_limit limit) after eid s of
            (page, nxt) \<Rightarrow> Inr (page, map_option (encodeCursor w) nxt))))"

section \<open>The order is total\<close>

lemma before_irrefl: "\<not> before a a"
  by (simp add: before_def js_less_irrefl)

lemma before_trans: "before a b \<Longrightarrow> before b c \<Longrightarrow> before a c"
  by (auto simp: before_def intro: js_less_trans)

lemma before_total: "a \<noteq> b \<Longrightarrow> before a b \<or> before b a"
  by (cases a; cases b) (auto simp: before_def dest: js_less_total)

lemma not_before: "\<not> before a b \<longleftrightarrow> a = b \<or> before b a"
  using before_total before_irrefl before_trans by metis

lemma set_insert_item [simp]: "set (insert_item x ys) = insert x (set ys)"
  by (induction ys) auto

lemma length_insert_item [simp]: "length (insert_item x ys) = Suc (length ys)"
  by (induction ys) auto

lemma set_sort_items [simp]: "set (sort_items xs) = set xs"
  unfolding sort_items_def by (induction xs) auto

lemma length_sort_items [simp]: "length (sort_items xs) = length xs"
  unfolding sort_items_def by (induction xs) auto

abbreviation descending :: "activity_item list \<Rightarrow> bool" where
  "descending \<equiv> sorted_wrt (\<lambda>x y. before (item_key x) (item_key y))"

lemma insert_item_sorted:
  "descending ys \<Longrightarrow> item_key x \<notin> item_key ` set ys \<Longrightarrow> descending (insert_item x ys)"
proof (induction ys)
  case (Cons y ys)
  show ?case
  proof (cases "before (item_key y) (item_key x)")
    case True
    with Cons show ?thesis by auto
  next
    case False
    then have "before (item_key x) (item_key y)" using Cons.prems(2) not_before by auto
    with Cons.prems(1) False show ?thesis by (auto intro: before_trans)
  qed
qed simp

lemma sort_items_sorted: "distinct (map item_key xs) \<Longrightarrow> descending (sort_items xs)"
  unfolding sort_items_def
proof (induction xs)
  case (Cons x xs)
  have "set (foldr insert_item xs []) = set xs" using set_sort_items [of xs] by (simp add: sort_items_def)
  with Cons show ?case by (auto intro: insert_item_sorted)
qed simp

text \<open>A strictly descending list is determined by its elements.\<close>

lemma descending_unique:
  assumes "descending xs" and "descending ys" and "set xs = set ys" shows "xs = ys"
  using assms
proof (induction xs arbitrary: ys)
  case (Cons x xs)
  then obtain y zs where ys: "ys = y # zs" by (cases ys) auto
  have "x = y"
  proof (rule ccontr)
    assume "x \<noteq> y"
    with Cons.prems ys have "before (item_key x) (item_key y)" "before (item_key y) (item_key x)"
      by (auto simp: set_eq_iff)
    then show False using before_trans before_irrefl by blast
  qed
  moreover have "x \<notin> set xs" "y \<notin> set zs" 
    using Cons.prems ys before_irrefl [of "item_key x"] before_irrefl [of "item_key y"] by auto
  ultimately have "set xs = set zs" using Cons.prems(3) ys by (metis insert_ident list.simps(15))
  with Cons ys \<open>x = y\<close> show ?case by simp
qed simp

section \<open>Pages of the timeline\<close>

text \<open>The whole timeline of an engagement, and the part of it that comes after a cursor.\<close>

definition engagement_rows :: "ident \<Rightarrow> feed_row list \<Rightarrow> feed_row list" where
  "engagement_rows eid rows = filter (\<lambda>r. fr_engagementId r = eid) rows"

definition timeline :: "ident \<Rightarrow> feed_db \<Rightarrow> activity_item list" where
  "timeline eid s = sort_items (concat (map (\<lambda>k. map (item_of k) (engagement_rows eid (fd_table s k))) activity_types))"

definition later :: "(time \<times> string) option \<Rightarrow> activity_item \<Rightarrow> bool" where
  "later after i \<longleftrightarrow> (case after of None \<Rightarrow> True | Some c \<Rightarrow> before c (item_key i))"

text \<open>Within one table no two rows of the engagement have the same time.\<close>

definition times_distinct :: "ident \<Rightarrow> feed_db \<Rightarrow> bool" where
  "times_distinct eid s \<longleftrightarrow> list_all (\<lambda>k. distinct (map fr_at (engagement_rows eid (fd_table s k)))) activity_types"

lemma take_filter_prefix:
  assumes "\<And>i. i < length L \<Longrightarrow> \<not> P (L ! i) \<Longrightarrow> n \<le> length (filter P (take i L))"
  shows "take n (filter P L) = take n L"
proof -
  have "P (L ! i)" if "i < n" "i < length L" for i
  proof (rule ccontr)
    assume "\<not> P (L ! i)"
    with assms that(2) have "n \<le> length (filter P (take i L))" by blast
    also have "\<dots> \<le> i" by (metis length_filter_le length_take min.bounded_iff order_trans)
    finally show False using that(1) by simp
  qed
  then have all: "\<forall>x \<in> set (take n L). P x" by (auto simp: in_set_conv_nth)
  have "filter P L = filter P (take n L) @ filter P (drop n L)" by (metis append_take_drop_id filter_append)
  also have "filter P (take n L) = take n L" using all by (simp add: filter_id_conv)
  finally show ?thesis by (cases "n \<le> length L") auto
qed

lemma descending_before_index:
  assumes "descending L" and "i < length L" and "y \<in> set L" and "before (item_key y) (item_key (L ! i))"
  shows "y \<in> set (take i L)"
proof -
  obtain j where j: "j < length L" "y = L ! j" using assms(3) by (auto simp: in_set_conv_nth)
  have "j < i"
  proof (rule ccontr)
    assume "\<not> j < i"
    then consider "j = i" | "i < j" by linarith
    then show False
    proof cases
      case 1
      with assms(4) j before_irrefl show False by blast
    next
      case 2
      with assms(1) j have "before (item_key (L ! i)) (item_key y)" by (simp add: sorted_wrt_iff_nth_less)
      with assms(4) show False using before_trans before_irrefl by blast
    qed
  qed
  with j show ?thesis by (auto simp: in_set_conv_nth intro!: exI [of _ j])
qed

lemma descending_distinct: "descending xs \<Longrightarrow> distinct xs"
  by (induction xs) (auto simp: before_irrefl)

text \<open>A part of the items that has, for each item left out, \<open>n\<close> items before it, has the same first \<open>n\<close>.\<close>

lemma take_sort_part:
  assumes d: "distinct (map item_key xs)" and sub: "set ys \<subseteq> set xs" and dy: "distinct (map item_key ys)"
    and enough: "\<And>x. x \<in> set xs \<Longrightarrow> x \<notin> set ys \<Longrightarrow>
      \<exists>Z \<subseteq> set ys. n \<le> card Z \<and> (\<forall>z \<in> Z. before (item_key z) (item_key x))"
  shows "take n (sort_items ys) = take n (sort_items xs)"
proof -
  let ?L = "sort_items xs" and ?P = "\<lambda>x. x \<in> set ys"
  have L: "descending ?L" by (rule sort_items_sorted [OF d])
  have "sort_items ys = filter ?P ?L"
  proof (rule descending_unique)
    show "descending (sort_items ys)" by (rule sort_items_sorted [OF dy])
    show "descending (filter ?P ?L)" using L by (rule sorted_wrt_filter)
    show "set (sort_items ys) = set (filter ?P ?L)" using sub by auto
  qed
  moreover have "take n (filter ?P ?L) = take n ?L"
  proof (rule take_filter_prefix)
    fix i assume i: "i < length ?L" "\<not> ?P (?L ! i)"
    then have "?L ! i \<in> set xs" using nth_mem [OF i(1)] by simp
    with enough i(2) obtain Z where Z: "Z \<subseteq> set ys" "n \<le> card Z" "\<forall>z \<in> Z. before (item_key z) (item_key (?L ! i))"
      by blast
    have "Z \<subseteq> set (filter ?P (take i ?L))"
      using Z(1,3) sub descending_before_index [OF L i(1)] by (auto simp del: length_sort_items)
    then have "card Z \<le> card (set (filter ?P (take i ?L)))" by (rule card_mono [rotated]) simp
    also have "\<dots> \<le> length (filter ?P (take i ?L))" by (rule card_length)
    finally show "n \<le> length (filter ?P (take i ?L))" using Z(2) by simp
  qed
  ultimately show ?thesis by simp
qed

section \<open>One source\<close>

lemma item_of_simps [simp]:
  "ai_at (item_of k r) = fr_at r" "ai_id (item_of k r) = type_name k @ '':'' @ fr_id r" "ai_type (item_of k r) = k"
  by (simp_all add: item_of_def)

lemma before_time: "fst b < fst a \<Longrightarrow> before a b"
  by (simp add: before_def)

lemma source_rows_set:
  "set (source_rows n t eid rows) \<subseteq> set (engagement_rows eid rows)"
  by (auto simp: source_rows_def engagement_rows_def dest: in_set_takeD)

lemma item_key_time: "fst (item_key i) = ai_at i"
  by (simp add: item_key_def)

text \<open>
  A row after the cursor that a source leaves out has \<open>n\<close> newer rows after the cursor in what it returns: of
  the \<open>n + 1\<close> newer rows returned, at most one has the time of the cursor.
\<close>

lemma source_enough:
  assumes d: "distinct (map fr_at (engagement_rows eid rows))" and r: "r \<in> set (engagement_rows eid rows)"
    and l: "later after (item_of k r)" and out: "r \<notin> set (source_rows (n + 1) (map_option fst after) eid rows)"
  shows "\<exists>R \<subseteq> set (source_rows (n + 1) (map_option fst after) eid rows).
    n \<le> card R \<and> (\<forall>q \<in> R. fr_at r < fr_at q \<and> later after (item_of k q))"
proof -
  define f where "f = filter (\<lambda>r. fr_engagementId r = eid \<and> (case map_option fst after of None \<Rightarrow> True | Some x \<Rightarrow> fr_at r \<le> x)) rows"
  define L where "L = sort_key (\<lambda>r. - fr_at r) f"
  let ?S = "source_rows (n + 1) (map_option fst after) eid rows"
  have S: "?S = take (n + 1) L" by (simp add: source_rows_def L_def f_def)
  have setL: "set L = set f" by (simp add: L_def)
  have f: "f = filter (\<lambda>r. case map_option fst after of None \<Rightarrow> True | Some x \<Rightarrow> fr_at r \<le> x) (engagement_rows eid rows)"
    by (simp add: f_def engagement_rows_def conj_commute)
  have df: "distinct (map fr_at f)" unfolding f by (rule distinct_map_filter [OF d])
  have inj: "inj_on fr_at (set L)" using df by (simp add: distinct_map setL)
  have dL: "distinct L" using df by (simp add: distinct_map L_def)
  have r_in: "r \<in> set L" using r l unfolding setL f
    by (auto simp: engagement_rows_def later_def before_def item_key_def split: option.splits)
  then obtain j where j: "j < length L" "L ! j = r" by (metis in_set_conv_nth)
  have nj: "n + 1 \<le> j" using out j unfolding S by (metis in_set_conv_nth length_take min_less_iff_conj not_le nth_take)
  have newer: "fr_at r < fr_at q" if q: "q \<in> set ?S" for q
  proof -
    obtain i where i: "i < n + 1" "L ! i = q" "i < length L"
      using q unfolding S in_set_conv_nth by auto
    with nj j have "i < j" by simp
    have "sorted (map (\<lambda>r. - fr_at r) L)" by (simp add: L_def)
    then have "map (\<lambda>r. - fr_at r) L ! i \<le> map (\<lambda>r. - fr_at r) L ! j"
      by (rule sorted_nth_mono) (use \<open>i < j\<close> j(1) in simp_all)
    then have "fr_at r \<le> fr_at q" using i j by simp
    moreover have "fr_at r \<noteq> fr_at q"
    proof
      assume "fr_at r = fr_at q"
      with inj r_in i have "r = q" by (metis inj_onD nth_mem)
      with nth_eq_iff_index_eq [OF dL i(3) j(1)] i(2) j(2) \<open>i < j\<close> show False by simp
    qed
    ultimately show ?thesis by simp
  qed
  define R where "R = {q \<in> set ?S. later after (item_of k q)}"
  have le: "fr_at q \<le> t" if "q \<in> set ?S" "map_option fst after = Some t" for q t
    using that setL unfolding S f by (auto dest!: in_set_takeD)
  have "set ?S - R \<subseteq> {q \<in> set L. \<exists>t. map_option fst after = Some t \<and> fr_at q = t}"
  proof
    fix q assume q: "q \<in> set ?S - R"
    then have nl: "\<not> later after (item_of k q)" by (simp add: R_def)
    then obtain c where c: "after = Some c" by (auto simp: later_def split: option.splits)
    have "fr_at q \<le> fst c" using le [of q "fst c"] q c by simp
    moreover have "\<not> fr_at q < fst c" using nl c by (auto simp: later_def before_def item_key_def)
    moreover have "q \<in> set L" using q unfolding S by (auto dest: in_set_takeD)
    ultimately show "q \<in> {q \<in> set L. \<exists>t. map_option fst after = Some t \<and> fr_at q = t}" using c by auto
  qed
  then have "card (set ?S - R) \<le> card {q \<in> set L. \<exists>t. map_option fst after = Some t \<and> fr_at q = t}"
    by (rule card_mono [rotated]) simp
  also have "\<dots> \<le> 1"
  proof -
    have "a = b" if "a \<in> {q \<in> set L. \<exists>t. map_option fst after = Some t \<and> fr_at q = t}"
        "b \<in> {q \<in> set L. \<exists>t. map_option fst after = Some t \<and> fr_at q = t}" for a b
      using that inj by (auto dest: inj_onD)
    then have "card {q \<in> set L. \<exists>t. map_option fst after = Some t \<and> fr_at q = t} \<le> Suc 0"
      by (subst card_le_Suc0_iff_eq) auto
    then show ?thesis by simp
  qed
  finally have one: "card (set ?S - R) \<le> 1" .
  have "card (set ?S) = n + 1"
    using dL j(1) nj unfolding S by (simp add: distinct_card)
  moreover have "R \<subseteq> set ?S" by (auto simp: R_def)
  then have "card (set ?S - R) = card (set ?S) - card R" by (simp add: card_Diff_subset finite_subset)
  ultimately have "n \<le> card R" using one by simp
  moreover have "R \<subseteq> set ?S" by (auto simp: R_def)
  ultimately show ?thesis using newer by (intro exI [of _ R]) (auto simp: R_def)
qed

section \<open>All sources\<close>

lemma type_name_no_colon: "CHR '':'' \<notin> set (type_name k)"
  by (cases k) (simp_all add: type_name_def)

lemma prefix_before_colon:
  assumes "a @ '':'' @ x = b @ '':'' @ y" and "CHR '':'' \<notin> set a" and "CHR '':'' \<notin> set b"
  shows "a = b \<and> x = y"
proof -
  have "takeWhile (\<lambda>c. c \<noteq> CHR '':'') (a @ '':'' @ x) = a" "takeWhile (\<lambda>c. c \<noteq> CHR '':'') (b @ '':'' @ y) = b"
    by (subst takeWhile_append2, use assms(2,3) in auto)+
  with assms(1) have "a = b" by simp
  with assms(1) show ?thesis by simp
qed

lemma type_name_inj: "type_name k = type_name l \<Longrightarrow> k = l"
  by (cases k; cases l) (simp_all add: type_name_def)

lemma item_key_inj:
  assumes "item_key (item_of k r) = item_key (item_of l q)"
  shows "k = l \<and> fr_at r = fr_at q"
proof -
  have "type_name k @ '':'' @ fr_id r = type_name l @ '':'' @ fr_id q" "fr_at r = fr_at q"
    using assms by (simp_all add: item_key_def)
  with prefix_before_colon [OF this(1) type_name_no_colon type_name_no_colon] type_name_inj show ?thesis by blast
qed

lemma distinct_items:
  assumes "distinct ks" and "\<And>k. k \<in> set ks \<Longrightarrow> distinct (map fr_at (rows k))"
  shows "distinct (map item_key (concat (map (\<lambda>k. map (item_of k) (rows k)) ks)))"
  using assms
proof (induction ks)
  case (Cons k ks)
  have "distinct (map fr_at (rows k))" using Cons.prems(2) by simp
  then have "distinct (map (item_key \<circ> item_of k) (rows k))"
    by (auto simp: distinct_map inj_on_def dest: item_key_inj)
  moreover have "(item_key \<circ> item_of k) ` set (rows k) \<inter> item_key ` set (concat (map (\<lambda>k. map (item_of k) (rows k)) ks)) = {}"
    using Cons.prems(1) by (auto dest: item_key_inj)
  ultimately show ?case using Cons by (simp add: image_comp)
qed simp

lemma distinct_activity_types: "distinct activity_types"
  by (simp add: activity_types_def)

lemma source_rows_distinct:
  assumes "distinct (map fr_at (engagement_rows eid rows))"
  shows "distinct (map fr_at (source_rows n t eid rows))"
proof -
  have "distinct (map fr_at (filter (\<lambda>r. fr_engagementId r = eid \<and> p r) rows))" for p
  proof -
    have "filter (\<lambda>r. fr_engagementId r = eid \<and> p r) rows = filter p (engagement_rows eid rows)"
      by (simp add: engagement_rows_def conj_commute)
    then show ?thesis using assms by (simp add: distinct_map_filter)
  qed
  then have "distinct (map fr_at (sort_key (\<lambda>r. - fr_at r) (filter (\<lambda>r. fr_engagementId r = eid \<and> p r) rows)))" for p
    by (simp add: distinct_map)
  then show ?thesis unfolding source_rows_def by (simp add: take_map [symmetric] distinct_take)
qed

text \<open>
  C37. A page of the activity feed is exactly the next \<open>n\<close> items of the engagement's timeline after the cursor,
  newest first, although each of the six tables is only asked for \<open>n + 1\<close> rows and the cursor's time is all the
  database sees of it; the cursor handed out is the last item shown, and it is handed out only when more follows.
\<close>
theorem feed_page_is_the_next_part:
  assumes "times_distinct eid s" and "0 < n"
  shows "fst (feed_page n after eid s) = take n (filter (later after) (timeline eid s)) \<and>
    (case snd (feed_page n after eid s) of
       None \<Rightarrow> True
     | Some i \<Rightarrow> i = last (fst (feed_page n after eid s)) \<and> n < length (filter (later after) (timeline eid s)))"
proof -
  let ?rows = "\<lambda>k. engagement_rows eid (fd_table s k)" and ?src = "\<lambda>k. source_rows (n + 1) (map_option fst after) eid (fd_table s k)"
  define A where "A = concat (map (\<lambda>k. map (item_of k) (?rows k)) activity_types)"
  define B where "B = concat (map (\<lambda>k. map (item_of k) (?src k)) activity_types)"
  have td: "distinct (map fr_at (?rows k))" if "k \<in> set activity_types" for k
    using assms(1) that by (simp add: times_distinct_def list_all_iff)
  have dA: "distinct (map item_key A)" unfolding A_def by (rule distinct_items [OF distinct_activity_types td])
  have dB: "distinct (map item_key B)" unfolding B_def
    by (rule distinct_items [OF distinct_activity_types source_rows_distinct [OF td]])
  have sub: "set B \<subseteq> set A" using source_rows_set unfolding A_def B_def by fastforce
  let ?xs = "filter (later after) A" and ?ys = "filter (later after) B"
  have take: "take n (sort_items ?ys) = take n (sort_items ?xs)"
  proof (rule take_sort_part)
    show "distinct (map item_key ?xs)" "distinct (map item_key ?ys)"
      by (rule distinct_map_filter [OF dA], rule distinct_map_filter [OF dB])
    show "set ?ys \<subseteq> set ?xs" using sub by auto
    fix x assume x: "x \<in> set ?xs" "x \<notin> set ?ys"
    then obtain k r where k: "k \<in> set activity_types" "r \<in> set (?rows k)" "x = item_of k r" by (auto simp: A_def)
    moreover have "r \<notin> set (?src k)" using x k by (auto simp: B_def)
    ultimately obtain R where R: "R \<subseteq> set (?src k)" "n \<le> card R" "\<forall>q \<in> R. fr_at r < fr_at q \<and> later after (item_of k q)"
      using source_enough [OF td [OF k(1)] k(2), of after k n] x(1) by auto
    have "inj_on (item_of k) R"
    proof (rule inj_onI)
      fix a b assume ab: "a \<in> R" "b \<in> R" "item_of k a = item_of k b"
      then have "fr_at a = fr_at b" using item_key_inj [of k a k b] by simp
      moreover have "inj_on fr_at (set (?src k))" using source_rows_distinct [OF td [OF k(1)]] by (simp add: distinct_map)
      ultimately show "a = b" using R(1) ab(1,2) by (auto dest: inj_onD)
    qed
    then have "n \<le> card (item_of k ` R)" using R(2) by (simp add: card_image)
    moreover have "item_of k ` R \<subseteq> set ?ys" using R(1,3) k(1) by (auto simp: B_def)
    moreover have "\<forall>z \<in> item_of k ` R. before (item_key z) (item_key x)"
      using R(3) k(3) by (auto simp: item_key_def before_time)
    ultimately show "\<exists>Z \<subseteq> set ?ys. n \<le> card Z \<and> (\<forall>z \<in> Z. before (item_key z) (item_key x))" by blast
  qed
  have sx: "sort_items ?xs = filter (later after) (timeline eid s)"
  proof (rule descending_unique)
    show "descending (sort_items ?xs)" by (rule sort_items_sorted [OF distinct_map_filter [OF dA]])
    show "descending (filter (later after) (timeline eid s))"
      unfolding timeline_def A_def [symmetric] by (rule sorted_wrt_filter [OF sort_items_sorted [OF dA]])
    show "set (sort_items ?xs) = set (filter (later after) (timeline eid s))"
      unfolding timeline_def A_def [symmetric] by auto
  qed
  have fi: "filter (\<lambda>i. case after of None \<Rightarrow> True | Some c \<Rightarrow> before c (item_key i)) (feed_items (n + 1) (map_option fst after) eid s) = ?ys"
  proof -
    have "later after = (\<lambda>i. case after of None \<Rightarrow> True | Some c \<Rightarrow> before c (item_key i))"
      by (simp add: fun_eq_iff later_def)
    then show ?thesis by (simp add: feed_items_def B_def)
  qed
  have "card (set ?ys) \<le> card (set ?xs)" by (rule card_mono) (use sub in auto)
  then have "length ?ys \<le> length ?xs"
    using distinct_map_filter [OF dA] distinct_map_filter [OF dB] by (metis distinct_card distinct_map)
  then have len: "length (sort_items ?ys) \<le> length (filter (later after) (timeline eid s))"
    unfolding sx [symmetric] by simp
  show ?thesis unfolding feed_page_def Let_def fi using take len sx by (auto split: option.splits if_splits)
qed

section \<open>Where the feed ends\<close>

text \<open>
  The cursor's own row takes one of the \<open>n + 1\<close> places of its table.  When an engagement has items of one kind
  only, the second page therefore never hands out a cursor: the feed ends after two pages, however long the
  timeline is.
\<close>

theorem feed_of_one_kind_ends:
  assumes "times_distinct eid s" and "k \<in> set activity_types"
    and "\<And>l. l \<noteq> k \<Longrightarrow> engagement_rows eid (fd_table s l) = []"
    and "r \<in> set (engagement_rows eid (fd_table s k))"
  shows "snd (feed_page n (Some (item_key (item_of k r))) eid s) = None"
proof -
  let ?t = "Some (fr_at r)" and ?c = "item_key (item_of k r)"
  let ?S = "source_rows (n + 1) ?t eid (fd_table s k)"
  have d: "distinct (map fr_at (engagement_rows eid (fd_table s k)))"
    using assms(1,2) by (simp add: times_distinct_def list_all_iff)
  have other: "source_rows m t eid (fd_table s l) = []" if "l \<noteq> k" for l m t
    using source_rows_set [of m t eid "fd_table s l"] assms(3) [OF that] by simp
  have items: "feed_items (n + 1) ?t eid s = map (item_of k) ?S"
  proof -
    have "concat (map (\<lambda>l. map (item_of l) (source_rows (n + 1) ?t eid (fd_table s l))) ls) =
        (if k \<in> set ls then map (item_of k) ?S else [])" if "distinct ls" for ls
      using that by (induction ls) (auto, (metis other)+)
    with assms(2) show ?thesis by (simp add: feed_items_def distinct_activity_types)
  qed
  have "length (filter (\<lambda>i. before ?c (item_key i)) (map (item_of k) ?S)) \<le> n"
  proof (cases "?S")
    case (Cons q S)
    define f where "f = filter (\<lambda>x. fr_engagementId x = eid \<and> fr_at x \<le> fr_at r) (fd_table s k)"
    have S: "?S = take (n + 1) (sort_key (\<lambda>r. - fr_at r) f)" by (simp add: source_rows_def f_def)
    have "r \<in> set (sort_key (\<lambda>r. - fr_at r) f)" using assms(4) by (simp add: f_def engagement_rows_def)
    then have q: "sort_key (\<lambda>r. - fr_at r) f = q # tl (sort_key (\<lambda>r. - fr_at r) f)"
      using Cons S by (cases "sort_key (\<lambda>r. - fr_at r) f") simp_all
    have "sorted (map (\<lambda>r. - fr_at r) (sort_key (\<lambda>r. - fr_at r) f))" by simp
    with q have "\<forall>x \<in> set (sort_key (\<lambda>r. - fr_at r) f). fr_at x \<le> fr_at q"
      by (metis (mono_tags, lifting) insert_iff list.simps(15) list.simps(9) neg_le_iff_le order_refl set_map imageI sorted_wrt.simps(2))
    with \<open>r \<in> set (sort_key (\<lambda>r. - fr_at r) f)\<close> have "fr_at r \<le> fr_at q" by blast
    moreover have qf: "q \<in> set f" using q by (metis list.set_intros(1) set_sort)
    ultimately have "fr_at q = fr_at r" by (simp add: f_def)
    with d assms(4) qf have "q = r" by (auto simp: f_def engagement_rows_def distinct_map inj_on_def)
    then have "filter (\<lambda>i. before ?c (item_key i)) (map (item_of k) ?S) =
        filter (\<lambda>i. before ?c (item_key i)) (map (item_of k) S)" using Cons before_irrefl by simp
    moreover have "length ?S \<le> n + 1" unfolding S by simp
    then have "length S \<le> n" using Cons by simp
    ultimately show ?thesis by (metis length_filter_le length_map order_trans)
  qed simp
  then show ?thesis using items by (simp add: feed_page_def Let_def item_key_time)
qed

section \<open>A concrete feed\<close>

definition note_row :: "ident \<Rightarrow> time \<Rightarrow> feed_row" where
  "note_row i t = \<lparr>fr_id = i, fr_engagementId = ''e1'', fr_at = t, fr_actorId = Some ''uc'', fr_milestoneIndex = None\<rparr>"

definition feed1 :: feed_db where
  "feed1 = \<lparr>fd_db = world_db, fd_table = (\<lambda>k. if k = NOTE then [note_row ''b'' 20, note_row ''a'' 10, note_row ''c'' 30] else [])\<rparr>"

theorem feed_page_is_the_next_part_witness:
  "map ai_id (fst (feed_page 2 None ''e1'' feed1)) = [''note:c'', ''note:b'']"
proof -
  have "times_distinct ''e1'' feed1"
    by (simp add: times_distinct_def activity_types_def engagement_rows_def feed1_def note_row_def)
  then have "fst (feed_page 2 None ''e1'' feed1) = take 2 (filter (later None) (timeline ''e1'' feed1))"
    using feed_page_is_the_next_part [of "''e1''" feed1 2 None] by simp
  then show ?thesis
    by (simp add: timeline_def sort_items_def activity_types_def engagement_rows_def feed1_def note_row_def item_of_def
        type_name_def item_key_def before_def later_def)
qed

text \<open>One note per page: the third is never shown.\<close>

lemma third_note_is_lost:
  "map ai_id (fst (feed_page 1 None ''e1'' feed1)) = [''note:c''] \<and>
   map ai_id (fst (feed_page 1 (Some (30, ''note:c'')) ''e1'' feed1)) = [''note:b''] \<and>
   snd (feed_page 1 (Some (30, ''note:c'')) ''e1'' feed1) = None"
  by (simp add: feed_page_def feed_items_def source_rows_def sort_items_def activity_types_def feed1_def note_row_def item_of_def
      type_name_def item_key_def before_def)

end
