(* ===== verification/Calendar.thy ===== *)
theory Calendar
  imports MilestoneFlows Decimal
begin

text \<open>
  The calendar feed, \<^verbatim>\<open>modules/users/calendar.service.ts\<close>: the due dates of a user's milestones as an iCalendar
  document (RFC 5545), behind a secret token.  Texts are lists of Unicode code points here, because lines are
  folded by their length in UTF-8.
\<close>

section \<open>Texts\<close>

type_synonym unicode = "nat list"

definition ascii :: "string \<Rightarrow> unicode" where
  "ascii s = map of_char s"

abbreviation CR :: nat where "CR \<equiv> 13"
abbreviation LF :: nat where "LF \<equiv> 10"
abbreviation SPACE :: nat where "SPACE \<equiv> 32"
abbreviation BACKSLASH :: nat where "BACKSLASH \<equiv> 92"

definition utf8_bytes :: "nat \<Rightarrow> nat" where
  "utf8_bytes c = (if c < 128 then 1 else if c < 2048 then 2 else if c < 65536 then 3 else 4)"

definition byteLength :: "unicode \<Rightarrow> nat" where
  "byteLength s = sum_list (map utf8_bytes s)"

section \<open>Escaping and folding\<close>

definition replace_code :: "nat \<Rightarrow> unicode \<Rightarrow> unicode \<Rightarrow> unicode" where
  "replace_code c r s = concat (map (\<lambda>x. if x = c then r else [x]) s)"

text \<open>\<open>replace(/\r?\n/g, '\\n')\<close>.\<close>

fun escape_newlines :: "unicode \<Rightarrow> unicode" where
  "escape_newlines [] = []"
| "escape_newlines [c] = (if c = LF then [BACKSLASH, 110] else [c])"
| "escape_newlines (c # d # s) =
     (if c = CR \<and> d = LF then BACKSLASH # 110 # escape_newlines s
      else if c = LF then BACKSLASH # 110 # escape_newlines (d # s)
      else c # escape_newlines (d # s))"

definition escapeText :: "unicode \<Rightarrow> unicode" where
  "escapeText v = escape_newlines (replace_code 44 [BACKSLASH, 44] (replace_code 59 [BACKSLASH, 59]
     (replace_code BACKSLASH [BACKSLASH, BACKSLASH] v)))"

text \<open>The loop of \<open>foldLine\<close>; \<open>first\<close> tells that no part was pushed yet.\<close>

fun fold_parts :: "bool \<Rightarrow> unicode \<Rightarrow> nat \<Rightarrow> unicode \<Rightarrow> unicode list" where
  "fold_parts first cur bytes [] = [cur]"
| "fold_parts first cur bytes (c # cs) =
     (if bytes + utf8_bytes c > (if first then 75 else 74) then cur # fold_parts False [c] (utf8_bytes c) cs
      else fold_parts first (cur @ [c]) (bytes + utf8_bytes c) cs)"

definition join_code :: "unicode \<Rightarrow> unicode list \<Rightarrow> unicode" where
  "join_code sep xs = (case xs of [] \<Rightarrow> [] | y # ys \<Rightarrow> y @ concat (map (\<lambda>z. sep @ z) ys))"

definition foldLine :: "unicode \<Rightarrow> unicode" where
  "foldLine line = (if byteLength line \<le> 75 then line else join_code [CR, LF, SPACE] (fold_parts True [] 0 line))"

section \<open>The document\<close>

record calendar_event =
  cv_uid :: unicode
  cv_date :: time
  cv_summary :: unicode
  cv_description :: unicode

text \<open>\<open>isoText\<close> is \<open>toISOString\<close>; \<open>milestoneName\<close> the column \<open>name\<close> of a milestone, \<open>titleOf\<close> the job title as Unicode.\<close>

record calendar_env =
  isoText :: "time \<Rightarrow> string"
  milestoneName :: "ident \<Rightarrow> unicode"
  titleOf :: "ident \<Rightarrow> unicode"
  hashToken :: "string \<Rightarrow> string"

definition formatDate :: "calendar_env \<Rightarrow> time \<Rightarrow> string" where
  "formatDate w t = filter (\<lambda>c. c \<noteq> CHR ''-'') (take 10 (isoText w t))"

text \<open>\<open>replace(/\.\d{3}/, '')\<close>: the first match only.\<close>

definition is_dec :: "char \<Rightarrow> bool" where
  "is_dec c \<longleftrightarrow> c \<in> set ''0123456789''"

fun drop_millis :: "string \<Rightarrow> string" where
  "drop_millis (a # b # c # d # s) =
     (if a = CHR ''.'' \<and> is_dec b \<and> is_dec c \<and> is_dec d then s else a # drop_millis (b # c # d # s))"
| "drop_millis s = s"

definition formatDateTime :: "calendar_env \<Rightarrow> time \<Rightarrow> string" where
  "formatDateTime w t = drop_millis (filter (\<lambda>c. c \<notin> {CHR ''-'', CHR '':''}) (isoText w t))"

definition event_lines :: "calendar_env \<Rightarrow> time \<Rightarrow> calendar_event \<Rightarrow> unicode list" where
  "event_lines w t e =
     [ascii ''BEGIN:VEVENT'',
      ascii ''UID:'' @ cv_uid e,
      ascii ''DTSTAMP:'' @ ascii (formatDateTime w t),
      ascii ''DTSTART;VALUE=DATE:'' @ ascii (formatDate w (cv_date e)),
      ascii ''DTEND;VALUE=DATE:'' @ ascii (formatDate w (cv_date e + 24 * 60 * 60 * 1000)),
      ascii ''SUMMARY:'' @ escapeText (cv_summary e),
      ascii ''DESCRIPTION:'' @ escapeText (cv_description e),
      ascii ''TRANSP:TRANSPARENT'',
      ascii ''END:VEVENT'']"

definition ics_lines :: "calendar_env \<Rightarrow> calendar_event list \<Rightarrow> time \<Rightarrow> unicode list" where
  "ics_lines w es t =
     [ascii ''BEGIN:VCALENDAR'', ascii ''VERSION:2.0'', ascii ''PRODID:-//HireSettle//Milestone Calendar//EN'',
      ascii ''CALSCALE:GREGORIAN'', ascii ''METHOD:PUBLISH'', ascii ''X-WR-CALNAME:HireSettle milestones''] @
     concat (map (event_lines w t) es) @ [ascii ''END:VCALENDAR'']"

definition buildIcs :: "calendar_env \<Rightarrow> calendar_event list \<Rightarrow> time \<Rightarrow> unicode" where
  "buildIcs w es t = join_code [CR, LF] (map foldLine (ics_lines w es t)) @ [CR, LF]"

section \<open>Events\<close>

definition is_calendar_party :: "user \<Rightarrow> engagement \<Rightarrow> bool" where
  "is_calendar_party u e \<longleftrightarrow> Some (u_id u) \<in> {e_companyId e, e_recruiterId e, e_arbiterId e} \<or>
     truthy (u_stellarAddress u) \<and>
     the (u_stellarAddress u) \<in> {e_companyAddress e, e_recruiterAddress e, e_arbiterAddress e}"

definition calendar_engagement :: "user \<Rightarrow> engagement \<Rightarrow> bool" where
  "calendar_engagement u e \<longleftrightarrow> e_status e \<in> {ACTIVE, PENDING_ACCEPTANCE, REPLACEMENT_REQUESTED} \<and>
     e_archivedAt e = None \<and> is_calendar_party u e"

definition due_date :: "milestone \<Rightarrow> time option" where
  "due_date m = (if m_kind m = PLACEMENT then m_placementDueAt m else m_unlockEstimatedAt m)"

text \<open>The query, ordered by engagement and index by the database, and the milestones the loop keeps.\<close>

definition calendar_milestones :: "user \<Rightarrow> time \<Rightarrow> db \<Rightarrow> milestone list" where
  "calendar_milestones u t s = filter (\<lambda>m. m_status m \<notin> {CONFIRMED, RESOLVED} \<and>
      (case find_engagement (m_engagementId m) s of None \<Rightarrow> False | Some e \<Rightarrow> calendar_engagement u e) \<and>
      (ge_opt (m_placementDueAt m) t \<or> ge_opt (m_unlockEstimatedAt m) t)) (t_milestones s)"

definition event_of :: "calendar_env \<Rightarrow> milestone \<Rightarrow> time \<Rightarrow> calendar_event" where
  "event_of w m d = \<lparr>cv_uid = ascii ''milestone-'' @ ascii (m_id m) @ ascii ''@hiresettle'', cv_date = d,
     cv_summary = titleOf w (m_engagementId m) @ ascii '': '' @ milestoneName w (m_id m) @ ascii '' ('' @
        ascii (if m_kind m = PLACEMENT then ''placement proof due'' else ''retention window ends'') @ ascii '')'',
     cv_description = ascii ''Engagement '' @ ascii (m_engagementId m) @ ascii '', milestone '' @ ascii (show_nat (m_index m)) @
        ascii '' '' @ [34] @ milestoneName w (m_id m) @ [34] @ ascii '' '' @ [8212] @ ascii '' '' @ ascii (show_int (m_paymentPercent m)) @
        ascii ''% of the fee. Status: '' @ ascii (status_text (m_status m)) @ ascii ''.''\<rparr>"

definition upcomingMilestoneEvents :: "calendar_env \<Rightarrow> (milestone list \<Rightarrow> milestone list) \<Rightarrow> user \<Rightarrow> time \<Rightarrow> db \<Rightarrow> calendar_event list" where
  "upcomingMilestoneEvents w orderBy u t s = sort_key cv_date (concat (map (\<lambda>m. case due_date m of
       None \<Rightarrow> [] | Some d \<Rightarrow> if d < t then [] else [event_of w m d]) (orderBy (calendar_milestones u t s))))"

section \<open>Tokens\<close>

text \<open>The column \<open>calendarTokenHash\<close>, by user; \<open>calendarTokenCreatedAt\<close> is only stored and left out.\<close>

record calendar_db =
  cd_db :: db
  cd_hash :: "ident \<Rightarrow> string option"

definition user_exists :: "ident \<Rightarrow> calendar_db \<Rightarrow> bool" where
  "user_exists uid s \<longleftrightarrow> list_ex (\<lambda>u. u_id u = uid) (t_users (cd_db s))"

definition regenerateToken :: "calendar_env \<Rightarrow> ident \<Rightarrow> string \<Rightarrow> calendar_db \<Rightarrow> (calendar_db, string) outcome" where
  "regenerateToken w uid token s =
     (if user_exists uid s then return token (s\<lparr>cd_hash := (cd_hash s)(uid := Some (hashToken w token))\<rparr>)
      else throw RecordNotFound s)"

definition revokeToken :: "ident \<Rightarrow> calendar_db \<Rightarrow> (calendar_db, unit) outcome" where
  "revokeToken uid s =
     (if user_exists uid s then return () (s\<lparr>cd_hash := (cd_hash s)(uid := None)\<rparr>) else throw RecordNotFound s)"

definition renderFeed :: "calendar_env \<Rightarrow> (milestone list \<Rightarrow> milestone list) \<Rightarrow> string option \<Rightarrow> time \<Rightarrow> calendar_db \<Rightarrow> exn + unicode" where
  "renderFeed w orderBy token t s =
     (if \<not> truthy token then Inl UnauthorizedException
      else case List.find (\<lambda>u. cd_hash s (u_id u) = Some (hashToken w (the token))) (t_users (cd_db s)) of
        None \<Rightarrow> Inl UnauthorizedException
      | Some u \<Rightarrow>
          if u_deactivatedAt u \<noteq> None \<or> u_deletedAt u \<noteq> None then Inl UnauthorizedException
          else Inr (buildIcs w (upcomingMilestoneEvents w orderBy u t (cd_db s)) t))"

section \<open>Reading a document back\<close>

text \<open>RFC 5545: a line break followed by a space is no line break; then lines end at CRLF.\<close>

fun unfold_lines :: "unicode \<Rightarrow> unicode" where
  "unfold_lines (c # d # e # s) =
     (if c = CR \<and> d = LF \<and> e = SPACE then unfold_lines s else c # unfold_lines (d # e # s))"
| "unfold_lines s = s"

fun split_lines :: "unicode \<Rightarrow> unicode list" where
  "split_lines [] = [[]]"
| "split_lines [c] = [[c]]"
| "split_lines (c # d # s) = (if c = CR \<and> d = LF then [] # split_lines s
     else case split_lines (d # s) of [] \<Rightarrow> [[c]] | l # ls \<Rightarrow> (c # l) # ls)"

text \<open>TEXT values: a backslash quotes the next character, and \<open>n\<close> means a line feed.\<close>

fun unescape_text :: "unicode \<Rightarrow> unicode" where
  "unescape_text [] = []"
| "unescape_text [c] = [c]"
| "unescape_text (c # d # s) =
     (if c = BACKSLASH then (if d = 110 then LF else d) # unescape_text s else c # unescape_text (d # s))"

text \<open>A CRLF of the original text reads back as a line feed.\<close>

fun normal_newlines :: "unicode \<Rightarrow> unicode" where
  "normal_newlines [] = []"
| "normal_newlines [c] = [c]"
| "normal_newlines (c # d # s) = (if c = CR \<and> d = LF then LF # normal_newlines s else c # normal_newlines (d # s))"

section \<open>Folding loses nothing\<close>

lemma utf8_bytes_le: "utf8_bytes c \<le> 4" "0 < utf8_bytes c"
  by (simp_all add: utf8_bytes_def)

lemma byteLength_simps [simp]:
  "byteLength [] = 0" "byteLength (c # s) = utf8_bytes c + byteLength s" "byteLength (s @ t) = byteLength s + byteLength t"
  by (simp_all add: byteLength_def)

lemma fold_parts_concat: "concat (fold_parts first cur bytes cs) = cur @ cs"
  by (induction first cur bytes cs rule: fold_parts.induct) auto

lemma fold_parts_not_empty: "fold_parts first cur bytes cs \<noteq> []"
  by (induction first cur bytes cs rule: fold_parts.induct) auto

lemma fold_parts_later:
  "bytes = byteLength cur \<Longrightarrow> bytes \<le> 74 \<Longrightarrow> list_all (\<lambda>p. byteLength p \<le> 74) (fold_parts False cur bytes cs)"
proof (induction cs arbitrary: cur bytes)
  case (Cons c cs)
  show ?case
  proof (cases "bytes + utf8_bytes c > 74")
    case True
    have "list_all (\<lambda>p. byteLength p \<le> 74) (fold_parts False [c] (utf8_bytes c) cs)"
      by (rule Cons.IH) (use utf8_bytes_le(1) [of c] in simp_all)
    with True Cons.prems show ?thesis by simp
  next
    case False
    with Cons.prems show ?thesis by (simp add: Cons.IH)
  qed
qed simp

lemma fold_parts_short:
  "bytes = byteLength cur \<Longrightarrow> bytes \<le> 75 \<Longrightarrow> byteLength (hd (fold_parts True cur bytes cs)) \<le> 75 \<and>
     list_all (\<lambda>p. byteLength p \<le> 74) (tl (fold_parts True cur bytes cs))"
proof (induction cs arbitrary: cur bytes)
  case (Cons c cs)
  show ?case
  proof (cases "bytes + utf8_bytes c > 75")
    case True
    have "list_all (\<lambda>p. byteLength p \<le> 74) (fold_parts False [c] (utf8_bytes c) cs)"
      by (rule fold_parts_later) (use utf8_bytes_le(1) [of c] in simp_all)
    with True Cons.prems show ?thesis by simp
  next
    case False
    with Cons.prems show ?thesis by (simp add: Cons.IH)
  qed
qed simp

lemma unfold_append:
  "LF \<notin> set a \<Longrightarrow> (s \<noteq> [] \<longrightarrow> hd s \<noteq> LF) \<Longrightarrow> unfold_lines (a @ s) = a @ unfold_lines s"
proof (induction a)
  case (Cons c a)
  have IH: "unfold_lines (a @ s) = a @ unfold_lines s" using Cons by simp
  show ?case
  proof (cases "a @ s")
    case (Cons d r)
    have "d \<noteq> LF" using Cons Cons.prems by (cases a) auto
    then have "unfold_lines (c # d # r) = c # unfold_lines (d # r)" by (cases r) auto
    with Cons IH show ?thesis by (metis append_Cons)
  qed simp
qed simp

fun continued :: "unicode list \<Rightarrow> unicode" where
  "continued [] = []"
| "continued (p # ps) = CR # LF # SPACE # p @ continued ps"

lemma join_parts: "join_code [CR, LF, SPACE] (p # ps) = p @ continued ps"
  by (induction ps arbitrary: p) (simp_all add: join_code_def)

lemma unfold_parts:
  "list_all (\<lambda>p. LF \<notin> set p) ps \<Longrightarrow> (s \<noteq> [] \<longrightarrow> hd s \<noteq> LF) \<Longrightarrow>
     unfold_lines (continued ps @ s) = concat ps @ unfold_lines s"
proof (induction ps)
  case (Cons p ps)
  let ?r = "continued ps @ s"
  have "?r \<noteq> [] \<longrightarrow> hd ?r \<noteq> LF" using Cons.prems(2) by (cases ps) auto
  then have "unfold_lines (p @ ?r) = p @ unfold_lines ?r" using Cons.prems(1) by (intro unfold_append) auto
  with Cons show ?case by simp
qed simp

lemma fold_parts_no_LF:
  assumes "LF \<notin> set l" shows "list_all (\<lambda>p. LF \<notin> set p) (fold_parts True [] 0 l)"
proof -
  have "set (concat (fold_parts True [] 0 l)) = set l" by (simp add: fold_parts_concat)
  with assms show ?thesis by (auto simp: list_all_iff)
qed

lemma unfold_foldLine:
  assumes "LF \<notin> set l" and "s \<noteq> [] \<longrightarrow> hd s \<noteq> LF"
  shows "unfold_lines (foldLine l @ s) = l @ unfold_lines s"
proof (cases "byteLength l \<le> 75")
  case True
  then show ?thesis using assms by (simp add: foldLine_def unfold_append)
next
  case False
  obtain p ps where p: "fold_parts True [] 0 l = p # ps" using fold_parts_not_empty by (cases "fold_parts True [] 0 l") auto
  have l: "l = p @ concat ps" using fold_parts_concat [of True "[]" 0 l] by (simp add: p)
  have n: "LF \<notin> set p" "list_all (\<lambda>p. LF \<notin> set p) ps" using fold_parts_no_LF [OF assms(1)] by (simp_all add: p)
  let ?r = "continued ps @ s"
  have "?r \<noteq> [] \<longrightarrow> hd ?r \<noteq> LF" using assms(2) by (cases ps) auto
  then have "unfold_lines (p @ ?r) = p @ unfold_lines ?r" by (rule unfold_append [OF n(1)])
  also have "unfold_lines ?r = concat ps @ unfold_lines s" by (rule unfold_parts [OF n(2) assms(2)])
  finally show ?thesis using False by (simp add: foldLine_def p join_parts l [symmetric])
qed

lemma foldLine_hd:
  assumes "l \<noteq> []" shows "foldLine l \<noteq> [] \<and> hd (foldLine l) = hd l"
proof -
  obtain c cs where l: "l = c # cs" using assms by (cases l) auto
  have "\<exists>q qs. fold_parts f (c # cur) b xs = (c # q) # qs" for f cur b xs
    by (induction xs arbitrary: cur b) auto
  then obtain q qs where "fold_parts True [c] (utf8_bytes c) cs = (c # q) # qs" by blast
  then have "fold_parts True [] 0 l = (c # q) # qs" using utf8_bytes_le(1) [of c] by (simp add: l)
  then show ?thesis by (simp add: foldLine_def join_code_def l)
qed

lemma join_code_end: "ls \<noteq> [] \<Longrightarrow> join_code sep ls @ sep = concat (map (\<lambda>l. l @ sep) ls)"
proof -
  have "concat (map (\<lambda>z. sep @ z) ys) @ sep = sep @ concat (map (\<lambda>l. l @ sep) ys)" for ys
    by (induction ys) auto
  then show "ls \<noteq> [] \<Longrightarrow> ?thesis" by (cases ls) (simp_all add: join_code_def)
qed

text \<open>A content line: no line feed in it, and no space in front.\<close>

definition content_line :: "unicode \<Rightarrow> bool" where
  "content_line l \<longleftrightarrow> LF \<notin> set l \<and> l \<noteq> [] \<and> hd l \<noteq> SPACE"

lemma unfold_break: "(s \<noteq> [] \<longrightarrow> hd s \<noteq> SPACE) \<Longrightarrow> unfold_lines (CR # LF # s) = CR # LF # unfold_lines s"
  by (cases s; cases "tl s") auto

lemma unfold_document:
  "list_all content_line ls \<Longrightarrow>
     unfold_lines (concat (map (\<lambda>l. foldLine l @ [CR, LF]) ls)) = concat (map (\<lambda>l. l @ [CR, LF]) ls)"
proof (induction ls)
  case (Cons l ls)
  let ?r = "concat (map (\<lambda>l. foldLine l @ [CR, LF]) ls)"
  have "?r \<noteq> [] \<longrightarrow> hd ?r \<noteq> SPACE"
  proof (cases ls)
    case (Cons k ks)
    then have "content_line k" using Cons.prems by simp
    then have "foldLine k \<noteq> []" "hd (foldLine k) \<noteq> SPACE" using foldLine_hd [of k] by (auto simp: content_line_def)
    with Cons show ?thesis by simp
  qed simp
  then have "unfold_lines (CR # LF # ?r) = CR # LF # unfold_lines ?r" by (rule unfold_break)
  moreover have "unfold_lines (foldLine l @ CR # LF # ?r) = l @ unfold_lines (CR # LF # ?r)"
    by (rule unfold_foldLine) (use Cons.prems in \<open>simp_all add: content_line_def\<close>)
  ultimately show ?case using Cons by simp
qed simp

lemma split_lines_not_empty: "split_lines s \<noteq> []"
  by (induction s rule: split_lines.induct) (auto split: list.split)

lemma split_at_break: "LF \<notin> set l \<Longrightarrow> split_lines (l @ CR # LF # s) = l # split_lines s"
proof (induction l)
  case (Cons c l)
  obtain d r where d: "l @ CR # LF # s = d # r" "d \<noteq> LF" using Cons.prems by (cases l) auto
  have "split_lines (d # r) = l # split_lines s" using Cons by (simp add: d(1) [symmetric])
  then have "split_lines (c # d # r) = (c # l) # split_lines s" using d(2) by simp
  then show ?case by (simp add: d(1))
qed simp

lemma split_document:
  "list_all (\<lambda>l. LF \<notin> set l) ls \<Longrightarrow> split_lines (concat (map (\<lambda>l. l @ [CR, LF]) ls)) = ls @ [[]]"
  by (induction ls) (simp_all add: split_at_break)

text \<open>The physical lines of a folded line.\<close>

definition physical_lines :: "unicode \<Rightarrow> unicode list" where
  "physical_lines l = (if byteLength l \<le> 75 then [l] else
     hd (fold_parts True [] 0 l) # map ((#) SPACE) (tl (fold_parts True [] 0 l)))"

lemma physical_lines_short: "list_all (\<lambda>p. byteLength p \<le> 75) (physical_lines l)"
  using fold_parts_short [of 0 "[]" l]
  by (auto simp: physical_lines_def list_all_iff utf8_bytes_def)

lemma split_foldLine:
  assumes "LF \<notin> set l" shows "split_lines (foldLine l @ CR # LF # s) = physical_lines l @ split_lines s"
proof (cases "byteLength l \<le> 75")
  case True
  then show ?thesis using split_at_break [OF assms] by (simp add: foldLine_def physical_lines_def)
next
  case False
  obtain p ps where p: "fold_parts True [] 0 l = p # ps" using fold_parts_not_empty by (cases "fold_parts True [] 0 l") auto
  have n: "LF \<notin> set p" "list_all (\<lambda>p. LF \<notin> set p) ps" using fold_parts_no_LF [OF assms] by (simp_all add: p)
  have "split_lines (q @ continued qs @ CR # LF # s) = q # map ((#) SPACE) qs @ split_lines s"
    if "LF \<notin> set q" "list_all (\<lambda>p. LF \<notin> set p) qs" for q qs
    using that
  proof (induction qs arbitrary: q)
    case (Cons r qs)
    have "split_lines ((SPACE # r) @ continued qs @ CR # LF # s) =
        (SPACE # r) # map ((#) SPACE) qs @ split_lines s"
      by (rule Cons.IH) (use Cons.prems in simp_all)
    with split_at_break [OF Cons.prems(1)] show ?case by simp
  qed (simp add: split_at_break)
  from this [OF n] False show ?thesis by (simp add: foldLine_def physical_lines_def p join_parts)
qed

lemma split_folded:
  "list_all (\<lambda>l. LF \<notin> set l) ls \<Longrightarrow>
     split_lines (concat (map (\<lambda>l. foldLine l @ [CR, LF]) ls)) = concat (map physical_lines ls) @ [[]]"
  by (induction ls) (simp_all add: split_foldLine)

section \<open>Escaping loses nothing\<close>

definition quoted :: "nat \<Rightarrow> unicode" where
  "quoted c = (if c \<in> {BACKSLASH, 59, 44} then [BACKSLASH, c] else [c])"

lemma escapeText_quoted: "escapeText v = escape_newlines (concat (map quoted v))"
proof -
  have "replace_code 44 [BACKSLASH, 44] (replace_code 59 [BACKSLASH, 59] (replace_code BACKSLASH [BACKSLASH, BACKSLASH] v)) =
      concat (map quoted v)"
    by (induction v) (auto simp: replace_code_def quoted_def)
  then show ?thesis by (simp add: escapeText_def)
qed

lemma escape_newlines_step:
  "c \<noteq> LF \<Longrightarrow> (c = CR \<longrightarrow> s = [] \<or> hd s \<noteq> LF) \<Longrightarrow> escape_newlines (c # s) = c # escape_newlines s"
  "escape_newlines (LF # s) = BACKSLASH # 110 # escape_newlines s"
  by (cases s; simp)+

lemma escape_newlines_no_LF: "LF \<notin> set (escape_newlines s)"
  by (induction s rule: escape_newlines.induct) auto

lemma unescape_step:
  "c \<noteq> BACKSLASH \<Longrightarrow> unescape_text (c # s) = c # unescape_text s"
  by (cases s) auto

lemma quoted_hd: "c \<noteq> LF \<Longrightarrow> quoted c @ s \<noteq> [] \<and> hd (quoted c @ s) \<noteq> LF"
  by (simp add: quoted_def)

lemma unescape_quoted:
  assumes "c \<noteq> LF" and "c = CR \<longrightarrow> s = [] \<or> hd s \<noteq> LF"
  shows "unescape_text (escape_newlines (quoted c @ s)) = c # unescape_text (escape_newlines s)"
  using assms by (cases "c \<in> {BACKSLASH, 59, 44}") (auto simp: quoted_def escape_newlines_step unescape_step)

theorem escaped_text_reads_back: "unescape_text (escapeText v) = normal_newlines v"
  unfolding escapeText_quoted
proof (induction v rule: normal_newlines.induct)
  case (2 c)
  then show ?case
    by (cases "c = LF") (simp_all add: unescape_quoted [where s = "[]", simplified] quoted_def [of LF] escape_newlines_step)
next
  case (3 c d s)
  show ?case
  proof (cases "c = CR \<and> d = LF")
    case True
    then have e: "concat (map quoted (c # d # s)) = CR # LF # concat (map quoted s)" by (simp add: quoted_def)
    show ?thesis unfolding e using True 3(1) by simp
  next
    case False
    have IH: "unescape_text (escape_newlines (concat (map quoted (d # s)))) = normal_newlines (d # s)"
      using 3(2) False by blast
    show ?thesis
    proof (cases "c = LF")
      case True
      then have e: "concat (map quoted (c # d # s)) = LF # concat (map quoted (d # s))" by (simp add: quoted_def)
      show ?thesis unfolding e escape_newlines_step(2) using True IH by simp
    next
      case c: False
      have "c = CR \<longrightarrow> concat (map quoted (d # s)) = [] \<or> hd (concat (map quoted (d # s))) \<noteq> LF"
        using False quoted_hd [of d "concat (map quoted s)"] by auto
      from unescape_quoted [OF c this] IH False show ?thesis by simp
    qed
  qed
qed simp

section \<open>The document reads back\<close>

lemma ascii_simps [simp]: "ascii [] = []" "ascii (c # s) = of_char c # ascii s"
  by (simp_all add: ascii_def)

lemma ascii_no_LF: "list_all (\<lambda>c. c \<noteq> CHR 0x0A) s \<Longrightarrow> LF \<notin> set (ascii s)"
proof (induction s)
  case (Cons c s)
  have "of_char c \<noteq> (LF :: nat)"
  proof
    assume "of_char c = (LF :: nat)"
    moreover have "(LF :: nat) = of_char (CHR 0x0A)" by simp
    ultimately have "c = CHR 0x0A" by (metis of_char_eq_iff)
    with Cons.prems show False by simp
  qed
  with Cons show ?case by simp
qed simp

text \<open>\<open>toISOString\<close> writes no line feed.\<close>

definition iso_one_line :: "calendar_env \<Rightarrow> bool" where
  "iso_one_line w \<longleftrightarrow> (\<forall>t. list_all (\<lambda>c. c \<noteq> CHR 0x0A) (isoText w t))"

lemma set_drop_millis: "set (drop_millis s) \<subseteq> set s"
  by (induction s rule: drop_millis.induct) auto

lemma dates_one_line:
  assumes "iso_one_line w"
  shows "LF \<notin> set (ascii (formatDate w t))" "LF \<notin> set (ascii (formatDateTime w t))"
proof -
  have i: "CHR 0x0A \<notin> set (isoText w t)" using assms by (auto simp: iso_one_line_def list_all_iff)
  have "CHR 0x0A \<notin> set (formatDate w t)" using i by (auto simp: formatDate_def dest: in_set_takeD)
  then show "LF \<notin> set (ascii (formatDate w t))" by (intro ascii_no_LF) (auto simp: list_all_iff)
  have "CHR 0x0A \<notin> set (formatDateTime w t)"
    using i set_drop_millis [of "filter (\<lambda>c. c \<notin> {CHR ''-'', CHR '':''}) (isoText w t)"] by (auto simp: formatDateTime_def)
  then show "LF \<notin> set (ascii (formatDateTime w t))" by (intro ascii_no_LF) (auto simp: list_all_iff)
qed

lemma event_content:
  assumes "iso_one_line w" and "LF \<notin> set (cv_uid e)"
  shows "list_all content_line (event_lines w t e)"
  using dates_one_line [OF assms(1)] assms(2) escape_newlines_no_LF
  by (simp add: event_lines_def content_line_def escapeText_def)

text \<open>
  C38. A calendar client reads back exactly the lines the service wrote, whatever the job titles and milestone
  names contain: unfolding and splitting the document gives the fixed head and end and nine lines per event, so
  no text can add a line or an event; every physical line has at most 75 octets; and the texts unescape to
  what they were, up to the form of their line breaks.
\<close>
theorem calendar_reads_back:
  assumes "iso_one_line w" and "list_all (\<lambda>e. LF \<notin> set (cv_uid e)) es"
  shows "split_lines (unfold_lines (buildIcs w es t)) = ics_lines w es t @ [[]] \<and>
    length (ics_lines w es t) = 7 + 9 * length es \<and>
    list_all (\<lambda>l. byteLength l \<le> 75) (split_lines (buildIcs w es t)) \<and>
    list_all (\<lambda>e. unescape_text (escapeText (cv_summary e)) = normal_newlines (cv_summary e) \<and>
      unescape_text (escapeText (cv_description e)) = normal_newlines (cv_description e)) es"
proof -
  let ?ls = "ics_lines w es t"
  have "list_all content_line (concat (map (event_lines w t) es))"
    using assms(2) event_content [OF assms(1)] by (induction es) simp_all
  then have c: "list_all content_line ?ls" by (simp add: ics_lines_def content_line_def)
  then have n: "list_all (\<lambda>l. LF \<notin> set l) ?ls" by (auto simp: list_all_iff content_line_def)
  have ne: "map foldLine ?ls \<noteq> []" by (simp add: ics_lines_def)
  have b: "buildIcs w es t = concat (map (\<lambda>l. foldLine l @ [CR, LF]) ?ls)"
    unfolding buildIcs_def join_code_end [OF ne] map_map by (simp only: comp_def)
  have "split_lines (unfold_lines (buildIcs w es t)) = ?ls @ [[]]"
    unfolding b unfold_document [OF c] by (rule split_document [OF n])
  moreover have "list_all (\<lambda>l. byteLength l \<le> 75) (split_lines (buildIcs w es t))"
    unfolding b split_folded [OF n] using physical_lines_short by (auto simp: list_all_iff)
  moreover have "length (concat (map (event_lines w t) es)) = 9 * length es"
    by (induction es) (simp_all add: event_lines_def)
  then have "length ?ls = 7 + 9 * length es" by (simp add: ics_lines_def)
  ultimately show ?thesis by (simp add: escaped_text_reads_back list_all_iff)
qed

definition calendar_env1 :: calendar_env where
  "calendar_env1 = \<lparr>isoText = (\<lambda>_. ''2026-01-02T03:04:05.678Z''), milestoneName = (\<lambda>_. ascii ''start''),
     titleOf = (\<lambda>_. ascii ''chef; sous, pastry''), hashToken = id\<rparr>"

theorem calendar_reads_back_witness:
  "length (split_lines (unfold_lines (buildIcs calendar_env1
     [\<lparr>cv_uid = ascii ''m1'', cv_date = 5, cv_summary = [65, LF, 66], cv_description = replicate 200 233\<rparr>] 0))) = 17"
proof -
  let ?es = "[\<lparr>cv_uid = ascii ''m1'', cv_date = 5, cv_summary = [65, LF, 66], cv_description = replicate 200 233\<rparr>]"
  have "iso_one_line calendar_env1" by (simp add: iso_one_line_def calendar_env1_def)
  moreover have "list_all (\<lambda>e. LF \<notin> set (cv_uid e)) ?es" by simp
  ultimately have "split_lines (unfold_lines (buildIcs calendar_env1 ?es 0)) = ics_lines calendar_env1 ?es 0 @ [[]]"
    "length (ics_lines calendar_env1 ?es 0) = 7 + 9 * length ?es"
    using calendar_reads_back [of calendar_env1 ?es 0] by blast+
  then show ?thesis by simp
qed

section \<open>Who reads the feed\<close>

text \<open>After a new token, or a revocation, the old address of the feed is refused.\<close>

lemma old_token_refused:
  assumes "regenerateToken w uid new s = (Inr n, s')" and "hashToken w old \<noteq> hashToken w new"
    and "\<And>u. u \<noteq> uid \<Longrightarrow> cd_hash s u \<noteq> Some (hashToken w old)"
  shows "renderFeed w orderBy (Some old) t s' = Inl UnauthorizedException"
proof -
  have s': "s' = s\<lparr>cd_hash := (cd_hash s)(uid := Some (hashToken w new))\<rparr>"
    using assms(1) by (auto simp: regenerateToken_def split: if_splits)
  have "cd_hash s' u \<noteq> Some (hashToken w old)" for u using assms(2) assms(3) [of u] by (simp add: s')
  then have "List.find (\<lambda>u. cd_hash s' (u_id u) = Some (hashToken w old)) us = None" for us :: "user list"
    by (simp add: find_None)
  then show ?thesis by (simp add: renderFeed_def)
qed

text \<open>Only milestones still open, of the user's own live engagements, that are due from now on, in the order of their dates.\<close>

lemma calendar_events_are_due:
  assumes "\<And>ms. set (orderBy ms) = set ms"
  shows "sorted (map cv_date (upcomingMilestoneEvents w orderBy u t s)) \<and>
    set (upcomingMilestoneEvents w orderBy u t s) =
      {event_of w m d |m d. m \<in> set (t_milestones s) \<and> m_status m \<notin> {CONFIRMED, RESOLVED} \<and> due_date m = Some d \<and> t \<le> d \<and>
        (\<exists>e. find_engagement (m_engagementId m) s = Some e \<and> calendar_engagement u e)}"
proof -
  have "x \<in> set (upcomingMilestoneEvents w orderBy u t s) \<longleftrightarrow>
      (\<exists>m \<in> set (calendar_milestones u t s). \<exists>d. due_date m = Some d \<and> t \<le> d \<and> x = event_of w m d)" for x
    by (force simp: upcomingMilestoneEvents_def assms not_less split: option.splits if_splits)
  moreover have "m \<in> set (calendar_milestones u t s) \<longleftrightarrow> m \<in> set (t_milestones s) \<and> m_status m \<notin> {CONFIRMED, RESOLVED} \<and>
      (\<exists>e. find_engagement (m_engagementId m) s = Some e \<and> calendar_engagement u e)"
    if "due_date m = Some d" "t \<le> d" for m d
    using that by (auto simp: calendar_milestones_def due_date_def split: option.splits if_splits)
  ultimately have "set (upcomingMilestoneEvents w orderBy u t s) =
      {event_of w m d |m d. m \<in> set (t_milestones s) \<and> m_status m \<notin> {CONFIRMED, RESOLVED} \<and> due_date m = Some d \<and> t \<le> d \<and>
        (\<exists>e. find_engagement (m_engagementId m) s = Some e \<and> calendar_engagement u e)}"
    by (intro set_eqI) blast
  then show ?thesis by (simp add: upcomingMilestoneEvents_def)
qed

end
