(* ===== verification/Templates.thy ===== *)
theory Templates
  imports Json
begin

text \<open>
  Engagement templates, \<^verbatim>\<open>modules/engagement-templates/engagement-templates.service.ts\<close>: the editable row of a template
  and the snapshots of its versions, which engagements refer to.  An update reads the template, then writes the
  next version and the template in one transaction; two updates may interleave between the two.
\<close>

section \<open>Rows\<close>

record template_content =
  tc_name :: string
  tc_jobTitle :: string
  tc_jobDescription :: "string option"
  tc_salaryRange :: "string option"
  tc_location :: "string option"
  tc_milestoneConfig :: json

record template_entry =
  te_id :: ident
  te_companyId :: ident
  te_content :: template_content
  te_currentVersion :: nat
  te_archived :: bool
  te_usageCount :: nat
  te_lastUsedAt :: "time option"
  te_isPublic :: bool
  te_createdAt :: time

record version_entry =
  ve_templateId :: ident
  ve_version :: nat
  ve_content :: template_content

record template_db =
  td_templates :: "template_entry list"
  td_versions :: "version_entry list"

record update_dto =
  ud_name :: "string option"
  ud_jobTitle :: "string option"
  ud_jobDescription :: "string option"
  ud_salaryRange :: "string option"
  ud_location :: "string option"
  ud_milestoneConfig :: "json option"
  ud_isPublic :: "bool option"

section \<open>Operations\<close>

definition find_template :: "ident \<Rightarrow> template_db \<Rightarrow> template_entry option" where
  "find_template i s = List.find (\<lambda>t. te_id t = i) (td_templates s)"

definition find_version :: "ident \<Rightarrow> nat \<Rightarrow> template_db \<Rightarrow> version_entry option" where
  "find_version i n s = List.find (\<lambda>v. ve_templateId v = i \<and> ve_version v = n) (td_versions s)"

text \<open>The unique index on (templateId, version).\<close>

definition insert_version :: "version_entry \<Rightarrow> template_db \<Rightarrow> (template_db, unit) outcome" where
  "insert_version v s =
     (if find_version (ve_templateId v) (ve_version v) s \<noteq> None then throw UniqueViolation s
      else return () (s\<lparr>td_versions := td_versions s @ [v]\<rparr>))"

definition insert_template :: "template_entry \<Rightarrow> template_db \<Rightarrow> (template_db, unit) outcome" where
  "insert_template t s =
     (if find_template (te_id t) s \<noteq> None then throw UniqueViolation s
      else return () (s\<lparr>td_templates := td_templates s @ [t]\<rparr>))"

text \<open>\<open>i\<close> is the generated id and \<open>now\<close> the time of the insertion.\<close>

definition create_template :: "ident \<Rightarrow> time \<Rightarrow> ident \<Rightarrow> template_content \<Rightarrow> template_db \<Rightarrow> (template_db, template_entry) outcome" where
  "create_template i now companyId dto = transaction (\<lambda>s.
     let t = \<lparr>te_id = i, te_companyId = companyId, te_content = dto, te_currentVersion = 1, te_archived = False,
              te_usageCount = 0, te_lastUsedAt = None, te_isPublic = False, te_createdAt = now\<rparr>
     in and_then (insert_template t s) (\<lambda>_ s.
        and_then (insert_version \<lparr>ve_templateId = i, ve_version = 1, ve_content = te_content t\<rparr> s) (\<lambda>_ s. return t s)))"

definition listTemplates :: "ident \<Rightarrow> template_db \<Rightarrow> template_entry list" where
  "listTemplates companyId s = rev (sort_key te_createdAt (filter (\<lambda>t. te_companyId t = companyId \<and> \<not> te_archived t) (td_templates s)))"

definition findOwned :: "ident \<Rightarrow> ident \<Rightarrow> template_db \<Rightarrow> exn + template_entry" where
  "findOwned i companyId s = (case find_template i s of
     None \<Rightarrow> Inl NotFoundException
   | Some t \<Rightarrow> if te_companyId t \<noteq> companyId then Inl ForbiddenException else Inr t)"

definition findVersions :: "ident \<Rightarrow> ident \<Rightarrow> template_db \<Rightarrow> exn + version_entry list" where
  "findVersions i companyId s = (case findOwned i companyId s of
     Inl e \<Rightarrow> Inl e
   | Inr _ \<Rightarrow> Inr (rev (sort_key ve_version (filter (\<lambda>v. ve_templateId v = i) (td_versions s)))))"

definition or_else :: "'a option \<Rightarrow> 'a \<Rightarrow> 'a" where
  "or_else x d = (case x of None \<Rightarrow> d | Some y \<Rightarrow> y)"

definition or_null :: "'a option \<Rightarrow> 'a option \<Rightarrow> 'a option" where
  "or_null x d = (case x of None \<Rightarrow> d | Some y \<Rightarrow> Some y)"

definition merge_update :: "update_dto \<Rightarrow> template_content \<Rightarrow> template_content" where
  "merge_update dto c = \<lparr>tc_name = or_else (ud_name dto) (tc_name c), tc_jobTitle = or_else (ud_jobTitle dto) (tc_jobTitle c),
     tc_jobDescription = or_null (ud_jobDescription dto) (tc_jobDescription c),
     tc_salaryRange = or_null (ud_salaryRange dto) (tc_salaryRange c), tc_location = or_null (ud_location dto) (tc_location c),
     tc_milestoneConfig = or_else (ud_milestoneConfig dto) (tc_milestoneConfig c)\<rparr>"

text \<open>What \<open>update\<close> holds between its reading and its transaction.\<close>

record pending_update =
  pd_id :: ident
  pd_merged :: template_content
  pd_nextVersion :: nat
  pd_isPublic :: bool

definition prepare_update :: "ident \<Rightarrow> ident \<Rightarrow> update_dto \<Rightarrow> template_db \<Rightarrow> exn + pending_update" where
  "prepare_update i companyId dto s = (case findOwned i companyId s of
     Inl e \<Rightarrow> Inl e
   | Inr t \<Rightarrow> Inr \<lparr>pd_id = i, pd_merged = merge_update dto (te_content t), pd_nextVersion = te_currentVersion t + 1,
                   pd_isPublic = or_else (ud_isPublic dto) (te_isPublic t)\<rparr>)"

definition write_update :: "pending_update \<Rightarrow> template_entry \<Rightarrow> template_entry" where
  "write_update p t = t\<lparr>te_content := pd_merged p, te_currentVersion := pd_nextVersion p, te_isPublic := pd_isPublic p\<rparr>"

definition update_template_row :: "ident \<Rightarrow> (template_entry \<Rightarrow> template_entry) \<Rightarrow> template_db \<Rightarrow> (template_db, unit) outcome" where
  "update_template_row i f s =
     (if find_template i s = None then throw RecordNotFound s
      else return () (s\<lparr>td_templates := update_where (\<lambda>t. te_id t = i) f (td_templates s)\<rparr>))"

definition commit_update :: "pending_update \<Rightarrow> template_db \<Rightarrow> (template_db, unit) outcome" where
  "commit_update p = transaction (\<lambda>s.
     and_then (insert_version \<lparr>ve_templateId = pd_id p, ve_version = pd_nextVersion p, ve_content = pd_merged p\<rparr> s) (\<lambda>_ s.
       update_template_row (pd_id p) (write_update p) s))"

definition update_template :: "ident \<Rightarrow> ident \<Rightarrow> update_dto \<Rightarrow> template_db \<Rightarrow> (template_db, unit) outcome" where
  "update_template i companyId dto s = (case prepare_update i companyId dto s of Inl e \<Rightarrow> throw e s | Inr p \<Rightarrow> commit_update p s)"

definition remove_template :: "ident \<Rightarrow> ident \<Rightarrow> template_db \<Rightarrow> (template_db, unit) outcome" where
  "remove_template i companyId s = (case findOwned i companyId s of
     Inl e \<Rightarrow> throw e s
   | Inr _ \<Rightarrow> update_template_row i (\<lambda>t. t\<lparr>te_archived := True\<rparr>) s)"

definition clone_template :: "ident \<Rightarrow> time \<Rightarrow> ident \<Rightarrow> ident \<Rightarrow> string option \<Rightarrow> template_db \<Rightarrow> (template_db, template_entry) outcome" where
  "clone_template i now src companyId name s = (case findOwned src companyId s of
     Inl e \<Rightarrow> throw e s
   | Inr t \<Rightarrow> create_template i now companyId
       ((te_content t)\<lparr>tc_name := or_else name (tc_name (te_content t) @ '' (copy)'')\<rparr>) s)"

record public_template =
  pt_id :: ident
  pt_content :: template_content
  pt_createdAt :: time

definition browsePublic :: "ident \<Rightarrow> template_db \<Rightarrow> public_template list" where
  "browsePublic companyId s = map (\<lambda>t. \<lparr>pt_id = te_id t, pt_content = te_content t, pt_createdAt = te_createdAt t\<rparr>)
     (rev (sort_key te_createdAt (filter (\<lambda>t. te_isPublic t \<and> \<not> te_archived t \<and> te_companyId t \<noteq> companyId) (td_templates s))))"

definition adopt_template :: "ident \<Rightarrow> time \<Rightarrow> ident \<Rightarrow> ident \<Rightarrow> string option \<Rightarrow> template_db \<Rightarrow> (template_db, template_entry) outcome" where
  "adopt_template i now src companyId name s = (case find_template src s of
     None \<Rightarrow> throw NotFoundException s
   | Some t \<Rightarrow>
       if \<not> te_isPublic t \<or> te_archived t then throw NotFoundException s
       else create_template i now companyId
         ((te_content t)\<lparr>tc_name := or_else name (tc_name (te_content t) @ '' (adopted)'')\<rparr>) s)"

definition getUsageStats :: "ident \<Rightarrow> ident \<Rightarrow> template_db \<Rightarrow> exn + (nat \<times> time option)" where
  "getUsageStats i companyId s = map_sum id (\<lambda>t. (te_usageCount t, te_lastUsedAt t)) (findOwned i companyId s)"

definition json_opt :: "string option \<Rightarrow> json" where
  "json_opt x = (case x of None \<Rightarrow> JNull | Some y \<Rightarrow> JStr y)"

definition exportTemplate :: "ident \<Rightarrow> ident \<Rightarrow> template_db \<Rightarrow> exn + json" where
  "exportTemplate i companyId s = (case findOwned i companyId s of
     Inl e \<Rightarrow> Inl e
   | Inr t \<Rightarrow> (let c = te_content t in Inr (JObj
       [(''name'', JStr (tc_name c)), (''jobTitle'', JStr (tc_jobTitle c)), (''jobDescription'', json_opt (tc_jobDescription c)),
        (''salaryRange'', json_opt (tc_salaryRange c)), (''location'', json_opt (tc_location c)),
        (''milestoneConfig'', tc_milestoneConfig c)])))"

text \<open>\<open>p?.key\<close>, \<open>undefined\<close> being \<open>None\<close>; and \<open>!value\<close>.\<close>

definition json_field :: "string \<Rightarrow> json \<Rightarrow> json option" where
  "json_field k j = (case j of JObj kvs \<Rightarrow> lookup kvs k | _ \<Rightarrow> None)"

definition json_truthy :: "json option \<Rightarrow> bool" where
  "json_truthy v = (case v of None \<Rightarrow> False | Some JNull \<Rightarrow> False | Some (JBool b) \<Rightarrow> b | Some (JNum x) \<Rightarrow> x \<noteq> 0
     | Some (JStr t) \<Rightarrow> t \<noteq> [] | Some _ \<Rightarrow> True)"

text \<open>The client of the database refuses a text column whose value is not a text (or null, where that is allowed).\<close>

definition text_column :: "json option \<Rightarrow> exn + string" where
  "text_column v = (case v of Some (JStr t) \<Rightarrow> Inr t | _ \<Rightarrow> Inl PlainError)"

definition optional_column :: "json option \<Rightarrow> exn + string option" where
  "optional_column v = (case v of None \<Rightarrow> Inr None | Some JNull \<Rightarrow> Inr None | Some (JStr t) \<Rightarrow> Inr (Some t) | _ \<Rightarrow> Inl PlainError)"

definition payload_content :: "json \<Rightarrow> exn + template_content" where
  "payload_content p = (case (text_column (json_field ''name'' p), text_column (json_field ''jobTitle'' p),
       optional_column (json_field ''jobDescription'' p), optional_column (json_field ''salaryRange'' p),
       optional_column (json_field ''location'' p)) of
     (Inr n, Inr j, Inr d, Inr r, Inr l) \<Rightarrow> Inr \<lparr>tc_name = n, tc_jobTitle = j, tc_jobDescription = d, tc_salaryRange = r,
        tc_location = l, tc_milestoneConfig = the (json_field ''milestoneConfig'' p)\<rparr>
   | _ \<Rightarrow> Inl PlainError)"

definition importTemplate :: "ident \<Rightarrow> time \<Rightarrow> ident \<Rightarrow> json \<Rightarrow> template_db \<Rightarrow> (template_db, template_entry) outcome" where
  "importTemplate i now companyId p s =
     (if \<not> json_truthy (json_field ''name'' p) \<or> \<not> json_truthy (json_field ''jobTitle'' p) \<or>
         \<not> json_truthy (json_field ''milestoneConfig'' p)
      then throw BadRequestException s
      else case payload_content p of Inl e \<Rightarrow> throw e s | Inr c \<Rightarrow> create_template i now companyId c s)"

text \<open>\<open>create\<close> of the engagements service counts the use of a template.\<close>

definition use_template :: "ident \<Rightarrow> time \<Rightarrow> template_db \<Rightarrow> (template_db, unit) outcome" where
  "use_template i now = update_template_row i (\<lambda>t. t\<lparr>te_usageCount := te_usageCount t + 1, te_lastUsedAt := Some now\<rparr>)"

section \<open>Runs\<close>

text \<open>A run keeps, beside the database, the updates that have read their template and not committed yet.\<close>

type_synonym template_state = "template_db \<times> (update_dto \<times> pending_update) list"

inductive template_step :: "template_state \<Rightarrow> template_state \<Rightarrow> bool" where
  created: "snd (create_template i t c dto s) = s' \<Longrightarrow> template_step (s, ps) (s', ps)"
| cloned: "snd (clone_template i t src c name s) = s' \<Longrightarrow> template_step (s, ps) (s', ps)"
| adopted: "snd (adopt_template i t src c name s) = s' \<Longrightarrow> template_step (s, ps) (s', ps)"
| imported: "snd (importTemplate i t c p s) = s' \<Longrightarrow> template_step (s, ps) (s', ps)"
| removed: "snd (remove_template i c s) = s' \<Longrightarrow> template_step (s, ps) (s', ps)"
| used: "snd (use_template i t s) = s' \<Longrightarrow> template_step (s, ps) (s', ps)"
| update_read: "prepare_update i c dto s = Inr p \<Longrightarrow> template_step (s, ps) (s, ps @ [(dto, p)])"
| update_written: "p \<in> set ps \<Longrightarrow> snd (commit_update (snd p) s) = s' \<Longrightarrow> template_step (s, ps) (s', remove1 p ps)"

abbreviation template_runs :: "template_state \<Rightarrow> template_state \<Rightarrow> bool" where
  "template_runs \<equiv> template_step\<^sup>*\<^sup>*"

definition versions_of :: "ident \<Rightarrow> template_db \<Rightarrow> version_entry list" where
  "versions_of i s = filter (\<lambda>v. ve_templateId v = i) (td_versions s)"

text \<open>A history is sound when its numbers are 1 to the current version and the last snapshot is what the template says.\<close>

definition sound_history :: "template_entry \<Rightarrow> version_entry list \<Rightarrow> bool" where
  "sound_history t vs \<longleftrightarrow> 1 \<le> te_currentVersion t \<and> map ve_version vs = [1..<te_currentVersion t + 1] \<and>
     ve_content (last vs) = te_content t"

text \<open>A pending update that can still be committed was merged into the content the template has.\<close>

definition pending_ok :: "template_db \<Rightarrow> update_dto \<times> pending_update \<Rightarrow> bool" where
  "pending_ok s p \<longleftrightarrow> (\<exists>t \<in> set (td_templates s). te_id t = pd_id (snd p) \<and> 1 \<le> pd_nextVersion (snd p) \<and>
     pd_nextVersion (snd p) \<le> te_currentVersion t + 1 \<and>
     (pd_nextVersion (snd p) = te_currentVersion t + 1 \<longrightarrow> pd_merged (snd p) = merge_update (fst p) (te_content t)))"

definition templates_inv :: "template_state \<Rightarrow> bool" where
  "templates_inv x \<longleftrightarrow> distinct (map te_id (td_templates (fst x))) \<and>
     (\<forall>v \<in> set (td_versions (fst x)). ve_templateId v \<in> te_id ` set (td_templates (fst x))) \<and>
     (\<forall>t \<in> set (td_templates (fst x)). sound_history t (versions_of (te_id t) (fst x))) \<and>
     (\<forall>p \<in> set (snd x). pending_ok (fst x) p)"

lemma find_template_Some:
  "find_template i s = Some t \<Longrightarrow> t \<in> set (td_templates s) \<and> te_id t = i"
  unfolding find_template_def by (auto dest: find_SomeD)

lemma find_template_None: "find_template i s = None \<longleftrightarrow> i \<notin> te_id ` set (td_templates s)"
  unfolding find_template_def by (auto simp: find_None)

lemma find_version_None: "find_version i n s = None \<longleftrightarrow> n \<notin> ve_version ` set (versions_of i s)"
  unfolding find_version_def versions_of_def by (auto simp: find_None)

lemma findOwned_Inr: "findOwned i c s = Inr t \<longleftrightarrow> find_template i s = Some t \<and> te_companyId t = c"
  by (auto simp: findOwned_def split: option.splits)

lemma versions_of_append: "versions_of i (s\<lparr>td_versions := td_versions s @ [v]\<rparr>) =
    versions_of i s @ (if ve_templateId v = i then [v] else [])"
  by (simp add: versions_of_def)

subsection \<open>Three ways the tables change\<close>

text \<open>A creation adds a template with its first version; an update one version; everything else a field no invariant reads.\<close>

definition created_as :: "ident \<Rightarrow> template_entry \<Rightarrow> template_db \<Rightarrow> template_db \<Rightarrow> bool" where
  "created_as i t s s' \<longleftrightarrow> find_template i s = None \<and> te_id t = i \<and> te_currentVersion t = 1 \<and>
     s' = s\<lparr>td_templates := td_templates s @ [t], td_versions := td_versions s @ [\<lparr>ve_templateId = i, ve_version = 1, ve_content = te_content t\<rparr>]\<rparr>"

lemma create_template_cases:
  assumes "create_template i now c dto s = (r, s')"
  shows "s' = s \<or> (\<exists>t. r = Inr t \<and> te_content t = dto \<and> te_companyId t = c \<and> created_as i t s s')"
proof -
  define t where "t = \<lparr>te_id = i, te_companyId = c, te_content = dto, te_currentVersion = 1, te_archived = False,
              te_usageCount = 0, te_lastUsedAt = None, te_isPublic = False, te_createdAt = now\<rparr>"
  from assms show ?thesis unfolding create_template_def Let_def t_def [symmetric] 
    by (cases "find_template i s") 
      (auto simp: transaction_def insert_template_def insert_version_def created_as_def t_def throw_def return_def split: if_splits)
qed

lemma commit_update_cases:
  "commit_update p s = (r, s') \<Longrightarrow>
   (\<exists>e. r = Inl e \<and> s' = s) \<or>
   (r = Inr () \<and> find_version (pd_id p) (pd_nextVersion p) s = None \<and> find_template (pd_id p) s \<noteq> None \<and>
    s' = s\<lparr>td_versions := td_versions s @ [\<lparr>ve_templateId = pd_id p, ve_version = pd_nextVersion p, ve_content = pd_merged p\<rparr>],
           td_templates := update_where (\<lambda>t. te_id t = pd_id p) (write_update p) (td_templates s)\<rparr>)"
  unfolding commit_update_def transaction_def insert_version_def update_template_row_def
  by (auto simp: find_template_def throw_def return_def split: if_splits)

text \<open>An update of a row that keeps identity, content and number.\<close>

definition harmless :: "(template_entry \<Rightarrow> template_entry) \<Rightarrow> bool" where
  "harmless f \<longleftrightarrow> (\<forall>t. te_id (f t) = te_id t \<and> te_content (f t) = te_content t \<and> te_currentVersion (f t) = te_currentVersion t)"

lemma inv_harmless:
  assumes "templates_inv (s, ps)" and "harmless f"
  shows "templates_inv (s\<lparr>td_templates := update_where q f (td_templates s)\<rparr>, ps)"
proof -
  let ?s = "s\<lparr>td_templates := update_where q f (td_templates s)\<rparr>"
  have k: "te_id (f t) = te_id t" "te_content (f t) = te_content t" "te_currentVersion (f t) = te_currentVersion t" for t
    using assms(2) by (simp_all add: harmless_def)
  have v: "versions_of i ?s = versions_of i s" for i by (simp add: versions_of_def)
  have ids: "te_id ` set (td_templates ?s) = te_id ` set (td_templates s)"
    using arg_cong [OF map_update_where_key [of te_id f q "td_templates s", OF k(1)], of set] by simp
  have "sound_history t (versions_of (te_id t) ?s)" if t_in: "t \<in> set (td_templates ?s)" for t
  proof -
    obtain u where u: "u \<in> set (td_templates s)" "t = (if q u then f u else u)" using t_in by (auto simp: set_update_where)
    then have "sound_history u (versions_of (te_id u) s)" using assms(1) by (simp add: templates_inv_def)
    with u(2) show ?thesis by (cases "q u") (simp_all add: v sound_history_def k)
  qed
  moreover have "pending_ok ?s p" if p: "p \<in> set ps" for p
  proof -
    obtain t where t: "t \<in> set (td_templates s)" "te_id t = pd_id (snd p)" "1 \<le> pd_nextVersion (snd p)"
       "pd_nextVersion (snd p) \<le> te_currentVersion t + 1"
       "pd_nextVersion (snd p) = te_currentVersion t + 1 \<longrightarrow> pd_merged (snd p) = merge_update (fst p) (te_content t)"
      using assms(1) p by (auto simp: templates_inv_def pending_ok_def)
    have "(if q t then f t else t) \<in> set (td_templates ?s)" using t(1) by (auto simp: set_update_where)
    with t show ?thesis unfolding pending_ok_def by (intro bexI [of _ "if q t then f t else t"]) (auto simp: k)
  qed
  moreover have "distinct (map te_id (td_templates ?s))"
    using assms(1) by (simp add: templates_inv_def map_update_where_key k)
  ultimately show ?thesis using assms(1) ids by (simp add: templates_inv_def)
qed

lemma inv_created:
  assumes "templates_inv (s, ps)" and "created_as i t s s'"
  shows "templates_inv (s', ps)"
proof -
  have new: "i \<notin> te_id ` set (td_templates s)" and t: "te_id t = i" "te_currentVersion t = 1"
    and s': "s' = s\<lparr>td_templates := td_templates s @ [t], td_versions := td_versions s @ [\<lparr>ve_templateId = i, ve_version = 1, ve_content = te_content t\<rparr>]\<rparr>"
    using assms(2) by (simp_all add: created_as_def find_template_None)
  have old: "versions_of j s' = versions_of j s" if "j \<noteq> i" for j using that by (simp add: s' versions_of_def)
  have "versions_of i s = []" using assms(1) new by (force simp: versions_of_def filter_empty_conv templates_inv_def)
  then have "versions_of i s' = [\<lparr>ve_templateId = i, ve_version = 1, ve_content = te_content t\<rparr>]" by (simp add: s' versions_of_def)
  then have "sound_history t (versions_of (te_id t) s')" by (simp add: sound_history_def t)
  moreover have "sound_history u (versions_of (te_id u) s')" if "u \<in> set (td_templates s)" for u
  proof -
    have "te_id u \<noteq> i" using that new by blast
    with that assms(1) old [of "te_id u"] show ?thesis by (auto simp: templates_inv_def)
  qed
  moreover have "pending_ok s' p" if "p \<in> set ps" for p
    using that assms(1) by (auto simp: templates_inv_def pending_ok_def s')
  ultimately show ?thesis using assms(1) new t by (auto simp: templates_inv_def s')
qed

lemma inv_committed:
  assumes "templates_inv (s, ps)" and p: "pending_ok s (dto, p)" and c: "commit_update p s = (Inr (), s')"
  shows "templates_inv (s', ps)" and "pd_merged p = merge_update dto (ve_content (last (versions_of (pd_id p) s)))"
    and "versions_of (pd_id p) s' = versions_of (pd_id p) s @ [\<lparr>ve_templateId = pd_id p, ve_version = pd_nextVersion p, ve_content = pd_merged p\<rparr>]"
proof -
  let ?i = "pd_id p" and ?v = "\<lparr>ve_templateId = pd_id p, ve_version = pd_nextVersion p, ve_content = pd_merged p\<rparr>"
  have free: "find_version ?i (pd_nextVersion p) s = None"
    and s': "s' = s\<lparr>td_versions := td_versions s @ [?v],
                    td_templates := update_where (\<lambda>t. te_id t = ?i) (write_update p) (td_templates s)\<rparr>"
    using commit_update_cases [OF c] by auto
  obtain t where t: "t \<in> set (td_templates s)" "te_id t = ?i" "1 \<le> pd_nextVersion p" "pd_nextVersion p \<le> te_currentVersion t + 1"
     "pd_nextVersion p = te_currentVersion t + 1 \<longrightarrow> pd_merged p = merge_update dto (te_content t)"
    using p by (auto simp: pending_ok_def)
  have h: "sound_history t (versions_of ?i s)" using assms(1) t by (auto simp: templates_inv_def)
  have "map ve_version (versions_of ?i s) = [1..<te_currentVersion t + 1]" using h unfolding sound_history_def by blast
  then have "ve_version ` set (versions_of ?i s) = {1..<te_currentVersion t + 1}" by (metis set_map set_upt)
  then have n: "pd_nextVersion p = te_currentVersion t + 1"
    using free t(3,4) by (auto simp: find_version_None)
  show "pd_merged p = merge_update dto (ve_content (last (versions_of ?i s)))"
    using t(5) n h by (simp add: sound_history_def)
  have v: "versions_of j s' = versions_of j s @ (if j = ?i then [?v] else [])" for j by (simp add: s' versions_of_def)
  then show "versions_of ?i s' = versions_of ?i s @ [?v]" by simp
  have id: "te_id (write_update p u) = te_id u" for u by (simp add: write_update_def)
  have ids: "te_id ` set (td_templates s') = te_id ` set (td_templates s)"
    using arg_cong [OF map_update_where_key [of te_id "write_update p" _ "td_templates s", OF id], of set] by (simp add: s')
  have "sound_history u (versions_of (te_id u) s')" if "u \<in> set (td_templates s')" for u
  proof -
    obtain w where w: "w \<in> set (td_templates s)" "u = (if te_id w = ?i then write_update p w else w)"
      using \<open>u \<in> set (td_templates s')\<close> by (auto simp: s' set_update_where)
    show ?thesis
    proof (cases "te_id w = ?i")
      case True
      with w t assms(1) have "w = t" by (auto simp: templates_inv_def distinct_map inj_on_def)
      with True w h n show ?thesis by (auto simp: v sound_history_def write_update_def)
    next
      case False
      with w assms(1) show ?thesis by (auto simp: v templates_inv_def)
    qed
  qed
  moreover have "pending_ok s' q" if "q \<in> set ps" for q
  proof -
    obtain u where u: "u \<in> set (td_templates s)" "te_id u = pd_id (snd q)" "1 \<le> pd_nextVersion (snd q)"
       "pd_nextVersion (snd q) \<le> te_currentVersion u + 1"
       "pd_nextVersion (snd q) = te_currentVersion u + 1 \<longrightarrow> pd_merged (snd q) = merge_update (fst q) (te_content u)"
      using assms(1) \<open>q \<in> set ps\<close> by (auto simp: templates_inv_def pending_ok_def)
    have m: "(if te_id u = ?i then write_update p u else u) \<in> set (td_templates s')" using u(1) by (auto simp: s' set_update_where)
    have "u = t" if "te_id u = ?i" using that u(1) t(1,2) assms(1) by (auto simp: templates_inv_def distinct_map inj_on_def)
    with m u n show ?thesis unfolding pending_ok_def
      by (intro bexI [OF _ m]) (auto simp: write_update_def)
  qed
  moreover have "distinct (map te_id (td_templates s'))" using assms(1) by (simp add: templates_inv_def s' map_update_where_key id)
  moreover have "?i \<in> te_id ` set (td_templates s)" using t(1,2) by (metis imageI)
  then have "\<forall>v \<in> set (td_versions s'). ve_templateId v \<in> te_id ` set (td_templates s')"
    using assms(1) unfolding ids by (simp add: templates_inv_def s')
  ultimately show "templates_inv (s', ps)" by (simp add: templates_inv_def)
qed

subsection \<open>Every step\<close>

lemma row_update_cases: "update_template_row i f s = (r, s') \<Longrightarrow>
    s' = s \<or> s' = s\<lparr>td_templates := update_where (\<lambda>t. te_id t = i) f (td_templates s)\<rparr>"
  by (auto simp: update_template_row_def split: if_splits)

lemma removed_cases: "snd (remove_template i c s) = s' \<Longrightarrow>
    s' = s \<or> s' = s\<lparr>td_templates := update_where (\<lambda>t. te_id t = i) (\<lambda>t. t\<lparr>te_archived := True\<rparr>) (td_templates s)\<rparr>"
  by (auto simp: remove_template_def update_template_row_def split: sum.splits if_splits)

lemma used_cases: "snd (use_template i now s) = s' \<Longrightarrow> s' = s \<or>
    s' = s\<lparr>td_templates := update_where (\<lambda>t. te_id t = i)
       (\<lambda>t. t\<lparr>te_usageCount := te_usageCount t + 1, te_lastUsedAt := Some now\<rparr>) (td_templates s)\<rparr>"
  by (auto simp: use_template_def update_template_row_def split: if_splits)

text \<open>All four ways to create a template come down to the same two rows.\<close>

lemma creation_cases: "snd (create_template i now c dto s) = s' \<Longrightarrow> s' = s \<or> (\<exists>t. created_as i t s s')"
  by (cases "create_template i now c dto s") (auto dest: create_template_cases)

lemma copy_cases:
  "snd (clone_template i now src c name s) = s' \<Longrightarrow> s' = s \<or> (\<exists>t. created_as i t s s')"
  "snd (adopt_template i now src c name s) = s' \<Longrightarrow> s' = s \<or> (\<exists>t. created_as i t s s')"
  "snd (importTemplate i now c p s) = s' \<Longrightarrow> s' = s \<or> (\<exists>t. created_as i t s s')"
  by (auto simp: clone_template_def adopt_template_def importTemplate_def split: sum.splits option.splits if_splits)
    (use creation_cases [OF refl] in blast)+

lemma prepared_ok:
  assumes "templates_inv (s, ps)" and "prepare_update i c dto s = Inr p"
  shows "pending_ok s (dto, p)"
proof -
  obtain t where "findOwned i c s = Inr t" and p: "pd_id p = i" "pd_merged p = merge_update dto (te_content t)" "pd_nextVersion p = te_currentVersion t + 1"
    using assms(2) by (auto simp: prepare_update_def split: sum.splits)
  then have "t \<in> set (td_templates s)" "te_id t = i" using find_template_Some by (auto simp: findOwned_Inr)
  with p show ?thesis unfolding pending_ok_def by (intro bexI [of _ t]) simp_all
qed

text \<open>What a step does to the histories: it leaves them alone, starts one, or adds to one the snapshot of an update.\<close>

lemma step_keeps:
  assumes "template_step x y" and "templates_inv x"
  shows "templates_inv y \<and> (\<forall>i. \<exists>more. versions_of i (fst y) = versions_of i (fst x) @ more)"
proof -
  have same: "versions_of i (s\<lparr>td_templates := ts\<rparr>) = versions_of i s" for i ts s by (simp add: versions_of_def)
  have grows: "\<exists>more. versions_of j s' = versions_of j s @ more" if "created_as i t s s'" for i t s s' j
    using that by (auto simp: created_as_def versions_of_def)
  have created_keep: "templates_inv (s', ps) \<and> (\<forall>i. \<exists>more. versions_of i s' = versions_of i s @ more)"
    if "templates_inv (s, ps)" "s' = s \<or> (\<exists>t. created_as i t s s')" for i s s' ps
    using that inv_created grows by blast
  show ?thesis using assms
  proof cases
    case (removed i c s s' ps)
    then show ?thesis using removed_cases [OF removed(3)] inv_harmless assms(2) by (auto simp: harmless_def same)
  next
    case (used i t s s' ps)
    then show ?thesis using used_cases [OF used(3)] inv_harmless assms(2) by (auto simp: harmless_def same)
  next
    case (update_read i c dto s p ps)
    then show ?thesis using assms(2) prepared_ok [of s ps i c dto p] by (auto simp: templates_inv_def)
  next
    case (update_written p ps s s')
    have inv: "templates_inv (s, remove1 p ps)" using assms(2) update_written(1) by (auto simp: templates_inv_def dest: set_remove1_subset [THEN subsetD])
    have ok: "pending_ok s (fst p, snd p)" using assms(2) update_written by (auto simp: templates_inv_def)
    obtain r where r: "commit_update (snd p) s = (r, s')" using update_written(4) by (cases "commit_update (snd p) s") auto
    from commit_update_cases [OF r] show ?thesis
    proof (elim disjE exE conjE)
      assume "s' = s" then show ?thesis using inv update_written by simp
    next
      assume "r = Inr ()"
      with r have c: "commit_update (snd p) s = (Inr (), s')" by simp
      have "\<exists>more. versions_of j s' = versions_of j s @ more" for j
        using commit_update_cases [OF c] by (auto simp: versions_of_def)
      with inv_committed(1) [OF inv ok c] update_written show ?thesis by simp
    qed
  next
    case (created i t c dto s s' ps)
    with created_keep [of s ps s' i] creation_cases [OF created(3)] assms(2) show ?thesis by simp
  next
    case (cloned i t src c name s s' ps)
    with created_keep [of s ps s' i] copy_cases(1) [OF cloned(3)] assms(2) show ?thesis by simp
  next
    case (adopted i t src c name s s' ps)
    with created_keep [of s ps s' i] copy_cases(2) [OF adopted(3)] assms(2) show ?thesis by simp
  next
    case (imported i t c p s s' ps)
    with created_keep [of s ps s' i] copy_cases(3) [OF imported(3)] assms(2) show ?thesis by simp
  qed
qed

lemma runs_keep:
  assumes "template_runs x y" and "templates_inv x"
  shows "templates_inv y \<and> (\<forall>i. \<exists>more. versions_of i (fst y) = versions_of i (fst x) @ more)"
  using assms
proof (induction rule: rtranclp_induct)
  case (step y z)
  from step_keeps [OF step(2)] step(3,4) show ?case by (metis append_assoc)
qed simp

section \<open>The history of a template\<close>

lemma find_version_filter: "find_version i n s = List.find (\<lambda>v. ve_version v = n) (versions_of i s)"
proof -
  have "List.find (\<lambda>v. P v \<and> Q v) vs = List.find Q (filter P vs)" for P Q and vs :: "version_entry list"
    by (induction vs) auto
  then show ?thesis by (simp add: find_version_def versions_of_def)
qed

lemma sound_history_last:
  assumes "sound_history t vs"
  shows "vs \<noteq> []" and "length vs = te_currentVersion t"
    and "List.find (\<lambda>v. ve_version v = te_currentVersion t) vs = Some (last vs)"
proof -
  have m: "map ve_version vs = [1..<te_currentVersion t + 1]" and n: "1 \<le> te_currentVersion t"
    using assms by (auto simp: sound_history_def)
  show l: "length vs = te_currentVersion t" using arg_cong [OF m, of length] by simp
  with n show ne: "vs \<noteq> []" by auto
  have "ve_version (last vs) = last (map ve_version vs)" using ne by (simp add: last_map)
  also have "\<dots> = te_currentVersion t" unfolding m using n by simp
  finally have "ve_version (last vs) = te_currentVersion t" .
  moreover have "distinct (map ve_version vs)" unfolding m by (rule distinct_upt)
  ultimately show "List.find (\<lambda>v. ve_version v = te_currentVersion t) vs = Some (last vs)"
    using ne by (intro find_key_unique) simp_all
qed

text \<open>A pending update either finds its number taken, and changes nothing, or goes on from the last snapshot.\<close>

definition next_snapshot :: "update_dto \<Rightarrow> ident \<Rightarrow> template_db \<Rightarrow> version_entry" where
  "next_snapshot dto i s = \<lparr>ve_templateId = i, ve_version = length (versions_of i s) + 1,
     ve_content = merge_update dto (ve_content (last (versions_of i s)))\<rparr>"

lemma pending_commits:
  assumes inv: "templates_inv (s, ps)" and p: "pending_ok s (dto, p)" and c: "commit_update p s = (r, s')"
  shows "case r of Inl e \<Rightarrow> e = UniqueViolation \<and> s' = s
    | Inr _ \<Rightarrow> versions_of (pd_id p) s' = versions_of (pd_id p) s @ [next_snapshot dto (pd_id p) s]"
proof (cases r)
  case (Inl e)
  obtain t where "t \<in> set (td_templates s)" "te_id t = pd_id p" using p by (auto simp: pending_ok_def)
  then have "find_template (pd_id p) s \<noteq> None" unfolding find_template_None by (metis imageI)
  then show ?thesis using c Inl
    by (auto simp: commit_update_def transaction_def insert_version_def update_template_row_def throw_def return_def find_template_def
        split: if_splits)
next
  case (Inr x)
  then have c': "commit_update p s = (Inr (), s')" using c by simp
  obtain t where t: "t \<in> set (td_templates s)" "te_id t = pd_id p" "1 \<le> pd_nextVersion p" "pd_nextVersion p \<le> te_currentVersion t + 1"
    using p by (auto simp: pending_ok_def)
  then have h: "sound_history t (versions_of (pd_id p) s)" using inv by (auto simp: templates_inv_def)
  have "find_version (pd_id p) (pd_nextVersion p) s = None" using commit_update_cases [OF c'] by simp
  moreover have "map ve_version (versions_of (pd_id p) s) = [1..<te_currentVersion t + 1]" using h unfolding sound_history_def by blast
  then have "ve_version ` set (versions_of (pd_id p) s) = {1..<te_currentVersion t + 1}" by (metis set_map set_upt)
  ultimately have "pd_nextVersion p = te_currentVersion t + 1" using t(3,4) by (auto simp: find_version_None)
  with sound_history_last(2) [OF h] inv_committed(2,3) [OF inv p c'] Inr show ?thesis by (simp add: next_snapshot_def)
qed

definition no_templates :: template_state where
  "no_templates = (\<lparr>td_templates = [], td_versions = []\<rparr>, [])"

text \<open>
  C39. However creations, copies, updates and removals interleave, the snapshots of a template are numbered 1 to its
  current version, the current one (which \<open>create\<close> of an engagement looks up) has the template's content, and no
  snapshot is ever changed or removed; an update in progress either fails because another took its number, and
  changes nothing, or adds one snapshot, the last one with the fields of its request replaced: no update is lost.
\<close>
theorem template_history_is_sound:
  assumes "template_runs no_templates (s, ps)" and "find_template i s = Some t"
  shows "map ve_version (versions_of i s) = [1..<te_currentVersion t + 1] \<and>
    map_option ve_content (find_version i (te_currentVersion t) s) = Some (te_content t) \<and>
    list_all (\<lambda>(dto, p). case commit_update p s of
        (Inl e, s') \<Rightarrow> e = UniqueViolation \<and> s' = s
      | (Inr _, s') \<Rightarrow> versions_of (pd_id p) s' = versions_of (pd_id p) s @ [next_snapshot dto (pd_id p) s]) ps \<and>
    \<not> (\<exists>s' ps'. template_runs (s, ps) (s', ps') \<and> take (length (versions_of i s)) (versions_of i s') \<noteq> versions_of i s)"
proof -
  have inv: "templates_inv (s, ps)" using runs_keep [OF assms(1)] by (simp add: no_templates_def templates_inv_def)
  have t: "t \<in> set (td_templates s)" "te_id t = i" using find_template_Some [OF assms(2)] by auto
  then have h: "sound_history t (versions_of i s)" using inv by (auto simp: templates_inv_def)
  have "map_option ve_content (find_version i (te_currentVersion t) s) = Some (te_content t)"
    using sound_history_last(3) [OF h] h by (simp add: find_version_filter sound_history_def)
  moreover have "list_all (\<lambda>(dto, p). case commit_update p s of
        (Inl e, s') \<Rightarrow> e = UniqueViolation \<and> s' = s
      | (Inr _, s') \<Rightarrow> versions_of (pd_id p) s' = versions_of (pd_id p) s @ [next_snapshot dto (pd_id p) s]) ps"
    unfolding list_all_iff
  proof
    fix q assume q: "q \<in> set ps"
    obtain dto p where qq: "q = (dto, p)" by (cases q)
    obtain r s' where c: "commit_update p s = (r, s')" by (cases "commit_update p s")
    have ok: "pending_ok s (dto, p)" using inv q qq by (auto simp: templates_inv_def)
    show "case q of (dto, p) \<Rightarrow> case commit_update p s of
        (Inl e, s') \<Rightarrow> e = UniqueViolation \<and> s' = s
      | (Inr _, s') \<Rightarrow> versions_of (pd_id p) s' = versions_of (pd_id p) s @ [next_snapshot dto (pd_id p) s]"
      using pending_commits [OF inv ok c] c qq by (cases r) auto
  qed
  moreover have "take (length (versions_of i s)) (versions_of i s') = versions_of i s" if "template_runs (s, ps) (s', ps')" for s' ps'
    using runs_keep [OF that inv] by (metis append_eq_conv_conj fst_conv)
  ultimately show ?thesis using h by (auto simp: sound_history_def)
qed

section \<open>A concrete history\<close>

definition content1 :: template_content where
  "content1 = \<lparr>tc_name = ''Standard'', tc_jobTitle = ''Engineer'', tc_jobDescription = None, tc_salaryRange = None,
     tc_location = Some ''Remote'', tc_milestoneConfig = JObj [(''retentionDays'', JArr [JNum 90])]\<rparr>"

definition rename1 :: "string \<Rightarrow> update_dto" where
  "rename1 n = \<lparr>ud_name = Some n, ud_jobTitle = None, ud_jobDescription = None, ud_salaryRange = None, ud_location = None,
     ud_milestoneConfig = None, ud_isPublic = None\<rparr>"

definition db1 :: template_db where
  "db1 = snd (create_template ''t1'' 0 ''c1'' content1 (fst no_templates))"

definition pending1 :: "string \<Rightarrow> pending_update" where
  "pending1 n = \<lparr>pd_id = ''t1'', pd_merged = merge_update (rename1 n) content1, pd_nextVersion = 2, pd_isPublic = False\<rparr>"

definition db2 :: template_db where
  "db2 = snd (commit_update (pending1 ''A'') db1)"

lemma db1_eq: "db1 = \<lparr>td_templates = [\<lparr>te_id = ''t1'', te_companyId = ''c1'', te_content = content1, te_currentVersion = 1,
     te_archived = False, te_usageCount = 0, te_lastUsedAt = None, te_isPublic = False, te_createdAt = 0\<rparr>],
   td_versions = [\<lparr>ve_templateId = ''t1'', ve_version = 1, ve_content = content1\<rparr>]\<rparr>"
  by (simp add: db1_def create_template_def insert_template_def insert_version_def find_template_def find_version_def
      no_templates_def transaction_def return_def Let_def)

lemma db2_run: "template_runs no_templates (db2, [(rename1 ''B'', pending1 ''B'')])"
proof -
  have 1: "template_step no_templates (db1, [])"
    unfolding no_templates_def by (rule template_step.created) (simp add: db1_def no_templates_def)
  have r: "prepare_update ''t1'' ''c1'' (rename1 n) db1 = Inr (pending1 n)" for n
    by (simp add: prepare_update_def findOwned_def find_template_def db1_eq pending1_def or_else_def rename1_def)
  have 2: "template_step (db1, []) (db1, [(rename1 ''A'', pending1 ''A'')])"
    using template_step.update_read [OF r, of "[]"] by simp
  have 3: "template_step (db1, [(rename1 ''A'', pending1 ''A'')]) (db1, [(rename1 ''A'', pending1 ''A''), (rename1 ''B'', pending1 ''B'')])"
    using template_step.update_read [OF r, of "[(rename1 ''A'', pending1 ''A'')]"] by simp
  have 4: "template_step (db1, [(rename1 ''A'', pending1 ''A''), (rename1 ''B'', pending1 ''B'')]) (db2, [(rename1 ''B'', pending1 ''B'')])"
    using template_step.update_written [of "(rename1 ''A'', pending1 ''A'')" "[(rename1 ''A'', pending1 ''A''), (rename1 ''B'', pending1 ''B'')]" db1 db2]
    by (simp add: db2_def)
  from 1 2 3 4 show ?thesis by (meson rtranclp.rtrancl_refl rtranclp.rtrancl_into_rtrancl)
qed

text \<open>Two renamings race: the second to be written is refused.\<close>

theorem template_history_is_sound_witness:
  "fst (commit_update (pending1 ''B'') db2) = Inl UniqueViolation \<and> map ve_version (versions_of ''t1'' db2) = [1, 2]"
proof -
  obtain t where t: "find_template ''t1'' db2 = Some t" "te_currentVersion t = 2"
    by (simp add: db2_def commit_update_def insert_version_def update_template_row_def find_version_def find_template_def db1_eq
        pending1_def transaction_def return_def write_update_def)
  note th = template_history_is_sound [OF db2_run t(1)]
  have "map ve_version (versions_of ''t1'' db2) = [1..<2 + 1]" using th t(2) by simp
  moreover have "fst (commit_update (pending1 ''B'') db2) = Inl UniqueViolation"
  proof -
    have "fst (commit_update (pending1 ''B'') db2) \<noteq> Inr ()"
      by (simp add: db2_def commit_update_def insert_version_def update_template_row_def find_version_def find_template_def db1_eq
        pending1_def transaction_def return_def throw_def write_update_def)
    then show ?thesis using th by (cases "commit_update (pending1 ''B'') db2"; cases "fst (commit_update (pending1 ''B'') db2)") auto
  qed
  ultimately show ?thesis by (simp add: upt_rec)
qed

section \<open>Who sees a template\<close>

text \<open>Every operation on a template by its id is refused to other companies; only a public one that is not archived can be adopted.\<close>

lemma foreign_template_refused:
  assumes "findOwned i c s = Inl e"
  shows "update_template i c dto s = (Inl e, s)" "remove_template i c s = (Inl e, s)" "clone_template j now i c n s = (Inl e, s)"
    "findVersions i c s = Inl e" "getUsageStats i c s = Inl e" "exportTemplate i c s = Inl e"
  using assms by (simp_all add: update_template_def prepare_update_def remove_template_def clone_template_def findVersions_def
      getUsageStats_def exportTemplate_def)

lemma only_public_adopted:
  assumes "adopt_template j now i c n s = (Inr t, s')"
  shows "\<exists>u. find_template i s = Some u \<and> te_isPublic u \<and> \<not> te_archived u \<and> te_companyId t = c"
proof -
  obtain u where u: "find_template i s = Some u" "te_isPublic u" "\<not> te_archived u"
      "create_template j now c ((te_content u)\<lparr>tc_name := or_else n (tc_name (te_content u) @ '' (adopted)'')\<rparr>) s = (Inr t, s')"
    using assms by (auto simp: adopt_template_def split: option.splits if_splits)
  moreover have "te_companyId t = c"
    using u(4) by (auto simp: create_template_def transaction_def insert_template_def insert_version_def throw_def return_def Let_def
        split: if_splits)
  ultimately show ?thesis by blast
qed

text \<open>An exported template can be imported again and is then the same, if it has a name, a title and a configuration.\<close>

lemma export_import_round_trip:
  assumes "exportTemplate i c s = Inr p" and "find_template i s = Some t" and "find_template j s' = None"
    and "tc_name (te_content t) \<noteq> []" "tc_jobTitle (te_content t) \<noteq> []" "json_truthy (Some (tc_milestoneConfig (te_content t)))"
    and "versions_of j s' = []"
  shows "\<exists>u s''. importTemplate j now c' p s' = (Inr u, s'') \<and> te_content u = te_content t"
proof -
  let ?c = "te_content t"
  have p: "p = JObj [(''name'', JStr (tc_name ?c)), (''jobTitle'', JStr (tc_jobTitle ?c)), (''jobDescription'', json_opt (tc_jobDescription ?c)),
        (''salaryRange'', json_opt (tc_salaryRange ?c)), (''location'', json_opt (tc_location ?c)),
        (''milestoneConfig'', tc_milestoneConfig ?c)]"
    using assms(1,2) by (auto simp: exportTemplate_def findOwned_def Let_def split: if_splits)
  have o: "optional_column (Some (json_opt x)) = Inr x" for x by (cases x) (simp_all add: optional_column_def json_opt_def)
  have "payload_content p = Inr ?c" by (simp add: p payload_content_def json_field_def text_column_def o)
  moreover have "json_truthy (json_field ''name'' p)" "json_truthy (json_field ''jobTitle'' p)" "json_truthy (json_field ''milestoneConfig'' p)"
    using assms(4-6) by (simp_all add: p json_field_def json_truthy_def)
  moreover have "find_version j 1 s' = None" using assms(7) by (simp add: find_version_filter)
  ultimately show ?thesis using assms(3)
    by (auto simp: importTemplate_def create_template_def transaction_def insert_template_def insert_version_def Let_def return_def
        find_version_def)
qed

end
