(* ===== verification/AuditExport.thy ===== *)
theory AuditExport
  imports Csv JsText "HOL-Library.Multiset"
begin

text \<open>
  The audit trail for administrators, \<^verbatim>\<open>modules/admin/admin-audit-logs.service.ts\<close>: three tables shown as one list, and
  exported as CSV by a merge of three sources that are read in batches.
\<close>

section \<open>Rows\<close>

record audit_log =
  al_id :: ident
  al_entityType :: string
  al_entityId :: string
  al_action :: string
  al_oldValue :: "string option"
  al_newValue :: string
  al_reason :: string
  al_changedBy :: ident
  al_createdAt :: time

record engagement_log =
  gl_id :: ident
  gl_engagementId :: ident
  gl_fromStatus :: string
  gl_toStatus :: string
  gl_changedBy :: ident
  gl_reason :: "string option"
  gl_createdAt :: time

record milestone_log =
  ml_id :: ident
  ml_milestoneId :: ident
  ml_fromStatus :: string
  ml_toStatus :: string
  ml_changedBy :: ident
  ml_createdAt :: time

record audit_db =
  auditLogs :: "audit_log list"
  engagementAuditLogs :: "engagement_log list"
  milestoneAuditLogs :: "milestone_log list"

datatype any_log = GeneralLog audit_log | EngagementLog engagement_log | MilestoneLog milestone_log

fun log_id :: "any_log \<Rightarrow> ident" where
  "log_id (GeneralLog l) = al_id l"
| "log_id (EngagementLog l) = gl_id l"
| "log_id (MilestoneLog l) = ml_id l"

fun log_createdAt :: "any_log \<Rightarrow> time" where
  "log_createdAt (GeneralLog l) = al_createdAt l"
| "log_createdAt (EngagementLog l) = gl_createdAt l"
| "log_createdAt (MilestoneLog l) = ml_createdAt l"

text \<open>\<open>isoText\<close> is \<open>toISOString\<close>; \<open>parseDate\<close> the \<open>Date\<close> constructor, \<open>None\<close> an invalid date.\<close>

record audit_env =
  isoText :: "time \<Rightarrow> string"
  parseDate :: "string \<Rightarrow> time option"

definition status_change :: "string \<Rightarrow> string \<Rightarrow> string" where
  "status_change f t = ''STATUS_CHANGE: '' @ f @ '' -> '' @ t"

section \<open>The list\<close>

record unified_log =
  un_id :: ident
  un_type :: string
  un_actorId :: ident
  un_action :: string
  un_entityType :: string
  un_entityId :: string
  un_oldValue :: "string option"
  un_newValue :: string
  un_reason :: "string option"
  un_createdAt :: time

fun unified :: "any_log \<Rightarrow> unified_log" where
  "unified (GeneralLog l) = \<lparr>un_id = al_id l, un_type = ''AuditLog'', un_actorId = al_changedBy l, un_action = al_action l,
     un_entityType = al_entityType l, un_entityId = al_entityId l, un_oldValue = al_oldValue l, un_newValue = al_newValue l,
     un_reason = Some (al_reason l), un_createdAt = al_createdAt l\<rparr>"
| "unified (EngagementLog l) = \<lparr>un_id = gl_id l, un_type = ''EngagementAuditLog'', un_actorId = gl_changedBy l,
     un_action = status_change (gl_fromStatus l) (gl_toStatus l), un_entityType = ''Engagement'', un_entityId = gl_engagementId l,
     un_oldValue = Some (gl_fromStatus l), un_newValue = gl_toStatus l, un_reason = gl_reason l, un_createdAt = gl_createdAt l\<rparr>"
| "unified (MilestoneLog l) = \<lparr>un_id = ml_id l, un_type = ''MilestoneAuditLog'', un_actorId = ml_changedBy l,
     un_action = status_change (ml_fromStatus l) (ml_toStatus l), un_entityType = ''Milestone'', un_entityId = ml_milestoneId l,
     un_oldValue = Some (ml_fromStatus l), un_newValue = ml_toStatus l, un_reason = None, un_createdAt = ml_createdAt l\<rparr>"

record audit_query =
  aq_actorId :: "string option"
  aq_action :: "string option"
  aq_entityType :: "string option"
  aq_from :: "string option"
  aq_to :: "string option"

definition window_of :: "nat \<Rightarrow> nat \<Rightarrow> 'a list \<Rightarrow> 'a list" where
  "window_of skip limit xs = take limit (drop skip xs)"

text \<open>One bound of the date filter: absent, or a date, or an invalid date, which the database client refuses.\<close>

definition date_bound :: "audit_env \<Rightarrow> string option \<Rightarrow> exn + time option" where
  "date_bound w x = (if \<not> truthy x then Inr None else case parseDate w (the x) of None \<Rightarrow> Inl PlainError | Some t \<Rightarrow> Inr (Some t))"

definition asked :: "string option \<Rightarrow> string \<Rightarrow> bool" where
  "asked x v \<longleftrightarrow> truthy x \<longrightarrow> x = Some v"

definition in_dates :: "time option \<Rightarrow> time option \<Rightarrow> time \<Rightarrow> bool" where
  "in_dates f t x \<longleftrightarrow> (\<forall>y. f = Some y \<longrightarrow> y \<le> x) \<and> (\<forall>y. t = Some y \<longrightarrow> x \<le> y)"

definition logs_newest_first :: "any_log list \<Rightarrow> any_log list" where
  "logs_newest_first ls = sort_key (\<lambda>l. - log_createdAt l) ls"

text \<open>What the three queries select; the second compares the requested entity type with the engagement's id.\<close>

definition matching_logs :: "audit_query \<Rightarrow> time option \<Rightarrow> time option \<Rightarrow> audit_db \<Rightarrow> any_log list list" where
  "matching_logs q f t s =
     [map GeneralLog (filter (\<lambda>l. asked (aq_actorId q) (al_changedBy l) \<and> asked (aq_action q) (al_action l) \<and> in_dates f t (al_createdAt l)) (auditLogs s)),
      map EngagementLog (filter (\<lambda>l. asked (aq_actorId q) (gl_changedBy l) \<and> asked (aq_entityType q) (gl_engagementId l) \<and>
          in_dates f t (gl_createdAt l)) (engagementAuditLogs s)),
      map MilestoneLog (filter (\<lambda>l. asked (aq_actorId q) (ml_changedBy l) \<and> in_dates f t (ml_createdAt l)) (milestoneAuditLogs s))]"

record audit_page =
  ap_logs :: "unified_log list"
  ap_total :: nat
  ap_totalPages :: nat

definition count_pages :: "nat \<Rightarrow> nat \<Rightarrow> nat" where
  "count_pages a b = (a + b - 1) div b"

definition queryAuditLogs :: "audit_env \<Rightarrow> audit_query \<Rightarrow> nat \<Rightarrow> nat \<Rightarrow> audit_db \<Rightarrow> exn + audit_page" where
  "queryAuditLogs w q page limit s = (case (date_bound w (aq_from q), date_bound w (aq_to q)) of
     (Inr f, Inr t) \<Rightarrow>
       (let skip = (page - 1) * limit;
            ls = logs_newest_first (concat (map (\<lambda>m. window_of skip limit (logs_newest_first m)) (matching_logs q f t s)))
        in Inr \<lparr>ap_logs = map unified (window_of skip limit ls), ap_total = length ls, ap_totalPages = count_pages (length ls) limit\<rparr>)
   | _ \<Rightarrow> Inl PlainError)"

section \<open>The export\<close>

definition AUDIT_EXPORT_BATCH_SIZE :: nat where "AUDIT_EXPORT_BATCH_SIZE = 500"

text \<open>
  What a source selects, in the order of the database: by time, rows of the same time in some order, which is
  the order of the table here.
\<close>

definition export_source :: "time \<Rightarrow> time \<Rightarrow> any_log list \<Rightarrow> any_log list" where
  "export_source f t ls = sort_key log_createdAt (filter (\<lambda>l. f \<le> log_createdAt l \<and> log_createdAt l \<le> t) ls)"

text \<open>\<open>fetch(cursor)\<close>: the next batch, starting behind the row the cursor names.\<close>

definition fetch_batch :: "any_log list \<Rightarrow> ident option \<Rightarrow> any_log list" where
  "fetch_batch tab cursor = take AUDIT_EXPORT_BATCH_SIZE
     (if truthy cursor then tl (dropWhile (\<lambda>l. log_id l \<noteq> the cursor) tab) else tab)"

record export_cursor =
  ec_rows :: "any_log list"
  ec_index :: nat
  ec_cursor :: "ident option"
  ec_done :: bool

definition open_source :: "any_log list \<Rightarrow> export_cursor" where
  "open_source tab = (let rows = fetch_batch tab None in \<lparr>ec_rows = rows, ec_index = 0, ec_cursor = None, ec_done = (rows = [])\<rparr>)"

definition current_row :: "export_cursor \<Rightarrow> any_log option" where
  "current_row c = (if ec_index c < length (ec_rows c) then Some (ec_rows c ! ec_index c) else None)"

definition goes_first :: "any_log \<Rightarrow> any_log \<Rightarrow> bool" where
  "goes_first r sel \<longleftrightarrow> log_createdAt r < log_createdAt sel \<or> log_createdAt r = log_createdAt sel \<and> js_less (log_id r) (log_id sel)"

text \<open>The \<open>for\<close> loop over the sources; \<open>best\<close> is the source selected so far.\<close>

fun select_source :: "export_cursor list \<Rightarrow> nat option \<Rightarrow> nat list \<Rightarrow> nat option" where
  "select_source cs best [] = best"
| "select_source cs best (i # is) = select_source cs
     (case current_row (cs ! i) of None \<Rightarrow> best
      | Some r \<Rightarrow> (case best of None \<Rightarrow> Some i
          | Some j \<Rightarrow> (case current_row (cs ! j) of None \<Rightarrow> Some i
              | Some sel \<Rightarrow> if goes_first r sel then Some i else best))) is"

definition advance_source :: "any_log list \<Rightarrow> export_cursor \<Rightarrow> export_cursor" where
  "advance_source tab c =
     (let row = ec_rows c ! ec_index c; c1 = c\<lparr>ec_index := ec_index c + 1\<rparr>
      in if ec_index c1 = length (ec_rows c1)
         then let rows = fetch_batch tab (Some (log_id row))
              in c1\<lparr>ec_cursor := Some (log_id row), ec_rows := rows, ec_index := 0, ec_done := (if rows = [] then True else ec_done c1)\<rparr>
         else c1)"

text \<open>The rows in the order in which they are written.\<close>

partial_function (option) export_loop :: "any_log list list \<Rightarrow> export_cursor list \<Rightarrow> any_log list \<Rightarrow> any_log list option" where
  "export_loop tabs cs out =
     (if list_all ec_done cs then Some out
      else (case select_source cs None [0..<length cs] of
         None \<Rightarrow> Some out
       | Some i \<Rightarrow> export_loop tabs (cs[i := advance_source (tabs ! i) (cs ! i)]) (out @ [ec_rows (cs ! i) ! ec_index (cs ! i)])))"

fun audit_cells :: "audit_env \<Rightarrow> any_log \<Rightarrow> string option list" where
  "audit_cells w (GeneralLog l) = [Some (al_id l), Some ''AuditLog'', Some (al_entityType l), Some (al_entityId l), Some (al_action l),
     al_oldValue l, Some (al_newValue l), Some (al_reason l), Some (al_changedBy l), Some (isoText w (al_createdAt l))]"
| "audit_cells w (EngagementLog l) = [Some (gl_id l), Some ''EngagementAuditLog'', Some ''Engagement'', Some (gl_engagementId l),
     Some (status_change (gl_fromStatus l) (gl_toStatus l)), Some (gl_fromStatus l), Some (gl_toStatus l), gl_reason l,
     Some (gl_changedBy l), Some (isoText w (gl_createdAt l))]"
| "audit_cells w (MilestoneLog l) = [Some (ml_id l), Some ''MilestoneAuditLog'', Some ''Milestone'', Some (ml_milestoneId l),
     Some (status_change (ml_fromStatus l) (ml_toStatus l)), Some (ml_fromStatus l), Some (ml_toStatus l), None,
     Some (ml_changedBy l), Some (isoText w (ml_createdAt l))]"

text \<open>The cells are quoted as the billing exports quote theirs.\<close>

definition auditCsvRow :: "string option list \<Rightarrow> string" where
  "auditCsvRow cells = buildCsvRow cells @ [newline]"

definition audit_header :: string where
  "audit_header = ''id,type,entityType,entityId,action,oldValue,newValue,reason,changedBy,createdAt'' @ [newline]"

definition audit_tables :: "audit_db \<Rightarrow> any_log list list" where
  "audit_tables s = [map GeneralLog (auditLogs s), map EngagementLog (engagementAuditLogs s), map MilestoneLog (milestoneAuditLogs s)]"

text \<open>The chunks written to the response; \<open>None\<close> stands for a loop that does not end.\<close>

definition streamAuditLogCsv :: "audit_env \<Rightarrow> string \<Rightarrow> string \<Rightarrow> audit_db \<Rightarrow> exn + string list option" where
  "streamAuditLogCsv w from to s = (case (parseDate w from, parseDate w to) of
     (Some f, Some t) \<Rightarrow>
       if t < f then Inl BadRequestException
       else (let tabs = map (export_source f t) (audit_tables s)
             in Inr (map_option (\<lambda>rows. audit_header # map (\<lambda>l. auditCsvRow (audit_cells w l)) rows)
                  (export_loop tabs (map open_source tabs) [])))
   | _ \<Rightarrow> Inl BadRequestException)"

section \<open>Pages of the list\<close>

text \<open>
  The offset is applied to each query and again to the merged rows, of which there are at most three pages:
  no page after the third ever shows anything, and entries of one kind fill the first page only.
\<close>

lemma length_window_of: "length (window_of skip limit xs) \<le> limit"
  by (simp add: window_of_def)

lemma length_pages: "length (concat (map (\<lambda>m. window_of skip limit (f m)) ms)) \<le> length ms * limit"
  by (induction ms) (auto intro: add_mono length_window_of)

theorem late_pages_are_empty:
  assumes "queryAuditLogs w q page limit s = Inr r" and "4 \<le> page"
  shows "ap_logs r = []" and "ap_total r \<le> 3 * limit"
proof -
  obtain f t where r: "r = (let skip = (page - 1) * limit;
            ls = logs_newest_first (concat (map (\<lambda>m. window_of skip limit (logs_newest_first m)) (matching_logs q f t s)))
        in \<lparr>ap_logs = map unified (window_of skip limit ls), ap_total = length ls, ap_totalPages = count_pages (length ls) limit\<rparr>)"
    using assms(1) by (auto simp: queryAuditLogs_def Let_def split: sum.splits)
  define ls where "ls = logs_newest_first (concat (map (\<lambda>m. window_of ((page - 1) * limit) limit (logs_newest_first m)) (matching_logs q f t s)))"
  have l: "length ls \<le> 3 * limit"
    using length_pages [of "(page - 1) * limit" limit logs_newest_first "matching_logs q f t s"]
    by (simp add: ls_def logs_newest_first_def matching_logs_def)
  then show "ap_total r \<le> 3 * limit" using r by (simp add: Let_def ls_def)
  have "3 * limit \<le> (page - 1) * limit" using assms(2) by (intro mult_right_mono) auto
  then have "length ls \<le> (page - 1) * limit" using l by (rule order_trans [rotated])
  then have "window_of ((page - 1) * limit) limit ls = []" by (simp add: window_of_def)
  then show "ap_logs r = []" using r by (simp add: Let_def ls_def)
qed

theorem one_kind_fills_one_page:
  assumes "queryAuditLogs w q page limit s = Inr r" and "2 \<le> page" and "engagementAuditLogs s = []" "milestoneAuditLogs s = []"
  shows "ap_logs r = []"
proof -
  obtain f t where r: "ap_logs r = map unified (window_of ((page - 1) * limit) limit
      (logs_newest_first (concat (map (\<lambda>m. window_of ((page - 1) * limit) limit (logs_newest_first m)) (matching_logs q f t s)))))"
    using assms(1) by (auto simp: queryAuditLogs_def Let_def split: sum.splits)
  have "limit \<le> (page - 1) * limit" using assms(2) by (cases page) auto
  then show ?thesis using assms(3,4) unfolding r by (simp add: matching_logs_def window_of_def logs_newest_first_def min.coboundedI2)
qed

section \<open>The merge\<close>

definition ids_ok :: "any_log list \<Rightarrow> bool" where
  "ids_ok tab \<longleftrightarrow> distinct (map log_id tab) \<and> list_all (\<lambda>l. log_id l \<noteq> []) tab"

lemma after_row: "distinct (map log_id tab) \<Longrightarrow> n < length tab \<Longrightarrow>
    tl (dropWhile (\<lambda>l. log_id l \<noteq> log_id (tab ! n)) tab) = drop (Suc n) tab"
proof (induction tab arbitrary: n)
  case (Cons l tab)
  show ?case
  proof (cases n)
    case (Suc m)
    with Cons.prems have "log_id l \<noteq> log_id (tab ! m)" using nth_mem [of m tab] by (metis distinct.simps(2) image_eqI length_Cons list.simps(9) list.set_map not_less_eq)
    with Cons Suc show ?thesis by simp
  qed simp
qed simp

text \<open>The batch a cursor holds is a window of its table; \<open>pending\<close> is what it has still to give.\<close>

definition pending :: "any_log list \<Rightarrow> export_cursor \<Rightarrow> any_log list \<Rightarrow> bool" where
  "pending tab c rest \<longleftrightarrow> (\<exists>k. ec_rows c = take AUDIT_EXPORT_BATCH_SIZE (drop k tab) \<and> rest = drop (k + ec_index c) tab \<and>
     (rest = [] \<longrightarrow> ec_rows c = [] \<and> ec_done c) \<and> (rest \<noteq> [] \<longrightarrow> ec_index c < length (ec_rows c) \<and> \<not> ec_done c))"

lemma batch_pos: "0 < AUDIT_EXPORT_BATCH_SIZE"
  by (simp add: AUDIT_EXPORT_BATCH_SIZE_def)

lemma pending_open: "pending tab (open_source tab) tab"
  unfolding pending_def by (intro exI [of _ 0]) (simp add: open_source_def fetch_batch_def Let_def batch_pos AUDIT_EXPORT_BATCH_SIZE_def)

lemma pending_done: "pending tab c rest \<Longrightarrow> ec_done c \<longleftrightarrow> rest = []"
  by (auto simp: pending_def)

lemma pending_current: "pending tab c rest \<Longrightarrow> current_row c = (case rest of [] \<Rightarrow> None | r # _ \<Rightarrow> Some r)"
  by (auto simp: pending_def current_row_def hd_drop_conv_nth neq_Nil_conv split: list.split) (metis hd_drop_conv_nth drop_eq_Nil leI list.sel(1) list.discI)+

lemma pending_advance:
  assumes p: "pending tab c (r # rest)" and ok: "ids_ok tab"
  shows "pending tab (advance_source tab c) rest" and "ec_rows c ! ec_index c = r"
proof -
  obtain k where k: "ec_rows c = take AUDIT_EXPORT_BATCH_SIZE (drop k tab)" "r # rest = drop (k + ec_index c) tab"
      "ec_index c < length (ec_rows c)" "\<not> ec_done c"
    using p by (auto simp: pending_def)
  have n: "k + ec_index c < length tab" by (metis k(2) drop_eq_Nil leI list.discI)
  have r: "r = tab ! (k + ec_index c)" by (metis k(2) hd_drop_conv_nth list.sel(1) n)
  have rest: "rest = drop (Suc (k + ec_index c)) tab" by (metis k(2) drop_Suc list.sel(3) tl_drop)
  show row: "ec_rows c ! ec_index c = r" using k(1,3) r n by (simp add: nth_drop)
  have id: "log_id r \<noteq> []" using ok n r by (simp add: ids_ok_def list_all_length)
  show "pending tab (advance_source tab c) rest"
  proof (cases "Suc (ec_index c) = length (ec_rows c)")
    case True
    have f: "fetch_batch tab (Some (log_id r)) = take AUDIT_EXPORT_BATCH_SIZE rest"
      using after_row [of tab "k + ec_index c"] ok n id by (simp add: fetch_batch_def ids_ok_def r rest)
    show ?thesis unfolding pending_def
      using True f rest k(4) batch_pos
      by (intro exI [of _ "Suc (k + ec_index c)"]) (auto simp: advance_source_def Let_def row)
  next
    case False
    with k(3) have l: "Suc (ec_index c) < length (ec_rows c)" by simp
    then have "rest \<noteq> []" using k(1) rest by auto
    with False l k rest show ?thesis unfolding pending_def
      by (intro exI [of _ k]) (auto simp: advance_source_def Let_def)
  qed
qed

text \<open>The selected source has a row, and none of the others has an earlier one.\<close>

lemma goes_first_le: "goes_first r sel \<Longrightarrow> log_createdAt r \<le> log_createdAt sel"
  "\<not> goes_first r sel \<Longrightarrow> log_createdAt sel \<le> log_createdAt r"
  by (auto simp: goes_first_def)

definition is_selected :: "export_cursor list \<Rightarrow> nat option \<Rightarrow> nat list \<Rightarrow> bool" where
  "is_selected cs best is \<longleftrightarrow> (case best of
     None \<Rightarrow> list_all (\<lambda>i. current_row (cs ! i) = None) is
   | Some j \<Rightarrow> j \<in> set is \<and> (\<exists>sel. current_row (cs ! j) = Some sel \<and>
       list_all (\<lambda>i. \<forall>r. current_row (cs ! i) = Some r \<longrightarrow> log_createdAt sel \<le> log_createdAt r) is))"

lemma select_source_selects:
  "is_selected cs best js \<Longrightarrow> is_selected cs (select_source cs best is) (js @ is)"
proof (induction "is" arbitrary: best js)
  case (Cons i "is")
  let ?best = "case current_row (cs ! i) of None \<Rightarrow> best
      | Some r \<Rightarrow> (case best of None \<Rightarrow> Some i
          | Some j \<Rightarrow> (case current_row (cs ! j) of None \<Rightarrow> Some i
              | Some sel \<Rightarrow> if goes_first r sel then Some i else best))"
  have "is_selected cs ?best (js @ [i])"
  proof (cases "current_row (cs ! i)")
    case None
    with Cons.prems show ?thesis by (auto simp: is_selected_def split: option.splits)
  next
    case (Some r)
    show ?thesis
    proof (cases best)
      case None
      with Some Cons.prems show ?thesis by (auto simp: is_selected_def list_all_iff)
    next
      case (Some j)
      with Cons.prems obtain sel where sel: "current_row (cs ! j) = Some sel" "j \<in> set js"
          "list_all (\<lambda>i. \<forall>r. current_row (cs ! i) = Some r \<longrightarrow> log_createdAt sel \<le> log_createdAt r) js"
        by (auto simp: is_selected_def)
      with \<open>current_row (cs ! i) = Some r\<close> Some goes_first_le [of r sel] show ?thesis
        by (cases "goes_first r sel") (auto simp: is_selected_def list_all_iff intro: order_trans)
    qed
  qed
  from Cons.IH [OF this] show ?case by simp
qed simp

lemma select_source_None:
  "select_source cs None [0..<length cs] = None \<longleftrightarrow> list_all (\<lambda>c. current_row c = None) cs"
  and select_source_Some: "select_source cs None [0..<length cs] = Some j \<Longrightarrow> j < length cs \<and> (\<exists>sel. current_row (cs ! j) = Some sel \<and>
    list_all (\<lambda>c. \<forall>r. current_row c = Some r \<longrightarrow> log_createdAt sel \<le> log_createdAt r) cs)"
proof -
  have s: "is_selected cs (select_source cs None [0..<length cs]) [0..<length cs]"
    using select_source_selects [of cs None "[]" "[0..<length cs]"] by (simp add: is_selected_def)
  then show "select_source cs None [0..<length cs] = Some j \<Longrightarrow> j < length cs \<and> (\<exists>sel. current_row (cs ! j) = Some sel \<and>
    list_all (\<lambda>c. \<forall>r. current_row c = Some r \<longrightarrow> log_createdAt sel \<le> log_createdAt r) cs)"
    by (auto simp: is_selected_def list_all_length)
  from s show "select_source cs None [0..<length cs] = None \<longleftrightarrow> list_all (\<lambda>c. current_row c = None) cs"
    by (cases "select_source cs None [0..<length cs]") (auto simp: is_selected_def list_all_length)
qed

definition all_pending :: "any_log list list \<Rightarrow> export_cursor list \<Rightarrow> any_log list list \<Rightarrow> bool" where
  "all_pending tabs cs rests \<longleftrightarrow> length cs = length tabs \<and> length rests = length tabs \<and>
     (\<forall>i < length tabs. pending (tabs ! i) (cs ! i) (rests ! i) \<and> ids_ok (tabs ! i) \<and> sorted (map log_createdAt (rests ! i)))"

text \<open>One round writes the head of the is_selected source, which is as early as everything still to come.\<close>

lemma export_round:
  assumes a: "all_pending tabs cs rests" and more: "\<not> list_all ec_done cs"
  obtains i r rest where "i < length tabs" "rests ! i = r # rest"
    "export_loop tabs cs out = export_loop tabs (cs[i := advance_source (tabs ! i) (cs ! i)]) (out @ [r])"
    "all_pending tabs (cs[i := advance_source (tabs ! i) (cs ! i)]) (rests[i := rest])"
    "\<forall>x \<in> set (concat rests). log_createdAt r \<le> log_createdAt x"
proof -
  have len: "length cs = length tabs" "length rests = length tabs" using a by (auto simp: all_pending_def)
  have p: "pending (tabs ! i) (cs ! i) (rests ! i)" "ids_ok (tabs ! i)" "sorted (map log_createdAt (rests ! i))" if "i < length tabs" for i
    using a that by (auto simp: all_pending_def)
  have cur: "current_row (cs ! i) = (case rests ! i of [] \<Rightarrow> None | r # _ \<Rightarrow> Some r)" if "i < length tabs" for i
    using pending_current [OF p(1) [OF that]] .
  obtain k where k: "k < length tabs" "\<not> ec_done (cs ! k)" using more len by (auto simp: list_all_length)
  then have "current_row (cs ! k) \<noteq> None" using cur pending_done [OF p(1)] by (auto simp: neq_Nil_conv)
  then have "\<not> list_all (\<lambda>c. current_row c = None) cs" using k len by (auto simp: list_all_length)
  then obtain i where sel: "select_source cs None [0..<length cs] = Some i" using select_source_None [of cs] by auto
  then obtain r where i: "i < length tabs" "current_row (cs ! i) = Some r"
      and least: "\<forall>j < length tabs. \<forall>x. current_row (cs ! j) = Some x \<longrightarrow> log_createdAt r \<le> log_createdAt x"
    using select_source_Some [OF sel] len by (auto simp: list_all_length)
  from i cur obtain rest where rest: "rests ! i = r # rest" by (auto split: list.splits)
  have adv: "pending (tabs ! i) (advance_source (tabs ! i) (cs ! i)) rest" "ec_rows (cs ! i) ! ec_index (cs ! i) = r"
    using pending_advance [of "tabs ! i" "cs ! i" r rest] p [OF i(1)] rest by auto
  have "export_loop tabs cs out = export_loop tabs (cs[i := advance_source (tabs ! i) (cs ! i)]) (out @ [r])"
    using more sel adv(2) by (subst export_loop.simps) simp
  moreover have "all_pending tabs (cs[i := advance_source (tabs ! i) (cs ! i)]) (rests[i := rest])"
    using a adv(1) i(1) rest p(3) [OF i(1)] by (auto simp: all_pending_def nth_list_update)
  moreover have "log_createdAt r \<le> log_createdAt x" if "x \<in> set (concat rests)" for x
  proof -
    obtain xs where "xs \<in> set rests" "x \<in> set xs" using \<open>x \<in> set (concat rests)\<close> by auto
    then obtain j where j: "j < length tabs" "x \<in> set (rests ! j)" using len by (metis in_set_conv_nth)
    then obtain y ys where y: "rests ! j = y # ys" by (cases "rests ! j") auto
    have "log_createdAt r \<le> log_createdAt y" using least cur [OF j(1)] j(1) y by simp
    also have "log_createdAt y \<le> log_createdAt x" using p(3) [OF j(1)] j(2) y by auto
    finally show ?thesis .
  qed
  ultimately show ?thesis using that i(1) rest by blast
qed

lemma length_concat_update:
  "i < length xss \<Longrightarrow> xss ! i = x # xs \<Longrightarrow>
   mset (concat xss) = add_mset x (mset (concat (xss[i := xs]))) \<and> length (concat xss) = Suc (length (concat (xss[i := xs])))"
proof (induction xss arbitrary: i)
  case (Cons ys xss)
  then show ?case by (cases i) (auto simp: size_mset [symmetric] simp del: size_mset)
qed simp

lemma export_loop_merges:
  assumes "all_pending tabs cs rests"
  shows "\<exists>m. export_loop tabs cs out = Some (out @ m) \<and> mset m = mset (concat rests) \<and> sorted (map log_createdAt m)"
  using assms
proof (induction "length (concat rests)" arbitrary: cs rests out)
  case 0
  then have "rests ! i = []" if "i < length tabs" for i using that by (auto simp: all_pending_def)
  with 0 have "list_all ec_done cs" using pending_done by (auto simp: all_pending_def list_all_length)
  then have "export_loop tabs cs out = Some out" by (subst export_loop.simps) simp
  with 0 show ?case by (intro exI [of _ "[]"]) auto
next
  case (Suc n)
  have "\<not> list_all ec_done cs"
  proof
    assume "list_all ec_done cs"
    then have "rests ! i = []" if "i < length tabs" for i
      using that Suc.prems pending_done [of "tabs ! i" "cs ! i" "rests ! i"] by (simp add: all_pending_def list_all_length)
    then have "concat rests = []" using Suc.prems by (auto simp: all_pending_def in_set_conv_nth)
    with Suc.hyps(2) show False by simp
  qed
  from export_round [OF Suc.prems this, of out] obtain i r rest where r: "i < length tabs" "rests ! i = r # rest"
    "export_loop tabs cs out = export_loop tabs (cs[i := advance_source (tabs ! i) (cs ! i)]) (out @ [r])"
    "all_pending tabs (cs[i := advance_source (tabs ! i) (cs ! i)]) (rests[i := rest])"
    "\<forall>x \<in> set (concat rests). log_createdAt r \<le> log_createdAt x" .
  have u: "mset (concat rests) = add_mset r (mset (concat (rests[i := rest])))" "n = length (concat (rests[i := rest]))"
    using length_concat_update [of i rests r rest] r(1,2) Suc.prems Suc.hyps(2) by (auto simp: all_pending_def)
  from Suc.hyps(1) [OF u(2) r(4), of "out @ [r]"] obtain m where m:
    "export_loop tabs cs out = Some (out @ r # m)" "mset m = mset (concat (rests[i := rest]))" "sorted (map log_createdAt m)"
    using r(3) by auto
  have "set m \<subseteq> set (concat rests)" using m(2) u(1) by (metis set_mset_mset set_mset_add_mset_insert subset_insertI)
  then have "sorted (map log_createdAt (r # m))" using m(3) r(5) by auto
  with m u(1) show ?case by (intro exI [of _ "r # m"]) simp
qed

section \<open>The export is complete\<close>

definition all_logs :: "audit_db \<Rightarrow> any_log list" where
  "all_logs s = concat (audit_tables s)"

definition audit_ids_ok :: "audit_db \<Rightarrow> bool" where
  "audit_ids_ok s \<longleftrightarrow> list_all ids_ok (audit_tables s)"

lemma ids_ok_source: "ids_ok ls \<Longrightarrow> ids_ok (export_source f t ls)"
  by (auto simp: ids_ok_def export_source_def list_all_iff distinct_map inj_on_def)

lemma mset_export_sources:
  "mset (concat (map (export_source f t) tabs)) = mset (filter (\<lambda>l. f \<le> log_createdAt l \<and> log_createdAt l \<le> t) (concat tabs))"
  by (induction tabs) (simp_all add: export_source_def)

lemma cells_nonempty: "audit_cells w l \<noteq> []"
  by (cases l) simp_all

text \<open>
  C40. The export of the audit trail ends and is complete: whatever the sizes of the three tables and however their
  batches interleave, every entry of the period is written exactly once, in the order of time, and the CSV reader
  of the bulk import gives back the cells of each line, whatever reasons and values contain.
\<close>
theorem audit_export_is_complete:
  assumes "audit_ids_ok s" and "parseDate w from = Some f" and "parseDate w to = Some t" and "f \<le> t"
  shows "\<exists>rows. streamAuditLogCsv w from to s = Inr (Some (audit_header # map (\<lambda>l. auditCsvRow (audit_cells w l)) rows)) \<and>
    mset rows = mset (filter (\<lambda>l. f \<le> log_createdAt l \<and> log_createdAt l \<le> t) (all_logs s)) \<and>
    sorted (map log_createdAt rows) \<and>
    list_all (\<lambda>l. parseCsvLine (butlast (auditCsvRow (audit_cells w l))) = map cell_text (audit_cells w l)) rows"
proof -
  let ?tabs = "map (export_source f t) (audit_tables s)"
  have "all_pending ?tabs (map open_source ?tabs) ?tabs"
    using assms(1) ids_ok_source pending_open by (auto simp: all_pending_def audit_ids_ok_def list_all_length export_source_def)
  from export_loop_merges [OF this, of "[]"] obtain m where m: "export_loop ?tabs (map open_source ?tabs) [] = Some m"
    "mset m = mset (concat ?tabs)" "sorted (map log_createdAt m)" by auto
  have "streamAuditLogCsv w from to s = Inr (Some (audit_header # map (\<lambda>l. auditCsvRow (audit_cells w l)) m))"
    using assms(2-4) m(1) by (simp add: streamAuditLogCsv_def Let_def)
  moreover have "parseCsvLine (butlast (auditCsvRow cells)) = map cell_text cells" if "cells \<noteq> []" for cells
  proof -
    have "list_all2 written_as (map cell_text cells) (map csvCell cells)" by (simp add: list_all2_conv_all_nth csvCell_written)
    from parse_written [OF this] that show ?thesis by (simp add: auditCsvRow_def buildCsvRow_def)
  qed
  ultimately show ?thesis using m(2,3) cells_nonempty by (auto simp: mset_export_sources all_logs_def list_all_iff)
qed

definition audit_env1 :: audit_env where
  "audit_env1 = \<lparr>isoText = (\<lambda>_. ''2026-01-02T03:04:05.678Z''), parseDate = (\<lambda>d. if d = ''a'' then Some 0 else Some 9)\<rparr>"

definition audit_db1 :: audit_db where
  "audit_db1 = \<lparr>auditLogs = [\<lparr>al_id = ''a1'', al_entityType = ''User'', al_entityId = ''u1'', al_action = ''STATUS_OVERRIDE'',
       al_oldValue = None, al_newValue = ''x'', al_reason = ''no, really'', al_changedBy = ''adm'', al_createdAt = 5\<rparr>],
     engagementAuditLogs = [\<lparr>gl_id = ''g1'', gl_engagementId = ''e1'', gl_fromStatus = ''ACTIVE'', gl_toStatus = ''CANCELLED'',
       gl_changedBy = ''u1'', gl_reason = None, gl_createdAt = 3\<rparr>],
     milestoneAuditLogs = []\<rparr>"

theorem audit_export_is_complete_witness:
  "\<exists>a b. streamAuditLogCsv audit_env1 ''a'' ''b'' audit_db1 = Inr (Some [audit_header, a, b])"
proof -
  have "audit_ids_ok audit_db1" by (simp add: audit_ids_ok_def audit_tables_def ids_ok_def audit_db1_def)
  from audit_export_is_complete [OF this, of audit_env1 "''a''" 0 "''b''" 9] obtain rows where
    r: "streamAuditLogCsv audit_env1 ''a'' ''b'' audit_db1 = Inr (Some (audit_header # map (\<lambda>l. auditCsvRow (audit_cells audit_env1 l)) rows))"
       "mset rows = mset (filter (\<lambda>l. 0 \<le> log_createdAt l \<and> log_createdAt l \<le> 9) (all_logs audit_db1))"
    by (auto simp: audit_env1_def)
  have "length rows = 2" using arg_cong [OF r(2), of size] by (simp add: all_logs_def audit_tables_def audit_db1_def)
  then obtain x y where "rows = [x, y]" by (auto simp: length_Suc_conv numeral_2_eq_2)
  with r(1) show ?thesis by simp
qed

end
