(* ===== verification/AccessControl.thy ===== *)
theory AccessControl
  imports Party Cache TwoFactor
begin

text \<open>
  The administrators' operations on accounts and engagements and their dashboard,
  \<^verbatim>\<open>modules/admin/admin-users.service.ts\<close>, and behind them the guards that decide who may call a handler.
\<close>

section \<open>State\<close>

datatype admin_sub_role = SUPER_ADMIN | OPS | FINANCE | SUPPORT

text \<open>The columns of a user only these operations write, and the entries of the shared cache.\<close>

record admin_columns =
  ac_verifiedAt :: "time option"
  ac_rateLimitOverride :: "int option"
  ac_adminSubRole :: "admin_sub_role option"

record admin_metrics =
  am_byStatus :: "(engagement_status \<times> nat) list"
  am_totalEngagements :: nat
  am_totalVolume :: stroops
  am_releasedAmount :: stroops
  am_lockedAmount :: stroops
  am_activeDisputes :: nat
  am_byRole :: "(user_role \<times> nat) list"
  am_totalActive :: nat
  am_arbiterWorkload :: "(ident \<times> nat) list"

record 'r admin_db =
  ad_db :: db
  ad_columns :: "ident \<Rightarrow> admin_columns"
  ad_cache :: "('r, admin_metrics) cache"

definition METRICS_CACHE_KEY :: string where "METRICS_CACHE_KEY = ''admin:metrics''"
definition METRICS_TTL_S :: int where "METRICS_TTL_S = 60"

section \<open>Accounts\<close>

definition find_managed :: "ident \<Rightarrow> 'r admin_db \<Rightarrow> user option" where
  "find_managed i s = List.find (\<lambda>u. u_id u = i) (t_users (ad_db s))"

definition update_managed :: "ident \<Rightarrow> (user \<Rightarrow> user) \<Rightarrow> 'r admin_db \<Rightarrow> 'r admin_db" where
  "update_managed i f s = s\<lparr>ad_db := (ad_db s)\<lparr>t_users := update_where (\<lambda>u. u_id u = i) f (t_users (ad_db s))\<rparr>\<rparr>"

definition update_columns :: "ident \<Rightarrow> (admin_columns \<Rightarrow> admin_columns) \<Rightarrow> 'r admin_db \<Rightarrow> 'r admin_db" where
  "update_columns i f s = s\<lparr>ad_columns := (ad_columns s)(i := f (ad_columns s i))\<rparr>"

definition deactivateUser :: "time \<Rightarrow> ident \<Rightarrow> 'r admin_db \<Rightarrow> ('r admin_db, unit) outcome" where
  "deactivateUser t i s = (case find_managed i s of
     None \<Rightarrow> throw NotFoundException s
   | Some u \<Rightarrow>
       if u_deactivatedAt u \<noteq> None then throw BadRequestException s
       else return () (update_managed i (\<lambda>u. u\<lparr>u_deactivatedAt := Some t\<rparr>) s))"

definition reactivateUser :: "ident \<Rightarrow> 'r admin_db \<Rightarrow> ('r admin_db, unit) outcome" where
  "reactivateUser i s = (case find_managed i s of
     None \<Rightarrow> throw NotFoundException s
   | Some u \<Rightarrow>
       if u_deactivatedAt u = None then throw BadRequestException s
       else return () (update_managed i (\<lambda>u. u\<lparr>u_deactivatedAt := None\<rparr>) s))"

definition setCompanyVerification :: "('r, admin_metrics) redis \<Rightarrow> time \<Rightarrow> ident \<Rightarrow> bool \<Rightarrow> 'r admin_db \<Rightarrow> ('r admin_db, unit) outcome" where
  "setCompanyVerification r t i verified s = (case find_managed i s of
     None \<Rightarrow> throw NotFoundException s
   | Some u \<Rightarrow>
       if u_role u \<noteq> COMPANY then throw BadRequestException s
       else let s1 = update_columns i (\<lambda>c. c\<lparr>ac_verifiedAt := (if verified then Some t else None)\<rparr>) s
            in return () (if truthy (u_stellarAddress u)
                 then s1\<lparr>ad_cache := cache_del r (''user:profile:'' @ the (u_stellarAddress u)) (ad_cache s1)\<rparr> else s1))"

definition setRateLimitOverride :: "ident \<Rightarrow> int option \<Rightarrow> 'r admin_db \<Rightarrow> ('r admin_db, unit) outcome" where
  "setRateLimitOverride i limit s = (case find_managed i s of
     None \<Rightarrow> throw NotFoundException s
   | Some _ \<Rightarrow> return () (update_columns i (\<lambda>c. c\<lparr>ac_rateLimitOverride := limit\<rparr>) s))"

definition clearRateLimitOverride :: "ident \<Rightarrow> 'r admin_db \<Rightarrow> ('r admin_db, unit) outcome" where
  "clearRateLimitOverride i = setRateLimitOverride i None"

definition setCompanyPlan :: "ident \<Rightarrow> ident option \<Rightarrow> 'r admin_db \<Rightarrow> ('r admin_db, unit) outcome" where
  "setCompanyPlan i planId s = (case find_managed i s of
     None \<Rightarrow> throw NotFoundException s
   | Some u \<Rightarrow>
       if u_role u \<noteq> COMPANY then throw BadRequestException s
       else if truthy planId \<and> List.find (\<lambda>p. Some (pl_id p) = planId) (t_plans (ad_db s)) = None then throw NotFoundException s
       else return () (update_managed i (\<lambda>u. u\<lparr>u_planId := planId\<rparr>) s))"

definition setAdminSubRole :: "ident \<Rightarrow> admin_sub_role option \<Rightarrow> 'r admin_db \<Rightarrow> ('r admin_db, unit) outcome" where
  "setAdminSubRole i subRole s = (case find_managed i s of
     None \<Rightarrow> throw NotFoundException s
   | Some u \<Rightarrow>
       if u_role u \<noteq> ADMIN then throw BadRequestException s
       else return () (update_columns i (\<lambda>c. c\<lparr>ac_adminSubRole := subRole\<rparr>) s))"

section \<open>Arbiters\<close>

text \<open>The relation \<open>arbiter\<close> of an engagement goes by the wallet.\<close>

definition arbiter_of :: "engagement \<Rightarrow> db \<Rightarrow> user option" where
  "arbiter_of e d = List.find (\<lambda>u. u_stellarAddress u = Some (e_arbiterAddress e)) (t_users d)"

definition assignArbiter :: "ident \<Rightarrow> ident \<Rightarrow> 'r admin_db \<Rightarrow> ('r admin_db, unit) outcome" where
  "assignArbiter eid aid s = (case find_engagement eid (ad_db s) of
     None \<Rightarrow> throw NotFoundException s
   | Some e \<Rightarrow> (case find_managed aid s of
       None \<Rightarrow> throw NotFoundException s
     | Some a \<Rightarrow>
         if u_role a \<noteq> ARBITER then throw BadRequestException s
         else if \<not> truthy (u_stellarAddress a) then throw BadRequestException s
         else let d = update_engagement eid (\<lambda>e. e\<lparr>e_arbiterAddress := the (u_stellarAddress a)\<rparr>) (ad_db s);
                  d1 = (case arbiter_of e (ad_db s) of None \<Rightarrow> d | Some old \<Rightarrow> notify (ById (u_id old)) ARBITER_REASSIGNED d)
              in return () (s\<lparr>ad_db := notify (ById (u_id a)) ARBITER_ASSIGNED d1\<rparr>)))"

definition listArbiters :: "db \<Rightarrow> user list" where
  "listArbiters d = filter (\<lambda>u. u_role u = ARBITER \<and> u_deactivatedAt u = None) (t_users d)"

section \<open>The dashboard\<close>

definition group_by :: "('a \<Rightarrow> 'k) \<Rightarrow> 'a list \<Rightarrow> ('k \<times> nat) list" where
  "group_by f rows = map (\<lambda>k. (k, count_where (\<lambda>r. f r = k) rows)) (remdups (map f rows))"

definition unarchived_engagements :: "db \<Rightarrow> engagement list" where
  "unarchived_engagements d = filter (\<lambda>e. e_archivedAt e = None) (t_engagements d)"

definition disputed_milestones :: "ident \<Rightarrow> db \<Rightarrow> milestone list" where
  "disputed_milestones eid d = filter (\<lambda>m. m_engagementId m = eid \<and> m_status m = DISPUTED) (t_milestones d)"

definition workload_of :: "db \<Rightarrow> user \<Rightarrow> nat" where
  "workload_of d a = sum_list (map (\<lambda>e. length (disputed_milestones (e_id e) d))
     (filter (\<lambda>e. u_stellarAddress a = Some (e_arbiterAddress e)) (unarchived_engagements d)))"

definition compute_metrics :: "db \<Rightarrow> admin_metrics" where
  "compute_metrics d =
     (let live = unarchived_engagements d; byRole = group_by u_role (filter (\<lambda>u. u_deactivatedAt u = None) (t_users d));
          volume = sum_list (map e_totalAmount live); released = sum_list (map e_releasedAmount live)
      in \<lparr>am_byStatus = group_by e_status live, am_totalEngagements = length live, am_totalVolume = volume,
          am_releasedAmount = released, am_lockedAmount = volume - released,
          am_activeDisputes = count_where (\<lambda>m. m_status m = DISPUTED) (t_milestones d),
          am_byRole = byRole, am_totalActive = sum_list (map snd byRole),
          am_arbiterWorkload = map (\<lambda>a. (u_id a, workload_of d a)) (filter (\<lambda>u. u_role u = ARBITER) (t_users d))\<rparr>)"

definition getAdminMetrics :: "('r, admin_metrics) redis \<Rightarrow> time \<Rightarrow> 'r admin_db \<Rightarrow> admin_metrics \<times> 'r admin_db" where
  "getAdminMetrics r t s = (case cache_get r t METRICS_CACHE_KEY (ad_cache s) of
     (Some m, c) \<Rightarrow> (m, s\<lparr>ad_cache := c\<rparr>)
   | (None, c) \<Rightarrow> (let m = compute_metrics (ad_db s)
        in (m, s\<lparr>ad_cache := cache_set r t METRICS_CACHE_KEY m METRICS_TTL_S c\<rparr>)))"

definition invalidateMetricsCache :: "('r, admin_metrics) redis \<Rightarrow> 'r admin_db \<Rightarrow> 'r admin_db" where
  "invalidateMetricsCache r s = s\<lparr>ad_cache := cache_del r METRICS_CACHE_KEY (ad_cache s)\<rparr>"

section \<open>Accounts: what the operations do\<close>

lemma find_update_managed:
  assumes "\<And>u. u_id (f u) = u_id u"
  shows "find_managed j (update_managed i f s) = map_option (\<lambda>u. if u_id u = i then f u else u) (find_managed j s)"
  unfolding find_managed_def update_managed_def using find_update_where [of "\<lambda>u. u_id u = j" f "\<lambda>u. u_id u = i"] assms by simp

text \<open>A deactivation can be taken back and leaves no trace.\<close>

lemma deactivation:
  assumes "deactivateUser t i s = (Inr x, s')"
  shows "map_option u_deactivatedAt (find_managed i s') = Some (Some t)"
    and "\<exists>s''. reactivateUser i s' = (Inr (), s'') \<and> (\<forall>j. find_managed j s'' = find_managed j s)"
proof -
  obtain u where u: "find_managed i s = Some u" "u_deactivatedAt u = None"
    and s': "s' = update_managed i (\<lambda>u. u\<lparr>u_deactivatedAt := Some t\<rparr>) s"
    using assms by (auto simp: deactivateUser_def split: option.splits if_splits)
  have id: "find_managed j s = Some v \<Longrightarrow> u_id v = j" for j v by (auto simp: find_managed_def dest: find_SomeD)
  have f: "find_managed i s' = Some (u\<lparr>u_deactivatedAt := Some t\<rparr>)"
    using u(1) id by (simp add: s' find_update_managed)
  then show "map_option u_deactivatedAt (find_managed i s') = Some (Some t)" by simp
  have "find_managed j (update_managed i (\<lambda>u. u\<lparr>u_deactivatedAt := None\<rparr>) s') = find_managed j s" for j
  proof (cases "find_managed j s")
    case (Some v)
    have "v\<lparr>u_deactivatedAt := None\<rparr> = v" if "v = u" using that u(2) by simp
    with Some id [OF Some] u show ?thesis by (auto simp: s' find_update_managed)
  qed (simp add: s' find_update_managed)
  then show "\<exists>s''. reactivateUser i s' = (Inr (), s'') \<and> (\<forall>j. find_managed j s'' = find_managed j s)"
    using f by (auto simp: reactivateUser_def return_def)
qed

section \<open>Arbiters: who judges after an assignment\<close>

definition as_party :: "user \<Rightarrow> party_user" where
  "as_party u = \<lparr>pu_id = Some (u_id u), pu_stellar = u_stellarAddress u, pu_role = Some (u_role u)\<rparr>"

text \<open>
  The new arbiter judges the engagement and the old one no longer does, as long as the column \<open>arbiterId\<close> is
  empty (no code writes it).  The wallet is not checked against the parties', and not the account's activity.
\<close>

lemma arbiter_changes_hands:
  assumes "assignArbiter eid aid s = (Inr x, s')" and "find_engagement eid (ad_db s) = Some e" and "e_arbiterId e = None"
  shows "\<exists>a e'. find_managed aid s = Some a \<and> u_role a = ARBITER \<and> find_engagement eid (ad_db s') = Some e' \<and>
      e_arbiterAddress e' = the (u_stellarAddress a) \<and>
      (engagementPartyRole e (as_party a) \<in> {None, Some PR_ARBITER} \<longrightarrow> engagementPartyRole e' (as_party a) = Some PR_ARBITER) \<and>
      (\<forall>u. u_stellarAddress u \<noteq> u_stellarAddress a \<longrightarrow> engagementPartyRole e' (as_party u) \<noteq> Some PR_ARBITER)"
proof -
  obtain a where a: "find_managed aid s = Some a" "u_role a = ARBITER" "truthy (u_stellarAddress a)"
    and s': "\<exists>n. ad_db s' = n (update_engagement eid (\<lambda>e. e\<lparr>e_arbiterAddress := the (u_stellarAddress a)\<rparr>) (ad_db s)) \<and>
      (\<forall>d. t_engagements (n d) = t_engagements d)"
  proof -
    from assms(1,2) obtain a where a: "find_managed aid s = Some a" "u_role a = ARBITER" "truthy (u_stellarAddress a)"
      and s': "s' = s\<lparr>ad_db := notify (ById (u_id a)) ARBITER_ASSIGNED (case arbiter_of e (ad_db s) of
          None \<Rightarrow> update_engagement eid (\<lambda>e. e\<lparr>e_arbiterAddress := the (u_stellarAddress a)\<rparr>) (ad_db s)
        | Some old \<Rightarrow> notify (ById (u_id old)) ARBITER_REASSIGNED
            (update_engagement eid (\<lambda>e. e\<lparr>e_arbiterAddress := the (u_stellarAddress a)\<rparr>) (ad_db s)))\<rparr>"
      by (auto simp: assignArbiter_def Let_def split: option.splits if_splits)
    have "\<exists>n. ad_db s' = n (update_engagement eid (\<lambda>e. e\<lparr>e_arbiterAddress := the (u_stellarAddress a)\<rparr>) (ad_db s)) \<and>
      (\<forall>d. t_engagements (n d) = t_engagements d)"
      by (rule exI [of _ "\<lambda>d. notify (ById (u_id a)) ARBITER_ASSIGNED (case arbiter_of e (ad_db s) of None \<Rightarrow> d
        | Some old \<Rightarrow> notify (ById (u_id old)) ARBITER_REASSIGNED d)"]) (auto simp: s' notify_def split: option.split)
    with a that show ?thesis by blast
  qed
  let ?e = "e\<lparr>e_arbiterAddress := the (u_stellarAddress a)\<rparr>"
  obtain n where n: "ad_db s' = n (update_engagement eid (\<lambda>e. e\<lparr>e_arbiterAddress := the (u_stellarAddress a)\<rparr>) (ad_db s))"
    "\<And>d. t_engagements (n d) = t_engagements d" using s' by blast
  have "e_id e = eid" using assms(2) by (auto simp: find_engagement_def dest: find_SomeD)
  moreover have "find_engagement eid (ad_db s') = map_option (\<lambda>e. if e_id e = eid then e\<lparr>e_arbiterAddress := the (u_stellarAddress a)\<rparr> else e)
      (find_engagement eid (ad_db s))"
    unfolding n(1) find_engagement_def n(2) update_engagement_def by (simp add: find_update_where)
  ultimately have e': "find_engagement eid (ad_db s') = Some ?e" using assms(2) by simp
  have w: "u_stellarAddress a = Some (the (u_stellarAddress a))" "the (u_stellarAddress a) \<noteq> []"
    using a(3) by (auto simp: truthy_iff)
  have new: "engagementPartyRole ?e (as_party a) = Some PR_ARBITER" if r: "engagementPartyRole e (as_party a) \<in> {None, Some PR_ARBITER}"
  proof -
    have "\<not> matches (as_party a) (e_companyId e) (e_companyAddress e)" "\<not> matches (as_party a) (e_recruiterId e) (e_recruiterAddress e)"
      using r by (auto simp: engagementPartyRole_def split: if_splits)
    moreover have "matches (as_party a) (e_arbiterId e) (the (u_stellarAddress a))"
      unfolding matches_def as_party_def using w a(3) by auto
    ultimately show ?thesis by (simp add: engagementPartyRole_def)
  qed
  have old: "engagementPartyRole ?e (as_party u) \<noteq> Some PR_ARBITER" if r: "u_stellarAddress u \<noteq> u_stellarAddress a" for u
  proof -
    have "\<not> matches (as_party u) (e_arbiterId e) (the (u_stellarAddress a))"
      unfolding matches_def as_party_def using w r assms(3) by auto
    then show ?thesis by (simp add: engagementPartyRole_def)
  qed
  show ?thesis
    using a(1,2) e' new old by (intro exI [of _ a] exI [of _ ?e]) simp
qed

section \<open>The dashboard adds up\<close>

lemma group_by_total: "sum_list (map snd (group_by f rows)) = length rows"
proof -
  have "sum_list (map (\<lambda>k. count_where (\<lambda>r. f r = k) rows) ks) = length (filter (\<lambda>r. f r \<in> set ks) rows)" if "distinct ks" for ks
    using that
  proof (induction ks)
    case (Cons k ks)
    have "count_where (\<lambda>r. f r = k) rs + length (filter (\<lambda>r. f r \<in> set ks) rs) = length (filter (\<lambda>r. f r \<in> set (k # ks)) rs)"
      if "k \<notin> set ks" for rs using that by (induction rs) auto
    with Cons show ?case by simp
  qed simp
  from this [of "remdups (map f rows)"] show ?thesis by (simp add: group_by_def comp_def)
qed

lemma metrics_add_up:
  "am_lockedAmount (compute_metrics d) = (\<Sum>e \<leftarrow> unarchived_engagements d. e_totalAmount e - e_releasedAmount e)"
  "sum_list (map snd (am_byStatus (compute_metrics d))) = am_totalEngagements (compute_metrics d)"
  "am_totalActive (compute_metrics d) = count_where (\<lambda>u. u_deactivatedAt u = None) (t_users d)"
  by (simp_all add: compute_metrics_def Let_def group_by_total count_where_def sum_list_subtractf)

text \<open>In process, the dashboard shows the numbers of one moment for a minute, and then those of the next request.\<close>

lemma metrics_are_a_minute_old:
  assumes "\<not> useRedis (ad_cache s)" and "fst (cache_get r t METRICS_CACHE_KEY (ad_cache s)) = None"
    and "s1 = snd (getAdminMetrics r t s)" and "ad_cache s2 = ad_cache s1"
  shows "t' \<le> t + 60000 \<Longrightarrow> fst (getAdminMetrics r t' s2) = compute_metrics (ad_db s)"
    and "t + 60000 < t' \<Longrightarrow> fst (getAdminMetrics r t' s2) = compute_metrics (ad_db s2)"
  using assms by (auto simp: getAdminMetrics_def cache_get_def cache_set_def mem_get_def mem_set_def Let_def METRICS_TTL_S_def update_conv'
      split: option.splits prod.splits if_splits)

text \<open>
  Who may call a handler: the guards of \<^verbatim>\<open>common/guards\<close>, the user a token stands for (\<^verbatim>\<open>modules/auth/jwt.strategy.ts\<close>)
  and the permissions of administrators (\<^verbatim>\<open>common/decorators/admin-permission.decorator.ts\<close>).  Guards run in the order
  in which a controller lists them; each lets the request pass or throws.
\<close>

section \<open>The user of a request\<close>

record request_user =
  ru_id :: ident
  ru_role :: "user_role option"
  ru_impersonated :: bool
  ru_adminSubRole :: "admin_sub_role option"
  ru_apiKeyScopes :: "string list option"

text \<open>The payload of a verified token; \<open>jp_impersonated\<close> tells whether the claim is the value \<open>true\<close>.\<close>

record jwt_payload =
  jp_type :: string
  jp_sub :: ident
  jp_role :: "user_role option"
  jp_impersonated :: bool

definition validate_payload :: "jwt_payload \<Rightarrow> exn + request_user" where
  "validate_payload p =
     (if jp_type p \<noteq> ''access'' then Inl UnauthorizedException
      else Inr \<lparr>ru_id = jp_sub p, ru_role = jp_role p, ru_impersonated = jp_impersonated p, ru_adminSubRole = None,
                ru_apiKeyScopes = None\<rparr>)"

definition key_request_user :: "key_user \<Rightarrow> request_user" where
  "key_request_user k = \<lparr>ru_id = ku_id k, ru_role = Some (ku_role k), ru_impersonated = False, ru_adminSubRole = None,
     ru_apiKeyScopes = Some (ku_scopes k)\<rparr>"

record http_request =
  hr_apiKey :: "string option"
  hr_bearer :: "string option"

text \<open>\<open>verify\<close> is the check of signature and expiry of a bearer token by the passport package.\<close>

definition jwtAuthGuard :: "(string \<Rightarrow> jwt_payload option) \<Rightarrow> http_request \<Rightarrow> exn + request_user" where
  "jwtAuthGuard verify q = (case hr_bearer q of
     None \<Rightarrow> Inl UnauthorizedException
   | Some t \<Rightarrow> (case verify t of None \<Rightarrow> Inl UnauthorizedException | Some p \<Rightarrow> validate_payload p))"

definition apiKeyGuard :: "tf_env \<Rightarrow> time \<Rightarrow> http_request \<Rightarrow> tf_db \<Rightarrow> (tf_db, request_user) outcome" where
  "apiKeyGuard w t q s =
     (if \<not> truthy (hr_apiKey q) then throw UnauthorizedException s
      else (case authenticate_key w t (the (hr_apiKey q)) s of
        (Inl _, s') \<Rightarrow> (Inl UnauthorizedException, s')
      | (Inr k, s') \<Rightarrow> (Inr (key_request_user k), s')))"

definition jwtOrApiKeyGuard ::
  "tf_env \<Rightarrow> (string \<Rightarrow> jwt_payload option) \<Rightarrow> time \<Rightarrow> http_request \<Rightarrow> tf_db \<Rightarrow> (tf_db, request_user) outcome" where
  "jwtOrApiKeyGuard w verify t q s =
     (if truthy (hr_apiKey q)
      then (case authenticate_key w t (the (hr_apiKey q)) s of
        (Inl _, s') \<Rightarrow> (Inl UnauthorizedException, s')
      | (Inr k, s') \<Rightarrow> (Inr (key_request_user k), s'))
      else (jwtAuthGuard verify q, s))"

section \<open>Guards on the user\<close>

definition rolesGuard :: "user_role list option \<Rightarrow> request_user option \<Rightarrow> exn + bool" where
  "rolesGuard required u =
     (if required = None \<or> required = Some [] then Inr True
      else (case u of
        None \<Rightarrow> Inl ForbiddenException
      | Some x \<Rightarrow> (case ru_role x of
          None \<Rightarrow> Inl ForbiddenException
        | Some r \<Rightarrow> if r \<in> set (the required) then Inr True else Inl ForbiddenException)))"

definition adminGuard :: "request_user option \<Rightarrow> exn + bool" where
  "adminGuard u = (case u of
     None \<Rightarrow> Inl ForbiddenException
   | Some x \<Rightarrow>
       if ru_role x \<noteq> Some ADMIN then Inl ForbiddenException
       else if ru_impersonated x then Inl ForbiddenException
       else Inr True)"

datatype admin_permission =
    IMPERSONATE_USERS | MANAGE_USERS | ASSIGN_ARBITER | MANAGE_SYSTEM | MANAGE_API_KEYS | PROCESS_REFUNDS
  | MANAGE_PAYMENTS | EXPORT_REPORTS | PROCESS_GDPR | MANAGE_PLANS | MANAGE_COMPANY_SETTINGS | MANAGE_OPERATIONS

fun ADMIN_PERMISSION_ROLES :: "admin_permission \<Rightarrow> admin_sub_role list" where
  "ADMIN_PERMISSION_ROLES IMPERSONATE_USERS = [SUPER_ADMIN, OPS]"
| "ADMIN_PERMISSION_ROLES MANAGE_USERS = [SUPER_ADMIN, OPS, SUPPORT]"
| "ADMIN_PERMISSION_ROLES ASSIGN_ARBITER = [SUPER_ADMIN, OPS]"
| "ADMIN_PERMISSION_ROLES MANAGE_SYSTEM = [SUPER_ADMIN, OPS]"
| "ADMIN_PERMISSION_ROLES MANAGE_API_KEYS = [SUPER_ADMIN, OPS]"
| "ADMIN_PERMISSION_ROLES PROCESS_REFUNDS = [SUPER_ADMIN, OPS, FINANCE]"
| "ADMIN_PERMISSION_ROLES MANAGE_PAYMENTS = [SUPER_ADMIN, OPS, FINANCE]"
| "ADMIN_PERMISSION_ROLES EXPORT_REPORTS = [SUPER_ADMIN, OPS, FINANCE]"
| "ADMIN_PERMISSION_ROLES PROCESS_GDPR = [SUPER_ADMIN, OPS, SUPPORT]"
| "ADMIN_PERMISSION_ROLES MANAGE_PLANS = [SUPER_ADMIN, OPS]"
| "ADMIN_PERMISSION_ROLES MANAGE_COMPANY_SETTINGS = [SUPER_ADMIN, OPS, SUPPORT]"
| "ADMIN_PERMISSION_ROLES MANAGE_OPERATIONS = [SUPER_ADMIN, OPS]"

definition adminPermissionsGuard :: "admin_permission option \<Rightarrow> request_user option \<Rightarrow> exn + bool" where
  "adminPermissionsGuard permission u = (case permission of
     None \<Rightarrow> Inr True
   | Some p \<Rightarrow> (case u of
       None \<Rightarrow> Inr True
     | Some x \<Rightarrow>
         if ru_role x \<noteq> Some ADMIN then Inr True
         else (case ru_adminSubRole x of
           None \<Rightarrow> Inr True
         | Some r \<Rightarrow> if r \<in> set (ADMIN_PERMISSION_ROLES p) then Inr True else Inl ForbiddenException)))"

text \<open>The throttle: its key, and the limit with the override an administrator set.\<close>

definition getTracker :: "request_user option \<Rightarrow> string" where
  "getTracker u = (case u of None \<Rightarrow> ''anonymous'' | Some x \<Rightarrow> if ru_id x = [] then ''anonymous'' else ''sub:'' @ ru_id x)"

definition resolveLimit :: "'r admin_db \<Rightarrow> ident \<Rightarrow> int \<Rightarrow> int" where
  "resolveLimit s i defaultLimit = (case find_managed i s of
     None \<Rightarrow> defaultLimit
   | Some _ \<Rightarrow> (case ac_rateLimitOverride (ad_columns s i) of None \<Rightarrow> defaultLimit | Some l \<Rightarrow> l))"

definition effectiveLimit :: "'r admin_db \<Rightarrow> request_user option \<Rightarrow> int \<Rightarrow> int" where
  "effectiveLimit s u limit = (case u of None \<Rightarrow> limit | Some x \<Rightarrow> if ru_id x = [] then limit else resolveLimit s (ru_id x) limit)"

section \<open>The administrators' controller\<close>

text \<open>\<open>@UseGuards(JwtOrApiKeyGuard, RolesGuard) @Roles(UserRole.ADMIN)\<close>.\<close>

definition admin_controller_guards ::
  "tf_env \<Rightarrow> (string \<Rightarrow> jwt_payload option) \<Rightarrow> time \<Rightarrow> http_request \<Rightarrow> tf_db \<Rightarrow> (tf_db, request_user) outcome" where
  "admin_controller_guards w verify t q s = and_then (jwtOrApiKeyGuard w verify t q s) (\<lambda>u s.
     case rolesGuard (Some [ADMIN]) (Some u) of Inl e \<Rightarrow> throw e s | Inr _ \<Rightarrow> return u s)"

section \<open>What the guards let through\<close>

text \<open>Only administrators pass, with a verified access token or an unexpired key of an active account.\<close>

lemma admin_controller_needs_admin:
  assumes "admin_controller_guards w verify t q s = (Inr u, s')"
  shows "ru_role u = Some ADMIN \<and>
    (if truthy (hr_apiKey q) then \<exists>k. authenticate_key w t (the (hr_apiKey q)) s = (Inr k, s') \<and> ku_role k = ADMIN
     else \<exists>tok p. hr_bearer q = Some tok \<and> verify tok = Some p \<and> jp_type p = ''access'' \<and> jp_role p = Some ADMIN)"
proof -
  obtain v s1 where j: "jwtOrApiKeyGuard w verify t q s = (Inr v, s1)"
    and r: "(case rolesGuard (Some [ADMIN]) (Some v) of Inl e \<Rightarrow> throw e s1 | Inr _ \<Rightarrow> return v s1) = (Inr u, s')"
    using assms by (auto simp: admin_controller_guards_def and_then_Inr_iff)
  from r have v: "ru_role v = Some ADMIN" "u = v" "s' = s1"
    by (auto simp: rolesGuard_def split: option.splits if_splits)
  with j show ?thesis
    by (auto simp: jwtOrApiKeyGuard_def jwtAuthGuard_def validate_payload_def key_request_user_def split: option.splits sum.splits prod.splits if_splits)
qed

text \<open>
  The sub-roles restrict nobody: no authenticated user carries one, so the guard for permissions, wherever it were
  put, would let every administrator pass.
\<close>

theorem sub_roles_never_restrict:
  assumes "jwtOrApiKeyGuard w verify t q s = (Inr u, s')"
  shows "adminPermissionsGuard permission (Some u) = Inr True"
proof -
  have "ru_adminSubRole u = None"
    using assms by (auto simp: jwtOrApiKeyGuard_def jwtAuthGuard_def validate_payload_def key_request_user_def
        split: option.splits sum.splits prod.splits if_splits)
  then show ?thesis by (simp add: adminPermissionsGuard_def split: option.split)
qed

text \<open>
  A token an administrator was issued to act as another administrator opens the administrators' controller, which
  does not use the guard that refuses such tokens.
\<close>

theorem impersonated_admin_passes:
  assumes "hr_apiKey q = None" and "hr_bearer q = Some tok" and "verify tok = Some p"
    and "jp_type p = ''access''" "jp_role p = Some ADMIN" "jp_impersonated p"
  shows "\<exists>u. admin_controller_guards w verify t q s = (Inr u, s) \<and> ru_impersonated u \<and> adminGuard (Some u) = Inl ForbiddenException"
  using assms by (simp add: admin_controller_guards_def jwtOrApiKeyGuard_def jwtAuthGuard_def validate_payload_def rolesGuard_def
      adminGuard_def return_def)

text \<open>The permissions themselves are as documented: a super administrator has all, finance cannot impersonate, support cannot refund.\<close>

lemma permissions_as_documented:
  "SUPER_ADMIN \<in> set (ADMIN_PERMISSION_ROLES p)" "OPS \<in> set (ADMIN_PERMISSION_ROLES p)"
  "FINANCE \<notin> set (ADMIN_PERMISSION_ROLES IMPERSONATE_USERS)" "SUPPORT \<notin> set (ADMIN_PERMISSION_ROLES PROCESS_REFUNDS)"
  by (cases p; simp)+

text \<open>A limit set by an administrator applies to the account's requests, and clearing it restores the default.\<close>

lemma override_applies:
  assumes "setRateLimitOverride i l s = (Inr x, s')" and "i \<noteq> []" and "ru_id u = i"
  shows "effectiveLimit s' (Some u) d = (case l of None \<Rightarrow> d | Some n \<Rightarrow> n)"
  using assms by (auto simp: setRateLimitOverride_def effectiveLimit_def resolveLimit_def update_columns_def find_managed_def
      split: option.splits)

end
