(* ===== verification/AdminReports.thy ===== *)
theory AdminReports
  imports Csv Decimal Fixtures "HOL-Library.AList" "HOL-Library.Multiset" Prelude Store
begin

text \<open>
  Reports for administrators, \<^verbatim>\<open>modules/admin/admin-reports.service.ts\<close>: released payments per day or month, and
  the export of payments of at most ninety days as CSV; then the statistics of disputes.
\<close>

section \<open>Dates\<close>

definition MAX_RANGE_DAYS :: int where "MAX_RANGE_DAYS = 90"

text \<open>
  \<open>parseDate\<close> is the \<open>Date\<close> constructor (\<open>None\<close> an invalid date), \<open>isoText\<close> is \<open>toISOString\<close>, \<open>dateOnly\<close> the test for
  a date without a time, \<open>monthOf\<close> the number of the UTC month of a day; \<open>milestoneName\<close> is the column \<open>name\<close>.  Days are counted from the epoch.
\<close>

record report_env =
  parseDate :: "string \<Rightarrow> time option"
  isoText :: "time \<Rightarrow> string"
  dateOnly :: "string \<Rightarrow> bool"
  monthOf :: "int \<Rightarrow> int"
  milestoneName :: "ident \<Rightarrow> string"

definition parseAndValidateDateRange :: "report_env \<Rightarrow> string \<Rightarrow> string \<Rightarrow> exn + time \<times> time" where
  "parseAndValidateDateRange w from to = (case (parseDate w from, parseDate w to) of
     (Some f, Some t) \<Rightarrow>
       if t < f then Inl BadRequestException
       else if MAX_RANGE_DAYS * day_ms < t - f then Inl BadRequestException
       else Inr (f, t)
   | _ \<Rightarrow> Inl BadRequestException)"

definition utc_day :: "time \<Rightarrow> int" where
  "utc_day t = t div day_ms"

text \<open>\<open>setUTCHours(23, 59, 59, 999)\<close>.\<close>

definition end_of_day :: "time \<Rightarrow> time" where
  "end_of_day t = (utc_day t + 1) * day_ms - 1"

section \<open>The revenue dashboard\<close>

datatype granularity = Daily | Monthly

text \<open>A period is the number of its day or month; \<open>revenuePeriod\<close> prints it.\<close>

definition revenuePeriod :: "report_env \<Rightarrow> granularity \<Rightarrow> time \<Rightarrow> int" where
  "revenuePeriod w g t = (case g of Daily \<Rightarrow> utc_day t | Monthly \<Rightarrow> monthOf w (utc_day t))"

text \<open>
  The \<open>while\<close> loop: the cursor starts with the day or the month of \<open>from\<close> and goes on by one as long as its first
  moment is not after \<open>to\<close>, that is, as long as its number is not after that of \<open>to\<close>.
\<close>

definition empty_buckets :: "report_env \<Rightarrow> granularity \<Rightarrow> time \<Rightarrow> time \<Rightarrow> (int \<times> stroops) list" where
  "empty_buckets w g f t = map (\<lambda>p. (p, 0)) [revenuePeriod w g f..revenuePeriod w g t]"

definition add_to_bucket :: "int \<Rightarrow> stroops \<Rightarrow> (int \<times> stroops) list \<Rightarrow> (int \<times> stroops) list" where
  "add_to_bucket p x bs = AList.update p ((case map_of bs p of None \<Rightarrow> 0 | Some y \<Rightarrow> y) + x) bs"

fun fill_buckets :: "report_env \<Rightarrow> granularity \<Rightarrow> milestone list \<Rightarrow> (int \<times> stroops) list \<Rightarrow> stroops \<Rightarrow> (int \<times> stroops) list \<times> stroops" where
  "fill_buckets w g [] bs acc = (bs, acc)"
| "fill_buckets w g (m # ms) bs acc = (case (m_confirmedAt m, m_paymentReleased m) of
     (Some c, Some x) \<Rightarrow> fill_buckets w g ms (add_to_bucket (revenuePeriod w g c) x bs) (acc + x)
   | _ \<Rightarrow> fill_buckets w g ms bs acc)"

definition paid_between :: "time \<Rightarrow> time \<Rightarrow> milestone \<Rightarrow> bool" where
  "paid_between f t m \<longleftrightarrow> m_status m = CONFIRMED \<and> ge_opt (m_confirmedAt m) f \<and> le_opt (m_confirmedAt m) t \<and> m_paymentReleased m \<noteq> None"

definition by_confirmation :: "milestone list \<Rightarrow> milestone list" where
  "by_confirmation ms = sort_key (\<lambda>m. the (m_confirmedAt m)) ms"

record revenue_report =
  rr_from :: time
  rr_to :: time
  rr_total :: stroops
  rr_buckets :: "(int \<times> stroops) list"

definition getRevenueDashboard :: "report_env \<Rightarrow> string \<Rightarrow> string \<Rightarrow> granularity \<Rightarrow> db \<Rightarrow> exn + revenue_report" where
  "getRevenueDashboard w from to g s = (case (parseDate w from, parseDate w to) of
     (Some f, Some t0) \<Rightarrow>
       if t0 < f then Inl BadRequestException
       else (let t = (if dateOnly w to then end_of_day t0 else t0);
                 (bs, acc) = fill_buckets w g (by_confirmation (filter (paid_between f t) (t_milestones s))) (empty_buckets w g f t) 0
             in Inr \<lparr>rr_from = f, rr_to = t, rr_total = acc, rr_buckets = bs\<rparr>)
   | _ \<Rightarrow> Inl BadRequestException)"

section \<open>Exports\<close>

text \<open>The chunks written: a header and a line for each row, its cells quoted as the billing exports quote theirs.\<close>

definition csv_document :: "string \<Rightarrow> string option list list \<Rightarrow> string list" where
  "csv_document header rows = (header @ [newline]) # map (\<lambda>r. buildCsvRow r @ [newline]) rows"

definition kind_name :: "milestone_kind \<Rightarrow> string" where
  "kind_name k = (case k of PLACEMENT \<Rightarrow> ''PLACEMENT'' | RETENTION \<Rightarrow> ''RETENTION'')"

definition payments_header :: string where
  "payments_header = ''milestoneId,engagementId,milestoneIndex,name,kind,paymentPercent,paymentReleased,companyAddress,recruiterAddress,engagementTxHash,confirmedAt''"

definition payment_cells :: "report_env \<Rightarrow> engagement \<Rightarrow> milestone \<Rightarrow> string option list" where
  "payment_cells w e m = [Some (m_id m), Some (m_engagementId m), Some (show_nat (m_index m)), Some (milestoneName w (m_id m)),
     Some (kind_name (m_kind m)), Some (show_int (m_paymentPercent m)), map_option show_int (m_paymentReleased m),
     Some (e_companyAddress e), Some (e_recruiterAddress e), e_txHash e, map_option (isoText w) (m_confirmedAt m)]"

text \<open>The foreign key of a milestone makes its engagement exist.\<close>

definition included_engagement :: "db \<Rightarrow> milestone \<Rightarrow> engagement" where
  "included_engagement s m = the (find_engagement (m_engagementId m) s)"

definition streamPaymentsCsv :: "report_env \<Rightarrow> string \<Rightarrow> string \<Rightarrow> db \<Rightarrow> exn + string list" where
  "streamPaymentsCsv w from to s = (case parseAndValidateDateRange w from to of
     Inl e \<Rightarrow> Inl e
   | Inr (f, t) \<Rightarrow> Inr (csv_document payments_header (map (\<lambda>m. payment_cells w (included_engagement s m) m)
       (by_confirmation (filter (paid_between f t) (t_milestones s))))))"

section \<open>The dashboard conserves the payments\<close>

lemma sum_update:
  "distinct (map fst bs) \<Longrightarrow> sum_list (map snd (add_to_bucket p x bs)) = sum_list (map snd bs) + x"
  unfolding add_to_bucket_def
proof (induction bs)
  case (Cons b bs)
  then show ?case by (cases b) (auto split: option.splits)
qed simp

lemma keys_update: "p \<in> set (map fst bs) \<Longrightarrow> map fst (add_to_bucket p x bs) = map fst bs"
  unfolding add_to_bucket_def by (simp add: update_keys)

definition released :: "milestone \<Rightarrow> stroops" where
  "released m = (case m_paymentReleased m of None \<Rightarrow> 0 | Some x \<Rightarrow> x)"

lemma fill_buckets_sums:
  assumes "\<And>m. m \<in> set ms \<Longrightarrow> \<exists>c x. m_confirmedAt m = Some c \<and> m_paymentReleased m = Some x \<and> revenuePeriod w g c \<in> set (map fst bs)"
    and "distinct (map fst bs)"
  shows "map fst (fst (fill_buckets w g ms bs acc)) = map fst bs \<and>
    sum_list (map snd (fst (fill_buckets w g ms bs acc))) = sum_list (map snd bs) + sum_list (map released ms) \<and>
    snd (fill_buckets w g ms bs acc) = acc + sum_list (map released ms) \<and>
    (\<forall>p. map_of (fst (fill_buckets w g ms bs acc)) p =
      (case map_of bs p of None \<Rightarrow> None | Some y \<Rightarrow> Some (y + sum_list (map released (filter (\<lambda>m. revenuePeriod w g (the (m_confirmedAt m)) = p) ms)))))"
  using assms
proof (induction ms arbitrary: bs acc)
  case Nil
  then show ?case by (auto split: option.split)
next
  case (Cons m ms)
  obtain c x where m: "m_confirmedAt m = Some c" "m_paymentReleased m = Some x" "revenuePeriod w g c \<in> set (map fst bs)"
    using Cons.prems(1) [of m] by auto
  let ?bs = "add_to_bucket (revenuePeriod w g c) x bs"
  have k: "map fst ?bs = map fst bs" using keys_update [OF m(3)] .
  have d: "distinct (map fst ?bs)" using Cons.prems(2) unfolding k .
  have h: "\<exists>c x. m_confirmedAt m = Some c \<and> m_paymentReleased m = Some x \<and> revenuePeriod w g c \<in> set (map fst ?bs)" if "m \<in> set ms" for m
    using Cons.prems(1) [of m] that unfolding k by simp
  have mo: "map_of ?bs p = (if p = revenuePeriod w g c then Some ((case map_of bs p of None \<Rightarrow> 0 | Some y \<Rightarrow> y) + x) else map_of bs p)" for p
    by (simp add: add_to_bucket_def update_conv')
  have "map_of bs (revenuePeriod w g c) \<noteq> None" using m(3) by (simp add: map_of_eq_None_iff)
  then show ?case
    using Cons.IH [OF h d, of "acc + x"] sum_update [OF Cons.prems(2), of "revenuePeriod w g c" x] m(1,2) k
    by (auto simp: released_def mo split: option.splits)
qed

text \<open>Every payment of the period lands in the bucket of its day or month, the buckets add up to the total, and no period is missing.\<close>

lemma revenue_is_conserved:
  assumes "getRevenueDashboard w from to g s = Inr r" and "mono (monthOf w)"
  shows "rr_total r = sum_list (map released (filter (paid_between (rr_from r) (rr_to r)) (t_milestones s)))"
    and "sum_list (map snd (rr_buckets r)) = rr_total r"
    and "map fst (rr_buckets r) = [revenuePeriod w g (rr_from r)..revenuePeriod w g (rr_to r)]"
proof -
  obtain f t where r: "r = \<lparr>rr_from = f, rr_to = t, rr_total = snd (fill_buckets w g (by_confirmation (filter (paid_between f t) (t_milestones s))) (empty_buckets w g f t) 0),
       rr_buckets = fst (fill_buckets w g (by_confirmation (filter (paid_between f t) (t_milestones s))) (empty_buckets w g f t) 0)\<rparr>"
    using assms(1) by (auto simp: getRevenueDashboard_def Let_def split: option.splits if_splits prod.splits)
  let ?ms = "by_confirmation (filter (paid_between f t) (t_milestones s))" and ?bs = "empty_buckets w g f t"
  have period: "revenuePeriod w g a \<le> revenuePeriod w g b" if "a \<le> b" for a b
  proof -
    have "utc_day a \<le> utc_day b" using that by (simp add: utc_day_def zdiv_mono1)
    then show ?thesis using assms(2) by (cases g) (simp_all add: revenuePeriod_def monoD)
  qed
  have keys: "map fst ?bs = [revenuePeriod w g f..revenuePeriod w g t]" by (simp add: empty_buckets_def comp_def)
  have h: "\<exists>c x. m_confirmedAt m = Some c \<and> m_paymentReleased m = Some x \<and> revenuePeriod w g c \<in> set (map fst ?bs)" if "m \<in> set ?ms" for m
  proof -
    have "paid_between f t m" using that by (simp add: by_confirmation_def)
    then obtain c x where "m_confirmedAt m = Some c" "m_paymentReleased m = Some x" "f \<le> c" "c \<le> t"
      by (cases "m_confirmedAt m"; cases "m_paymentReleased m") (auto simp: paid_between_def)
    then show ?thesis using period unfolding keys by auto
  qed
  have d: "distinct (map fst ?bs)" unfolding keys by simp
  have z: "sum_list (map snd ?bs) = 0" by (simp add: empty_buckets_def comp_def)
  have s: "sum_list (map released ?ms) = sum_list (map released (filter (paid_between f t) (t_milestones s)))"
    unfolding sum_mset_sum_list [symmetric] mset_map by (simp add: by_confirmation_def)
  note fb = fill_buckets_sums [where acc = 0, OF h d]
  show "rr_total r = sum_list (map released (filter (paid_between (rr_from r) (rr_to r)) (t_milestones s)))"
    using fb s by (simp add: r)
  show "sum_list (map snd (rr_buckets r)) = rr_total r" using fb z by (simp add: r)
  show "map fst (rr_buckets r) = [revenuePeriod w g (rr_from r)..revenuePeriod w g (rr_to r)]" using fb keys by (simp add: r)
qed

text \<open>
  Statistics of disputes for administrators, \<^verbatim>\<open>modules/admin/admin-dispute-stats.service.ts\<close>: a dispute is an audit
  entry that moves a milestone to \<open>DISPUTED\<close>, resolved by the next entry that moves it away.
\<close>

section \<open>Rows\<close>

record status_log =
  sl_milestoneId :: ident
  sl_from :: milestone_status
  sl_to :: milestone_status
  sl_createdAt :: time

text \<open>What an entry includes of its milestone: payments, whether a refund exists, the arbiter of the engagement.\<close>

record disputed_milestone =
  dm_paymentReleased :: "stroops option"
  dm_amount :: "stroops option"
  dm_hasRefund :: bool
  dm_arbiterId :: "ident option"

record stats_db =
  st_logs :: "status_log list"
  st_milestone :: "ident \<Rightarrow> disputed_milestone"

datatype stats_outcome = Refunded | ReleasedToWorker | Split

record dispute_record =
  dr_milestoneId :: ident
  dr_openedAt :: time
  dr_resolvedAt :: "time option"
  dr_outcome :: "stats_outcome option"
  dr_arbiterId :: "ident option"

section \<open>The computation\<close>

definition open_logs :: "time option \<Rightarrow> time option \<Rightarrow> stats_db \<Rightarrow> status_log list" where
  "open_logs startDate endDate s = sort_key sl_createdAt (filter (\<lambda>l. sl_to l = DISPUTED \<and>
     (\<forall>d. startDate = Some d \<longrightarrow> d \<le> sl_createdAt l) \<and> (\<forall>d. endDate = Some d \<longrightarrow> sl_createdAt l \<le> d)) (st_logs s))"

definition close_logs :: "ident list \<Rightarrow> stats_db \<Rightarrow> status_log list" where
  "close_logs ms s = sort_key sl_createdAt (filter (\<lambda>l. sl_milestoneId l \<in> set ms \<and> sl_from l = DISPUTED) (st_logs s))"

definition big_or_zero :: "stroops option \<Rightarrow> stroops" where
  "big_or_zero x = (case x of None \<Rightarrow> 0 | Some n \<Rightarrow> n)"

definition outcome_of :: "disputed_milestone \<Rightarrow> stats_outcome" where
  "outcome_of m =
     (let released = big_or_zero (dm_paymentReleased m); amount = big_or_zero (dm_amount m)
      in if dm_hasRefund m \<and> 0 < released then Split
         else if dm_hasRefund m then Refunded
         else if 0 < amount \<and> 0 < released \<and> released < amount then Split
         else ReleasedToWorker)"

definition dispute_of :: "stats_db \<Rightarrow> status_log list \<Rightarrow> status_log \<Rightarrow> dispute_record" where
  "dispute_of s closes l =
     (let close = List.find (\<lambda>c. sl_milestoneId c = sl_milestoneId l \<and> sl_createdAt l \<le> sl_createdAt c) closes;
          m = st_milestone s (sl_milestoneId l)
      in \<lparr>dr_milestoneId = sl_milestoneId l, dr_openedAt = sl_createdAt l, dr_resolvedAt = map_option sl_createdAt close,
          dr_outcome = map_option (\<lambda>_. outcome_of m) close, dr_arbiterId = dm_arbiterId m\<rparr>)"

definition dispute_records :: "time option \<Rightarrow> time option \<Rightarrow> stats_db \<Rightarrow> dispute_record list" where
  "dispute_records startDate endDate s =
     (let opens = open_logs startDate endDate s
      in map (dispute_of s (close_logs (remdups (map sl_milestoneId opens)) s)) opens)"

definition is_resolved :: "dispute_record \<Rightarrow> bool" where
  "is_resolved d \<longleftrightarrow> dr_resolvedAt d \<noteq> None"

definition duration :: "dispute_record \<Rightarrow> time" where
  "duration d = the (dr_resolvedAt d) - dr_openedAt d"

record arbiter_entry =
  ae_assigned :: nat
  ae_resolved :: nat
  ae_durations :: "time list"

text \<open>One pass over the disputes; a \<open>Map\<close> keeps its keys in the order of their first insertion.\<close>

definition bump_entry :: "dispute_record \<Rightarrow> arbiter_entry \<Rightarrow> arbiter_entry" where
  "bump_entry d e =
     (let e1 = e\<lparr>ae_assigned := ae_assigned e + 1\<rparr>
      in if is_resolved d then e1\<lparr>ae_resolved := ae_resolved e1 + 1, ae_durations := ae_durations e1 @ [duration d]\<rparr> else e1)"

fun count_arbiter :: "dispute_record \<Rightarrow> (ident option \<times> arbiter_entry) list \<Rightarrow> (ident option \<times> arbiter_entry) list" where
  "count_arbiter d [] = [(dr_arbiterId d, bump_entry d \<lparr>ae_assigned = 0, ae_resolved = 0, ae_durations = []\<rparr>)]"
| "count_arbiter d ((k, e) # m) = (if k = dr_arbiterId d then (k, bump_entry d e) # m else (k, e) # count_arbiter d m)"

record dispute_stats =
  ds_total :: nat
  ds_open :: nat
  ds_resolved :: nat
  ds_durations :: "time list"
  ds_outcomes :: "stats_outcome \<Rightarrow> nat"
  ds_arbiters :: "(ident option \<times> arbiter_entry) list"

text \<open>The averages shown are those of the lists of durations.\<close>

definition getDisputeStats :: "time option \<Rightarrow> time option \<Rightarrow> stats_db \<Rightarrow> dispute_stats" where
  "getDisputeStats startDate endDate s =
     (let ds = dispute_records startDate endDate s; resolved = filter is_resolved ds
      in \<lparr>ds_total = length ds, ds_open = length ds - length resolved, ds_resolved = length resolved,
          ds_durations = map duration resolved,
          ds_outcomes = (\<lambda>oc. count_where (\<lambda>d. dr_outcome d = Some oc) resolved),
          ds_arbiters = foldl (\<lambda>m d. count_arbiter d m) [] ds\<rparr>)"

section \<open>The numbers add up\<close>

lemma find_earliest:
  "sorted (map f xs) \<Longrightarrow> List.find p xs = Some y \<Longrightarrow> x \<in> set xs \<Longrightarrow> p x \<Longrightarrow> f y \<le> (f x :: int)"
  by (induction xs) (auto split: if_splits)

lemma outcome_iff_resolved: "d \<in> set (dispute_records a b s) \<Longrightarrow> dr_outcome d = None \<longleftrightarrow> \<not> is_resolved d"
  by (auto simp: dispute_records_def dispute_of_def is_resolved_def Let_def)

text \<open>A dispute counts as resolved at the first time its milestone leaves \<open>DISPUTED\<close> after it was opened, and no duration is negative.\<close>

lemma resolved_at_the_next_exit:
  assumes "d \<in> set (dispute_records a b s)"
  shows "(dr_resolvedAt d = None \<longleftrightarrow> \<not> (\<exists>c \<in> set (st_logs s). sl_milestoneId c = dr_milestoneId d \<and> sl_from c = DISPUTED \<and> dr_openedAt d \<le> sl_createdAt c)) \<and>
    (\<forall>t. dr_resolvedAt d = Some t \<longrightarrow> dr_openedAt d \<le> t \<and>
      (\<forall>c \<in> set (st_logs s). sl_milestoneId c = dr_milestoneId d \<and> sl_from c = DISPUTED \<and> dr_openedAt d \<le> sl_createdAt c \<longrightarrow> t \<le> sl_createdAt c))"
proof -
  define closes where "closes = close_logs (remdups (map sl_milestoneId (open_logs a b s))) s"
  obtain l where l: "l \<in> set (open_logs a b s)" "d = dispute_of s closes l"
    using assms by (auto simp: dispute_records_def Let_def closes_def)
  let ?p = "\<lambda>c. sl_milestoneId c = sl_milestoneId l \<and> sl_createdAt l \<le> sl_createdAt c"
  have d: "dr_milestoneId d = sl_milestoneId l" "dr_openedAt d = sl_createdAt l"
      "dr_resolvedAt d = map_option sl_createdAt (List.find ?p closes)"
    by (simp_all add: l(2) dispute_of_def Let_def)
  have set: "c \<in> set closes \<longleftrightarrow> c \<in> set (st_logs s) \<and> sl_from c = DISPUTED" if "sl_milestoneId c = sl_milestoneId l" for c
    using that l(1) by (auto simp: closes_def close_logs_def)
  have sorted: "sorted (map sl_createdAt closes)" by (simp add: closes_def close_logs_def)
  show ?thesis
  proof (cases "List.find ?p closes")
    case None
    with d set show ?thesis by (auto simp: find_None)
  next
    case (Some y)
    then have y: "?p y" "y \<in> set closes" by (auto dest: find_SomeD)
    have "sl_createdAt y \<le> sl_createdAt c" if "c \<in> set (st_logs s)" "sl_milestoneId c = sl_milestoneId l" "sl_from c = DISPUTED"
        "sl_createdAt l \<le> sl_createdAt c" for c
      using find_earliest [OF sorted Some] set [of c] that by simp
    with Some y d set [of y] show ?thesis by auto
  qed
qed

lemma count_arbiter_adds:
  "sum_list (map (ae_assigned \<circ> snd) (count_arbiter d m)) = Suc (sum_list (map (ae_assigned \<circ> snd) m))"
  "sum_list (map (ae_resolved \<circ> snd) (count_arbiter d m)) = (if is_resolved d then 1 else 0) + sum_list (map (ae_resolved \<circ> snd) m)"
  by (induction m) (auto simp: bump_entry_def Let_def)

lemma arbiters_add:
  "sum_list (map (ae_assigned \<circ> snd) (foldl (\<lambda>m d. count_arbiter d m) m ds)) = sum_list (map (ae_assigned \<circ> snd) m) + length ds"
  "sum_list (map (ae_resolved \<circ> snd) (foldl (\<lambda>m d. count_arbiter d m) m ds)) =
     sum_list (map (ae_resolved \<circ> snd) m) + length (filter is_resolved ds)"
  by (induction ds arbitrary: m) (simp_all add: count_arbiter_adds)

lemma stats_add_up:
  fixes r :: dispute_stats and s :: stats_db and a b :: "time option"
  assumes r_def: "r = getDisputeStats a b s"
  shows "ds_total r = ds_open r + ds_resolved r"
    and "ds_resolved r = ds_outcomes r Refunded + ds_outcomes r ReleasedToWorker + ds_outcomes r Split"
    and "sum_list (map (ae_assigned \<circ> snd) (ds_arbiters r)) = ds_total r"
    and "sum_list (map (ae_resolved \<circ> snd) (ds_arbiters r)) = ds_resolved r"
proof -
  let ?ds = "dispute_records a b s"
  have "length (filter is_resolved ?ds) \<le> length ?ds" by (rule length_filter_le)
  then show "ds_total r = ds_open r + ds_resolved r" by (simp add: r_def getDisputeStats_def Let_def)
  have "length ds = count_where (\<lambda>d. dr_outcome d = Some Refunded) ds + count_where (\<lambda>d. dr_outcome d = Some ReleasedToWorker) ds +
      count_where (\<lambda>d. dr_outcome d = Some Split) ds" if "\<And>d. d \<in> set ds \<Longrightarrow> dr_outcome d \<noteq> None" for ds
    using that
  proof (induction ds)
    case (Cons d ds)
    then obtain oc where "dr_outcome d = Some oc" by fastforce
    with Cons show ?case by (cases oc) auto
  qed simp
  moreover have "dr_outcome d \<noteq> None" if "d \<in> set (filter is_resolved ?ds)" for d
    using that outcome_iff_resolved [of d a b s] by simp
  ultimately have "length (filter is_resolved ?ds) = count_where (\<lambda>d. dr_outcome d = Some Refunded) (filter is_resolved ?ds) +
      count_where (\<lambda>d. dr_outcome d = Some ReleasedToWorker) (filter is_resolved ?ds) + count_where (\<lambda>d. dr_outcome d = Some Split) (filter is_resolved ?ds)"
    by blast
  then show "ds_resolved r = ds_outcomes r Refunded + ds_outcomes r ReleasedToWorker + ds_outcomes r Split"
    by (simp add: r_def getDisputeStats_def Let_def)
  show "sum_list (map (ae_assigned \<circ> snd) (ds_arbiters r)) = ds_total r"
    and "sum_list (map (ae_resolved \<circ> snd) (ds_arbiters r)) = ds_resolved r"
    by (simp_all add: r_def getDisputeStats_def Let_def arbiters_add)
qed

text \<open>No code writes the column \<open>arbiterId\<close> of an engagement: then every dispute is listed as unassigned.\<close>

theorem all_unassigned:
  assumes "\<And>m. dm_arbiterId (st_milestone s m) = None" and "ds_total (getDisputeStats a b s) \<noteq> 0"
  shows "map fst (ds_arbiters (getDisputeStats a b s)) = [None]"
proof -
  have none: "dr_arbiterId d = None" if "d \<in> set (dispute_records a b s)" for d
    using that assms(1) by (auto simp: dispute_records_def dispute_of_def Let_def)
  have one: "map fst (foldl (\<lambda>m d. count_arbiter d m) [(None, e)] ds) = [None]" if "\<And>d. d \<in> set ds \<Longrightarrow> dr_arbiterId d = None" for e ds
    using that by (induction ds arbitrary: e) auto
  obtain d ds where "dispute_records a b s = d # ds" using assms(2) by (cases "dispute_records a b s") (auto simp: getDisputeStats_def Let_def)
  with none one show ?thesis by (simp add: getDisputeStats_def Let_def)
qed

end
