(* ===== verification/StorageCleanup.thy ===== *)
theory StorageCleanup
  imports JsText
begin

text \<open>
  The nightly removal of uploads nothing refers to, \<^verbatim>\<open>common/s3/s3-cleanup.service.ts\<close>.  The object store is a list of
  keys with their times; each of the three passes lists the objects of a prefix, reads the references and deletes.
\<close>

record stored_object =
  so_key :: string
  so_lastModified :: time

text \<open>\<open>failing\<close> are the keys whose deletion the object store refuses, which ends the pass and the job.\<close>

record storage_db =
  sd_objects :: "stored_object list"
  sd_avatarUrls :: "string option list"
  sd_evidencePaths :: "string list"
  sd_kycPaths :: "string list"

definition listObjects :: "string \<Rightarrow> storage_db \<Rightarrow> stored_object list" where
  "listObjects p s = filter (\<lambda>x. starts_with p (so_key x)) (sd_objects s)"

definition deleteObject :: "(string \<Rightarrow> bool) \<Rightarrow> string \<Rightarrow> storage_db \<Rightarrow> (storage_db, unit) outcome" where
  "deleteObject failing k s =
     (if failing k then throw PlainError s else return () (s\<lparr>sd_objects := filter (\<lambda>x. so_key x \<noteq> k) (sd_objects s)\<rparr>))"

definition getReferencedAvatarPaths :: "storage_db \<Rightarrow> string option list" where
  "getReferencedAvatarPaths s = filter (\<lambda>u. u \<noteq> None) (sd_avatarUrls s)"

definition avatar_referenced :: "string option list \<Rightarrow> string \<Rightarrow> bool" where
  "avatar_referenced urls k \<longleftrightarrow> list_ex (\<lambda>u. truthy u \<and> has_substring k (the u)) urls"

text \<open>The loop the three passes share: skip what is young or referenced, delete the rest.\<close>

fun cleanup_loop :: "(string \<Rightarrow> bool) \<Rightarrow> time \<Rightarrow> (string \<Rightarrow> bool) \<Rightarrow> stored_object list \<Rightarrow> nat \<Rightarrow> storage_db \<Rightarrow> (storage_db, nat) outcome" where
  "cleanup_loop failing cutoff referenced [] n s = return n s"
| "cleanup_loop failing cutoff referenced (x # xs) n s =
     (if cutoff < so_lastModified x then cleanup_loop failing cutoff referenced xs n s
      else if referenced (so_key x) then cleanup_loop failing cutoff referenced xs n s
      else and_then (deleteObject failing (so_key x) s) (\<lambda>_ s. cleanup_loop failing cutoff referenced xs (n + 1) s))"

definition cleanupOrphanedAvatars :: "(string \<Rightarrow> bool) \<Rightarrow> time \<Rightarrow> storage_db \<Rightarrow> (storage_db, nat) outcome" where
  "cleanupOrphanedAvatars failing cutoff s =
     cleanup_loop failing cutoff (avatar_referenced (getReferencedAvatarPaths s)) (listObjects ''avatars/'' s) 0 s"

definition cleanupOrphanedEvidence :: "(string \<Rightarrow> bool) \<Rightarrow> time \<Rightarrow> storage_db \<Rightarrow> (storage_db, nat) outcome" where
  "cleanupOrphanedEvidence failing cutoff s =
     cleanup_loop failing cutoff (\<lambda>k. k \<in> set (sd_evidencePaths s)) (listObjects ''evidence/'' s) 0 s"

definition cleanupOrphanedKyc :: "(string \<Rightarrow> bool) \<Rightarrow> time \<Rightarrow> storage_db \<Rightarrow> (storage_db, nat) outcome" where
  "cleanupOrphanedKyc failing cutoff s =
     cleanup_loop failing cutoff (\<lambda>k. k \<in> set (sd_kycPaths s)) (listObjects ''kyc/'' s) 0 s"

text \<open>An error ends the job and is logged; the lock is released in any case.\<close>

definition cleanupOrphanedUploads :: "(string \<Rightarrow> bool) \<Rightarrow> time \<Rightarrow> int \<Rightarrow> bool \<Rightarrow> storage_db \<Rightarrow> storage_db" where
  "cleanupOrphanedUploads failing t gracePeriodHours locked s =
     (if \<not> locked then s
      else let cutoff = t - gracePeriodHours * hour_ms
           in snd (and_then (cleanupOrphanedAvatars failing cutoff s) (\<lambda>_ s.
                   and_then (cleanupOrphanedEvidence failing cutoff s) (\<lambda>_ s. cleanupOrphanedKyc failing cutoff s))))"

section \<open>What is deleted\<close>

text \<open>A key is in use when a row names it: as part of an avatar's address, or as the path of evidence or of a document.\<close>

definition in_use :: "storage_db \<Rightarrow> string \<Rightarrow> bool" where
  "in_use s k \<longleftrightarrow> (starts_with ''avatars/'' k \<and> avatar_referenced (sd_avatarUrls s) k) \<or>
     (starts_with ''evidence/'' k \<and> k \<in> set (sd_evidencePaths s)) \<or> (starts_with ''kyc/'' k \<and> k \<in> set (sd_kycPaths s))"

definition managed :: "string \<Rightarrow> bool" where
  "managed k \<longleftrightarrow> starts_with ''avatars/'' k \<or> starts_with ''evidence/'' k \<or> starts_with ''kyc/'' k"

definition orphan :: "(string \<Rightarrow> bool) \<Rightarrow> time \<Rightarrow> stored_object \<Rightarrow> bool" where
  "orphan referenced cutoff x \<longleftrightarrow> so_lastModified x \<le> cutoff \<and> \<not> referenced (so_key x)"

lemma cleanup_loop_objects:
  "snd (cleanup_loop failing cutoff referenced xs n s) = s\<lparr>sd_objects := sd_objects (snd (cleanup_loop failing cutoff referenced xs n s))\<rparr> \<and>
   (\<exists>ks. set ks \<subseteq> so_key ` set (filter (orphan referenced cutoff) xs) \<and>
     sd_objects (snd (cleanup_loop failing cutoff referenced xs n s)) = filter (\<lambda>x. so_key x \<notin> set ks) (sd_objects s) \<and>
     ((\<forall>x \<in> set xs. \<not> failing (so_key x)) \<longrightarrow> set ks = so_key ` set (filter (orphan referenced cutoff) xs)))"
proof (induction xs arbitrary: n s)
  case (Cons x xs)
  show ?case
  proof (cases "orphan referenced cutoff x \<and> \<not> failing (so_key x)")
    case True
    let ?s = "s\<lparr>sd_objects := filter (\<lambda>y. so_key y \<noteq> so_key x) (sd_objects s)\<rparr>"
    obtain ks where ks: "set ks \<subseteq> so_key ` set (filter (orphan referenced cutoff) xs)"
      "sd_objects (snd (cleanup_loop failing cutoff referenced xs (n + 1) ?s)) = filter (\<lambda>x. so_key x \<notin> set ks) (sd_objects ?s)"
      "(\<forall>x \<in> set xs. \<not> failing (so_key x)) \<longrightarrow> set ks = so_key ` set (filter (orphan referenced cutoff) xs)"
      using Cons.IH [of "n + 1" ?s] by blast
    have e: "cleanup_loop failing cutoff referenced (x # xs) n s = cleanup_loop failing cutoff referenced xs (n + 1) ?s"
      using True by (simp add: orphan_def deleteObject_def not_less)
    have "snd (cleanup_loop failing cutoff referenced xs (n + 1) ?s) =
        ?s\<lparr>sd_objects := sd_objects (snd (cleanup_loop failing cutoff referenced xs (n + 1) ?s))\<rparr>" using Cons.IH by blast
    with ks True show ?thesis unfolding e
      by (intro conjI exI [of _ "so_key x # ks"]) (auto intro: filter_cong)
  next
    case False
    show ?thesis
    proof (cases "orphan referenced cutoff x")
      case True
      with False have "cleanup_loop failing cutoff referenced (x # xs) n s = (Inl PlainError, s)" by (simp add: orphan_def deleteObject_def throw_def)
      with False True show ?thesis by (intro conjI exI [of _ "[]"]) auto
    next
      case no: False
      then have "cleanup_loop failing cutoff referenced (x # xs) n s = cleanup_loop failing cutoff referenced xs n s"
        by (auto simp: orphan_def)
      with Cons.IH [of n s] no show ?thesis by auto
    qed
  qed
qed (auto intro: exI [of _ "[]"])

lemma avatar_references: "avatar_referenced (getReferencedAvatarPaths s) k = avatar_referenced (sd_avatarUrls s) k"
proof -
  have "truthy u \<Longrightarrow> u \<noteq> None" for u by (cases u) auto
  then show ?thesis unfolding avatar_referenced_def getReferencedAvatarPaths_def list_ex_iff by auto
qed

text \<open>One pass keeps every object that is young, referenced or of another prefix, and touches no row.\<close>

lemma cleanup_pass:
  assumes "snd (cleanup_loop failing cutoff referenced (listObjects p s) 0 s) = s'"
  shows "s' = s\<lparr>sd_objects := sd_objects s'\<rparr>"
    and "x \<in> set (sd_objects s') \<Longrightarrow> x \<in> set (sd_objects s)"
    and "x \<in> set (sd_objects s) \<Longrightarrow> referenced (so_key x) \<or> \<not> starts_with p (so_key x) \<Longrightarrow> x \<in> set (sd_objects s')"
    and "x \<in> set (sd_objects s) \<Longrightarrow> distinct (map so_key (sd_objects s)) \<Longrightarrow> cutoff < so_lastModified x \<Longrightarrow> x \<in> set (sd_objects s')"
    and "x \<in> set (sd_objects s') \<Longrightarrow> starts_with p (so_key x) \<Longrightarrow> so_lastModified x \<le> cutoff \<Longrightarrow> \<not> (\<exists>k. failing k) \<Longrightarrow> referenced (so_key x)"
    and "distinct (map so_key (sd_objects s)) \<Longrightarrow> distinct (map so_key (sd_objects s'))"
proof -
  obtain ks where ks: "set ks \<subseteq> so_key ` set (filter (orphan referenced cutoff) (listObjects p s))"
     "sd_objects s' = filter (\<lambda>x. so_key x \<notin> set ks) (sd_objects s)"
     "(\<forall>x \<in> set (listObjects p s). \<not> failing (so_key x)) \<longrightarrow> set ks = so_key ` set (filter (orphan referenced cutoff) (listObjects p s))"
    and eq: "s' = s\<lparr>sd_objects := sd_objects s'\<rparr>"
    using cleanup_loop_objects [of failing cutoff referenced "listObjects p s" 0 s] unfolding assms by blast
  show "s' = s\<lparr>sd_objects := sd_objects s'\<rparr>" by (fact eq)
  show "x \<in> set (sd_objects s') \<Longrightarrow> x \<in> set (sd_objects s)" using ks(2) by simp
  have k: "\<exists>y \<in> set (sd_objects s). so_key y = so_key x \<and> so_lastModified y \<le> cutoff \<and> \<not> referenced (so_key x) \<and> starts_with p (so_key x)"
    if "so_key x \<in> set ks" for x
  proof -
    have "so_key x \<in> so_key ` set (filter (orphan referenced cutoff) (listObjects p s))" using that ks(1) by (rule subsetD [rotated])
    then obtain y where "y \<in> set (filter (orphan referenced cutoff) (listObjects p s))" "so_key x = so_key y" by (rule imageE)
    then show ?thesis by (intro bexI [of _ y]) (simp_all add: orphan_def listObjects_def)
  qed
  then show "x \<in> set (sd_objects s) \<Longrightarrow> referenced (so_key x) \<or> \<not> starts_with p (so_key x) \<Longrightarrow> x \<in> set (sd_objects s')"
    using ks(2) by auto
  show "x \<in> set (sd_objects s) \<Longrightarrow> distinct (map so_key (sd_objects s)) \<Longrightarrow> cutoff < so_lastModified x \<Longrightarrow> x \<in> set (sd_objects s')"
  proof -
    assume x: "x \<in> set (sd_objects s)" "distinct (map so_key (sd_objects s))" "cutoff < so_lastModified x"
    have "so_key x \<notin> set ks"
    proof
      assume "so_key x \<in> set ks"
      from k [OF this] obtain y where y: "y \<in> set (sd_objects s)" "so_key y = so_key x" "so_lastModified y \<le> cutoff" by blast
      with x(1,2) have "y = x" unfolding distinct_map by (auto dest: inj_onD)
      with x(3) y(3) show False by simp
    qed
    with x(1) ks(2) show ?thesis by simp
  qed
  show "x \<in> set (sd_objects s') \<Longrightarrow> starts_with p (so_key x) \<Longrightarrow> so_lastModified x \<le> cutoff \<Longrightarrow> \<not> (\<exists>k. failing k) \<Longrightarrow> referenced (so_key x)"
    using ks(2,3) by (auto simp: orphan_def listObjects_def)
  show "distinct (map so_key (sd_objects s)) \<Longrightarrow> distinct (map so_key (sd_objects s'))"
    using ks(2) by (simp add: distinct_map_filter)
qed

lemma cleanup_loop_succeeds: "\<not> (\<exists>k. failing k) \<Longrightarrow> \<exists>m. fst (cleanup_loop failing cutoff referenced xs n s) = Inr m"
  by (induction xs arbitrary: n s) (auto simp: deleteObject_def)

text \<open>The three prefixes exclude one another.\<close>

lemma prefixes_disjoint:
  "starts_with ''avatars/'' k \<Longrightarrow> \<not> starts_with ''evidence/'' k \<and> \<not> starts_with ''kyc/'' k"
  "starts_with ''evidence/'' k \<Longrightarrow> \<not> starts_with ''kyc/'' k"
  by (cases k; auto simp: starts_with_def)+

text \<open>
  The job deletes no object a row refers to, none outside its prefixes and none younger than the grace period,
  even when the store refuses deletions in between; and when it refuses none, no old orphan is left.
\<close>

lemma cleanup_spares_what_is_used:
  assumes s': "s' = cleanupOrphanedUploads failing t h True s" and keys: "distinct (map so_key (sd_objects s))"
  shows "x \<in> set (sd_objects s) \<Longrightarrow> in_use s (so_key x) \<or> \<not> managed (so_key x) \<or> t - h * hour_ms < so_lastModified x \<Longrightarrow>
      x \<in> set (sd_objects s')"
    and "\<not> (\<exists>k. failing k) \<Longrightarrow> x \<in> set (sd_objects s') \<Longrightarrow> in_use s (so_key x) \<or> \<not> managed (so_key x) \<or> t - h * hour_ms < so_lastModified x"
proof -
  let ?c = "t - h * hour_ms"
  obtain ra sa where a: "cleanupOrphanedAvatars failing ?c s = (ra, sa)" by (cases "cleanupOrphanedAvatars failing ?c s")
  obtain re se where e: "cleanupOrphanedEvidence failing ?c sa = (re, se)" by (cases "cleanupOrphanedEvidence failing ?c sa")
  obtain rk sk where k: "cleanupOrphanedKyc failing ?c se = (rk, sk)" by (cases "cleanupOrphanedKyc failing ?c se")
  have A: "snd (cleanup_loop failing ?c (avatar_referenced (getReferencedAvatarPaths s)) (listObjects ''avatars/'' s) 0 s) = sa"
    using a by (simp add: cleanupOrphanedAvatars_def)
  note pa = cleanup_pass [OF A]
  have ra: "sd_evidencePaths sa = sd_evidencePaths s" "sd_kycPaths sa = sd_kycPaths s" by (subst pa(1); simp)+
  have E: "snd (cleanup_loop failing ?c (\<lambda>k. k \<in> set (sd_evidencePaths s)) (listObjects ''evidence/'' sa) 0 sa) = se"
    using e by (simp add: cleanupOrphanedEvidence_def ra)
  note pe = cleanup_pass [OF E]
  have re: "sd_kycPaths se = sd_kycPaths s" by (subst pe(1); simp add: ra)
  have K: "snd (cleanup_loop failing ?c (\<lambda>k. k \<in> set (sd_kycPaths s)) (listObjects ''kyc/'' se) 0 se) = sk"
    using k by (simp add: cleanupOrphanedKyc_def re)
  note pk = cleanup_pass [OF K]
  have s'_cases: "s' = (case ra of Inl _ \<Rightarrow> sa | Inr _ \<Rightarrow> (case re of Inl _ \<Rightarrow> se | Inr _ \<Rightarrow> sk))"
    using a e k by (simp add: s' cleanupOrphanedUploads_def Let_def split: sum.split)
  show "x \<in> set (sd_objects s')" if x: "x \<in> set (sd_objects s)" "in_use s (so_key x) \<or> \<not> managed (so_key x) \<or> ?c < so_lastModified x"
  proof -
    have da: "distinct (map so_key (sd_objects sa))" using pa(6) keys .
    have de: "distinct (map so_key (sd_objects se))" using pe(6) da .
    have "x \<in> set (sd_objects sa)"
      using pa(3,4) x keys prefixes_disjoint [of "so_key x"] by (auto simp: in_use_def managed_def avatar_references)
    moreover from this have "x \<in> set (sd_objects se)"
      using pe(3,4) x(2) da prefixes_disjoint [of "so_key x"] by (auto simp: in_use_def managed_def)
    moreover from this have "x \<in> set (sd_objects sk)"
      using pk(3,4) x(2) de prefixes_disjoint [of "so_key x"] by (auto simp: in_use_def managed_def)
    ultimately show ?thesis by (auto simp: s'_cases split: sum.split)
  qed
  show "in_use s (so_key x) \<or> \<not> managed (so_key x) \<or> ?c < so_lastModified x" if f: "\<not> (\<exists>k. failing k)" "x \<in> set (sd_objects s')"
  proof -
    have "\<exists>m. ra = Inr m" "\<exists>m. re = Inr m"
      using cleanup_loop_succeeds [OF f(1)] a e by (auto simp: cleanupOrphanedAvatars_def cleanupOrphanedEvidence_def) (metis fst_conv)+
    then have k: "x \<in> set (sd_objects sk)" using f(2) by (auto simp: s'_cases)
    then have e: "x \<in> set (sd_objects se)" by (rule pk(2))
    then have a: "x \<in> set (sd_objects sa)" by (rule pe(2))
    show ?thesis
      using pa(5) [OF a _ _ f(1)] pe(5) [OF e _ _ f(1)] pk(5) [OF k _ _ f(1)]
      by (auto simp: in_use_def managed_def avatar_references not_less)
  qed
qed

end
