(* ===== verification/ScheduledJobs.thy ===== *)
theory ScheduledJobs
  imports JsText
begin

text \<open>
  The administrators' view of scheduled work, \<^verbatim>\<open>modules/admin/jobs.service.ts\<close>: repeatable and delayed jobs of the
  queues, which all replicas share, and the jobs of the process, each under a key by which it can be removed.
\<close>

section \<open>Jobs\<close>

datatype job_kind = BullScheduler | BullDelayed | CronJob | IntervalJob | TimeoutJob

definition kind_text :: "job_kind \<Rightarrow> string" where
  "kind_text k = (case k of BullScheduler \<Rightarrow> ''bullmq-scheduler'' | BullDelayed \<Rightarrow> ''bullmq-delayed'' | CronJob \<Rightarrow> ''cron''
     | IntervalJob \<Rightarrow> ''interval'' | TimeoutJob \<Rightarrow> ''timeout'')"

record queue_scheduler =
  qs_key :: string
  qs_name :: string
  qs_pattern :: "string option"
  qs_every :: "int option"
  qs_next :: "time option"

record queue_job =
  qj_id :: "string option"
  qj_name :: string
  qj_repeatJobKey :: "string option"
  qj_timestamp :: time
  qj_delay :: "int option"

record job_queue =
  jq_name :: string
  jq_schedulers :: "queue_scheduler list"
  jq_delayed :: "queue_job list"

record cron_entry =
  ce_name :: string
  ce_pattern :: string
  ce_nextRunAt :: "time option"
  ce_running :: bool

record job_view =
  jv_jobKey :: string
  jv_kind :: job_kind
  jv_name :: string
  jv_queue :: "string option"
  jv_pattern :: "string option"
  jv_everyMs :: "int option"
  jv_nextRunAt :: "time option"
  jv_running :: "bool option"
  jv_cluster :: bool

record removal =
  rm_jobKey :: string
  rm_view :: job_view
  rm_reason :: string
  rm_adminId :: ident

record jobs_db =
  jd_queues :: "job_queue list"
  jd_cron :: "cron_entry list"
  jd_intervals :: "string list"
  jd_timeouts :: "string list"
  jd_audit :: "removal list"

definition MAX_DELAYED_PER_QUEUE :: nat where "MAX_DELAYED_PER_QUEUE = 200"

section \<open>Keys\<close>

abbreviation colon :: char where "colon \<equiv> CHR '':''"

definition buildJobKey :: "job_kind \<Rightarrow> string \<Rightarrow> string option \<Rightarrow> string" where
  "buildJobKey k i queue =
     (if truthy queue then kind_text k @ colon # the queue @ colon # i else kind_text k @ colon # i)"

text \<open>The parts before and behind the first colon; \<open>split(':')\<close> and \<open>rest.join(':')\<close>.\<close>

definition head_part :: "string \<Rightarrow> string" where
  "head_part s = takeWhile (\<lambda>c. c \<noteq> colon) s"

definition rest_part :: "string \<Rightarrow> string" where
  "rest_part s = tl (dropWhile (\<lambda>c. c \<noteq> colon) s)"

record job_target =
  jt_kind :: job_kind
  jt_queue :: "string option"
  jt_id :: string

definition kind_of_text :: "string \<Rightarrow> job_kind option" where
  "kind_of_text s = List.find (\<lambda>k. kind_text k = s) [BullScheduler, BullDelayed, CronJob, IntervalJob, TimeoutJob]"

definition parseJobKey :: "string \<Rightarrow> exn + job_target" where
  "parseJobKey key = (let rest = rest_part key in case kind_of_text (head_part key) of
     None \<Rightarrow> Inl BadRequestException
   | Some k \<Rightarrow>
       if k = BullScheduler \<or> k = BullDelayed
       then (let queue = head_part rest; i = rest_part rest
             in if queue = [] \<or> i = [] then Inl BadRequestException else Inr \<lparr>jt_kind = k, jt_queue = Some queue, jt_id = i\<rparr>)
       else if rest = [] then Inl BadRequestException else Inr \<lparr>jt_kind = k, jt_queue = None, jt_id = rest\<rparr>)"

section \<open>Listing\<close>

definition scheduler_view :: "string \<Rightarrow> queue_scheduler \<Rightarrow> job_view" where
  "scheduler_view q x = \<lparr>jv_jobKey = buildJobKey BullScheduler (qs_key x) (Some q), jv_kind = BullScheduler, jv_name = qs_name x,
     jv_queue = Some q, jv_pattern = qs_pattern x, jv_everyMs = qs_every x,
     jv_nextRunAt = (case qs_next x of None \<Rightarrow> None | Some t \<Rightarrow> if t = 0 then None else Some t), jv_running = None, jv_cluster = True\<rparr>"

definition delayed_view :: "string \<Rightarrow> queue_job \<Rightarrow> job_view" where
  "delayed_view q x = \<lparr>jv_jobKey = buildJobKey BullDelayed (the (qj_id x)) (Some q), jv_kind = BullDelayed, jv_name = qj_name x,
     jv_queue = Some q, jv_pattern = None, jv_everyMs = None,
     jv_nextRunAt = Some (qj_timestamp x + (case qj_delay x of None \<Rightarrow> 0 | Some d \<Rightarrow> d)), jv_running = None, jv_cluster = True\<rparr>"

definition listQueue :: "job_queue \<Rightarrow> job_view list" where
  "listQueue q = map (scheduler_view (jq_name q)) (jq_schedulers q) @
     map (delayed_view (jq_name q)) (filter (\<lambda>j. truthy (qj_id j) \<and> \<not> truthy (qj_repeatJobKey j)) (take MAX_DELAYED_PER_QUEUE (jq_delayed q)))"

definition cron_view :: "cron_entry \<Rightarrow> job_view" where
  "cron_view c = \<lparr>jv_jobKey = buildJobKey CronJob (ce_name c) None, jv_kind = CronJob, jv_name = ce_name c, jv_queue = None,
     jv_pattern = Some (ce_pattern c), jv_everyMs = None, jv_nextRunAt = ce_nextRunAt c, jv_running = Some (ce_running c), jv_cluster = False\<rparr>"

definition timer_view :: "job_kind \<Rightarrow> string \<Rightarrow> job_view" where
  "timer_view k n = \<lparr>jv_jobKey = buildJobKey k n None, jv_kind = k, jv_name = n, jv_queue = None, jv_pattern = None,
     jv_everyMs = None, jv_nextRunAt = None, jv_running = Some True, jv_cluster = False\<rparr>"

definition listInProcess :: "jobs_db \<Rightarrow> job_view list" where
  "listInProcess s = map cron_view (jd_cron s) @ map (timer_view IntervalJob) (jd_intervals s) @ map (timer_view TimeoutJob) (jd_timeouts s)"

definition listScheduled :: "jobs_db \<Rightarrow> job_view list" where
  "listScheduled s = concat (map listQueue (jd_queues s)) @ listInProcess s"

section \<open>Removal\<close>

definition remove_from_queue :: "(job_queue \<Rightarrow> job_queue) \<Rightarrow> string \<Rightarrow> jobs_db \<Rightarrow> (jobs_db, unit) outcome" where
  "remove_from_queue f q s =
     (if List.find (\<lambda>x. jq_name x = q) (jd_queues s) = None then throw NotFoundException s
      else return () (s\<lparr>jd_queues := update_where (\<lambda>x. jq_name x = q) f (jd_queues s)\<rparr>))"

definition removeJobScheduler :: "string \<Rightarrow> job_queue \<Rightarrow> job_queue" where
  "removeJobScheduler i q = q\<lparr>jq_schedulers := filter (\<lambda>x. qs_key x \<noteq> i) (jq_schedulers q)\<rparr>"

definition removeDelayed :: "string \<Rightarrow> job_queue \<Rightarrow> job_queue" where
  "removeDelayed i q = q\<lparr>jq_delayed := filter (\<lambda>x. qj_id x \<noteq> Some i) (jq_delayed q)\<rparr>"

definition remove_target :: "job_target \<Rightarrow> jobs_db \<Rightarrow> (jobs_db, unit) outcome" where
  "remove_target t s = (case jt_kind t of
     BullScheduler \<Rightarrow> remove_from_queue (removeJobScheduler (jt_id t)) (the (jt_queue t)) s
   | BullDelayed \<Rightarrow>
       (case List.find (\<lambda>x. jq_name x = the (jt_queue t)) (jd_queues s) of
          None \<Rightarrow> throw NotFoundException s
        | Some q \<Rightarrow>
            if List.find (\<lambda>j. qj_id j = Some (jt_id t)) (jq_delayed q) = None then throw NotFoundException s
            else remove_from_queue (removeDelayed (jt_id t)) (the (jt_queue t)) s)
   | CronJob \<Rightarrow> return () (s\<lparr>jd_cron := filter (\<lambda>c. ce_name c \<noteq> jt_id t) (jd_cron s)\<rparr>)
   | IntervalJob \<Rightarrow> return () (s\<lparr>jd_intervals := filter (\<lambda>n. n \<noteq> jt_id t) (jd_intervals s)\<rparr>)
   | TimeoutJob \<Rightarrow> return () (s\<lparr>jd_timeouts := filter (\<lambda>n. n \<noteq> jt_id t) (jd_timeouts s)\<rparr>))"

definition removeScheduled :: "string \<Rightarrow> ident \<Rightarrow> string \<Rightarrow> jobs_db \<Rightarrow> (jobs_db, job_view) outcome" where
  "removeScheduled key adminId reason s = (case parseJobKey key of
     Inl e \<Rightarrow> throw e s
   | Inr t \<Rightarrow> (case List.find (\<lambda>j. jv_jobKey j = key) (listScheduled s) of
       None \<Rightarrow> throw NotFoundException s
     | Some v \<Rightarrow> and_then (remove_target t s) (\<lambda>_ s1.
         return v (s1\<lparr>jd_audit := jd_audit s1 @ [\<lparr>rm_jobKey = key, rm_view = v, rm_reason = reason, rm_adminId = adminId\<rparr>]\<rparr>))))"

section \<open>Keys read back\<close>

lemma parts [simp]:
  "colon \<notin> set a \<Longrightarrow> head_part (a @ colon # b) = a" "colon \<notin> set a \<Longrightarrow> rest_part (a @ colon # b) = b"
  by (induction a) (auto simp: head_part_def rest_part_def)

lemma kind_text_plain [simp]: "colon \<notin> set (kind_text k)" and kind_of_kind_text [simp]: "kind_of_text (kind_text k) = Some k"
  by (cases k; simp add: kind_text_def kind_of_text_def)+

text \<open>A key the service hands out is read back as the job it names; ids may contain colons, names of queues may not.\<close>

lemma queue_key_round_trip:
  assumes "k = BullScheduler \<or> k = BullDelayed" and "q \<noteq> []" "colon \<notin> set q" "i \<noteq> []"
  shows "parseJobKey (buildJobKey k i (Some q)) = Inr \<lparr>jt_kind = k, jt_queue = Some q, jt_id = i\<rparr>"
  using assms by (simp add: parseJobKey_def buildJobKey_def Let_def)

lemma process_key_round_trip:
  assumes "k \<in> {CronJob, IntervalJob, TimeoutJob}" and "i \<noteq> []"
  shows "parseJobKey (buildJobKey k i None) = Inr \<lparr>jt_kind = k, jt_queue = None, jt_id = i\<rparr>"
  using assms by (auto simp: parseJobKey_def buildJobKey_def Let_def)

definition names_ok :: "jobs_db \<Rightarrow> bool" where
  "names_ok s \<longleftrightarrow> list_all (\<lambda>q. jq_name q \<noteq> [] \<and> colon \<notin> set (jq_name q) \<and> list_all (\<lambda>x. qs_key x \<noteq> []) (jq_schedulers q)) (jd_queues s) \<and>
     list_all (\<lambda>c. ce_name c \<noteq> []) (jd_cron s) \<and> list_all (\<lambda>n. n \<noteq> []) (jd_intervals s) \<and> list_all (\<lambda>n. n \<noteq> []) (jd_timeouts s)"

lemma listed_key_parses:
  assumes "names_ok s" and "v \<in> set (listScheduled s)"
  shows "\<exists>t. parseJobKey (jv_jobKey v) = Inr t \<and> jt_kind t = jv_kind v \<and> jt_queue t = jv_queue v"
proof -
  consider q x where "q \<in> set (jd_queues s)" "x \<in> set (jq_schedulers q)" "v = scheduler_view (jq_name q) x"
    | q x where "q \<in> set (jd_queues s)" "truthy (qj_id x)" "v = delayed_view (jq_name q) x"
    | c where "c \<in> set (jd_cron s)" "v = cron_view c"
    | n where "n \<in> set (jd_intervals s)" "v = timer_view IntervalJob n"
    | n where "n \<in> set (jd_timeouts s)" "v = timer_view TimeoutJob n"
    using assms(2) by (auto simp: listScheduled_def listQueue_def listInProcess_def)
  then show ?thesis
  proof cases
    case 1
    with assms(1) show ?thesis using queue_key_round_trip [of BullScheduler "jq_name q" "qs_key x"]
      by (auto simp: scheduler_view_def names_ok_def list_all_iff)
  next
    case 2
    with assms(1) show ?thesis using queue_key_round_trip [of BullDelayed "jq_name q" "the (qj_id x)"]
      by (auto simp: delayed_view_def names_ok_def list_all_iff truthy_iff)
  next
    case 3
    with assms(1) show ?thesis using process_key_round_trip [of CronJob "ce_name c"]
      by (auto simp: cron_view_def names_ok_def list_all_iff)
  next
    case 4
    with assms(1) show ?thesis using process_key_round_trip [of IntervalJob n] by (auto simp: timer_view_def names_ok_def list_all_iff)
  next
    case 5
    with assms(1) show ?thesis using process_key_round_trip [of TimeoutJob n] by (auto simp: timer_view_def names_ok_def list_all_iff)
  qed
qed

text \<open>A failed removal changes nothing and logs nothing; a successful one logs the job it removed, once.\<close>

lemma removal_is_logged:
  assumes "removeScheduled key adm reason s = (r, s')"
  shows "case r of Inl e \<Rightarrow> s' = s
    | Inr v \<Rightarrow> v \<in> set (listScheduled s) \<and> jv_jobKey v = key \<and>
        jd_audit s' = jd_audit s @ [\<lparr>rm_jobKey = key, rm_view = v, rm_reason = reason, rm_adminId = adm\<rparr>]"
proof -
  have rt: "remove_target t s = (Inl e, s1) \<Longrightarrow> s1 = s" "remove_target t s = (Inr x, s1) \<Longrightarrow> jd_audit s1 = jd_audit s" for t e x s1
    by (auto simp: remove_target_def remove_from_queue_def split: job_kind.splits option.splits if_splits)
  show ?thesis
  proof (cases "parseJobKey key")
    case (Inr t)
    show ?thesis
    proof (cases "List.find (\<lambda>j. jv_jobKey j = key) (listScheduled s)")
      case (Some v)
      then have v: "v \<in> set (listScheduled s)" "jv_jobKey v = key" by (auto dest: find_SomeD)
      obtain r1 s1 where t: "remove_target t s = (r1, s1)" by (cases "remove_target t s")
      with assms Inr Some v rt show ?thesis by (cases r1) (auto simp: removeScheduled_def and_then_def return_def)
    qed (use assms Inr in \<open>auto simp: removeScheduled_def\<close>)
  qed (use assms in \<open>auto simp: removeScheduled_def\<close>)
qed

text \<open>Only the first two hundred delayed jobs of a queue are listed; the others cannot be removed by their keys.\<close>

lemma unlisted_cannot_be_removed:
  assumes "\<not> list_ex (\<lambda>j. jv_jobKey j = key) (listScheduled s)" and "parseJobKey key = Inr t"
  shows "removeScheduled key adm reason s = (Inl NotFoundException, s)"
proof -
  have "List.find (\<lambda>j. jv_jobKey j = key) (listScheduled s) = None" using assms(1) unfolding find_None list_ex_iff by blast
  then show ?thesis using assms(2) by (simp add: removeScheduled_def throw_def)
qed

end
