(* ===== verification/Spec2Isabelle.thy ===== *)
theory Spec2Isabelle
  imports
    Prelude Store Claim DisputeSla ArbiterAssignment Disputes Appeals DisputeRaces Fixtures
    DisputeProperties Party PartialRelease ProofVersions Ledger Decimal Milestones MilestoneFlows
    MilestoneProperties ProofSla Discussion Csv Engagements EngagementQueries EngagementProperties
    CreditLedger InvoiceTax Billing InvoicePdf Multisig Sessions Base32 Passwords Accounts JsText
    Doubles Cache CacheClients SystemConfig BatchLoader Privacy PrivacyProperties Locks Idempotency
    JwtKeys Escaping Notifications NotificationProperties WeeklyDigest Users UserProperties Json
    FieldSelection Webhooks IncomingPayments OpenApiDiff Companies CompanyProperties AccountProperties
    TwoFactor StellarAmounts StellarTx HorizonFailover Events EventProperties Schedulers ChainWatch
    Recruiters Sep10 FeeSponsorship HorizonIndexer ActivityFeed Calendar Templates AuditExport
    AccessControl AdminReports StorageCleanup ScheduledJobs
begin

text \<open>
  A model of the HireSettle backend (NestJS, TypeScript, under \<^verbatim>\<open>src/src\<close>) and what makes it correct.

  The program.  A company and a recruiter agree on an \<^emph>\<open>engagement\<close>: a fee, held in escrow by a Soroban
  contract on the Stellar network, is paid out over \<^emph>\<open>milestones\<close> (start of work, then retention periods).
  Milestones are approved by a quorum, proved by the recruiter with versioned documents, released in parts, or
  disputed; an arbiter decides a dispute, a second one the appeal.  The backend is a set of services over
  one PostgreSQL database (\<^verbatim>\<open>prisma/schema.prisma\<close>), scheduled jobs, queues (mail, webhooks) and a poller that
  applies the contract's events.  Around it stand accounts and sessions, companies, billing, notifications,
  and the plumbing the services share: cache, configuration, locks, idempotency, interceptors.

  Conventions.
  \<^item> A handler is a function \<open>env \<Rightarrow> db \<Rightarrow> (exn + 'a) \<times> db\<close> (\<open>outcome\<close> in \<open>Prelude\<close>): an HTTP exception or an
    uncaught JavaScript error is a value, and the database keeps what was written before it, as in the code.
    \<open>transaction\<close> rolls back on an error like \<^verbatim>\<open>$transaction\<close>.
  \<^item> A table is a list of records with the columns the services use; \<open>find\<close>, \<open>filter\<close>, \<open>update_where\<close> and
    \<open>count_where\<close> stand for the Prisma calls, guards included.  Database ids are parameters of the creating call.
  \<^item> What is not under \<^verbatim>\<open>src/\<close> is a parameter: the clock (milliseconds, read once per operation as the code
    does), random values, hashes, signatures, the Stellar SDK, Redis, mail transport, receivers of webhooks.
    Each service has a record of them (\<open>env\<close> and its relatives).  Calls with an outside effect are logged in the state.
  \<^item> Interleavings are step relations whose steps are the database statements or the whole handlers, as
    the code's own atomicity has it; a property of every run is an invariant proved by rule induction.
  \<^item> Machine numbers: amounts are strings of decimal digits or JavaScript numbers in the code.  Where
    rounding matters they go through \<open>Doubles.to_double\<close> (53 bits, half to even); bitwise code is on 32-bit words.

  The theories, by part of the program.
  \<^item> Foundations: \<open>Prelude\<close> (outcomes, tables, collections of simplification rules), \<open>Store\<close> (enums and rows of
    the escrow tables, the environment, notifications and mail as an outbox), \<open>Fixtures\<close> (a concrete world for
    the instances of the properties), \<open>JsText\<close>, \<open>Decimal\<close>, \<open>Doubles\<close>, \<open>Json\<close>, \<open>Escaping\<close> (the library functions of JavaScript
    the services lean on), \<open>Claim\<close> (the claim protocol as a locale, interpreted below).
  \<^item> Disputes (\<^verbatim>\<open>modules/disputes\<close>): \<open>Disputes\<close>, \<open>DisputeSla\<close>, \<open>ArbiterAssignment\<close>, \<open>Appeals\<close>; \<open>DisputeRaces\<close>
    interprets the claim protocol on the settlement; \<open>DisputeProperties\<close>.
  \<^item> Milestones (\<^verbatim>\<open>modules/milestones\<close>): \<open>Party\<close>, \<open>Milestones\<close>, \<open>MilestoneFlows\<close>, \<open>PartialRelease\<close>, \<open>ProofVersions\<close>,
    \<open>ProofSla\<close>, \<open>Discussion\<close>; \<open>MilestoneProperties\<close>.
  \<^item> Engagements (\<^verbatim>\<open>modules/engagements\<close>, \<^verbatim>\<open>modules/engagement-templates\<close>):
    \<open>Engagements\<close>, \<open>EngagementQueries\<close>, \<open>Csv\<close>, \<open>Templates\<close>, \<open>ActivityFeed\<close>; \<open>EngagementProperties\<close>.
  \<^item> Scheduled jobs on engagements (\<^verbatim>\<open>modules/events\<close>, \<^verbatim>\<open>modules/admin\<close>): \<open>Schedulers\<close>, \<open>ChainWatch\<close>.
  \<^item> Money (\<^verbatim>\<open>modules/billing\<close>, \<^verbatim>\<open>modules/multisig\<close>): \<open>CreditLedger\<close>, \<open>InvoiceTax\<close>, \<open>InvoicePdf\<close>, \<open>Billing\<close>, \<open>Multisig\<close>;
    \<^verbatim>\<open>modules/admin\<close>: \<open>IncomingPayments\<close>.
  \<^item> Stellar (\<^verbatim>\<open>common/stellar\<close>, \<^verbatim>\<open>modules/events\<close>): \<open>Ledger\<close>, \<open>StellarAmounts\<close>, \<open>StellarTx\<close>, \<open>HorizonFailover\<close>,
    \<open>FeeSponsorship\<close>, \<open>Sep10\<close>, \<open>HorizonIndexer\<close>; \<open>Events\<close>, \<open>EventProperties\<close> (poller, handlers, retries).
  \<^item> Accounts (\<^verbatim>\<open>modules/auth\<close>, \<^verbatim>\<open>modules/users\<close>): \<open>Passwords\<close>, \<open>Accounts\<close>, \<open>Sessions\<close>, \<open>TwoFactor\<close>, \<open>Base32\<close>, \<open>JwtKeys\<close>,
    \<open>AccessControl\<close> (guards, administrators' operations on accounts), \<open>Users\<close>, \<open>Calendar\<close>, \<open>Privacy\<close>,
    with \<open>AccountProperties\<close>, \<open>UserProperties\<close>, \<open>PrivacyProperties\<close>.
  \<^item> Companies and recruiters (\<^verbatim>\<open>modules/companies\<close>, \<^verbatim>\<open>modules/team-invites\<close>, \<^verbatim>\<open>modules/recruiters\<close>): \<open>Companies\<close>,
    \<open>CompanyProperties\<close>, \<open>Recruiters\<close>.
  \<^item> Messages (\<^verbatim>\<open>modules/notifications\<close>, \<^verbatim>\<open>modules/webhooks\<close>, \<^verbatim>\<open>queues\<close>): \<open>Notifications\<close>, \<open>NotificationProperties\<close>,
    \<open>WeeklyDigest\<close>, \<open>Webhooks\<close>.
  \<^item> Plumbing (\<^verbatim>\<open>common\<close>, \<^verbatim>\<open>graphql\<close>, \<^verbatim>\<open>scripts\<close>): \<open>Cache\<close>, \<open>CacheClients\<close>, \<open>SystemConfig\<close>, \<open>Locks\<close>, \<open>Idempotency\<close>,
    \<open>FieldSelection\<close>, \<open>BatchLoader\<close>, \<open>OpenApiDiff\<close>, \<open>StorageCleanup\<close>.
  \<^item> Administration (\<^verbatim>\<open>modules/admin\<close>): \<open>AdminReports\<close>, \<open>AuditExport\<close>, \<open>ScheduledJobs\<close>; the watchers of the chain are in
    \<open>ChainWatch\<close>, the operations on accounts in \<open>AccessControl\<close>.

  What the groups of lemmas show.
  \<^item> Money moves as decided and at most once: the settlement of a dispute, a partial release and the funding
    of an escrow, under every interleaving (\<open>Claim\<close> and its interpretations); shares and splits are exact; nothing
    is released below the quorum or the signers' threshold; the credit of a company is never overdrawn.
  \<^item> State machines: milestones, appeals, proof versions, templates, invites, transfers of ownership and
    refresh-token families keep their invariants along every run of the operations.
  \<^item> Refinement and equivalence: feature flags through the cache against the table; batched loads
    against single queries; the tax calculator against the place-of-supply rules; base 32 against RFC 4648;
    a page of the merged activity feed against the whole timeline.
  \<^item> Round trips: amounts, CSV rows and the exported audit trail, stored passwords, calendar documents, keys of
    scheduled jobs, exported templates; the cross-reference tables of invoices.
  \<^item> Outside effects: webhooks logged once, notifications not flooded, digests to the active users only,
    repeated requests replayed, one lock holder at a time, payments accounted for.
  \<^item> Faults of the code: where it does not do what it means to, a theorem states what it does (for example
    \<open>AuditExport.late_pages_are_empty\<close>, \<open>AccessControl.sub_roles_never_restrict\<close>, \<open>ActivityFeed.feed_of_one_kind_ends\<close>).
  Where a property needs a hypothesis about a parameter or the data, the theorem after it instantiates it.

  Bounds and fuel.
  \<^item> \<open>StellarTx.poll_until\<close>, \<open>Privacy.anonymize_loop\<close> and \<open>AuditExport.export_loop\<close> are loops whose end depends on the
    data or the outside; they are partial functions into \<open>option\<close>, and that they return is part of what is proved
    (at most sixteen polls; a job with fewer failures than a batch ends, one with a full batch of failures never
    does; the export ends for tables of every size).
  \<^item> \<open>HorizonIndexer.runWithBackoff\<close> terminates by its measure, the attempts left.
  \<^item> \<open>OpenApiDiff.flattenProperties\<close> stops at the source's own depth of eight.
  \<^item> Polls, retries and pages stop at the constants of the source (attempts, page sizes, windows).  No other fuel is used.

  Not modelled.
  \<^item> Texts: messages of exceptions, bodies of mails and notifications (except where their escaping or format is
    the point), log lines, API documentation.
  \<^item> HTTP controllers and filters that only route to services (the guards are modelled); modules,
    bootstrapping, metrics, health checks, tracing.
  \<^item> Third-party behaviour: S3, ClamAV, Handlebars, opossum (the circuit breaker, which nothing calls), Google,
    SAML, WebAuthn and wallet libraries; the services around them only forward.
  \<^item> Searches and lists of \<^verbatim>\<open>modules/admin\<close> over tables other services own, the exports of engagements and disputes
    (columns the model does not have), saved filters, watchers (a stub): plain queries without state of their own.
  \<^item> Superseded copies of services that no module imports (\<^verbatim>\<open>src/admin\<close>, \<^verbatim>\<open>src/billing\<close>, \<^verbatim>\<open>src/engagements\<close> and the
    like), the command line, seeds and tests.
  \<^item> Database behaviour beyond what is said above: foreign keys, indexes other than the unique ones the code
    relies on, isolation anomalies within one transaction.
\<close>

end
